(* ===== verification/Prelude.thy ===== *)
theory Prelude
  imports Main "HOL-Library.Word" "HOL-Library.List_Lexorder" "HOL-Library.Char_ord"
begin

text \<open>
  Shared material of the development: the machine integer types, the C string functions
  the servicebroker uses, the standard library algorithms it calls (\<^verbatim>\<open>std::lower_bound\<close>,
  \<^verbatim>\<open>std::remove\<close>, erasing the first match, searching a vector from its end) and the generic
  lemmas on them that every component shares.
\<close>

section \<open>Types and collections\<close>

type_synonym u16 = "16 word"
type_synonym u32 = "32 word"
type_synonym u64 = "64 word"

named_theorems sb_frame \<open>rules saying which parts of the broker state an operation leaves alone\<close>

section \<open>C strings\<close>

text \<open>
  A C string is the bytes up to the first NUL. A character buffer is given by the bytes from
  its start on; bytes that are not listed are NUL.
\<close>

abbreviation NUL :: char where
  "NUL \<equiv> CHR 0x00"

definition byte :: "char \<Rightarrow> nat" where
  "byte c = of_char c"

definition c_str :: "char list \<Rightarrow> string" where
  "c_str mem = takeWhile (\<lambda>c. c \<noteq> NUL) mem"

definition byte_at :: "char list \<Rightarrow> nat \<Rightarrow> char" where
  "byte_at mem i = (if i < length mem then mem ! i else NUL)"

fun strcmp :: "string \<Rightarrow> string \<Rightarrow> int" where
  "strcmp [] [] = 0"
| "strcmp [] (y # ys) = - 1"
| "strcmp (x # xs) [] = 1"
| "strcmp (x # xs) (y # ys) =
     (if x = y then strcmp xs ys else if byte x < byte y then - 1 else 1)"

text \<open>The last \<open>n\<close> characters of a string that has that many.\<close>

definition ends_with :: "string \<Rightarrow> string \<Rightarrow> bool" where
  "ends_with s t \<longleftrightarrow> length t \<le> length s \<and> drop (length s - length t) s = t"

section \<open>Standard library algorithms\<close>

text \<open>
  \<^verbatim>\<open>std::lower_bound\<close> as the library implements it: a binary search for the first element
  the predicate (the comparison with the searched value) does not hold for.
\<close>

function lb_search :: "('a \<Rightarrow> bool) \<Rightarrow> 'a list \<Rightarrow> nat \<Rightarrow> nat \<Rightarrow> nat" where
  "lb_search c xs first len =
     (if len = 0 then first
      else let half = len div 2; mid = first + half
           in if c (xs ! mid) then lb_search c xs (Suc mid) (len - half - 1)
              else lb_search c xs first half)"
  by pat_completeness auto
termination
  by (relation "measure (\<lambda>(c, xs, first, len). len)") auto

definition lower_bound :: "('a \<Rightarrow> bool) \<Rightarrow> 'a list \<Rightarrow> nat" where
  "lower_bound c xs = lb_search c xs 0 (length xs)"

text \<open>Erasing the first element that satisfies a predicate.\<close>

fun erase_first :: "('a \<Rightarrow> bool) \<Rightarrow> 'a list \<Rightarrow> 'a list" where
  "erase_first P [] = []"
| "erase_first P (x # xs) = (if P x then xs else x # erase_first P xs)"

text \<open>Updating the first element that satisfies a predicate.\<close>

fun update_first :: "('a \<Rightarrow> bool) \<Rightarrow> ('a \<Rightarrow> 'a) \<Rightarrow> 'a list \<Rightarrow> 'a list" where
  "update_first P f [] = []"
| "update_first P f (x # xs) = (if P x then f x # xs else x # update_first P f xs)"

text \<open>
  \<^verbatim>\<open>std::remove\<close>: the kept elements move to the front, the tail of the range keeps its old
  values and the range keeps its length (nothing is erased).
\<close>

definition std_remove :: "'a \<Rightarrow> 'a list \<Rightarrow> 'a list" where
  "std_remove x xs = (let ys = filter (\<lambda>y. y \<noteq> x) xs in ys @ drop (length ys) xs)"

text \<open>The loop that searches a vector from its last index down and returns the index, or -1.\<close>

fun find_last :: "('a \<Rightarrow> bool) \<Rightarrow> 'a list \<Rightarrow> nat \<Rightarrow> int" where
  "find_last P xs 0 = - 1"
| "find_last P xs (Suc i) = (if P (xs ! i) then int i else find_last P xs i)"

section \<open>Lemmas\<close>

lemma byte_less_iff: "byte x < byte y \<longleftrightarrow> x < y"
  by (simp add: byte_def less_char_def)

lemma byte_eq_iff [simp]: "byte x = byte y \<longleftrightarrow> x = y"
  by (simp add: byte_def)

lemma strcmp_neg_iff: "strcmp a b < 0 \<longleftrightarrow> a < b"
  by (induction a b rule: strcmp.induct) (auto simp: byte_less_iff)

lemma strcmp_zero_iff [simp]: "strcmp a b = 0 \<longleftrightarrow> a = b"
  by (induction a b rule: strcmp.induct) auto

lemma strcmp_pos_iff: "0 < strcmp a b \<longleftrightarrow> b < a"
  by (induction a b rule: strcmp.induct) (auto simp: byte_less_iff)

lemma c_str_no_nul: "NUL \<notin> set (c_str mem)"
  by (auto simp: c_str_def dest: set_takeWhileD)

declare lb_search.simps [simp del]

text \<open>The binary search on a range that its predicate partitions.\<close>

lemma lb_search_boundary:
  assumes "k \<le> length xs" and "first \<le> k" and "k \<le> first + len" and "first + len \<le> length xs"
    and "\<And>i. i < length xs \<Longrightarrow> c (xs ! i) \<longleftrightarrow> i < k"
  shows "lb_search c xs first len = k"
  using assms
proof (induction c xs first len rule: lb_search.induct)
  case (1 c xs first len)
  show ?case
  proof (cases "len = 0")
    case True
    with "1.prems" show ?thesis by (simp add: lb_search.simps)
  next
    case False
    define mid where "mid = first + len div 2"
    have mid: "mid < first + len" using False by (simp add: mid_def)
    then have iff: "c (xs ! mid) \<longleftrightarrow> mid < k" using "1.prems" by simp
    show ?thesis
    proof (cases "c (xs ! mid)")
      case True
      have "lb_search c xs (Suc mid) (len - len div 2 - 1) = k"
        using "1.IH"(1) [OF False refl refl] "1.prems" True iff mid
        by (simp add: mid_def)
      then show ?thesis using True False by (simp add: lb_search.simps [of c xs first len] mid_def)
    next
      case notc: False
      have "lb_search c xs first (len div 2) = k"
        using "1.IH"(2) [OF False refl refl] "1.prems" notc iff mid
        by (simp add: mid_def)
      then show ?thesis using notc False by (simp add: lb_search.simps [of c xs first len] mid_def)
    qed
  qed
qed

lemma lower_bound_takeWhile:
  assumes "sorted_wrt (\<lambda>a b. c b \<longrightarrow> c a) xs"
  shows "lower_bound c xs = length (takeWhile c xs)"
  unfolding lower_bound_def
proof (rule lb_search_boundary)
  show "length (takeWhile c xs) \<le> length xs" by (simp add: length_takeWhile_le)
  show "length (takeWhile c xs) \<le> 0 + length xs" by (simp add: length_takeWhile_le)
  fix i assume i: "i < length xs"
  show "c (xs ! i) \<longleftrightarrow> i < length (takeWhile c xs)"
  proof
    assume ci: "c (xs ! i)"
    show "i < length (takeWhile c xs)"
    proof (rule ccontr)
      define k where "k = length (takeWhile c xs)"
      assume "\<not> i < length (takeWhile c xs)"
      then have k: "k \<le> i" by (simp add: k_def)
      with i have "\<not> c (xs ! k)" unfolding k_def by (simp add: nth_length_takeWhile)
      with ci k have "k < i" by (cases "k = i") auto
      with assms i ci have "c (xs ! k)" by (auto simp: sorted_wrt_iff_nth_less)
      with \<open>\<not> c (xs ! k)\<close> show False by contradiction
    qed
  next
    assume "i < length (takeWhile c xs)"
    then show "c (xs ! i)" by (metis nth_mem set_takeWhileD takeWhile_nth)
  qed
qed simp_all

lemma find_key_iff:
  assumes "\<And>a b. a \<in> set es \<Longrightarrow> b \<in> set es \<Longrightarrow> f a = f b \<Longrightarrow> a = b"
  shows "find (\<lambda>x. f x = k) es = Some e \<longleftrightarrow> e \<in> set es \<and> f e = k"
proof
  assume "find (\<lambda>x. f x = k) es = Some e"
  then show "e \<in> set es \<and> f e = k" by (auto simp: find_Some_iff)
next
  assume e: "e \<in> set es \<and> f e = k"
  then have "find (\<lambda>x. f x = k) es \<noteq> None" by (auto simp: find_None_iff)
  then obtain x where x: "find (\<lambda>x. f x = k) es = Some x" by blast
  then have "x \<in> set es \<and> f x = k" by (auto simp: find_Some_iff)
  with e assms x show "find (\<lambda>x. f x = k) es = Some e" by auto
qed

lemma set_erase_first_subset: "set (erase_first P xs) \<subseteq> set xs"
  by (induction xs) auto

lemma erase_first_none [simp]: "\<forall>x \<in> set xs. \<not> P x \<Longrightarrow> erase_first P xs = xs"
  by (induction xs) auto

lemma erase_first_other: "x \<in> set xs \<Longrightarrow> \<not> P x \<Longrightarrow> x \<in> set (erase_first P xs)"
  by (induction xs) auto

lemma sorted_wrt_erase_first: "sorted_wrt R xs \<Longrightarrow> sorted_wrt R (erase_first P xs)"
  by (induction xs) (auto dest: set_erase_first_subset [THEN subsetD])

lemma distinct_map_erase_first:
  "distinct (map f xs) \<Longrightarrow> distinct (map f (erase_first P xs))"
  by (induction xs) (auto dest: set_erase_first_subset [THEN subsetD])

lemma erase_first_removes:
  "distinct (map f xs) \<Longrightarrow> y \<in> set (erase_first (\<lambda>x. f x = k) xs) \<Longrightarrow> f y \<noteq> k"
  by (induction xs) (auto split: if_splits simp: image_iff)

lemma length_erase_first:
  "length (erase_first P xs) = (if \<exists>x \<in> set xs. P x then length xs - 1 else length xs)"
  by (induction xs) (auto simp: Suc_diff_1 dest: length_pos_if_in_set)

lemma map_update_first:
  "(\<And>x. g (f x) = g x) \<Longrightarrow> map g (update_first P f xs) = map g xs"
  by (induction xs) auto

lemma set_update_first:
  "y \<in> set (update_first P f xs) \<Longrightarrow> y \<in> set xs \<or> (\<exists>x \<in> set xs. P x \<and> y = f x)"
  by (induction xs) (auto split: if_splits)

lemma length_std_remove [simp]: "length (std_remove x xs) = length xs"
  by (simp add: std_remove_def Let_def)

lemma std_remove_keeps: "y \<in> set xs \<Longrightarrow> y \<noteq> x \<Longrightarrow> y \<in> set (std_remove x xs)"
  by (simp add: std_remove_def Let_def)

lemma std_remove_subset: "set (std_remove x xs) \<subseteq> set xs"
  by (auto simp: std_remove_def Let_def dest: in_set_dropD)

lemma std_remove_last: "std_remove x (xs @ [x]) = std_remove x xs @ [x]"
  by (simp add: std_remove_def Let_def)

lemma find_last_bounds: "find_last P xs n = int i \<Longrightarrow> i < n \<and> P (xs ! i)"
  by (induction n) (auto split: if_splits)

lemma find_last_range: "- 1 \<le> find_last P xs n \<and> find_last P xs n < int n"
  by (induction n) auto

lemma find_last_none: "find_last P xs n = - 1 \<longleftrightarrow> (\<forall>i < n. \<not> P (xs ! i))"
  by (induction n) (auto simp: less_Suc_eq)

lemma find_last_some:
  assumes "find_last P xs (length xs) \<noteq> - 1"
  shows "nat (find_last P xs (length xs)) < length xs \<and> P (xs ! nat (find_last P xs (length xs)))"
proof -
  from assms find_last_range [of P xs "length xs"]
  have "find_last P xs (length xs) = int (nat (find_last P xs (length xs)))" by simp
  then show ?thesis by (rule find_last_bounds)
qed

lemma map_erase_first: "(\<And>x. P x = Q (f x)) \<Longrightarrow> map f (erase_first P xs) = erase_first Q (map f xs)"
  by (induction xs) auto

lemma erase_first_filter:
  "distinct (map f xs) \<Longrightarrow> erase_first (\<lambda>x. f x = k) xs = filter (\<lambda>x. f x \<noteq> k) xs"
proof (induction xs)
  case (Cons x xs)
  then have "filter (\<lambda>y. f y \<noteq> f x) xs = xs" by (simp add: filter_id_conv) (metis imageI)
  with Cons show ?case by auto
qed simp

section \<open>Numbers in decimal\<close>

text \<open>The decimal digits of a number, and \<^verbatim>\<open>%d\<close>.\<close>

fun decimal :: "nat \<Rightarrow> string" where
  "decimal n = (if n < 10 then [char_of (48 + n)] else decimal (n div 10) @ [char_of (48 + n mod 10)])"

declare decimal.simps [simp del]

definition print_d :: "int \<Rightarrow> string" where
  "print_d i = (if i < 0 then ''-'' @ decimal (nat (- i)) else decimal (nat i))"

lemma decimal_length: "n < 10 ^ k \<Longrightarrow> 0 < k \<Longrightarrow> length (decimal n) \<le> k"
proof (induction n arbitrary: k rule: decimal.induct)
  case (1 n)
  show ?case
  proof (cases "n < 10")
    case False
    then obtain j where k: "k = Suc j" "0 < j" using "1.prems" by (cases k; cases "k - 1") auto
    then have "n div 10 < 10 ^ j" using "1.prems"(1) by (simp add: div_less_iff_less_mult mult.commute)
    then show ?thesis using "1.IH" [OF False _ k(2)] False k(1) by (subst decimal.simps) simp
  qed (use "1.prems" in \<open>subst decimal.simps; simp\<close>)
qed

lemma print_d_length:
  assumes "- (2 ^ 31) \<le> i" "i < 2 ^ 31"
  shows "length (print_d i) \<le> 11"
proof -
  have "nat (- i) < 10 ^ 10" "nat i < 10 ^ 10" using assms by simp_all
  from this [THEN decimal_length] have "length (decimal (nat (- i))) \<le> 10" "length (decimal (nat i)) \<le> 10"
    by simp_all
  then show ?thesis by (simp add: print_d_def)
qed

section \<open>Outcomes\<close>

text \<open>
  The outcome of code that may run into an error or never return: \<open>None\<close> for a loop that does not
  end, \<open>Inl\<close> for an error that stops the caller too, \<open>Inr\<close> for a result.
\<close>

type_synonym ('e, 'a) outcome = "('e + 'a) option"

definition obind :: "('e, 'a) outcome \<Rightarrow> ('a \<Rightarrow> ('e, 'b) outcome) \<Rightarrow> ('e, 'b) outcome" where
  "obind r f =
     (case r of None \<Rightarrow> None
      | Some (Inl e) \<Rightarrow> Some (Inl e)
      | Some (Inr x) \<Rightarrow> f x)"

lemma obind_simps [simp]:
  "obind None f = None"
  "obind (Some (Inl e)) f = Some (Inl e)"
  "obind (Some (Inr x)) f = f x"
  by (simp_all add: obind_def)

lemma obind_assoc [simp]: "obind (obind r f) g = obind r (\<lambda>x. obind (f x) g)"
  by (simp add: obind_def split: option.splits sum.splits)

end
