(* ===== verification/SB_Types.thy ===== *)
theory SB_Types
  imports Prelude
begin

text \<open>
  The data of the servicebroker protocol: party identifiers, versions, interface descriptions,
  pulse and channel information, status codes, and one \<open>request\<close> constructor per
  \<^verbatim>\<open>DCMD_FND_*\<close> command with the fields of its \<open>.i\<close> argument structure
  (\<^verbatim>\<open>include/dsi/private/servicebroker.h\<close>, \<^verbatim>\<open>InterfaceDescription.hpp/.cpp\<close>).
  \<^verbatim>\<open>int32_t\<close> and \<^verbatim>\<open>uint32_t\<close> fields are 32-bit words, read signed with \<open>sint\<close> where the
  code compares them signed. The numeric command codes and structure sizes are those of the
  32-bit platforms the code is built for (\<^verbatim>\<open>Notifier.cpp\<close> asserts 4-byte pointers).
\<close>

section \<open>Party identifiers\<close>

record SPartyID =
  localID :: u32
  extendedID :: u32

text \<open>The \<open>globalID\<close> view of the union (little endian: \<open>localID\<close> is the low half).\<close>

definition globalID :: "SPartyID \<Rightarrow> u64" where
  "globalID p = push_bit 32 (ucast (extendedID p)) + ucast (localID p)"

definition party_assign :: "u64 \<Rightarrow> SPartyID" where
  "party_assign g = \<lparr>localID = ucast g, extendedID = ucast (drop_bit 32 g)\<rparr>"

text \<open>\<^verbatim>\<open>SPartyID::operator==\<close> compares the local halves only.\<close>

definition party_eq :: "SPartyID \<Rightarrow> SPartyID \<Rightarrow> bool" where
  "party_eq p q \<longleftrightarrow> localID p = localID q"

section \<open>Versions, interface descriptions, pulses, channels\<close>

record SFNDInterfaceVersion =
  v_major :: u16
  v_minor :: u16

record SFNDImplementationVersion =
  iv_major :: u16
  iv_minor :: u16
  iv_patch :: u16

definition NAME_SIZE :: nat where
  "NAME_SIZE = 256"

text \<open>
  The name field is given by the memory from the first byte of the \<^verbatim>\<open>char name[NAME_MAX+1]\<close>
  array on, so that reads past the array are expressible.
\<close>

record SFNDInterfaceDescription =
  sf_version :: SFNDInterfaceVersion
  sf_name :: "char list"

record InterfaceDescription =
  if_name :: string
  if_major :: int
  if_minor :: int

definition empty_ifDescription :: InterfaceDescription where
  "empty_ifDescription = \<lparr>if_name = [], if_major = 0, if_minor = 0\<rparr>"

definition to_ifDescription :: "SFNDInterfaceDescription \<Rightarrow> InterfaceDescription" where
  "to_ifDescription d =
     \<lparr>if_name = c_str (sf_name d),
      if_major = uint (v_major (sf_version d)),
      if_minor = uint (v_minor (sf_version d))\<rparr>"

text \<open>\<^verbatim>\<open>operator SFNDInterfaceDescription\<close>: \<^verbatim>\<open>strncpy\<close> into the fixed array, padded with NUL.\<close>

definition strncpy :: "nat \<Rightarrow> string \<Rightarrow> char list" where
  "strncpy n s = take n s @ replicate (n - length s) NUL"

definition from_ifDescription :: "InterfaceDescription \<Rightarrow> SFNDInterfaceDescription" where
  "from_ifDescription d =
     \<lparr>sf_version = \<lparr>v_major = word_of_int (if_major d), v_minor = word_of_int (if_minor d)\<rparr>,
      sf_name = strncpy NAME_SIZE (if_name d)\<rparr>"

definition ifDescription_eq :: "InterfaceDescription \<Rightarrow> InterfaceDescription \<Rightarrow> bool" where
  "ifDescription_eq a b \<longleftrightarrow>
     if_name a = if_name b \<and> if_major a = if_major b \<and> if_minor a = if_minor b"

definition ifDescription_gt :: "InterfaceDescription \<Rightarrow> InterfaceDescription \<Rightarrow> bool" where
  "ifDescription_gt a b =
     (if 0 < strcmp (if_name a) (if_name b) then True
      else if if_name a = if_name b then
        (if if_major b < if_major a then True
         else if if_major a = if_major b then if_minor b < if_minor a else False)
      else False)"

record SFNDPulseInfo =
  p_code :: u32
  p_value :: u32
  p_chid :: u32
  p_pid :: u32

definition zero_pulse :: SFNDPulseInfo where
  "zero_pulse = \<lparr>p_code = 0, p_value = 0, p_chid = 0, p_pid = 0\<rparr>"

record SFNDChannelInfo =
  c_nid :: u32
  c_pid :: u32
  c_chid :: u32

record SConnectionInfo =
  ci_version :: SFNDInterfaceVersion
  ci_channel :: SFNDChannelInfo
  ci_serverID :: SPartyID
  ci_clientID :: SPartyID

record SServerInfo =
  si_channel :: SFNDChannelInfo
  si_serverID :: SPartyID

record SFNDInterfaceDescriptionEx =
  dx_impl :: SFNDImplementationVersion
  dx_chid :: u32
  dx_pid :: u32
  dx_nd :: u32
  dx_serverID :: SPartyID
  dx_ifDescription :: SFNDInterfaceDescription

record SFNDNotificationDescription =
  nd_cookie :: u32
  nd_pulse :: SFNDPulseInfo
  nd_ifDescription :: SFNDInterfaceDescription

record SFNDNotificationID =
  ni_cookie :: u32
  ni_notificationID :: u32

section \<open>Status codes\<close>

datatype SBStatus =
    FNDOK | FNDVersionMismatch | FNDUnknownInterface | FNDInterfaceAlreadyRegistered
  | FNDInvalidServerID | FNDInvalidClientID | FNDInvalidNotificationID | FNDBadArgument
  | FNDBadFoundationVersion | FNDRegularExpression | FNDAccessDenied | FNDUnknownCommand
  | FNDInternalError

fun status_code :: "SBStatus \<Rightarrow> int" where
  "status_code FNDOK = 0"
| "status_code FNDVersionMismatch = 1"
| "status_code FNDUnknownInterface = 2"
| "status_code FNDInterfaceAlreadyRegistered = 3"
| "status_code FNDInvalidServerID = 4"
| "status_code FNDInvalidClientID = 5"
| "status_code FNDInvalidNotificationID = 6"
| "status_code FNDBadArgument = 7"
| "status_code FNDBadFoundationVersion = 8"
| "status_code FNDRegularExpression = 9"
| "status_code FNDAccessDenied = 10"
| "status_code FNDUnknownCommand = 11"
| "status_code FNDInternalError = 12"

fun toString :: "SBStatus \<Rightarrow> string" where
  "toString FNDOK = ''FNDOK''"
| "toString FNDVersionMismatch = ''FNDVersionMismatch''"
| "toString FNDUnknownInterface = ''FNDUnknownInterface''"
| "toString FNDInterfaceAlreadyRegistered = ''FNDInterfaceAlreadyRegistered''"
| "toString FNDInvalidServerID = ''FNDInvalidServerID''"
| "toString FNDInvalidClientID = ''FNDInvalidClientID''"
| "toString FNDInvalidNotificationID = ''FNDInvalidNotificationID''"
| "toString FNDBadArgument = ''FNDBadArgument''"
| "toString FNDBadFoundationVersion = ''FNDBadFoundationVersion''"
| "toString FNDRegularExpression = ''FNDRegularExpression''"
| "toString FNDAccessDenied = ''FNDAccessDenied''"
| "toString FNDUnknownCommand = ''FNDUnknownCommand''"
| "toString FNDInternalError = ''FNDInternalError''"

section \<open>Requests\<close>

text \<open>
  One constructor per command. The commands that read ancillary elements after their fixed
  part carry the element count of the fixed part and the elements the message really has.
\<close>

datatype request =
    REGISTER_INTERFACE SFNDInterfaceDescription u32 u32
  | REGISTER_INTERFACE_EX u32 u32 u32 "SFNDInterfaceDescription list"
  | REGISTER_INTERFACE_GROUPID SFNDInterfaceDescription u32 u32 u32
  | UNREGISTER_INTERFACE SPartyID
  | ATTACH_INTERFACE SFNDInterfaceDescription
  | ATTACH_INTERFACE_EXTENDED SFNDPulseInfo SFNDInterfaceDescription
  | GET_SERVER_INFORMATION SFNDInterfaceDescription
  | DETACH_INTERFACE SPartyID
  | NOTIFY_SERVER_DISCONNECT SPartyID SFNDPulseInfo
  | NOTIFY_SERVER_AVAILABLE SFNDPulseInfo SFNDInterfaceDescription
  | NOTIFY_SERVER_AVAILABLE_EX u32 "SFNDNotificationDescription list"
  | NOTIFY_CLIENT_DETACH SPartyID SFNDPulseInfo
  | CLEAR_NOTIFICATION u32
  | REGISTER_MASTER_INTERFACE_EX u32 "SFNDInterfaceDescriptionEx list"
  | GET_INTERFACELIST u32
  | NOTIFY_INTERFACELIST_CHANGE SFNDPulseInfo
  | MATCH_INTERFACELIST u32 string
  | NOTIFY_INTERFACELIST_MATCH SFNDPulseInfo string
  | MASTER_PING
  | MASTER_PING_ID u32
  | OTHER_COMMAND u32

text \<open>The \<^verbatim>\<open>sizeof\<close> of each argument union.\<close>

fun arg_size :: "request \<Rightarrow> nat" where
  "arg_size (REGISTER_INTERFACE _ _ _) = 280"
| "arg_size (REGISTER_INTERFACE_EX _ _ _ _) = 24"
| "arg_size (REGISTER_INTERFACE_GROUPID _ _ _ _) = 288"
| "arg_size (UNREGISTER_INTERFACE _) = 16"
| "arg_size (ATTACH_INTERFACE _) = 264"
| "arg_size (ATTACH_INTERFACE_EXTENDED _ _) = 280"
| "arg_size (GET_SERVER_INFORMATION _) = 264"
| "arg_size (DETACH_INTERFACE _) = 16"
| "arg_size (NOTIFY_SERVER_DISCONNECT _ _) = 32"
| "arg_size (NOTIFY_SERVER_AVAILABLE _ _) = 280"
| "arg_size (NOTIFY_SERVER_AVAILABLE_EX _ _) = 8"
| "arg_size (NOTIFY_CLIENT_DETACH _ _) = 32"
| "arg_size (CLEAR_NOTIFICATION _) = 8"
| "arg_size (REGISTER_MASTER_INTERFACE_EX _ _) = 8"
| "arg_size (GET_INTERFACELIST _) = 260"
| "arg_size (NOTIFY_INTERFACELIST_CHANGE _) = 20"
| "arg_size (MATCH_INTERFACELIST _ _) = 264"
| "arg_size (NOTIFY_INTERFACELIST_MATCH _ _) = 276"
| "arg_size MASTER_PING = 0"
| "arg_size (MASTER_PING_ID _) = 12"
| "arg_size (OTHER_COMMAND _) = 0"

text \<open>The command number inside its class (the second argument of the \<^verbatim>\<open>__DIOTF\<close> macro).\<close>

fun cmd_number :: "request \<Rightarrow> nat" where
  "cmd_number (REGISTER_INTERFACE _ _ _) = 0"
| "cmd_number (UNREGISTER_INTERFACE _) = 1"
| "cmd_number (ATTACH_INTERFACE _) = 2"
| "cmd_number (DETACH_INTERFACE _) = 3"
| "cmd_number (NOTIFY_SERVER_DISCONNECT _ _) = 4"
| "cmd_number (NOTIFY_SERVER_AVAILABLE _ _) = 5"
| "cmd_number (NOTIFY_SERVER_AVAILABLE_EX _ _) = 5"
| "cmd_number (NOTIFY_CLIENT_DETACH _ _) = 6"
| "cmd_number (CLEAR_NOTIFICATION _) = 7"
| "cmd_number (GET_INTERFACELIST _) = 8"
| "cmd_number (NOTIFY_INTERFACELIST_CHANGE _) = 9"
| "cmd_number (MATCH_INTERFACELIST _ _) = 10"
| "cmd_number (NOTIFY_INTERFACELIST_MATCH _ _) = 11"
| "cmd_number (REGISTER_INTERFACE_EX _ _ _ _) = 12"
| "cmd_number (REGISTER_INTERFACE_GROUPID _ _ _ _) = 13"
| "cmd_number (REGISTER_MASTER_INTERFACE_EX _ _) = 30"
| "cmd_number MASTER_PING = 31"
| "cmd_number (MASTER_PING_ID _) = 32"
| "cmd_number (ATTACH_INTERFACE_EXTENDED _ _) = 35"
| "cmd_number (GET_SERVER_INFORMATION _) = 37"
| "cmd_number (OTHER_COMMAND _) = 0"

text \<open>\<^verbatim>\<open>__DIOTF\<close> and \<^verbatim>\<open>__DION\<close> of \<^verbatim>\<open>platform.h\<close> with \<^verbatim>\<open>_DCMD_MISC\<close> = 5.\<close>

definition DIOTF :: "nat \<Rightarrow> nat \<Rightarrow> u32" where
  "DIOTF cmd sz = push_bit 16 (of_nat sz) + push_bit 8 5 + of_nat cmd + 0xC0000000"

definition DION :: "nat \<Rightarrow> u32" where
  "DION cmd = push_bit 8 5 + of_nat cmd"

fun dcmd :: "request \<Rightarrow> u32" where
  "dcmd MASTER_PING = DION 31"
| "dcmd (OTHER_COMMAND c) = c"
| "dcmd r = DIOTF (cmd_number r) (arg_size r)"

text \<open>The name of a command, for the log.\<close>

fun GetDCmdString :: "request \<Rightarrow> string" where
  "GetDCmdString (REGISTER_INTERFACE _ _ _) = ''DCMD_FND_REGISTER_INTERFACE''"
| "GetDCmdString (REGISTER_INTERFACE_EX _ _ _ _) = ''DCMD_FND_REGISTER_INTERFACE_EX''"
| "GetDCmdString (UNREGISTER_INTERFACE _) = ''DCMD_FND_UNREGISTER_INTERFACE''"
| "GetDCmdString (ATTACH_INTERFACE _) = ''DCMD_FND_ATTACH_INTERFACE''"
| "GetDCmdString (ATTACH_INTERFACE_EXTENDED _ _) = ''DCMD_FND_ATTACH_INTERFACE_EXTENDED''"
| "GetDCmdString (DETACH_INTERFACE _) = ''DCMD_FND_DETACH_INTERFACE''"
| "GetDCmdString (NOTIFY_SERVER_DISCONNECT _ _) = ''DCMD_FND_NOTIFY_SERVER_DISCONNECT''"
| "GetDCmdString (NOTIFY_SERVER_AVAILABLE _ _) = ''DCMD_FND_NOTIFY_SERVER_AVAILABLE''"
| "GetDCmdString (NOTIFY_SERVER_AVAILABLE_EX _ _) = ''DCMD_FND_NOTIFY_SERVER_AVAILABLE_EX''"
| "GetDCmdString (NOTIFY_CLIENT_DETACH _ _) = ''DCMD_FND_NOTIFY_CLIENT_DETACH''"
| "GetDCmdString (CLEAR_NOTIFICATION _) = ''DCMD_FND_CLEAR_NOTIFICATION''"
| "GetDCmdString (REGISTER_MASTER_INTERFACE_EX _ _) = ''DCMD_FND_REGISTER_MASTER_INTERFACE_EX''"
| "GetDCmdString MASTER_PING = ''DCMD_FND_MASTER_PING''"
| "GetDCmdString (GET_INTERFACELIST _) = ''DCMD_FND_GET_INTERFACELIST''"
| "GetDCmdString (NOTIFY_INTERFACELIST_CHANGE _) = ''DCMD_FND_NOTIFY_INTERFACELIST_CHANGE''"
| "GetDCmdString (NOTIFY_INTERFACELIST_MATCH _ _) = ''DCMD_FND_NOTIFY_INTERFACELIST_MATCH''"
| "GetDCmdString (REGISTER_INTERFACE_GROUPID _ _ _ _) = ''DCMD_FND_REGISTER_INTERFACE_GROUPID''"
| "GetDCmdString (GET_SERVER_INFORMATION _) = ''DCMD_FND_GET_SERVER_INFORMATION''"
| "GetDCmdString (MASTER_PING_ID _) = ''DCMD_FND_MASTER_PING_ID''"
| "GetDCmdString (MATCH_INTERFACELIST _ _) = ''DCMD_FND_MATCH_INTERFACELIST''"
| "GetDCmdString (OTHER_COMMAND _) = ''<UNKNOWN DCMD>''"

section \<open>Constants of \<^verbatim>\<open>config.h\<close> and \<^verbatim>\<open>NotificationList.hpp\<close>\<close>

definition SB_LOCAL_NODE_ADDRESS :: u32 where "SB_LOCAL_NODE_ADDRESS = 0"
definition SB_LOCAL_IP_ADDRESS :: u32 where "SB_LOCAL_IP_ADDRESS = 0x7f000001"
definition SB_UNKNOWN_USER_ID :: u32 where "SB_UNKNOWN_USER_ID = - 1"
definition SB_UNKNOWN_GROUP_ID :: u32 where "SB_UNKNOWN_GROUP_ID = - 1"
definition SB_UNKNOWN_IP_ADDRESS :: u32 where "SB_UNKNOWN_IP_ADDRESS = - 1"
definition INVALID_NOTIFICATION_ID :: u32 where "INVALID_NOTIFICATION_ID = 0xffffffff"
definition MAX_MULTIPLE_COUNT :: nat where "MAX_MULTIPLE_COUNT = 32"

definition PULSE_MASTER_CONNECTED :: u32 where "PULSE_MASTER_CONNECTED = 10"
definition PULSE_MASTER_DISCONNECTED :: u32 where "PULSE_MASTER_DISCONNECTED = 11"
definition PULSE_JOB_EXECUTED :: u32 where "PULSE_JOB_EXECUTED = 12"
definition PULSE_MASTER_SERVER_AVAILABLE :: u32 where "PULSE_MASTER_SERVER_AVAILABLE = 20"
definition PULSE_MASTER_SERVER_DISCONNECT :: u32 where "PULSE_MASTER_SERVER_DISCONNECT = 21"
definition PULSE_MASTER_CLIENT_DETACH :: u32 where "PULSE_MASTER_CLIENT_DETACH = 22"
definition PULSE_MASTER_SERVERLIST_CHANGE :: u32 where "PULSE_MASTER_SERVERLIST_CHANGE = 23"
definition PULSE_MASTER_ATTACH_EXTENDED :: u32 where "PULSE_MASTER_ATTACH_EXTENDED = 24"

section \<open>Version and name checks (\<^verbatim>\<open>Servicebroker::check\<close>)\<close>

definition check_version :: "SFNDInterfaceVersion \<Rightarrow> bool" where
  "check_version v \<longleftrightarrow> v_major v = 4 \<and> v_minor v \<le> 0"

definition iscntrl :: "char \<Rightarrow> bool" where
  "iscntrl c \<longleftrightarrow> byte c < 32 \<or> byte c = 127"

definition readable :: "char \<Rightarrow> bool" where
  "readable c \<longleftrightarrow> \<not> (iscntrl c \<or> 128 \<le> byte c)"

text \<open>The scan loop: the position where it stops and whether every byte before was readable.\<close>

fun check_scan :: "char list \<Rightarrow> nat \<Rightarrow> nat \<Rightarrow> nat \<times> bool" where
  "check_scan mem ptr 0 = (ptr, True)"
| "check_scan mem ptr (Suc n) =
     (let c = byte_at mem ptr
      in if c = NUL then (ptr, True)
         else if \<not> readable c then (ptr, False)
         else check_scan mem (Suc ptr) n)"

definition check_ifDescription :: "SFNDInterfaceDescription \<Rightarrow> bool" where
  "check_ifDescription d =
     (let (ptr, result) = check_scan (sf_name d) 0 NAME_SIZE
      in result \<and> byte_at (sf_name d) ptr = NUL
         \<and> (v_major (sf_version d) \<noteq> 0 \<or> v_minor (sf_version d) \<noteq> 0))"

definition isTcpService :: "string \<Rightarrow> bool" where
  "isTcpService ifName \<longleftrightarrow> 5 < length ifName \<and> drop (length ifName - 4) ifName = ''_tcp''"

section \<open>Lemmas\<close>

text \<open>The name check accepts exactly the readable C strings of at most 256 characters.\<close>

lemma c_str_drop:
  "c_str (drop p mem) = (if byte_at mem p = NUL then [] else byte_at mem p # c_str (drop (Suc p) mem))"
proof (cases "p < length mem")
  case True
  then have "drop p mem = mem ! p # drop (Suc p) mem" by (simp add: Cons_nth_drop_Suc)
  with True show ?thesis by (simp add: c_str_def byte_at_def)
qed (simp add: c_str_def byte_at_def)

lemma check_scan_spec:
  "(snd (check_scan mem p n) \<and> byte_at mem (fst (check_scan mem p n)) = NUL)
     \<longleftrightarrow> length (c_str (drop p mem)) \<le> n \<and> list_all readable (c_str (drop p mem))"
proof (induction n arbitrary: p)
  case 0
  then show ?case by (simp add: c_str_drop [of p])
next
  case (Suc n)
  show ?case
  proof (cases "byte_at mem p = NUL \<or> \<not> readable (byte_at mem p)")
    case True
    then show ?thesis by (auto simp: Let_def c_str_drop [of p])
  next
    case False
    then show ?thesis using Suc [of "Suc p"] by (simp add: Let_def c_str_drop [of p])
  qed
qed

lemma check_ifDescription_iff:
  "check_ifDescription d \<longleftrightarrow>
     length (c_str (sf_name d)) \<le> NAME_SIZE \<and> list_all readable (c_str (sf_name d))
     \<and> (v_major (sf_version d) \<noteq> 0 \<or> v_minor (sf_version d) \<noteq> 0)"
  using check_scan_spec [of "sf_name d" 0 NAME_SIZE]
  by (auto simp: check_ifDescription_def case_prod_beta)

text \<open>Sending a description and reading it back.\<close>

lemma c_str_strncpy: "NUL \<notin> set s \<Longrightarrow> length s < n \<Longrightarrow> c_str (strncpy n s) = s"
proof -
  assume s: "NUL \<notin> set s" "length s < n"
  have "takeWhile (\<lambda>c. c \<noteq> NUL) (s @ replicate (n - length s) NUL) = s @ takeWhile (\<lambda>c. c \<noteq> NUL) (replicate (n - length s) NUL)"
    using s(1) by (intro takeWhile_append2) auto
  moreover obtain k where "n - length s = Suc k" using s(2) by (metis Suc_diff_Suc)
  ultimately show ?thesis using s(2) by (simp add: c_str_def strncpy_def)
qed

lemma to_from_ifDescription:
  assumes "NUL \<notin> set (if_name d)" and "length (if_name d) < NAME_SIZE"
    and "0 \<le> if_major d" "if_major d < 2 ^ 16" and "0 \<le> if_minor d" "if_minor d < 2 ^ 16"
  shows "to_ifDescription (from_ifDescription d) = d"
  using assms by (simp add: to_ifDescription_def from_ifDescription_def c_str_strncpy uint_word_of_int)

text \<open>The command codes as numbers.\<close>

lemma dcmd_values:
  "dcmd (REGISTER_INTERFACE a b c) = 0xC1180500"
  "dcmd (REGISTER_INTERFACE_EX a' b' c' ds) = 0xC018050C"
  "dcmd (REGISTER_INTERFACE_GROUPID a b c d') = 0xC120050D"
  "dcmd (UNREGISTER_INTERFACE p) = 0xC0100501"
  "dcmd (ATTACH_INTERFACE a) = 0xC1080502"
  "dcmd (ATTACH_INTERFACE_EXTENDED pl a) = 0xC1180523"
  "dcmd (GET_SERVER_INFORMATION a) = 0xC1080525"
  "dcmd (DETACH_INTERFACE p) = 0xC0100503"
  "dcmd (NOTIFY_SERVER_DISCONNECT p pl) = 0xC0200504"
  "dcmd (NOTIFY_SERVER_AVAILABLE pl a) = 0xC1180505"
  "dcmd (NOTIFY_SERVER_AVAILABLE_EX k nds) = 0xC0080505"
  "dcmd (NOTIFY_CLIENT_DETACH p pl) = 0xC0200506"
  "dcmd (CLEAR_NOTIFICATION k) = 0xC0080507"
  "dcmd (REGISTER_MASTER_INTERFACE_EX k dxs) = 0xC008051E"
  "dcmd (GET_INTERFACELIST k) = 0xC1040508"
  "dcmd (NOTIFY_INTERFACELIST_CHANGE pl) = 0xC0140509"
  "dcmd (MATCH_INTERFACELIST k r) = 0xC108050A"
  "dcmd (NOTIFY_INTERFACELIST_MATCH pl r) = 0xC114050B"
  "dcmd MASTER_PING = 0x51F"
  "dcmd (MASTER_PING_ID k) = 0xC00C0520"
  by (simp_all add: DIOTF_def DION_def)

text \<open>The code determines the command.\<close>

definition code_name :: "u32 \<Rightarrow> string" where
  "code_name c =
     (if c = 0xC1180500 then ''DCMD_FND_REGISTER_INTERFACE''
      else if c = 0xC018050C then ''DCMD_FND_REGISTER_INTERFACE_EX''
      else if c = 0xC120050D then ''DCMD_FND_REGISTER_INTERFACE_GROUPID''
      else if c = 0xC0100501 then ''DCMD_FND_UNREGISTER_INTERFACE''
      else if c = 0xC1080502 then ''DCMD_FND_ATTACH_INTERFACE''
      else if c = 0xC1180523 then ''DCMD_FND_ATTACH_INTERFACE_EXTENDED''
      else if c = 0xC1080525 then ''DCMD_FND_GET_SERVER_INFORMATION''
      else if c = 0xC0100503 then ''DCMD_FND_DETACH_INTERFACE''
      else if c = 0xC0200504 then ''DCMD_FND_NOTIFY_SERVER_DISCONNECT''
      else if c = 0xC1180505 then ''DCMD_FND_NOTIFY_SERVER_AVAILABLE''
      else if c = 0xC0080505 then ''DCMD_FND_NOTIFY_SERVER_AVAILABLE_EX''
      else if c = 0xC0200506 then ''DCMD_FND_NOTIFY_CLIENT_DETACH''
      else if c = 0xC0080507 then ''DCMD_FND_CLEAR_NOTIFICATION''
      else if c = 0xC008051E then ''DCMD_FND_REGISTER_MASTER_INTERFACE_EX''
      else if c = 0xC1040508 then ''DCMD_FND_GET_INTERFACELIST''
      else if c = 0xC0140509 then ''DCMD_FND_NOTIFY_INTERFACELIST_CHANGE''
      else if c = 0xC108050A then ''DCMD_FND_MATCH_INTERFACELIST''
      else if c = 0xC114050B then ''DCMD_FND_NOTIFY_INTERFACELIST_MATCH''
      else if c = 0x51F then ''DCMD_FND_MASTER_PING''
      else if c = 0xC00C0520 then ''DCMD_FND_MASTER_PING_ID''
      else ''<UNKNOWN DCMD>'')"

lemma code_name_dcmd: "(\<And>k. r \<noteq> OTHER_COMMAND k) \<Longrightarrow> code_name (dcmd r) = GetDCmdString r"
  by (cases r) (simp_all only: dcmd_values code_name_def GetDCmdString.simps, simp_all)

lemma dcmd_inj:
  assumes "dcmd r = dcmd r'" and "\<And>k. r \<noteq> OTHER_COMMAND k" and "\<And>k. r' \<noteq> OTHER_COMMAND k"
  shows "GetDCmdString r = GetDCmdString r'"
  using assms code_name_dcmd by metis

end
