(* ===== verification/Server_List.thy ===== *)
theory Server_List
  imports SB_Types
begin

text \<open>
  \<^verbatim>\<open>ServerList\<close>: the table of connected servers, a list kept in descending order of the
  interface name and searched by binary search (\<open>add\<close> and \<open>find(name)\<close>) or linearly (the
  other searches). \<open>id\<close>s of entries come from the static counter \<open>sNextID\<close>, which the
  constructor of an entry advances; the caller passes it on.
  The locale \<open>name_registry\<close> states what the broker relies on: names are unique, a lookup
  finds exactly the registered entry, removal by id frees the name.
\<close>

section \<open>Definitions\<close>

record ServerListEntry =
  se_id :: u32
  se_partyID :: SPartyID
  se_masterID :: SPartyID
  se_nid :: u32
  se_pid :: u32
  se_chid :: u32
  se_ifDescription :: InterfaceDescription
  se_implVersion :: SFNDImplementationVersion
  se_grpid :: u32
  se_local :: bool

text \<open>
  The constructor does not initialise \<open>implVersion\<close>: its value is whatever the memory held
  (\<open>indet\<close>).
\<close>

definition new_ServerListEntry :: "u32 \<Rightarrow> SFNDImplementationVersion \<Rightarrow> ServerListEntry" where
  "new_ServerListEntry next_id indet =
     \<lparr>se_id = next_id, se_partyID = party_assign 0, se_masterID = party_assign 0, se_nid = 0,
      se_pid = 0, se_chid = 0, se_ifDescription = empty_ifDescription, se_implVersion = indet,
      se_grpid = SB_UNKNOWN_GROUP_ID, se_local = False\<rparr>"

record ServerList =
  sl_entries :: "ServerListEntry list"
  sl_total :: u32

definition empty_ServerList :: ServerList where
  "empty_ServerList = \<lparr>sl_entries = [], sl_total = 0\<rparr>"

abbreviation se_name :: "ServerListEntry \<Rightarrow> string" where
  "se_name e \<equiv> if_name (se_ifDescription e)"

definition sl_compare :: "string \<Rightarrow> string \<Rightarrow> bool" where
  "sl_compare lhs rhs \<longleftrightarrow> 0 < strcmp lhs rhs"

definition sl_add :: "ServerListEntry \<Rightarrow> ServerList \<Rightarrow> ServerList" where
  "sl_add entry sl =
     (let pos = lower_bound (\<lambda>e. sl_compare (se_name e) (se_name entry)) (sl_entries sl)
      in sl\<lparr>sl_entries := take pos (sl_entries sl) @ entry # drop pos (sl_entries sl),
            sl_total := sl_total sl + 1\<rparr>)"

definition sl_find_name :: "ServerList \<Rightarrow> string \<Rightarrow> ServerListEntry option" where
  "sl_find_name sl ifName =
     (let es = sl_entries sl; pos = lower_bound (\<lambda>e. sl_compare (se_name e) ifName) es
      in if pos < length es \<and> \<not> sl_compare ifName (se_name (es ! pos)) then Some (es ! pos)
         else None)"

definition sl_find_if :: "ServerList \<Rightarrow> InterfaceDescription \<Rightarrow> ServerListEntry option" where
  "sl_find_if sl d =
     (case sl_find_name sl (if_name d) of
        None \<Rightarrow> None
      | Some e \<Rightarrow>
          if if_major (se_ifDescription e) = if_major d \<and> if_minor d \<le> if_minor (se_ifDescription e)
          then Some e else None)"

definition sl_find_id :: "ServerList \<Rightarrow> SPartyID \<Rightarrow> ServerListEntry option" where
  "sl_find_id sl serverID = find (\<lambda>e. globalID serverID = globalID (se_partyID e)) (sl_entries sl)"

definition sl_findByLocalID :: "ServerList \<Rightarrow> u32 \<Rightarrow> ServerListEntry option" where
  "sl_findByLocalID sl l = find (\<lambda>e. l = localID (se_partyID e)) (sl_entries sl)"

definition pending_at_master :: "u32 \<Rightarrow> ServerListEntry \<Rightarrow> bool" where
  "pending_at_master l e \<longleftrightarrow> l = localID (se_partyID e) \<and> localID (se_masterID e) = - 1"

definition sl_findByLocalIDandInvalidMasterID :: "ServerList \<Rightarrow> u32 \<Rightarrow> ServerListEntry option" where
  "sl_findByLocalIDandInvalidMasterID sl l = find (pending_at_master l) (sl_entries sl)"

definition sl_find_internal :: "ServerList \<Rightarrow> u32 \<Rightarrow> ServerListEntry option" where
  "sl_find_internal sl i = find (\<lambda>e. i = se_id e) (sl_entries sl)"

definition sl_remove :: "SPartyID \<Rightarrow> ServerList \<Rightarrow> ServerList" where
  "sl_remove serverID sl =
     sl\<lparr>sl_entries := erase_first (\<lambda>e. globalID (se_partyID e) = globalID serverID) (sl_entries sl)\<rparr>"

definition sl_clearMasterIDs :: "ServerList \<Rightarrow> ServerList" where
  "sl_clearMasterIDs sl =
     sl\<lparr>sl_entries := map (\<lambda>e. e\<lparr>se_masterID := party_assign 0\<rparr>) (sl_entries sl)\<rparr>"

text \<open>Writing the \<open>masterID\<close> of the entry a search returned (the code writes through the pointer).\<close>

definition sl_set_masterID :: "(ServerListEntry \<Rightarrow> bool) \<Rightarrow> SPartyID \<Rightarrow> ServerList \<Rightarrow> ServerList" where
  "sl_set_masterID P m sl =
     sl\<lparr>sl_entries := update_first P (\<lambda>e. e\<lparr>se_masterID := m\<rparr>) (sl_entries sl)\<rparr>"

text \<open>The order invariant: strictly descending names.\<close>

definition sl_sorted :: "ServerList \<Rightarrow> bool" where
  "sl_sorted sl \<longleftrightarrow> sorted_wrt (\<lambda>a b. se_name b < se_name a) (sl_entries sl)"

section \<open>The registry interface\<close>

locale name_registry =
  fixes inv :: "'t \<Rightarrow> bool"
    and entries :: "'t \<Rightarrow> 'e set"
    and key :: "'e \<Rightarrow> 'k"
    and lookup :: "'t \<Rightarrow> 'k \<Rightarrow> 'e option"
    and insert_entry :: "'e \<Rightarrow> 't \<Rightarrow> 't"
  assumes key_inj: "inv t \<Longrightarrow> a \<in> entries t \<Longrightarrow> b \<in> entries t \<Longrightarrow> key a = key b \<Longrightarrow> a = b"
    and lookup_correct: "inv t \<Longrightarrow> lookup t k = Some e \<longleftrightarrow> e \<in> entries t \<and> key e = k"
    and insert_inv: "inv t \<Longrightarrow> lookup t (key e) = None \<Longrightarrow> inv (insert_entry e t)"
    and insert_entries: "inv t \<Longrightarrow> entries (insert_entry e t) = insert e (entries t)"
begin

lemma lookup_None: "inv t \<Longrightarrow> lookup t k = None \<longleftrightarrow> (\<forall>e \<in> entries t. key e \<noteq> k)"
  by (metis lookup_correct not_Some_eq)

lemma lookup_insert:
  assumes "inv t" and "lookup t (key e) = None"
  shows "lookup (insert_entry e t) k = (if k = key e then Some e else lookup t k)"
proof (cases "k = key e")
  case True
  with assms show ?thesis by (simp add: lookup_correct insert_inv insert_entries)
next
  case False
  have "lookup (insert_entry e t) k = Some x \<longleftrightarrow> lookup t k = Some x" for x
    using assms False by (auto simp: lookup_correct insert_inv insert_entries)
  with False show ?thesis by (metis option.exhaust)
qed

lemma insert_distinct:
  assumes "inv t" and "lookup t (key e) = None"
  shows "e \<notin> entries t"
  using assms lookup_None by blast

end

section \<open>Lemmas\<close>

lemma sl_compare_iff [simp]: "sl_compare a b \<longleftrightarrow> b < a"
  by (simp add: sl_compare_def strcmp_pos_iff)

lemma sl_sorted_partitions:
  "sl_sorted sl \<Longrightarrow> sorted_wrt (\<lambda>a b. s < se_name b \<longrightarrow> s < se_name a) (sl_entries sl)"
  unfolding sl_sorted_def by (erule sorted_wrt_mono_rel [rotated]) auto

lemma sl_lower_bound:
  "sl_sorted sl \<Longrightarrow>
     lower_bound (\<lambda>e. s < se_name e) (sl_entries sl)
       = length (takeWhile (\<lambda>e. s < se_name e) (sl_entries sl))"
  by (rule lower_bound_takeWhile) (rule sl_sorted_partitions)

lemma take_length_takeWhile: "take (length (takeWhile P xs)) xs = takeWhile P xs"
  by (induction xs) auto

lemma drop_length_takeWhile: "drop (length (takeWhile P xs)) xs = dropWhile P xs"
  by (induction xs) auto

lemma sl_add_entries:
  assumes "sl_sorted sl"
  shows "sl_entries (sl_add e sl) =
    takeWhile (\<lambda>x. se_name e < se_name x) (sl_entries sl) @ e #
    dropWhile (\<lambda>x. se_name e < se_name x) (sl_entries sl)"
  using assms
  by (simp add: sl_add_def Let_def sl_lower_bound take_length_takeWhile drop_length_takeWhile)

lemma set_takeWhile_dropWhile: "set (takeWhile P xs) \<union> set (dropWhile P xs) = set xs"
  by (induction xs) auto

lemma sl_add_set: "sl_sorted sl \<Longrightarrow> set (sl_entries (sl_add e sl)) = insert e (set (sl_entries sl))"
  by (simp add: sl_add_entries set_takeWhile_dropWhile)

text \<open>Two entries of one name are the same entry.\<close>

lemma descending_inj:
  "sorted_wrt (\<lambda>a b. f b < f a) es \<Longrightarrow> a \<in> set es \<Longrightarrow> b \<in> set es \<Longrightarrow> f a = f b \<Longrightarrow> a = b"
  for f :: "'e \<Rightarrow> 'k::linorder"
proof (induction es)
  case (Cons x es)
  have lt: "f y < f x" if "y \<in> set es" for y using Cons.prems(1) that by simp
  show ?case
  proof (cases "a = x \<or> b = x")
    case True
    with Cons.prems lt show ?thesis by (metis less_irrefl set_ConsD)
  next
    case False
    with Cons show ?thesis by simp
  qed
qed simp

lemma sl_sorted_inj:
  "sl_sorted sl \<Longrightarrow> a \<in> set (sl_entries sl) \<Longrightarrow> b \<in> set (sl_entries sl)
     \<Longrightarrow> se_name a = se_name b \<Longrightarrow> a = b"
  unfolding sl_sorted_def by (rule descending_inj)

text \<open>In a descending list the first element not above a key is that key's, if it is there.\<close>

lemma descending_lookup:
  fixes f :: "'e \<Rightarrow> 'k::linorder"
  assumes "sorted_wrt (\<lambda>a b. f b < f a) es"
  shows "(let pos = length (takeWhile (\<lambda>x. k < f x) es)
          in if pos < length es \<and> \<not> f (es ! pos) < k then Some (es ! pos) else None)
       = find (\<lambda>x. f x = k) es"
  using assms
proof (induction es)
  case (Cons x es)
  have none: "find (\<lambda>y. f y = k) es = None" if "f x < k"
    using Cons.prems that by (fastforce simp: find_None_iff)
  show ?case
  proof (cases "k < f x")
    case True
    then have "f x \<noteq> k" by auto
    with True Cons.IH Cons.prems show ?thesis by (simp add: Let_def cong: if_cong)
  next
    case False
    with none show ?thesis by (auto simp: Let_def)
  qed
qed simp

lemma sl_find_name_eq:
  assumes "sl_sorted sl"
  shows "sl_find_name sl s = find (\<lambda>e. se_name e = s) (sl_entries sl)"
  unfolding sl_find_name_def
  using descending_lookup [where f = se_name and es = "sl_entries sl" and k = s] assms
  by (simp add: Let_def sl_lower_bound sl_sorted_def [symmetric] cong: if_cong split del: if_split)

lemma descending_insert:
  fixes f :: "'e \<Rightarrow> 'k::linorder"
  assumes "sorted_wrt (\<lambda>a b. f b < f a) es" and "\<And>x. x \<in> set es \<Longrightarrow> f x \<noteq> f e"
  shows "sorted_wrt (\<lambda>a b. f b < f a)
           (takeWhile (\<lambda>x. f e < f x) es @ e # dropWhile (\<lambda>x. f e < f x) es)"
  using assms
proof (induction es)
  case (Cons x es)
  have lt: "f y < f x" if "y \<in> set es" for y using Cons.prems(1) that by simp
  show ?case
  proof (cases "f e < f x")
    case True
    have "sorted_wrt (\<lambda>a b. f b < f a) (takeWhile (\<lambda>x. f e < f x) es @ e # dropWhile (\<lambda>x. f e < f x) es)"
      using Cons by simp
    with True lt show ?thesis by (auto dest: set_takeWhileD set_dropWhileD)
  next
    case False
    with Cons.prems(2) have "f x < f e" by (metis linorder_neqE list.set_intros(1))
    with False lt Cons.prems(1) show ?thesis by (auto dest: lt)
  qed
qed simp

lemma sl_add_sorted:
  assumes s: "sl_sorted sl" and n: "sl_find_name sl (se_name e) = None"
  shows "sl_sorted (sl_add e sl)"
proof -
  have fresh: "se_name x \<noteq> se_name e" if "x \<in> set (sl_entries sl)" for x
    using n that by (simp add: sl_find_name_eq [OF s] find_None_iff)
  show ?thesis
    using descending_insert [where f = se_name and es = "sl_entries sl" and e = e] s fresh
    by (simp add: sl_sorted_def [of "sl_add e sl"] sl_add_entries sl_sorted_def [of sl])
qed

interpretation servers: name_registry sl_sorted "\<lambda>sl. set (sl_entries sl)" se_name sl_find_name sl_add
proof
  fix t and a b :: ServerListEntry
  assume "sl_sorted t" "a \<in> set (sl_entries t)" "b \<in> set (sl_entries t)" "se_name a = se_name b"
  then show "a = b" by (rule sl_sorted_inj)
next
  fix t k e
  assume s: "sl_sorted t"
  have inj: "\<And>a b. a \<in> set (sl_entries t) \<Longrightarrow> b \<in> set (sl_entries t) \<Longrightarrow> se_name a = se_name b \<Longrightarrow> a = b"
    using s by (rule sl_sorted_inj)
  show "sl_find_name t k = Some e \<longleftrightarrow> e \<in> set (sl_entries t) \<and> se_name e = k"
    unfolding sl_find_name_eq [OF s] by (rule find_key_iff [OF inj])
next
  fix t e
  assume "sl_sorted t" "sl_find_name t (se_name e) = None"
  then show "sl_sorted (sl_add e t)" by (rule sl_add_sorted)
next
  fix t e
  assume "sl_sorted t"
  then show "set (sl_entries (sl_add e t)) = insert e (set (sl_entries t))" by (rule sl_add_set)
qed

lemma sl_remove_sorted [intro]: "sl_sorted sl \<Longrightarrow> sl_sorted (sl_remove i sl)"
  by (simp add: sl_sorted_def sl_remove_def sorted_wrt_erase_first)

lemma sorted_wrt_cong_map:
  "map f xs = map f ys \<Longrightarrow> sorted_wrt (\<lambda>a b. f b < f a) xs = sorted_wrt (\<lambda>a b. f b < f a) ys"
  for f :: "'e \<Rightarrow> 'k::linorder"
proof -
  assume "map f xs = map f ys"
  moreover have "sorted_wrt (\<lambda>a b. f b < f a) zs = sorted_wrt (\<lambda>a b. b < a) (map f zs)" for zs
    by (simp add: sorted_wrt_map)
  ultimately show ?thesis by simp
qed

lemma sl_clear_sorted [simp]: "sl_sorted (sl_clearMasterIDs sl) = sl_sorted sl"
  unfolding sl_sorted_def by (rule sorted_wrt_cong_map) (simp add: sl_clearMasterIDs_def)

lemma sl_set_masterID_sorted [simp]: "sl_sorted (sl_set_masterID P m sl) = sl_sorted sl"
  unfolding sl_sorted_def
  by (rule sorted_wrt_cong_map) (simp add: sl_set_masterID_def map_update_first)

lemma sl_find_id_in: "sl_find_id sl i = Some e \<Longrightarrow> e \<in> set (sl_entries sl) \<and> globalID (se_partyID e) = globalID i"
  by (auto simp: sl_find_id_def find_Some_iff)

lemma sl_find_if_name: "sl_find_if sl d = Some e \<Longrightarrow> sl_find_name sl (if_name d) = Some e"
  by (auto simp: sl_find_if_def split: option.splits if_splits)

lemma sl_find_if_version:
  "sl_find_if sl d = Some e \<Longrightarrow>
     if_major (se_ifDescription e) = if_major d \<and> if_minor d \<le> if_minor (se_ifDescription e)"
  by (auto simp: sl_find_if_def split: option.splits if_splits)

end
