(* ===== verification/Client_Data.thy ===== *)
theory Client_Data
  imports SB_Types
begin

text \<open>
  The per-client bookkeeping: \<^verbatim>\<open>ClientList\<close> (the attached clients and the servers they are
  attached to), \<^verbatim>\<open>PartyIDList\<close> (an ordered set of party ids, \<^verbatim>\<open>IDList.hpp\<close>) and
  \<^verbatim>\<open>ClientSpecificData\<close>, the ids a connection owns. The set is ordered by \<open>globalID\<close> and kept
  as an ascending list, which is the order its iterators visit. The notification ids are a
  vector; \<open>removeNotification\<close> calls \<^verbatim>\<open>std::remove\<close> without erasing.
\<close>

section \<open>Definitions\<close>

subsection \<open>\<^verbatim>\<open>ClientList\<close>\<close>

record ClientListEntry =
  cl_clientId :: SPartyID
  cl_serverId :: SPartyID
  cl_ctx :: nat

record ClientList =
  cl_entries :: "ClientListEntry list"
  cl_total :: u32

definition empty_ClientList :: ClientList where
  "empty_ClientList = \<lparr>cl_entries = [], cl_total = 0\<rparr>"

definition cl_push_back :: "SPartyID \<Rightarrow> SPartyID \<Rightarrow> nat \<Rightarrow> ClientList \<Rightarrow> ClientList" where
  "cl_push_back clientId serverId ctx cl =
     cl\<lparr>cl_entries := cl_entries cl @ [\<lparr>cl_clientId = clientId, cl_serverId = serverId, cl_ctx = ctx\<rparr>],
        cl_total := cl_total cl + 1\<rparr>"

definition cl_remove :: "SPartyID \<Rightarrow> ClientList \<Rightarrow> ClientList" where
  "cl_remove clientId cl =
     cl\<lparr>cl_entries := erase_first (\<lambda>e. globalID (cl_clientId e) = globalID clientId) (cl_entries cl)\<rparr>"

definition cl_removeServer :: "SPartyID \<Rightarrow> ClientList \<Rightarrow> ClientList" where
  "cl_removeServer serverId cl =
     cl\<lparr>cl_entries := filter (\<lambda>e. globalID (cl_serverId e) \<noteq> globalID serverId) (cl_entries cl)\<rparr>"

definition cl_removeNotLocal :: "u32 \<Rightarrow> ClientList \<Rightarrow> ClientList" where
  "cl_removeNotLocal ext cl =
     cl\<lparr>cl_entries := filter (\<lambda>e. extendedID (cl_serverId e) = ext) (cl_entries cl)\<rparr>"

text \<open>\<^verbatim>\<open>std::find\<close> with \<^verbatim>\<open>ClientListEntry::operator==\<close>, that is with \<^verbatim>\<open>SPartyID::operator==\<close>.\<close>

fun index_of :: "('a \<Rightarrow> bool) \<Rightarrow> 'a list \<Rightarrow> nat \<Rightarrow> int" where
  "index_of P [] n = - 1"
| "index_of P (x # xs) n = (if P x then int n else index_of P xs (Suc n))"

definition cl_find :: "ClientList \<Rightarrow> SPartyID \<Rightarrow> int" where
  "cl_find cl i = index_of (\<lambda>e. party_eq (cl_clientId e) i) (cl_entries cl) 0"

subsection \<open>\<^verbatim>\<open>PartyIDList\<close>\<close>

fun pid_insert :: "SPartyID \<Rightarrow> SPartyID list \<Rightarrow> SPartyID list" where
  "pid_insert p [] = [p]"
| "pid_insert p (q # qs) =
     (if globalID p < globalID q then p # q # qs
      else if globalID q < globalID p then q # pid_insert p qs
      else q # qs)"

definition pid_exists :: "SPartyID list \<Rightarrow> SPartyID \<Rightarrow> bool" where
  "pid_exists l p \<longleftrightarrow> (\<exists>q \<in> set l. globalID q = globalID p)"

definition pid_remove :: "SPartyID \<Rightarrow> SPartyID list \<Rightarrow> SPartyID list" where
  "pid_remove p l = erase_first (\<lambda>q. globalID q = globalID p) l"

subsection \<open>\<^verbatim>\<open>ClientSpecificData\<close>\<close>

record ClientSpecificData =
  mServerList :: "SPartyID list"
  mNotificationList :: "u32 list"
  mClientList :: "SPartyID list"
  ocb_extendedID :: u32

definition new_ClientSpecificData :: ClientSpecificData where
  "new_ClientSpecificData =
     \<lparr>mServerList = [], mNotificationList = [], mClientList = [], ocb_extendedID = 0\<rparr>"

definition addNotification :: "u32 \<Rightarrow> ClientSpecificData \<Rightarrow> ClientSpecificData" where
  "addNotification i d = d\<lparr>mNotificationList := mNotificationList d @ [i]\<rparr>"

definition removeNotification :: "u32 \<Rightarrow> ClientSpecificData \<Rightarrow> ClientSpecificData" where
  "removeNotification i d = d\<lparr>mNotificationList := std_remove i (mNotificationList d)\<rparr>"

definition notificationExists :: "ClientSpecificData \<Rightarrow> u32 \<Rightarrow> bool" where
  "notificationExists d i \<longleftrightarrow> i \<in> set (mNotificationList d)"

definition addServer :: "SPartyID \<Rightarrow> ClientSpecificData \<Rightarrow> ClientSpecificData" where
  "addServer p d = d\<lparr>mServerList := pid_insert p (mServerList d)\<rparr>"

definition removeServer :: "SPartyID \<Rightarrow> ClientSpecificData \<Rightarrow> ClientSpecificData" where
  "removeServer p d = d\<lparr>mServerList := pid_remove p (mServerList d)\<rparr>"

definition serverExists :: "ClientSpecificData \<Rightarrow> SPartyID \<Rightarrow> bool" where
  "serverExists d p \<longleftrightarrow> pid_exists (mServerList d) p"

definition addClient_ocb :: "SPartyID \<Rightarrow> ClientSpecificData \<Rightarrow> ClientSpecificData" where
  "addClient_ocb p d = d\<lparr>mClientList := pid_insert p (mClientList d)\<rparr>"

definition removeClient :: "SPartyID \<Rightarrow> ClientSpecificData \<Rightarrow> ClientSpecificData" where
  "removeClient p d = d\<lparr>mClientList := pid_remove p (mClientList d)\<rparr>"

definition clientExists :: "ClientSpecificData \<Rightarrow> SPartyID \<Rightarrow> bool" where
  "clientExists d p \<longleftrightarrow> pid_exists (mClientList d) p"

definition setExtendedID :: "u32 \<Rightarrow> ClientSpecificData \<Rightarrow> ClientSpecificData" where
  "setExtendedID i d = d\<lparr>ocb_extendedID := i\<rparr>"

text \<open>The representation invariant of the ordered set.\<close>

definition pid_sorted :: "SPartyID list \<Rightarrow> bool" where
  "pid_sorted l \<longleftrightarrow> sorted_wrt (\<lambda>a b. globalID a < globalID b) l"

definition ocb_wf :: "ClientSpecificData \<Rightarrow> bool" where
  "ocb_wf d \<longleftrightarrow> pid_sorted (mServerList d) \<and> pid_sorted (mClientList d)"

section \<open>The ordered-set interface\<close>

locale id_set =
  fixes inv :: "'s \<Rightarrow> bool"
    and member :: "'s \<Rightarrow> 'a \<Rightarrow> bool"
    and ins :: "'a \<Rightarrow> 's \<Rightarrow> 's"
    and del :: "'a \<Rightarrow> 's \<Rightarrow> 's"
  assumes member_ins: "inv s \<Longrightarrow> member (ins x s) y \<longleftrightarrow> y = x \<or> member s y"
    and member_del: "inv s \<Longrightarrow> member (del x s) y \<longleftrightarrow> y \<noteq> x \<and> member s y"
    and inv_ins: "inv s \<Longrightarrow> inv (ins x s)"
    and inv_del: "inv s \<Longrightarrow> inv (del x s)"
begin

lemma del_ins: "inv s \<Longrightarrow> \<not> member s x \<Longrightarrow> member (del x (ins x s)) y \<longleftrightarrow> member s y"
  by (auto simp: member_ins member_del inv_ins)

lemma ins_del: "inv s \<Longrightarrow> member s x \<Longrightarrow> member (ins x (del x s)) y \<longleftrightarrow> member s y"
  by (auto simp: member_ins member_del inv_del)

lemma del_idem: "inv s \<Longrightarrow> member (del x (del x s)) y \<longleftrightarrow> member (del x s) y"
  by (auto simp: member_del inv_del)

end

section \<open>Lemmas\<close>

text \<open>A party id is determined by its \<open>globalID\<close>.\<close>

lemma unat_globalID: "unat (globalID p) = unat (extendedID p) * 2 ^ 32 + unat (localID p)"
proof -
  have e: "unat (extendedID p) < 2 ^ 32" and l: "unat (localID p) < 2 ^ 32"
    using unsigned_less [of "extendedID p"] unsigned_less [of "localID p"] by simp_all
  have "unat (push_bit 32 (ucast (extendedID p) :: u64)) = unat (extendedID p) * 2 ^ 32"
    unfolding unsigned_push_bit_eq unsigned_ucast_eq
    using e by (simp add: take_bit_eq_mod push_bit_eq_mult)
  moreover have "unat (ucast (localID p) :: u64) = unat (localID p)"
    using l by (simp add: unsigned_ucast_eq take_bit_eq_mod)
  ultimately show ?thesis
    using e l by (simp add: globalID_def unat_word_ariths)
qed

lemma globalID_eq_iff [simp]: "globalID p = globalID q \<longleftrightarrow> p = (q :: SPartyID)"
proof
  assume "globalID p = globalID q"
  then have eq: "unat (extendedID p) * 2 ^ 32 + unat (localID p)
      = unat (extendedID q) * 2 ^ 32 + unat (localID q)"
    by (metis unat_globalID)
  have l: "unat (localID p) < 2 ^ 32" "unat (localID q) < 2 ^ 32"
    using unsigned_less [of "localID p"] unsigned_less [of "localID q"] by simp_all
  have ext: "unat (extendedID p) = unat (extendedID q)" using eq l by simp
  with eq have "unat (localID p) = unat (localID q)" by simp
  with ext have "extendedID p = extendedID q" "localID p = localID q"
    by (simp_all add: unsigned_word_eqI)
  then show "p = q" by simp
qed simp

lemma party_assign_0 [simp]: "globalID (party_assign 0) = 0"
  by (simp add: globalID_def party_assign_def)

lemma globalID_zero_iff: "globalID p = 0 \<longleftrightarrow> p = party_assign 0"
  using globalID_eq_iff [of p "party_assign 0"] by simp

lemma pid_exists_iff [simp]: "pid_exists l p \<longleftrightarrow> p \<in> set l"
  by (auto simp: pid_exists_def)

lemma set_pid_insert [simp]: "set (pid_insert p l) = insert p (set l)"
  by (induction l) (auto simp: neq_iff)


lemma pid_insert_sorted: "pid_sorted l \<Longrightarrow> pid_sorted (pid_insert p l)"
  unfolding pid_sorted_def
  by (induction l) (auto simp: not_less)

lemma pid_sorted_distinct: "pid_sorted l \<Longrightarrow> distinct l"
  unfolding pid_sorted_def by (induction l) auto

lemma set_pid_remove: "pid_sorted l \<Longrightarrow> set (pid_remove p l) = set l - {p}"
  unfolding pid_remove_def pid_sorted_def by (induction l) auto

lemma pid_remove_sorted: "pid_sorted l \<Longrightarrow> pid_sorted (pid_remove p l)"
  by (simp add: pid_sorted_def pid_remove_def sorted_wrt_erase_first)

interpretation party_ids: id_set pid_sorted pid_exists pid_insert pid_remove
  by unfold_locales (auto simp: set_pid_remove pid_insert_sorted pid_remove_sorted)

lemma new_ocb_wf [simp]: "ocb_wf new_ClientSpecificData"
  by (simp add: ocb_wf_def new_ClientSpecificData_def pid_sorted_def)

lemma ocb_wf_ops [simp]:
  "ocb_wf (addNotification i d) = ocb_wf d"
  "ocb_wf (removeNotification i d) = ocb_wf d"
  "ocb_wf d \<Longrightarrow> ocb_wf (addServer p d)"
  "ocb_wf d \<Longrightarrow> ocb_wf (removeServer p d)"
  "ocb_wf d \<Longrightarrow> ocb_wf (addClient_ocb p d)"
  "ocb_wf d \<Longrightarrow> ocb_wf (removeClient p d)"
  "ocb_wf (setExtendedID x d) = ocb_wf d"
  by (simp_all add: ocb_wf_def addNotification_def removeNotification_def addServer_def
      removeServer_def addClient_ocb_def removeClient_def setExtendedID_def
      pid_insert_sorted pid_remove_sorted)

text \<open>Which ids a connection owns after each operation.\<close>

lemma owned_servers [simp]:
  "mServerList (addNotification i d) = mServerList d"
  "mServerList (removeNotification i d) = mServerList d"
  "set (mServerList (addServer p d)) = insert p (set (mServerList d))"
  "mServerList (addClient_ocb p d) = mServerList d"
  "mServerList (removeClient p d) = mServerList d"
  by (simp_all add: addNotification_def removeNotification_def addServer_def addClient_ocb_def
      removeClient_def)

lemma owned_clients [simp]:
  "mClientList (addNotification i d) = mClientList d"
  "mClientList (removeNotification i d) = mClientList d"
  "mClientList (addServer p d) = mClientList d"
  "mClientList (removeServer p d) = mClientList d"
  "set (mClientList (addClient_ocb p d)) = insert p (set (mClientList d))"
  by (simp_all add: addNotification_def removeNotification_def addServer_def removeServer_def
      addClient_ocb_def)

lemma owned_notifications [simp]:
  "set (mNotificationList (addNotification i d)) = insert i (set (mNotificationList d))"
  "mNotificationList (addServer p d) = mNotificationList d"
  "mNotificationList (removeServer p d) = mNotificationList d"
  "mNotificationList (addClient_ocb p d) = mNotificationList d"
  "mNotificationList (removeClient p d) = mNotificationList d"
  by (simp_all add: addNotification_def addServer_def removeServer_def addClient_ocb_def
      removeClient_def)

text \<open>Removing one notification id keeps every other id of the connection.\<close>

lemma removeNotification_other:
  "j \<noteq> i \<Longrightarrow> notificationExists (removeNotification i d) j \<longleftrightarrow> notificationExists d j"
  using std_remove_subset [of i "mNotificationList d"]
  by (auto simp: notificationExists_def removeNotification_def intro: std_remove_keeps)

text \<open>The vector does not shrink, so an id at its end is still found afterwards.\<close>

lemma removeNotification_last_stays:
  "mNotificationList d = xs @ [i] \<Longrightarrow> notificationExists (removeNotification i d) i"
  by (simp add: notificationExists_def removeNotification_def std_remove_last)

text \<open>The attached clients.\<close>

lemma cl_removeServer_none:
  "e \<in> set (cl_entries (cl_removeServer s cl)) \<longleftrightarrow> e \<in> set (cl_entries cl) \<and> cl_serverId e \<noteq> s"
  by (auto simp: cl_removeServer_def)

lemma index_of_none: "index_of P xs n = - 1 \<longleftrightarrow> (\<forall>x \<in> set xs. \<not> P x)"
  by (induction xs arbitrary: n) auto

lemma cl_find_none: "cl_find cl i = - 1 \<longleftrightarrow> (\<forall>e \<in> set (cl_entries cl). localID (cl_clientId e) \<noteq> localID i)"
  by (simp add: cl_find_def index_of_none party_eq_def)

lemma cl_remove_subset: "set (cl_entries (cl_remove i cl)) \<subseteq> set (cl_entries cl)"
  by (simp add: cl_remove_def set_erase_first_subset)

lemma cl_remove_removes:
  "distinct (map cl_clientId (cl_entries cl)) \<Longrightarrow> e \<in> set (cl_entries (cl_remove i cl)) \<Longrightarrow> cl_clientId e \<noteq> i"
  by (auto simp: cl_remove_def dest: erase_first_removes)

end
