(* ===== verification/Pulse_Channels.thy ===== *)
theory Pulse_Channels
  imports SB_Types
begin

text \<open>
  \<^verbatim>\<open>PulseChannelManager\<close>: the pool of reference-counted sockets over which notifications are
  sent. Sockets and the kernel are the environment: \<open>sockets\<close> answers the system calls, each
  call numbered by a counter kept in the manager's state, and \<open>pcm_log\<close> records what was opened,
  closed and sent. A connect is retried while it is interrupted, so the environment gives the
  first result that is not \<^verbatim>\<open>EINTR\<close>.
\<close>

unbundle bit_operations_syntax

section \<open>Definitions\<close>

text \<open>\<^verbatim>\<open>io::error_code\<close>: 0 for success, an \<^verbatim>\<open>errno\<close>, or a negative marker.\<close>

type_synonym error_code = int

definition io_ok :: error_code where "io_ok = 0"
definition io_unspecified :: error_code where "io_unspecified = - 2"
definition io_would_block :: error_code where "io_would_block = 11"
definition io_in_progress :: error_code where "io_in_progress = 115"

text \<open>A \<^verbatim>\<open>poll\<close> for connection establishment: interrupted some times, then one final answer.\<close>

datatype poll_outcome =
    PollTimeout
  | PollReady "int option" \<comment> \<open>\<open>SO_ERROR\<close>, or \<open>None\<close> when \<^verbatim>\<open>getsockopt\<close> fails\<close>
  | PollFailed error_code
  | PollInterrupted nat poll_outcome \<comment> \<open>milliseconds elapsed, then polled again\<close>

record sockets =
  os_open :: "nat \<Rightarrow> bool"
  os_connect_unix :: "nat \<Rightarrow> u32 \<Rightarrow> u32 \<Rightarrow> error_code"
  os_connect_tcp :: "nat \<Rightarrow> u32 \<Rightarrow> u16 \<Rightarrow> error_code"
  os_poll :: "nat \<Rightarrow> poll_outcome"
  os_fd :: "nat \<Rightarrow> int list \<Rightarrow> int" \<comment> \<open>the descriptor of a new socket, given the open ones\<close>

datatype io_event =
    Opened int
  | Closed int
  | PulseSent int u32 u32 u32 \<comment> \<open>handle, notification id, code, value\<close>

record PulseChannel =
  pc_nid :: u32
  pc_pid :: u32
  pc_chid :: u32
  pc_fd :: int
  pc_refCount :: int

record PulseChannelManager =
  mSockets :: "PulseChannel list"
  pcm_calls :: nat
  pcm_log :: "io_event list"

definition empty_pcm :: PulseChannelManager where
  "empty_pcm = \<lparr>mSockets = [], pcm_calls = 0, pcm_log = []\<rparr>"

definition SB_MASTERADAPTER_SENDTIMEO :: nat where
  "SB_MASTERADAPTER_SENDTIMEO = 2000"

fun waitForConnectionEstablished :: "poll_outcome \<Rightarrow> nat \<Rightarrow> error_code" where
  "waitForConnectionEstablished PollTimeout timeoutMs = io_would_block"
| "waitForConnectionEstablished (PollReady None) timeoutMs = io_unspecified"
| "waitForConnectionEstablished (PollReady (Some result)) timeoutMs =
     (if result = 0 then io_ok else result)"
| "waitForConnectionEstablished (PollFailed e) timeoutMs = e"
| "waitForConnectionEstablished (PollInterrupted diff next) timeoutMs =
     (if diff < timeoutMs then waitForConnectionEstablished next (timeoutMs - diff)
      else io_would_block)"

definition CompNidPidChid :: "u32 \<Rightarrow> u32 \<Rightarrow> u32 \<Rightarrow> PulseChannel \<Rightarrow> bool" where
  "CompNidPidChid nid pid chid c \<longleftrightarrow> pc_nid c = nid \<and> pc_pid c = pid \<and> pc_chid c = chid"

text \<open>\<open>tryAddRef\<close>: the file descriptor with its count raised, or \<open>None\<close> for -1.\<close>

definition tryAddRef :: "u32 \<Rightarrow> u32 \<Rightarrow> u32 \<Rightarrow> PulseChannel list \<Rightarrow> (int \<times> PulseChannel list) option" where
  "tryAddRef nid pid chid cs =
     (case find (CompNidPidChid nid pid chid) cs of
        None \<Rightarrow> None
      | Some c \<Rightarrow>
          Some (pc_fd c,
                update_first (CompNidPidChid nid pid chid) (\<lambda>c. c\<lparr>pc_refCount := pc_refCount c + 1\<rparr>) cs))"

text \<open>
  Opening a new connection. On the local node a Unix socket named after pid and chid; else a TCP
  socket to the transmitted address (or the node address when there is none), tried again with
  the node address if that fails. Each system call takes the next call number.
\<close>

definition connect_unix :: "sockets \<Rightarrow> nat \<Rightarrow> int list \<Rightarrow> u32 \<Rightarrow> u32 \<Rightarrow> int \<times> nat" where
  "connect_unix os k busy pid chid =
     (if os_open os k then
        (if os_connect_unix os (k + 1) pid chid = io_ok then (os_fd os k busy, k + 2) else (- 1, k + 2))
      else (- 1, k + 1))"

definition ntohs :: "u16 \<Rightarrow> u16" where
  "ntohs w = push_bit 8 w OR drop_bit 8 w" for w :: u16

definition ntohl :: "u32 \<Rightarrow> u32" where
  "ntohl w = push_bit 24 w OR push_bit 8 (w AND 0xff00) OR (drop_bit 8 w AND 0xff00) OR drop_bit 24 w" for w :: u32

definition connect_tcp :: "sockets \<Rightarrow> nat \<Rightarrow> int list \<Rightarrow> u32 \<Rightarrow> u32 \<Rightarrow> u32 \<Rightarrow> int \<times> nat" where
  "connect_tcp os k busy nid pid chid =
     (if \<not> os_open os k then (- 1, k + 1)
      else let port = ntohs (ucast chid);
               ec1 = os_connect_tcp os (k + 1) (if pid \<noteq> SB_UNKNOWN_IP_ADDRESS then ntohl pid else nid) port;
               (fd, ec2, k2) =
                 (if ec1 \<noteq> io_ok \<and> ec1 \<noteq> io_in_progress \<and> pid \<noteq> SB_UNKNOWN_IP_ADDRESS then
                    (if os_open os (k + 2) then
                       (os_fd os (k + 2) busy, os_connect_tcp os (k + 3) nid port, k + 4)
                     else (os_fd os k busy, ec1, k + 3))
                  else (os_fd os k busy, ec1, k + 2));
               (ec3, k3) =
                 (if ec2 = io_in_progress then
                    (waitForConnectionEstablished (os_poll os k2) SB_MASTERADAPTER_SENDTIMEO, k2 + 1)
                  else (ec2, k2))
           in if ec3 = io_ok then (fd, k3) else (- 1, k3))"

definition pcm_attach :: "sockets \<Rightarrow> u32 \<Rightarrow> u32 \<Rightarrow> u32 \<Rightarrow> PulseChannelManager \<Rightarrow> int \<times> PulseChannelManager" where
  "pcm_attach os nid pid chid m =
     (case tryAddRef nid pid chid (mSockets m) of
        Some (fd, cs) \<Rightarrow> (fd, m\<lparr>mSockets := cs\<rparr>)
      | None \<Rightarrow>
          let (rc, k) = (if nid = SB_LOCAL_NODE_ADDRESS then connect_unix os (pcm_calls m) (map pc_fd (mSockets m)) pid chid
                         else connect_tcp os (pcm_calls m) (map pc_fd (mSockets m)) nid pid chid);
              m1 = m\<lparr>pcm_calls := k\<rparr>
          in if 0 \<le> rc then
               (rc, m1\<lparr>mSockets := mSockets m1 @
                         [\<lparr>pc_nid = nid, pc_pid = pid, pc_chid = chid, pc_fd = rc, pc_refCount = 1\<rparr>],
                       pcm_log := pcm_log m1 @ [Opened rc]\<rparr>)
             else (rc, m1))"

text \<open>\<open>release\<close>: lower the count of the channel with this descriptor; at 0 close and erase it.\<close>

definition pcm_detach :: "int \<Rightarrow> PulseChannelManager \<Rightarrow> PulseChannelManager" where
  "pcm_detach fd m =
     (case find (\<lambda>c. pc_fd c = fd) (mSockets m) of
        None \<Rightarrow> m
      | Some c \<Rightarrow>
          if pc_refCount c - 1 = 0 then
            m\<lparr>mSockets := erase_first (\<lambda>c. pc_fd c = fd) (mSockets m),
              pcm_log := pcm_log m @ [Closed fd]\<rparr>
          else
            m\<lparr>mSockets := update_first (\<lambda>c. pc_fd c = fd) (\<lambda>c. c\<lparr>pc_refCount := pc_refCount c - 1\<rparr>)
                (mSockets m)\<rparr>)"

definition pcm_sendPulse :: "int \<Rightarrow> u32 \<Rightarrow> u32 \<Rightarrow> u32 \<Rightarrow> PulseChannelManager \<Rightarrow> PulseChannelManager" where
  "pcm_sendPulse fd nid code val m = m\<lparr>pcm_log := pcm_log m @ [PulseSent fd nid code val]\<rparr>"

text \<open>
  Invariant: every pooled channel is referenced, and no two share a descriptor or a target.
  \<open>refs m fd\<close> is the number of references to a descriptor.
\<close>

definition target :: "PulseChannel \<Rightarrow> u32 \<times> u32 \<times> u32" where
  "target c = (pc_nid c, pc_pid c, pc_chid c)"

definition pcm_inv :: "PulseChannelManager \<Rightarrow> bool" where
  "pcm_inv m \<longleftrightarrow> distinct (map pc_fd (mSockets m)) \<and> distinct (map target (mSockets m))
     \<and> (\<forall>c \<in> set (mSockets m). 0 \<le> pc_fd c \<and> 0 < pc_refCount c)"

definition refs :: "PulseChannelManager \<Rightarrow> int \<Rightarrow> int" where
  "refs m fd = (case find (\<lambda>c. pc_fd c = fd) (mSockets m) of None \<Rightarrow> 0 | Some c \<Rightarrow> pc_refCount c)"

text \<open>What the kernel promises of a new descriptor: it is not negative and not open already.\<close>

definition fds_fresh :: "sockets \<Rightarrow> bool" where
  "fds_fresh os \<longleftrightarrow> (\<forall>k busy. 0 \<le> os_fd os k busy \<and> os_fd os k busy \<notin> set busy)"

section \<open>The reference-counting interface\<close>

locale refcounted =
  fixes inv :: "'m \<Rightarrow> bool"
    and count_refs :: "'m \<Rightarrow> int \<Rightarrow> int"
    and usable :: "'k \<Rightarrow> bool"
    and acquire :: "'k \<Rightarrow> 'm \<Rightarrow> int \<times> 'm"
    and release :: "int \<Rightarrow> 'm \<Rightarrow> 'm"
  assumes acquire_inv: "inv m \<Longrightarrow> usable k \<Longrightarrow> inv (snd (acquire k m))"
    and acquire_ok: "inv m \<Longrightarrow> usable k \<Longrightarrow> acquire k m = (fd, m') \<Longrightarrow> 0 \<le> fd
          \<Longrightarrow> count_refs m' = (count_refs m)(fd := count_refs m fd + 1)"
    and acquire_fail: "inv m \<Longrightarrow> usable k \<Longrightarrow> acquire k m = (fd, m') \<Longrightarrow> fd < 0 \<Longrightarrow> count_refs m' = count_refs m"
    and release_inv: "inv m \<Longrightarrow> inv (release fd m)"
    and release_ok: "inv m \<Longrightarrow> 0 < count_refs m fd
          \<Longrightarrow> count_refs (release fd m) = (count_refs m)(fd := count_refs m fd - 1)"
    and count_nonneg: "inv m \<Longrightarrow> 0 \<le> count_refs m fd"
begin

lemma acquire_release:
  assumes "inv m" and "usable k" and "acquire k m = (fd, m')" and "0 \<le> fd"
  shows "count_refs (release fd m') = count_refs m"
proof -
  have m': "count_refs m' = (count_refs m)(fd := count_refs m fd + 1)" by (rule acquire_ok [OF assms])
  moreover have "inv m'" using acquire_inv [OF assms(1,2)] assms(3) by simp
  moreover have "0 < count_refs m' fd" using m' count_nonneg [OF assms(1), of fd] by simp
  ultimately show ?thesis by (simp add: release_ok)
qed

lemma release_keeps_others:
  assumes "inv m" and "0 < count_refs m fd" and "g \<noteq> fd"
  shows "count_refs (release fd m) g = count_refs m g"
  using assms by (simp add: release_ok)

end

section \<open>Lemmas\<close>

lemma update_first_no: "\<forall>x \<in> set xs. \<not> P x \<Longrightarrow> update_first P f xs = xs"
  by (induction xs) auto

text \<open>Counts are found by descriptor; an update at one descriptor changes one count.\<close>

definition refs_in :: "PulseChannel list \<Rightarrow> int \<Rightarrow> int" where
  "refs_in cs fd = (case find (\<lambda>c. pc_fd c = fd) cs of None \<Rightarrow> 0 | Some c \<Rightarrow> pc_refCount c)"

lemma refs_refs_in: "refs m = refs_in (mSockets m)"
  by (simp add: refs_def refs_in_def fun_eq_iff)

lemma refs_in_simps [simp]:
  "refs_in [] fd = 0"
  "refs_in (c # cs) fd = (if pc_fd c = fd then pc_refCount c else refs_in cs fd)"
  by (simp_all add: refs_in_def)

lemma refs_in_absent: "fd \<notin> pc_fd ` set cs \<Longrightarrow> refs_in cs fd = 0"
  by (induction cs) auto

lemma refs_in_append:
  "refs_in (cs @ [c]) fd = (if fd \<in> pc_fd ` set cs then refs_in cs fd
     else if pc_fd c = fd then pc_refCount c else 0)"
  by (induction cs) auto

lemma refs_in_find: "find (\<lambda>c. pc_fd c = fd) cs = Some c \<Longrightarrow> refs_in cs fd = pc_refCount c"
  by (simp add: refs_in_def)

lemma refs_in_update:
  assumes "distinct (map pc_fd cs)" and "find P cs = Some c"
  shows "refs_in (update_first P (\<lambda>c. c\<lparr>pc_refCount := g (pc_refCount c)\<rparr>) cs)
    = (refs_in cs)(pc_fd c := g (pc_refCount c))"
  using assms
proof (induction cs)
  case (Cons d cs)
  show ?case
  proof (cases "P d")
    case True
    with Cons.prems show ?thesis by (auto simp: fun_eq_iff)
  next
    case False
    with Cons.prems(2) have f: "find P cs = Some c" by simp
    then have "c \<in> set cs" by (auto simp: find_Some_iff)
    with Cons.prems(1) have "pc_fd d \<noteq> pc_fd c" by auto
    with False f Cons show ?thesis by (auto simp: fun_eq_iff)
  qed
qed simp

lemma refs_in_erase:
  assumes "distinct (map pc_fd cs)"
  shows "refs_in (erase_first (\<lambda>c. pc_fd c = fd) cs) = (refs_in cs)(fd := 0)"
  using assms by (induction cs) (auto simp: fun_eq_iff refs_in_absent)

lemma refs_in_member: "distinct (map pc_fd cs) \<Longrightarrow> c \<in> set cs \<Longrightarrow> refs_in cs (pc_fd c) = pc_refCount c"
  by (induction cs) auto

lemma find_pc_fd: "find (\<lambda>c. pc_fd c = fd) cs = Some c \<Longrightarrow> pc_fd c = fd \<and> c \<in> set cs"
  by (auto simp: find_Some_iff)

text \<open>\<open>tryAddRef\<close> and the two ways to connect.\<close>

lemma tryAddRef_Some:
  "tryAddRef nid pid chid cs = Some (fd, cs') \<Longrightarrow>
     \<exists>c. find (CompNidPidChid nid pid chid) cs = Some c \<and> fd = pc_fd c
       \<and> cs' = update_first (CompNidPidChid nid pid chid) (\<lambda>c. c\<lparr>pc_refCount := pc_refCount c + 1\<rparr>) cs"
  by (auto simp: tryAddRef_def split: option.splits)

lemma tryAddRef_None: "tryAddRef nid pid chid cs = None \<Longrightarrow> (nid, pid, chid) \<notin> target ` set cs"
  by (auto simp: tryAddRef_def find_None_iff CompNidPidChid_def target_def split: option.splits)

lemma connect_unix_fresh:
  "fds_fresh os \<Longrightarrow> connect_unix os k busy pid chid = (fd, k') \<Longrightarrow> 0 \<le> fd \<Longrightarrow> fd \<notin> set busy"
  by (auto simp: connect_unix_def fds_fresh_def split: if_splits)

lemma connect_tcp_fresh:
  "fds_fresh os \<Longrightarrow> connect_tcp os k busy nid pid chid = (fd, k') \<Longrightarrow> 0 \<le> fd \<Longrightarrow> fd \<notin> set busy"
  by (auto simp: connect_tcp_def fds_fresh_def Let_def split: if_splits prod.splits)

text \<open>The outcome of an attach: a shared channel, a new one, or a failure.\<close>

lemma pcm_attach_cases:
  assumes "pcm_attach os nid pid chid m = (fd, m')" and "fds_fresh os"
  obtains
    (shared) c where "find (CompNidPidChid nid pid chid) (mSockets m) = Some c" and "fd = pc_fd c"
      and "mSockets m' = update_first (CompNidPidChid nid pid chid)
             (\<lambda>c. c\<lparr>pc_refCount := pc_refCount c + 1\<rparr>) (mSockets m)"
      and "pcm_log m' = pcm_log m"
  | (new) "0 \<le> fd" and "fd \<notin> pc_fd ` set (mSockets m)" and "(nid, pid, chid) \<notin> target ` set (mSockets m)"
      and "mSockets m' = mSockets m @ [\<lparr>pc_nid = nid, pc_pid = pid, pc_chid = chid, pc_fd = fd, pc_refCount = 1\<rparr>]"
      and "pcm_log m' = pcm_log m @ [Opened fd]"
  | (failed) "fd < 0" and "mSockets m' = mSockets m" and "pcm_log m' = pcm_log m"
proof (cases "tryAddRef nid pid chid (mSockets m)")
  case None
  define conn where "conn = (if nid = SB_LOCAL_NODE_ADDRESS
      then connect_unix os (pcm_calls m) (map pc_fd (mSockets m)) pid chid
      else connect_tcp os (pcm_calls m) (map pc_fd (mSockets m)) nid pid chid)"
  obtain rc k where rk: "conn = (rc, k)" by (cases conn)
  have fresh: "rc \<notin> pc_fd ` set (mSockets m)" if "0 \<le> rc"
    using rk that assms(2) connect_unix_fresh connect_tcp_fresh
    by (fastforce simp: conn_def split: if_splits)
  have "fd = rc" using assms(1) None rk by (auto simp: pcm_attach_def conn_def [symmetric] Let_def split: if_splits)
  then show ?thesis
    using assms(1) None rk fresh new failed tryAddRef_None [OF None]
    by (auto simp: pcm_attach_def conn_def [symmetric] Let_def split: if_splits)
next
  case (Some p)
  obtain fd' cs where p: "p = (fd', cs)" by (cases p)
  from tryAddRef_Some [OF Some [unfolded p]] obtain c where
    "find (CompNidPidChid nid pid chid) (mSockets m) = Some c" "fd' = pc_fd c"
    "cs = update_first (CompNidPidChid nid pid chid) (\<lambda>c. c\<lparr>pc_refCount := pc_refCount c + 1\<rparr>) (mSockets m)"
    by blast
  then show ?thesis using assms(1) Some p shared by (auto simp: pcm_attach_def)
qed

lemma pcm_inv_update:
  assumes "pcm_inv m" and "mSockets m' = update_first P (\<lambda>c. c\<lparr>pc_refCount := g (pc_refCount c)\<rparr>) (mSockets m)"
    and "\<And>c. c \<in> set (mSockets m) \<Longrightarrow> P c \<Longrightarrow> 0 < g (pc_refCount c)"
  shows "pcm_inv m'"
proof -
  have "map pc_fd (mSockets m') = map pc_fd (mSockets m)" "map target (mSockets m') = map target (mSockets m)"
    by (simp_all add: assms(2) map_update_first target_def)
  moreover have "0 \<le> pc_fd c \<and> 0 < pc_refCount c" if "c \<in> set (mSockets m')" for c
    using set_update_first [of c, OF that [unfolded assms(2)]] assms(1,3) by (auto simp: pcm_inv_def)
  ultimately show ?thesis using assms(1) unfolding pcm_inv_def by metis
qed

lemma pcm_attach_inv:
  assumes "pcm_inv m" and "fds_fresh os" and "pcm_attach os nid pid chid m = (fd, m')"
  shows "pcm_inv m'"
  using assms(3,2)
proof (cases rule: pcm_attach_cases)
  case (shared c)
  show ?thesis by (rule pcm_inv_update [OF assms(1) shared(3)]) (use assms(1) in \<open>force simp: pcm_inv_def\<close>)
next
  case new
  then show ?thesis using assms(1) by (auto simp: pcm_inv_def target_def)
next
  case failed
  then show ?thesis using assms(1) by (simp add: pcm_inv_def)
qed

lemma pcm_attach_refs:
  assumes "pcm_inv m" and "fds_fresh os" and "pcm_attach os nid pid chid m = (fd, m')"
  shows "refs m' = (if 0 \<le> fd then (refs m)(fd := refs m fd + 1) else refs m)"
  using assms(3,2)
proof (cases rule: pcm_attach_cases)
  case (shared c)
  have c: "c \<in> set (mSockets m)" using shared(1) by (auto simp: find_Some_iff)
  with assms(1) have "0 \<le> fd" using shared(2) by (simp add: pcm_inv_def)
  moreover have "refs_in (mSockets m) (pc_fd c) = pc_refCount c"
    using assms(1) c by (simp add: refs_in_member pcm_inv_def)
  ultimately show ?thesis
    using assms(1) shared refs_in_update [of "mSockets m" _ c "\<lambda>n. n + 1"]
    by (simp add: refs_refs_in pcm_inv_def)
next
  case new
  then show ?thesis
    by (auto simp: refs_refs_in fun_eq_iff refs_in_append refs_in_absent)
next
  case failed
  then show ?thesis by (simp add: refs_refs_in)
qed

text \<open>A detach lowers one count; at zero the descriptor is closed and leaves the pool.\<close>

lemma pcm_detach_inv:
  assumes "pcm_inv m"
  shows "pcm_inv (pcm_detach fd m)"
proof (cases "find (\<lambda>c. pc_fd c = fd) (mSockets m)")
  case None
  then show ?thesis using assms by (simp add: pcm_detach_def)
next
  case (Some c)
  have c: "c \<in> set (mSockets m)" "pc_fd c = fd" using find_pc_fd [OF Some] by simp_all
  show ?thesis
  proof (cases "pc_refCount c = 1")
    case True
    then show ?thesis
      using assms Some set_erase_first_subset [of "\<lambda>c. pc_fd c = fd" "mSockets m"]
      by (auto simp: pcm_detach_def pcm_inv_def distinct_map_erase_first)
  next
    case False
    have pos: "0 < pc_refCount d - 1" if "d \<in> set (mSockets m)" "pc_fd d = fd" for d
    proof -
      have "d = c" using assms that c by (auto simp: pcm_inv_def dest: distinct_map [THEN iffD1] inj_onD)
      with False assms c(1) show ?thesis by (force simp: pcm_inv_def)
    qed
    show ?thesis
      using False Some pos
      by (intro pcm_inv_update [OF assms, where g = "\<lambda>n. n - 1" and P = "\<lambda>c. pc_fd c = fd"]) (auto simp: pcm_detach_def)
  qed
qed

lemma pcm_detach_refs:
  assumes "pcm_inv m" and "0 < refs m fd"
  shows "refs (pcm_detach fd m) = (refs m)(fd := refs m fd - 1)"
proof -
  obtain c where c: "find (\<lambda>c. pc_fd c = fd) (mSockets m) = Some c"
    using assms(2) by (auto simp: refs_def split: option.splits)
  have d: "distinct (map pc_fd (mSockets m))" using assms(1) by (simp add: pcm_inv_def)
  have fd: "pc_fd c = fd" using find_pc_fd [OF c] by simp
  have n: "refs m fd = pc_refCount c" by (simp add: refs_def c)
  show ?thesis
  proof (cases "pc_refCount c = 1")
    case True
    then show ?thesis using c n refs_in_erase [OF d] by (simp add: pcm_detach_def refs_refs_in)
  next
    case False
    then show ?thesis
      using c n fd refs_in_update [OF d c, of "\<lambda>n. n - 1"] by (simp add: pcm_detach_def refs_refs_in)
  qed
qed

lemma refs_nonneg: "pcm_inv m \<Longrightarrow> 0 \<le> refs m fd"
  using find_pc_fd [of fd "mSockets m"]
  by (auto simp: refs_def pcm_inv_def split: option.splits intro: less_imp_le)

abbreviation pcm_acquire :: "sockets \<times> u32 \<times> u32 \<times> u32 \<Rightarrow> PulseChannelManager \<Rightarrow> int \<times> PulseChannelManager" where
  "pcm_acquire k m \<equiv> (case k of (os, nid, pid, chid) \<Rightarrow> pcm_attach os nid pid chid m)"

interpretation channels: refcounted pcm_inv refs "\<lambda>k. fds_fresh (fst k)" pcm_acquire pcm_detach
proof
  fix m :: PulseChannelManager and k :: "sockets \<times> u32 \<times> u32 \<times> u32"
  assume "pcm_inv m" "fds_fresh (fst k)"
  then show "pcm_inv (snd (pcm_acquire k m))"
    by (cases "pcm_acquire k m") (auto split: prod.splits intro: pcm_attach_inv)
next
  fix m m' fd and k :: "sockets \<times> u32 \<times> u32 \<times> u32"
  assume "pcm_inv m" "fds_fresh (fst k)" "pcm_acquire k m = (fd, m')" "0 \<le> fd"
  then show "refs m' = (refs m)(fd := refs m fd + 1)"
    by (cases k) (auto dest: pcm_attach_refs)
next
  fix m m' fd and k :: "sockets \<times> u32 \<times> u32 \<times> u32"
  assume "pcm_inv m" "fds_fresh (fst k)" "pcm_acquire k m = (fd, m')" "fd < 0"
  then show "refs m' = refs m"
    by (cases k) (auto dest: pcm_attach_refs)
next
  fix m fd assume "pcm_inv m"
  then show "pcm_inv (pcm_detach fd m)" by (rule pcm_detach_inv)
next
  fix m fd assume "pcm_inv m" "0 < refs m fd"
  then show "refs (pcm_detach fd m) = (refs m)(fd := refs m fd - 1)" by (rule pcm_detach_refs)
next
  fix m fd assume "pcm_inv m"
  then show "0 \<le> refs m fd" by (rule refs_nonneg)
qed

text \<open>The log: a descriptor is closed exactly when its last reference goes.\<close>

lemma pcm_detach_closes:
  assumes "pcm_inv m" and "0 < refs m fd"
  shows "pcm_log (pcm_detach fd m) = pcm_log m @ (if refs m fd = 1 then [Closed fd] else [])"
  using assms(2) by (auto simp: pcm_detach_def refs_def split: option.splits)

lemma pcm_sendPulse_simps [simp]:
  "mSockets (pcm_sendPulse fd i c v m) = mSockets m"
  "pcm_inv (pcm_sendPulse fd i c v m) = pcm_inv m"
  "refs (pcm_sendPulse fd i c v m) = refs m"
  "pcm_log (pcm_sendPulse fd i c v m) = pcm_log m @ [PulseSent fd i c v]"
  by (simp_all add: pcm_sendPulse_def pcm_inv_def refs_refs_in)

end
