(* ===== verification/Notification_Pool.thy ===== *)
theory Notification_Pool
  imports SB_Types
begin

text \<open>
  \<^verbatim>\<open>NotificationPool\<close> and \<^verbatim>\<open>NotificationPoolEntry\<close>: the proxies a slave keeps for the
  notifications it has set at its master. The variant member is a datatype, the state machine of
  an entry is \<open>np_setState\<close> / \<open>np_setState_server\<close>, and \<open>np_detach\<close> is the pool part of a
  detach: it returns the master notification to clear, if the last reference went.
  The static counter \<open>NextPoolID\<close> is passed in by the caller.
\<close>

section \<open>Definitions\<close>

datatype EPoolState =
    STATE_UNDEFINED | STATE_DEFERRED | STATE_CONNECTING | STATE_CONNECTED | STATE_PRECACHING
  | STATE_MONITOR_DISCONNECT

datatype pool_data = PoolInterface InterfaceDescription | PoolServer SPartyID

record NotificationPoolEntry =
  np_notificationID :: u32
  np_poolID :: u32
  np_data :: pool_data
  np_state :: EPoolState
  np_refCount :: u32

record NotificationPool =
  np_entries :: "NotificationPoolEntry list"
  np_total :: u32

definition empty_NotificationPool :: NotificationPool where
  "empty_NotificationPool = \<lparr>np_entries = [], np_total = 0\<rparr>"

definition new_pool_if :: "u32 \<Rightarrow> InterfaceDescription \<Rightarrow> bool \<Rightarrow> NotificationPoolEntry" where
  "new_pool_if next_id ifDescr isDeferredPool =
     \<lparr>np_notificationID = INVALID_NOTIFICATION_ID, np_poolID = next_id, np_data = PoolInterface ifDescr,
      np_state = (if isDeferredPool then STATE_DEFERRED else STATE_CONNECTING), np_refCount = 0\<rparr>"

definition new_pool_server :: "u32 \<Rightarrow> SPartyID \<Rightarrow> NotificationPoolEntry" where
  "new_pool_server next_id serverID =
     \<lparr>np_notificationID = INVALID_NOTIFICATION_ID, np_poolID = next_id, np_data = PoolServer serverID,
      np_state = STATE_MONITOR_DISCONNECT, np_refCount = 0\<rparr>"

text \<open>The pointer getters: \<open>None\<close> is the null pointer.\<close>

definition np_getInterfaceDescription :: "NotificationPoolEntry \<Rightarrow> InterfaceDescription option" where
  "np_getInterfaceDescription e = (case np_data e of PoolInterface d \<Rightarrow> Some d | PoolServer _ \<Rightarrow> None)"

definition np_getServerID :: "NotificationPoolEntry \<Rightarrow> SPartyID option" where
  "np_getServerID e = (case np_data e of PoolServer p \<Rightarrow> Some p | PoolInterface _ \<Rightarrow> None)"

definition np_setState :: "EPoolState \<Rightarrow> NotificationPoolEntry \<Rightarrow> NotificationPoolEntry \<times> bool" where
  "np_setState newState e =
     (if np_state e = STATE_DEFERRED \<and> newState = STATE_CONNECTING then
        (e\<lparr>np_state := STATE_CONNECTING\<rparr>, True)
      else if np_state e = STATE_CONNECTING \<and> newState = STATE_CONNECTED then
        (e\<lparr>np_state := STATE_CONNECTED\<rparr>, True)
      else if np_state e = STATE_CONNECTED \<and> newState = STATE_PRECACHING then
        (e\<lparr>np_state := STATE_PRECACHING\<rparr>, True)
      else (e, False))"

definition np_setState_server :: "SPartyID \<Rightarrow> NotificationPoolEntry \<Rightarrow> NotificationPoolEntry \<times> bool" where
  "np_setState_server serverID e =
     (if np_state e \<noteq> STATE_DEFERRED \<and> np_state e \<noteq> STATE_PRECACHING then (e, False)
      else (e\<lparr>np_state := STATE_MONITOR_DISCONNECT, np_data := PoolServer serverID\<rparr>, True))"

text \<open>Adding a pool entry returns its position.\<close>

definition np_add_if :: "u32 \<Rightarrow> InterfaceDescription \<Rightarrow> bool \<Rightarrow> NotificationPool \<Rightarrow> NotificationPool \<times> nat" where
  "np_add_if next_id d isDeferredPool p =
     (p\<lparr>np_entries := np_entries p @ [new_pool_if next_id d isDeferredPool], np_total := np_total p + 1\<rparr>,
      length (np_entries p))"

definition np_add_server :: "u32 \<Rightarrow> SPartyID \<Rightarrow> NotificationPool \<Rightarrow> NotificationPool \<times> nat" where
  "np_add_server next_id s p =
     (p\<lparr>np_entries := np_entries p @ [new_pool_server next_id s], np_total := np_total p + 1\<rparr>,
      length (np_entries p))"

definition pool_searchable :: "bool \<Rightarrow> NotificationPoolEntry \<Rightarrow> bool" where
  "pool_searchable extendedSearch e \<longleftrightarrow>
     extendedSearch \<and> np_state e \<noteq> STATE_MONITOR_DISCONNECT \<or> np_state e = STATE_CONNECTING"

definition np_find_if :: "NotificationPool \<Rightarrow> InterfaceDescription \<Rightarrow> bool \<Rightarrow> int" where
  "np_find_if p d extendedSearch =
     find_last (\<lambda>e. pool_searchable extendedSearch e \<and> np_getInterfaceDescription e = Some d)
       (np_entries p) (length (np_entries p))"

definition np_find_server :: "NotificationPool \<Rightarrow> SPartyID \<Rightarrow> int" where
  "np_find_server p s =
     find_last (\<lambda>e. np_state e = STATE_MONITOR_DISCONNECT
         \<and> (case np_getServerID e of Some q \<Rightarrow> party_eq q s | None \<Rightarrow> False))
       (np_entries p) (length (np_entries p))"

definition np_find_id :: "NotificationPool \<Rightarrow> u32 \<Rightarrow> int" where
  "np_find_id p i = find_last (\<lambda>e. np_poolID e = i) (np_entries p) (length (np_entries p))"

definition np_update :: "nat \<Rightarrow> (NotificationPoolEntry \<Rightarrow> NotificationPoolEntry) \<Rightarrow> NotificationPool \<Rightarrow> NotificationPool" where
  "np_update pos f p = p\<lparr>np_entries := (np_entries p)[pos := f (np_entries p ! pos)]\<rparr>"

definition np_removePool :: "u32 \<Rightarrow> NotificationPool \<Rightarrow> NotificationPool" where
  "np_removePool i p =
     (let pos = np_find_id p i
      in if pos \<noteq> - 1 then
           p\<lparr>np_entries := take (nat pos) (np_entries p) @ drop (Suc (nat pos)) (np_entries p)\<rparr>
         else p)"

definition np_clear :: "NotificationPool \<Rightarrow> NotificationPool" where
  "np_clear p = p\<lparr>np_entries := []\<rparr>"

definition np_attach :: "nat \<Rightarrow> NotificationPool \<Rightarrow> NotificationPool" where
  "np_attach pos p = np_update pos (\<lambda>e. e\<lparr>np_refCount := np_refCount e + 1\<rparr>) p"

text \<open>
  \<open>NotificationPoolEntry::detach\<close> at a position: the count does not go below 0; at 0 the entry is
  removed and its master notification is returned for clearing.
\<close>

definition np_detach :: "nat \<Rightarrow> NotificationPool \<Rightarrow> NotificationPool \<times> u32 option" where
  "np_detach pos p =
     (let e = np_entries p ! pos;
          cnt = (if 0 < np_refCount e then np_refCount e - 1 else np_refCount e)
      in if cnt = 0 then
           (np_removePool (np_poolID e) (np_update pos (\<lambda>e. e\<lparr>np_refCount := cnt\<rparr>) p),
            if np_notificationID e \<noteq> INVALID_NOTIFICATION_ID then Some (np_notificationID e) else None)
         else (np_update pos (\<lambda>e. e\<lparr>np_refCount := cnt\<rparr>) p, None))"

text \<open>
  Well-formedness: the variant holds a server id exactly in the state that reads it, and the
  state is never the undefined one.
\<close>

definition pool_entry_wf :: "NotificationPoolEntry \<Rightarrow> bool" where
  "pool_entry_wf e \<longleftrightarrow> np_state e \<noteq> STATE_UNDEFINED
     \<and> (np_state e = STATE_MONITOR_DISCONNECT \<longleftrightarrow> (\<exists>s. np_data e = PoolServer s))"

definition pool_wf :: "NotificationPool \<Rightarrow> bool" where
  "pool_wf p \<longleftrightarrow> (\<forall>e \<in> set (np_entries p). pool_entry_wf e)"

text \<open>The transition graph the header documents.\<close>

inductive pool_step :: "EPoolState \<Rightarrow> EPoolState \<Rightarrow> bool" where
  deferred_connecting: "pool_step STATE_DEFERRED STATE_CONNECTING"
| connecting_connected: "pool_step STATE_CONNECTING STATE_CONNECTED"
| connected_precaching: "pool_step STATE_CONNECTED STATE_PRECACHING"
| precaching_monitor: "pool_step STATE_PRECACHING STATE_MONITOR_DISCONNECT"
| deferred_monitor: "pool_step STATE_DEFERRED STATE_MONITOR_DISCONNECT"

inductive_cases pool_step_from_monitor: "pool_step STATE_MONITOR_DISCONNECT s"

fun pool_rank :: "EPoolState \<Rightarrow> nat" where
  "pool_rank STATE_UNDEFINED = 0"
| "pool_rank STATE_DEFERRED = 1"
| "pool_rank STATE_CONNECTING = 2"
| "pool_rank STATE_CONNECTED = 3"
| "pool_rank STATE_PRECACHING = 4"
| "pool_rank STATE_MONITOR_DISCONNECT = 5"

section \<open>Lemmas\<close>

lemma pool_step_rank: "pool_step s t \<Longrightarrow> pool_rank s < pool_rank t"
  by (induction rule: pool_step.induct) simp_all

lemma np_setState_step:
  "np_setState n e = (e', b) \<Longrightarrow>
     (b \<longrightarrow> pool_step (np_state e) (np_state e') \<and> np_state e' = n) \<and> (\<not> b \<longrightarrow> e' = e)"
  by (auto simp: np_setState_def intro: pool_step.intros split: if_splits)

lemma np_setState_server_step:
  "np_setState_server s e = (e', b) \<Longrightarrow>
     (b \<longrightarrow> pool_step (np_state e) (np_state e') \<and> np_data e' = PoolServer s) \<and> (\<not> b \<longrightarrow> e' = e)"
  by (cases "np_state e") (auto simp: np_setState_server_def intro: pool_step.intros split: if_splits)

lemma np_setState_keeps [simp]:
  "np_poolID (fst (np_setState n e)) = np_poolID e"
  "np_refCount (fst (np_setState n e)) = np_refCount e"
  "np_data (fst (np_setState n e)) = np_data e"
  "np_poolID (fst (np_setState_server s e)) = np_poolID e"
  "np_refCount (fst (np_setState_server s e)) = np_refCount e"
  by (simp_all add: np_setState_def np_setState_server_def)

lemma np_setState_wf: "pool_entry_wf e \<Longrightarrow> pool_entry_wf (fst (np_setState n e))"
  by (auto simp: np_setState_def pool_entry_wf_def)

lemma np_setState_server_wf: "pool_entry_wf e \<Longrightarrow> pool_entry_wf (fst (np_setState_server s e))"
  by (auto simp: np_setState_server_def pool_entry_wf_def)

lemma pool_wf_empty [simp]: "pool_wf empty_NotificationPool"
  by (simp add: pool_wf_def empty_NotificationPool_def)

lemma pool_wf_add:
  "pool_wf p \<Longrightarrow> pool_wf (fst (np_add_if i d b p))"
  "pool_wf p \<Longrightarrow> pool_wf (fst (np_add_server i s p))"
  by (auto simp: pool_wf_def np_add_if_def np_add_server_def new_pool_if_def new_pool_server_def
      pool_entry_wf_def)

lemma pool_wf_update:
  "pool_wf p \<Longrightarrow> (\<And>e. pool_entry_wf e \<Longrightarrow> pool_entry_wf (f e)) \<Longrightarrow> pool_wf (np_update pos f p)"
  unfolding pool_wf_def np_update_def
  by (cases "pos < length (np_entries p)")
    (auto simp: list_update_beyond dest!: set_update_subset_insert [THEN subsetD])

lemma pool_wf_removePool: "pool_wf p \<Longrightarrow> pool_wf (np_removePool i p)"
  by (auto simp: pool_wf_def np_removePool_def Let_def dest: in_set_takeD in_set_dropD)

lemma pool_wf_attach: "pool_wf p \<Longrightarrow> pool_wf (np_attach pos p)"
  unfolding np_attach_def by (rule pool_wf_update) (simp_all add: pool_entry_wf_def)

lemma pool_wf_detach: "pool_wf p \<Longrightarrow> pool_wf (fst (np_detach pos p))"
proof -
  assume wf: "pool_wf p"
  have upd: "pool_wf (np_update pos (\<lambda>e. e\<lparr>np_refCount := n\<rparr>) p)" for n
    by (rule pool_wf_update [OF wf]) (simp add: pool_entry_wf_def)
  then have "pool_wf (np_removePool i (np_update pos (\<lambda>e. e\<lparr>np_refCount := n\<rparr>) p))" for i n
    by (rule pool_wf_removePool)
  with upd show ?thesis unfolding np_detach_def Let_def by simp
qed

lemma pool_wf_clear [simp]: "pool_wf (np_clear p)"
  by (simp add: pool_wf_def np_clear_def)

text \<open>The dereferences of the searches are safe: what they guard holds the member they read.\<close>

lemma searchable_has_description:
  "pool_entry_wf e \<Longrightarrow> pool_searchable ext e \<Longrightarrow> np_getInterfaceDescription e \<noteq> None"
  by (cases "np_data e") (auto simp: pool_entry_wf_def pool_searchable_def np_getInterfaceDescription_def)

lemma monitor_has_server:
  "pool_entry_wf e \<Longrightarrow> np_state e = STATE_MONITOR_DISCONNECT \<Longrightarrow> np_getServerID e \<noteq> None"
  by (auto simp: pool_entry_wf_def np_getServerID_def)

text \<open>Position searches.\<close>

lemma np_find_id_some:
  "np_find_id p i \<noteq> - 1 \<Longrightarrow>
     nat (np_find_id p i) < length (np_entries p) \<and> np_poolID (np_entries p ! nat (np_find_id p i)) = i"
  unfolding np_find_id_def by (drule find_last_some) simp

lemma np_find_id_none: "np_find_id p i = - 1 \<longleftrightarrow> i \<notin> np_poolID ` set (np_entries p)"
  unfolding np_find_id_def find_last_none by (metis (no_types) image_iff in_set_conv_nth)

lemma np_removePool_ids:
  assumes "distinct (map np_poolID (np_entries p))"
  shows "np_poolID ` set (np_entries (np_removePool i p)) = np_poolID ` set (np_entries p) - {i}"
proof (cases "np_find_id p i = - 1")
  case True
  then show ?thesis using np_find_id_none [of p i] by (simp add: np_removePool_def)
next
  case False
  define k where "k = nat (np_find_id p i)"
  have k: "k < length (np_entries p)" "np_poolID (np_entries p ! k) = i"
    using np_find_id_some [OF False] by (simp_all add: k_def)
  have split: "map np_poolID (np_entries p)
      = map np_poolID (take k (np_entries p)) @ i # map np_poolID (drop (Suc k) (np_entries p))"
    using arg_cong [OF id_take_nth_drop [OF k(1)], of "map np_poolID"] k(2) by simp
  have rest: "map np_poolID (np_entries (np_removePool i p))
      = map np_poolID (take k (np_entries p)) @ map np_poolID (drop (Suc k) (np_entries p))"
    using False by (simp add: np_removePool_def k_def Let_def)
  have "set (map np_poolID (np_entries (np_removePool i p))) = set (map np_poolID (np_entries p)) - {i}"
    unfolding rest using assms unfolding split by auto
  then show ?thesis by simp
qed

end
