(* ===== verification/Job_Queue.thy ===== *)
theory Job_Queue
  imports SB_Types
begin

text \<open>
  \<^verbatim>\<open>Job\<close>, \<^verbatim>\<open>JobQueue\<close> and the job execution of \<^verbatim>\<open>MasterAdapter\<close>. The queue is the intrusive
  singly linked list of the code: job addresses, the \<open>next\<close> field of each job as a store, and the
  \<open>mFront\<close>/\<open>mBack\<close> pointers. It is proved to implement a list queue (locale \<open>fifo\<close>), which is
  how the rest of the development uses it. The exchange with the master
  (\<^verbatim>\<open>sendAndReceive\<close> over the socket) is a parameter that gives the transport status, the
  return code and the received output of a job.
\<close>

section \<open>Definitions\<close>

subsection \<open>Jobs\<close>

text \<open>The output view (\<open>.o\<close>) of the argument buffer, by command.\<close>

datatype job_out =
    OutNone
  | OutConnection SConnectionInfo
  | OutAttachExtended SConnectionInfo u32
  | OutServerInfo SServerInfo
  | OutNotifications "SFNDNotificationID list"
  | OutNotification u32
  | OutServerIDs "SPartyID list"
  | OutInterfaces "SFNDInterfaceDescription list"

record Job =
  j_cookie :: u32
  j_ctx :: "nat option" \<comment> \<open>the connection the response goes to\<close>
  j_req :: request \<comment> \<open>command and input arguments\<close>
  j_out :: job_out
  j_status :: int
  j_ret_val :: int
  j_sbytes :: nat
  j_rbytes :: nat
  j_regex :: "string option"

definition Job_create :: "nat option \<Rightarrow> u32 \<Rightarrow> request \<Rightarrow> nat \<Rightarrow> nat \<Rightarrow> Job" where
  "Job_create ctx cookie req sbytes rbytes =
     \<lparr>j_cookie = cookie, j_ctx = ctx, j_req = req, j_out = OutNone, j_status = 0, j_ret_val = 0,
      j_sbytes = sbytes, j_rbytes = rbytes, j_regex = None\<rparr>"

text \<open>\<open>job.arg\<close> is not null exactly when something is sent or received.\<close>

definition j_has_arg :: "Job \<Rightarrow> bool" where
  "j_has_arg j \<longleftrightarrow> 0 < j_rbytes j \<or> 0 < j_sbytes j"

subsection \<open>The linked queue\<close>

type_synonym addr = nat

record JobQueue =
  jq_front :: "addr option"
  jq_back :: "addr option"
  jq_next :: "addr \<Rightarrow> addr option"
  jq_size :: u32
  jq_total :: u32

definition empty_JobQueue :: JobQueue where
  "empty_JobQueue = \<lparr>jq_front = None, jq_back = None, jq_next = (\<lambda>_. None), jq_size = 0, jq_total = 0\<rparr>"

definition jq_push :: "addr \<Rightarrow> JobQueue \<Rightarrow> JobQueue" where
  "jq_push job q =
     (let q1 = (case jq_back q of
                  None \<Rightarrow> q\<lparr>jq_front := Some job\<rparr>
                | Some b \<Rightarrow> q\<lparr>jq_next := (jq_next q)(b := Some job)\<rparr>)
      in q1\<lparr>jq_back := Some job, jq_size := jq_size q + 1, jq_total := jq_total q + 1\<rparr>)"

definition jq_pop :: "JobQueue \<Rightarrow> addr option \<times> JobQueue" where
  "jq_pop q =
     (case jq_front q of
        None \<Rightarrow> (None, q)
      | Some job \<Rightarrow>
          let f = jq_next q job;
              q1 = q\<lparr>jq_front := f, jq_next := (jq_next q)(job := None)\<rparr>;
              q2 = (if f = None then q1\<lparr>jq_back := None\<rparr> else q1)
          in (Some job, q2\<lparr>jq_size := jq_size q - 1\<rparr>))"

text \<open>The queue holds exactly the jobs \<open>xs\<close>, in that order.\<close>

fun chain :: "(addr \<Rightarrow> addr option) \<Rightarrow> addr option \<Rightarrow> addr list \<Rightarrow> bool" where
  "chain nxt p [] = (p = None)"
| "chain nxt p (x # xs) = (p = Some x \<and> chain nxt (nxt x) xs)"

definition jq_rep :: "JobQueue \<Rightarrow> addr list \<Rightarrow> bool" where
  "jq_rep q xs \<longleftrightarrow> distinct xs \<and> chain (jq_next q) (jq_front q) xs
     \<and> jq_back q = (if xs = [] then None else Some (last xs)) \<and> jq_size q = of_nat (length xs)"

subsection \<open>Executing jobs at the master\<close>

definition EINVAL :: int where "EINVAL = 22"
definition EIO :: int where "EIO = 5"

text \<open>
  \<open>MasterConnectorSocket::execute\<close>: a negative return code (the element count of the list
  commands) is negated, \<open>FNDBadArgument\<close> becomes the transport error \<open>EINVAL\<close>.
\<close>

definition connector_execute :: "(Job \<Rightarrow> int \<times> int \<times> job_out) \<Rightarrow> Job \<Rightarrow> Job \<times> bool" where
  "connector_execute exchange job =
     (let (status, ret, out) = exchange job;
          j1 = job\<lparr>j_status := status, j_ret_val := ret, j_out := out\<rparr>;
          j2 = (if status = 0 then
                  (if ret < 0 then j1\<lparr>j_ret_val := - ret\<rparr>
                   else if ret = status_code FNDBadArgument then j1\<lparr>j_status := EINVAL\<rparr>
                   else j1)
                else j1)
      in (j2, status = 0))"

text \<open>
  \<open>removePending\<close> and \<open>executePending\<close> over the queue's jobs: the finished jobs, in the order
  they are reported, what stays queued, and whether the connection is still good.
\<close>

fun removePending :: "Job list \<Rightarrow> Job list" where
  "removePending [] = []"
| "removePending (j # js) = j\<lparr>j_status := EIO\<rparr> # removePending js"

fun executePending :: "(Job \<Rightarrow> int \<times> int \<times> job_out) \<Rightarrow> Job list \<Rightarrow> Job list \<times> Job list \<times> bool" where
  "executePending exchange [] = ([], [], True)"
| "executePending exchange (j # js) =
     (let (j', rc) = connector_execute exchange j
      in if rc then
           (let (done_jobs, rest, ok) = executePending exchange js in (j' # done_jobs, rest, ok))
         else ([j'], js, False))"

subsection \<open>Sequences of queue operations\<close>

text \<open>
  The worker and the broker use the queue in any order: a sequence of operations on any queue,
  with the results of the pops; \<open>fresh_ops\<close> says that no job is pushed while it is queued.
\<close>

datatype 'a qop = Push 'a | Pop

fun q_run :: "('a \<Rightarrow> 'q \<Rightarrow> 'q) \<Rightarrow> ('q \<Rightarrow> 'a option \<times> 'q) \<Rightarrow> 'a qop list \<Rightarrow> 'q \<Rightarrow> 'a option list \<times> 'q" where
  "q_run push pop [] q = ([], q)"
| "q_run push pop (Push x # ops) q = q_run push pop ops (push x q)"
| "q_run push pop (Pop # ops) q =
     (let (r, q1) = pop q; (rs, q2) = q_run push pop ops q1 in (r # rs, q2))"

definition list_push :: "'a \<Rightarrow> 'a list \<Rightarrow> 'a list" where
  "list_push x xs = xs @ [x]"

definition list_pop :: "'a list \<Rightarrow> 'a option \<times> 'a list" where
  "list_pop xs = (case xs of [] \<Rightarrow> (None, []) | y # ys \<Rightarrow> (Some y, ys))"

fun fresh_ops :: "'a qop list \<Rightarrow> 'a list \<Rightarrow> bool" where
  "fresh_ops [] xs = True"
| "fresh_ops (Push x # ops) xs = (x \<notin> set xs \<and> fresh_ops ops (list_push x xs))"
| "fresh_ops (Pop # ops) xs = fresh_ops ops (snd (list_pop xs))"

section \<open>The queue interface\<close>

locale fifo =
  fixes rep :: "'q \<Rightarrow> 'a list \<Rightarrow> bool"
    and empty_q :: 'q
    and push :: "'a \<Rightarrow> 'q \<Rightarrow> 'q"
    and pop :: "'q \<Rightarrow> 'a option \<times> 'q"
  assumes rep_empty: "rep empty_q []"
    and rep_push: "rep q xs \<Longrightarrow> x \<notin> set xs \<Longrightarrow> rep (push x q) (xs @ [x])"
    and rep_pop_Nil: "rep q [] \<Longrightarrow> pop q = (None, q)"
    and rep_pop_Cons: "rep q (x # xs) \<Longrightarrow> \<exists>q'. pop q = (Some x, q') \<and> rep q' xs"
begin

text \<open>A queue with these laws behaves like a list under every sequence of operations.\<close>

lemma run_refines:
  "rep q xs \<Longrightarrow> fresh_ops ops xs \<Longrightarrow>
     fst (q_run push pop ops q) = fst (q_run list_push list_pop ops xs)
     \<and> rep (snd (q_run push pop ops q)) (snd (q_run list_push list_pop ops xs))"
proof (induction ops xs arbitrary: q rule: fresh_ops.induct)
  case (2 x ops xs)
  then show ?case using rep_push [of q xs x] by (simp add: list_push_def)
next
  case (3 ops xs)
  show ?case
  proof (cases xs)
    case Nil
    then show ?thesis using 3 rep_pop_Nil [of q] by (simp add: list_pop_def case_prod_beta)
  next
    case (Cons y ys)
    then obtain q' where "pop q = (Some y, q')" "rep q' ys" using rep_pop_Cons 3(2) by blast
    then show ?thesis using 3 Cons by (simp add: list_pop_def case_prod_beta)
  qed
qed simp

lemma run_from_empty:
  assumes "fresh_ops ops []"
  shows "fst (q_run push pop ops empty_q) = fst (q_run list_push list_pop ops [])"
  using run_refines [OF rep_empty assms] by simp

end

section \<open>Lemmas\<close>

lemma chain_upd_outside: "p \<notin> set xs \<Longrightarrow> chain (nxt(p := v)) f xs = chain nxt f xs"
  by (induction xs arbitrary: f) auto

lemma chain_snoc:
  "distinct (xs @ [y]) \<Longrightarrow> chain nxt f xs \<Longrightarrow> xs \<noteq> [] \<Longrightarrow> nxt y = None
     \<Longrightarrow> chain (nxt(last xs := Some y)) f (xs @ [y])"
proof (induction xs arbitrary: f)
  case (Cons x xs)
  then show ?case
    by (cases "xs = []") (auto simp: chain_upd_outside)
qed simp

lemma chain_last_None: "chain nxt f xs \<Longrightarrow> xs \<noteq> [] \<Longrightarrow> nxt (last xs) = None"
  by (induction xs arbitrary: f) auto

text \<open>
  The code asserts that a pushed job has no successor; popping resets the field, so a job that
  is not queued never has one.
\<close>

definition jq_inv :: "JobQueue \<Rightarrow> addr list \<Rightarrow> bool" where
  "jq_inv q xs \<longleftrightarrow> jq_rep q xs \<and> (\<forall>p. p \<notin> set xs \<longrightarrow> jq_next q p = None)"

lemma jq_inv_empty: "jq_inv empty_JobQueue []"
  by (simp add: jq_inv_def jq_rep_def empty_JobQueue_def)

lemma jq_inv_push:
  assumes "jq_inv q xs" and "x \<notin> set xs"
  shows "jq_inv (jq_push x q) (xs @ [x])"
proof (cases "xs = []")
  case True
  with assms show ?thesis by (auto simp: jq_inv_def jq_rep_def jq_push_def)
next
  case False
  have "chain ((jq_next q)(last xs := Some x)) (jq_front q) (xs @ [x])"
    using assms False by (intro chain_snoc) (auto simp: jq_inv_def jq_rep_def)
  with assms False show ?thesis
    by (auto simp: jq_inv_def jq_rep_def jq_push_def)
qed

lemma jq_inv_pop_Cons:
  assumes "jq_inv q (x # xs)"
  shows "\<exists>q'. jq_pop q = (Some x, q') \<and> jq_inv q' xs"
  using assms
  by (cases xs) (auto simp: jq_inv_def jq_rep_def jq_pop_def Let_def chain_upd_outside)

interpretation jobqueue: fifo jq_inv empty_JobQueue jq_push jq_pop
proof
  fix q assume "jq_inv q []"
  then show "jq_pop q = (None, q)" by (simp add: jq_inv_def jq_rep_def jq_pop_def)
qed (fact jq_inv_empty jq_inv_push jq_inv_pop_Cons)+

text \<open>Executing the pending jobs.\<close>

lemma removePending_map: "removePending js = map (\<lambda>j. j\<lparr>j_status := EIO\<rparr>) js"
  by (induction js) simp_all

lemma executePending_split:
  "executePending ex js = (ds, rest, ok) \<Longrightarrow>
     js = take (length ds) js @ rest \<and> ds = map (\<lambda>j. fst (connector_execute ex j)) (take (length ds) js)
     \<and> (ok \<longrightarrow> rest = [])"
proof (induction js arbitrary: ds)
  case (Cons j js)
  then show ?case
    by (auto simp: Let_def split: prod.splits if_splits)
qed simp

lemma executePending_ok_iff:
  "snd (snd (executePending ex js)) \<longleftrightarrow> (\<forall>j \<in> set js. fst (ex j) = 0)"
proof (induction js)
  case (Cons j js)
  then show ?case
    by (auto simp: connector_execute_def Let_def split: prod.splits)
qed simp

end
