(* ===== verification/Message_Context.thy ===== *)
theory Message_Context
  imports Job_Queue
begin

text \<open>
  \<^verbatim>\<open>MessageContext\<close> and \<^verbatim>\<open>SocketMessageContext\<close>: the state of one request while it is
  processed and the response frame it leaves in the write buffer. The payload is typed (one
  constructor per \<open>.o\<close> structure and per ancillary element) and carries the \<^verbatim>\<open>sizeof\<close> the code
  passes. A failed \<^verbatim>\<open>assert\<close> sets \<open>m_asserted\<close>, which nothing resets, so a theorem that the flag
  stays clear says that no assertion of the response path is hit.
\<close>

section \<open>Definitions\<close>

datatype msg_state = State_INITIAL | State_PROCESSING | State_SENT | State_DEFERRED

text \<open>
  The output structures. In \<open>BodyAttachExtended None n\<close> only the notification id was written: the
  connection information still holds the bytes of the request.
\<close>

datatype payload =
    BodyServerID SPartyID
  | BodyConnection SConnectionInfo
  | BodyAttachExtended "SConnectionInfo option" u32
  | BodyServerInfo SServerInfo
  | BodyNotificationID u32

fun body_size :: "payload \<Rightarrow> nat" where
  "body_size (BodyServerID _) = 8"
| "body_size (BodyConnection _) = 32"
| "body_size (BodyAttachExtended _ _) = 40"
| "body_size (BodyServerInfo _) = 24"
| "body_size (BodyNotificationID _) = 4"

datatype ancillary =
    AncServerID SPartyID
  | AncNotificationID SFNDNotificationID
  | AncInterface SFNDInterfaceDescription

fun ancillary_size :: "ancillary \<Rightarrow> nat" where
  "ancillary_size (AncServerID _) = 8"
| "ancillary_size (AncNotificationID _) = 8"
| "ancillary_size (AncInterface _) = 260"

record message =
  m_state :: msg_state
  m_putOffset :: nat
  m_ancillary :: "ancillary list" \<comment> \<open>written by \<open>writeAncillaryData\<close>\<close>
  m_returncode :: int
  m_fr_size :: nat
  m_body :: "payload option" \<comment> \<open>written by \<open>prepareResponse\<close> with data\<close>
  m_asserted :: bool

definition new_message :: message where
  "new_message =
     \<lparr>m_state = State_INITIAL, m_putOffset = 0, m_ancillary = [], m_returncode = 0, m_fr_size = 0,
      m_body = None, m_asserted = False\<rparr>"

definition deferResponse :: "message \<Rightarrow> message" where
  "deferResponse m = m\<lparr>m_state := State_DEFERRED\<rparr>"

definition prepareResponse :: "int \<Rightarrow> bool \<Rightarrow> message \<Rightarrow> message" where
  "prepareResponse retval force m =
     (if \<not> force \<and> m_state m \<noteq> State_PROCESSING then m\<lparr>m_asserted := True\<rparr>
      else m\<lparr>m_state := State_SENT,
             m_fr_size := (if 0 < m_putOffset m \<and> retval \<le> status_code FNDOK then m_putOffset m else 0),
             m_returncode := retval\<rparr>)"

text \<open>With data; \<open>None\<close> is the null pointer, which \<^verbatim>\<open>AutoBuffer::write\<close> asserts against.\<close>

definition prepareResponse_data :: "int \<Rightarrow> payload option \<Rightarrow> message \<Rightarrow> message" where
  "prepareResponse_data retval data m =
     (if m_state m \<noteq> State_PROCESSING then m\<lparr>m_asserted := True\<rparr>
      else
        (let len = (case data of None \<Rightarrow> 0 | Some p \<Rightarrow> body_size p);
             m1 = m\<lparr>m_state := State_SENT,
                    m_fr_size := (if 0 < m_putOffset m \<and> retval = status_code FNDOK then m_putOffset m else len),
                    m_returncode := retval\<rparr>
         in case data of None \<Rightarrow> m1\<lparr>m_asserted := True\<rparr> | Some p \<Rightarrow> m1\<lparr>m_body := Some p\<rparr>))"

text \<open>
  \<open>readData\<close>: the state change and the number of bytes \<^verbatim>\<open>AutoBuffer::read\<close> delivers of a request
  of \<open>fr_size\<close> bytes into a buffer of \<open>len\<close> bytes, -1 if there is none.
\<close>

definition buffer_read :: "nat \<Rightarrow> nat \<Rightarrow> int" where
  "buffer_read fr_size len =
     (let rc = (if len \<le> fr_size then int len else int fr_size) in if 0 < rc then rc else - 1)"

definition readData :: "nat \<Rightarrow> nat \<Rightarrow> message \<Rightarrow> int \<times> message" where
  "readData fr_size len m =
     (buffer_read fr_size len,
      if m_state m \<noteq> State_INITIAL then m\<lparr>m_asserted := True\<rparr> else m\<lparr>m_state := State_PROCESSING\<rparr>)"

definition writeAncillaryData :: "ancillary \<Rightarrow> message \<Rightarrow> message" where
  "writeAncillaryData x m =
     (if m_state m \<noteq> State_PROCESSING then m\<lparr>m_asserted := True\<rparr>
      else m\<lparr>m_ancillary := m_ancillary m @ [x], m_putOffset := m_putOffset m + ancillary_size x\<rparr>)"

text \<open>What \<open>sendDeferredResponse\<close> writes for a finished job: frame size, return code, payload or not.\<close>

definition deferred_frame :: "int \<Rightarrow> int \<Rightarrow> nat \<Rightarrow> nat \<times> int \<times> bool" where
  "deferred_frame status retval len =
     (if status \<noteq> 0 then (0, status_code FNDInternalError, False)
      else if retval \<le> status_code FNDOK then (len, retval, True)
      else (0, retval, False))"

text \<open>The size of the ancillary data a context has collected is its put offset.\<close>

definition msg_wf :: "message \<Rightarrow> bool" where
  "msg_wf m \<longleftrightarrow> m_putOffset m = sum_list (map ancillary_size (m_ancillary m))"

text \<open>A context as a handler gets it: being processed, no response yet, no assertion hit.\<close>

definition msg_open :: "message \<Rightarrow> bool" where
  "msg_open m \<longleftrightarrow> m_state m = State_PROCESSING \<and> \<not> m_asserted m"

text \<open>A context as a handler must leave it: answered or deferred.\<close>

definition msg_done :: "message \<Rightarrow> bool" where
  "msg_done m \<longleftrightarrow> (m_state m = State_SENT \<or> m_state m = State_DEFERRED) \<and> \<not> m_asserted m"

section \<open>Lemmas\<close>

lemma msg_wf_ops [simp]:
  "msg_wf new_message"
  "msg_wf (deferResponse m) = msg_wf m"
  "msg_wf (prepareResponse r f m) = msg_wf m"
  "msg_wf (prepareResponse_data r d m) = msg_wf m"
  "msg_wf (snd (readData n l m)) = msg_wf m"
  "msg_wf m \<Longrightarrow> msg_wf (writeAncillaryData x m)"
  by (auto simp: msg_wf_def new_message_def deferResponse_def prepareResponse_def
      prepareResponse_data_def readData_def writeAncillaryData_def Let_def split: option.splits)

lemma readData_open [simp]: "msg_open (snd (readData n l new_message))"
  by (simp add: msg_open_def readData_def new_message_def)

lemma writeAncillaryData_open [simp]: "msg_open m \<Longrightarrow> msg_open (writeAncillaryData x m)"
  by (simp add: msg_open_def writeAncillaryData_def)

lemma deferResponse_done [simp]: "msg_open m \<Longrightarrow> msg_done (deferResponse m)"
  by (simp add: msg_open_def msg_done_def deferResponse_def)

lemma prepareResponse_done [simp]:
  "msg_open m \<Longrightarrow> msg_done (prepareResponse r f m)"
  "\<not> m_asserted m \<Longrightarrow> msg_done (prepareResponse r True m)"
  by (simp_all add: msg_open_def msg_done_def prepareResponse_def)

lemma prepareResponse_data_done [simp]: "msg_open m \<Longrightarrow> msg_done (prepareResponse_data r (Some p) m)"
  by (simp add: msg_open_def msg_done_def prepareResponse_data_def Let_def)

lemma prepareResponse_fields [simp]:
  "msg_open m \<Longrightarrow> m_returncode (prepareResponse r f m) = r"
  "m_body (prepareResponse r f m) = m_body m"
  "m_ancillary (prepareResponse r f m) = m_ancillary m"
  by (simp_all add: msg_open_def prepareResponse_def)

lemma prepareResponse_data_fields [simp]:
  "msg_open m \<Longrightarrow> m_returncode (prepareResponse_data r (Some p) m) = r"
  "msg_open m \<Longrightarrow> m_body (prepareResponse_data r (Some p) m) = Some p"
  "m_ancillary (prepareResponse_data r d m) = m_ancillary m"
  by (auto simp: msg_open_def prepareResponse_data_def Let_def split: option.splits)

lemma msg_open_simps:
  "msg_open m \<Longrightarrow> m_state m = State_PROCESSING" "msg_open m \<Longrightarrow> \<not> m_asserted m"
  by (simp_all add: msg_open_def)

lemma deferResponse_state [simp]: "m_state (deferResponse m) = State_DEFERRED"
  by (simp add: deferResponse_def)

lemma buffer_read_bounds: "buffer_read n l = - 1 \<or> 0 < buffer_read n l \<and> buffer_read n l \<le> int l"
  by (auto simp: buffer_read_def Let_def)

end
