(* ===== verification/Config_File.thy ===== *)
theory Config_File
  imports SB_Types
begin

text \<open>
  \<^verbatim>\<open>ConfigFile\<close> of the servicebroker: the line parser of \<open>load\<close> and the queries
  \<open>isLocalService\<close> and \<open>forwardService\<close>. The service name sets are \<^verbatim>\<open>std::set<std::string>\<close>;
  they are kept as sorted lists without duplicates, so \<open>size() == 1 && *begin()\<close> has its meaning.
  Reading the file (\<^verbatim>\<open>fopen\<close>, \<^verbatim>\<open>fgets\<close>) is the environment's: \<open>load\<close> takes the lines
  \<^verbatim>\<open>fgets\<close> returns.
\<close>

section \<open>Definitions\<close>

record config =
  mLocalServices :: "string list"
  mGlobalServices :: "string list"
  mForwardServices :: "string list"
  mTreeMode :: bool

definition empty_config :: config where
  "empty_config =
     \<lparr>mLocalServices = [], mGlobalServices = [], mForwardServices = [], mTreeMode = False\<rparr>"

text \<open>Insertion into the ordered set.\<close>

fun set_insert :: "string \<Rightarrow> string list \<Rightarrow> string list" where
  "set_insert x [] = [x]"
| "set_insert x (y # ys) =
     (if x = y then y # ys else if strcmp x y < 0 then x # y # ys else y # set_insert x ys)"

datatype section_state = STATE_IGNORE | STATE_LOCAL | STATE_GLOBAL | STATE_FORWARD

text \<open>
  One line as \<^verbatim>\<open>fgets\<close> leaves it in the buffer: cut at the first \<open>#\<close>, then trimmed on the
  right. \<^verbatim>\<open>char\<close> is signed, so every byte from 0x80 on compares below 0x20 and is trimmed.
\<close>

definition trim_char :: "char \<Rightarrow> bool" where
  "trim_char c \<longleftrightarrow> byte c \<le> 32 \<or> 128 \<le> byte c"

definition clean_line :: "string \<Rightarrow> string" where
  "clean_line l =
     (let s = takeWhile (\<lambda>c. c \<noteq> CHR ''#'') (c_str l)
      in rev (dropWhile trim_char (rev s)))"

definition section_of :: "string \<Rightarrow> section_state" where
  "section_of line =
     (if CHR '']'' \<in> set line then
        (let sectionName = takeWhile (\<lambda>c. c \<noteq> CHR '']'') (tl line)
         in if sectionName = ''LOCAL'' then STATE_LOCAL
            else if sectionName = ''GLOBAL'' then STATE_GLOBAL
            else if sectionName = ''FORWARD'' then STATE_FORWARD
            else STATE_IGNORE)
      else STATE_IGNORE)"

fun add_service :: "section_state \<Rightarrow> string \<Rightarrow> config \<Rightarrow> config" where
  "add_service STATE_LOCAL line c = c\<lparr>mLocalServices := set_insert line (mLocalServices c)\<rparr>"
| "add_service STATE_GLOBAL line c = c\<lparr>mGlobalServices := set_insert line (mGlobalServices c)\<rparr>"
| "add_service STATE_FORWARD line c = c\<lparr>mForwardServices := set_insert line (mForwardServices c)\<rparr>"
| "add_service STATE_IGNORE line c = c"

definition load_line :: "string \<Rightarrow> section_state \<times> config \<Rightarrow> section_state \<times> config" where
  "load_line raw sc =
     (let line = clean_line raw
      in case line of
           [] \<Rightarrow> sc
         | ch # _ \<Rightarrow>
             if ch = CHR ''['' then (section_of line, snd sc)
             else (fst sc, add_service (fst sc) line (snd sc)))"

text \<open>\<open>None\<close> is a file that cannot be opened.\<close>

definition load :: "string list option \<Rightarrow> config \<Rightarrow> config" where
  "load file c =
     (case file of None \<Rightarrow> c
      | Some ls \<Rightarrow> snd (fold load_line ls (STATE_IGNORE, c)))"

definition setTreeMode :: "bool \<Rightarrow> config \<Rightarrow> config" where
  "setTreeMode mode c = c\<lparr>mTreeMode := mode\<rparr>"

definition isLocalService :: "config \<Rightarrow> string \<Rightarrow> bool" where
  "isLocalService c servicename =
     (if mGlobalServices c \<noteq> [] then servicename \<notin> set (mGlobalServices c)
      else servicename \<in> set (mLocalServices c))"

definition forwardService :: "config \<Rightarrow> string \<Rightarrow> bool" where
  "forwardService c servicename =
     (if mTreeMode c then
        (if mForwardServices c = [''*''] then True
         else if 4 < length servicename \<and> ends_with servicename ''_tcp'' then
           take (length servicename - 4) servicename \<in> set (mForwardServices c)
         else servicename \<in> set (mForwardServices c))
      else True)"

section \<open>Lemmas\<close>

text \<open>An ordered set stays ordered and holds what was inserted.\<close>

definition ordered_set :: "string list \<Rightarrow> bool" where
  "ordered_set xs \<longleftrightarrow> sorted_wrt (<) xs"

definition config_wf :: "config \<Rightarrow> bool" where
  "config_wf c \<longleftrightarrow> ordered_set (mLocalServices c) \<and> ordered_set (mGlobalServices c)
     \<and> ordered_set (mForwardServices c)"

lemma set_set_insert [simp]: "set (set_insert x xs) = insert x (set xs)"
  by (induction xs) auto

lemma ordered_set_insert: "ordered_set xs \<Longrightarrow> ordered_set (set_insert x xs)"
  unfolding ordered_set_def
  by (induction xs) (auto simp: strcmp_neg_iff neq_iff)

lemma load_line_wf: "config_wf (snd sc) \<Longrightarrow> config_wf (snd (load_line raw sc))"
  by (cases "fst sc")
    (auto simp: load_line_def Let_def config_wf_def ordered_set_insert split: list.splits)

lemma fold_load_line_wf: "config_wf (snd sc) \<Longrightarrow> config_wf (snd (fold load_line ls sc))"
proof (induction ls arbitrary: sc)
  case (Cons l ls)
  show ?case using Cons.IH [OF load_line_wf [OF Cons.prems]] by simp
qed simp

lemma load_wf: "config_wf c \<Longrightarrow> config_wf (load file c)"
  by (simp add: load_def fold_load_line_wf split: option.splits)

text \<open>A specification of the parser: the service lines each section header governs.\<close>

definition header_line :: "string \<Rightarrow> bool" where
  "header_line raw \<longleftrightarrow> (case clean_line raw of [] \<Rightarrow> False | ch # _ \<Rightarrow> ch = CHR ''['')"

definition service_line :: "string \<Rightarrow> bool" where
  "service_line raw \<longleftrightarrow> (case clean_line raw of [] \<Rightarrow> False | ch # _ \<Rightarrow> ch \<noteq> CHR ''['')"

text \<open>The section that governs line \<open>i\<close>: that of the last header line before it.\<close>

fun governing :: "string list \<Rightarrow> nat \<Rightarrow> section_state" where
  "governing ls 0 = STATE_IGNORE"
| "governing ls (Suc i) =
     (if header_line (ls ! i) then section_of (clean_line (ls ! i)) else governing ls i)"

definition services_in :: "section_state \<Rightarrow> string list \<Rightarrow> string set" where
  "services_in s ls =
     (\<lambda>i. clean_line (ls ! i)) ` {i. i < length ls \<and> service_line (ls ! i) \<and> governing ls i = s}"

lemma governing_append: "i \<le> length ls \<Longrightarrow> governing (ls @ ms) i = governing ls i"
  by (induction i) (auto simp: nth_append)

lemma services_in_snoc:
  "services_in s (ls @ [l]) =
     services_in s ls \<union> (if service_line l \<and> governing ls (length ls) = s then {clean_line l} else {})"
proof -
  let ?ok = "\<lambda>i. service_line ((ls @ [l]) ! i) \<and> governing (ls @ [l]) i = s"
  have split: "{i. i < length (ls @ [l]) \<and> ?ok i}
      = {i. i < length ls \<and> ?ok i} \<union> (if ?ok (length ls) then {length ls} else {})"
    by (auto simp: less_Suc_eq)
  have old: "{i. i < length ls \<and> ?ok i}
      = {i. i < length ls \<and> service_line (ls ! i) \<and> governing ls i = s}"
    by (auto simp: nth_append governing_append)
  show ?thesis
    unfolding services_in_def split image_Un old
    by (auto simp: nth_append governing_append)
qed

text \<open>Loading refines the specification.\<close>

definition reads_sections :: "config \<Rightarrow> string list \<Rightarrow> section_state \<times> config \<Rightarrow> bool" where
  "reads_sections c ls sc \<longleftrightarrow> fst sc = governing ls (length ls)
     \<and> set (mLocalServices (snd sc)) = set (mLocalServices c) \<union> services_in STATE_LOCAL ls
     \<and> set (mGlobalServices (snd sc)) = set (mGlobalServices c) \<union> services_in STATE_GLOBAL ls
     \<and> set (mForwardServices (snd sc)) = set (mForwardServices c) \<union> services_in STATE_FORWARD ls"

lemma load_line_reads:
  assumes "reads_sections c ls sc"
  shows "reads_sections c (ls @ [l]) (load_line l sc)"
proof (cases "clean_line l")
  case Nil
  with assms show ?thesis
    by (simp add: reads_sections_def load_line_def services_in_snoc service_line_def header_line_def
        nth_append governing_append)
next
  case (Cons ch rest)
  show ?thesis
  proof (cases "ch = CHR ''[''")
    case True
    with assms Cons show ?thesis
      by (simp add: reads_sections_def load_line_def services_in_snoc service_line_def
          header_line_def nth_append governing_append)
  next
    case False
    with assms Cons show ?thesis
      by (cases "fst sc")
        (simp_all add: reads_sections_def load_line_def services_in_snoc service_line_def
          header_line_def nth_append governing_append Let_def)
  qed
qed

lemma load_state_spec: "reads_sections c ls (fold load_line ls (STATE_IGNORE, c))"
proof (induction ls rule: rev_induct)
  case Nil
  then show ?case by (simp add: reads_sections_def services_in_def)
next
  case (snoc l ls)
  then show ?case by (simp add: load_line_reads)
qed

end
