(* ===== verification/Broker_State.thy ===== *)
theory Broker_State
  imports Server_List Client_Data Pulse_Channels Notification_Pool Message_Context Config_File
begin

text \<open>
  The state of the \<^verbatim>\<open>Servicebroker\<close> singleton together with what its objects reach through
  global references: the static counters, the pulse channels, the queue of jobs for the master
  and the data of every connection. On it: the life cycle of \<^verbatim>\<open>Notification\<close> objects
  (constructor, the copy constructor with move semantics, destructor, connect, send) and the
  operations of \<^verbatim>\<open>NotificationList\<close>, whose erasures run the destructor.
  A \<^verbatim>\<open>ClientSpecificData*\<close> is the number of its connection. The operating system is the record
  \<open>env\<close>: user and group databases, regular expressions, sockets, and the values that
  uninitialised memory happens to hold.
  The code runs in one thread (the worker thread only exchanges jobs through the queue), so an
  operation is a function on the state; \<open>mAster\<close> is \<open>None\<close> for a master and
  \<open>Some connected\<close> for a slave, constant during one operation.
\<close>

section \<open>Environment and state\<close>

record env =
  e_getgrgid :: "u32 \<Rightarrow> string list option" \<comment> \<open>\<open>gr_mem\<close> of a group id\<close>
  e_getpwnam :: "string \<Rightarrow> u32 option" \<comment> \<open>\<open>pw_uid\<close> of a user name\<close>
  e_regcomp :: "string \<Rightarrow> bool" \<comment> \<open>the pattern compiles\<close>
  e_regexec :: "string \<Rightarrow> string \<Rightarrow> bool" \<comment> \<open>a compiled pattern matches\<close>
  e_sockets :: sockets
  e_indet_impl :: SFNDImplementationVersion \<comment> \<open>uninitialised \<open>implVersion\<close>\<close>
  e_indet_pulse :: SFNDPulseInfo \<comment> \<open>uninitialised \<open>pulse\<close>\<close>
  e_image :: "request \<Rightarrow> nat \<Rightarrow> u32" \<comment> \<open>the 32-bit words of an argument structure in memory\<close>
  e_image_list :: "request \<Rightarrow> nat \<Rightarrow> SFNDInterfaceDescription" \<comment> \<open>the same read as a list of interfaces\<close>

record Notification =
  n_notificationID :: u32
  n_masterNotificationID :: u32
  n_poolID :: u32
  n_host :: "nat option"
  n_partyID :: SPartyID
  n_ifDescription :: InterfaceDescription
  n_local :: bool
  n_uid :: u32
  n_active :: bool
  n_regExpr :: "string option"
  n_pulse :: SFNDPulseInfo
  n_coid :: int
  n_nid :: u32

text \<open>The four notification lists.\<close>

datatype nkind = ServerDisconnect | ClientDetach | ServerConnect | ServerListChange

record NotificationList =
  nl_list :: "Notification list"
  nl_total :: u32

record connection =
  cx_id :: u32
  cx_slave :: bool
  cx_uid :: u32
  cx_pid :: u32
  cx_nodeAddress :: u32
  cx_localAddress :: u32
  cx_data :: ClientSpecificData

record broker =
  mConnectedServers :: ServerList
  mPendingRemoteServersRequests :: "u32 \<rightharpoonup> InterfaceDescription"
  mAttachedClients :: ClientList
  mNotifications :: "nkind \<Rightarrow> NotificationList"
  mMasterNotificationPool :: NotificationPool
  mPendingAttachExtendedJobs :: "u32 \<rightharpoonup> u32"
  mNextClientID :: u32
  mNextServerID :: u32
  mNextPendingRemoteServerRequestID :: u32
  mExtendedID :: u32
  mConfig :: config
  mUseServerCache :: bool
  mAsyncMode :: bool
  mAster :: "bool option"
  mSigAddr :: "u32 \<times> u32"
  sNextNotificationID :: u32
  sCurrentCounter :: u32
  sTotalCounter :: u32
  sNextPoolID :: u32
  sNextServerEntryID :: u32
  mQueue :: "Job list"
  mChannels :: PulseChannelManager
  mConnections :: "nat \<Rightarrow> connection"

definition isMasterConnected :: "broker \<Rightarrow> bool" where
  "isMasterConnected b \<longleftrightarrow> mAster b = Some True"

definition isMaster :: "broker \<Rightarrow> bool" where
  "isMaster b \<longleftrightarrow> mAster b = None"

definition ctx_isLocal :: "connection \<Rightarrow> bool" where
  "ctx_isLocal c \<longleftrightarrow> cx_nodeAddress c = SB_LOCAL_NODE_ADDRESS \<or> cx_nodeAddress c = SB_LOCAL_IP_ADDRESS"

text \<open>The data of a connection, read and updated.\<close>

definition ocb :: "broker \<Rightarrow> nat \<Rightarrow> ClientSpecificData" where
  "ocb b c = cx_data (mConnections b c)"

definition ocb_update :: "nat \<Rightarrow> (ClientSpecificData \<Rightarrow> ClientSpecificData) \<Rightarrow> broker \<Rightarrow> broker" where
  "ocb_update c f b =
     b\<lparr>mConnections := (mConnections b)(c := (mConnections b c)\<lparr>cx_data := f (ocb b c)\<rparr>)\<rparr>"

text \<open>\<open>MasterAdapter::eval\<close>: append the job to the queue (the worker is triggered).\<close>

definition master_eval :: "Job \<Rightarrow> broker \<Rightarrow> broker" where
  "master_eval j b = b\<lparr>mQueue := mQueue b @ [j]\<rparr>"

definition notifs :: "nkind \<Rightarrow> broker \<Rightarrow> Notification list" where
  "notifs k b = nl_list (mNotifications b k)"

definition set_notifs :: "nkind \<Rightarrow> Notification list \<Rightarrow> broker \<Rightarrow> broker" where
  "set_notifs k ns b =
     b\<lparr>mNotifications := (mNotifications b)(k := (mNotifications b k)\<lparr>nl_list := ns\<rparr>)\<rparr>"

definition add_total :: "nkind \<Rightarrow> u32 \<Rightarrow> broker \<Rightarrow> broker" where
  "add_total k d b =
     b\<lparr>mNotifications := (mNotifications b)(k := (mNotifications b k)\<lparr>nl_total := nl_total (mNotifications b k) + d\<rparr>)\<rparr>"

section \<open>\<^verbatim>\<open>Notification\<close>\<close>

definition createClearNotificationJob :: "u32 \<Rightarrow> broker \<Rightarrow> broker" where
  "createClearNotificationJob notificationID b =
     (if isMasterConnected b then master_eval (Job_create None 0 (CLEAR_NOTIFICATION notificationID) 8 0) b
      else b)"

definition new_Notification :: "broker \<Rightarrow> Notification \<times> broker" where
  "new_Notification b =
     (\<lparr>n_notificationID = sNextNotificationID b + 1, n_masterNotificationID = INVALID_NOTIFICATION_ID,
       n_poolID = 0, n_host = None, n_partyID = party_assign 0, n_ifDescription = empty_ifDescription,
       n_local = False, n_uid = SB_UNKNOWN_USER_ID, n_active = True, n_regExpr = None,
       n_pulse = zero_pulse, n_coid = - 1, n_nid = 0\<rparr>,
      b\<lparr>sNextNotificationID := sNextNotificationID b + 1, sTotalCounter := sTotalCounter b + 1,
        sCurrentCounter := sCurrentCounter b + 1\<rparr>)"

text \<open>
  The copy constructor: the new object takes everything over, the original is left without host,
  expression, connection, pool and master notification. Returned: the copy, the changed original.
\<close>

definition copy_Notification :: "Notification \<Rightarrow> broker \<Rightarrow> Notification \<times> Notification \<times> broker" where
  "copy_Notification rhs b =
     (rhs,
      rhs\<lparr>n_host := None, n_regExpr := None, n_coid := - 1, n_poolID := 0,
          n_masterNotificationID := INVALID_NOTIFICATION_ID, n_pulse := zero_pulse\<rparr>,
      b\<lparr>sCurrentCounter := sCurrentCounter b + 1\<rparr>)"

text \<open>\<open>NotificationPoolEntry::detach\<close> at a position, with the job it may create.\<close>

definition pool_detach :: "nat \<Rightarrow> broker \<Rightarrow> broker" where
  "pool_detach pos b =
     (case np_detach pos (mMasterNotificationPool b) of
        (p, None) \<Rightarrow> b\<lparr>mMasterNotificationPool := p\<rparr>
      | (p, Some nid) \<Rightarrow> createClearNotificationJob nid (b\<lparr>mMasterNotificationPool := p\<rparr>))"

definition destroy_Notification :: "Notification \<Rightarrow> broker \<Rightarrow> broker" where
  "destroy_Notification n b =
     (let b1 = (if n_coid n \<noteq> - 1 then b\<lparr>mChannels := pcm_detach (n_coid n) (mChannels b)\<rparr> else b);
          b2 = (case n_host n of None \<Rightarrow> b1
                | Some h \<Rightarrow> ocb_update h (removeNotification (n_notificationID n)) b1);
          b3 = (if n_poolID n \<noteq> 0 then
                  (let poolPos = np_find_id (mMasterNotificationPool b2) (n_poolID n)
                   in if poolPos \<noteq> - 1 then pool_detach (nat poolPos) b2 else b2)
                else if n_masterNotificationID n \<noteq> INVALID_NOTIFICATION_ID then
                  createClearNotificationJob (n_notificationID n) b2
                else b2)
      in b3\<lparr>sCurrentCounter := sCurrentCounter b3 - 1\<rparr>)"

definition doConnect :: "env \<Rightarrow> Notification \<Rightarrow> broker \<Rightarrow> bool \<times> Notification \<times> broker" where
  "doConnect E n b =
     (let (fd, ch) = pcm_attach (e_sockets E) (n_nid n) (p_pid (n_pulse n)) (p_chid (n_pulse n)) (mChannels b);
          b1 = b\<lparr>mChannels := ch\<rparr>
      in if fd < 0 then (False, n\<lparr>n_coid := fd, n_pulse := zero_pulse\<rparr>, b1)
         else (True, n\<lparr>n_coid := fd\<rparr>, b1))"

definition notification_connect ::
    "env \<Rightarrow> connection \<Rightarrow> SFNDPulseInfo \<Rightarrow> Notification \<Rightarrow> broker \<Rightarrow> bool \<times> Notification \<times> broker" where
  "notification_connect E ctx thePulse n b =
     (let n1 = n\<lparr>n_pulse := thePulse, n_nid := cx_nodeAddress ctx\<rparr>
      in if \<not> cx_slave ctx then (True, n1, b) else doConnect E n1 b)"

definition send_pulse :: "Notification \<Rightarrow> broker \<Rightarrow> broker" where
  "send_pulse n b =
     (if 0 \<le> n_coid n then
        b\<lparr>mChannels := pcm_sendPulse (n_coid n) (n_notificationID n) (p_code (n_pulse n)) (p_value (n_pulse n))
            (mChannels b)\<rparr>
      else b)"

definition notification_send :: "env \<Rightarrow> Notification \<Rightarrow> broker \<Rightarrow> Notification \<times> broker" where
  "notification_send E n b =
     (let (n1, b1) = (if n_coid n < 0 then snd (doConnect E n b) else (n, b))
      in (n1, send_pulse n1 b1))"

definition matchRegExp :: "env \<Rightarrow> Notification \<Rightarrow> string \<Rightarrow> bool" where
  "matchRegExp E n s = (case n_regExpr n of None \<Rightarrow> False | Some r \<Rightarrow> e_regexec E r s)"

definition hasRegExp :: "Notification \<Rightarrow> bool" where
  "hasRegExp n \<longleftrightarrow> n_regExpr n \<noteq> None"

section \<open>\<^verbatim>\<open>NotificationList\<close>\<close>

text \<open>
  The loop every destructive trigger shares: each element that satisfies the condition is sent
  and erased (which destroys it), the others stay. The body never touches the list itself.
\<close>

fun trigger_loop :: "env \<Rightarrow> (Notification \<Rightarrow> bool) \<Rightarrow> Notification list \<Rightarrow> broker \<Rightarrow> Notification list \<times> broker" where
  "trigger_loop E P [] b = ([], b)"
| "trigger_loop E P (n # ns) b =
     (if P n then
        (let (n1, b1) = notification_send E n b in trigger_loop E P ns (destroy_Notification n1 b1))
      else (let (rest, b1) = trigger_loop E P ns b in (n # rest, b1)))"

definition trigger_if :: "env \<Rightarrow> nkind \<Rightarrow> (Notification \<Rightarrow> bool) \<Rightarrow> broker \<Rightarrow> broker" where
  "trigger_if E k P b = (let (ns, b1) = trigger_loop E P (notifs k b) b in set_notifs k ns b1)"

definition trigger_party :: "env \<Rightarrow> nkind \<Rightarrow> SPartyID \<Rightarrow> broker \<Rightarrow> broker" where
  "trigger_party E k i = trigger_if E k (\<lambda>n. n_active n \<and> globalID (n_partyID n) = globalID i)"

definition trigger_parties :: "env \<Rightarrow> nkind \<Rightarrow> SPartyID list \<Rightarrow> broker \<Rightarrow> broker" where
  "trigger_parties E k ids = trigger_if E k (\<lambda>n. n_active n \<and> pid_exists ids (n_partyID n))"

definition triggerPool :: "env \<Rightarrow> nkind \<Rightarrow> u32 \<Rightarrow> broker \<Rightarrow> broker" where
  "triggerPool E k poolID = trigger_if E k (\<lambda>n. n_active n \<and> n_poolID n = poolID)"

definition triggerNotLocal :: "env \<Rightarrow> nkind \<Rightarrow> u32 \<Rightarrow> broker \<Rightarrow> broker" where
  "triggerNotLocal E k ext = trigger_if E k (\<lambda>n. n_active n \<and> ext \<noteq> extendedID (n_partyID n))"

definition triggerLocal :: "env \<Rightarrow> nkind \<Rightarrow> u32 \<Rightarrow> broker \<Rightarrow> broker" where
  "triggerLocal E k ext = trigger_if E k (\<lambda>n. n_active n \<and> ext = extendedID (n_partyID n))"

text \<open>Membership of a user in a group, as both access checks compute it.\<close>

definition in_group :: "env \<Rightarrow> u32 \<Rightarrow> u32 \<Rightarrow> bool" where
  "in_group E uid grpid =
     (case e_getgrgid E grpid of None \<Rightarrow> False
      | Some mem \<Rightarrow> \<exists>name \<in> set mem. e_getpwnam E name = Some uid)"

text \<open>
  The trigger of an interface: a notification on that name with a compatible version is sent if
  its user may access the interface, else it is set inactive.
\<close>

definition if_matches :: "InterfaceDescription \<Rightarrow> Notification \<Rightarrow> bool" where
  "if_matches d n \<longleftrightarrow> if_name (n_ifDescription n) = if_name d \<and> n_active n
     \<and> if_major (n_ifDescription n) = if_major d \<and> if_minor (n_ifDescription n) \<le> if_minor d"

definition may_notify :: "env \<Rightarrow> u32 \<Rightarrow> Notification \<Rightarrow> bool" where
  "may_notify E grpid n \<longleftrightarrow>
     grpid = SB_UNKNOWN_GROUP_ID \<or> n_uid n = 0 \<or> in_group E (n_uid n) grpid"

fun trigger_if_loop ::
    "env \<Rightarrow> InterfaceDescription \<Rightarrow> u32 \<Rightarrow> Notification list \<Rightarrow> broker \<Rightarrow> Notification list \<times> broker" where
  "trigger_if_loop E d grpid [] b = ([], b)"
| "trigger_if_loop E d grpid (n # ns) b =
     (if if_matches d n then
        (if may_notify E grpid n then
           (let (n1, b1) = notification_send E n b
            in trigger_if_loop E d grpid ns (destroy_Notification n1 b1))
         else (let (rest, b1) = trigger_if_loop E d grpid ns b in (n\<lparr>n_active := False\<rparr> # rest, b1)))
      else (let (rest, b1) = trigger_if_loop E d grpid ns b in (n # rest, b1)))"

definition trigger_interface :: "env \<Rightarrow> nkind \<Rightarrow> InterfaceDescription \<Rightarrow> u32 \<Rightarrow> broker \<Rightarrow> broker" where
  "trigger_interface E k d grpid b =
     (let (ns, b1) = trigger_if_loop E d grpid (notifs k b) b in set_notifs k ns b1)"

text \<open>One notification by id, sent and (optionally) removed: the first active one.\<close>

fun trigger_id_loop :: "env \<Rightarrow> u32 \<Rightarrow> bool \<Rightarrow> Notification list \<Rightarrow> broker \<Rightarrow> Notification list \<times> broker" where
  "trigger_id_loop E i removeIt [] b = ([], b)"
| "trigger_id_loop E i removeIt (n # ns) b =
     (if n_active n \<and> n_notificationID n = i then
        (let (n1, b1) = notification_send E n b
         in if removeIt then (ns, destroy_Notification n1 b1) else (n1 # ns, b1))
      else (let (rest, b1) = trigger_id_loop E i removeIt ns b in (n # rest, b1)))"

definition trigger_id :: "env \<Rightarrow> nkind \<Rightarrow> u32 \<Rightarrow> bool \<Rightarrow> broker \<Rightarrow> broker" where
  "trigger_id E k i removeIt b =
     (let (ns, b1) = trigger_id_loop E i removeIt (notifs k b) b in set_notifs k ns b1)"

text \<open>\<open>triggerAll\<close>: send without removing.\<close>

fun send_loop :: "env \<Rightarrow> (Notification \<Rightarrow> bool) \<Rightarrow> Notification list \<Rightarrow> broker \<Rightarrow> Notification list \<times> broker" where
  "send_loop E P [] b = ([], b)"
| "send_loop E P (n # ns) b =
     (let (n1, b1) = (if P n then notification_send E n b else (n, b));
          (rest, b2) = send_loop E P ns b1
      in (n1 # rest, b2))"

definition triggerAll :: "env \<Rightarrow> nkind \<Rightarrow> broker \<Rightarrow> broker" where
  "triggerAll E k b =
     (let (ns, b1) = send_loop E (\<lambda>n. n_active n \<and> \<not> hasRegExp n) (notifs k b) b in set_notifs k ns b1)"

definition triggerAll_interface :: "env \<Rightarrow> nkind \<Rightarrow> InterfaceDescription \<Rightarrow> broker \<Rightarrow> broker" where
  "triggerAll_interface E k d b =
     (let (ns, b1) = send_loop E
          (\<lambda>n. n_active n \<and> (\<not> hasRegExp n \<or> matchRegExp E n (if_name d))) (notifs k b) b
      in set_notifs k ns b1)"

text \<open>
  Adding: construct, connect, fill in, copy into the list (\<open>push_front\<close>), destroy the original.
  \<open>fill\<close> is what the four overloads assign after connecting. Returned: the id or the invalid one.
\<close>

definition push_notification ::
    "env \<Rightarrow> nkind \<Rightarrow> connection \<Rightarrow> SFNDPulseInfo \<Rightarrow> (Notification \<Rightarrow> Notification) \<Rightarrow> Notification \<Rightarrow> broker
       \<Rightarrow> u32 \<times> broker" where
  "push_notification E k ctx pulse fill entry b =
     (case notification_connect E ctx pulse entry b of
        (False, n1, b1) \<Rightarrow> (INVALID_NOTIFICATION_ID, destroy_Notification n1 b1)
      | (True, n1, b1) \<Rightarrow>
          let (elem, rest, b2) = copy_Notification (fill n1) b1;
              b3 = add_total k 1 (set_notifs k (elem # notifs k b2) b2)
          in (n_notificationID rest, destroy_Notification rest b3))"

definition add_notification :: "env \<Rightarrow> nkind \<Rightarrow> connection \<Rightarrow> SFNDPulseInfo \<Rightarrow> broker \<Rightarrow> u32 \<times> broker" where
  "add_notification E k ctx pulse b =
     (let (entry, b1) = new_Notification b in push_notification E k ctx pulse (\<lambda>n. n) entry b1)"

definition add_regexp :: "env \<Rightarrow> nkind \<Rightarrow> string \<Rightarrow> connection \<Rightarrow> SFNDPulseInfo \<Rightarrow> broker \<Rightarrow> u32 \<times> broker" where
  "add_regexp E k r ctx pulse b =
     (let (entry, b1) = new_Notification b;
          entry1 = entry\<lparr>n_regExpr := Some r\<rparr>
      in if e_regcomp E r then push_notification E k ctx pulse (\<lambda>n. n) entry1 b1
         else (INVALID_NOTIFICATION_ID, destroy_Notification entry1 b1))"

definition add_party ::
    "env \<Rightarrow> nkind \<Rightarrow> nat \<Rightarrow> SPartyID \<Rightarrow> connection \<Rightarrow> SFNDPulseInfo \<Rightarrow> broker \<Rightarrow> u32 \<times> broker" where
  "add_party E k host party ctx pulse b =
     (let (entry, b1) = new_Notification b
      in push_notification E k ctx pulse (\<lambda>n. n\<lparr>n_partyID := party, n_host := Some host\<rparr>) entry b1)"

definition add_interface ::
    "env \<Rightarrow> nkind \<Rightarrow> nat \<Rightarrow> InterfaceDescription \<Rightarrow> connection \<Rightarrow> SFNDPulseInfo \<Rightarrow> bool \<Rightarrow> u32 \<Rightarrow> broker
       \<Rightarrow> u32 \<times> broker" where
  "add_interface E k host d ctx pulse loc uid b =
     (let (entry, b1) = new_Notification b
      in push_notification E k ctx pulse
           (\<lambda>n. n\<lparr>n_ifDescription := d, n_host := Some host, n_local := loc, n_uid := uid\<rparr>) entry b1)"

definition find_notification :: "nkind \<Rightarrow> u32 \<Rightarrow> broker \<Rightarrow> Notification option" where
  "find_notification k i b = find (\<lambda>n. n_notificationID n = i) (notifs k b)"

text \<open>Writing through the pointer \<open>find\<close> returned.\<close>

definition update_notification :: "nkind \<Rightarrow> u32 \<Rightarrow> (Notification \<Rightarrow> Notification) \<Rightarrow> broker \<Rightarrow> broker" where
  "update_notification k i f b =
     set_notifs k (update_first (\<lambda>n. n_notificationID n = i) f (notifs k b)) b"

definition remove_notification :: "nkind \<Rightarrow> u32 \<Rightarrow> broker \<Rightarrow> broker" where
  "remove_notification k i b =
     (case find_notification k i b of
        None \<Rightarrow> b
      | Some n \<Rightarrow>
          destroy_Notification n (set_notifs k (erase_first (\<lambda>n. n_notificationID n = i) (notifs k b)) b))"

text \<open>
  Removing every notification whose id the connection's vector holds; the vector is read again
  for each element, since destroying a notification rewrites the vector of its host.
\<close>

fun remove_ids_loop :: "nat \<Rightarrow> Notification list \<Rightarrow> broker \<Rightarrow> Notification list \<times> broker" where
  "remove_ids_loop c [] b = ([], b)"
| "remove_ids_loop c (n # ns) b =
     (if n_notificationID n \<in> set (mNotificationList (ocb b c)) then
        remove_ids_loop c ns (destroy_Notification n b)
      else (let (rest, b1) = remove_ids_loop c ns b in (n # rest, b1)))"

definition remove_ids :: "nkind \<Rightarrow> nat \<Rightarrow> broker \<Rightarrow> broker" where
  "remove_ids k c b = (let (ns, b1) = remove_ids_loop c (notifs k b) b in set_notifs k ns b1)"

definition clearMasterNotification :: "nkind \<Rightarrow> broker \<Rightarrow> broker" where
  "clearMasterNotification k b =
     set_notifs k (map (\<lambda>n. n\<lparr>n_masterNotificationID := INVALID_NOTIFICATION_ID, n_poolID := 0\<rparr>)
       (notifs k b)) b"

text \<open>
  \<open>add(Notification&)\<close> copies the element into this list and then assigns the pool id of the
  original, which the copy constructor has just cleared. \<open>move\<close> does that for every element of
  a pool and erases the (emptied) original.
\<close>

definition add_existing :: "nkind \<Rightarrow> Notification \<Rightarrow> broker \<Rightarrow> Notification \<times> broker" where
  "add_existing k n b =
     (let (elem, rest, b1) = copy_Notification n b
      in (rest, add_total k 1 (set_notifs k (elem\<lparr>n_poolID := n_poolID rest\<rparr> # notifs k b1) b1)))"

fun move_loop :: "nkind \<Rightarrow> nkind \<Rightarrow> u32 \<Rightarrow> Notification list \<Rightarrow> broker \<Rightarrow> Notification list \<times> bool \<times> broker" where
  "move_loop to from poolID [] b = ([], False, b)"
| "move_loop to from poolID (n # ns) b =
     (if poolID = n_poolID n then
        (let (n1, b1) = add_existing to n b;
             b2 = add_total from (- 1) (destroy_Notification n1 b1);
             (rest, _, b3) = move_loop to from poolID ns b2
         in (rest, True, b3))
      else (let (rest, r, b1) = move_loop to from poolID ns b in (n # rest, r, b1)))"

definition move_notifications :: "nkind \<Rightarrow> nkind \<Rightarrow> u32 \<Rightarrow> broker \<Rightarrow> bool \<times> broker" where
  "move_notifications to from poolID b =
     (let (ns, r, b1) = move_loop to from poolID (notifs from b) b in (r, set_notifs from ns b1))"

definition setMasterNotificationID :: "nkind \<Rightarrow> u32 \<Rightarrow> u32 \<Rightarrow> broker \<Rightarrow> nat \<times> broker" where
  "setMasterNotificationID k nid poolID b =
     (length (filter (\<lambda>n. poolID = n_poolID n) (notifs k b)),
      set_notifs k (map (\<lambda>n. if poolID = n_poolID n then n\<lparr>n_masterNotificationID := nid\<rparr> else n) (notifs k b)) b)"

definition setType :: "nkind \<Rightarrow> u32 \<Rightarrow> SPartyID \<Rightarrow> broker \<Rightarrow> nat \<times> broker" where
  "setType k poolID party b =
     (length (filter (\<lambda>n. poolID = n_poolID n) (notifs k b)),
      set_notifs k (map (\<lambda>n. if poolID = n_poolID n then n\<lparr>n_partyID := party\<rparr> else n) (notifs k b)) b)"

definition poolSize :: "nkind \<Rightarrow> u32 \<Rightarrow> broker \<Rightarrow> nat" where
  "poolSize k poolID b = length (filter (\<lambda>n. poolID = n_poolID n) (notifs k b))"

definition count_party :: "nkind \<Rightarrow> SPartyID \<Rightarrow> broker \<Rightarrow> nat" where
  "count_party k i b = length (filter (\<lambda>n. party_eq i (n_partyID n)) (notifs k b))"

end
