(* ===== verification/Broker_Handlers.thy ===== *)
theory Broker_Handlers
  imports Broker_State
begin

text \<open>
  The request handlers of \<^verbatim>\<open>Servicebroker.cpp\<close>. A handler takes the number \<open>c\<close> of the
  connection, the fields of its \<open>.i\<close> structure, the broker and the message context, and returns
  broker and context. The build is the default one, without \<^verbatim>\<open>USE_SERVER_CACHE\<close>.
\<close>

section \<open>Sizes of the structures sent and received\<close>

definition ex_size :: nat where "ex_size = 296" \<comment> \<open>\<open>SFNDInterfaceDescriptionEx\<close>\<close>
definition nd_size :: nat where "nd_size = 280" \<comment> \<open>\<open>SFNDNotificationDescription\<close>\<close>
definition ifd_size :: nat where "ifd_size = 260" \<comment> \<open>\<open>SFNDInterfaceDescription\<close>\<close>

section \<open>Initial state\<close>

text \<open>The constructor and \<open>init\<close>; the static counters at their initial values.\<close>

definition Servicebroker_init ::
    "bool option \<Rightarrow> string list option \<Rightarrow> int \<Rightarrow> bool \<Rightarrow> bool \<Rightarrow> u32 \<times> u32 \<Rightarrow> (nat \<Rightarrow> connection) \<Rightarrow> broker" where
  "Servicebroker_init theMaster configfile the_id serverCache asyncMode addr conns =
     \<lparr>mConnectedServers = empty_ServerList, mPendingRemoteServersRequests = Map.empty,
      mAttachedClients = empty_ClientList,
      mNotifications = (\<lambda>_. \<lparr>nl_list = [], nl_total = 0\<rparr>),
      mMasterNotificationPool = empty_NotificationPool,
      mPendingAttachExtendedJobs = Map.empty,
      mNextClientID = 100001, mNextServerID = 500001, mNextPendingRemoteServerRequestID = 1,
      mExtendedID = (if 0 < the_id then word_of_int the_id else if theMaster = None then 1000 else 0),
      mConfig = setTreeMode (0 < the_id) (load configfile empty_config),
      mUseServerCache = serverCache, mAsyncMode = (0 < the_id \<and> asyncMode),
      mAster = theMaster, mSigAddr = addr,
      sNextNotificationID = 0, sCurrentCounter = 0, sTotalCounter = 0,
      sNextPoolID = 100000, sNextServerEntryID = 1,
      mQueue = [], mChannels = empty_pcm, mConnections = conns\<rparr>"

section \<open>Helpers\<close>

definition translateRemote :: "connection \<Rightarrow> string \<Rightarrow> u32 \<Rightarrow> u32" where
  "translateRemote ctx ifName pid =
     (if cx_slave ctx \<and> pid = SB_LOCAL_IP_ADDRESS \<and> isTcpService ifName then cx_nodeAddress ctx else pid)"

definition translateLocal :: "connection \<Rightarrow> string \<Rightarrow> u32 \<Rightarrow> u32" where
  "translateLocal ctx ifName pid =
     (if cx_slave ctx \<and> pid = SB_LOCAL_IP_ADDRESS \<and> isTcpService ifName then cx_localAddress ctx else pid)"

text \<open>\<open>mTranslateNodeId\<close>, which \<^verbatim>\<open>main\<close> sets to this function.\<close>

definition nullTranslator :: "u32 \<Rightarrow> u32 \<Rightarrow> u32" where
  "nullTranslator remote local_nid = 0"

definition set_servers :: "ServerList \<Rightarrow> broker \<Rightarrow> broker" where
  "set_servers sl b = b\<lparr>mConnectedServers := sl\<rparr>"

definition checkAccessPrivileges :: "env \<Rightarrow> connection \<Rightarrow> ServerListEntry \<Rightarrow> bool" where
  "checkAccessPrivileges E ctx entry =
     (if se_grpid entry \<noteq> SB_UNKNOWN_GROUP_ID then
        (let uid = cx_uid ctx
         in if uid \<noteq> SB_UNKNOWN_USER_ID then
              (if uid = 0 then True else in_group E uid (se_grpid entry))
            else False)
      else True)"

definition addClient :: "nat \<Rightarrow> SPartyID \<Rightarrow> SPartyID \<Rightarrow> broker \<Rightarrow> SPartyID \<times> broker" where
  "addClient c clientID serverID b =
     (let (clientID1, b1) =
            (if \<not> mUseServerCache b \<or> mUseServerCache b \<and> \<not> cx_slave (mConnections b c) then
               (let i = \<lparr>localID = mNextClientID b,
                         extendedID = (if mTreeMode (mConfig b) then mExtendedID b else extendedID serverID)\<rparr>
                in (i, b\<lparr>mNextClientID := mNextClientID b + 1,
                         mAttachedClients := cl_push_back i serverID c (mAttachedClients b)\<rparr>))
             else (clientID, b))
      in (clientID1, if globalID clientID1 \<noteq> 0 then ocb_update c (addClient_ocb clientID1) b1 else b1))"

definition findServerInterface :: "broker \<Rightarrow> SPartyID \<Rightarrow> InterfaceDescription option" where
  "findServerInterface b server = map_option se_ifDescription (sl_find_id (mConnectedServers b) server)"

subsection \<open>The interfaces a slave registers at its master\<close>

text \<open>
  \<open>unregisterInterfaceMaster\<close> for an entry that is not in the table, and for the table entry
  with a server id, whose \<open>masterID\<close> it resets.
\<close>

definition unregister_job :: "SPartyID \<Rightarrow> broker \<Rightarrow> broker" where
  "unregister_job masterID b = master_eval (Job_create None 0 (UNREGISTER_INTERFACE masterID) 16 0) b"

definition unregister_needed :: "SPartyID \<Rightarrow> broker \<Rightarrow> bool" where
  "unregister_needed masterID b \<longleftrightarrow> 0 < sint (extendedID masterID) \<and> isMasterConnected b"

definition unregisterInterfaceMaster :: "SPartyID \<Rightarrow> ServerListEntry \<Rightarrow> broker \<Rightarrow> broker" where
  "unregisterInterfaceMaster serverID entry b =
     (if unregister_needed (se_masterID entry) b then
        unregister_job (se_masterID entry)
          (set_servers (sl_set_masterID (\<lambda>e. globalID serverID = globalID (se_partyID e)) (party_assign 0)
             (mConnectedServers b)) b)
      else b)"

definition forwardable :: "config \<Rightarrow> ServerListEntry \<Rightarrow> bool" where
  "forwardable cfg e \<longleftrightarrow> globalID (se_masterID e) = 0 \<and> \<not> se_local e \<and> forwardService cfg (se_name e)"

definition master_descr :: "ServerListEntry \<Rightarrow> SFNDInterfaceDescriptionEx" where
  "master_descr e =
     \<lparr>dx_impl = se_implVersion e, dx_chid = se_chid e, dx_pid = se_pid e, dx_nd = se_nid e,
      dx_serverID = se_partyID e, dx_ifDescription = from_ifDescription (se_ifDescription e)\<rparr>"

definition register_job :: "SFNDInterfaceDescriptionEx list \<Rightarrow> Job" where
  "register_job batch =
     Job_create None (of_nat (length batch)) (REGISTER_MASTER_INTERFACE_EX (of_nat (length batch)) batch)
       (8 + length batch * ex_size) (length batch * 8)"

text \<open>The loop over the table with the batch collected so far: the changed entries and the jobs.\<close>

fun register_loop ::
    "config \<Rightarrow> ServerListEntry list \<Rightarrow> SFNDInterfaceDescriptionEx list \<Rightarrow> ServerListEntry list \<times> Job list" where
  "register_loop cfg [] batch = ([], if 0 < length batch then [register_job batch] else [])"
| "register_loop cfg (e # es) batch =
     (if forwardable cfg e then
        (let batch1 = batch @ [master_descr e];
             e1 = e\<lparr>se_masterID := party_assign 0xffffffff\<rparr>
         in if length batch1 = MAX_MULTIPLE_COUNT then
              (let (es1, jobs) = register_loop cfg es [] in (e1 # es1, register_job batch1 # jobs))
            else (let (es1, jobs) = register_loop cfg es batch1 in (e1 # es1, jobs)))
      else (let (es1, jobs) = register_loop cfg es batch in (e # es1, jobs)))"

definition registerInterfacesMaster :: "broker \<Rightarrow> broker" where
  "registerInterfacesMaster b =
     (if isMasterConnected b then
        (let (es, jobs) = register_loop (mConfig b) (sl_entries (mConnectedServers b)) []
         in fold master_eval jobs
              (set_servers ((mConnectedServers b)\<lparr>sl_entries := es\<rparr>) b))
      else b)"

subsection \<open>The notifications a slave forwards to its master\<close>

definition pool_add_if :: "InterfaceDescription \<Rightarrow> bool \<Rightarrow> broker \<Rightarrow> nat \<times> broker" where
  "pool_add_if d isDeferredPool b =
     (let (p, pos) = np_add_if (sNextPoolID b) d isDeferredPool (mMasterNotificationPool b)
      in (pos, b\<lparr>mMasterNotificationPool := p, sNextPoolID := sNextPoolID b + 1\<rparr>))"

definition pool_add_server :: "SPartyID \<Rightarrow> broker \<Rightarrow> nat \<times> broker" where
  "pool_add_server s b =
     (let (p, pos) = np_add_server (sNextPoolID b) s (mMasterNotificationPool b)
      in (pos, b\<lparr>mMasterNotificationPool := p, sNextPoolID := sNextPoolID b + 1\<rparr>))"

definition pool_at :: "broker \<Rightarrow> nat \<Rightarrow> NotificationPoolEntry" where
  "pool_at b pos = np_entries (mMasterNotificationPool b) ! pos"

text \<open>\<open>mMasterNotificationPool[pos].attach(*n)\<close> for the notification \<open>find(i)\<close> returned.\<close>

definition pool_attach :: "nat \<Rightarrow> nkind \<Rightarrow> u32 \<Rightarrow> broker \<Rightarrow> broker" where
  "pool_attach pos k i b =
     (let b1 = update_notification k i (\<lambda>n. n\<lparr>n_poolID := np_poolID (pool_at b pos)\<rparr>) b
      in b1\<lparr>mMasterNotificationPool := np_attach pos (mMasterNotificationPool b1)\<rparr>)"

definition master_pulse :: "broker \<Rightarrow> u32 \<Rightarrow> u32 \<Rightarrow> SFNDPulseInfo" where
  "master_pulse b code val =
     \<lparr>p_code = code, p_value = val, p_chid = snd (mSigAddr b), p_pid = fst (mSigAddr b)\<rparr>"

definition available_descr :: "broker \<Rightarrow> u32 \<Rightarrow> InterfaceDescription \<Rightarrow> SFNDNotificationDescription" where
  "available_descr b poolID d =
     \<lparr>nd_cookie = poolID, nd_pulse = master_pulse b PULSE_MASTER_SERVER_AVAILABLE poolID,
      nd_ifDescription = from_ifDescription d\<rparr>"

definition available_job :: "SFNDNotificationDescription list \<Rightarrow> Job" where
  "available_job batch =
     Job_create None (of_nat (length batch)) (NOTIFY_SERVER_AVAILABLE_EX (of_nat (length batch)) batch)
       (8 + length batch * nd_size) (length batch * 8)"

definition to_forward :: "config \<Rightarrow> Notification \<Rightarrow> bool" where
  "to_forward cfg n \<longleftrightarrow> n_poolID n = 0 \<and> \<not> n_local n \<and> forwardService cfg (if_name (n_ifDescription n))"

fun available_loop ::
    "Notification list \<Rightarrow> SFNDNotificationDescription list \<Rightarrow> broker \<Rightarrow> Notification list \<times> broker" where
  "available_loop [] batch b = ([], if 0 < length batch then master_eval (available_job batch) b else b)"
| "available_loop (n # ns) batch b =
     (if to_forward (mConfig b) n then
        (let pos = np_find_if (mMasterNotificationPool b) (n_ifDescription n) False
         in if pos = - 1 then
              (let (pos1, b1) = pool_add_if (n_ifDescription n) False b;
                   poolID = np_poolID (pool_at b1 pos1);
                   batch1 = batch @ [available_descr b1 poolID (n_ifDescription n)];
                   (batch2, b2) = (if length batch1 = MAX_MULTIPLE_COUNT
                                   then ([], master_eval (available_job batch1) b1) else (batch1, b1));
                   (rest, b3) = available_loop ns batch2 b2
               in (n\<lparr>n_poolID := poolID\<rparr> # rest, b3))
            else
              (let (rest, b1) = available_loop ns batch b
               in (n\<lparr>n_poolID := np_poolID (pool_at b (nat pos))\<rparr> # rest, b1)))
      else (let (rest, b1) = available_loop ns batch b in (n # rest, b1)))"

definition forwardServerAvailableNotifications :: "broker \<Rightarrow> broker" where
  "forwardServerAvailableNotifications b =
     (if isMasterConnected b then
        (let (ns, b1) = available_loop (notifs ServerConnect b) [] b in set_notifs ServerConnect ns b1)
      else b)"

section \<open>Registering interfaces\<close>

text \<open>\<open>addInterface\<close>: the new server id, or \<open>None\<close> if the name is taken.\<close>

definition addInterface ::
    "env \<Rightarrow> nat \<Rightarrow> InterfaceDescription \<Rightarrow> u32 \<Rightarrow> u32 \<Rightarrow> bool \<Rightarrow> u32 \<Rightarrow> broker \<Rightarrow> SPartyID option \<times> broker" where
  "addInterface E c d pid chid isLocal grpid b =
     (if sl_find_name (mConnectedServers b) (if_name d) \<noteq> None then (None, b)
      else
        (let newEntry = (new_ServerListEntry (sNextServerEntryID b + 1) (e_indet_impl E))
               \<lparr>se_ifDescription := d,
                se_partyID := \<lparr>localID = mNextServerID b, extendedID = mExtendedID b\<rparr>,
                se_nid := cx_nodeAddress (mConnections b c),
                se_pid := pid, se_chid := chid, se_grpid := grpid, se_local := isLocal\<rparr>;
             b1 = b\<lparr>sNextServerEntryID := sNextServerEntryID b + 1, mNextServerID := mNextServerID b + 1\<rparr>;
             b2 = set_servers (sl_add newEntry (mConnectedServers b1)) b1;
             b3 = ocb_update c (addServer (se_partyID newEntry)) b2;
             b4 = trigger_interface E ServerConnect d grpid b3;
             b5 = triggerAll_interface E ServerListChange d b4
         in (Some (se_partyID newEntry), b5)))"

definition handleRegisterInterface ::
    "env \<Rightarrow> nat \<Rightarrow> SFNDInterfaceDescription \<Rightarrow> u32 \<Rightarrow> u32 \<Rightarrow> broker \<Rightarrow> message \<Rightarrow> broker \<times> message" where
  "handleRegisterInterface E c ifd chid pid b m =
     (let isLocal = isLocalService (mConfig b) (c_str (sf_name ifd))
      in if check_ifDescription ifd then
           (if \<not> ctx_isLocal (mConnections b c) then
              (b, prepareResponse (status_code FNDBadArgument) False m)
            else
              (let (r, b1) = addInterface E c (to_ifDescription ifd) pid chid isLocal SB_UNKNOWN_GROUP_ID b;
                   b2 = registerInterfacesMaster b1
               in case r of
                    Some serverID \<Rightarrow> (b2, prepareResponse_data (status_code FNDOK) (Some (BodyServerID serverID)) m)
                  | None \<Rightarrow> (b2, prepareResponse (status_code FNDInterfaceAlreadyRegistered) False m)))
         else (b, prepareResponse (status_code FNDBadArgument) False m))"

text \<open>The loop of the extended registration; \<open>False\<close> if an element could not be read.\<close>

fun register_ex_loop ::
    "env \<Rightarrow> nat \<Rightarrow> u32 \<Rightarrow> u32 \<Rightarrow> nat \<Rightarrow> SFNDInterfaceDescription list \<Rightarrow> broker \<Rightarrow> message
       \<Rightarrow> bool \<times> broker \<times> message" where
  "register_ex_loop E c pid chid 0 ifds b m = (True, b, m)"
| "register_ex_loop E c pid chid (Suc n) [] b m = (False, b, m)"
| "register_ex_loop E c pid chid (Suc n) (ifd # ifds) b m =
     (let isLocal = isLocalService (mConfig b) (c_str (sf_name ifd));
          (r, b1) = addInterface E c (to_ifDescription ifd) pid chid isLocal SB_UNKNOWN_GROUP_ID b;
          serverID = (case r of Some s \<Rightarrow> s | None \<Rightarrow> party_assign (- 1))
      in register_ex_loop E c pid chid n ifds b1 (writeAncillaryData (AncServerID serverID) m))"

definition handleRegisterInterfaceEx ::
    "env \<Rightarrow> nat \<Rightarrow> u32 \<Rightarrow> u32 \<Rightarrow> u32 \<Rightarrow> SFNDInterfaceDescription list \<Rightarrow> broker \<Rightarrow> message \<Rightarrow> broker \<times> message" where
  "handleRegisterInterfaceEx E c chid pid ifCount ifds b m =
     (let (ok, b1, m1) = register_ex_loop E c pid chid (nat (sint ifCount)) ifds b m
      in if ok then (registerInterfacesMaster b1, prepareResponse (status_code FNDOK) False m1)
         else (b1, prepareResponse (status_code FNDBadArgument) False m1))"

definition handleRegisterInterfaceGroupID ::
    "env \<Rightarrow> nat \<Rightarrow> SFNDInterfaceDescription \<Rightarrow> u32 \<Rightarrow> u32 \<Rightarrow> u32 \<Rightarrow> broker \<Rightarrow> message \<Rightarrow> broker \<times> message" where
  "handleRegisterInterfaceGroupID E c ifd chid pid grpid b m =
     (let isLocal = isLocalService (mConfig b) (c_str (sf_name ifd))
      in if check_ifDescription ifd \<and> ctx_isLocal (mConnections b c) then
           (let (r, b1) = addInterface E c (to_ifDescription ifd) pid chid isLocal grpid b;
                b2 = registerInterfacesMaster b1
            in case r of
                 Some serverID \<Rightarrow> (b2, prepareResponse_data (status_code FNDOK) (Some (BodyServerID serverID)) m)
               | None \<Rightarrow> (b2, prepareResponse (status_code FNDBadArgument) False m))
         else (b, prepareResponse (status_code FNDBadArgument) False m))"

definition handleUnregisterInterface ::
    "env \<Rightarrow> nat \<Rightarrow> SPartyID \<Rightarrow> broker \<Rightarrow> message \<Rightarrow> broker \<times> message" where
  "handleUnregisterInterface E c serverID b m =
     (if serverExists (ocb b c) serverID then
        (let b1 = ocb_update c (removeServer serverID) b
         in case sl_find_id (mConnectedServers b1) serverID of
              Some entry \<Rightarrow>
                (let b2 = trigger_party E ServerDisconnect serverID b1;
                     b3 = unregisterInterfaceMaster serverID entry b2;
                     b4 = set_servers (sl_remove serverID (mConnectedServers b3)) b3;
                     b5 = b4\<lparr>mAttachedClients := cl_removeServer serverID (mAttachedClients b4)\<rparr>;
                     m1 = prepareResponse (status_code FNDOK) False m
                 in (triggerAll E ServerListChange b5, m1))
            | None \<Rightarrow> (b1, prepareResponse (status_code FNDBadArgument) False m))
      else (b, prepareResponse (status_code FNDBadArgument) False m))"

text \<open>The registrations a slave forwards to its master.\<close>

definition error_serverID :: "SFNDInterfaceDescriptionEx \<Rightarrow> SPartyID" where
  "error_serverID dx = \<lparr>localID = localID (dx_serverID dx), extendedID = - 1\<rparr>"

definition addMasterInterface ::
    "env \<Rightarrow> nat \<Rightarrow> SFNDInterfaceDescriptionEx \<Rightarrow> broker \<Rightarrow> SPartyID \<times> broker" where
  "addMasterInterface E c dx b =
     (let ctx = mConnections b c;
          name = c_str (sf_name (dx_ifDescription dx));
          d = to_ifDescription (dx_ifDescription dx);
          sid = dx_serverID dx;
          newEntry = (new_ServerListEntry (sNextServerEntryID b + 1) (e_indet_impl E))
            \<lparr>se_ifDescription := d,
             se_partyID := (if extendedID sid = 0 then sid\<lparr>extendedID := 1000 + cx_id ctx\<rparr> else sid),
             se_nid := cx_nodeAddress ctx,
             se_pid := translateRemote ctx name (dx_pid dx),
             se_chid := dx_chid dx, se_implVersion := dx_impl dx\<rparr>;
          b1 = b\<lparr>sNextServerEntryID := sNextServerEntryID b + 1\<rparr>;
          b2 = set_servers (sl_add newEntry (mConnectedServers b1)) b1;
          b3 = ocb_update c (addServer (se_partyID newEntry)) b2;
          b4 = trigger_interface E ServerConnect d SB_UNKNOWN_GROUP_ID b3;
          b5 = triggerAll_interface E ServerListChange d b4
      in (se_partyID newEntry, b5))"

text \<open>The four conditions under which the master refuses an interface of a slave.\<close>

definition master_refuses :: "broker \<Rightarrow> SFNDInterfaceDescriptionEx \<Rightarrow> bool" where
  "master_refuses b dx \<longleftrightarrow>
     extendedID (dx_serverID dx) = mExtendedID b
     \<or> \<not> check_ifDescription (dx_ifDescription dx) \<or> sint (dx_chid dx) \<le> 0
     \<or> sl_find_name (mConnectedServers b) (c_str (sf_name (dx_ifDescription dx))) \<noteq> None
     \<or> extendedID (dx_serverID dx) = 0 \<and> mExtendedID b \<noteq> 1000"

fun register_master_loop ::
    "env \<Rightarrow> nat \<Rightarrow> nat \<Rightarrow> SFNDInterfaceDescriptionEx list \<Rightarrow> broker \<Rightarrow> message \<Rightarrow> bool \<times> broker \<times> message" where
  "register_master_loop E c 0 dxs b m = (True, b, m)"
| "register_master_loop E c (Suc n) [] b m = (False, b, m)"
| "register_master_loop E c (Suc n) (dx # dxs) b m =
     (let (sid, b1) = (if master_refuses b dx then (error_serverID dx, b) else addMasterInterface E c dx b)
      in register_master_loop E c n dxs b1 (writeAncillaryData (AncServerID sid) m))"

definition handleRegisterMasterInterface ::
    "env \<Rightarrow> nat \<Rightarrow> u32 \<Rightarrow> SFNDInterfaceDescriptionEx list \<Rightarrow> broker \<Rightarrow> message \<Rightarrow> broker \<times> message" where
  "handleRegisterMasterInterface E c ifCount dxs b m =
     (let (success, b1, m1) = register_master_loop E c (nat (sint ifCount)) dxs b m
      in (registerInterfacesMaster b1,
          prepareResponse (status_code (if success then FNDOK else FNDBadArgument)) False m1))"

section \<open>Setting notifications\<close>

text \<open>
  The part of \<open>handleNotifyServerDisconnect\<close> without the response: the id of the notification, or
  \<open>None\<close> for \<open>FNDInternalError\<close>.
\<close>

definition disconnect_request :: "broker \<Rightarrow> SPartyID \<Rightarrow> u32 \<Rightarrow> Job" where
  "disconnect_request b serverID poolID =
     Job_create None poolID
       (NOTIFY_SERVER_DISCONNECT serverID (master_pulse b PULSE_MASTER_SERVER_DISCONNECT poolID)) 32 4"

definition watch_remote_server :: "SPartyID \<Rightarrow> u32 \<Rightarrow> broker \<Rightarrow> broker" where
  "watch_remote_server serverID notificationID b =
     (case find_notification ServerDisconnect notificationID b of
        None \<Rightarrow> b
      | Some _ \<Rightarrow>
          (let pos = np_find_server (mMasterNotificationPool b) serverID
           in if pos = - 1 then
                (let (pos1, b1) = pool_add_server serverID b;
                     b2 = master_eval (disconnect_request b1 serverID (np_poolID (pool_at b1 pos1))) b1
                 in pool_attach pos1 ServerDisconnect notificationID b2)
              else pool_attach (nat pos) ServerDisconnect notificationID b))"

definition handleNotifyServerDisconnectNoResponse ::
    "env \<Rightarrow> nat \<Rightarrow> SPartyID \<Rightarrow> SFNDPulseInfo \<Rightarrow> broker \<Rightarrow> u32 option \<times> broker" where
  "handleNotifyServerDisconnectNoResponse E c serverID pulse b =
     (let (notificationID, b1) = add_party E ServerDisconnect c serverID (mConnections b c) pulse b
      in if notificationID \<noteq> INVALID_NOTIFICATION_ID then
           (let b2 = ocb_update c (addNotification notificationID) b1;
                gone = (sl_find_id (mConnectedServers b2) serverID = None);
                b3 = (if gone \<and> mExtendedID b2 \<noteq> extendedID serverID \<and> isMasterConnected b2 then
                        watch_remote_server serverID notificationID b2
                      else if gone then trigger_party E ServerDisconnect serverID b2
                      else b2)
            in (Some notificationID, b3))
         else (None, b1))"

definition handleNotifyServerDisconnect ::
    "env \<Rightarrow> nat \<Rightarrow> SPartyID \<Rightarrow> SFNDPulseInfo \<Rightarrow> broker \<Rightarrow> message \<Rightarrow> broker \<times> message" where
  "handleNotifyServerDisconnect E c serverID pulse b m =
     (case handleNotifyServerDisconnectNoResponse E c serverID pulse b of
        (Some i, b1) \<Rightarrow> (b1, prepareResponse_data (status_code FNDOK) (Some (BodyNotificationID i)) m)
      | (None, b1) \<Rightarrow> (b1, prepareResponse (status_code FNDInternalError) False m))"

text \<open>What follows the addition of a server-available notification, in both handlers.\<close>

definition announce_or_forward ::
    "env \<Rightarrow> InterfaceDescription \<Rightarrow> bool \<Rightarrow> bool \<Rightarrow> broker \<Rightarrow> broker" where
  "announce_or_forward E d isLocal available b =
     (if available then trigger_interface E ServerConnect d SB_UNKNOWN_GROUP_ID b
      else if \<not> isLocal \<and> isMasterConnected b then forwardServerAvailableNotifications b
      else b)"

definition may_watch :: "env \<Rightarrow> nat \<Rightarrow> InterfaceDescription \<Rightarrow> broker \<Rightarrow> bool" where
  "may_watch E c d b =
     (case sl_find_if (mConnectedServers b) d of
        None \<Rightarrow> True | Some entry \<Rightarrow> checkAccessPrivileges E (mConnections b c) entry)"

definition handleNotifyServerAvailableNoResponse ::
    "env \<Rightarrow> nat \<Rightarrow> SFNDPulseInfo \<Rightarrow> SFNDInterfaceDescription \<Rightarrow> broker \<Rightarrow> (SBStatus + u32) \<times> broker" where
  "handleNotifyServerAvailableNoResponse E c pulse ifd b =
     (let isLocal = isLocalService (mConfig b) (c_str (sf_name ifd));
          d = to_ifDescription ifd;
          available = (sl_find_if (mConnectedServers b) d \<noteq> None)
      in if \<not> may_watch E c d b then (Inl FNDAccessDenied, b)
         else
           (let (notificationID, b1) =
                  add_interface E ServerConnect c d (mConnections b c) pulse isLocal (cx_uid (mConnections b c)) b
            in if notificationID = INVALID_NOTIFICATION_ID then (Inl FNDBadArgument, b1)
               else
                 (let b2 = ocb_update c (addNotification notificationID) b1
                  in (Inr notificationID, announce_or_forward E d isLocal available b2))))"

definition handleNotifyServerAvailable ::
    "env \<Rightarrow> nat \<Rightarrow> SFNDPulseInfo \<Rightarrow> SFNDInterfaceDescription \<Rightarrow> broker \<Rightarrow> message \<Rightarrow> broker \<times> message" where
  "handleNotifyServerAvailable E c pulse ifd b m =
     (case handleNotifyServerAvailableNoResponse E c pulse ifd b of
        (Inr i, b1) \<Rightarrow> (b1, prepareResponse_data (status_code FNDOK) (Some (BodyNotificationID i)) m)
      | (Inl e, b1) \<Rightarrow> (b1, prepareResponse (status_code e) False m))"

fun available_ex_loop ::
    "env \<Rightarrow> nat \<Rightarrow> nat \<Rightarrow> SFNDNotificationDescription list \<Rightarrow> broker \<Rightarrow> message \<Rightarrow> bool \<times> broker \<times> message" where
  "available_ex_loop E c 0 nds b m = (True, b, m)"
| "available_ex_loop E c (Suc k) [] b m = (False, b, m)"
| "available_ex_loop E c (Suc k) (n # nds) b m =
     (let isLocal = isLocalService (mConfig b) (c_str (sf_name (nd_ifDescription n)));
          d = to_ifDescription (nd_ifDescription n);
          available = (sl_find_if (mConnectedServers b) d \<noteq> None);
          (i, b1) =
            (if may_watch E c d b then
               (let (notificationID, b2) =
                      add_interface E ServerConnect c d (mConnections b c) (nd_pulse n) isLocal
                        (cx_uid (mConnections b c)) b
                in if notificationID \<noteq> INVALID_NOTIFICATION_ID then
                     (notificationID,
                      announce_or_forward E d isLocal available
                        (ocb_update c (addNotification notificationID) b2))
                   else (- 1, b2))
             else (- 1, b))
      in available_ex_loop E c k nds b1
           (writeAncillaryData (AncNotificationID \<lparr>ni_cookie = nd_cookie n, ni_notificationID = i\<rparr>) m))"

definition handleNotifyServerAvailableEx ::
    "env \<Rightarrow> nat \<Rightarrow> u32 \<Rightarrow> SFNDNotificationDescription list \<Rightarrow> broker \<Rightarrow> message \<Rightarrow> broker \<times> message" where
  "handleNotifyServerAvailableEx E c count nds b m =
     (let (ok, b1, m1) = available_ex_loop E c (nat (sint count)) nds b m
      in (b1, prepareResponse (status_code (if ok then FNDOK else FNDBadArgument)) False m1))"

definition handleNotifyClientDetach ::
    "env \<Rightarrow> nat \<Rightarrow> SPartyID \<Rightarrow> SFNDPulseInfo \<Rightarrow> broker \<Rightarrow> message \<Rightarrow> broker \<times> message" where
  "handleNotifyClientDetach E c clientID pulse b m =
     (let (notificationID, b1) = add_party E ClientDetach c clientID (mConnections b c) pulse b
      in if notificationID \<noteq> INVALID_NOTIFICATION_ID then
           (let b2 = ocb_update c (addNotification notificationID) b1;
                m1 = prepareResponse_data (status_code FNDOK) (Some (BodyNotificationID notificationID)) m;
                b3 = (if isMasterConnected b2 \<and> mExtendedID b2 \<noteq> extendedID clientID then
                        master_eval
                          (Job_create None notificationID
                             (NOTIFY_CLIENT_DETACH clientID
                                (master_pulse b2 PULSE_MASTER_CLIENT_DETACH notificationID)) 32 4) b2
                      else if (\<not> mUseServerCache b2 \<or> mExtendedID b2 = extendedID clientID)
                           \<and> cl_find (mAttachedClients b2) clientID = - 1 then
                        trigger_party E ClientDetach clientID b2
                      else b2)
            in (b3, m1))
         else (b1, prepareResponse (status_code FNDInternalError) False m))"

definition handleClearNofification :: "nat \<Rightarrow> u32 \<Rightarrow> broker \<Rightarrow> message \<Rightarrow> broker \<times> message" where
  "handleClearNofification c notificationID b m =
     (if notificationExists (ocb b c) notificationID then
        (let b1 = ocb_update c (removeNotification notificationID) b;
             b2 = remove_notification ClientDetach notificationID b1;
             b3 = remove_notification ServerDisconnect notificationID b2;
             b4 = remove_notification ServerConnect notificationID b3;
             b5 = remove_notification ServerListChange notificationID b4
         in (b5, prepareResponse (status_code FNDOK) False m))
      else (b, prepareResponse (status_code FNDInvalidNotificationID) False m))"

definition handleNotifyInterfaceListChange ::
    "env \<Rightarrow> nat \<Rightarrow> SFNDPulseInfo \<Rightarrow> broker \<Rightarrow> message \<Rightarrow> broker \<times> message" where
  "handleNotifyInterfaceListChange E c pulse b m =
     (let (notificationID, b1) = add_notification E ServerListChange (mConnections b c) pulse b
      in if notificationID \<noteq> INVALID_NOTIFICATION_ID then
           (let b2 = ocb_update c (addNotification notificationID) b1;
                b3 = (if \<not> isMasterConnected b2 then b2
                      else master_eval
                        (Job_create None notificationID
                           (NOTIFY_INTERFACELIST_CHANGE
                              (master_pulse b2 PULSE_MASTER_SERVERLIST_CHANGE notificationID)) 20 4) b2)
            in (b3, prepareResponse_data (status_code FNDOK) (Some (BodyNotificationID notificationID)) m))
         else (b1, prepareResponse (status_code FNDBadArgument) False m))"

text \<open>The notification is sent at once if an interface the caller may see already matches.\<close>

definition visible_match :: "env \<Rightarrow> connection \<Rightarrow> Notification \<Rightarrow> ServerListEntry \<Rightarrow> bool" where
  "visible_match E ctx n e \<longleftrightarrow>
     (cx_nodeAddress ctx = SB_LOCAL_NODE_ADDRESS \<or> \<not> se_local e) \<and> matchRegExp E n (se_name e)"

definition send_found :: "env \<Rightarrow> nkind \<Rightarrow> u32 \<Rightarrow> broker \<Rightarrow> broker" where
  "send_found E k i b =
     (case find_notification k i b of
        None \<Rightarrow> b
      | Some n \<Rightarrow> (let (n1, b1) = notification_send E n b in update_notification k i (\<lambda>_. n1) b1))"

definition handleNotifyInterfaceListMatch ::
    "env \<Rightarrow> nat \<Rightarrow> SFNDPulseInfo \<Rightarrow> string \<Rightarrow> broker \<Rightarrow> message \<Rightarrow> broker \<times> message" where
  "handleNotifyInterfaceListMatch E c pulse regExpr b m =
     (let ctx = mConnections b c;
          (notificationID, b1) = add_regexp E ServerListChange regExpr ctx pulse b
      in if notificationID \<noteq> INVALID_NOTIFICATION_ID then
           (let b2 = ocb_update c (addNotification notificationID) b1;
                b3 = (if isMasterConnected b2 then
                        master_eval
                          (Job_create None notificationID
                             (NOTIFY_INTERFACELIST_MATCH
                                (master_pulse b2 PULSE_MASTER_SERVERLIST_CHANGE notificationID) regExpr) 276 4) b2
                      else b2);
                m1 = prepareResponse_data (status_code FNDOK) (Some (BodyNotificationID notificationID)) m;
                b4 = (case find_notification ServerListChange notificationID b3 of
                        None \<Rightarrow> b3
                      | Some n \<Rightarrow>
                          (if list_ex (visible_match E ctx n) (sl_entries (mConnectedServers b3))
                           then send_found E ServerListChange notificationID b3 else b3))
            in (b4, m1))
         else (b1, prepareResponse (status_code FNDBadArgument) False m))"

end
