(* ===== verification/Broker_Attach.thy ===== *)
theory Broker_Attach
  imports Broker_Handlers
begin

text \<open>
  The handlers for attaching to and detaching from an interface, the list queries, the ping of a
  slave, and \<^verbatim>\<open>ClientSpecificData::clear\<close>, which cleans up after a closed connection.
\<close>

section \<open>Attaching\<close>

definition handleAttachLocalInterface ::
    "env \<Rightarrow> nat \<Rightarrow> ServerListEntry \<Rightarrow> broker \<Rightarrow> (SBStatus + SConnectionInfo) \<times> broker" where
  "handleAttachLocalInterface E c entry b =
     (let ctx = mConnections b c;
          result = (if se_grpid entry \<noteq> SB_UNKNOWN_GROUP_ID then
                      (if \<not> ctx_isLocal ctx then FNDAccessDenied
                       else if checkAccessPrivileges E ctx entry then FNDOK
                       else FNDAccessDenied)
                    else FNDOK)
      in if result = FNDOK then
           (let (clientID, b1) = addClient c (party_assign 0) (se_partyID entry) b;
                channel = \<lparr>c_nid = nullTranslator (cx_nodeAddress ctx) (se_nid entry),
                           c_pid = translateLocal ctx (se_name entry) (se_pid entry),
                           c_chid = se_chid entry\<rparr>
            in (Inr \<lparr>ci_version = \<lparr>v_major = word_of_int (if_major (se_ifDescription entry)),
                                   v_minor = word_of_int (if_minor (se_ifDescription entry))\<rparr>,
                     ci_channel = channel, ci_serverID = se_partyID entry, ci_clientID = clientID\<rparr>, b1))
         else (Inl result, b))"

definition may_forward :: "broker \<Rightarrow> string \<Rightarrow> bool" where
  "may_forward b name \<longleftrightarrow>
     \<not> isLocalService (mConfig b) name \<and> forwardService (mConfig b) name \<and> isMasterConnected b"

definition handleAttachInterface ::
    "env \<Rightarrow> nat \<Rightarrow> SFNDInterfaceDescription \<Rightarrow> broker \<Rightarrow> message \<Rightarrow> broker \<times> message" where
  "handleAttachInterface E c ifd b m =
     (if check_ifDescription ifd then
        (case sl_find_if (mConnectedServers b) (to_ifDescription ifd) of
           Some entry \<Rightarrow>
             (case handleAttachLocalInterface E c entry b of
                (Inr ci, b1) \<Rightarrow> (b1, prepareResponse_data (status_code FNDOK) (Some (BodyConnection ci)) m)
              | (Inl e, b1) \<Rightarrow> (b1, prepareResponse (status_code e) False m))
         | None \<Rightarrow>
             if may_forward b (c_str (sf_name ifd)) then
               (let job = Job_create (Some c) (mNextPendingRemoteServerRequestID b) (ATTACH_INTERFACE ifd) 264 32
                in (master_eval job
                      (b\<lparr>mNextPendingRemoteServerRequestID := mNextPendingRemoteServerRequestID b + 1\<rparr>),
                    deferResponse m))
             else (b, prepareResponse (status_code FNDUnknownInterface) False m))
      else (b, prepareResponse (status_code FNDBadArgument) False m))"

text \<open>
  \<open>forwardAttachExtendedToMaster\<close>: the status, the notification id written to the output (if
  any), broker and context. The job is created before the pool changes state and pushed last.
\<close>

definition attach_extended_job ::
    "broker \<Rightarrow> nat \<Rightarrow> SFNDInterfaceDescription \<Rightarrow> u32 \<Rightarrow> Job" where
  "attach_extended_job b c ifd poolID =
     Job_create (if mAsyncMode b then None else Some c) 0
       (ATTACH_INTERFACE_EXTENDED (master_pulse b PULSE_MASTER_ATTACH_EXTENDED poolID) ifd) 280 40"

definition set_pool :: "nat \<Rightarrow> (NotificationPoolEntry \<Rightarrow> NotificationPoolEntry) \<Rightarrow> broker \<Rightarrow> broker" where
  "set_pool pos f b = b\<lparr>mMasterNotificationPool := np_update pos f (mMasterNotificationPool b)\<rparr>"

definition forward_attach_request ::
    "nat \<Rightarrow> SFNDInterfaceDescription \<Rightarrow> bool \<Rightarrow> nat \<Rightarrow> u32 \<Rightarrow> broker \<Rightarrow> message
       \<Rightarrow> u32 option \<times> broker \<times> message" where
  "forward_attach_request c ifd poolFound pos notificationID b m =
     (let st = np_state (pool_at b pos);
          send_job = (\<not> poolFound \<or> st = STATE_CONNECTED);
          job = attach_extended_job b c ifd (np_poolID (pool_at b pos));
          out = (if send_job \<and> \<not> mAsyncMode b then None else Some notificationID);
          m1 = (if send_job \<and> \<not> mAsyncMode b then deferResponse m else m);
          b1 = (if st = STATE_CONNECTED then set_pool pos (\<lambda>e. fst (np_setState STATE_PRECACHING e)) b else b);
          m2 = (if st = STATE_PRECACHING then deferResponse m1 else m1)
      in (out, if send_job then master_eval job b1 else b1, m2))"

definition forwardAttachExtendedToMaster ::
    "env \<Rightarrow> nat \<Rightarrow> SFNDPulseInfo \<Rightarrow> SFNDInterfaceDescription \<Rightarrow> broker \<Rightarrow> message
       \<Rightarrow> SBStatus \<times> u32 option \<times> broker \<times> message" where
  "forwardAttachExtendedToMaster E c pulse ifd b m =
     (let d = to_ifDescription ifd;
          isLocal = isLocalService (mConfig b) (c_str (sf_name ifd));
          found = np_find_if (mMasterNotificationPool b) d True;
          poolFound = (found \<noteq> - 1);
          (pos, b1) = (if poolFound then (nat found, b) else pool_add_if d True b);
          (notificationID, b2) =
            add_interface E ServerConnect c d (mConnections b c) pulse isLocal (cx_uid (mConnections b c)) b1
      in if notificationID = INVALID_NOTIFICATION_ID then (FNDInvalidNotificationID, None, b2, m)
         else if find_notification ServerConnect notificationID b2 = None then (FNDInternalError, None, b2, m)
         else
           (let b3 = ocb_update c (addNotification notificationID) b2;
                b4 = pool_attach pos ServerConnect notificationID b3;
                (out, b5, m1) = forward_attach_request c ifd poolFound pos notificationID b4 m
            in (FNDUnknownInterface, out, b5, m1)))"

text \<open>
  The extended attach. The local branch passes the (uninitialised) pulse of
  \<open>serverDisconnectArg\<close> on. In the outputs that only wrote the notification id the connection
  information is what the request left in the union; without any write the whole structure is.
\<close>

definition handleAttachInterfaceExtended_local ::
    "env \<Rightarrow> nat \<Rightarrow> ServerListEntry \<Rightarrow> broker \<Rightarrow> message \<Rightarrow> broker \<times> message" where
  "handleAttachInterfaceExtended_local E c entry b m =
     (case handleAttachLocalInterface E c entry b of
        (Inl e, b1) \<Rightarrow> (b1, prepareResponse (status_code e) False m)
      | (Inr ci, b1) \<Rightarrow>
          (case handleNotifyServerDisconnectNoResponse E c (se_partyID entry) (e_indet_pulse E) b1 of
             (Some i, b2) \<Rightarrow> (b2, prepareResponse_data (status_code FNDOK) (Some (BodyAttachExtended (Some ci) i)) m)
           | (None, b2) \<Rightarrow> (b2, prepareResponse (status_code FNDInternalError) False m)))"

definition handleAttachInterfaceExtended ::
    "env \<Rightarrow> nat \<Rightarrow> SFNDPulseInfo \<Rightarrow> SFNDInterfaceDescription \<Rightarrow> broker \<Rightarrow> message \<Rightarrow> broker \<times> message" where
  "handleAttachInterfaceExtended E c pulse ifd b m =
     (if \<not> check_ifDescription ifd then (b, prepareResponse (status_code FNDBadArgument) False m)
      else
        (case sl_find_if (mConnectedServers b) (to_ifDescription ifd) of
           Some entry \<Rightarrow> handleAttachInterfaceExtended_local E c entry b m
         | None \<Rightarrow>
             if \<not> may_forward b (c_str (sf_name ifd)) then
               (case handleNotifyServerAvailableNoResponse E c pulse ifd b of
                  (Inr i, b1) \<Rightarrow>
                    (b1, prepareResponse_data (status_code FNDUnknownInterface)
                           (Some (BodyAttachExtended None i)) m)
                | (Inl e, b1) \<Rightarrow> (b1, prepareResponse (status_code e) False m))
             else
               (let (result, out, b1, m1) = forwardAttachExtendedToMaster E c pulse ifd b m
                in if m_state m1 = State_DEFERRED then (b1, m1)
                   else if result = FNDUnknownInterface then
                     (b1, prepareResponse_data (status_code result)
                            (Some (BodyAttachExtended None (case out of Some i \<Rightarrow> i | None \<Rightarrow> e_image E
                               (ATTACH_INTERFACE_EXTENDED pulse ifd) 8))) m1)
                   else (b1, prepareResponse (status_code result) False m1))))"

definition handleGetServerInformation ::
    "nat \<Rightarrow> SFNDInterfaceDescription \<Rightarrow> broker \<Rightarrow> message \<Rightarrow> broker \<times> message" where
  "handleGetServerInformation c ifd b m =
     (let isLocal = isLocalService (mConfig b) (c_str (sf_name ifd))
      in if check_ifDescription ifd then
           (case sl_find_if (mConnectedServers b) (to_ifDescription ifd) of
              Some entry \<Rightarrow>
                (b, prepareResponse_data (status_code FNDOK)
                      (Some (BodyServerInfo
                         \<lparr>si_channel = \<lparr>c_nid = se_nid entry,
                             c_pid = translateLocal (mConnections b c) (se_name entry) (se_pid entry),
                             c_chid = se_chid entry\<rparr>,
                          si_serverID = se_partyID entry\<rparr>)) m)
            | None \<Rightarrow>
                if \<not> isLocal \<and> isMasterConnected b then
                  (let cookie = mNextPendingRemoteServerRequestID b;
                       job = Job_create (Some c) cookie (GET_SERVER_INFORMATION ifd) 264 24
                   in (master_eval job
                         (b\<lparr>mNextPendingRemoteServerRequestID := cookie + 1,
                            mPendingRemoteServersRequests :=
                              (mPendingRemoteServersRequests b)(cookie \<mapsto> to_ifDescription ifd)\<rparr>),
                       deferResponse m))
                else (b, prepareResponse (status_code FNDUnknownInterface) False m))
         else (b, prepareResponse (status_code FNDBadArgument) False m))"

section \<open>Detaching\<close>

definition handleDetachInterface ::
    "env \<Rightarrow> nat \<Rightarrow> SPartyID \<Rightarrow> broker \<Rightarrow> message \<Rightarrow> broker \<times> message" where
  "handleDetachInterface E c clientID b m =
     (let known = (clientExists (ocb b c) clientID \<and> cl_find (mAttachedClients b) clientID \<noteq> - 1);
          b1 = (if known then
                  (let b2 = trigger_party E ClientDetach clientID b;
                       b3 = b2\<lparr>mAttachedClients := cl_remove clientID (mAttachedClients b2)\<rparr>
                   in ocb_update c (removeClient clientID) b3)
                else b)
      in if isMasterConnected b1 \<and> (mUseServerCache b1 \<or> \<not> known) then
           (let job = Job_create (Some c) 0 (DETACH_INTERFACE clientID) 16 0
            in (ocb_update c (removeClient clientID) (master_eval job b1), deferResponse m))
         else (b1, prepareResponse (status_code (if known then FNDOK else FNDInvalidClientID)) False m))"

section \<open>Interface lists\<close>

definition visible :: "connection \<Rightarrow> ServerListEntry \<Rightarrow> bool" where
  "visible ctx e \<longleftrightarrow> \<not> cx_slave ctx \<or> \<not> se_local e"

definition anc_interface :: "ServerListEntry \<Rightarrow> ancillary" where
  "anc_interface e = AncInterface (from_ifDescription (se_ifDescription e))"

text \<open>\<^verbatim>\<open>sizeof(arg.o) + inCount * sizeof(SFNDInterfaceDescription)\<close> as a 32-bit \<^verbatim>\<open>size_t\<close>.\<close>

definition list_rbytes :: "u32 \<Rightarrow> nat" where
  "list_rbytes inCount = unat (of_nat ifd_size + inCount * of_nat ifd_size)"

definition handleGetInterfaceList :: "nat \<Rightarrow> u32 \<Rightarrow> broker \<Rightarrow> message \<Rightarrow> broker \<times> message" where
  "handleGetInterfaceList c inCount b m =
     (if isMasterConnected b then
        (master_eval (Job_create (Some c) inCount (GET_INTERFACELIST inCount) 8
           (list_rbytes inCount)) b, deferResponse m)
      else
        (let es = sl_entries (mConnectedServers b);
             out = filter (visible (mConnections b c)) es
         in if length es \<le> unat inCount then
              (b, prepareResponse (- int (length out)) False
                    (fold (\<lambda>e. writeAncillaryData (anc_interface e)) out m))
            else (b, prepareResponse (status_code FNDBadArgument) False m)))"

text \<open>The matching loop: \<open>False\<close> when there are more matches than the caller has room for.\<close>

fun match_loop ::
    "env \<Rightarrow> string \<Rightarrow> connection \<Rightarrow> int \<Rightarrow> ServerListEntry list \<Rightarrow> int \<Rightarrow> message \<Rightarrow> bool \<times> int \<times> message" where
  "match_loop E r ctx inCount [] retCount m = (True, retCount, m)"
| "match_loop E r ctx inCount (e # es) retCount m =
     (if e_regexec E r (se_name e) then
        (if inCount \<le> retCount then (False, retCount, m)
         else if visible ctx e then
           match_loop E r ctx inCount es (retCount + 1) (writeAncillaryData (anc_interface e) m)
         else match_loop E r ctx inCount es retCount m)
      else match_loop E r ctx inCount es retCount m)"

definition handleMatchInterfaceList ::
    "env \<Rightarrow> nat \<Rightarrow> u32 \<Rightarrow> string \<Rightarrow> broker \<Rightarrow> message \<Rightarrow> broker \<times> message" where
  "handleMatchInterfaceList E c inCount regExpr b m =
     (if \<not> e_regcomp E regExpr then
        (b, prepareResponse_data (- status_code FNDRegularExpression) None m)
      else if isMasterConnected b then
        (master_eval ((Job_create (Some c) inCount (MATCH_INTERFACELIST inCount regExpr) 264
           (list_rbytes inCount))\<lparr>j_regex := Some regExpr\<rparr>) b, deferResponse m)
      else
        (let (sendResult, retCount, m1) =
               match_loop E regExpr (mConnections b c) (sint inCount) (sl_entries (mConnectedServers b)) 0 m
         in if sendResult then (b, prepareResponse (- retCount) False m1)
            else (b, prepareResponse (status_code FNDBadArgument) False m1)))"

section \<open>The ping of a slave\<close>

definition set_slave :: "nat \<Rightarrow> broker \<Rightarrow> broker" where
  "set_slave c b = b\<lparr>mConnections := (mConnections b)(c := (mConnections b c)\<lparr>cx_slave := True\<rparr>)\<rparr>"

definition handleMasterPingId :: "nat \<Rightarrow> u32 \<Rightarrow> broker \<Rightarrow> message \<Rightarrow> broker \<times> message" where
  "handleMasterPingId c i b m =
     (set_slave c (ocb_update c (setExtendedID i) b), prepareResponse (status_code FNDOK) False m)"

section \<open>\<^verbatim>\<open>ClientSpecificData::clear\<close>\<close>

fun clear_servers :: "SPartyID list \<Rightarrow> broker \<Rightarrow> broker" where
  "clear_servers [] b = b"
| "clear_servers (serverID # ids) b =
     (case sl_find_id (mConnectedServers b) serverID of
        Some entry \<Rightarrow>
          (let b1 = unregisterInterfaceMaster serverID entry b;
               b2 = set_servers (sl_remove serverID (mConnectedServers b1)) b1;
               b3 = b2\<lparr>mAttachedClients := cl_removeServer serverID (mAttachedClients b2)\<rparr>
           in clear_servers ids b3)
      | None \<Rightarrow> clear_servers ids b)"

fun clear_clients :: "SPartyID list \<Rightarrow> broker \<Rightarrow> broker" where
  "clear_clients [] b = b"
| "clear_clients (clientID # ids) b =
     (let b1 = b\<lparr>mAttachedClients := cl_remove clientID (mAttachedClients b)\<rparr>;
          b2 = (if isMasterConnected b1 then
                  master_eval (Job_create None 0 (DETACH_INTERFACE clientID) 16 0) b1
                else b1)
      in clear_clients ids b2)"

definition clear_connection :: "env \<Rightarrow> nat \<Rightarrow> broker \<Rightarrow> broker" where
  "clear_connection E c b =
     (let servers = mServerList (ocb b c); clients = mClientList (ocb b c);
          b1 = clear_clients clients (clear_servers servers b);
          b2 = trigger_parties E ServerDisconnect servers b1;
          b3 = trigger_parties E ClientDetach clients b2;
          b4 = remove_ids ServerDisconnect c b3;
          b5 = remove_ids ClientDetach c b4;
          b6 = remove_ids ServerConnect c b5;
          b7 = remove_ids ServerListChange c b6
      in if servers \<noteq> [] then triggerAll E ServerListChange b7 else b7)"

end
