(* ===== verification/Broker_Master.thy ===== *)
theory Broker_Master
  imports Broker_Attach
begin

text \<open>
  What a slave does with its master: finished jobs (\<^verbatim>\<open>handleJobFinished\<close>), the connection coming
  and going, the pulses of the master, and the two \<^verbatim>\<open>dispatch\<close> functions that enter the broker.
  \<open>None\<close> as the result of a job is undefined behaviour or a failed assertion of the code: a
  connection read from a job that has none, or a write past the end of the job's buffer.
\<close>

section \<open>Reading the output of a job\<close>

text \<open>
  The output structure shares the job's buffer with the input. Where the response brought no
  data, the code reads the bytes of the request: \<open>e_image\<close>, by 32-bit word.
\<close>

definition image_party :: "env \<Rightarrow> Job \<Rightarrow> nat \<Rightarrow> SPartyID" where
  "image_party E j w = \<lparr>localID = e_image E (j_req j) w, extendedID = e_image E (j_req j) (w + 1)\<rparr>"

definition out_clientID :: "env \<Rightarrow> Job \<Rightarrow> SPartyID" where
  "out_clientID E j =
     (case j_out j of OutConnection ci \<Rightarrow> ci_clientID ci
      | OutAttachExtended ci _ \<Rightarrow> ci_clientID ci
      | _ \<Rightarrow> image_party E j 6)"

definition out_notificationID :: "env \<Rightarrow> Job \<Rightarrow> u32" where
  "out_notificationID E j = (case j_out j of OutNotification i \<Rightarrow> i | _ \<Rightarrow> e_image E (j_req j) 0)"

definition out_notification :: "env \<Rightarrow> Job \<Rightarrow> nat \<Rightarrow> SFNDNotificationID" where
  "out_notification E j idx =
     (case j_out j of
        OutNotifications ns \<Rightarrow> (if idx < length ns then ns ! idx
          else \<lparr>ni_cookie = e_image E (j_req j) (2 * idx), ni_notificationID = e_image E (j_req j) (2 * idx + 1)\<rparr>)
      | _ \<Rightarrow> \<lparr>ni_cookie = e_image E (j_req j) (2 * idx), ni_notificationID = e_image E (j_req j) (2 * idx + 1)\<rparr>)"

definition out_serverID :: "env \<Rightarrow> Job \<Rightarrow> nat \<Rightarrow> SPartyID" where
  "out_serverID E j idx =
     (case j_out j of
        OutServerIDs ids \<Rightarrow> (if idx < length ids then ids ! idx else image_party E j (2 * idx))
      | _ \<Rightarrow> image_party E j (2 * idx))"

section \<open>Finished jobs\<close>

definition finished_attach :: "env \<Rightarrow> Job \<Rightarrow> broker \<Rightarrow> broker option" where
  "finished_attach E job b =
     (case j_ctx job of
        None \<Rightarrow> None
      | Some c \<Rightarrow> Some (ocb_update c (addClient_ocb (out_clientID E job)) b))"

definition finished_server_information :: "Job \<Rightarrow> broker \<Rightarrow> Job \<times> broker" where
  "finished_server_information job b =
     (if mPendingRemoteServersRequests b (j_cookie job) \<noteq> None then
        (job, b\<lparr>mPendingRemoteServersRequests := (mPendingRemoteServersRequests b)(j_cookie job := None)\<rparr>)
      else (job\<lparr>j_status := status_code FNDInternalError\<rparr>, b))"

text \<open>A master notification id goes to its pool entry, or is cleared again if that is gone.\<close>

definition record_pool_notification :: "u32 \<Rightarrow> u32 \<Rightarrow> broker \<Rightarrow> broker" where
  "record_pool_notification poolID notificationID b =
     (let pos = np_find_id (mMasterNotificationPool b) poolID
      in if pos \<noteq> - 1 then set_pool (nat pos) (\<lambda>e. e\<lparr>np_notificationID := notificationID\<rparr>) b
         else createClearNotificationJob notificationID b)"

fun finished_available :: "env \<Rightarrow> Job \<Rightarrow> nat \<Rightarrow> nat \<Rightarrow> broker \<Rightarrow> broker" where
  "finished_available E job idx 0 b = b"
| "finished_available E job idx (Suc n) b =
     (let out = out_notification E job idx;
          b1 = (if ni_notificationID out = INVALID_NOTIFICATION_ID then b
                else record_pool_notification (ni_cookie out) (ni_notificationID out) b)
      in finished_available E job (Suc idx) n b1)"

definition record_notification :: "nkind \<Rightarrow> u32 \<Rightarrow> u32 \<Rightarrow> broker \<Rightarrow> broker" where
  "record_notification k cookie notificationID b =
     (if find_notification k cookie b \<noteq> None then
        update_notification k cookie (\<lambda>n. n\<lparr>n_masterNotificationID := notificationID\<rparr>) b
      else createClearNotificationJob notificationID b)"

text \<open>
  The answer to a batch of registrations: each server id goes to the entry that waits for it; an
  error id leaves the entry waiting; without such an entry the server is unregistered again.
\<close>

definition finished_register_one :: "SPartyID \<Rightarrow> broker \<Rightarrow> broker" where
  "finished_register_one sid b =
     (case sl_findByLocalIDandInvalidMasterID (mConnectedServers b) (localID sid) of
        Some _ \<Rightarrow>
          (if extendedID sid = - 1 then b
           else set_servers (sl_set_masterID (pending_at_master (localID sid)) sid (mConnectedServers b)) b)
      | None \<Rightarrow>
          (let b1 = b\<lparr>sNextServerEntryID := sNextServerEntryID b + 1\<rparr>
           in if unregister_needed sid b1 then unregister_job sid b1 else b1))"

fun finished_register :: "env \<Rightarrow> Job \<Rightarrow> nat \<Rightarrow> nat \<Rightarrow> broker \<Rightarrow> broker" where
  "finished_register E job idx 0 b = b"
| "finished_register E job idx (Suc n) b =
     finished_register E job (Suc idx) n (finished_register_one (out_serverID E job idx) b)"

text \<open>
  Appending the local interfaces to the list the master sent. The elements \<open>xs\<close> are the first
  \<open>ret_val\<close> ones of the buffer. \<open>Some (Inr xs)\<close> is the complete list, \<open>Some (Inl ())\<close> a caller
  without enough room, \<open>None\<close> a write past the \<open>cap\<close> bytes of the buffer.
\<close>

definition local_only :: "config \<Rightarrow> ServerListEntry \<Rightarrow> bool" where
  "local_only cfg e \<longleftrightarrow> se_local e \<or> \<not> forwardService cfg (se_name e)"

fun append_local ::
    "(ServerListEntry \<Rightarrow> bool) \<Rightarrow> int \<Rightarrow> nat \<Rightarrow> ServerListEntry list \<Rightarrow> SFNDInterfaceDescription list
       \<Rightarrow> (unit + SFNDInterfaceDescription list) option" where
  "append_local P cookie cap [] xs = Some (Inr xs)"
| "append_local P cookie cap (e # es) xs =
     (if P e then
        (if cookie \<le> int (length xs) then Some (Inl ())
         else if cap < (length xs + 1) * ifd_size then None
         else append_local P cookie cap es (xs @ [from_ifDescription (se_ifDescription e)]))
      else append_local P cookie cap es xs)"

text \<open>
  The list elements a response of \<open>ret_val\<close> elements left in the buffer; where it brought none,
  they are the bytes of the request.
\<close>

definition received_interfaces :: "env \<Rightarrow> Job \<Rightarrow> SFNDInterfaceDescription list" where
  "received_interfaces E job =
     (let xs = (case j_out job of OutInterfaces l \<Rightarrow> l | _ \<Rightarrow> [])
      in map (\<lambda>i. if i < length xs then xs ! i else e_image_list E (j_req job) i) [0..<nat (j_ret_val job)])"

text \<open>
  The finished list of a job with a buffer of \<open>cap\<close> bytes. \<open>None\<close> also covers a list longer than
  the buffer, which the response is copied from.
\<close>

definition finished_list :: "env \<Rightarrow> (ServerListEntry \<Rightarrow> bool) \<Rightarrow> Job \<Rightarrow> broker \<Rightarrow> Job option" where
  "finished_list E P job b =
     (let cap = max (j_sbytes job) (j_rbytes job)
      in case append_local P (sint (j_cookie job)) cap (sl_entries (mConnectedServers b))
                (received_interfaces E job) of
           None \<Rightarrow> None
         | Some (Inl _) \<Rightarrow> Some (job\<lparr>j_status := EINVAL, j_rbytes := 0\<rparr>)
         | Some (Inr xs) \<Rightarrow>
             (if cap < length xs * ifd_size then None
              else Some (job\<lparr>j_out := OutInterfaces xs, j_rbytes := length xs * ifd_size,
                             j_ret_val := - int (length xs)\<rparr>)))"

subsection \<open>The extended attach\<close>

definition handleMasterServerAvailable :: "env \<Rightarrow> u32 \<Rightarrow> broker \<Rightarrow> broker" where
  "handleMasterServerAvailable E poolID b = triggerPool E ServerConnect poolID b"

text \<open>
  A server was found at the master. A job without connection (asynchronous mode creates such)
  fails the assertion of \<open>getClientSpecificData\<close>; triggering the pool may remove its entry, and
  then the position no longer exists.
\<close>

definition monitor_server :: "SPartyID \<Rightarrow> nat \<Rightarrow> u32 \<Rightarrow> broker \<Rightarrow> broker option" where
  "monitor_server serverID poolPos poolID b =
     (let (_, b1) = move_notifications ServerDisconnect ServerConnect poolID b;
          (_, b2) = setType ServerDisconnect poolID serverID b1
      in if poolPos < length (np_entries (mMasterNotificationPool b2)) then
           Some (set_pool poolPos (\<lambda>e. fst (np_setState_server serverID e)) b2)
         else None)"

definition attach_extended_found ::
    "env \<Rightarrow> Job \<Rightarrow> SConnectionInfo \<Rightarrow> nat \<Rightarrow> u32 \<Rightarrow> broker \<Rightarrow> (SConnectionInfo \<times> broker) option" where
  "attach_extended_found E job connInfo poolPos poolID b =
     (case j_ctx job of
        None \<Rightarrow> None
      | Some c \<Rightarrow>
          (let (clientID, b1) =
                 (if \<not> mAsyncMode b then addClient c (ci_clientID connInfo) (ci_serverID connInfo) b
                  else (ci_clientID connInfo,
                        handleMasterServerAvailable E poolID
                          (ocb_update c (addClient_ocb (ci_clientID connInfo)) b)))
           in map_option (\<lambda>b2. (connInfo\<lparr>ci_clientID := clientID\<rparr>, b2))
                (monitor_server (ci_serverID connInfo) poolPos poolID b1)))"

text \<open>The consistency checks of \<open>handleJobFinishedAttachExtended\<close>: the notification and its pool position.\<close>

definition attach_extended_lookup :: "Job \<Rightarrow> broker \<Rightarrow> (u32 \<times> Notification \<times> nat) option" where
  "attach_extended_lookup job b =
     (case mPendingAttachExtendedJobs b (j_cookie job) of
        None \<Rightarrow> None
      | Some mainID \<Rightarrow>
          (case find_notification ServerConnect mainID b of
             None \<Rightarrow> None
           | Some n \<Rightarrow>
               (let pos = np_find_id (mMasterNotificationPool b) (n_poolID n)
                in if pos = - 1 then None
                   else if np_state (pool_at b (nat pos)) \<noteq> STATE_DEFERRED
                        \<and> np_state (pool_at b (nat pos)) \<noteq> STATE_PRECACHING then None
                   else Some (mainID, n, nat pos))))"

definition attach_extended_answer ::
    "env \<Rightarrow> Job \<Rightarrow> SConnectionInfo \<Rightarrow> u32 \<Rightarrow> u32 \<times> Notification \<times> nat \<Rightarrow> broker \<Rightarrow> (Job \<times> broker) option" where
  "attach_extended_answer E job connInfo masterID found b =
     (let (mainID, n, pos) = found;
          poolID = n_poolID n;
          poolState = np_state (pool_at b pos);
          b1 = set_pool pos (\<lambda>e. e\<lparr>np_notificationID := masterID\<rparr>) b;
          (count, b2) = setMasterNotificationID ServerConnect masterID poolID b1
      in if poolState = STATE_DEFERRED \<and> count = 0 then
           Some (job\<lparr>j_status := status_code FNDInternalError, j_out := OutAttachExtended connInfo mainID\<rparr>, b2)
         else if c_chid (ci_channel connInfo) \<noteq> 0 then
           (case attach_extended_found E job connInfo pos poolID b2 of
              None \<Rightarrow> None
            | Some (ci, b3) \<Rightarrow> Some (job\<lparr>j_status := 0, j_out := OutAttachExtended ci mainID\<rparr>, b3))
         else
           Some (job\<lparr>j_status := 0, j_out := OutAttachExtended connInfo mainID\<rparr>,
                 set_pool pos (\<lambda>e. fst (np_setState STATE_CONNECTING e)) b2))"

text \<open>The connection information and notification id the code reads from the job's buffer.\<close>

definition out_attach :: "env \<Rightarrow> Job \<Rightarrow> SConnectionInfo \<times> u32" where
  "out_attach E job =
     (case j_out job of
        OutAttachExtended ci i \<Rightarrow> (ci, i)
      | _ \<Rightarrow>
          (let w = e_image E (j_req job)
           in (\<lparr>ci_version = \<lparr>v_major = ucast (w 0), v_minor = ucast (drop_bit 16 (w 0))\<rparr>,
                ci_channel = \<lparr>c_nid = w 1, c_pid = w 2, c_chid = w 3\<rparr>,
                ci_serverID = image_party E job 4, ci_clientID = image_party E job 6\<rparr>, w 8)))"

definition handleJobFinishedAttachExtended :: "env \<Rightarrow> Job \<Rightarrow> broker \<Rightarrow> (Job \<times> broker) option" where
  "handleJobFinishedAttachExtended E job b =
     (let erase = (\<lambda>b1. b1\<lparr>mPendingAttachExtendedJobs := (mPendingAttachExtendedJobs b1)(j_cookie job := None)\<rparr>);
          (connInfo, masterID) = out_attach E job
      in case attach_extended_lookup job b of
           None \<Rightarrow> Some (job\<lparr>j_status := status_code FNDInternalError\<rparr>, erase b)
         | Some found \<Rightarrow>
             (case attach_extended_answer E job connInfo masterID found b of
                None \<Rightarrow> None
              | Some (job1, b1) \<Rightarrow> Some (job1, erase b1)))"

subsection \<open>The dispatcher of finished jobs\<close>

definition finish_job :: "env \<Rightarrow> Job \<Rightarrow> broker \<Rightarrow> (Job \<times> broker) option" where
  "finish_job E job b =
     (if j_status job = 0 then
        (case j_req job of
           ATTACH_INTERFACE _ \<Rightarrow>
             (if j_has_arg job then map_option (\<lambda>b1. (job, b1)) (finished_attach E job b) else Some (job, b))
         | ATTACH_INTERFACE_EXTENDED _ _ \<Rightarrow>
             (if j_has_arg job then handleJobFinishedAttachExtended E job b else Some (job, b))
         | GET_SERVER_INFORMATION _ \<Rightarrow>
             Some (if j_has_arg job then finished_server_information job b
                   else (job\<lparr>j_status := status_code FNDInternalError\<rparr>, b))
         | NOTIFY_SERVER_AVAILABLE_EX _ _ \<Rightarrow>
             Some (job, if j_has_arg job then finished_available E job 0 (nat (sint (j_cookie job))) b else b)
         | NOTIFY_SERVER_DISCONNECT _ _ \<Rightarrow>
             Some (job, if j_has_arg job then record_pool_notification (j_cookie job) (out_notificationID E job) b else b)
         | NOTIFY_CLIENT_DETACH _ _ \<Rightarrow>
             Some (job, if j_has_arg job then record_notification ClientDetach (j_cookie job) (out_notificationID E job) b else b)
         | NOTIFY_INTERFACELIST_CHANGE _ \<Rightarrow>
             Some (job, if j_has_arg job then record_notification ServerListChange (j_cookie job) (out_notificationID E job) b else b)
         | NOTIFY_INTERFACELIST_MATCH _ _ \<Rightarrow>
             Some (job, if j_has_arg job then record_notification ServerListChange (j_cookie job) (out_notificationID E job) b else b)
         | REGISTER_MASTER_INTERFACE_EX _ _ \<Rightarrow>
             Some (job, if j_has_arg job then finished_register E job 0 (nat (sint (j_cookie job))) b else b)
         | GET_INTERFACELIST _ \<Rightarrow>
             (if j_has_arg job then
                map_option (\<lambda>j. (j, b)) (finished_list E (local_only (mConfig b)) job b)
              else Some (job, b))
         | MATCH_INTERFACELIST _ _ \<Rightarrow>
             (if j_has_arg job then
                map_option (\<lambda>j. (j, b))
                  (finished_list E (\<lambda>e. local_only (mConfig b) e
                     \<and> (case j_regex job of Some r \<Rightarrow> e_regexec E r (se_name e) | None \<Rightarrow> False)) job b)
              else Some (job, b))
         | _ \<Rightarrow> Some (job, b))
      else Some (job, b))"

text \<open>\<open>Job::finalize\<close>: the deferred response of a job that has a connection.\<close>

definition finalize :: "Job \<Rightarrow> (nat \<times> nat \<times> int \<times> job_out option) option" where
  "finalize job =
     (case j_ctx job of
        None \<Rightarrow> None
      | Some c \<Rightarrow>
          (let (size, ret, payload) = deferred_frame (j_status job) (j_ret_val job) (j_rbytes job)
           in Some (c, size, ret, if payload then Some (j_out job) else None)))"

text \<open>The whole handler: the broker and the deferred response, if the job has a connection.\<close>

definition handleJobFinished ::
    "env \<Rightarrow> Job \<Rightarrow> broker \<Rightarrow> (broker \<times> (nat \<times> nat \<times> int \<times> job_out option) option) option" where
  "handleJobFinished E job b = map_option (\<lambda>(j, b1). (b1, finalize j)) (finish_job E job b)"

section \<open>The connection to the master\<close>

definition handleMasterConnected :: "broker \<Rightarrow> broker" where
  "handleMasterConnected b = forwardServerAvailableNotifications (registerInterfacesMaster b)"

definition handleMasterDisconnected :: "env \<Rightarrow> broker \<Rightarrow> broker" where
  "handleMasterDisconnected E b =
     (let b1 = b\<lparr>mConnectedServers := sl_clearMasterIDs (mConnectedServers b),
                 mMasterNotificationPool := np_clear (mMasterNotificationPool b),
                 mPendingRemoteServersRequests := Map.empty,
                 mPendingAttachExtendedJobs := Map.empty\<rparr>;
          b2 = trigger_if E ServerDisconnect
                 (\<lambda>n. n_active n \<and> mExtendedID b1 \<noteq> extendedID (n_partyID n)
                    \<and> sl_find_id (mConnectedServers b1) (n_partyID n) = None) b1;
          b3 = triggerNotLocal E ClientDetach (mExtendedID b2) b2
      in clearMasterNotification ServerConnect b3)"

definition handleMasterServerDisconnect :: "env \<Rightarrow> u32 \<Rightarrow> broker \<Rightarrow> broker" where
  "handleMasterServerDisconnect E poolID b = triggerPool E ServerDisconnect poolID b"

definition handleMasterClientDetach :: "env \<Rightarrow> u32 \<Rightarrow> broker \<Rightarrow> broker" where
  "handleMasterClientDetach E notificationId b =
     (case find_notification ClientDetach notificationId b of
        Some n \<Rightarrow> trigger_party E ClientDetach (n_partyID n) b
      | None \<Rightarrow> trigger_id E ClientDetach notificationId True b)"

definition handleMasterServerlistChange :: "env \<Rightarrow> u32 \<Rightarrow> broker \<Rightarrow> broker" where
  "handleMasterServerlistChange E notificationId b = trigger_id E ServerListChange notificationId False b"

text \<open>The second request of the asynchronous mode needs the interface of the pool (\<open>None\<close>: null pointer).\<close>

definition attach_again :: "nat \<Rightarrow> u32 \<Rightarrow> broker \<Rightarrow> broker option" where
  "attach_again pos poolID b =
     (case np_getInterfaceDescription (pool_at b pos) of
        None \<Rightarrow> None
      | Some d \<Rightarrow>
          Some (master_eval
            (Job_create None (of_nat pos)
               (ATTACH_INTERFACE_EXTENDED (master_pulse b PULSE_MASTER_ATTACH_EXTENDED poolID)
                  (from_ifDescription d)) 280 40) b))"

definition handleMasterAttachExtended :: "env \<Rightarrow> u32 \<Rightarrow> broker \<Rightarrow> broker option" where
  "handleMasterAttachExtended E poolID b =
     (let pos = np_find_id (mMasterNotificationPool b) poolID
      in if pos = - 1 then Some b
         else if np_state (pool_at b (nat pos)) = STATE_MONITOR_DISCONNECT then
           Some (handleMasterServerDisconnect E poolID b)
         else if np_state (pool_at b (nat pos)) = STATE_CONNECTING then
           (let b1 = set_pool (nat pos) (\<lambda>e. fst (np_setState STATE_CONNECTED e)) b
            in if mAsyncMode b1 then attach_again (nat pos) poolID b1
               else Some (handleMasterServerAvailable E poolID b1))
         else Some b)"

section \<open>Dispatch\<close>

text \<open>The pulses of the event loop; the value of \<open>PULSE_JOB_EXECUTED\<close> is the job it points to.\<close>

definition dispatch_pulse ::
    "env \<Rightarrow> u32 \<Rightarrow> u32 \<Rightarrow> Job option \<Rightarrow> broker
       \<Rightarrow> (broker \<times> (nat \<times> nat \<times> int \<times> job_out option) option) option" where
  "dispatch_pulse E code value job b =
     (if code = PULSE_JOB_EXECUTED then
        (case job of
           None \<Rightarrow> Some (b, None)
         | Some j \<Rightarrow> handleJobFinished E j b)
      else if code = PULSE_MASTER_CONNECTED then Some (handleMasterConnected b, None)
      else if code = PULSE_MASTER_DISCONNECTED then Some (handleMasterDisconnected E b, None)
      else if code = PULSE_MASTER_SERVER_AVAILABLE then Some (handleMasterServerAvailable E value b, None)
      else if code = PULSE_MASTER_SERVER_DISCONNECT then Some (handleMasterServerDisconnect E value b, None)
      else if code = PULSE_MASTER_CLIENT_DETACH then Some (handleMasterClientDetach E value b, None)
      else if code = PULSE_MASTER_SERVERLIST_CHANGE then Some (handleMasterServerlistChange E value b, None)
      else if code = PULSE_MASTER_ATTACH_EXTENDED then
        map_option (\<lambda>b1. (b1, None)) (handleMasterAttachExtended E value b)
      else Some (b, None))"

text \<open>The receive buffer is a union, as large as its largest member.\<close>

definition rcvBuffer_size :: nat where
  "rcvBuffer_size = 288"

text \<open>The length test of each command on the bytes read.\<close>

fun length_ok :: "request \<Rightarrow> int \<Rightarrow> bool" where
  "length_ok (REGISTER_INTERFACE_EX a b c d) nBytes = (int (arg_size (REGISTER_INTERFACE_EX a b c d)) < nBytes)"
| "length_ok (NOTIFY_SERVER_AVAILABLE_EX a b) nBytes = (int (arg_size (NOTIFY_SERVER_AVAILABLE_EX a b)) \<le> nBytes)"
| "length_ok (REGISTER_MASTER_INTERFACE_EX a b) nBytes = (int (arg_size (REGISTER_MASTER_INTERFACE_EX a b)) \<le> nBytes)"
| "length_ok (MASTER_PING_ID a) nBytes = (int (arg_size (MASTER_PING_ID a)) \<le> nBytes)"
| "length_ok (GET_INTERFACELIST a) nBytes = True"
| "length_ok (MATCH_INTERFACELIST a b) nBytes = True"
| "length_ok r nBytes = (nBytes = int (arg_size r))"

text \<open>The handler of each command.\<close>

fun handle_request :: "env \<Rightarrow> nat \<Rightarrow> request \<Rightarrow> broker \<Rightarrow> message \<Rightarrow> broker \<times> message" where
  "handle_request E c (REGISTER_INTERFACE ifd chid pid) b m = handleRegisterInterface E c ifd chid pid b m"
| "handle_request E c (REGISTER_INTERFACE_EX chid pid n ifds) b m = handleRegisterInterfaceEx E c chid pid n ifds b m"
| "handle_request E c (REGISTER_INTERFACE_GROUPID ifd chid pid g) b m = handleRegisterInterfaceGroupID E c ifd chid pid g b m"
| "handle_request E c (UNREGISTER_INTERFACE s) b m = handleUnregisterInterface E c s b m"
| "handle_request E c (ATTACH_INTERFACE ifd) b m = handleAttachInterface E c ifd b m"
| "handle_request E c (ATTACH_INTERFACE_EXTENDED p ifd) b m = handleAttachInterfaceExtended E c p ifd b m"
| "handle_request E c (GET_SERVER_INFORMATION ifd) b m = handleGetServerInformation c ifd b m"
| "handle_request E c (DETACH_INTERFACE i) b m = handleDetachInterface E c i b m"
| "handle_request E c (NOTIFY_SERVER_DISCONNECT s p) b m = handleNotifyServerDisconnect E c s p b m"
| "handle_request E c (NOTIFY_SERVER_AVAILABLE p ifd) b m = handleNotifyServerAvailable E c p ifd b m"
| "handle_request E c (NOTIFY_SERVER_AVAILABLE_EX n nds) b m = handleNotifyServerAvailableEx E c n nds b m"
| "handle_request E c (NOTIFY_CLIENT_DETACH i p) b m = handleNotifyClientDetach E c i p b m"
| "handle_request E c (CLEAR_NOTIFICATION i) b m = handleClearNofification c i b m"
| "handle_request E c (REGISTER_MASTER_INTERFACE_EX n dxs) b m = handleRegisterMasterInterface E c n dxs b m"
| "handle_request E c (GET_INTERFACELIST n) b m = handleGetInterfaceList c n b m"
| "handle_request E c (NOTIFY_INTERFACELIST_CHANGE p) b m = handleNotifyInterfaceListChange E c p b m"
| "handle_request E c (MATCH_INTERFACELIST n r) b m = handleMatchInterfaceList E c n r b m"
| "handle_request E c (NOTIFY_INTERFACELIST_MATCH p r) b m = handleNotifyInterfaceListMatch E c p r b m"
| "handle_request E c (MASTER_PING_ID i) b m = handleMasterPingId c i b m"
| "handle_request E c MASTER_PING b m = (b, m)"
| "handle_request E c (OTHER_COMMAND d) b m = (b, m)"

text \<open>
  \<open>dispatch(cmd, context, data)\<close> of a request of \<open>fr_size\<close> bytes whose first field is the version
  \<open>v\<close>: whether the command is known, the broker and the context.
\<close>

definition dispatch ::
    "env \<Rightarrow> nat \<Rightarrow> request \<Rightarrow> SFNDInterfaceVersion \<Rightarrow> nat \<Rightarrow> broker \<Rightarrow> message \<Rightarrow> bool \<times> broker \<times> message" where
  "dispatch E c req v fr_size b m =
     (case req of
        MASTER_PING \<Rightarrow> (True, set_slave c b, prepareResponse (status_code FNDOK) True m)
      | OTHER_COMMAND _ \<Rightarrow> (False, b, prepareResponse (status_code FNDInternalError) True m)
      | _ \<Rightarrow>
          (let (nBytes, m1) = readData fr_size rcvBuffer_size m
           in if 0 \<le> nBytes then
                (if 4 \<le> nBytes \<and> check_version v then
                   (let (b1, m2) = (if length_ok req nBytes then handle_request E c req b m1 else (b, m1))
                    in if m_state m2 = State_SENT \<or> m_state m2 = State_DEFERRED then (True, b1, m2)
                       else (True, b1, prepareResponse (status_code FNDInternalError) True m2))
                 else (True, b, prepareResponse (status_code FNDBadFoundationVersion) True m1))
              else (True, b, prepareResponse (status_code FNDInternalError) True m1)))"

end
