(* ===== verification/Broker_Frame.thy ===== *)
theory Broker_Frame
  imports Broker_Master
begin

text \<open>
  Frame rules. \<open>core\<close> collects the parts of the broker that sending, triggering, adding and
  destroying notifications and forwarding work to the master never touch: the server table, the
  attached clients, the id counters and the configuration. Every operation of
  \<^verbatim>\<open>NotificationList\<close> is shown to keep it, and the fields are then rewritten by \<open>simp\<close>.
\<close>

section \<open>The part of the state notifications do not touch\<close>

definition core :: "broker \<Rightarrow> broker" where
  "core b = b\<lparr>mNotifications := (\<lambda>_. \<lparr>nl_list = [], nl_total = 0\<rparr>),
     mMasterNotificationPool := empty_NotificationPool, sNextNotificationID := 0, sCurrentCounter := 0,
     sTotalCounter := 0, sNextPoolID := 0, mQueue := [], mChannels := empty_pcm,
     mConnections := (\<lambda>c. (mConnections b c)\<lparr>cx_data := (ocb b c)\<lparr>mNotificationList := []\<rparr>\<rparr>)\<rparr>"

lemma core_connection:
  assumes "core b = core b'"
  shows "(mConnections b c)\<lparr>cx_data := (ocb b c)\<lparr>mNotificationList := []\<rparr>\<rparr>
    = (mConnections b' c)\<lparr>cx_data := (ocb b' c)\<lparr>mNotificationList := []\<rparr>\<rparr>"
  using arg_cong [OF assms, of "\<lambda>x. mConnections x c"] by (simp add: core_def)

lemma core_eq_fields:
  assumes "core b = core b'"
  shows "mConnectedServers b = mConnectedServers b'"
    and "mPendingRemoteServersRequests b = mPendingRemoteServersRequests b'"
    and "mAttachedClients b = mAttachedClients b'"
    and "mPendingAttachExtendedJobs b = mPendingAttachExtendedJobs b'"
    and "mNextClientID b = mNextClientID b'"
    and "mNextServerID b = mNextServerID b'"
    and "mNextPendingRemoteServerRequestID b = mNextPendingRemoteServerRequestID b'"
    and "mExtendedID b = mExtendedID b'"
    and "mConfig b = mConfig b'"
    and "mUseServerCache b = mUseServerCache b'"
    and "mAsyncMode b = mAsyncMode b'"
    and "mAster b = mAster b'"
    and "mSigAddr b = mSigAddr b'"
    and "sNextServerEntryID b = sNextServerEntryID b'"
  using assms unfolding core_def by (cases b; cases b'; simp)+

lemma core_eq_connections:
  assumes "core b = core b'"
  shows "mServerList (ocb b c) = mServerList (ocb b' c)"
    and "mClientList (ocb b c) = mClientList (ocb b' c)"
    and "ocb_extendedID (ocb b c) = ocb_extendedID (ocb b' c)"
    and "cx_id (mConnections b c) = cx_id (mConnections b' c)"
    and "cx_slave (mConnections b c) = cx_slave (mConnections b' c)"
    and "cx_uid (mConnections b c) = cx_uid (mConnections b' c)"
    and "cx_nodeAddress (mConnections b c) = cx_nodeAddress (mConnections b' c)"
    and "cx_localAddress (mConnections b c) = cx_localAddress (mConnections b' c)"
    and "ctx_isLocal (mConnections b c) = ctx_isLocal (mConnections b' c)"
  using core_connection [OF assms, of c] unfolding ocb_def ctx_isLocal_def
  by (cases "mConnections b c"; cases "mConnections b' c"; cases "cx_data (mConnections b c)";
      cases "cx_data (mConnections b' c)"; simp)+

lemma core_eq_master:
  assumes "core b = core b'"
  shows "isMasterConnected b = isMasterConnected b'" and "isMaster b = isMaster b'"
  using core_eq_fields [OF assms] by (simp_all add: isMasterConnected_def isMaster_def)

lemmas coreD = core_eq_fields core_eq_connections core_eq_master

section \<open>Rewriting state accesses\<close>

lemma ocb_of_update [simp]: "ocb (ocb_update c f b) c' = (if c' = c then f (ocb b c) else ocb b c')"
  by (simp add: ocb_def ocb_update_def)

lemma ocb_cong: "mConnections b = mConnections b' \<Longrightarrow> ocb b = ocb b'"
  by (simp add: ocb_def fun_eq_iff)

lemma notifs_of_set [simp]:
  "notifs k (set_notifs k' ns b) = (if k = k' then ns else notifs k b)"
  by (simp add: notifs_def set_notifs_def)

lemma notifs_of_add_total [simp]: "notifs k (add_total k' d b) = notifs k b"
  by (simp add: notifs_def add_total_def)

lemma core_basic [sb_frame]:
  "core (set_notifs k ns b) = core b"
  "core (add_total k d b) = core b"
  "core (master_eval j b) = core b"
  "core (b\<lparr>sCurrentCounter := x\<rparr>) = core b"
  "core (b\<lparr>sNextNotificationID := x\<rparr>) = core b"
  "core (b\<lparr>sTotalCounter := x\<rparr>) = core b"
  "core (b\<lparr>mChannels := ch\<rparr>) = core b"
  "core (b\<lparr>mQueue := q\<rparr>) = core b"
  "core (b\<lparr>mMasterNotificationPool := p\<rparr>) = core b"
  "core (b\<lparr>sNextPoolID := y\<rparr>) = core b"
  by (simp_all add: core_def set_notifs_def add_total_def master_eval_def ocb_def)

lemma core_ocb_update [sb_frame]:
  "(\<And>d. (f d)\<lparr>mNotificationList := []\<rparr> = d\<lparr>mNotificationList := []\<rparr>) \<Longrightarrow> core (ocb_update c f b) = core b"
  by (simp add: core_def ocb_def ocb_update_def fun_eq_iff)

lemma core_addNotification [sb_frame]: "core (ocb_update c (addNotification i) b) = core b"
  by (rule core_ocb_update) (simp add: addNotification_def)

lemma core_removeNotification [sb_frame]: "core (ocb_update c (removeNotification i) b) = core b"
  by (rule core_ocb_update) (simp add: removeNotification_def)

section \<open>Operations on notifications keep the core\<close>

lemma core_createClear [sb_frame]: "core (createClearNotificationJob i b) = core b"
  by (simp add: createClearNotificationJob_def sb_frame)

lemma core_pool_detach [sb_frame]: "core (pool_detach pos b) = core b"
  by (auto simp: pool_detach_def sb_frame split: prod.splits option.splits)

lemma core_destroy [sb_frame]: "core (destroy_Notification n b) = core b"
  by (simp add: destroy_Notification_def Let_def sb_frame split: option.splits)

lemma core_doConnect [sb_frame]: "core (snd (snd (doConnect E n b))) = core b"
  by (simp add: doConnect_def Let_def case_prod_beta sb_frame)

lemma core_send [sb_frame]: "core (snd (notification_send E n b)) = core b"
  by (simp add: notification_send_def send_pulse_def Let_def case_prod_beta sb_frame)

lemma core_notification_connect [sb_frame]: "core (snd (snd (notification_connect E ctx p n b))) = core b"
  by (simp add: notification_connect_def Let_def sb_frame)

lemma core_trigger_loop [sb_frame]: "core (snd (trigger_loop E P ns b)) = core b"
  by (induction ns arbitrary: b) (simp_all add: sb_frame Let_def case_prod_beta)

lemma core_trigger_if_loop [sb_frame]: "core (snd (trigger_if_loop E d g ns b)) = core b"
  by (induction ns arbitrary: b) (simp_all add: sb_frame Let_def case_prod_beta)

lemma core_trigger_id_loop [sb_frame]: "core (snd (trigger_id_loop E i r ns b)) = core b"
  by (induction ns arbitrary: b) (simp_all add: sb_frame Let_def case_prod_beta)

lemma core_send_loop [sb_frame]: "core (snd (send_loop E P ns b)) = core b"
  by (induction ns arbitrary: b) (simp_all add: sb_frame Let_def case_prod_beta)

lemma core_remove_ids_loop [sb_frame]: "core (snd (remove_ids_loop c ns b)) = core b"
  by (induction ns arbitrary: b) (simp_all add: sb_frame Let_def case_prod_beta)

lemma core_triggers [sb_frame]:
  "core (trigger_if E k P b) = core b"
  "core (trigger_party E k i b) = core b"
  "core (trigger_parties E k ids b) = core b"
  "core (triggerPool E k poolID b) = core b"
  "core (triggerNotLocal E k ext b) = core b"
  "core (triggerLocal E k ext b) = core b"
  "core (trigger_interface E k d g b) = core b"
  "core (trigger_id E k j r b) = core b"
  "core (triggerAll E k b) = core b"
  "core (triggerAll_interface E k d b) = core b"
  by (simp_all add: trigger_if_def trigger_party_def trigger_parties_def triggerPool_def triggerNotLocal_def
      triggerLocal_def trigger_interface_def trigger_id_def triggerAll_def triggerAll_interface_def
      Let_def case_prod_beta sb_frame)

lemma core_new_copy [sb_frame]:
  "core (snd (new_Notification b)) = core b"
  "core (snd (snd (copy_Notification n b))) = core b"
  by (simp_all add: new_Notification_def copy_Notification_def sb_frame)

lemma core_push_notification [sb_frame]: "core (snd (push_notification E k ctx p f n b)) = core b"
proof -
  obtain ok n1 b1 where c: "notification_connect E ctx p n b = (ok, n1, b1)" by (cases "notification_connect E ctx p n b")
  then have "core b1 = core b" using core_notification_connect [of E ctx p n b] by simp
  then show ?thesis
    by (cases ok) (simp_all add: push_notification_def c Let_def case_prod_beta sb_frame)
qed

lemma core_adds [sb_frame]:
  "core (snd (add_notification E k ctx p b)) = core b"
  "core (snd (add_regexp E k r ctx p b)) = core b"
  "core (snd (add_party E k h party ctx p b)) = core b"
  "core (snd (add_interface E k h d ctx p loc uid b)) = core b"
  by (simp_all add: add_notification_def add_regexp_def add_party_def add_interface_def
      Let_def case_prod_beta sb_frame)

lemma core_list_ops [sb_frame]:
  "core (update_notification k i f b) = core b"
  "core (remove_notification k i b) = core b"
  "core (remove_ids k c b) = core b"
  "core (clearMasterNotification k b) = core b"
  "core (snd (setMasterNotificationID k m p b)) = core b"
  "core (snd (setType k p party b)) = core b"
  by (simp_all add: update_notification_def remove_notification_def remove_ids_def clearMasterNotification_def
      setMasterNotificationID_def setType_def Let_def case_prod_beta sb_frame split: option.splits)

lemma core_move_loop [sb_frame]: "core (snd (snd (move_loop to from p ns b))) = core b"
  by (induction ns arbitrary: b) (auto simp: add_existing_def sb_frame Let_def case_prod_beta)

lemma core_move [sb_frame]: "core (snd (move_notifications to from p b)) = core b"
  by (simp add: move_notifications_def Let_def case_prod_beta sb_frame)

section \<open>Helpers of the handlers\<close>

lemma core_pool_ops [sb_frame]:
  "core (snd (pool_add_if d def b)) = core b"
  "core (snd (pool_add_server s b)) = core b"
  "core (pool_attach pos k i b) = core b"
  "core (set_pool pos f b) = core b"
  by (simp_all add: pool_add_if_def pool_add_server_def pool_attach_def set_pool_def Let_def case_prod_beta
      np_add_if_def np_add_server_def sb_frame)

lemma core_available_loop [sb_frame]: "core (snd (available_loop ns batch b)) = core b"
  by (induction ns arbitrary: batch b) (simp_all add: Let_def case_prod_beta sb_frame)

lemma core_forward [sb_frame]:
  "core (forwardServerAvailableNotifications b) = core b"
  "core (announce_or_forward E d loc av b) = core b"
  "core (watch_remote_server s i b) = core b"
  "core (send_found E k j b) = core b"
  by (simp_all add: forwardServerAvailableNotifications_def announce_or_forward_def watch_remote_server_def
      send_found_def Let_def case_prod_beta sb_frame split: option.splits)

lemma core_notify_handlers [sb_frame]:
  "core (snd (handleNotifyServerDisconnectNoResponse E c s p b)) = core b"
  "core (snd (handleNotifyServerAvailableNoResponse E c p ifd b)) = core b"
  by (simp_all add: handleNotifyServerDisconnectNoResponse_def handleNotifyServerAvailableNoResponse_def
      Let_def case_prod_beta sb_frame)

text \<open>The fields of the core as rewrite rules.\<close>

lemmas frame_destroy [simp] = coreD [OF core_destroy]
lemmas frame_send [simp] = coreD [OF core_send]
lemmas frame_triggers [simp] =
  coreD [OF core_triggers(1)] coreD [OF core_triggers(2)] coreD [OF core_triggers(3)]
  coreD [OF core_triggers(4)] coreD [OF core_triggers(5)] coreD [OF core_triggers(6)]
  coreD [OF core_triggers(7)] coreD [OF core_triggers(8)] coreD [OF core_triggers(9)]
  coreD [OF core_triggers(10)]
lemmas frame_adds [simp] =
  coreD [OF core_adds(1)] coreD [OF core_adds(2)] coreD [OF core_adds(3)] coreD [OF core_adds(4)]
lemmas frame_lists [simp] =
  coreD [OF core_list_ops(1)] coreD [OF core_list_ops(2)] coreD [OF core_list_ops(3)] coreD [OF core_list_ops(4)]
  coreD [OF core_list_ops(5)] coreD [OF core_list_ops(6)] coreD [OF core_move]
  coreD [OF core_basic(1)] coreD [OF core_basic(2)] coreD [OF core_basic(3)]
  coreD [OF core_addNotification] coreD [OF core_removeNotification] coreD [OF core_createClear]
lemmas frame_forward [simp] =
  coreD [OF core_pool_ops(1)] coreD [OF core_pool_ops(2)] coreD [OF core_pool_ops(3)] coreD [OF core_pool_ops(4)]
  coreD [OF core_forward(1)] coreD [OF core_forward(2)] coreD [OF core_forward(3)] coreD [OF core_forward(4)]
  coreD [OF core_notify_handlers(1)] coreD [OF core_notify_handlers(2)]

text \<open>The other updates, field by field.\<close>

lemma ocb_update_fields [simp]:
  "mConnectedServers (ocb_update c f b) = mConnectedServers b"
  "mAttachedClients (ocb_update c f b) = mAttachedClients b"
  "mNotifications (ocb_update c f b) = mNotifications b"
  "notifs k (ocb_update c f b) = notifs k b"
  "mMasterNotificationPool (ocb_update c f b) = mMasterNotificationPool b"
  "mQueue (ocb_update c f b) = mQueue b"
  "mConfig (ocb_update c f b) = mConfig b"
  "mExtendedID (ocb_update c f b) = mExtendedID b"
  "mNextServerID (ocb_update c f b) = mNextServerID b"
  "mUseServerCache (ocb_update c f b) = mUseServerCache b"
  "mAsyncMode (ocb_update c f b) = mAsyncMode b"
  "sCurrentCounter (ocb_update c f b) = sCurrentCounter b"
  "mChannels (ocb_update c f b) = mChannels b"
  "isMasterConnected (ocb_update c f b) = isMasterConnected b"
  "cx_uid (mConnections (ocb_update c f b) c') = cx_uid (mConnections b c')"
  "cx_slave (mConnections (ocb_update c f b) c') = cx_slave (mConnections b c')"
  "cx_nodeAddress (mConnections (ocb_update c f b) c') = cx_nodeAddress (mConnections b c')"
  by (simp_all add: ocb_update_def isMasterConnected_def notifs_def)

lemma set_servers_fields [simp]:
  "mConnectedServers (set_servers sl b) = sl"
  "mAttachedClients (set_servers sl b) = mAttachedClients b"
  "mNotifications (set_servers sl b) = mNotifications b"
  "notifs k (set_servers sl b) = notifs k b"
  "mMasterNotificationPool (set_servers sl b) = mMasterNotificationPool b"
  "mQueue (set_servers sl b) = mQueue b"
  "mConfig (set_servers sl b) = mConfig b"
  "mExtendedID (set_servers sl b) = mExtendedID b"
  "mNextServerID (set_servers sl b) = mNextServerID b"
  "mUseServerCache (set_servers sl b) = mUseServerCache b"
  "mAsyncMode (set_servers sl b) = mAsyncMode b"
  "mConnections (set_servers sl b) = mConnections b"
  "sCurrentCounter (set_servers sl b) = sCurrentCounter b"
  "mChannels (set_servers sl b) = mChannels b"
  "ocb (set_servers sl b) = ocb b"
  "isMasterConnected (set_servers sl b) = isMasterConnected b"
  by (simp_all add: set_servers_def isMasterConnected_def notifs_def ocb_def fun_eq_iff)

lemma master_eval_fields [simp]:
  "mNotifications (master_eval j b) = mNotifications b"
  "notifs k (master_eval j b) = notifs k b"
  "mMasterNotificationPool (master_eval j b) = mMasterNotificationPool b"
  "mQueue (master_eval j b) = mQueue b @ [j]"
  "mConnections (master_eval j b) = mConnections b"
  "sCurrentCounter (master_eval j b) = sCurrentCounter b"
  "mChannels (master_eval j b) = mChannels b"
  "ocb (master_eval j b) = ocb b"
  by (simp_all add: master_eval_def notifs_def ocb_def fun_eq_iff)

end
