(* ===== verification/Broker_Invariants.thy ===== *)
theory Broker_Invariants
  imports Broker_Frame "HOL-Library.Multiset"
begin

text \<open>
  The invariant of the broker: the server table is strictly ordered, the notification pool and
  the data of every connection are well formed, and the pulse channels and the object counter
  account exactly for the notifications that exist. It is proved for each operation from the
  constructor and destructor of a notification up to the request handlers, the pulses of the
  master and the closing of a connection.
\<close>

section \<open>Definitions\<close>

text \<open>
  \<open>live b C\<close>: \<open>C\<close> are the channel ids of all notification objects that exist. Every channel has
  as many references as objects use it and the static counter is the number of objects.
\<close>

definition live :: "broker \<Rightarrow> int multiset \<Rightarrow> bool" where
  "live b C \<longleftrightarrow> pcm_inv (mChannels b) \<and> (\<forall>fd \<ge> 0. refs (mChannels b) fd = int (count C fd))
     \<and> sCurrentCounter b = of_nat (size C)"

text \<open>The channel ids of the notifications of one list, of all lists, and of all lists but one.\<close>

definition coids_of :: "Notification list \<Rightarrow> int multiset" where
  "coids_of ns = mset (map n_coid ns)"

definition all_kinds :: "nkind list" where
  "all_kinds = [ServerDisconnect, ClientDetach, ServerConnect, ServerListChange]"

definition coids :: "broker \<Rightarrow> int multiset" where
  "coids b = sum_list (map (\<lambda>k. coids_of (notifs k b)) all_kinds)"

definition other_coids :: "nkind \<Rightarrow> broker \<Rightarrow> int multiset" where
  "other_coids k b = sum_list (map (\<lambda>k'. coids_of (notifs k' b)) (filter (\<lambda>k'. k' \<noteq> k) all_kinds))"

definition winv :: "broker \<Rightarrow> int multiset \<Rightarrow> bool" where
  "winv b C \<longleftrightarrow> sl_sorted (mConnectedServers b) \<and> pool_wf (mMasterNotificationPool b)
     \<and> (\<forall>c. ocb_wf (ocb b c)) \<and> live b C"

definition broker_inv :: "broker \<Rightarrow> bool" where
  "broker_inv b \<longleftrightarrow> winv b (coids b)"

definition env_ok :: "env \<Rightarrow> bool" where
  "env_ok E \<longleftrightarrow> fds_fresh (e_sockets E)"

section \<open>Accounting for notification objects\<close>

lemma notifs_upd [simp]:
  "notifs k (b\<lparr>mConnectedServers := x0\<rparr>) = notifs k b"
  "notifs k (b\<lparr>mPendingRemoteServersRequests := x1\<rparr>) = notifs k b"
  "notifs k (b\<lparr>mAttachedClients := x2\<rparr>) = notifs k b"
  "notifs k (b\<lparr>mMasterNotificationPool := x3\<rparr>) = notifs k b"
  "notifs k (b\<lparr>mPendingAttachExtendedJobs := x4\<rparr>) = notifs k b"
  "notifs k (b\<lparr>mNextClientID := x5\<rparr>) = notifs k b"
  "notifs k (b\<lparr>mNextServerID := x6\<rparr>) = notifs k b"
  "notifs k (b\<lparr>mNextPendingRemoteServerRequestID := x7\<rparr>) = notifs k b"
  "notifs k (b\<lparr>sNextNotificationID := x8\<rparr>) = notifs k b"
  "notifs k (b\<lparr>sCurrentCounter := x9\<rparr>) = notifs k b"
  "notifs k (b\<lparr>sTotalCounter := x10\<rparr>) = notifs k b"
  "notifs k (b\<lparr>sNextPoolID := x11\<rparr>) = notifs k b"
  "notifs k (b\<lparr>sNextServerEntryID := x12\<rparr>) = notifs k b"
  "notifs k (b\<lparr>mQueue := x13\<rparr>) = notifs k b"
  "notifs k (b\<lparr>mChannels := x14\<rparr>) = notifs k b"
  by (simp_all add: notifs_def)

lemma ocb_upd [simp]:
  "ocb (b\<lparr>mConnectedServers := x0\<rparr>) = ocb b"
  "ocb (b\<lparr>mPendingRemoteServersRequests := x1\<rparr>) = ocb b"
  "ocb (b\<lparr>mAttachedClients := x2\<rparr>) = ocb b"
  "ocb (b\<lparr>mMasterNotificationPool := x3\<rparr>) = ocb b"
  "ocb (b\<lparr>mPendingAttachExtendedJobs := x4\<rparr>) = ocb b"
  "ocb (b\<lparr>mNextClientID := x5\<rparr>) = ocb b"
  "ocb (b\<lparr>mNextServerID := x6\<rparr>) = ocb b"
  "ocb (b\<lparr>mNextPendingRemoteServerRequestID := x7\<rparr>) = ocb b"
  "ocb (b\<lparr>sNextNotificationID := x8\<rparr>) = ocb b"
  "ocb (b\<lparr>sCurrentCounter := x9\<rparr>) = ocb b"
  "ocb (b\<lparr>sTotalCounter := x10\<rparr>) = ocb b"
  "ocb (b\<lparr>sNextPoolID := x11\<rparr>) = ocb b"
  "ocb (b\<lparr>sNextServerEntryID := x12\<rparr>) = ocb b"
  "ocb (b\<lparr>mQueue := x13\<rparr>) = ocb b"
  "ocb (b\<lparr>mChannels := x14\<rparr>) = ocb b"
  "ocb (b\<lparr>mNotifications := x15\<rparr>) = ocb b"
  by (simp_all add: ocb_def fun_eq_iff)

lemma coids_of_simps [simp]:
  "coids_of [] = {#}"
  "coids_of (n # ns) = add_mset (n_coid n) (coids_of ns)"
  "coids_of (ns @ ms) = coids_of ns + coids_of ms"
  by (simp_all add: coids_of_def)

lemma coids_split: "coids b = coids_of (notifs k b) + other_coids k b"
  by (cases k) (simp_all add: coids_def other_coids_def all_kinds_def)

lemma other_coids_set [simp]: "other_coids k (set_notifs k ns b) = other_coids k b"
  by (cases k) (simp_all add: other_coids_def all_kinds_def)

lemma coids_set [simp]: "coids (set_notifs k ns b) = coids_of ns + other_coids k b"
  by (simp add: coids_split [of _ k])

lemma coids_notifs_cong: "(\<And>k. notifs k b' = notifs k b) \<Longrightarrow> coids b' = coids b"
  by (simp add: coids_def)

lemma live_cong:
  "live b C \<Longrightarrow> mChannels b' = mChannels b \<Longrightarrow> sCurrentCounter b' = sCurrentCounter b \<Longrightarrow> live b' C"
  by (simp add: live_def)

lemma live_detach:
  assumes "pcm_inv m" and "\<forall>fd \<ge> 0. refs m fd = int (count (add_mset x C) fd)" and "fd \<ge> 0"
  shows "refs (if x \<noteq> - 1 then pcm_detach x m else m) fd = int (count C fd)"
proof (cases "0 \<le> x")
  case True
  then have "0 < refs m x" using assms(2) by simp
  then have "refs (pcm_detach x m) = (refs m)(x := refs m x - 1)" by (rule pcm_detach_refs [OF assms(1)])
  then show ?thesis using assms(2,3) True by auto
next
  case False
  then have "find (\<lambda>c. pc_fd c = x) (mSockets m) = None"
    using assms(1) by (force simp: find_None_iff pcm_inv_def)
  then have "pcm_detach x m = m" by (simp add: pcm_detach_def)
  then show ?thesis using assms(2,3) False by auto
qed

text \<open>What the constructor, the copy constructor and the destructor do to the count.\<close>

lemma winv_new: "winv b C \<Longrightarrow> winv (snd (new_Notification b)) (add_mset (- 1) C)"
  by (simp add: winv_def live_def new_Notification_def ocb_def)

lemma winv_copy: "winv b C \<Longrightarrow> winv (snd (snd (copy_Notification n b))) (add_mset (- 1) C)"
  by (simp add: winv_def live_def copy_Notification_def ocb_def)

lemma copy_fields [simp]:
  "fst (copy_Notification n b) = n"
  "n_coid (fst (snd (copy_Notification n b))) = - 1"
  "n_notificationID (fst (snd (copy_Notification n b))) = n_notificationID n"
  "n_poolID (fst (snd (copy_Notification n b))) = 0"
  by (simp_all add: copy_Notification_def)

lemma pool_wf_clearJob [simp]:
  "mMasterNotificationPool (createClearNotificationJob i b) = mMasterNotificationPool b"
  "mChannels (createClearNotificationJob i b) = mChannels b"
  "sCurrentCounter (createClearNotificationJob i b) = sCurrentCounter b"
  "mConnections (createClearNotificationJob i b) = mConnections b"
  "notifs k (createClearNotificationJob i b) = notifs k b"
  by (simp_all add: createClearNotificationJob_def)

lemma pool_detach_fields [simp]:
  "mChannels (pool_detach pos b) = mChannels b"
  "sCurrentCounter (pool_detach pos b) = sCurrentCounter b"
  "mConnections (pool_detach pos b) = mConnections b"
  "notifs k (pool_detach pos b) = notifs k b"
  by (auto simp: pool_detach_def notifs_def split: prod.splits option.splits)
    (simp_all add: createClearNotificationJob_def master_eval_def)

lemma pool_detach_wf: "pool_wf (mMasterNotificationPool b) \<Longrightarrow> pool_wf (mMasterNotificationPool (pool_detach pos b))"
  using pool_wf_detach [of "mMasterNotificationPool b" pos]
  by (auto simp: pool_detach_def split: prod.splits option.splits)

lemma destroy_pool_wf:
  "pool_wf (mMasterNotificationPool b) \<Longrightarrow> pool_wf (mMasterNotificationPool (destroy_Notification n b))"
  by (simp add: destroy_Notification_def Let_def pool_detach_wf split: option.splits)

lemma destroy_fields [simp]:
  "mChannels (destroy_Notification n b) = (if n_coid n \<noteq> - 1 then pcm_detach (n_coid n) (mChannels b) else mChannels b)"
  "sCurrentCounter (destroy_Notification n b) = sCurrentCounter b - 1"
  "notifs k (destroy_Notification n b) = notifs k b"
  by (simp_all add: destroy_Notification_def Let_def split: option.splits)

lemma destroy_ocb:
  "ocb (destroy_Notification n b) c =
     (if n_host n = Some c then removeNotification (n_notificationID n) (ocb b c) else ocb b c)"
  by (auto simp: destroy_Notification_def Let_def ocb_def ocb_update_def split: option.splits)

lemma winv_destroy:
  assumes "winv b (add_mset (n_coid n) C)"
  shows "winv (destroy_Notification n b) C"
proof -
  have l: "live b (add_mset (n_coid n) C)" using assms by (simp add: winv_def)
  then have "live (destroy_Notification n b) C"
    using live_detach [of "mChannels b" "n_coid n" C]
    by (simp add: live_def pcm_detach_inv)
  moreover have "ocb_wf (ocb (destroy_Notification n b) c)" for c
    using assms by (simp add: destroy_ocb winv_def)
  ultimately show ?thesis
    using assms by (simp add: winv_def destroy_pool_wf)
qed

text \<open>Connecting takes a reference exactly when it returns a channel.\<close>

lemma doConnect_fields [simp]:
  "mMasterNotificationPool (snd (snd (doConnect E n b))) = mMasterNotificationPool b"
  "sCurrentCounter (snd (snd (doConnect E n b))) = sCurrentCounter b"
  "mConnections (snd (snd (doConnect E n b))) = mConnections b"
  "notifs k (snd (snd (doConnect E n b))) = notifs k b"
  "mQueue (snd (snd (doConnect E n b))) = mQueue b"
  by (simp_all add: doConnect_def Let_def case_prod_beta notifs_def)

lemma live_doConnect:
  assumes "live b (add_mset (n_coid n) C)" and "env_ok E" and "n_coid n < 0"
  shows "live (snd (snd (doConnect E n b))) (add_mset (n_coid (fst (snd (doConnect E n b)))) C)"
proof -
  obtain fd ch where a: "pcm_attach (e_sockets E) (n_nid n) (p_pid (n_pulse n)) (p_chid (n_pulse n)) (mChannels b)
      = (fd, ch)" by (cases "pcm_attach (e_sockets E) (n_nid n) (p_pid (n_pulse n)) (p_chid (n_pulse n)) (mChannels b)")
  have i: "pcm_inv (mChannels b)" using assms(1) by (simp add: live_def)
  have e: "fds_fresh (e_sockets E)" using assms(2) by (simp add: env_ok_def)
  have r: "refs ch = (if 0 \<le> fd then (refs (mChannels b))(fd := refs (mChannels b) fd + 1) else refs (mChannels b))"
    by (rule pcm_attach_refs [OF i e a])
  have "pcm_inv ch" by (rule pcm_attach_inv [OF i e a])
  then show ?thesis
    using assms(1,3) r by (auto simp: live_def doConnect_def a Let_def)
qed

lemma send_pulse_fields [simp]:
  "mMasterNotificationPool (send_pulse n b) = mMasterNotificationPool b"
  "sCurrentCounter (send_pulse n b) = sCurrentCounter b"
  "mConnections (send_pulse n b) = mConnections b"
  "notifs k (send_pulse n b) = notifs k b"
  "mConnectedServers (send_pulse n b) = mConnectedServers b"
  "mQueue (send_pulse n b) = mQueue b"
  by (simp_all add: send_pulse_def notifs_def)

lemma live_send_pulse [simp]: "live (send_pulse n b) C = live b C"
  by (simp add: live_def send_pulse_def)

lemma notification_send_fields [simp]:
  "mMasterNotificationPool (snd (notification_send E n b)) = mMasterNotificationPool b"
  "sCurrentCounter (snd (notification_send E n b)) = sCurrentCounter b"
  "mConnections (snd (notification_send E n b)) = mConnections b"
  "notifs k (snd (notification_send E n b)) = notifs k b"
  "mQueue (snd (notification_send E n b)) = mQueue b"
  by (simp_all add: notification_send_def Let_def case_prod_beta)

lemma winv_send:
  assumes "winv b (add_mset (n_coid n) C)" and "env_ok E"
  shows "winv (snd (notification_send E n b)) (add_mset (n_coid (fst (notification_send E n b))) C)"
proof -
  have "live (snd (notification_send E n b)) (add_mset (n_coid (fst (notification_send E n b))) C)"
    using assms live_doConnect [of b n C E]
    by (simp add: notification_send_def Let_def case_prod_beta winv_def)
  then show ?thesis using assms(1) by (simp add: winv_def ocb_def)
qed

lemma winv_connect:
  assumes "winv b (add_mset (n_coid n) C)" and "env_ok E" and "n_coid n < 0"
  shows "winv (snd (snd (notification_connect E ctx p n b)))
    (add_mset (n_coid (fst (snd (notification_connect E ctx p n b)))) C)"
proof -
  define n1 where "n1 = n\<lparr>n_pulse := p, n_nid := cx_nodeAddress ctx\<rparr>"
  have c: "n_coid n1 = n_coid n" by (simp add: n1_def)
  have nc: "notification_connect E ctx p n b = (if \<not> cx_slave ctx then (True, n1, b) else doConnect E n1 b)"
    by (simp add: notification_connect_def n1_def)
  show ?thesis
  proof (cases "cx_slave ctx")
    case False
    then show ?thesis using assms(1) c by (simp add: nc)
  next
    case True
    have "live (snd (snd (doConnect E n1 b))) (add_mset (n_coid (fst (snd (doConnect E n1 b)))) C)"
      by (rule live_doConnect) (use assms c in \<open>simp_all add: winv_def\<close>)
    then show ?thesis using True assms(1) coreD(1) [OF core_doConnect, of E n1 b]
      by (simp add: nc winv_def ocb_def)
  qed
qed

section \<open>The loops of \<^verbatim>\<open>NotificationList\<close>\<close>

text \<open>No loop touches the lists themselves; they return the new list.\<close>

lemma loop_notifs [simp]:
  "notifs k (snd (trigger_loop E P ns b)) = notifs k b"
  "notifs k (snd (trigger_if_loop E d g ns b)) = notifs k b"
  "notifs k (snd (trigger_id_loop E i r ns b)) = notifs k b"
  "notifs k (snd (send_loop E P ns b)) = notifs k b"
  "notifs k (snd (remove_ids_loop c ns b)) = notifs k b"
  by (induction ns arbitrary: b) (simp_all add: Let_def case_prod_beta)

lemma other_coids_cong: "(\<And>k. notifs k b' = notifs k b) \<Longrightarrow> other_coids k b' = other_coids k b"
  by (simp add: other_coids_def)

lemma winv_drop_send:
  assumes "winv b (add_mset (n_coid n) C)" and "env_ok E"
  shows "winv (destroy_Notification (fst (notification_send E n b)) (snd (notification_send E n b))) C"
  by (rule winv_destroy) (rule winv_send [OF assms])

lemma winv_trigger_loop:
  "winv b (coids_of ns + C) \<Longrightarrow> env_ok E
    \<Longrightarrow> winv (snd (trigger_loop E P ns b)) (coids_of (fst (trigger_loop E P ns b)) + C)"
proof (induction ns arbitrary: b C)
  case (Cons n ns)
  show ?case
  proof (cases "P n")
    case True
    then show ?thesis
      using Cons.IH Cons.prems winv_drop_send [of b n "coids_of ns + C" E]
      by (simp add: Let_def case_prod_beta)
  next
    case False
    then show ?thesis
      using Cons.IH [of b "add_mset (n_coid n) C"] Cons.prems by (simp add: Let_def case_prod_beta)
  qed
qed simp

lemma winv_trigger_if_loop:
  "winv b (coids_of ns + C) \<Longrightarrow> env_ok E
    \<Longrightarrow> winv (snd (trigger_if_loop E d g ns b)) (coids_of (fst (trigger_if_loop E d g ns b)) + C)"
proof (induction ns arbitrary: b C)
  case (Cons n ns)
  show ?case
  proof (cases "if_matches d n \<and> may_notify E g n")
    case True
    then show ?thesis
      using Cons.IH Cons.prems winv_drop_send [of b n "coids_of ns + C" E]
      by (simp add: Let_def case_prod_beta)
  next
    case False
    then show ?thesis
      using Cons.IH [of b "add_mset (n_coid n) C"] Cons.prems by (auto simp: Let_def case_prod_beta)
  qed
qed simp

lemma winv_trigger_id_loop:
  "winv b (coids_of ns + C) \<Longrightarrow> env_ok E
    \<Longrightarrow> winv (snd (trigger_id_loop E i r ns b)) (coids_of (fst (trigger_id_loop E i r ns b)) + C)"
proof (induction ns arbitrary: b C)
  case (Cons n ns)
  show ?case
  proof (cases "n_active n \<and> n_notificationID n = i")
    case True
    then show ?thesis
      using Cons.prems winv_drop_send [of b n "coids_of ns + C" E] winv_send [of b n "coids_of ns + C" E]
      by (simp add: Let_def case_prod_beta)
  next
    case False
    then show ?thesis
      using Cons.IH [of b "add_mset (n_coid n) C"] Cons.prems by (auto simp: Let_def case_prod_beta)
  qed
qed simp

lemma winv_send_loop:
  "winv b (coids_of ns + C) \<Longrightarrow> env_ok E
    \<Longrightarrow> winv (snd (send_loop E P ns b)) (coids_of (fst (send_loop E P ns b)) + C)"
proof (induction ns arbitrary: b C)
  case (Cons n ns)
  define nb where "nb = (if P n then notification_send E n b else (n, b))"
  have "winv (snd nb) (add_mset (n_coid (fst nb)) (coids_of ns + C))"
    using Cons.prems winv_send [of b n "coids_of ns + C" E] by (simp add: nb_def)
  then have "winv (snd (send_loop E P ns (snd nb)))
      (coids_of (fst (send_loop E P ns (snd nb))) + add_mset (n_coid (fst nb)) C)"
    using Cons.IH [of "snd nb" "add_mset (n_coid (fst nb)) C"] Cons.prems(2) by simp
  then show ?case by (simp add: Let_def case_prod_beta nb_def)
qed simp

lemma winv_remove_ids_loop:
  "winv b (coids_of ns + C)
    \<Longrightarrow> winv (snd (remove_ids_loop c ns b)) (coids_of (fst (remove_ids_loop c ns b)) + C)"
proof (induction ns arbitrary: b C)
  case (Cons n ns)
  show ?case
  proof (cases "n_notificationID n \<in> set (mNotificationList (ocb b c))")
    case True
    then show ?thesis
      using Cons.IH Cons.prems winv_destroy [of b n "coids_of ns + C"] by (simp add: Let_def case_prod_beta)
  next
    case False
    then show ?thesis
      using Cons.IH [of b "add_mset (n_coid n) C"] Cons.prems by (simp add: Let_def case_prod_beta)
  qed
qed simp

text \<open>Storing the list a loop returned re-establishes the invariant.\<close>

lemma winv_set_notifs [simp]: "winv (set_notifs k ns b) C = winv b C"
  by (simp add: winv_def live_def set_notifs_def)

lemma broker_inv_store:
  assumes "winv b' (coids_of ns + other_coids k b)" and "\<And>k. notifs k b' = notifs k b"
  shows "broker_inv (set_notifs k ns b')"
  using assms(1) by (simp add: broker_inv_def other_coids_cong [OF assms(2)])

lemma broker_inv_split: "broker_inv b \<Longrightarrow> winv b (coids_of (notifs k b) + other_coids k b)"
  by (simp add: broker_inv_def coids_split [of b k])

lemma broker_inv_triggers [intro]:
  assumes "broker_inv b" and "env_ok E"
  shows "broker_inv (trigger_if E k P b)"
    and "broker_inv (trigger_interface E k d g b)"
    and "broker_inv (trigger_id E k i r b)"
    and "broker_inv (triggerAll E k b)"
    and "broker_inv (triggerAll_interface E k d b)"
  unfolding trigger_if_def trigger_interface_def trigger_id_def triggerAll_def triggerAll_interface_def
    Let_def case_prod_beta
  using assms
  by (auto intro!: broker_inv_store winv_trigger_loop winv_trigger_if_loop winv_trigger_id_loop winv_send_loop
      broker_inv_split)

lemma broker_inv_party_triggers [intro]:
  assumes "broker_inv b" and "env_ok E"
  shows "broker_inv (trigger_party E k i b)"
    and "broker_inv (trigger_parties E k ids b)"
    and "broker_inv (triggerPool E k poolID b)"
    and "broker_inv (triggerNotLocal E k ext b)"
    and "broker_inv (triggerLocal E k ext b)"
  using assms
  by (auto simp: trigger_party_def trigger_parties_def triggerPool_def triggerNotLocal_def triggerLocal_def)

lemma broker_inv_remove_ids [intro]: "broker_inv b \<Longrightarrow> broker_inv (remove_ids k c b)"
  unfolding remove_ids_def Let_def case_prod_beta
  by (auto intro!: broker_inv_store winv_remove_ids_loop broker_inv_split)

section \<open>Adding, changing and removing notifications\<close>

lemma winv_add_total [simp]: "winv (add_total k d b) C = winv b C"
  by (simp add: winv_def live_def add_total_def)

lemma connect_notifs [simp]: "notifs k (snd (snd (notification_connect E ctx p n b))) = notifs k b"
  by (simp add: notification_connect_def Let_def)

lemma new_fields [simp]:
  "notifs k (snd (new_Notification b)) = notifs k b"
  "notifs k (snd (snd (copy_Notification n b))) = notifs k b"
  "n_coid (fst (new_Notification b)) = - 1"
  by (simp_all add: new_Notification_def copy_Notification_def)

lemma coids_cons:
  assumes "\<And>k. notifs k b' = notifs k b"
  shows "coids (set_notifs k (n # notifs k b') b') = add_mset (n_coid n) (coids b)"
  by (simp add: assms other_coids_cong [OF assms] coids_split [of b k])

lemma coids_destroy [simp]: "coids (destroy_Notification n b) = coids b"
  by (rule coids_notifs_cong) simp

lemma coids_add_total [simp]: "coids (add_total k d b) = coids b"
  by (rule coids_notifs_cong) simp

lemma broker_inv_push:
  assumes "winv b (add_mset (- 1) (coids b))" and "env_ok E" and "n_coid n = - 1"
    and "\<And>n. n_coid (fill n) = n_coid n"
  shows "broker_inv (snd (push_notification E k ctx p fill n b))"
proof -
  obtain ok n1 b1 where c: "notification_connect E ctx p n b = (ok, n1, b1)"
    by (cases "notification_connect E ctx p n b")
  have w: "winv b1 (add_mset (n_coid n1) (coids b))"
    using winv_connect [of b n "coids b" E ctx p] assms(1,2,3) c by simp
  have ns: "notifs k' b1 = notifs k' b" for k' using connect_notifs [of k' E ctx p n b] c by simp
  show ?thesis
  proof (cases ok)
    case False
    then show ?thesis
      using winv_destroy [OF w] coids_notifs_cong [of b1 b] ns by (simp add: push_notification_def c broker_inv_def)
  next
    case True
    define b2 where "b2 = snd (snd (copy_Notification (fill n1) b1))"
    have "winv b2 (add_mset (- 1) (add_mset (n_coid (fill n1)) (coids b)))"
      unfolding b2_def using winv_copy [OF w] assms(4) by simp
    then have "winv (set_notifs k (fill n1 # notifs k b2) b2)
        (add_mset (- 1) (coids (set_notifs k (fill n1 # notifs k b2) b2)))"
      using coids_cons [of b2 b k "fill n1"] ns by (simp add: b2_def)
    then have "broker_inv (destroy_Notification (fst (snd (copy_Notification (fill n1) b1)))
        (add_total k 1 (set_notifs k (fill n1 # notifs k b2) b2)))"
      by (simp add: broker_inv_def winv_destroy)
    then show ?thesis
      using True by (simp add: push_notification_def c b2_def Let_def case_prod_beta)
  qed
qed

lemma broker_inv_new: "broker_inv b \<Longrightarrow> winv (snd (new_Notification b)) (add_mset (- 1) (coids (snd (new_Notification b))))"
  using winv_new [of b "coids b"] coids_notifs_cong [of "snd (new_Notification b)" b] by (simp add: broker_inv_def)

lemma broker_inv_adds [intro]:
  assumes "broker_inv b" and "env_ok E"
  shows "broker_inv (snd (add_notification E k ctx p b))"
    and "broker_inv (snd (add_party E k h party ctx p b))"
    and "broker_inv (snd (add_interface E k h d ctx p loc uid b))"
    and "broker_inv (snd (add_regexp E k r ctx p b))"
proof -
  note new = broker_inv_new [OF assms(1)]
  show "broker_inv (snd (add_notification E k ctx p b))"
    "broker_inv (snd (add_party E k h party ctx p b))"
    "broker_inv (snd (add_interface E k h d ctx p loc uid b))"
    unfolding add_notification_def add_party_def add_interface_def Let_def case_prod_beta
    by (intro broker_inv_push new assms; simp)+
  have "broker_inv (destroy_Notification ((fst (new_Notification b))\<lparr>n_regExpr := Some r\<rparr>) (snd (new_Notification b)))"
    using winv_destroy [of "snd (new_Notification b)" "(fst (new_Notification b))\<lparr>n_regExpr := Some r\<rparr>"] new
    by (simp add: broker_inv_def)
  moreover have "broker_inv (snd (push_notification E k ctx p (\<lambda>n. n)
      ((fst (new_Notification b))\<lparr>n_regExpr := Some r\<rparr>) (snd (new_Notification b))))"
    by (intro broker_inv_push new assms; simp)
  ultimately show "broker_inv (snd (add_regexp E k r ctx p b))"
    by (simp add: add_regexp_def Let_def case_prod_beta)
qed

text \<open>Updates that leave the channel of a notification alone.\<close>

lemma coids_of_update_first: "(\<And>n. n_coid (f n) = n_coid n) \<Longrightarrow> coids_of (update_first P f ns) = coids_of ns"
  by (induction ns) simp_all

lemma coids_of_map: "(\<And>n. n_coid (f n) = n_coid n) \<Longrightarrow> coids_of (map f ns) = coids_of ns"
  by (induction ns) simp_all

lemma broker_inv_same_coids:
  "broker_inv b \<Longrightarrow> coids_of ns = coids_of (notifs k b) \<Longrightarrow> broker_inv (set_notifs k ns b)"
  by (simp add: broker_inv_def coids_split [of b k])

lemma broker_inv_update [intro]:
  "broker_inv b \<Longrightarrow> (\<And>n. n_coid (f n) = n_coid n) \<Longrightarrow> broker_inv (update_notification k i f b)"
  by (simp add: update_notification_def broker_inv_same_coids coids_of_update_first)

lemma broker_inv_maps [intro]:
  assumes "broker_inv b"
  shows "broker_inv (clearMasterNotification k b)"
    and "broker_inv (snd (setMasterNotificationID k m p b))"
    and "broker_inv (snd (setType k p party b))"
  using assms
  by (auto simp: clearMasterNotification_def setMasterNotificationID_def setType_def
      intro!: broker_inv_same_coids coids_of_map)

lemma coids_of_erase_first:
  "find P ns = Some n \<Longrightarrow> coids_of ns = add_mset (n_coid n) (coids_of (erase_first P ns))"
  by (induction ns) (auto split: if_splits)

lemma broker_inv_remove [intro]:
  assumes "broker_inv b"
  shows "broker_inv (remove_notification k i b)"
proof (cases "find_notification k i b")
  case None
  then show ?thesis using assms by (simp add: remove_notification_def)
next
  case (Some n)
  define ns where "ns = erase_first (\<lambda>n. n_notificationID n = i) (notifs k b)"
  have c: "coids_of (notifs k b) = add_mset (n_coid n) (coids_of ns)"
    using coids_of_erase_first Some by (simp add: ns_def find_notification_def)
  then have "winv (set_notifs k ns b) (add_mset (n_coid n) (coids (set_notifs k ns b)))"
    using broker_inv_split [OF assms, of k] by simp
  then show ?thesis
    using Some by (simp add: remove_notification_def broker_inv_def winv_destroy ns_def)
qed

text \<open>Moving a pool from one list to the other keeps the number of objects and references.\<close>

lemma coids_disconnect_connect:
  "coids b = coids_of (notifs ServerConnect b) + (coids_of (notifs ServerDisconnect b)
     + (coids_of (notifs ClientDetach b) + coids_of (notifs ServerListChange b)))"
  by (simp add: coids_def all_kinds_def)

lemma winv_add_existing:
  assumes "winv b (add_mset (n_coid n) (coids_of (notifs k b) + C))"
  shows "winv (destroy_Notification (fst (add_existing k n b)) (snd (add_existing k n b)))
    (coids_of (notifs k (snd (add_existing k n b))) + C)"
  using winv_copy [OF assms, of n]
  by (intro winv_destroy) (simp add: add_existing_def Let_def case_prod_beta)

lemma add_existing_notifs [simp]: "k \<noteq> to \<Longrightarrow> notifs k (snd (add_existing to n b)) = notifs k b"
  by (simp add: add_existing_def Let_def case_prod_beta)

lemma winv_move_loop:
  "winv b (coids_of ns + (coids_of (notifs to b) + C)) \<Longrightarrow>
    (case move_loop to from p ns b of (rest, r, b') \<Rightarrow>
       winv b' (coids_of rest + (coids_of (notifs to b') + C)) \<and> (\<forall>k. k \<noteq> to \<longrightarrow> notifs k b' = notifs k b))"
proof (induction ns arbitrary: b C)
  case (Cons n ns)
  show ?case
  proof (cases "p = n_poolID n")
    case True
    define b2 where "b2 = add_total from (- 1) (destroy_Notification (fst (add_existing to n b)) (snd (add_existing to n b)))"
    have "winv b2 (coids_of (notifs to b2) + (coids_of ns + C))"
      unfolding b2_def using winv_add_existing [of b n to "coids_of ns + C"] Cons.prems by (simp add: ac_simps)
    then have "winv b2 (coids_of ns + (coids_of (notifs to b2) + C))" by (simp add: ac_simps)
    from Cons.IH [OF this] show ?thesis
      using True by (auto simp: Let_def case_prod_beta b2_def)
  next
    case False
    then show ?thesis
      using Cons.IH [of b "add_mset (n_coid n) C"] Cons.prems by (simp add: Let_def case_prod_beta)
  qed
qed simp

lemma broker_inv_move [intro]:
  assumes "broker_inv b"
  shows "broker_inv (snd (move_notifications ServerDisconnect ServerConnect p b))"
proof -
  obtain rest r b' where m: "move_loop ServerDisconnect ServerConnect p (notifs ServerConnect b) b = (rest, r, b')"
    by (cases "move_loop ServerDisconnect ServerConnect p (notifs ServerConnect b) b")
  have "winv b' (coids_of rest + (coids_of (notifs ServerDisconnect b')
      + (coids_of (notifs ClientDetach b) + coids_of (notifs ServerListChange b))))
    \<and> (\<forall>k. k \<noteq> ServerDisconnect \<longrightarrow> notifs k b' = notifs k b)"
    using assms winv_move_loop [of b "notifs ServerConnect b" ServerDisconnect
        "coids_of (notifs ClientDetach b) + coids_of (notifs ServerListChange b)" ServerConnect p] m
    by (simp add: broker_inv_def coids_disconnect_connect)
  then show ?thesis
    by (simp add: move_notifications_def m broker_inv_def coids_disconnect_connect
        del: coids_set)
qed

section \<open>The other parts of the state\<close>

lemma winv_upd [simp]:
  "winv (b\<lparr>mPendingRemoteServersRequests := x0\<rparr>) C = winv b C"
  "winv (b\<lparr>mAttachedClients := x1\<rparr>) C = winv b C"
  "winv (b\<lparr>mPendingAttachExtendedJobs := x2\<rparr>) C = winv b C"
  "winv (b\<lparr>mNextClientID := x3\<rparr>) C = winv b C"
  "winv (b\<lparr>mNextServerID := x4\<rparr>) C = winv b C"
  "winv (b\<lparr>mNextPendingRemoteServerRequestID := x5\<rparr>) C = winv b C"
  "winv (b\<lparr>sNextPoolID := x6\<rparr>) C = winv b C"
  "winv (b\<lparr>sNextServerEntryID := x7\<rparr>) C = winv b C"
  "winv (b\<lparr>mQueue := x8\<rparr>) C = winv b C"
  "winv (b\<lparr>sNextNotificationID := x9\<rparr>) C = winv b C"
  "winv (b\<lparr>sTotalCounter := x10\<rparr>) C = winv b C"
  by (simp_all add: winv_def live_def)

lemma broker_inv_upd [simp]:
  "broker_inv (b\<lparr>mPendingRemoteServersRequests := x0\<rparr>) = broker_inv b"
  "broker_inv (b\<lparr>mAttachedClients := x1\<rparr>) = broker_inv b"
  "broker_inv (b\<lparr>mPendingAttachExtendedJobs := x2\<rparr>) = broker_inv b"
  "broker_inv (b\<lparr>mNextClientID := x3\<rparr>) = broker_inv b"
  "broker_inv (b\<lparr>mNextServerID := x4\<rparr>) = broker_inv b"
  "broker_inv (b\<lparr>mNextPendingRemoteServerRequestID := x5\<rparr>) = broker_inv b"
  "broker_inv (b\<lparr>sNextPoolID := x6\<rparr>) = broker_inv b"
  "broker_inv (b\<lparr>sNextServerEntryID := x7\<rparr>) = broker_inv b"
  "broker_inv (b\<lparr>mQueue := x8\<rparr>) = broker_inv b"
  "broker_inv (b\<lparr>sNextNotificationID := x9\<rparr>) = broker_inv b"
  "broker_inv (b\<lparr>sTotalCounter := x10\<rparr>) = broker_inv b"
  by (simp_all add: broker_inv_def coids_def)

lemma broker_inv_master_eval [simp]: "broker_inv (master_eval j b) = broker_inv b"
  by (simp add: master_eval_def)

lemma broker_inv_fold_eval [simp]: "broker_inv (fold master_eval js b) = broker_inv b"
  by (induction js arbitrary: b) simp_all

lemma broker_inv_clearJob [simp]: "broker_inv (createClearNotificationJob i b) = broker_inv b"
  by (simp add: createClearNotificationJob_def)

lemma broker_inv_set_servers [intro]:
  "broker_inv b \<Longrightarrow> sl_sorted sl \<Longrightarrow> broker_inv (set_servers sl b)"
  by (simp add: broker_inv_def winv_def live_def set_servers_def coids_def)

lemma broker_inv_set_pool [intro]:
  "broker_inv b \<Longrightarrow> pool_wf p \<Longrightarrow> broker_inv (b\<lparr>mMasterNotificationPool := p\<rparr>)"
  by (simp add: broker_inv_def winv_def live_def coids_def)

lemma broker_inv_ocb [intro]:
  "broker_inv b \<Longrightarrow> (\<And>d. ocb_wf d \<Longrightarrow> ocb_wf (f d)) \<Longrightarrow> broker_inv (ocb_update c f b)"
  by (simp add: broker_inv_def winv_def live_def coids_def)

lemma set_slave_fields [simp]:
  "ocb (set_slave c b) = ocb b"
  "notifs k (set_slave c b) = notifs k b"
  "mConnectedServers (set_slave c b) = mConnectedServers b"
  "mMasterNotificationPool (set_slave c b) = mMasterNotificationPool b"
  "mChannels (set_slave c b) = mChannels b"
  "sCurrentCounter (set_slave c b) = sCurrentCounter b"
  by (simp_all add: set_slave_def ocb_def notifs_def fun_eq_iff)

lemma broker_inv_set_slave [simp]: "broker_inv (set_slave c b) = broker_inv b"
  by (simp add: broker_inv_def winv_def live_def coids_def)

lemma broker_invD:
  assumes "broker_inv b"
  shows "sl_sorted (mConnectedServers b)" and "pool_wf (mMasterNotificationPool b)" and "ocb_wf (ocb b c)"
    and "pcm_inv (mChannels b)"
  using assms by (simp_all add: broker_inv_def winv_def live_def)

end
