(* ===== verification/Broker_Safety.thy ===== *)
theory Broker_Safety
  imports Broker_Invariants
begin

text \<open>
  Every entry point of the broker keeps the invariant of \<^verbatim>\<open>Broker_Invariants\<close>, and no entry point
  of a broker in synchronous mode dereferences a null pointer. The entry points are the request
  dispatcher, the pulses and finished jobs of the master, and the closing of a connection;
  \<open>broker_step\<close> is their union and \<open>reachable\<close> the states of a run.
\<close>

section \<open>Helpers of the handlers keep the invariant\<close>

lemma register_loop_names: "map se_ifDescription (fst (register_loop cfg es batch)) = map se_ifDescription es"
  by (induction cfg es batch rule: register_loop.induct) (simp_all add: Let_def case_prod_beta)

lemma sl_sorted_map: "sl_sorted sl = sorted_wrt (\<lambda>a b. if_name b < if_name a) (map se_ifDescription (sl_entries sl))"
  by (simp add: sl_sorted_def sorted_wrt_map)

lemma broker_inv_registerInterfacesMaster [intro]:
  assumes "broker_inv b"
  shows "broker_inv (registerInterfacesMaster b)"
proof -
  have "sl_sorted ((mConnectedServers b)\<lparr>sl_entries := fst (register_loop (mConfig b) (sl_entries (mConnectedServers b)) [])\<rparr>)"
    using broker_invD(1) [OF assms] by (simp add: sl_sorted_map register_loop_names)
  from broker_inv_set_servers [OF assms this] show ?thesis
    using assms by (simp add: registerInterfacesMaster_def Let_def case_prod_beta)
qed

lemma broker_inv_pool_add [intro]:
  assumes "broker_inv b"
  shows "broker_inv (snd (pool_add_if d def b))" and "broker_inv (snd (pool_add_server s b))"
  using broker_inv_set_pool [OF assms] broker_invD(2) [OF assms]
  by (simp_all add: pool_add_if_def pool_add_server_def Let_def case_prod_beta pool_wf_add)

lemma broker_inv_set_pool_entry [intro]:
  assumes "broker_inv b" and "\<And>e. pool_entry_wf e \<Longrightarrow> pool_entry_wf (f e)"
  shows "broker_inv (set_pool pos f b)"
  unfolding set_pool_def by (intro broker_inv_set_pool pool_wf_update broker_invD assms)

lemma broker_inv_pool_attach [intro]:
  assumes "broker_inv b"
  shows "broker_inv (pool_attach pos k i b)"
  unfolding pool_attach_def Let_def
  by (intro broker_inv_set_pool pool_wf_attach broker_invD broker_inv_update assms; simp)

text \<open>The loop that forwards notifications only assigns pool ids.\<close>

lemma available_loop_inv:
  "broker_inv b \<Longrightarrow> broker_inv (snd (available_loop ns batch b))
     \<and> coids_of (fst (available_loop ns batch b)) = coids_of ns
     \<and> (\<forall>k. notifs k (snd (available_loop ns batch b)) = notifs k b)"
proof (induction ns arbitrary: batch b)
  case (Cons n ns)
  note IH = Cons.IH [OF Cons.prems]
  obtain pos1 b1 where add: "pool_add_if (n_ifDescription n) False b = (pos1, b1)"
    by (cases "pool_add_if (n_ifDescription n) False b")
  then have b1: "broker_inv b1" "\<And>k. notifs k b1 = notifs k b"
    using broker_inv_pool_add(1) [OF Cons.prems, of "n_ifDescription n" False]
    by (auto simp: pool_add_if_def np_add_if_def notifs_def)
  show ?case
    using IH Cons.IH [OF b1(1)] Cons.IH [of "master_eval (available_job (batch @ [available_descr b1
        (np_poolID (pool_at b1 pos1)) (n_ifDescription n)])) b1"] b1
    by (simp add: Let_def case_prod_beta add)
qed simp

lemma broker_inv_forwardServerAvailable [intro]:
  assumes "broker_inv b"
  shows "broker_inv (forwardServerAvailableNotifications b)"
  using available_loop_inv [OF assms, of "notifs ServerConnect b" "[]"] assms
  by (auto simp: forwardServerAvailableNotifications_def Let_def case_prod_beta intro!: broker_inv_same_coids)

section \<open>The request handlers keep the invariant\<close>

lemma broker_inv_enter_server:
  assumes "broker_inv b" and "env_ok E" and "sl_find_name (mConnectedServers b) (se_name e) = None"
  shows "broker_inv (triggerAll_interface E ServerListChange d (trigger_interface E ServerConnect d g
    (ocb_update c (addServer i) (set_servers (sl_add e (mConnectedServers b)) b))))"
proof -
  have "broker_inv (set_servers (sl_add e (mConnectedServers b)) b)"
    using assms(1) by (intro broker_inv_set_servers sl_add_sorted broker_invD assms(3))
  then have "broker_inv (ocb_update c (addServer i) (set_servers (sl_add e (mConnectedServers b)) b))"
    by (rule broker_inv_ocb) simp
  then show ?thesis by (intro broker_inv_triggers assms(2))
qed

lemma broker_inv_addInterface [intro]:
  assumes "broker_inv b" and "env_ok E"
  shows "broker_inv (snd (addInterface E c d pid chid loc g b))"
  unfolding addInterface_def Let_def
  using assms
    broker_inv_enter_server [of "b\<lparr>sNextServerEntryID := sNextServerEntryID b + 1, mNextServerID := mNextServerID b + 1\<rparr>" E]
  by simp

lemma broker_inv_addMasterInterface:
  assumes "broker_inv b" and "env_ok E" and "\<not> master_refuses b dx"
  shows "broker_inv (snd (addMasterInterface E c dx b))"
  unfolding addMasterInterface_def Let_def
  using assms broker_inv_enter_server [of "b\<lparr>sNextServerEntryID := sNextServerEntryID b + 1\<rparr>" E]
  by (simp add: master_refuses_def to_ifDescription_def)

lemma register_ex_loop_inv:
  "broker_inv b \<Longrightarrow> env_ok E \<Longrightarrow> broker_inv (fst (snd (register_ex_loop E c pid chid n ifds b m)))"
  by (induction E c pid chid n ifds b m rule: register_ex_loop.induct)
    (simp_all add: Let_def case_prod_beta broker_inv_addInterface)

lemma register_master_loop_inv:
  "broker_inv b \<Longrightarrow> env_ok E \<Longrightarrow> broker_inv (fst (snd (register_master_loop E c n dxs b m)))"
  by (induction E c n dxs b m rule: register_master_loop.induct)
    (simp_all add: Let_def case_prod_beta broker_inv_addMasterInterface)

lemma broker_inv_register_handlers:
  assumes "broker_inv b" and "env_ok E"
  shows "broker_inv (fst (handleRegisterInterface E c ifd chid pid b m))"
    and "broker_inv (fst (handleRegisterInterfaceGroupID E c ifd chid pid g b m))"
    and "broker_inv (fst (handleRegisterInterfaceEx E c chid pid n ifds b m))"
    and "broker_inv (fst (handleRegisterMasterInterface E c n dxs b m))"
  using assms broker_inv_addInterface [OF assms] register_ex_loop_inv [OF assms] register_master_loop_inv [OF assms]
  by (simp_all add: handleRegisterInterface_def handleRegisterInterfaceGroupID_def handleRegisterInterfaceEx_def
      handleRegisterMasterInterface_def Let_def case_prod_beta broker_inv_registerInterfacesMaster
      split: option.splits)

lemma broker_inv_unregisterInterfaceMaster [intro]:
  "broker_inv b \<Longrightarrow> broker_inv (unregisterInterfaceMaster s e b)"
  unfolding unregisterInterfaceMaster_def unregister_job_def
  by (simp add: broker_inv_set_servers broker_invD)

lemma broker_inv_sl_remove [intro]: "broker_inv b \<Longrightarrow> broker_inv (set_servers (sl_remove i (mConnectedServers b)) b)"
  by (intro broker_inv_set_servers sl_remove_sorted broker_invD)

lemma broker_inv_unregister:
  assumes "broker_inv b" and "env_ok E"
  shows "broker_inv (fst (handleUnregisterInterface E c s b m))"
proof -
  have "broker_inv (ocb_update c (removeServer s) b)" using assms(1) by (rule broker_inv_ocb) simp
  then show ?thesis
    using assms
    by (auto simp: handleUnregisterInterface_def Let_def split: option.splits
        intro!: broker_inv_triggers(4) broker_inv_sl_remove broker_inv_unregisterInterfaceMaster
          broker_inv_party_triggers(1))
qed

lemma broker_inv_addNotification [intro]: "broker_inv b \<Longrightarrow> broker_inv (ocb_update c (addNotification i) b)"
  by (rule broker_inv_ocb) simp_all

lemma broker_inv_removeNotification [intro]: "broker_inv b \<Longrightarrow> broker_inv (ocb_update c (removeNotification i) b)"
  by (rule broker_inv_ocb) simp_all

lemma broker_inv_watch [intro]: "broker_inv b \<Longrightarrow> broker_inv (watch_remote_server s i b)"
  by (auto simp: watch_remote_server_def Let_def case_prod_beta split: option.splits
      intro!: broker_inv_pool_attach broker_inv_pool_add)

lemma broker_inv_announce [intro]:
  "broker_inv b \<Longrightarrow> env_ok E \<Longrightarrow> broker_inv (announce_or_forward E d loc av b)"
  by (auto simp: announce_or_forward_def)

lemma broker_inv_notify_noresponse:
  assumes "broker_inv b" and "env_ok E"
  shows "broker_inv (snd (handleNotifyServerDisconnectNoResponse E c s p b))"
    and "broker_inv (snd (handleNotifyServerAvailableNoResponse E c p ifd b))"
  using broker_inv_adds [OF assms] assms
  by (auto simp: handleNotifyServerDisconnectNoResponse_def handleNotifyServerAvailableNoResponse_def Let_def
      case_prod_beta intro!: broker_inv_watch broker_inv_announce broker_inv_party_triggers broker_inv_addNotification)

lemma available_ex_loop_inv:
  "broker_inv b \<Longrightarrow> env_ok E \<Longrightarrow> broker_inv (fst (snd (available_ex_loop E c k nds b m)))"
proof (induction k arbitrary: nds b m)
  case (Suc k)
  then show ?case
    by (cases nds) (auto simp: Let_def case_prod_beta
        intro!: Suc.IH broker_inv_announce broker_inv_addNotification broker_inv_adds)
qed simp

lemma update_first_found:
  "find P ns = Some n \<Longrightarrow> add_mset (n_coid n) (coids_of (update_first P (\<lambda>_. n1) ns)) = add_mset (n_coid n1) (coids_of ns)"
  by (induction ns) (auto split: if_splits)

lemma broker_inv_send_found [intro]:
  assumes "broker_inv b" and "env_ok E"
  shows "broker_inv (send_found E k i b)"
proof (cases "find_notification k i b")
  case None
  then show ?thesis using assms by (simp add: send_found_def)
next
  case (Some n)
  then have f: "find (\<lambda>n. n_notificationID n = i) (notifs k b) = Some n" by (simp add: find_notification_def)
  define n1 b1 where "n1 = fst (notification_send E n b)" and "b1 = snd (notification_send E n b)"
  define C where "C = coids_of (erase_first (\<lambda>n. n_notificationID n = i) (notifs k b)) + other_coids k b"
  have "winv b (add_mset (n_coid n) C)"
    using broker_inv_split [OF assms(1), of k] coids_of_erase_first [OF f] by (simp add: C_def)
  then have "winv b1 (add_mset (n_coid n1) C)"
    unfolding n1_def b1_def by (rule winv_send [OF _ assms(2)])
  moreover have "add_mset (n_coid n) (coids_of (update_first (\<lambda>n. n_notificationID n = i) (\<lambda>_. n1) (notifs k b)))
      = add_mset (n_coid n) (add_mset (n_coid n1) (coids_of (erase_first (\<lambda>n. n_notificationID n = i) (notifs k b))))"
    using update_first_found [OF f, of n1] coids_of_erase_first [OF f] by simp
  ultimately have "broker_inv (set_notifs k (update_first (\<lambda>n. n_notificationID n = i) (\<lambda>_. n1) (notifs k b)) b1)"
    by (intro broker_inv_store [where b = b]) (simp_all add: C_def b1_def)
  then show ?thesis
    by (simp add: send_found_def Some Let_def case_prod_beta update_notification_def n1_def b1_def)
qed

lemma broker_inv_notify_handlers:
  assumes "broker_inv b" and "env_ok E"
  shows "broker_inv (fst (handleNotifyServerDisconnect E c s p b m))"
    and "broker_inv (fst (handleNotifyServerAvailable E c p ifd b m))"
    and "broker_inv (fst (handleNotifyServerAvailableEx E c n nds b m))"
    and "broker_inv (fst (handleNotifyClientDetach E c s p b m))"
    and "broker_inv (fst (handleClearNofification c i b m))"
    and "broker_inv (fst (handleNotifyInterfaceListChange E c p b m))"
proof -
  note nr = broker_inv_notify_noresponse [OF assms]
  show "broker_inv (fst (handleNotifyServerDisconnect E c s p b m))"
    using nr(1) [of c s p] by (auto simp: handleNotifyServerDisconnect_def split: prod.splits option.splits)
  show "broker_inv (fst (handleNotifyServerAvailable E c p ifd b m))"
    using nr(2) [of c p ifd] by (auto simp: handleNotifyServerAvailable_def split: prod.splits sum.splits)
  show "broker_inv (fst (handleNotifyServerAvailableEx E c n nds b m))"
    using available_ex_loop_inv [OF assms] by (simp add: handleNotifyServerAvailableEx_def Let_def case_prod_beta)
  show "broker_inv (fst (handleNotifyClientDetach E c s p b m))"
    using broker_inv_adds(2) [OF assms] assms
    by (auto simp: handleNotifyClientDetach_def Let_def case_prod_beta
        intro!: broker_inv_party_triggers broker_inv_addNotification)
  show "broker_inv (fst (handleClearNofification c i b m))"
    using assms by (auto simp: handleClearNofification_def Let_def intro!: broker_inv_remove broker_inv_removeNotification)
  show "broker_inv (fst (handleNotifyInterfaceListChange E c p b m))"
    using broker_inv_adds(1) [OF assms]
    by (auto simp: handleNotifyInterfaceListChange_def Let_def case_prod_beta intro!: broker_inv_addNotification)
qed

lemma broker_inv_list_match:
  assumes "broker_inv b" and "env_ok E"
  shows "broker_inv (fst (handleNotifyInterfaceListMatch E c p r b m))"
proof -
  define ctx b1 where "ctx = mConnections b c" and "b1 = snd (add_regexp E ServerListChange r ctx p b)"
  have b1: "broker_inv b1" unfolding b1_def by (rule broker_inv_adds(4) [OF assms])
  have "broker_inv (ocb_update c (addNotification i) b1)" for i using b1 by (rule broker_inv_addNotification)
  then show ?thesis
    using assms(2) b1 broker_inv_send_found
    by (simp add: handleNotifyInterfaceListMatch_def Let_def case_prod_beta ctx_def b1_def split: option.splits)
qed

lemma broker_inv_addClient [intro]:
  assumes "broker_inv b"
  shows "broker_inv (snd (addClient c i s b))"
  using assms by (auto simp: addClient_def Let_def case_prod_beta intro!: broker_inv_ocb)

lemma broker_inv_attach_local [intro]:
  "broker_inv b \<Longrightarrow> broker_inv (snd (handleAttachLocalInterface E c e b))"
  by (simp add: handleAttachLocalInterface_def Let_def case_prod_beta broker_inv_addClient)

lemma broker_inv_forward_attach:
  assumes "broker_inv b" and "env_ok E"
  shows "broker_inv (fst (snd (snd (forwardAttachExtendedToMaster E c p ifd b m))))"
proof -
  have req: "broker_inv (fst (snd (forward_attach_request c ifd pf pos i b' m)))" if "broker_inv b'" for pf pos i b'
    using that broker_inv_set_pool_entry [OF that np_setState_wf]
    by (simp add: forward_attach_request_def Let_def)
  define pb where "pb = (if np_find_if (mMasterNotificationPool b) (to_ifDescription ifd) True \<noteq> - 1
    then (nat (np_find_if (mMasterNotificationPool b) (to_ifDescription ifd) True), b)
    else pool_add_if (to_ifDescription ifd) True b)"
  have "broker_inv (snd pb)" using assms(1) by (simp add: pb_def broker_inv_pool_add)
  then show ?thesis
    using assms(2) unfolding forwardAttachExtendedToMaster_def Let_def pb_def [symmetric]
    by (auto simp: case_prod_beta intro!: req broker_inv_pool_attach broker_inv_addNotification broker_inv_adds)
qed

lemma broker_inv_attach_handlers:
  assumes "broker_inv b" and "env_ok E"
  shows "broker_inv (fst (handleAttachInterface E c ifd b m))"
    and "broker_inv (fst (handleAttachInterfaceExtended E c p ifd b m))"
proof -
  note loc = broker_inv_attach_local [OF assms(1)]
  show "broker_inv (fst (handleAttachInterface E c ifd b m))"
    using assms(1) loc
    by (auto simp: handleAttachInterface_def Let_def split: option.splits prod.splits sum.splits
        dest: arg_cong [of _ _ snd]) (metis snd_conv)+
  have "broker_inv (fst (handleAttachInterfaceExtended_local E c e b m))" for e
  proof -
    obtain r b1 where a: "handleAttachLocalInterface E c e b = (r, b1)" by (cases "handleAttachLocalInterface E c e b")
    then have b1: "broker_inv b1" using loc [of E c e] by simp
    show ?thesis
      using b1 broker_inv_notify_noresponse(1) [OF b1 assms(2), of c "se_partyID e" "e_indet_pulse E"]
      by (auto simp: handleAttachInterfaceExtended_local_def a split: sum.splits prod.splits option.splits)
  qed
  then show "broker_inv (fst (handleAttachInterfaceExtended E c p ifd b m))"
    using assms(1) broker_inv_notify_noresponse(2) [OF assms, of c p ifd] broker_inv_forward_attach [OF assms, of c p ifd m]
    by (auto simp: handleAttachInterfaceExtended_def Let_def split: option.splits sum.splits prod.splits)
qed

lemma broker_inv_other_handlers:
  assumes "broker_inv b" and "env_ok E"
  shows "broker_inv (fst (handleGetServerInformation c ifd b m))"
    and "broker_inv (fst (handleDetachInterface E c i b m))"
    and "broker_inv (fst (handleGetInterfaceList c n b m))"
    and "broker_inv (fst (handleMatchInterfaceList E c n r b m))"
    and "broker_inv (fst (handleMasterPingId c x b m))"
proof -
  have rm: "broker_inv b' \<Longrightarrow> broker_inv (ocb_update c (removeClient i) b')" for b'
    by (rule broker_inv_ocb) simp_all
  have "broker_inv (ocb_update c (setExtendedID x) b)" using assms(1) by (rule broker_inv_ocb) simp
  then show "broker_inv (fst (handleMasterPingId c x b m))" by (simp add: handleMasterPingId_def)
  show "broker_inv (fst (handleDetachInterface E c i b m))"
    using assms by (auto simp: handleDetachInterface_def Let_def intro!: rm broker_inv_party_triggers)
  show "broker_inv (fst (handleGetServerInformation c ifd b m))"
    using assms(1) by (simp add: handleGetServerInformation_def Let_def split: option.splits)
  show "broker_inv (fst (handleGetInterfaceList c n b m))"
    using assms(1) by (simp add: handleGetInterfaceList_def Let_def)
  show "broker_inv (fst (handleMatchInterfaceList E c n r b m))"
    using assms(1) by (simp add: handleMatchInterfaceList_def Let_def case_prod_beta)
qed

lemma broker_inv_handle_request:
  "broker_inv b \<Longrightarrow> env_ok E \<Longrightarrow> broker_inv (fst (handle_request E c req b m))"
  by (cases req)
    (simp_all add: broker_inv_register_handlers broker_inv_unregister broker_inv_attach_handlers
      broker_inv_other_handlers broker_inv_notify_handlers broker_inv_list_match)

lemma broker_inv_dispatch:
  assumes "broker_inv b" and "env_ok E"
  shows "broker_inv (fst (snd (dispatch E c req v sz b m)))"
  using assms broker_inv_handle_request [OF assms]
  by (simp add: dispatch_def Let_def case_prod_beta split: request.splits)

section \<open>Closing a connection\<close>

lemma clear_servers_inv: "broker_inv b \<Longrightarrow> broker_inv (clear_servers ids b)"
  by (induction ids arbitrary: b)
    (simp_all add: Let_def broker_inv_sl_remove broker_inv_unregisterInterfaceMaster split: option.splits)

lemma clear_clients_inv: "broker_inv b \<Longrightarrow> broker_inv (clear_clients ids b)"
  by (induction ids arbitrary: b) (simp_all add: Let_def)

lemma broker_inv_clear_connection:
  assumes "broker_inv b" and "env_ok E"
  shows "broker_inv (clear_connection E c b)"
  using assms
  by (auto simp: clear_connection_def Let_def
      intro!: broker_inv_triggers(4) broker_inv_remove_ids broker_inv_party_triggers clear_clients_inv clear_servers_inv)

section \<open>Finished jobs and pulses of the master\<close>

lemma record_pool_inv [intro]: "broker_inv b \<Longrightarrow> broker_inv (record_pool_notification p i b)"
  by (auto simp: record_pool_notification_def Let_def pool_entry_wf_def intro!: broker_inv_set_pool_entry)

lemma finished_available_inv [intro]: "broker_inv b \<Longrightarrow> broker_inv (finished_available E job idx n b)"
  by (induction n arbitrary: idx b) (simp_all add: Let_def record_pool_inv)

lemma record_notification_inv [intro]: "broker_inv b \<Longrightarrow> broker_inv (record_notification k ck i b)"
  by (auto simp: record_notification_def intro!: broker_inv_update)

lemma finished_register_inv [intro]: "broker_inv b \<Longrightarrow> broker_inv (finished_register E job idx n b)"
proof (induction n arbitrary: idx b)
  case (Suc n)
  have "broker_inv (finished_register_one sid b)" for sid
    using Suc.prems broker_inv_set_servers [OF Suc.prems] broker_invD(1) [OF Suc.prems]
    by (simp add: finished_register_one_def Let_def unregister_job_def split: option.splits)
  then show ?case using Suc.IH by simp
qed simp

lemma monitor_server_inv:
  assumes "broker_inv b" and "monitor_server s pos p b = Some b'"
  shows "broker_inv b'"
  using assms broker_inv_set_pool_entry [OF broker_inv_maps(3) [OF broker_inv_move [OF assms(1)]] np_setState_server_wf]
  by (auto simp: monitor_server_def Let_def case_prod_beta split: if_splits)

lemma attach_extended_found_inv:
  assumes "broker_inv b" and "env_ok E" and "attach_extended_found E job ci pos p b = Some (ci', b')"
  shows "broker_inv b'"
proof -
  obtain c where c: "j_ctx job = Some c" using assms(3) by (auto simp: attach_extended_found_def split: option.splits)
  define b1 where "b1 = snd (if \<not> mAsyncMode b then addClient c (ci_clientID ci) (ci_serverID ci) b
    else (ci_clientID ci, handleMasterServerAvailable E p (ocb_update c (addClient_ocb (ci_clientID ci)) b)))"
  have "broker_inv b1"
    using assms(1,2) broker_inv_ocb [OF assms(1), of "addClient_ocb (ci_clientID ci)" c]
    by (auto simp: b1_def handleMasterServerAvailable_def)
  moreover have "monitor_server (ci_serverID ci) pos p b1 = Some b'"
    using assms(3) unfolding attach_extended_found_def c by (simp add: b1_def Let_def case_prod_beta split: if_splits)
  ultimately show ?thesis by (rule monitor_server_inv)
qed

lemma attach_extended_answer_inv:
  assumes "broker_inv b" and "env_ok E" and "attach_extended_answer E job ci mid found b = Some (job', b')"
  shows "broker_inv b'"
proof -
  obtain mainID n pos where f: "found = (mainID, n, pos)" by (cases found)
  define b1 where "b1 = set_pool pos (\<lambda>e. e\<lparr>np_notificationID := mid\<rparr>) b"
  define b2 where "b2 = snd (setMasterNotificationID ServerConnect mid (n_poolID n) b1)"
  have "broker_inv b1" unfolding b1_def using assms(1) by (rule broker_inv_set_pool_entry) (simp add: pool_entry_wf_def)
  then have b2: "broker_inv b2" unfolding b2_def by (rule broker_inv_maps)
  then have "broker_inv (set_pool pos (\<lambda>e. fst (np_setState STATE_CONNECTING e)) b2)"
    by (rule broker_inv_set_pool_entry) (rule np_setState_wf)
  then show ?thesis
    using assms(3) b2 attach_extended_found_inv [OF b2 assms(2)]
    by (auto simp: attach_extended_answer_def f Let_def case_prod_beta b1_def [symmetric] b2_def [symmetric]
        split: if_splits option.splits prod.splits)
qed

lemma attach_extended_finished_inv:
  assumes "broker_inv b" and "env_ok E" and "handleJobFinishedAttachExtended E job b = Some (job', b')"
  shows "broker_inv b'"
  using assms(3) attach_extended_answer_inv [OF assms(1,2)] assms(1)
  by (auto simp: handleJobFinishedAttachExtended_def Let_def case_prod_beta split: option.splits prod.splits)

lemma finish_job_inv:
  assumes "broker_inv b" and "env_ok E" and "finish_job E job b = Some (job', b')"
  shows "broker_inv b'"
proof -
  have "broker_inv b1" if "finished_attach E job b = Some b1" for b1
    using that broker_inv_ocb [OF assms(1), of "addClient_ocb (out_clientID E job)"]
    by (auto simp: finished_attach_def split: option.splits)
  moreover have "broker_inv (snd (finished_server_information job b))"
    using assms(1) by (simp add: finished_server_information_def)
  ultimately show ?thesis
    using assms(1,3) attach_extended_finished_inv [OF assms(1,2)]
    by (auto simp: finish_job_def split: if_splits request.splits)
qed

text \<open>
  A pool in a state that reads its interface has one, so the asynchronous request of
  \<open>handleMasterAttachExtended\<close> never dereferences null.
\<close>

lemma pool_at_wf:
  assumes "pool_wf (mMasterNotificationPool b)" and "np_find_id (mMasterNotificationPool b) p \<noteq> - 1"
  shows "pool_entry_wf (pool_at b (nat (np_find_id (mMasterNotificationPool b) p)))"
  using np_find_id_some [OF assms(2)] assms(1) by (auto simp: pool_at_def pool_wf_def)

lemma attach_extended_pulse_defined:
  assumes "broker_inv b"
  shows "handleMasterAttachExtended E p b \<noteq> None"
proof -
  define pos where "pos = np_find_id (mMasterNotificationPool b) p"
  have "attach_again (nat pos) p (set_pool (nat pos) (\<lambda>e. fst (np_setState STATE_CONNECTED e)) b) \<noteq> None"
    if "pos \<noteq> - 1" and "np_state (pool_at b (nat pos)) = STATE_CONNECTING"
  proof -
    have "nat pos < length (np_entries (mMasterNotificationPool b))"
      using np_find_id_some [of "mMasterNotificationPool b" p] that(1) by (simp add: pos_def)
    moreover have "pool_entry_wf (pool_at b (nat pos))"
      using pool_at_wf broker_invD(2) [OF assms] that(1) by (simp add: pos_def)
    ultimately show ?thesis
      using that(2)
      by (cases "np_data (pool_at b (nat pos))")
        (simp_all add: attach_again_def pool_at_def set_pool_def np_update_def np_setState_def
          np_getInterfaceDescription_def pool_entry_wf_def)
  qed
  then show ?thesis
    by (simp add: handleMasterAttachExtended_def Let_def pos_def)
qed

lemma attach_extended_pulse_inv:
  assumes "broker_inv b" and "env_ok E" and "handleMasterAttachExtended E p b = Some b'"
  shows "broker_inv b'"
proof -
  have "broker_inv (set_pool pos (\<lambda>e. fst (np_setState STATE_CONNECTED e)) b)" for pos
    using assms(1) by (rule broker_inv_set_pool_entry) (rule np_setState_wf)
  then show ?thesis
    using assms
    by (auto simp: handleMasterAttachExtended_def handleMasterServerDisconnect_def handleMasterServerAvailable_def
        attach_again_def Let_def split: if_splits option.splits)
qed

lemma broker_inv_master_lost:
  assumes "broker_inv b" and "env_ok E"
  shows "broker_inv (handleMasterDisconnected E b)"
proof -
  have "broker_inv ((set_servers (sl_clearMasterIDs (mConnectedServers b)) b)
      \<lparr>mMasterNotificationPool := np_clear (mMasterNotificationPool b)\<rparr>)"
    using assms(1) by (intro broker_inv_set_servers broker_inv_set_pool) (simp_all add: broker_invD)
  then have "broker_inv (b\<lparr>mConnectedServers := sl_clearMasterIDs (mConnectedServers b),
      mMasterNotificationPool := np_clear (mMasterNotificationPool b)\<rparr>)"
    by (simp add: set_servers_def)
  then show ?thesis
    using assms(2) unfolding handleMasterDisconnected_def Let_def
    by (intro broker_inv_maps broker_inv_party_triggers broker_inv_triggers) simp_all
qed

lemma dispatch_pulse_inv:
  assumes "broker_inv b" and "env_ok E" and "dispatch_pulse E code value job b = Some (b', r)"
  shows "broker_inv b'"
proof -
  have job: "broker_inv b1" if "handleJobFinished E j b = Some (b1, r')" for j b1 r'
    using that finish_job_inv [OF assms(1,2)] by (auto simp: handleJobFinished_def)
  have "broker_inv (handleMasterClientDetach E i b)" for i
    using assms(1,2) by (auto simp: handleMasterClientDetach_def split: option.splits)
  moreover have "broker_inv (handleMasterServerlistChange E i b)" "broker_inv (handleMasterServerAvailable E i b)"
    "broker_inv (handleMasterServerDisconnect E i b)" for i
    using assms(1,2) by (auto simp: handleMasterServerlistChange_def handleMasterServerAvailable_def
        handleMasterServerDisconnect_def)
  moreover have "broker_inv (handleMasterConnected b)"
    using assms(1) by (auto simp: handleMasterConnected_def)
  ultimately show ?thesis
    using assms(1,3) job broker_inv_master_lost [OF assms(1,2)] attach_extended_pulse_inv [OF assms(1,2)]
    by (auto simp: dispatch_pulse_def split: if_splits option.splits)
qed

section \<open>Runs of the broker\<close>

text \<open>
  The events of the event loop. A closed connection gives up its number, a new one starts with
  empty data. The worker thread takes jobs off the queue and changes the connection state between
  events; a finished job may be any, which includes the jobs the broker queued.
\<close>

inductive broker_step :: "env \<Rightarrow> broker \<Rightarrow> broker \<Rightarrow> bool" for E :: env where
  Request: "dispatch E c req v sz b new_message = (known, b', m) \<Longrightarrow> broker_step E b b'"
| Pulse: "dispatch_pulse E code value job b = Some (b', r) \<Longrightarrow> broker_step E b b'"
| Close: "broker_step E b (clear_connection E c b)"
| Accept: "broker_step E b (b\<lparr>mConnections := (mConnections b)(c := conn\<lparr>cx_data := new_ClientSpecificData\<rparr>)\<rparr>)"
| Take: "mQueue b = j # js \<Longrightarrow> broker_step E b (b\<lparr>mQueue := js\<rparr>)"
| Link: "mAster b = Some x \<Longrightarrow> broker_step E b (b\<lparr>mAster := Some y\<rparr>)"

inductive reachable :: "env \<Rightarrow> broker \<Rightarrow> broker \<Rightarrow> bool" for E :: env and b0 :: broker where
  start: "reachable E b0 b0"
| step: "reachable E b0 b \<Longrightarrow> broker_step E b b' \<Longrightarrow> reachable E b0 b'"

inductive_cases broker_stepE: "broker_step E b b'"

lemma broker_inv_accept:
  "broker_inv b \<Longrightarrow> broker_inv (b\<lparr>mConnections := (mConnections b)(c := conn\<lparr>cx_data := new_ClientSpecificData\<rparr>)\<rparr>)"
  by (simp add: broker_inv_def winv_def live_def coids_def notifs_def ocb_def)

lemma broker_inv_link: "broker_inv (b\<lparr>mAster := x\<rparr>) = broker_inv b"
  by (simp add: broker_inv_def winv_def live_def coids_def notifs_def ocb_def)

lemma broker_step_inv:
  assumes "broker_step E b b'" and "broker_inv b" and "env_ok E"
  shows "broker_inv b'"
  using assms(1)
proof cases
  case (Request c req v sz known m)
  then show ?thesis using broker_inv_dispatch [OF assms(2,3), of c req v sz new_message] by simp
next
  case (Pulse code val job r)
  then show ?thesis by (rule dispatch_pulse_inv [OF assms(2,3)])
next
  case (Close c)
  then show ?thesis using broker_inv_clear_connection [OF assms(2,3)] by simp
next
  case (Accept c conn)
  then show ?thesis using broker_inv_accept [OF assms(2)] by simp
next
  case (Take j js)
  then show ?thesis using assms(2) by simp
next
  case (Link x y)
  then show ?thesis using assms(2) by (simp add: broker_inv_link)
qed

lemma reachable_inv: "reachable E b0 b \<Longrightarrow> broker_inv b0 \<Longrightarrow> env_ok E \<Longrightarrow> broker_inv b"
  by (induction rule: reachable.induct) (auto intro: broker_step_inv)

lemma init_inv:
  assumes "\<And>c. cx_data (conns c) = new_ClientSpecificData"
  shows "broker_inv (Servicebroker_init mst cfg i cache async addr conns)"
  using assms
  by (simp add: broker_inv_def winv_def live_def Servicebroker_init_def coids_def notifs_def ocb_def all_kinds_def
      sl_sorted_def empty_ServerList_def pcm_inv_def empty_pcm_def refs_def)

end
