(* ===== verification/Broker_Responses.thy ===== *)
theory Broker_Responses
  imports Broker_Safety
begin

text \<open>
  The response discipline: every handler that gets an open message context leaves it answered or
  deferred and hits no assertion, with one exception, the list match with a regular expression
  that does not compile.
\<close>

text \<open>The one request that can hit an assertion.\<close>

definition bad_match :: "env \<Rightarrow> request \<Rightarrow> bool" where
  "bad_match E req = (case req of MATCH_INTERFACELIST n r \<Rightarrow> \<not> e_regcomp E r | _ \<Rightarrow> False)"

lemma fold_write_open: "msg_open m \<Longrightarrow> msg_open (fold (\<lambda>e. writeAncillaryData (f e)) xs m)"
  by (induction xs arbitrary: m) simp_all

lemma fold_write_ancillary:
  "msg_open m \<Longrightarrow> m_ancillary (fold (\<lambda>e. writeAncillaryData (f e)) xs m) = m_ancillary m @ map f xs"
  by (induction xs arbitrary: m) (simp_all add: writeAncillaryData_def msg_open_def)

lemma loops_open:
  "msg_open m \<Longrightarrow> msg_open (snd (snd (register_ex_loop E c pid chid n ifds b m)))"
  "msg_open m \<Longrightarrow> msg_open (snd (snd (register_master_loop E c n dxs b m)))"
  "msg_open m \<Longrightarrow> msg_open (snd (snd (available_ex_loop E c n nds b m)))"
  "msg_open m \<Longrightarrow> msg_open (snd (snd (match_loop E r ctx k es cnt m)))"
proof -
  show "msg_open m \<Longrightarrow> msg_open (snd (snd (register_ex_loop E c pid chid n ifds b m)))"
    by (induction E c pid chid n ifds b m rule: register_ex_loop.induct) (simp_all add: Let_def case_prod_beta)
  show "msg_open m \<Longrightarrow> msg_open (snd (snd (register_master_loop E c n dxs b m)))"
    by (induction E c n dxs b m rule: register_master_loop.induct) (simp_all add: Let_def case_prod_beta)
  show "msg_open m \<Longrightarrow> msg_open (snd (snd (available_ex_loop E c n nds b m)))"
  proof (induction n arbitrary: nds b m)
    case (Suc n)
    then show ?case by (cases nds) (simp_all add: Let_def case_prod_beta)
  qed simp
  show "msg_open m \<Longrightarrow> msg_open (snd (snd (match_loop E r ctx k es cnt m)))"
    by (induction es arbitrary: cnt m) simp_all
qed

lemma register_handlers_done:
  assumes "msg_open m"
  shows "msg_done (snd (handleRegisterInterface E c ifd chid pid b m))"
    and "msg_done (snd (handleRegisterInterfaceGroupID E c ifd chid pid g b m))"
    and "msg_done (snd (handleRegisterInterfaceEx E c chid pid n ifds b m))"
    and "msg_done (snd (handleRegisterMasterInterface E c n dxs b m))"
    and "msg_done (snd (handleUnregisterInterface E c s b m))"
  using assms loops_open(1,2) [OF assms]
  by (simp_all add: handleRegisterInterface_def handleRegisterInterfaceGroupID_def handleRegisterInterfaceEx_def
      handleRegisterMasterInterface_def handleUnregisterInterface_def Let_def case_prod_beta split: option.splits)

lemma notify_handlers_done:
  assumes "msg_open m"
  shows "msg_done (snd (handleNotifyServerDisconnect E c s p b m))"
    and "msg_done (snd (handleNotifyServerAvailable E c p ifd b m))"
    and "msg_done (snd (handleNotifyServerAvailableEx E c n nds b m))"
    and "msg_done (snd (handleNotifyClientDetach E c s p b m))"
    and "msg_done (snd (handleClearNofification c i b m))"
    and "msg_done (snd (handleNotifyInterfaceListChange E c p b m))"
    and "msg_done (snd (handleNotifyInterfaceListMatch E c p r b m))"
  using assms loops_open(3) [OF assms]
  by (simp_all add: handleNotifyServerDisconnect_def handleNotifyServerAvailable_def
      handleNotifyServerAvailableEx_def handleNotifyClientDetach_def handleClearNofification_def
      handleNotifyInterfaceListChange_def handleNotifyInterfaceListMatch_def Let_def case_prod_beta
      split: option.splits sum.splits prod.splits)

lemma forward_attach_open:
  assumes "msg_open m"
  shows "m_state (snd (snd (snd (forwardAttachExtendedToMaster E c p ifd b m)))) = State_DEFERRED
      \<and> msg_done (snd (snd (snd (forwardAttachExtendedToMaster E c p ifd b m))))
    \<or> msg_open (snd (snd (snd (forwardAttachExtendedToMaster E c p ifd b m))))"
proof -
  have "m_state (deferResponse m') = State_DEFERRED \<and> msg_done (deferResponse m')" if "\<not> m_asserted m'" for m'
    using that by (simp add: msg_done_def deferResponse_def)
  moreover have "\<not> m_asserted (deferResponse m)" "\<not> m_asserted m"
    using assms by (simp_all add: deferResponse_def msg_open_def)
  ultimately show ?thesis
    using assms
    by (simp add: forwardAttachExtendedToMaster_def forward_attach_request_def Let_def case_prod_beta)
qed

lemma attach_handlers_done:
  assumes "msg_open m"
  shows "msg_done (snd (handleAttachInterface E c ifd b m))"
    and "msg_done (snd (handleAttachInterfaceExtended E c p ifd b m))"
    and "msg_done (snd (handleGetServerInformation c ifd b m))"
    and "msg_done (snd (handleDetachInterface E c i b m))"
    and "msg_done (snd (handleGetInterfaceList c n b m))"
    and "msg_done (snd (handleMasterPingId c x b m))"
  using assms forward_attach_open [OF assms, of E c p ifd b] fold_write_open [OF assms, of anc_interface]
  by (auto simp: handleAttachInterface_def handleAttachInterfaceExtended_def handleAttachInterfaceExtended_local_def
      handleGetServerInformation_def handleDetachInterface_def handleGetInterfaceList_def handleMasterPingId_def
      Let_def case_prod_beta msg_open_simps(1) split: option.splits sum.splits prod.splits)

lemma match_list_done:
  assumes "msg_open m" and "e_regcomp E r"
  shows "msg_done (snd (handleMatchInterfaceList E c n r b m))"
  using assms loops_open(4) [OF assms(1)]
  by (simp add: handleMatchInterfaceList_def Let_def case_prod_beta)

lemma match_list_asserts:
  assumes "msg_open m" and "\<not> e_regcomp E r"
  shows "m_asserted (snd (handleMatchInterfaceList E c n r b m))"
    and "m_state (snd (handleMatchInterfaceList E c n r b m)) = State_SENT"
  using assms by (simp_all add: handleMatchInterfaceList_def prepareResponse_data_def msg_open_def Let_def)

lemma handle_request_done:
  assumes "msg_open m" and "\<not> bad_match E req" and "req \<noteq> MASTER_PING" and "\<forall>d. req \<noteq> OTHER_COMMAND d"
  shows "msg_done (snd (handle_request E c req b m))"
  using assms
  by (cases req)
    (simp_all add: register_handlers_done notify_handlers_done attach_handlers_done match_list_done bad_match_def)

text \<open>\<open>dispatch\<close> of a fresh context.\<close>

lemma dispatch_known:
  assumes "req \<noteq> MASTER_PING" and "\<forall>d. req \<noteq> OTHER_COMMAND d"
  shows "dispatch E c req v sz b m =
    (let (nBytes, m1) = readData sz rcvBuffer_size m
     in if 0 \<le> nBytes then
          (if 4 \<le> nBytes \<and> check_version v then
             (let (b1, m2) = (if length_ok req nBytes then handle_request E c req b m1 else (b, m1))
              in if m_state m2 = State_SENT \<or> m_state m2 = State_DEFERRED then (True, b1, m2)
                 else (True, b1, prepareResponse (status_code FNDInternalError) True m2))
           else (True, b, prepareResponse (status_code FNDBadFoundationVersion) True m1))
        else (True, b, prepareResponse (status_code FNDInternalError) True m1))"
  using assms unfolding dispatch_def by (cases req; hypsubst) simp_all

lemma answered_or_forced:
  "\<not> m_asserted m \<Longrightarrow>
    msg_done (if m_state m = State_SENT \<or> m_state m = State_DEFERRED then m else prepareResponse r True m)"
  by (simp add: msg_done_def [of m])

lemma dispatch_done:
  assumes "\<not> bad_match E req"
  shows "msg_done (snd (snd (dispatch E c req v sz b new_message)))"
proof (cases "req = MASTER_PING \<or> (\<exists>d. req = OTHER_COMMAND d)")
  case True
  then show ?thesis by (auto simp: dispatch_def new_message_def)
next
  case False
  define m1 where "m1 = snd (readData sz rcvBuffer_size new_message)"
  define m2 where "m2 = snd (if length_ok req (fst (readData sz rcvBuffer_size new_message))
    then handle_request E c req b m1 else (b, m1))"
  have open1: "msg_open m1" unfolding m1_def by simp
  have "msg_done (snd (handle_request E c req b m1))"
    by (rule handle_request_done [OF open1 assms]) (use False in auto)
  then have "\<not> m_asserted m2" using open1 by (simp add: m2_def msg_done_def msg_open_def)
  from answered_or_forced [OF this, of "status_code FNDInternalError"] show ?thesis
    using False open1
    by (auto simp: dispatch_known Let_def case_prod_beta m1_def [symmetric] m2_def msg_open_def split: if_splits)
qed

lemma dispatch_bad_match:
  assumes "\<not> e_regcomp E r" and "4 \<le> sz" and "check_version v"
  shows "m_asserted (snd (snd (dispatch E c (MATCH_INTERFACELIST n r) v sz b new_message)))"
proof -
  have "4 \<le> fst (readData sz rcvBuffer_size new_message)"
    using assms(2) by (simp add: readData_def buffer_read_def rcvBuffer_size_def Let_def)
  moreover have "msg_open (snd (readData sz rcvBuffer_size new_message))" by simp
  ultimately show ?thesis
    using match_list_asserts [OF _ assms(1)] assms(3) by (simp add: dispatch_def Let_def case_prod_beta)
qed

end
