(* ===== verification/Broker_Spec.thy ===== *)
theory Broker_Spec
  imports Broker_Responses
begin

text \<open>
  The functional behaviour of the operations: which notifications a trigger leaves, what a slave
  registers at its master, the effect of registering, unregistering, attaching and closing.
\<close>

section \<open>What the triggers leave in their list\<close>

lemma trigger_loop_list: "fst (trigger_loop E P ns b) = filter (\<lambda>n. \<not> P n) ns"
  by (induction ns arbitrary: b) (simp_all add: Let_def case_prod_beta)

lemma trigger_if_notifs [simp]:
  "notifs k (trigger_if E k' P b) = (if k = k' then filter (\<lambda>n. \<not> P n) (notifs k b) else notifs k b)"
  by (simp add: trigger_if_def Let_def case_prod_beta trigger_loop_list)

lemma trigger_if_loop_list:
  "fst (trigger_if_loop E d g ns b) =
     map (\<lambda>n. if if_matches d n then n\<lparr>n_active := False\<rparr> else n)
       (filter (\<lambda>n. \<not> (if_matches d n \<and> may_notify E g n)) ns)"
  by (induction ns arbitrary: b) (auto simp: Let_def case_prod_beta)

lemma trigger_interface_notifs:
  "notifs k (trigger_interface E k' d g b) =
     (if k = k' then map (\<lambda>n. if if_matches d n then n\<lparr>n_active := False\<rparr> else n)
        (filter (\<lambda>n. \<not> (if_matches d n \<and> may_notify E g n)) (notifs k b)) else notifs k b)"
  by (simp add: trigger_interface_def Let_def case_prod_beta trigger_if_loop_list)

text \<open>Sending keeps the identity of a notification; only its channel changes.\<close>

definition n_same :: "Notification \<Rightarrow> Notification \<Rightarrow> bool" where
  "n_same n n' \<longleftrightarrow> n'\<lparr>n_coid := n_coid n, n_pulse := n_pulse n\<rparr> = n"

lemma doConnect_same: "n_same n (fst (snd (doConnect E n b)))"
  by (simp add: doConnect_def n_same_def Let_def case_prod_beta)

lemma send_same: "n_same n (fst (notification_send E n b))"
  using doConnect_same [of n E b] by (simp add: notification_send_def Let_def case_prod_beta n_same_def)

lemma n_same_fields:
  assumes "n_same n n'"
  shows "n_notificationID n' = n_notificationID n" and "n_partyID n' = n_partyID n" and "n_active n' = n_active n"
    and "n_poolID n' = n_poolID n" and "n_host n' = n_host n" and "n_ifDescription n' = n_ifDescription n"
  using assms unfolding n_same_def by (cases n; cases n'; simp)+

lemma send_loop_ids: "map n_notificationID (fst (send_loop E P ns b)) = map n_notificationID ns"
  by (induction ns arbitrary: b) (simp_all add: Let_def case_prod_beta n_same_fields [OF send_same])

lemma triggerAll_ids:
  "map n_notificationID (notifs k (triggerAll E k' b)) = map n_notificationID (notifs k b)"
  "map n_notificationID (notifs k (triggerAll_interface E k' d b)) = map n_notificationID (notifs k b)"
  by (simp_all add: triggerAll_def triggerAll_interface_def Let_def case_prod_beta send_loop_ids)

lemma triggerAll_other:
  "k \<noteq> k' \<Longrightarrow> notifs k (triggerAll E k' b) = notifs k b"
  "k \<noteq> k' \<Longrightarrow> notifs k (triggerAll_interface E k' d b) = notifs k b"
  by (simp_all add: triggerAll_def triggerAll_interface_def Let_def case_prod_beta)

section \<open>Registering at the master\<close>

definition mark_pending :: "config \<Rightarrow> ServerListEntry \<Rightarrow> ServerListEntry" where
  "mark_pending cfg e = (if forwardable cfg e then e\<lparr>se_masterID := party_assign 0xffffffff\<rparr> else e)"

text \<open>The interfaces a registration job carries.\<close>

definition job_interfaces :: "Job \<Rightarrow> SFNDInterfaceDescriptionEx list" where
  "job_interfaces j = (case j_req j of REGISTER_MASTER_INTERFACE_EX _ dxs \<Rightarrow> dxs | _ \<Rightarrow> [])"

lemma job_interfaces_register [simp]: "job_interfaces (register_job batch) = batch"
  by (simp add: job_interfaces_def register_job_def Job_create_def)

lemma register_loop_entries: "fst (register_loop cfg es batch) = map (mark_pending cfg) es"
  by (induction cfg es batch rule: register_loop.induct)
    (simp_all add: Let_def case_prod_beta mark_pending_def)

lemma register_loop_jobs:
  "concat (map job_interfaces (snd (register_loop cfg es batch)))
     = batch @ map master_descr (filter (forwardable cfg) es)"
  by (induction cfg es batch rule: register_loop.induct) (simp_all add: Let_def case_prod_beta)

lemma register_loop_sizes:
  "length batch < MAX_MULTIPLE_COUNT \<Longrightarrow> j \<in> set (snd (register_loop cfg es batch))
     \<Longrightarrow> job_interfaces j \<noteq> [] \<and> length (job_interfaces j) \<le> MAX_MULTIPLE_COUNT"
proof (induction cfg es batch rule: register_loop.induct)
  case (2 cfg e es batch)
  then show ?case by (auto simp: Let_def case_prod_beta MAX_MULTIPLE_COUNT_def split: if_splits)
qed (auto split: if_splits)

lemma register_loop_full:
  "length batch < MAX_MULTIPLE_COUNT
     \<Longrightarrow> \<forall>j \<in> set (butlast (snd (register_loop cfg es batch))). length (job_interfaces j) = MAX_MULTIPLE_COUNT"
proof (induction cfg es batch rule: register_loop.induct)
  case (2 cfg e es batch)
  show ?case
  proof (cases "forwardable cfg e \<and> length (batch @ [master_descr e]) = MAX_MULTIPLE_COUNT")
    case True
    then show ?thesis using 2(1) by (simp add: Let_def case_prod_beta MAX_MULTIPLE_COUNT_def)
  next
    case False
    then show ?thesis using 2 by (auto simp: Let_def case_prod_beta MAX_MULTIPLE_COUNT_def)
  qed
qed simp

lemma mark_pending_not_forwardable: "\<not> forwardable cfg (mark_pending cfg e)"
  by (simp add: mark_pending_def forwardable_def globalID_def party_assign_def)

lemma mark_pending_idem [simp]: "mark_pending cfg (mark_pending cfg e) = mark_pending cfg e"
  by (simp add: mark_pending_not_forwardable mark_pending_def [of cfg "mark_pending cfg e"])

lemma fold_eval_fields [simp]:
  "mQueue (fold master_eval js b) = mQueue b @ js"
  "mConnectedServers (fold master_eval js b) = mConnectedServers b"
  "mConfig (fold master_eval js b) = mConfig b"
  "isMasterConnected (fold master_eval js b) = isMasterConnected b"
  "ocb (fold master_eval js b) = ocb b"
  "mAttachedClients (fold master_eval js b) = mAttachedClients b"
  "mConnections (fold master_eval js b) = mConnections b"
  "notifs k (fold master_eval js b) = notifs k b"
  "mNextClientID (fold master_eval js b) = mNextClientID b"
  "mUseServerCache (fold master_eval js b) = mUseServerCache b"
  "mExtendedID (fold master_eval js b) = mExtendedID b"
  by (induction js arbitrary: b) simp_all

text \<open>The jobs a registration run creates, and the table it leaves.\<close>

definition register_jobs :: "broker \<Rightarrow> Job list" where
  "register_jobs b = (if isMasterConnected b
     then snd (register_loop (mConfig b) (sl_entries (mConnectedServers b)) []) else [])"

lemma registerInterfacesMaster_queue: "mQueue (registerInterfacesMaster b) = mQueue b @ register_jobs b"
  by (simp add: registerInterfacesMaster_def register_jobs_def Let_def case_prod_beta)

lemma registerInterfacesMaster_servers:
  "mConnectedServers (registerInterfacesMaster b) = (if isMasterConnected b
     then (mConnectedServers b)\<lparr>sl_entries := map (mark_pending (mConfig b)) (sl_entries (mConnectedServers b))\<rparr>
     else mConnectedServers b)"
  by (simp add: registerInterfacesMaster_def Let_def case_prod_beta register_loop_entries)

lemma registerInterfacesMaster_fields [simp]:
  "mConfig (registerInterfacesMaster b) = mConfig b"
  "isMasterConnected (registerInterfacesMaster b) = isMasterConnected b"
  "ocb (registerInterfacesMaster b) = ocb b"
  "mAttachedClients (registerInterfacesMaster b) = mAttachedClients b"
  "mConnections (registerInterfacesMaster b) = mConnections b"
  "notifs k (registerInterfacesMaster b) = notifs k b"
  "mExtendedID (registerInterfacesMaster b) = mExtendedID b"
  by (simp_all add: registerInterfacesMaster_def Let_def case_prod_beta)

lemma register_loop_none:
  "filter (forwardable cfg) es = [] \<Longrightarrow> register_loop cfg es [] = (es, [])"
  by (induction es) (simp_all add: Let_def split: if_splits)

lemma registerInterfacesMaster_idem:
  "registerInterfacesMaster (registerInterfacesMaster b) = registerInterfacesMaster b"
proof (cases "isMasterConnected b")
  case True
  let ?b = "registerInterfacesMaster b"
  have "filter (forwardable (mConfig b)) (sl_entries (mConnectedServers ?b)) = []"
    using True by (simp add: registerInterfacesMaster_servers filter_empty_conv mark_pending_not_forwardable)
  then have "register_loop (mConfig ?b) (sl_entries (mConnectedServers ?b)) [] = (sl_entries (mConnectedServers ?b), [])"
    by (simp add: register_loop_none)
  then have "registerInterfacesMaster ?b
      = set_servers ((mConnectedServers ?b)\<lparr>sl_entries := sl_entries (mConnectedServers ?b)\<rparr>) ?b"
    using True by (simp add: registerInterfacesMaster_def [of ?b])
  then show ?thesis by (simp add: set_servers_def)
qed (simp add: registerInterfacesMaster_def)

section \<open>Registering an interface\<close>

text \<open>The entry \<open>addInterface\<close> makes.\<close>

definition interface_entry ::
    "env \<Rightarrow> nat \<Rightarrow> InterfaceDescription \<Rightarrow> u32 \<Rightarrow> u32 \<Rightarrow> bool \<Rightarrow> u32 \<Rightarrow> broker \<Rightarrow> ServerListEntry" where
  "interface_entry E c d pid chid isLocal grpid b =
     \<lparr>se_id = sNextServerEntryID b + 1,
      se_partyID = \<lparr>localID = mNextServerID b, extendedID = mExtendedID b\<rparr>, se_masterID = party_assign 0,
      se_nid = cx_nodeAddress (mConnections b c), se_pid = pid, se_chid = chid, se_ifDescription = d,
      se_implVersion = e_indet_impl E, se_grpid = grpid, se_local = isLocal\<rparr>"

lemma addInterface_new:
  assumes "sl_find_name (mConnectedServers b) (if_name d) = None"
  shows "fst (addInterface E c d pid chid loc g b) = Some (se_partyID (interface_entry E c d pid chid loc g b))"
    and "mConnectedServers (snd (addInterface E c d pid chid loc g b))
           = sl_add (interface_entry E c d pid chid loc g b) (mConnectedServers b)"
    and "notifs ServerConnect (snd (addInterface E c d pid chid loc g b))
           = map (\<lambda>n. if if_matches d n then n\<lparr>n_active := False\<rparr> else n)
               (filter (\<lambda>n. \<not> (if_matches d n \<and> may_notify E g n)) (notifs ServerConnect b))"
    and "set (mServerList (ocb (snd (addInterface E c d pid chid loc g b)) c))
           = insert (se_partyID (interface_entry E c d pid chid loc g b)) (set (mServerList (ocb b c)))"
  using assms
  by (simp_all add: addInterface_def Let_def new_ServerListEntry_def interface_entry_def triggerAll_other
      trigger_interface_notifs)

lemma addInterface_taken:
  "sl_find_name (mConnectedServers b) (if_name d) \<noteq> None \<Longrightarrow> addInterface E c d pid chid loc g b = (None, b)"
  by (simp add: addInterface_def)

lemma addInterface_fields [simp]:
  "mConfig (snd (addInterface E c d pid chid loc g b)) = mConfig b"
  "isMasterConnected (snd (addInterface E c d pid chid loc g b)) = isMasterConnected b"
  "mAttachedClients (snd (addInterface E c d pid chid loc g b)) = mAttachedClients b"
  "cx_slave (mConnections (snd (addInterface E c d pid chid loc g b)) c') = cx_slave (mConnections b c')"
  "cx_uid (mConnections (snd (addInterface E c d pid chid loc g b)) c') = cx_uid (mConnections b c')"
  "cx_nodeAddress (mConnections (snd (addInterface E c d pid chid loc g b)) c') = cx_nodeAddress (mConnections b c')"
  by (simp_all add: addInterface_def Let_def isMasterConnected_def [of "b\<lparr>sNextServerEntryID := _, mNextServerID := _\<rparr>"]
      isMasterConnected_def [of b])

text \<open>A registration at the master does not change what a lookup finds, except for the master id.\<close>

lemma mark_pending_fields [simp]:
  "se_ifDescription (mark_pending cfg e) = se_ifDescription e"
  "se_partyID (mark_pending cfg e) = se_partyID e"
  "se_nid (mark_pending cfg e) = se_nid e" "se_pid (mark_pending cfg e) = se_pid e"
  "se_chid (mark_pending cfg e) = se_chid e" "se_grpid (mark_pending cfg e) = se_grpid e"
  by (simp_all add: mark_pending_def)

lemma mark_pending_clear [simp]:
  "(mark_pending cfg e)\<lparr>se_masterID := x\<rparr> = e\<lparr>se_masterID := x\<rparr>"
  by (simp add: mark_pending_def)

lemma find_mark: "find (\<lambda>e. se_name e = n) (map (mark_pending cfg) es)
    = map_option (mark_pending cfg) (find (\<lambda>e. se_name e = n) es)"
  by (induction es) simp_all

lemma sl_sorted_mark: "sl_sorted (sl\<lparr>sl_entries := map (mark_pending cfg) (sl_entries sl)\<rparr>) = sl_sorted sl"
  by (simp add: sl_sorted_map comp_def)

lemma sl_find_name_mark:
  assumes "sl_sorted sl"
  shows "sl_find_name (sl\<lparr>sl_entries := map (mark_pending cfg) (sl_entries sl)\<rparr>) n
    = map_option (mark_pending cfg) (sl_find_name sl n)"
  using assms by (simp add: sl_find_name_eq sl_sorted_mark find_mark)

lemma find_registered:
  fixes E c pid chid loc g
  assumes "broker_inv b" and "sl_find_name (mConnectedServers b) (if_name d) = None"
  defines "e \<equiv> interface_entry E c d pid chid loc g b"
  defines "b' \<equiv> registerInterfacesMaster (snd (addInterface E c d pid chid loc g b))"
  shows "sl_find_if (mConnectedServers b') d
    = Some (if isMasterConnected b then mark_pending (mConfig b) e else e)"
proof -
  have s: "sl_sorted (mConnectedServers b)" using assms(1) by (rule broker_invD)
  have n: "se_name e = if_name d" by (simp add: e_def interface_entry_def)
  have ins: "sl_find_name (sl_add e (mConnectedServers b)) (if_name d) = Some e"
    using servers.lookup_insert [OF s, of e "if_name d"] assms(2) n by simp
  have s2: "sl_sorted (sl_add e (mConnectedServers b))" using sl_add_sorted [OF s] assms(2) n by simp
  have "sl_find_name (mConnectedServers b') (if_name d)
      = Some (if isMasterConnected b then mark_pending (mConfig b) e else e)"
    using ins sl_find_name_mark [OF s2]
    by (simp add: b'_def registerInterfacesMaster_servers addInterface_new(2) [OF assms(2)] e_def [symmetric])
  then show ?thesis by (simp add: sl_find_if_def e_def interface_entry_def)
qed

section \<open>The registration request\<close>

text \<open>The registered interfaces, whatever their registration at the master.\<close>

definition registrations :: "broker \<Rightarrow> ServerListEntry list" where
  "registrations b = map (\<lambda>e. e\<lparr>se_masterID := party_assign 0\<rparr>) (sl_entries (mConnectedServers b))"

lemma registrations_fields [simp]:
  "map se_partyID (registrations b) = map se_partyID (sl_entries (mConnectedServers b))"
  "map se_ifDescription (registrations b) = map se_ifDescription (sl_entries (mConnectedServers b))"
  by (simp_all add: registrations_def)

lemma registrations_cong: "mConnectedServers b' = mConnectedServers b \<Longrightarrow> registrations b' = registrations b"
  by (simp add: registrations_def)

lemma registrations_master [simp]: "registrations (registerInterfacesMaster b) = registrations b"
  by (simp add: registrations_def registerInterfacesMaster_servers comp_def)

lemma addInterface_more_fields [simp]:
  "mUseServerCache (snd (addInterface E c d pid chid loc g b)) = mUseServerCache b"
  "mNextClientID (snd (addInterface E c d pid chid loc g b)) = mNextClientID b"
  "mExtendedID (snd (addInterface E c d pid chid loc g b)) = mExtendedID b"
  "cx_localAddress (mConnections (snd (addInterface E c d pid chid loc g b)) c') = cx_localAddress (mConnections b c')"
  by (simp_all add: addInterface_def Let_def ocb_update_def set_servers_def)

lemma registerInterfacesMaster_more_fields [simp]:
  "mUseServerCache (registerInterfacesMaster b) = mUseServerCache b"
  "mNextClientID (registerInterfacesMaster b) = mNextClientID b"
  by (simp_all add: registerInterfacesMaster_def Let_def case_prod_beta set_servers_def)

text \<open>Which requests are accepted, and the answer to each.\<close>

definition may_register :: "nat \<Rightarrow> SFNDInterfaceDescription \<Rightarrow> broker \<Rightarrow> bool" where
  "may_register c ifd b \<longleftrightarrow> check_ifDescription ifd \<and> ctx_isLocal (mConnections b c)"

definition name_free :: "SFNDInterfaceDescription \<Rightarrow> broker \<Rightarrow> bool" where
  "name_free ifd b \<longleftrightarrow> sl_find_name (mConnectedServers b) (c_str (sf_name ifd)) = None"

lemma to_ifDescription_simps [simp]:
  "if_name (to_ifDescription d) = c_str (sf_name d)"
  "if_major (to_ifDescription d) = uint (v_major (sf_version d))"
  "if_minor (to_ifDescription d) = uint (v_minor (sf_version d))"
  by (simp_all add: to_ifDescription_def)

lemma register_accepted:
  assumes "may_register c ifd b" and "name_free ifd b"
  shows "handleRegisterInterface E c ifd chid pid b m =
    (registerInterfacesMaster (snd (addInterface E c (to_ifDescription ifd) pid chid
        (isLocalService (mConfig b) (c_str (sf_name ifd))) SB_UNKNOWN_GROUP_ID b)),
     prepareResponse_data (status_code FNDOK)
       (Some (BodyServerID \<lparr>localID = mNextServerID b, extendedID = mExtendedID b\<rparr>)) m)"
proof -
  have free: "sl_find_name (mConnectedServers b) (if_name (to_ifDescription ifd)) = None"
    using assms(2) by (simp add: name_free_def)
  show ?thesis
    using assms(1) addInterface_new(1) [OF free]
    by (simp add: handleRegisterInterface_def may_register_def Let_def case_prod_beta interface_entry_def)
qed

lemma register_taken:
  assumes "may_register c ifd b" and "\<not> name_free ifd b"
  shows "handleRegisterInterface E c ifd chid pid b m =
    (registerInterfacesMaster b, prepareResponse (status_code FNDInterfaceAlreadyRegistered) False m)"
  using assms by (simp add: handleRegisterInterface_def may_register_def name_free_def addInterface_taken)

lemma register_refused:
  "\<not> may_register c ifd b \<Longrightarrow> handleRegisterInterface E c ifd chid pid b m =
    (b, prepareResponse (status_code FNDBadArgument) False m)"
  by (auto simp: handleRegisterInterface_def may_register_def)

section \<open>Attaching to a registered interface\<close>

text \<open>The id a new client of a server gets, where the broker gives it out itself.\<close>

definition fresh_clientID :: "SPartyID \<Rightarrow> broker \<Rightarrow> SPartyID" where
  "fresh_clientID serverID b =
     \<lparr>localID = mNextClientID b, extendedID = (if mTreeMode (mConfig b) then mExtendedID b else extendedID serverID)\<rparr>"

lemma addClient_fresh:
  assumes "\<not> mUseServerCache b \<or> \<not> cx_slave (mConnections b c)"
  shows "fst (addClient c i s b) = fresh_clientID s b"
    and "mAttachedClients (snd (addClient c i s b)) = cl_push_back (fresh_clientID s b) s c (mAttachedClients b)"
    and "globalID (fresh_clientID s b) \<noteq> 0 \<Longrightarrow> clientExists (ocb (snd (addClient c i s b)) c) (fresh_clientID s b)"
  using assms
  by (auto simp: addClient_def fresh_clientID_def Let_def clientExists_def ocb_def ocb_update_def)

text \<open>What a caller needs for an interface that was registered for a group.\<close>

definition access_granted :: "env \<Rightarrow> connection \<Rightarrow> ServerListEntry \<Rightarrow> bool" where
  "access_granted E ctx e \<longleftrightarrow>
     se_grpid e = SB_UNKNOWN_GROUP_ID
     \<or> ctx_isLocal ctx \<and> cx_uid ctx \<noteq> SB_UNKNOWN_USER_ID \<and> (cx_uid ctx = 0 \<or> in_group E (cx_uid ctx) (se_grpid e))"

lemma attach_local_denied:
  "\<not> access_granted E (mConnections b c) e \<Longrightarrow> handleAttachLocalInterface E c e b = (Inl FNDAccessDenied, b)"
  by (auto simp: access_granted_def handleAttachLocalInterface_def checkAccessPrivileges_def Let_def)

lemma attach_local_granted:
  assumes "access_granted E (mConnections b c) e"
  shows "handleAttachLocalInterface E c e b =
    (Inr \<lparr>ci_version = \<lparr>v_major = word_of_int (if_major (se_ifDescription e)),
                       v_minor = word_of_int (if_minor (se_ifDescription e))\<rparr>,
          ci_channel = \<lparr>c_nid = 0, c_pid = translateLocal (mConnections b c) (se_name e) (se_pid e), c_chid = se_chid e\<rparr>,
          ci_serverID = se_partyID e, ci_clientID = fst (addClient c (party_assign 0) (se_partyID e) b)\<rparr>,
     snd (addClient c (party_assign 0) (se_partyID e) b))"
  using assms
  by (auto simp: access_granted_def handleAttachLocalInterface_def checkAccessPrivileges_def Let_def case_prod_beta
      nullTranslator_def)

text \<open>A registration followed by an attachment, by any two clients.\<close>

lemma registered_is_attached:
  fixes E c chid pid m
  assumes "broker_inv b" and "msg_open m" and "msg_open m2"
    and "may_register c ifd b" and "name_free ifd b"
    and "check_ifDescription want" and "c_str (sf_name want) = c_str (sf_name ifd)"
    and "v_major (sf_version want) = v_major (sf_version ifd)" and "v_minor (sf_version want) \<le> v_minor (sf_version ifd)"
    and "\<not> mUseServerCache b"
  defines "b1 \<equiv> fst (handleRegisterInterface E c ifd chid pid b m)"
    and "m1 \<equiv> snd (handleRegisterInterface E c ifd chid pid b m)"
    and "s \<equiv> \<lparr>localID = mNextServerID b, extendedID = mExtendedID b\<rparr>"
  shows "m_returncode m1 = status_code FNDOK \<and> m_body m1 = Some (BodyServerID s)
    \<and> (let r = handleAttachInterface E c2 want b1 m2
       in m_returncode (snd r) = status_code FNDOK
          \<and> m_body (snd r) = Some (BodyConnection
               \<lparr>ci_version = sf_version ifd,
                ci_channel = \<lparr>c_nid = 0, c_pid = translateLocal (mConnections b c2) (c_str (sf_name ifd)) pid, c_chid = chid\<rparr>,
                ci_serverID = s, ci_clientID = fresh_clientID s b\<rparr>)
          \<and> mAttachedClients (fst r) = cl_push_back (fresh_clientID s b) s c2 (mAttachedClients b))"
proof -
  let ?d = "to_ifDescription ifd" and ?loc = "isLocalService (mConfig b) (c_str (sf_name ifd))"
  let ?e = "interface_entry E c ?d pid chid ?loc SB_UNKNOWN_GROUP_ID b"
  define e where "e = (if isMasterConnected b then mark_pending (mConfig b) ?e else ?e)"
  have free: "sl_find_name (mConnectedServers b) (if_name ?d) = None" using assms(5) by (simp add: name_free_def)
  have b1: "b1 = registerInterfacesMaster (snd (addInterface E c ?d pid chid ?loc SB_UNKNOWN_GROUP_ID b))"
    by (simp add: b1_def register_accepted [OF assms(4,5)])
  have "sl_find_if (mConnectedServers b1) ?d = Some e"
    unfolding b1 e_def by (rule find_registered [OF assms(1) free])
  then have found: "sl_find_if (mConnectedServers b1) (to_ifDescription want) = Some e"
    using assms(7-9) by (auto simp: sl_find_if_def word_le_def split: option.splits if_splits)
  have e: "se_grpid e = SB_UNKNOWN_GROUP_ID" "se_name e = c_str (sf_name ifd)" "se_pid e = pid" "se_chid e = chid"
    "se_partyID e = s" "se_ifDescription e = ?d"
    by (simp_all add: e_def interface_entry_def s_def)
  have attach: "handleAttachLocalInterface E c2 e b1 = (Inr
      \<lparr>ci_version = sf_version ifd,
       ci_channel = \<lparr>c_nid = 0, c_pid = translateLocal (mConnections b c2) (c_str (sf_name ifd)) pid, c_chid = chid\<rparr>,
       ci_serverID = s, ci_clientID = fresh_clientID s b\<rparr>, snd (addClient c2 (party_assign 0) s b1))"
    using assms(10) e
    by (simp add: attach_local_granted access_granted_def addClient_fresh b1 fresh_clientID_def translateLocal_def)
  have "mAttachedClients (snd (addClient c2 (party_assign 0) s b1)) = cl_push_back (fresh_clientID s b) s c2 (mAttachedClients b)"
    using assms(10) by (simp add: addClient_fresh b1 fresh_clientID_def)
  with attach found show ?thesis
    using assms(2,3,6) by (simp add: m1_def register_accepted [OF assms(4,5)] s_def handleAttachInterface_def Let_def)
qed

end
