(* ===== verification/Broker_Cleanup.thy ===== *)
theory Broker_Cleanup
  imports Broker_Spec
begin

text \<open>
  What is left of a server, a client and a connection after it is unregistered, detached or closed.
\<close>

section \<open>Unregistering\<close>

lemma unregister_master_fields [simp]:
  "registrations (unregisterInterfaceMaster s e b) = registrations b"
  "mAttachedClients (unregisterInterfaceMaster s e b) = mAttachedClients b"
  "mConnections (unregisterInterfaceMaster s e b) = mConnections b"
  "notifs k (unregisterInterfaceMaster s e b) = notifs k b"
  "ocb (unregisterInterfaceMaster s e b) = ocb b"
  by (simp_all add: unregisterInterfaceMaster_def unregister_job_def registrations_def sl_set_masterID_def
      map_update_first)

lemma registrations_remove:
  "registrations (set_servers (sl_remove s (mConnectedServers b)) b)
     = erase_first (\<lambda>e. se_partyID e = s) (registrations b)"
  by (simp add: registrations_def sl_remove_def map_erase_first [where Q = "\<lambda>e. se_partyID e = s"])

lemma unregister_master_partyIDs [simp]:
  "map se_partyID (sl_entries (mConnectedServers (unregisterInterfaceMaster s e b)))
     = map se_partyID (sl_entries (mConnectedServers b))"
  by (metis registrations_fields(1) unregister_master_fields(1))

text \<open>The whole effect of an accepted request.\<close>

lemma unregister_accepted:
  fixes E c s m
  assumes "serverExists (ocb b c) s" and "sl_find_id (mConnectedServers b) s = Some e"
  defines "r \<equiv> handleUnregisterInterface E c s b m"
  shows "registrations (fst r) = erase_first (\<lambda>e. se_partyID e = s) (registrations b)"
    and "mAttachedClients (fst r) = cl_removeServer s (mAttachedClients b)"
    and "notifs ServerDisconnect (fst r)
           = filter (\<lambda>n. \<not> (n_active n \<and> n_partyID n = s)) (notifs ServerDisconnect b)"
    and "k \<noteq> ServerDisconnect \<Longrightarrow> map n_notificationID (notifs k (fst r)) = map n_notificationID (notifs k b)"
    and "snd r = prepareResponse (status_code FNDOK) False m"
    and "mServerList (ocb (fst r) c) = pid_remove s (mServerList (ocb b c))"
proof -
  let ?b3 = "unregisterInterfaceMaster s e (trigger_party E ServerDisconnect s (ocb_update c (removeServer s) b))"
  let ?b4 = "set_servers (sl_remove s (mConnectedServers ?b3)) ?b3"
  have r: "r = (triggerAll E ServerListChange (?b4\<lparr>mAttachedClients := cl_removeServer s (mAttachedClients ?b4)\<rparr>),
      prepareResponse (status_code FNDOK) False m)"
    using assms(1,2) by (simp add: r_def handleUnregisterInterface_def Let_def)
  have "registrations ?b4 = erase_first (\<lambda>e. se_partyID e = s) (registrations b)"
    by (simp add: registrations_remove registrations_cong [of "trigger_party E ServerDisconnect s b'" b' for b']
        registrations_cong [of "ocb_update c f b'" b' for f b'])
  then show "registrations (fst r) = erase_first (\<lambda>e. se_partyID e = s) (registrations b)"
    by (simp add: r registrations_def)
  show "mAttachedClients (fst r) = cl_removeServer s (mAttachedClients b)" by (simp add: r)
  show "notifs ServerDisconnect (fst r)
      = filter (\<lambda>n. \<not> (n_active n \<and> n_partyID n = s)) (notifs ServerDisconnect b)"
    by (simp add: r triggerAll_other trigger_party_def)
  show "map n_notificationID (notifs k (fst r)) = map n_notificationID (notifs k b)" if "k \<noteq> ServerDisconnect"
    using that by (simp add: r triggerAll_ids trigger_party_def)
  show "snd r = prepareResponse (status_code FNDOK) False m" by (simp add: r)
  show "mServerList (ocb (fst r) c) = pid_remove s (mServerList (ocb b c))"
    by (simp add: r removeServer_def)
qed

section \<open>The servers and clients of a closed connection\<close>

lemma clear_servers_keeps [simp]:
  "notifs k (clear_servers ids b) = notifs k b"
  "mConnections (clear_servers ids b) = mConnections b"
  by (induction ids arbitrary: b) (simp_all add: Let_def split: option.splits)

lemma find_id_registered: "sl_find_id (mConnectedServers b) s = None \<longleftrightarrow> s \<notin> se_partyID ` set (registrations b)"
  by (auto simp: sl_find_id_def find_None_iff registrations_def image_image)

lemma clear_servers_registrations:
  "distinct (map se_partyID (registrations b)) \<Longrightarrow>
     registrations (clear_servers ids b) = filter (\<lambda>e. se_partyID e \<notin> set ids) (registrations b)"
proof (induction ids arbitrary: b)
  case (Cons s ids)
  show ?case
  proof (cases "sl_find_id (mConnectedServers b) s")
    case None
    then have "filter (\<lambda>e. se_partyID e \<notin> set (s # ids)) (registrations b)
        = filter (\<lambda>e. se_partyID e \<notin> set ids) (registrations b)"
      by (intro filter_cong) (auto simp: find_id_registered)
    with None Cons show ?thesis by simp
  next
    case (Some e)
    let ?b1 = "unregisterInterfaceMaster s e b"
    let ?b2 = "set_servers (sl_remove s (mConnectedServers ?b1)) ?b1"
    let ?b3 = "?b2\<lparr>mAttachedClients := cl_removeServer s (mAttachedClients ?b2)\<rparr>"
    have "registrations ?b3 = registrations ?b2" by (rule registrations_cong) simp
    then have reg: "registrations ?b3 = filter (\<lambda>e. se_partyID e \<noteq> s) (registrations b)"
      using Cons.prems by (simp add: registrations_remove erase_first_filter del: registrations_fields)
    moreover have "distinct (map se_partyID (registrations ?b3))"
      unfolding reg using Cons.prems by (rule distinct_map_filter)
    ultimately show ?thesis using Some Cons.IH [of ?b3] by (simp add: Let_def conj_commute)
  qed
qed simp

lemma clear_servers_clients:
  "set (cl_entries (mAttachedClients (clear_servers ids b))) \<subseteq> set (cl_entries (mAttachedClients b))"
proof (induction ids arbitrary: b)
  case (Cons s ids)
  show ?case
  proof (cases "sl_find_id (mConnectedServers b) s")
    case (Some e)
    then show ?thesis by (auto simp: Let_def cl_removeServer_def dest!: Cons.IH [THEN subsetD])
  qed (use Cons in simp)
qed simp

text \<open>The clients of a server that was found are gone with it.\<close>

lemma clear_servers_no_clients:
  assumes "s \<in> set ids" and "sl_find_id (mConnectedServers b) s \<noteq> None"
    and "distinct (map se_partyID (registrations b))"
    and "x \<in> set (cl_entries (mAttachedClients (clear_servers ids b)))"
  shows "cl_serverId x \<noteq> s"
  using assms
proof (induction ids arbitrary: b)
  case (Cons t ids)
  show ?case
  proof (cases "sl_find_id (mConnectedServers b) t")
    case None
    then show ?thesis using Cons by auto
  next
    case (Some e)
    let ?b1 = "unregisterInterfaceMaster t e b"
    let ?b2 = "set_servers (sl_remove t (mConnectedServers ?b1)) ?b1"
    let ?b3 = "?b2\<lparr>mAttachedClients := cl_removeServer t (mAttachedClients ?b2)\<rparr>"
    have x: "x \<in> set (cl_entries (mAttachedClients (clear_servers ids ?b3)))"
      using Cons.prems(4) Some by (simp add: Let_def)
    show ?thesis
    proof (cases "s = t")
      case True
      then show ?thesis using clear_servers_clients [of ids ?b3] x by (auto simp: cl_removeServer_def)
    next
      case False
      have reg3: "registrations ?b3 = erase_first (\<lambda>e. se_partyID e = t) (registrations b)"
        using registrations_cong [of ?b3 ?b2] by (simp add: registrations_remove)
      have "s \<in> se_partyID ` set (registrations ?b3)"
        using Cons.prems(2) False unfolding find_id_registered reg3 by (auto intro: erase_first_other)
      then have "sl_find_id (mConnectedServers ?b3) s \<noteq> None" by (simp only: find_id_registered not_not)
      moreover have "distinct (map se_partyID (registrations ?b3))"
        unfolding reg3 using Cons.prems(3) by (rule distinct_map_erase_first)
      moreover have "s \<in> set ids" using Cons.prems(1) False by simp
      ultimately show ?thesis using Cons.IH x by blast
    qed
  qed
qed simp

lemma clear_clients_keeps [simp]:
  "mConnectedServers (clear_clients ids b) = mConnectedServers b"
  "notifs k (clear_clients ids b) = notifs k b"
  "mConnections (clear_clients ids b) = mConnections b"
  by (induction ids arbitrary: b) (simp_all add: Let_def)

lemma clear_clients_entries:
  "distinct (map cl_clientId (cl_entries (mAttachedClients b))) \<Longrightarrow>
     cl_entries (mAttachedClients (clear_clients ids b))
       = filter (\<lambda>e. cl_clientId e \<notin> set ids) (cl_entries (mAttachedClients b))"
proof (induction ids arbitrary: b)
  case (Cons i ids)
  then show ?case
    by (simp add: Let_def cl_remove_def erase_first_filter distinct_map_filter conj_commute)
qed simp

section \<open>The notifications of a closed connection\<close>

definition owned_ids :: "nat \<Rightarrow> broker \<Rightarrow> u32 set" where
  "owned_ids c b = set (mNotificationList (ocb b c))"

text \<open>No two notifications have the same id (the 32-bit counter has not come round).\<close>

definition ids_distinct :: "broker \<Rightarrow> bool" where
  "ids_distinct b \<longleftrightarrow> (\<forall>k. distinct (map n_notificationID (notifs k b)))
     \<and> (\<forall>k k'. k \<noteq> k' \<longrightarrow> n_notificationID ` set (notifs k b) \<inter> n_notificationID ` set (notifs k' b) = {})"

text \<open>Every notification whose id is in \<open>I\<close> is still in the vector of the connection.\<close>

definition still_owned :: "nat \<Rightarrow> u32 set \<Rightarrow> broker \<Rightarrow> bool" where
  "still_owned c I b \<longleftrightarrow> (\<forall>k. \<forall>n \<in> set (notifs k b). n_notificationID n \<in> I \<longrightarrow> n_notificationID n \<in> owned_ids c b)"

lemma destroy_owned:
  "i \<in> owned_ids c b \<Longrightarrow> i \<noteq> n_notificationID n \<Longrightarrow> i \<in> owned_ids c (destroy_Notification n b)"
  using removeNotification_other [of i "n_notificationID n"]
  by (auto simp: owned_ids_def destroy_ocb notificationExists_def split: option.splits)

lemma send_owned [simp]: "owned_ids c (snd (notification_send E n b)) = owned_ids c b"
  by (simp add: owned_ids_def ocb_def)

lemma trigger_loop_owned:
  "i \<in> owned_ids c b \<Longrightarrow> \<forall>n \<in> set ns. P n \<longrightarrow> n_notificationID n \<noteq> i
     \<Longrightarrow> i \<in> owned_ids c (snd (trigger_loop E P ns b))"
  by (induction ns arbitrary: b) (auto simp: Let_def case_prod_beta destroy_owned n_same_fields [OF send_same])

lemma set_notifs_owned [simp]: "owned_ids c (set_notifs k ns b) = owned_ids c b"
  by (simp add: owned_ids_def ocb_def set_notifs_def)

lemma ids_distinct_filter:
  assumes "ids_distinct b" and "\<And>k. \<exists>Q. notifs k b' = filter Q (notifs k b)"
  shows "ids_distinct b'"
proof -
  from assms(2) have "\<exists>Q. \<forall>k. notifs k b' = filter (Q k) (notifs k b)" by (rule choice_iff [THEN iffD1, rule_format])
  then obtain Q where Q: "\<And>k. notifs k b' = filter (Q k) (notifs k b)" by blast
  show ?thesis
    using assms(1) unfolding ids_distinct_def Q by (auto intro: distinct_map_filter) blast
qed

lemma same_id_same:
  "distinct (map f xs) \<Longrightarrow> x \<in> set xs \<Longrightarrow> y \<in> set xs \<Longrightarrow> f x = f y \<Longrightarrow> x = y"
  by (auto simp: distinct_map inj_on_def)

lemma still_owned_trigger:
  assumes "ids_distinct b" and "still_owned c I b"
  shows "ids_distinct (trigger_if E k P b) \<and> still_owned c I (trigger_if E k P b)"
proof
  have "\<exists>Q. notifs k' (trigger_if E k P b) = filter Q (notifs k' b)" for k'
    by (cases "k' = k") (auto intro: exI [of _ "\<lambda>_. True"])
  then show "ids_distinct (trigger_if E k P b)" by (rule ids_distinct_filter [OF assms(1)])
  have keep: "i \<in> owned_ids c b \<Longrightarrow> \<forall>n \<in> set (notifs k b). P n \<longrightarrow> n_notificationID n \<noteq> i
      \<Longrightarrow> i \<in> owned_ids c (trigger_if E k P b)" for i
    by (simp add: trigger_if_def Let_def case_prod_beta trigger_loop_owned)
  show "still_owned c I (trigger_if E k P b)"
    unfolding still_owned_def
  proof (intro allI ballI impI)
    fix k' n assume n: "n \<in> set (notifs k' (trigger_if E k P b))" and i: "n_notificationID n \<in> I"
    have nb: "n \<in> set (notifs k' b)" "k' = k \<Longrightarrow> \<not> P n" using n by (auto split: if_splits)
    have "n_notificationID x \<noteq> n_notificationID n" if "x \<in> set (notifs k b)" "P x" for x
      using assms(1) nb that same_id_same [of n_notificationID "notifs k b" x n]
      unfolding ids_distinct_def by (cases "k' = k") (auto, blast)
    then show "n_notificationID n \<in> owned_ids c (trigger_if E k P b)"
      using assms(2) nb(1) i by (intro keep) (auto simp: still_owned_def)
  qed
qed

text \<open>Removing by the vector removes every notification whose id it holds, and loses no other id.\<close>

lemma remove_ids_loop_owned:
  "i \<in> owned_ids c b \<Longrightarrow> i \<notin> n_notificationID ` set ns \<Longrightarrow> i \<in> owned_ids c (snd (remove_ids_loop c ns b))"
  by (induction ns arbitrary: b) (auto simp: Let_def case_prod_beta destroy_owned)

lemma remove_ids_loop_list:
  "distinct (map n_notificationID ns) \<Longrightarrow>
     \<forall>i \<in> I. i \<in> n_notificationID ` set ns \<longrightarrow> i \<in> owned_ids c b
     \<Longrightarrow> \<exists>Q. fst (remove_ids_loop c ns b) = filter Q ns \<and> (\<forall>n \<in> set (filter Q ns). n_notificationID n \<notin> I)"
proof (induction ns arbitrary: b)
  case (Cons n ns)
  show ?case
  proof (cases "n_notificationID n \<in> owned_ids c b")
    case True
    have own: "\<forall>i \<in> I. i \<in> n_notificationID ` set ns \<longrightarrow> i \<in> owned_ids c (destroy_Notification n b)"
      using Cons.prems by (intro ballI impI destroy_owned) (auto simp: image_iff)
    have "distinct (map n_notificationID ns)" using Cons.prems(1) by simp
    from Cons.IH [OF this own] obtain Q where Q: "fst (remove_ids_loop c ns (destroy_Notification n b)) = filter Q ns"
      "\<forall>x \<in> set (filter Q ns). n_notificationID x \<notin> I" by blast
    have "filter (\<lambda>x. Q x \<and> n_notificationID x \<noteq> n_notificationID n) ns = filter Q ns"
      using Cons.prems(1) by (intro filter_cong) (auto simp: image_iff)
    with True Q show ?thesis
      by (intro exI [of _ "\<lambda>x. Q x \<and> n_notificationID x \<noteq> n_notificationID n"])
        (simp add: owned_ids_def)
  next
    case False
    then have nI: "n_notificationID n \<notin> I" using Cons.prems(2) by auto
    obtain Q where Q: "fst (remove_ids_loop c ns b) = filter Q ns"
      "\<forall>x \<in> set (filter Q ns). n_notificationID x \<notin> I" using Cons.IH [of b] Cons.prems by auto
    have "filter (\<lambda>x. x = n \<or> Q x) ns = filter Q ns"
      using Cons.prems(1) by (intro filter_cong) auto
    with False nI Q show ?thesis
      by (intro exI [of _ "\<lambda>x. x = n \<or> Q x"]) (auto simp: owned_ids_def Let_def case_prod_beta)
  qed
qed simp

lemma still_owned_remove:
  assumes "ids_distinct b" and "still_owned c I b"
  shows "ids_distinct (remove_ids k c b)" and "still_owned c I (remove_ids k c b)"
    and "\<And>n. n \<in> set (notifs k (remove_ids k c b)) \<Longrightarrow> n_notificationID n \<notin> I"
    and "\<And>k'. set (notifs k' (remove_ids k c b)) \<subseteq> set (notifs k' b)"
proof -
  have "\<forall>i \<in> I. i \<in> n_notificationID ` set (notifs k b) \<longrightarrow> i \<in> owned_ids c b"
    using assms(2) by (auto simp: still_owned_def)
  then obtain Q where Q: "fst (remove_ids_loop c (notifs k b) b) = filter Q (notifs k b)"
    "\<forall>n \<in> set (filter Q (notifs k b)). n_notificationID n \<notin> I"
    using remove_ids_loop_list [of "notifs k b" I c b] assms(1) by (auto simp: ids_distinct_def)
  have n: "notifs k' (remove_ids k c b) = filter (\<lambda>n. k' = k \<longrightarrow> Q n) (notifs k' b)" for k'
    by (simp add: remove_ids_def Let_def case_prod_beta Q)
  then show "ids_distinct (remove_ids k c b)" by (intro ids_distinct_filter [OF assms(1)]) blast
  show gone: "n_notificationID x \<notin> I" if "x \<in> set (notifs k (remove_ids k c b))" for x
    using that Q(2) n by auto
  show "set (notifs k' (remove_ids k c b)) \<subseteq> set (notifs k' b)" for k' using n by auto
  have "x \<in> owned_ids c (remove_ids k c b)" if "x \<in> owned_ids c b" "x \<notin> n_notificationID ` set (notifs k b)" for x
    using remove_ids_loop_owned [OF that] by (simp add: remove_ids_def Let_def case_prod_beta)
  then show "still_owned c I (remove_ids k c b)"
    using assms gone unfolding still_owned_def ids_distinct_def
    by (metis (no_types, lifting) IntI empty_iff filter_is_subset image_eqI n subset_iff)
qed

lemma clear_connection_notifications:
  assumes "ids_distinct b" and "n \<in> set (notifs k (clear_connection E c b))"
  shows "n_notificationID n \<notin> owned_ids c b"
proof -
  let ?I = "owned_ids c b"
  define b1 where "b1 = clear_clients (mClientList (ocb b c)) (clear_servers (mServerList (ocb b c)) b)"
  define b3 where "b3 = trigger_parties E ClientDetach (mClientList (ocb b c))
    (trigger_parties E ServerDisconnect (mServerList (ocb b c)) b1)"
  define b4 where "b4 = remove_ids ServerDisconnect c b3"
  define b5 where "b5 = remove_ids ClientDetach c b4"
  define b6 where "b6 = remove_ids ServerConnect c b5"
  define b7 where "b7 = remove_ids ServerListChange c b6"
  note steps = b1_def b3_def b4_def b5_def b6_def b7_def
  have "ids_distinct b1 \<and> still_owned c ?I b1"
    using assms(1) by (simp add: b1_def ids_distinct_def still_owned_def owned_ids_def ocb_def)
  then have 3: "ids_distinct b3" "still_owned c ?I b3"
    unfolding b3_def trigger_parties_def using still_owned_trigger by blast+
  note 4 = still_owned_remove [OF 3, where k = ServerDisconnect, folded b4_def]
  note 5 = still_owned_remove [OF 4(1,2), where k = ClientDetach, folded b5_def]
  note 6 = still_owned_remove [OF 5(1,2), where k = ServerConnect, folded b6_def]
  note 7 = still_owned_remove [OF 6(1,2), where k = ServerListChange, folded b7_def]
  have none: "n_notificationID x \<notin> ?I" if "x \<in> set (notifs k b7)" for x
    using that 7(3,4) 6(3,4) 5(3,4) 4(3) by (cases k) blast+
  have "n_notificationID ` set (notifs k (clear_connection E c b)) = n_notificationID ` set (notifs k b7)"
    using arg_cong [OF triggerAll_ids(1) [of k E ServerListChange b7], of set]
    by (simp add: clear_connection_def Let_def steps)
  with assms(2) none show ?thesis by (metis (no_types, lifting) imageE imageI)
qed

section \<open>A closed connection\<close>

lemma clear_connection_tables:
  fixes E c b
  defines "b1 \<equiv> clear_clients (mClientList (ocb b c)) (clear_servers (mServerList (ocb b c)) b)"
  shows "mConnectedServers (clear_connection E c b) = mConnectedServers b1"
    and "mAttachedClients (clear_connection E c b) = mAttachedClients b1"
  by (simp_all add: clear_connection_def Let_def b1_def)

lemma clear_connection_registrations:
  assumes "distinct (map se_partyID (registrations b))"
  shows "registrations (clear_connection E c b)
    = filter (\<lambda>e. se_partyID e \<notin> set (mServerList (ocb b c))) (registrations b)"
proof -
  have "registrations (clear_connection E c b) = registrations (clear_servers (mServerList (ocb b c)) b)"
    by (rule registrations_cong) (simp add: clear_connection_tables)
  then show ?thesis by (simp add: clear_servers_registrations [OF assms])
qed

lemma clear_servers_distinct:
  "distinct (map cl_clientId (cl_entries (mAttachedClients b))) \<Longrightarrow>
     distinct (map cl_clientId (cl_entries (mAttachedClients (clear_servers ids b))))"
  by (induction ids arbitrary: b)
    (auto simp: Let_def cl_removeServer_def distinct_map_filter split: option.splits)

lemma clear_connection_clients:
  assumes "distinct (map se_partyID (registrations b))"
    and "distinct (map cl_clientId (cl_entries (mAttachedClients b)))"
    and "x \<in> set (cl_entries (mAttachedClients (clear_connection E c b)))"
  shows "x \<in> set (cl_entries (mAttachedClients b)) \<and> cl_clientId x \<notin> set (mClientList (ocb b c))
    \<and> (cl_serverId x \<in> se_partyID ` set (registrations b) \<longrightarrow> cl_serverId x \<notin> set (mServerList (ocb b c)))"
proof -
  let ?b1 = "clear_servers (mServerList (ocb b c)) b"
  have x: "x \<in> set (cl_entries (mAttachedClients ?b1))" "cl_clientId x \<notin> set (mClientList (ocb b c))"
    using assms(3) by (auto simp: clear_connection_tables clear_clients_entries [OF clear_servers_distinct [OF assms(2)]])
  then show ?thesis
    using clear_servers_clients [of "mServerList (ocb b c)" b]
      clear_servers_no_clients [OF _ _ assms(1) x(1)] by (auto simp: find_id_registered)
qed

lemma remove_ids_subset: "set (notifs k (remove_ids k' c b)) \<subseteq> set (notifs k b)"
proof -
  have "set (fst (remove_ids_loop c ns b)) \<subseteq> set ns" for ns
    by (induction ns arbitrary: b) (auto simp: Let_def case_prod_beta)
  then show ?thesis by (simp add: remove_ids_def Let_def case_prod_beta)
qed

lemma clear_connection_announced:
  assumes "n \<in> set (notifs ServerDisconnect (clear_connection E c b))" and "n_active n"
  shows "n_partyID n \<notin> set (mServerList (ocb b c))"
proof -
  let ?b1 = "clear_clients (mClientList (ocb b c)) (clear_servers (mServerList (ocb b c)) b)"
  have "set (notifs ServerDisconnect (clear_connection E c b))
      \<subseteq> set (notifs ServerDisconnect (trigger_parties E ServerDisconnect (mServerList (ocb b c)) ?b1))"
    using remove_ids_subset [of ServerDisconnect]
    by (auto simp: clear_connection_def Let_def triggerAll_other trigger_parties_def [of _ ClientDetach]
        dest!: remove_ids_subset [THEN subsetD])
  with assms show ?thesis by (auto simp: trigger_parties_def)
qed

lemma clear_connection_announced_detach:
  assumes "n \<in> set (notifs ClientDetach (clear_connection E c b))" and "n_active n"
  shows "n_partyID n \<notin> set (mClientList (ocb b c))"
proof -
  let ?b2 = "trigger_parties E ServerDisconnect (mServerList (ocb b c))
    (clear_clients (mClientList (ocb b c)) (clear_servers (mServerList (ocb b c)) b))"
  have "set (notifs ClientDetach (clear_connection E c b))
      \<subseteq> set (notifs ClientDetach (trigger_parties E ClientDetach (mClientList (ocb b c)) ?b2))"
    by (auto simp: clear_connection_def Let_def triggerAll_other dest!: remove_ids_subset [THEN subsetD])
  with assms show ?thesis by (auto simp: trigger_parties_def)
qed

section \<open>Detaching\<close>

lemma isMasterConnected_clients [simp]: "isMasterConnected (b\<lparr>mAttachedClients := x\<rparr>) = isMasterConnected b"
  by (simp add: isMasterConnected_def)

lemma detach_known:
  fixes E c i b m
  assumes "clientExists (ocb b c) i" and "cl_find (mAttachedClients b) i \<noteq> - 1"
    and "\<not> isMasterConnected b \<or> \<not> mUseServerCache b"
  defines "r \<equiv> handleDetachInterface E c i b m"
  shows "snd r = prepareResponse (status_code FNDOK) False m"
    and "mAttachedClients (fst r) = cl_remove i (mAttachedClients b)"
    and "notifs ClientDetach (fst r) = filter (\<lambda>n. \<not> (n_active n \<and> n_partyID n = i)) (notifs ClientDetach b)"
    and "k \<noteq> ClientDetach \<Longrightarrow> notifs k (fst r) = notifs k b"
    and "mClientList (ocb (fst r) c) = pid_remove i (mClientList (ocb b c))"
    and "mQueue (fst r) = mQueue (trigger_party E ClientDetach i b)"
  using assms(1-3)
  by (auto simp: r_def handleDetachInterface_def Let_def removeClient_def trigger_party_def)

lemma detach_unknown:
  assumes "\<not> (clientExists (ocb b c) i \<and> cl_find (mAttachedClients b) i \<noteq> - 1)"
  shows "handleDetachInterface E c i b m =
    (if isMasterConnected b then
       (ocb_update c (removeClient i) (master_eval (Job_create (Some c) 0 (DETACH_INTERFACE i) 16 0) b), deferResponse m)
     else (b, prepareResponse (status_code FNDInvalidClientID) False m))"
  using assms by (cases "clientExists (ocb b c) i") (simp_all add: handleDetachInterface_def Let_def)

section \<open>The freed name\<close>

lemma find_map_first: "find P (map f xs) = map_option f (find (\<lambda>x. P (f x)) xs)"
  by (induction xs) simp_all

text \<open>In a strictly descending list the erased element was the only one with its key.\<close>

lemma erase_found_key:
  fixes f :: "'e \<Rightarrow> 'k::linorder"
  assumes "sorted_wrt (\<lambda>a b. f b < f a) xs" and "find P xs = Some e"
  shows "f e \<notin> f ` set (erase_first P xs)"
  using assms
proof (induction xs)
  case (Cons x xs)
  then have "f y < f x" if "y \<in> set xs" for y using that by simp
  moreover have "e \<in> set xs" if "\<not> P x" using Cons.prems(2) that by (auto simp: find_Some_iff)
  ultimately show ?case using Cons by (auto split: if_splits) (metis less_irrefl)+
qed simp

lemma find_name_registered:
  assumes "sl_sorted (mConnectedServers b)"
  shows "sl_find_name (mConnectedServers b) x = None \<longleftrightarrow> x \<notin> se_name ` set (registrations b)"
  by (auto simp: sl_find_name_eq [OF assms] find_None_iff registrations_def image_image)

lemma unregister_frees_name:
  assumes "broker_inv b" and "serverExists (ocb b c) s" and "sl_find_id (mConnectedServers b) s = Some e"
  shows "sl_find_name (mConnectedServers (fst (handleUnregisterInterface E c s b m))) (se_name e) = None"
proof -
  let ?b = "fst (handleUnregisterInterface E c s b m)"
  have s: "sl_sorted (mConnectedServers b)" using assms(1) by (rule broker_invD)
  have d: "sorted_wrt (\<lambda>a b. se_name b < se_name a) (registrations b)"
    using s by (simp add: sl_sorted_def registrations_def sorted_wrt_map)
  have reg: "registrations ?b = erase_first (\<lambda>x. se_partyID x = s) (registrations b)"
    by (rule unregister_accepted(1) [OF assms(2,3)])
  then have "sorted_wrt (\<lambda>a b. se_name b < se_name a) (registrations ?b)"
    using d by (simp add: sorted_wrt_erase_first)
  then have s': "sl_sorted (mConnectedServers ?b)"
    by (simp add: sl_sorted_def registrations_def sorted_wrt_map)
  have "find (\<lambda>x. se_partyID x = s) (registrations b) = Some (e\<lparr>se_masterID := party_assign 0\<rparr>)"
    using assms(3) by (simp add: sl_find_id_def registrations_def find_map_first eq_commute [of s])
  then have "se_name e \<notin> se_name ` set (erase_first (\<lambda>x. se_partyID x = s) (registrations b))"
    using erase_found_key [OF d] by fastforce
  then show ?thesis by (simp add: find_name_registered [OF s'] reg)
qed

end
