(* ===== verification/Broker_Queries.thy ===== *)
theory Broker_Queries
  imports Broker_Cleanup
begin

text \<open>
  The interface lists a broker returns, and what a slave adds to the list of its master: the exact
  contents, the sizes, and the bound below which the slave's 32-bit buffer size does not wrap.
  Also: the map of pending extended attaches, which no operation of this build ever fills.
\<close>

section \<open>Lists from the own table\<close>

lemma fold_write_frame:
  "msg_open m \<Longrightarrow> m_putOffset (fold (\<lambda>e. writeAncillaryData (anc_interface e)) es m) = m_putOffset m + ifd_size * length es"
  by (induction es arbitrary: m) (simp_all add: writeAncillaryData_def msg_open_def anc_interface_def ifd_size_def)

lemma list_response:
  fixes es
  assumes "msg_open m" and "m_putOffset m = 0" and "m_ancillary m = []"
  defines "r \<equiv> prepareResponse (- int (length es)) False (fold (\<lambda>e. writeAncillaryData (anc_interface e)) es m)"
  shows "m_returncode r = - int (length es)" and "m_ancillary r = map anc_interface es"
    and "m_fr_size r = ifd_size * length es"
proof -
  have o: "msg_open (fold (\<lambda>e. writeAncillaryData (anc_interface e)) es m)" by (rule fold_write_open [OF assms(1)])
  then show "m_returncode r = - int (length es)" by (simp add: r_def)
  show "m_ancillary r = map anc_interface es"
    using assms(3) fold_write_ancillary [OF assms(1), of anc_interface es] by (simp add: r_def)
  show "m_fr_size r = ifd_size * length es"
    using o fold_write_frame [OF assms(1), of es] assms(2) by (auto simp: r_def prepareResponse_def msg_open_def)
qed

text \<open>The matching loop.\<close>

lemma match_loop_ok:
  "k + int (length (filter (\<lambda>e. e_regexec E r (se_name e)) es)) \<le> n \<Longrightarrow>
     match_loop E r ctx n es k m =
       (True, k + int (length (filter (\<lambda>e. e_regexec E r (se_name e) \<and> visible ctx e) es)),
        fold (\<lambda>e. writeAncillaryData (anc_interface e))
          (filter (\<lambda>e. e_regexec E r (se_name e) \<and> visible ctx e) es) m)"
proof (induction es arbitrary: k m)
  case (Cons e es)
  show ?case
  proof (cases "e_regexec E r (se_name e)")
    case True
    then show ?thesis using Cons.prems Cons.IH [of k m] Cons.IH [of "k + 1"] by simp
  qed (use Cons in simp)
qed simp

lemma match_loop_no_room:
  "0 < length (filter (\<lambda>e. e_regexec E r (se_name e) \<and> visible ctx e) es) \<Longrightarrow>
     n < k + int (length (filter (\<lambda>e. e_regexec E r (se_name e) \<and> visible ctx e) es)) \<Longrightarrow>
     \<not> fst (match_loop E r ctx n es k m)"
proof (induction es arbitrary: k m)
  case (Cons e es)
  show ?case
  proof (cases "e_regexec E r (se_name e) \<and> \<not> n \<le> k \<and> visible ctx e")
    case True
    then have "0 < length (filter (\<lambda>e. e_regexec E r (se_name e) \<and> visible ctx e) es)"
      using Cons.prems(2) by (cases "filter (\<lambda>e. e_regexec E r (se_name e) \<and> visible ctx e) es") auto
    with True Cons show ?thesis by simp
  next
    case False
    then show ?thesis using Cons by auto
  qed
qed simp

section \<open>The list of the master, completed\<close>

lemma append_local_exact:
  assumes "nat ck * ifd_size \<le> cap" and "int (length xs) \<le> ck"
  shows "append_local P ck cap es xs =
    Some (if int (length xs + length (filter P es)) \<le> ck
          then Inr (xs @ map (\<lambda>e. from_ifDescription (se_ifDescription e)) (filter P es)) else Inl ())"
  using assms(2)
proof (induction es arbitrary: xs)
  case (Cons e es)
  have "\<not> cap < (length xs + 1) * ifd_size" if "int (length xs) < ck"
  proof -
    have "(length xs + 1) * ifd_size \<le> nat ck * ifd_size" using that by (intro mult_right_mono) auto
    with assms(1) show ?thesis by simp
  qed
  then show ?case using Cons by auto
qed simp

lemma list_rbytes_exact:
  assumes "unat n < 16519104"
  shows "list_rbytes n = (unat n + 1) * ifd_size"
proof -
  have "unat (of_nat ifd_size + n * of_nat ifd_size :: u32) = (ifd_size + unat n * ifd_size) mod 2 ^ 32"
    by (simp add: unat_word_ariths ifd_size_def mod_simps)
  also have "\<dots> = ifd_size + unat n * ifd_size" using assms by (intro mod_less) (simp add: ifd_size_def)
  finally show ?thesis by (simp add: list_rbytes_def)
qed

lemma length_received [simp]: "length (received_interfaces E job) = nat (j_ret_val job)"
  by (simp add: received_interfaces_def Let_def)

lemma sint_small:
  assumes "unat n < 16519104"
  shows "sint (n :: u32) = int (unat n)"
proof -
  define k where "k = unat n"
  have u: "uint n = int k" by (simp add: k_def)
  have "signed_take_bit 31 (int k) = int k"
    using assms [folded k_def] by (intro signed_take_bit_int_eq_self) simp_all
  then show ?thesis by (simp add: sint_uint u k_def [symmetric])
qed

text \<open>A list job as the broker creates it, after the master answered.\<close>

definition answered_list_job :: "nat \<Rightarrow> u32 \<Rightarrow> int \<Rightarrow> job_out \<Rightarrow> Job" where
  "answered_list_job c inCount ret out =
     (Job_create (Some c) inCount (GET_INTERFACELIST inCount) 8 (list_rbytes inCount))\<lparr>j_ret_val := ret, j_out := out\<rparr>"

definition own_local :: "broker \<Rightarrow> ServerListEntry list" where
  "own_local b = filter (local_only (mConfig b)) (sl_entries (mConnectedServers b))"

lemma finished_list_exact:
  fixes c n ret out E b
  assumes "unat n < 16519104" and "nat ret \<le> unat n"
  defines "job \<equiv> answered_list_job c n ret out"
  defines "xs \<equiv> received_interfaces E job @ map (\<lambda>e. from_ifDescription (se_ifDescription e)) (own_local b)"
  shows "finish_job E job b =
    Some (if length xs \<le> unat n
          then job\<lparr>j_out := OutInterfaces xs, j_rbytes := length xs * ifd_size, j_ret_val := - int (length xs)\<rparr>
          else job\<lparr>j_status := EINVAL, j_rbytes := 0\<rparr>, b)"
proof -
  define k where "k = unat n"
  define cap where "cap = max (8::nat) ((k + 1) * ifd_size)"
  have cap: "nat (int k) * ifd_size \<le> cap" by (simp add: cap_def)
  have job: "j_status job = 0" "j_req job = GET_INTERFACELIST n" "j_has_arg job" "j_cookie job = n"
    "j_sbytes job = 8" "j_rbytes job = (k + 1) * ifd_size" "j_ret_val job = ret"
    by (simp_all add: job_def answered_list_job_def Job_create_def j_has_arg_def list_rbytes_exact [OF assms(1)] k_def)
  have room: "int (length (received_interfaces E job)) \<le> int k" using assms(2) by (simp only: length_received job(7) of_nat_le_iff k_def)
  have app: "append_local (local_only (mConfig b)) (int k) cap (sl_entries (mConnectedServers b))
      (received_interfaces E job) = Some (if length xs \<le> k then Inr xs else Inl ())"
    unfolding append_local_exact [OF cap room] of_nat_le_iff
    by (simp add: xs_def own_local_def)
  have "\<not> cap < length xs * ifd_size" if "length xs \<le> k"
  proof -
    have "length xs * ifd_size \<le> (k + 1) * ifd_size" using that by (intro mult_right_mono) auto
    then show ?thesis by (simp add: cap_def)
  qed
  moreover have "max (j_sbytes job) (j_rbytes job) = cap" by (simp add: job cap_def)
  ultimately show ?thesis
    using app job(1-4) sint_small [OF assms(1)]
    by (simp add: finish_job_def finished_list_def Let_def k_def [symmetric] del: of_nat_unat)
qed

text \<open>From this count on the size computation wraps around.\<close>

lemma list_rbytes_wraps: "list_rbytes 16519104 = 4"
  by (simp add: list_rbytes_def ifd_size_def)

section \<open>Pending extended attaches\<close>

abbreviation pend :: "broker \<Rightarrow> u32 \<rightharpoonup> u32" where
  "pend \<equiv> mPendingAttachExtendedJobs"

lemma pend_basic [simp]:
  "pend (ocb_update c f b) = pend b"
  "pend (set_servers sl b) = pend b"
  "pend (set_slave c b) = pend b"
  "pend (fold master_eval js b) = pend b"
  by (simp_all add: ocb_update_def set_servers_def set_slave_def)
    (induction js arbitrary: b, simp_all)

lemma pend_register [simp]:
  "pend (registerInterfacesMaster b) = pend b"
  "pend (unregisterInterfaceMaster s e b) = pend b"
  "pend (snd (addInterface E c d pid chid loc g b)) = pend b"
  "pend (snd (addMasterInterface E c dx b)) = pend b"
  "pend (snd (addClient c i s b)) = pend b"
  by (simp_all add: registerInterfacesMaster_def unregisterInterfaceMaster_def unregister_job_def addInterface_def
      addMasterInterface_def addClient_def Let_def case_prod_beta)

lemma pend_loops [simp]:
  "pend (fst (snd (register_ex_loop E c pid chid n ifds b m))) = pend b"
  "pend (fst (snd (register_master_loop E c n dxs b m))) = pend b"
  "pend (fst (snd (available_ex_loop E c n nds b m))) = pend b"
proof -
  show "pend (fst (snd (register_ex_loop E c pid chid n ifds b m))) = pend b"
    by (induction E c pid chid n ifds b m rule: register_ex_loop.induct) (simp_all add: Let_def case_prod_beta)
  show "pend (fst (snd (register_master_loop E c n dxs b m))) = pend b"
    by (induction E c n dxs b m rule: register_master_loop.induct) (simp_all add: Let_def case_prod_beta)
  show "pend (fst (snd (available_ex_loop E c n nds b m))) = pend b"
  proof (induction n arbitrary: nds b m)
    case (Suc n)
    then show ?case by (cases nds) (simp_all add: Let_def case_prod_beta)
  qed simp
qed

lemma pend_register_handlers [simp]:
  "pend (fst (handleRegisterInterface E c ifd chid pid b m)) = pend b"
  "pend (fst (handleRegisterInterfaceGroupID E c ifd chid pid g b m)) = pend b"
  "pend (fst (handleRegisterInterfaceEx E c chid pid n ifds b m)) = pend b"
  "pend (fst (handleRegisterMasterInterface E c n dxs b m)) = pend b"
  "pend (fst (handleUnregisterInterface E c s b m)) = pend b"
  by (simp_all add: handleRegisterInterface_def handleRegisterInterfaceGroupID_def handleRegisterInterfaceEx_def
      handleRegisterMasterInterface_def handleUnregisterInterface_def Let_def case_prod_beta split: option.splits)

lemma pend_notify_handlers [simp]:
  "pend (fst (handleNotifyServerDisconnect E c s p b m)) = pend b"
  "pend (fst (handleNotifyServerAvailable E c p ifd b m)) = pend b"
  "pend (fst (handleNotifyServerAvailableEx E c n nds b m)) = pend b"
  "pend (fst (handleNotifyClientDetach E c s p b m)) = pend b"
  "pend (fst (handleClearNofification c i b m)) = pend b"
  "pend (fst (handleNotifyInterfaceListChange E c p b m)) = pend b"
  "pend (fst (handleNotifyInterfaceListMatch E c p r b m)) = pend b"
  by (simp_all add: handleNotifyServerDisconnect_def handleNotifyServerAvailable_def handleNotifyServerAvailableEx_def
      handleNotifyClientDetach_def handleClearNofification_def handleNotifyInterfaceListChange_def
      handleNotifyInterfaceListMatch_def Let_def case_prod_beta split: option.splits sum.splits)

lemma pend_attach_handlers [simp]:
  "pend (snd (handleAttachLocalInterface E c e b)) = pend b"
  "pend (fst (snd (snd (forwardAttachExtendedToMaster E c p ifd b m)))) = pend b"
  "pend (fst (handleAttachInterface E c ifd b m)) = pend b"
  "pend (fst (handleGetServerInformation c ifd b m)) = pend b"
  "pend (fst (handleDetachInterface E c s b m)) = pend b"
  "pend (fst (handleGetInterfaceList c n b m)) = pend b"
  "pend (fst (handleMatchInterfaceList E c n r b m)) = pend b"
  "pend (fst (handleMasterPingId c x b m)) = pend b"
  by (simp_all add: handleAttachLocalInterface_def forwardAttachExtendedToMaster_def forward_attach_request_def
      handleAttachInterface_def handleGetServerInformation_def handleDetachInterface_def handleGetInterfaceList_def
      handleMatchInterfaceList_def handleMasterPingId_def Let_def case_prod_beta split: option.splits sum.splits)

lemma pend_attach_extended [simp]: "pend (fst (handleAttachInterfaceExtended E c p ifd b m)) = pend b"
proof -
  have "pend (fst (handleAttachInterfaceExtended_local E c e b m)) = pend b" for e
    by (simp add: handleAttachInterfaceExtended_local_def case_prod_beta split: sum.splits option.splits)
  then show ?thesis
    by (simp add: handleAttachInterfaceExtended_def Let_def case_prod_beta split: option.splits sum.splits)
qed

lemma pend_dispatch [simp]: "pend (fst (snd (dispatch E c req v sz b m))) = pend b"
proof -
  have "pend (fst (handle_request E c req b m')) = pend b" for m' by (cases req) simp_all
  then show ?thesis by (simp add: dispatch_def Let_def case_prod_beta split: request.splits)
qed

lemma pend_clear [simp]: "pend (clear_connection E c b) = pend b"
proof -
  have "pend (clear_servers ids b) = pend b" for ids
    by (induction ids arbitrary: b) (simp_all add: Let_def split: option.splits)
  moreover have "pend (clear_clients ids b') = pend b'" for ids b'
    by (induction ids arbitrary: b') (simp_all add: Let_def)
  ultimately show ?thesis by (simp add: clear_connection_def Let_def)
qed

lemma pend_finished [simp]:
  "pend (record_pool_notification p i b) = pend b"
  "pend (record_notification k ck i b) = pend b"
  "pend (finished_available E job idx n b) = pend b"
  "pend (finished_register E job idx n b) = pend b"
proof -
  show rp: "pend (record_pool_notification p i b) = pend b" for p i b
    by (simp add: record_pool_notification_def Let_def)
  show "pend (record_notification k ck i b) = pend b" by (simp add: record_notification_def)
  show "pend (finished_available E job idx n b) = pend b"
    by (induction n arbitrary: idx b) (simp_all add: Let_def rp)
  show "pend (finished_register E job idx n b) = pend b"
    by (induction n arbitrary: idx b)
      (simp_all add: finished_register_one_def unregister_job_def Let_def split: option.splits)
qed

text \<open>With nothing pending, the answer to an extended attach is always an internal error.\<close>

lemma attach_extended_nothing_pending:
  "pend b = Map.empty \<Longrightarrow>
     handleJobFinishedAttachExtended E job b = Some (job\<lparr>j_status := status_code FNDInternalError\<rparr>, b)"
  by (simp add: handleJobFinishedAttachExtended_def attach_extended_lookup_def case_prod_beta)

lemma pend_finish_job:
  "pend b = Map.empty \<Longrightarrow> finish_job E job b = Some (j, b') \<Longrightarrow> pend b' = Map.empty"
  by (auto simp: finish_job_def attach_extended_nothing_pending finished_attach_def finished_server_information_def
      split: if_splits request.splits option.splits)

lemma pend_pulse:
  assumes "pend b = Map.empty" and "dispatch_pulse E code value job b = Some (b', r)"
  shows "pend b' = Map.empty"
proof -
  have "pend b1 = Map.empty" if "handleMasterAttachExtended E value b = Some b1" for b1
    using that assms(1)
    by (auto simp: handleMasterAttachExtended_def handleMasterServerDisconnect_def handleMasterServerAvailable_def
        attach_again_def Let_def split: if_splits option.splits)
  moreover have "pend b1 = Map.empty" if "handleJobFinished E j b = Some (b1, x)" for j b1 x
    using that pend_finish_job [OF assms(1)] by (auto simp: handleJobFinished_def)
  moreover have "pend (handleMasterDisconnected E b) = Map.empty"
    by (simp add: handleMasterDisconnected_def Let_def)
  ultimately show ?thesis
    using assms
    by (auto simp: dispatch_pulse_def handleMasterConnected_def handleMasterServerAvailable_def
        handleMasterServerDisconnect_def handleMasterClientDetach_def handleMasterServerlistChange_def
        split: if_splits option.splits)
qed

lemma pend_reachable:
  assumes "reachable E (Servicebroker_init mst cfg i cache async addr conns) b"
  shows "pend b = Map.empty"
  using assms
proof (induction rule: reachable.induct)
  case start
  then show ?case by (simp add: Servicebroker_init_def)
next
  case (step b b')
  from step(2) show ?case
  proof cases
    case (Request c req v sz known m)
    then show ?thesis using step pend_dispatch [of E c req v sz b new_message] by simp
  qed (use step pend_pulse in auto)
qed

end
