(* ===== verification/Broker_Delivery.thy ===== *)
theory Broker_Delivery
  imports Broker_Queries "HOL-Library.Sublist"
begin

text \<open>
  Which pulses leave the broker. \<open>sent\<close> reads the ids of the notifications that were written to a
  socket from the log of the channels; each trigger is shown to write exactly the notifications it
  selects, in the order of the list, except those whose channel cannot be opened.
\<close>

section \<open>Definitions\<close>

fun pulse_ids :: "io_event list \<Rightarrow> u32 list" where
  "pulse_ids [] = []"
| "pulse_ids (PulseSent fd i code v # es) = i # pulse_ids es"
| "pulse_ids (Opened fd # es) = pulse_ids es"
| "pulse_ids (Closed fd # es) = pulse_ids es"

definition sent :: "broker \<Rightarrow> u32 list" where
  "sent b = pulse_ids (pcm_log (mChannels b))"

section \<open>Lemmas\<close>

lemma pulse_ids_append [simp]: "pulse_ids (xs @ ys) = pulse_ids xs @ pulse_ids ys"
  by (induction xs rule: pulse_ids.induct) simp_all

lemma pulse_ids_attach: "pulse_ids (pcm_log (snd (pcm_attach os nid pid chid m))) = pulse_ids (pcm_log m)"
  by (auto simp: pcm_attach_def Let_def case_prod_beta split: option.splits)

lemma pulse_ids_detach: "pulse_ids (pcm_log (pcm_detach fd m)) = pulse_ids (pcm_log m)"
  by (auto simp: pcm_detach_def split: option.splits)

lemma sent_destroy [simp]: "sent (destroy_Notification n b) = sent b"
  by (simp add: sent_def pulse_ids_detach)

lemma sent_set_notifs [simp]: "sent (set_notifs k ns b) = sent b"
  by (simp add: sent_def set_notifs_def)

lemma sent_send:
  "sent (snd (notification_send E n b))
     = sent b @ (if 0 \<le> n_coid (fst (notification_send E n b)) then [n_notificationID n] else [])"
  by (auto simp: sent_def notification_send_def send_pulse_def doConnect_def pcm_sendPulse_def pulse_ids_attach
      Let_def case_prod_beta)

text \<open>A notification that has its channel is always written.\<close>

lemma send_connected: "0 \<le> n_coid n \<Longrightarrow> n_coid (fst (notification_send E n b)) = n_coid n"
  by (simp add: notification_send_def)

lemma trigger_loop_sent:
  "\<exists>ms. subseq ms (filter P ns) \<and> sent (snd (trigger_loop E P ns b)) = sent b @ map n_notificationID ms"
proof (induction ns arbitrary: b)
  case (Cons n ns)
  show ?case
  proof (cases "P n")
    case True
    let ?b = "destroy_Notification (fst (notification_send E n b)) (snd (notification_send E n b))"
    from Cons.IH [of ?b] obtain ms where ms: "subseq ms (filter P ns)"
      "sent (snd (trigger_loop E P ns ?b)) = sent ?b @ map n_notificationID ms" by blast
    let ?ms = "if 0 \<le> n_coid (fst (notification_send E n b)) then n # ms else ms"
    have "subseq ?ms (filter P (n # ns))" using ms(1) True by (simp add: list_emb_Cons)
    moreover have "sent (snd (trigger_loop E P (n # ns) b)) = sent b @ map n_notificationID ?ms"
      using ms(2) True by (simp add: Let_def case_prod_beta sent_send)
    ultimately show ?thesis by blast
  qed (use Cons in \<open>simp add: Let_def case_prod_beta\<close>)
qed simp

lemma trigger_loop_sent_all:
  "\<forall>n \<in> set ns. P n \<longrightarrow> 0 \<le> n_coid n \<Longrightarrow>
     sent (snd (trigger_loop E P ns b)) = sent b @ map n_notificationID (filter P ns)"
  by (induction ns arbitrary: b) (simp_all add: Let_def case_prod_beta sent_send send_connected)

lemma trigger_if_sent:
  "\<exists>ms. subseq ms (filter P (notifs k b)) \<and> sent (trigger_if E k P b) = sent b @ map n_notificationID ms"
  using trigger_loop_sent by (simp add: trigger_if_def Let_def case_prod_beta)

lemma trigger_if_sent_all:
  "\<forall>n \<in> set (notifs k b). P n \<longrightarrow> 0 \<le> n_coid n \<Longrightarrow>
     sent (trigger_if E k P b) = sent b @ map n_notificationID (filter P (notifs k b))"
  by (simp add: trigger_if_def Let_def case_prod_beta trigger_loop_sent_all)

text \<open>The interface trigger sends like a plain trigger on the permitted matches.\<close>

lemma trigger_if_loop_state:
  "snd (trigger_if_loop E d g ns b) = snd (trigger_loop E (\<lambda>n. if_matches d n \<and> may_notify E g n) ns b)"
  by (induction ns arbitrary: b) (simp_all add: Let_def case_prod_beta)

lemma trigger_interface_sent:
  "\<exists>ms. subseq ms (filter (\<lambda>n. if_matches d n \<and> may_notify E g n) (notifs k b))
     \<and> sent (trigger_interface E k d g b) = sent b @ map n_notificationID ms"
  using trigger_loop_sent by (simp add: trigger_interface_def trigger_if_loop_state Let_def case_prod_beta)

lemma trigger_interface_sent_all:
  "\<forall>n \<in> set (notifs k b). if_matches d n \<and> may_notify E g n \<longrightarrow> 0 \<le> n_coid n \<Longrightarrow>
     sent (trigger_interface E k d g b)
       = sent b @ map n_notificationID (filter (\<lambda>n. if_matches d n \<and> may_notify E g n) (notifs k b))"
  by (simp add: trigger_interface_def trigger_if_loop_state Let_def case_prod_beta trigger_loop_sent_all)

end
