(* ===== verification/Broker_Upstream.thy ===== *)
theory Broker_Upstream
  imports Broker_Delivery
begin

text \<open>
  Both ends of the link between a slave and its master: what the master answers to a batch of
  registrations, what a slave does when the link is lost, and how notifications move between the
  lists when a remote server was found.
\<close>

section \<open>Registrations at the master\<close>

definition accepted_serverID :: "nat \<Rightarrow> SFNDInterfaceDescriptionEx \<Rightarrow> broker \<Rightarrow> SPartyID" where
  "accepted_serverID c dx b =
     (if extendedID (dx_serverID dx) = 0 then (dx_serverID dx)\<lparr>extendedID := 1000 + cx_id (mConnections b c)\<rparr>
      else dx_serverID dx)"

lemma addMasterInterface_id [simp]: "fst (addMasterInterface E c dx b) = accepted_serverID c dx b"
  by (simp add: addMasterInterface_def accepted_serverID_def Let_def)

lemma addMasterInterface_cx [simp]: "cx_id (mConnections (snd (addMasterInterface E c dx b)) c') = cx_id (mConnections b c')"
  by (simp add: addMasterInterface_def Let_def ocb_update_def set_servers_def)

text \<open>One answer per element, in order: the id the master uses, or the error id.\<close>

lemma register_master_loop_answers:
  "msg_open m \<Longrightarrow> n \<le> length dxs \<Longrightarrow>
     \<exists>ids. fst (register_master_loop E c n dxs b m)
       \<and> m_ancillary (snd (snd (register_master_loop E c n dxs b m))) = m_ancillary m @ map AncServerID ids
       \<and> list_all2 (\<lambda>dx i. i = error_serverID dx \<or> i = accepted_serverID c dx b) (take n dxs) ids"
proof (induction n arbitrary: dxs b m)
  case (Suc n)
  then obtain dx rest where d: "dxs = dx # rest" "n \<le> length rest" by (cases dxs) auto
  define sid where "sid = (if master_refuses b dx then error_serverID dx else accepted_serverID c dx b)"
  define b1 where "b1 = (if master_refuses b dx then b else snd (addMasterInterface E c dx b))"
  let ?m = "writeAncillaryData (AncServerID sid) m"
  have step: "register_master_loop E c (Suc n) dxs b m = register_master_loop E c n rest b1 ?m"
    by (simp add: d(1) sid_def b1_def case_prod_beta)
  have same: "accepted_serverID c x b1 = accepted_serverID c x b" for x
    by (simp add: accepted_serverID_def b1_def)
  have anc: "m_ancillary ?m = m_ancillary m @ [AncServerID sid]"
    using Suc.prems(1) by (simp add: writeAncillaryData_def msg_open_def)
  from Suc.IH [of ?m rest b1] Suc.prems(1) d(2) obtain ids where
    "fst (register_master_loop E c n rest b1 ?m)"
    "m_ancillary (snd (snd (register_master_loop E c n rest b1 ?m))) = m_ancillary ?m @ map AncServerID ids"
    "list_all2 (\<lambda>dx i. i = error_serverID dx \<or> i = accepted_serverID c dx b) (take n rest) ids"
    unfolding same by (auto simp: same)
  then show ?case
    unfolding step anc by (intro exI [of _ "sid # ids"]) (simp add: d(1) sid_def)
qed simp

section \<open>A lost master\<close>

lemma master_lost_state:
  fixes E b
  defines "b' \<equiv> handleMasterDisconnected E b"
  shows "mConnectedServers b' = sl_clearMasterIDs (mConnectedServers b)"
    and "mPendingRemoteServersRequests b' = Map.empty" and "mPendingAttachExtendedJobs b' = Map.empty"
    and "notifs ServerConnect b' = map (\<lambda>n. n\<lparr>n_masterNotificationID := INVALID_NOTIFICATION_ID, n_poolID := 0\<rparr>)
           (notifs ServerConnect b)"
    and "notifs ServerDisconnect b' = filter (\<lambda>n. \<not> (n_active n \<and> mExtendedID b \<noteq> extendedID (n_partyID n)
           \<and> sl_find_id (sl_clearMasterIDs (mConnectedServers b)) (n_partyID n) = None)) (notifs ServerDisconnect b)"
    and "notifs ClientDetach b' = filter (\<lambda>n. \<not> (n_active n \<and> mExtendedID b \<noteq> extendedID (n_partyID n)))
           (notifs ClientDetach b)"
  by (simp_all add: b'_def handleMasterDisconnected_def Let_def clearMasterNotification_def triggerNotLocal_def)

lemma find_id_cleared:
  "sl_find_id (sl_clearMasterIDs sl) s = None \<longleftrightarrow> sl_find_id sl s = None"
  by (auto simp: sl_find_id_def sl_clearMasterIDs_def find_None_iff)

section \<open>Moving notifications between lists\<close>

lemma move_loop_to:
  assumes "to \<noteq> frm"
  shows "notifs to (snd (snd (move_loop to frm p ns b)))
    = rev (map (\<lambda>n. n\<lparr>n_poolID := 0\<rparr>) (filter (\<lambda>n. p = n_poolID n) ns)) @ notifs to b"
proof (induction ns arbitrary: b)
  case (Cons n ns)
  then show ?case
    by (cases "n_poolID n = p") (simp_all add: Let_def case_prod_beta add_existing_def copy_Notification_def)
qed simp

lemma move_to:
  assumes "to \<noteq> frm"
  shows "notifs to (snd (move_notifications to frm p b))
    = rev (map (\<lambda>n. n\<lparr>n_poolID := 0\<rparr>) (filter (\<lambda>n. p = n_poolID n) (notifs frm b))) @ notifs to b"
  using assms by (simp add: move_notifications_def Let_def case_prod_beta move_loop_to)

text \<open>The pool id is lost on the way, so the elements just moved are not found by it.\<close>

lemma setType_after_move:
  assumes "to \<noteq> frm" and "p \<noteq> 0"
  shows "fst (setType to p s (snd (move_notifications to frm p b))) = poolSize to p b"
  using assms by (simp add: setType_def poolSize_def move_to rev_filter [symmetric] filter_map comp_def)

section \<open>Watching a server that is gone\<close>

lemma isMasterConnected_counters [simp]:
  "isMasterConnected (b\<lparr>sNextNotificationID := x\<rparr>) = isMasterConnected b"
  "isMasterConnected (b\<lparr>sTotalCounter := x\<rparr>) = isMasterConnected b"
  "isMasterConnected (b\<lparr>sCurrentCounter := x\<rparr>) = isMasterConnected b"
  by (simp_all add: isMasterConnected_def)

lemma watch_gone_server:
  fixes E c s pulse b
  assumes "sl_find_id (mConnectedServers b) s = None" and "mExtendedID b = extendedID s \<or> \<not> isMasterConnected b"
    and "\<not> cx_slave (mConnections b c)"
  defines "r \<equiv> handleNotifyServerDisconnectNoResponse E c s pulse b"
  assumes "sNextNotificationID b + 1 \<noteq> INVALID_NOTIFICATION_ID"
  shows "fst r = Some (sNextNotificationID b + 1)"
    and "notifs ServerDisconnect (snd r)
      = filter (\<lambda>n. \<not> (n_active n \<and> n_partyID n = s)) (notifs ServerDisconnect b)"
  using assms
  by (auto simp: r_def handleNotifyServerDisconnectNoResponse_def add_party_def push_notification_def
      notification_connect_def new_Notification_def copy_Notification_def Let_def case_prod_beta trigger_party_def)

section \<open>From a watch to its pulse\<close>

text \<open>An environment in which every channel can be opened; the pooled channels have descriptors.\<close>

definition chans_ok :: "PulseChannelManager \<Rightarrow> bool" where
  "chans_ok m \<longleftrightarrow> (\<forall>ch \<in> set (mSockets m). 0 \<le> pc_fd ch)"

definition sockets_work :: "env \<Rightarrow> bool" where
  "sockets_work E \<longleftrightarrow> (\<forall>nid pid chid m. chans_ok m \<longrightarrow> 0 \<le> fst (pcm_attach (e_sockets E) nid pid chid m))"

lemma chans_ok_inv: "broker_inv b \<Longrightarrow> chans_ok (mChannels b)"
  by (simp add: broker_inv_def winv_def live_def pcm_inv_def chans_ok_def)

lemma chans_ok_attach: "chans_ok m \<Longrightarrow> chans_ok (snd (pcm_attach os nid pid chid m))"
  by (auto simp: chans_ok_def pcm_attach_def tryAddRef_def Let_def case_prod_beta split: option.splits
      dest!: set_update_first)

lemma chans_ok_detach: "chans_ok m \<Longrightarrow> chans_ok (pcm_detach fd m)"
  by (auto simp: chans_ok_def pcm_detach_def split: option.splits
      dest!: set_update_first set_erase_first_subset [THEN subsetD])

lemma chans_ok_send: "chans_ok (mChannels b) \<Longrightarrow> chans_ok (mChannels (snd (notification_send E n b)))"
  by (simp add: notification_send_def send_pulse_def doConnect_def chans_ok_attach Let_def case_prod_beta)
    (simp add: chans_ok_def chans_ok_attach [unfolded chans_ok_def])

lemma send_works: "sockets_work E \<Longrightarrow> chans_ok (mChannels b) \<Longrightarrow> 0 \<le> n_coid (fst (notification_send E n b))"
  by (auto simp: sockets_work_def notification_send_def doConnect_def Let_def case_prod_beta not_less)

lemma trigger_loop_sent_works:
  "sockets_work E \<Longrightarrow> chans_ok (mChannels b) \<Longrightarrow>
     sent (snd (trigger_loop E P ns b)) = sent b @ map n_notificationID (filter P ns)"
  by (induction ns arbitrary: b)
    (simp_all add: Let_def case_prod_beta sent_send send_works chans_ok_send chans_ok_detach)

lemma trigger_interface_sent_works:
  "sockets_work E \<Longrightarrow> chans_ok (mChannels b) \<Longrightarrow> sent (trigger_interface E k d g b)
     = sent b @ map n_notificationID (filter (\<lambda>n. if_matches d n \<and> may_notify E g n) (notifs k b))"
  by (simp add: trigger_interface_def trigger_if_loop_state Let_def case_prod_beta trigger_loop_sent_works)

lemma send_loop_sent: "\<exists>xs. sent (snd (send_loop E P ns b)) = sent b @ xs"
proof (induction ns arbitrary: b)
  case (Cons n ns)
  obtain b1 where b1: "sent b1 = sent b @ (if P n \<and> 0 \<le> n_coid (fst (notification_send E n b)) then [n_notificationID n] else [])"
    "snd (send_loop E P (n # ns) b) = snd (send_loop E P ns b1)"
    using sent_send [of E n b]
    by (cases "P n") (fastforce simp: Let_def case_prod_beta)+
  then show ?case using Cons [of b1] by (metis append_assoc)
qed simp

lemma sent_channels: "mChannels b' = mChannels b \<Longrightarrow> sent b' = sent b"
  by (simp add: sent_def)

lemma addInterface_sent:
  assumes "sockets_work E" and "sl_find_name (mConnectedServers b) (if_name d) = None" and "chans_ok (mChannels b)"
  shows "\<exists>xs. sent (snd (addInterface E c d pid chid loc g b)) =
    sent b @ map n_notificationID (filter (\<lambda>n. if_matches d n \<and> may_notify E g n) (notifs ServerConnect b)) @ xs"
proof -
  let ?e = "interface_entry E c d pid chid loc g b"
  define b3 where "b3 = ocb_update c (addServer (se_partyID ?e)) (set_servers (sl_add ?e (mConnectedServers b))
    (b\<lparr>sNextServerEntryID := sNextServerEntryID b + 1, mNextServerID := mNextServerID b + 1\<rparr>))"
  have b3: "sent b3 = sent b" "notifs k b3 = notifs k b" "chans_ok (mChannels b3)" for k
    using assms(3) by (simp_all add: b3_def sent_def notifs_def)
  have "snd (addInterface E c d pid chid loc g b)
      = triggerAll_interface E ServerListChange d (trigger_interface E ServerConnect d g b3)"
    using assms(2) by (simp add: addInterface_def new_ServerListEntry_def interface_entry_def b3_def Let_def)
  moreover obtain xs where "sent (triggerAll_interface E ServerListChange d b') = sent b' @ xs"
    if "b' = trigger_interface E ServerConnect d g b3" for b'
    using send_loop_sent by (fastforce simp: triggerAll_interface_def Let_def case_prod_beta)
  ultimately show ?thesis by (simp add: trigger_interface_sent_works [OF assms(1)] b3)
qed

lemma registerInterfacesMaster_sent [simp]: "sent (registerInterfacesMaster b) = sent b"
proof -
  have "mChannels (fold master_eval js b') = mChannels b'" for js b' by (induction js arbitrary: b') simp_all
  then show ?thesis by (intro sent_channels) (simp add: registerInterfacesMaster_def Let_def case_prod_beta)
qed

text \<open>The notification a local watcher leaves, if the server is not there yet.\<close>

lemma watch_entered:
  fixes E c pulse ifd b m
  assumes "sl_find_if (mConnectedServers b) (to_ifDescription ifd) = None" and "\<not> isMasterConnected b"
    and "\<not> cx_slave (mConnections b c)" and "sNextNotificationID b + 1 \<noteq> INVALID_NOTIFICATION_ID"
  defines "r \<equiv> handleNotifyServerAvailable E c pulse ifd b m"
  shows "\<exists>n. notifs ServerConnect (fst r) = n # notifs ServerConnect b \<and> n_notificationID n = sNextNotificationID b + 1
      \<and> n_ifDescription n = to_ifDescription ifd \<and> n_active n"
    and "snd r = prepareResponse_data (status_code FNDOK) (Some (BodyNotificationID (sNextNotificationID b + 1))) m"
    and "mConnectedServers (fst r) = mConnectedServers b"
  using assms(1-4)
  by (auto simp: r_def handleNotifyServerAvailable_def handleNotifyServerAvailableNoResponse_def may_watch_def
      add_interface_def push_notification_def notification_connect_def new_Notification_def copy_Notification_def
      announce_or_forward_def Let_def case_prod_beta)

end
