(* ===== verification/Broker_Examples.thy ===== *)
theory Broker_Examples
  imports Broker_Upstream
begin

text \<open>
  Concrete brokers on which the properties of the root theory are evaluated.
\<close>

section \<open>A small configuration for the witnesses\<close>

text \<open>
  An operating system in which every socket call succeeds and descriptors count upwards, a user
  and group database with one group, and a master broker with identical local connections.
\<close>

definition example_os :: sockets where
  "example_os =
     \<lparr>os_open = (\<lambda>_. True), os_connect_unix = (\<lambda>_ _ _. 0), os_connect_tcp = (\<lambda>_ _ _. 0),
      os_poll = (\<lambda>_. PollTimeout), os_fd = (\<lambda>_ busy. fold max busy 2 + 1)\<rparr>"

definition example_env :: env where
  "example_env =
     \<lparr>e_getgrgid = (\<lambda>g. if g = 100 then Some [''alice''] else None),
      e_getpwnam = (\<lambda>n. if n = ''alice'' then Some 1000 else None),
      e_regcomp = (\<lambda>r. r \<noteq> ''(''), e_regexec = (\<lambda>r s. r = s),
      e_sockets = example_os,
      e_indet_impl = \<lparr>iv_major = 7, iv_minor = 7, iv_patch = 7\<rparr>,
      e_indet_pulse = zero_pulse, e_image = (\<lambda>_ _. 0),
      e_image_list = (\<lambda>_ _. \<lparr>sf_version = \<lparr>v_major = 0, v_minor = 0\<rparr>, sf_name = []\<rparr>)\<rparr>"

definition example_conns :: "nat \<Rightarrow> connection" where
  "example_conns c =
     \<lparr>cx_id = of_nat c, cx_slave = False, cx_uid = 1000, cx_pid = 1, cx_nodeAddress = 0,
      cx_localAddress = 0, cx_data = new_ClientSpecificData\<rparr>"

definition example_broker :: "bool option \<Rightarrow> broker" where
  "example_broker theMaster = Servicebroker_init theMaster None 0 False False (0, 0) example_conns"

definition example_ifd :: SFNDInterfaceDescription where
  "example_ifd = \<lparr>sf_version = \<lparr>v_major = 1, v_minor = 0\<rparr>, sf_name = ''Foo''\<rparr>"

text \<open>A broker with one server, registered for the group 100 on connection 0.\<close>

definition example_entry :: ServerListEntry where
  "example_entry =
     \<lparr>se_id = 1, se_partyID = \<lparr>localID = 500001, extendedID = 1000\<rparr>, se_masterID = party_assign 0, se_nid = 0,
      se_pid = 7, se_chid = 42, se_ifDescription = to_ifDescription example_ifd,
      se_implVersion = \<lparr>iv_major = 0, iv_minor = 0, iv_patch = 0\<rparr>, se_grpid = 100, se_local = False\<rparr>"

definition example_served :: "bool option \<Rightarrow> broker" where
  "example_served mst = set_servers \<lparr>sl_entries = [example_entry], sl_total = 1\<rparr>
     (ocb_update 0 (addServer (se_partyID example_entry)) (example_broker mst))"

text \<open>Two waiting notifications of root and of a user outside the group, on open channels.\<close>

definition example_waiting :: "u32 \<Rightarrow> u32 \<Rightarrow> Notification" where
  "example_waiting i uid =
     (fst (new_Notification (example_broker None)))\<lparr>n_notificationID := i, n_coid := 3, n_uid := uid,
        n_ifDescription := to_ifDescription example_ifd\<rparr>"

lemma fold_max_ge: "(a::int) \<le> fold max xs a" "x \<in> set xs \<Longrightarrow> x \<le> fold max xs a"
  using Max.set_eq_fold [of a xs] Max_ge [of "set (a # xs)"] by (metis List.finite_set list.set_intros)+

lemma example_env_ok [simp]: "env_ok example_env"
proof -
  have "0 \<le> fold max busy 2 + (1::int)" "fold max busy 2 + (1::int) \<notin> set busy" for busy
    using fold_max_ge(1) [of 2 busy] fold_max_ge(2) [of "fold max busy 2 + 1" busy 2] by auto
  then show ?thesis by (simp add: env_ok_def fds_fresh_def example_env_def example_os_def)
qed

lemma example_broker_inv [simp]: "broker_inv (example_broker mst)"
  unfolding example_broker_def by (rule init_inv) (simp add: example_conns_def)

lemma example_name_free: "name_free example_ifd (example_broker mst)"
  by (simp add: name_free_def example_broker_def Servicebroker_init_def empty_ServerList_def sl_find_name_def
      lower_bound_def)

lemma example_check [simp]: "check_ifDescription example_ifd"
  by code_simp

lemma example_may_register: "may_register c example_ifd (example_broker mst)"
  by (simp add: may_register_def example_broker_def Servicebroker_init_def example_conns_def ctx_isLocal_def
      SB_LOCAL_NODE_ADDRESS_def)

lemma msg_open_example [simp]: "msg_open (new_message\<lparr>m_state := State_PROCESSING\<rparr>)"
  by (simp add: msg_open_def new_message_def)

lemma example_served_sorted: "sl_sorted (mConnectedServers (example_served mst))"
  by (simp add: example_served_def sl_sorted_def)

lemma example_served_inv: "broker_inv (example_served mst)"
  unfolding example_served_def
  by (intro broker_inv_set_servers broker_inv_ocb) (auto simp: sl_sorted_def)

lemma example_served_find:
  "sl_find_if (mConnectedServers (example_served mst)) (to_ifDescription example_ifd) = Some example_entry"
  unfolding sl_find_if_def sl_find_name_eq [OF example_served_sorted]
  by (simp add: example_served_def example_entry_def)

lemma example_served_ctx:
  "ctx_isLocal (mConnections (example_served mst) c)" "cx_uid (mConnections (example_served mst) c) = 1000"
  by (simp_all add: example_served_def example_broker_def Servicebroker_init_def example_conns_def ctx_isLocal_def
      SB_LOCAL_NODE_ADDRESS_def)

lemma example_fields [simp]:
  "isMasterConnected (example_broker mst) \<longleftrightarrow> mst = Some True"
  "isMasterConnected (example_served mst) \<longleftrightarrow> mst = Some True"
  "mQueue (example_served mst) = []"
  "sl_entries (mConnectedServers (example_served mst)) = [example_entry]"
  "\<not> cx_slave (mConnections (example_served mst) c)"
  "\<not> se_local example_entry"
  "se_name example_entry = ''Foo''"
  "forwardService (mConfig (example_served mst)) s"
  "m_putOffset (new_message\<lparr>m_state := st\<rparr>) = 0"
  "m_ancillary (new_message\<lparr>m_state := st\<rparr>) = []"
  by (simp_all add: example_served_def example_broker_def Servicebroker_init_def isMasterConnected_def example_entry_def
      set_servers_def ocb_update_def example_conns_def example_ifd_def c_str_def forwardService_def setTreeMode_def
      new_message_def)

lemma example_sockets_work [simp]: "sockets_work example_env"
proof -
  have fd: "0 \<le> fold max busy 2 + (1::int)" for busy using fold_max_ge(1) [of 2 busy] by simp
  have "0 \<le> fst (pcm_attach example_os nid pid chid m)" if "chans_ok m" for nid pid chid m
  proof (cases "tryAddRef nid pid chid (mSockets m)")
    case None
    then show ?thesis
      by (simp add: pcm_attach_def connect_unix_def connect_tcp_def example_os_def io_ok_def io_in_progress_def fd Let_def)
  next
    case (Some p)
    then have "fst p \<in> pc_fd ` set (mSockets m)"
      by (auto simp: tryAddRef_def find_Some_iff split: option.splits)
    with Some that show ?thesis by (auto simp: pcm_attach_def chans_ok_def case_prod_beta)
  qed
  then show ?thesis by (simp add: sockets_work_def example_env_def)
qed

end
