(* ===== verification/Slist.thy ===== *)
theory Slist
  imports Prelude
begin

text \<open>
  The intrusive singly linked list of \<^verbatim>\<open>src/common/Slist.hpp\<close>. The hooks of the elements are the
  cells of a heap that maps the address of a hook to the address it points at; the list object is
  the address of its sentinel \<^verbatim>\<open>mFirst\<close>, which closes the chain into a circle. The two accessor
  policies (hook in the base class, hook in a member) are records of functions; the list
  operations take the policy as an argument, and the locale \<open>slist_accessor\<close> states what they
  rely on. The lemmas show that every operation on a heap that holds a list behaves like the
  corresponding function on HOL lists and returns.
\<close>

section \<open>The heap of hooks\<close>

type_synonym addr = nat
type_synonym hooks = "addr \<Rightarrow> addr"

text \<open>
  An operation that runs into an \<^verbatim>\<open>assert\<close> gives \<open>Inl Assert_failed\<close>. A loop that does not end
  gives \<open>None\<close>.
\<close>

datatype slist_error = Assert_failed

type_synonym 'a slist_result = "(slist_error, 'a) outcome"

section \<open>Accessor policies\<close>

text \<open>The policy with the hook in the base class of the element.\<close>

definition base_next :: "hooks \<Rightarrow> addr \<Rightarrow> addr" where
  "base_next h d = h d"

definition base_hookAfter :: "hooks \<Rightarrow> addr \<Rightarrow> addr \<Rightarrow> hooks" where
  "base_hookAfter h element after =
     (let h = h(element := h after) in h(after := element))"

definition base_unhookNext :: "hooks \<Rightarrow> addr \<Rightarrow> hooks" where
  "base_unhookNext h d =
     (let to_unhook = base_next h d;
          h = h(d := base_next h to_unhook)
      in h(to_unhook := 0))"

text \<open>
  The policy with the hook in a member of the element: \<open>mem\<close> is the offset of the member. The
  operations on an element and those on the sentinel are overloads.
\<close>

definition member_next :: "nat \<Rightarrow> hooks \<Rightarrow> addr \<Rightarrow> addr" where
  "member_next mem h d = h (d + mem)"

definition member_next_hook :: "hooks \<Rightarrow> addr \<Rightarrow> addr" where
  "member_next_hook h d = h d"

definition member_hookAfter :: "nat \<Rightarrow> hooks \<Rightarrow> addr \<Rightarrow> addr \<Rightarrow> hooks" where
  "member_hookAfter mem h element after =
     (let h = h(element + mem := member_next mem h after) in h(after + mem := element))"

definition member_hookAfter_hook :: "nat \<Rightarrow> hooks \<Rightarrow> addr \<Rightarrow> addr \<Rightarrow> hooks" where
  "member_hookAfter_hook mem h element after =
     (let h = h(element + mem := h after) in h(after := element))"

definition member_unhookNext :: "nat \<Rightarrow> hooks \<Rightarrow> addr \<Rightarrow> hooks" where
  "member_unhookNext mem h d =
     (let to_unhook = member_next mem h d;
          h = h(d + mem := member_next mem h to_unhook)
      in h(to_unhook + mem := 0))"

definition member_unhookNext_hook :: "nat \<Rightarrow> hooks \<Rightarrow> addr \<Rightarrow> hooks" where
  "member_unhookNext_hook mem h d =
     (let to_unhook = member_next_hook h d;
          h = h(d := member_next mem h to_unhook)
      in h(to_unhook + mem := 0))"

text \<open>What the list and its iterators call: the overloads for elements and for the sentinel.\<close>

record accessor =
  acc_next :: "hooks \<Rightarrow> addr \<Rightarrow> addr"
  acc_next_hook :: "hooks \<Rightarrow> addr \<Rightarrow> addr"
  acc_hookAfter :: "hooks \<Rightarrow> addr \<Rightarrow> addr \<Rightarrow> hooks"
  acc_hookAfter_hook :: "hooks \<Rightarrow> addr \<Rightarrow> addr \<Rightarrow> hooks"
  acc_unhookNext :: "hooks \<Rightarrow> addr \<Rightarrow> hooks"
  acc_unhookNext_hook :: "hooks \<Rightarrow> addr \<Rightarrow> hooks"

definition SlistBaseHookAccessor :: accessor where
  "SlistBaseHookAccessor =
     \<lparr> acc_next = base_next, acc_next_hook = base_next,
       acc_hookAfter = base_hookAfter, acc_hookAfter_hook = base_hookAfter,
       acc_unhookNext = base_unhookNext, acc_unhookNext_hook = base_unhookNext \<rparr>"

definition SlistMemberHookAccessor :: "nat \<Rightarrow> accessor" where
  "SlistMemberHookAccessor mem =
     \<lparr> acc_next = member_next mem, acc_next_hook = member_next_hook,
       acc_hookAfter = member_hookAfter mem, acc_hookAfter_hook = member_hookAfter_hook mem,
       acc_unhookNext = member_unhookNext mem,
       acc_unhookNext_hook = member_unhookNext_hook mem \<rparr>"

section \<open>Iterators\<close>

text \<open>An iterator is the pointer it holds; advancing it asserts that the pointer is not null.\<close>

definition iter_inc :: "accessor \<Rightarrow> hooks \<Rightarrow> addr \<Rightarrow> addr slist_result" where
  "iter_inc acc h p = (if p = 0 then Some (Inl Assert_failed) else Some (Inr (acc_next acc h p)))"

definition iter_get :: "addr \<Rightarrow> addr slist_result" where
  "iter_get p = (if p = 0 then Some (Inl Assert_failed) else Some (Inr p))"

partial_function (option) distance ::
  "accessor \<Rightarrow> hooks \<Rightarrow> addr \<Rightarrow> addr \<Rightarrow> nat \<Rightarrow> nat slist_result" where
  "distance acc h p q ret =
     (if p = q then Some (Inr ret)
      else case iter_inc acc h p of
             None \<Rightarrow> None
           | Some (Inl e) \<Rightarrow> Some (Inl e)
           | Some (Inr p') \<Rightarrow> distance acc h p' q (Suc ret))"

section \<open>The list operations\<close>

text \<open>In all of them \<open>l\<close> is the address of the sentinel \<^verbatim>\<open>mFirst\<close> of the list.\<close>

definition sl_empty :: "hooks \<Rightarrow> addr \<Rightarrow> bool" where
  "sl_empty h l \<longleftrightarrow> h l = l"

definition sl_clear :: "hooks \<Rightarrow> addr \<Rightarrow> hooks" where
  "sl_clear h l = h(l := l)"

definition sl_begin :: "hooks \<Rightarrow> addr \<Rightarrow> addr" where
  "sl_begin h l = (if sl_empty h l then l else h l)"

definition sl_end :: "hooks \<Rightarrow> addr \<Rightarrow> addr" where
  "sl_end h l = l"

definition sl_push_front :: "accessor \<Rightarrow> hooks \<Rightarrow> addr \<Rightarrow> addr \<Rightarrow> hooks" where
  "sl_push_front acc h l val = acc_hookAfter_hook acc h val l"

definition sl_pop_front :: "accessor \<Rightarrow> hooks \<Rightarrow> addr \<Rightarrow> hooks slist_result" where
  "sl_pop_front acc h l =
     (if sl_empty h l then Some (Inl Assert_failed) else Some (Inr (acc_unhookNext_hook acc h l)))"

definition sl_front :: "accessor \<Rightarrow> hooks \<Rightarrow> addr \<Rightarrow> addr slist_result" where
  "sl_front acc h l =
     (if sl_empty h l then Some (Inl Assert_failed) else Some (Inr (acc_next_hook acc h l)))"

definition sl_size :: "accessor \<Rightarrow> hooks \<Rightarrow> addr \<Rightarrow> nat slist_result" where
  "sl_size acc h l = distance acc h (sl_begin h l) (sl_end h l) 0"

text \<open>The scan of \<^verbatim>\<open>erase\<close> for the element before \<open>pos\<close>.\<close>

partial_function (option) sl_erase_scan ::
  "accessor \<Rightarrow> hooks \<Rightarrow> addr \<Rightarrow> addr \<Rightarrow> addr \<Rightarrow> (hooks \<times> addr) slist_result" where
  "sl_erase_scan acc h l pos it =
     (if it = sl_end h l then Some (Inl Assert_failed)
      else case iter_inc acc h it of
             None \<Rightarrow> None
           | Some (Inl e) \<Rightarrow> Some (Inl e)
           | Some (Inr tmp) \<Rightarrow>
               (if tmp = pos
                then obind (iter_get it) (\<lambda>p.
                       let h' = acc_unhookNext acc h p
                       in obind (iter_inc acc h' it) (\<lambda>nx. Some (Inr (h', nx))))
                else sl_erase_scan acc h l pos tmp))"

definition sl_erase ::
  "accessor \<Rightarrow> hooks \<Rightarrow> addr \<Rightarrow> addr \<Rightarrow> (hooks \<times> addr) slist_result" where
  "sl_erase acc h l pos =
     (if pos = sl_begin h l
      then obind (sl_pop_front acc h l) (\<lambda>h'. Some (Inr (h', sl_begin h' l)))
      else sl_erase_scan acc h l pos (sl_begin h l))"

text \<open>The disposer is called with the erased element; \<open>log\<close> lists the calls, latest first.\<close>

definition sl_erase_and_dispose ::
  "accessor \<Rightarrow> hooks \<Rightarrow> addr \<Rightarrow> addr \<Rightarrow> addr list \<Rightarrow> (hooks \<times> addr \<times> addr list) slist_result" where
  "sl_erase_and_dispose acc h l pos log =
     obind (sl_erase acc h l pos) (\<lambda>(h', it).
       obind (iter_get pos) (\<lambda>p. Some (Inr (h', it, p # log))))"

partial_function (option) sl_clear_and_dispose ::
  "accessor \<Rightarrow> hooks \<Rightarrow> addr \<Rightarrow> addr list \<Rightarrow> (hooks \<times> addr list) slist_result" where
  "sl_clear_and_dispose acc h l log =
     (case sl_size acc h l of
        None \<Rightarrow> None
      | Some (Inl e) \<Rightarrow> Some (Inl e)
      | Some (Inr n) \<Rightarrow>
          (if 0 < n
           then case sl_erase_and_dispose acc h l (sl_begin h l) log of
                  None \<Rightarrow> None
                | Some (Inl e) \<Rightarrow> Some (Inl e)
                | Some (Inr (h', it, log')) \<Rightarrow> sl_clear_and_dispose acc h' l log'
           else Some (Inr (h, log))))"

definition sl_insert_after ::
  "accessor \<Rightarrow> hooks \<Rightarrow> addr \<Rightarrow> addr \<Rightarrow> (hooks \<times> addr) slist_result" where
  "sl_insert_after acc h pos data =
     obind (iter_get pos) (\<lambda>p. Some (Inr (acc_hookAfter acc h data p, data)))"

partial_function (option) sl_insert_scan ::
  "accessor \<Rightarrow> hooks \<Rightarrow> addr \<Rightarrow> addr \<Rightarrow> addr \<Rightarrow> addr \<Rightarrow> (hooks \<times> addr) slist_result" where
  "sl_insert_scan acc h l pos data it =
     (if it = sl_end h l then Some (Inl Assert_failed)
      else case iter_inc acc h it of
             None \<Rightarrow> None
           | Some (Inl e) \<Rightarrow> Some (Inl e)
           | Some (Inr tmp) \<Rightarrow>
               (if tmp = pos \<or> tmp = sl_end h l
                then obind (iter_get it) (\<lambda>p. Some (Inr (acc_hookAfter acc h data p, data)))
                else sl_insert_scan acc h l pos data tmp))"

definition sl_insert ::
  "accessor \<Rightarrow> hooks \<Rightarrow> addr \<Rightarrow> addr \<Rightarrow> addr \<Rightarrow> (hooks \<times> addr) slist_result" where
  "sl_insert acc h l pos data =
     (if pos = sl_begin h l then Some (Inr (sl_push_front acc h l data, data))
      else sl_insert_scan acc h l pos data (sl_begin h l))"

text \<open>The loops of \<^verbatim>\<open>remove_if\<close> and \<^verbatim>\<open>remove_if_and_dispose\<close>.\<close>

partial_function (option) sl_remove_loop ::
  "accessor \<Rightarrow> (addr \<Rightarrow> bool) \<Rightarrow> hooks \<Rightarrow> addr \<Rightarrow> addr \<Rightarrow> hooks slist_result" where
  "sl_remove_loop acc pred h l it =
     (if it = sl_end h l then Some (Inr h)
      else if it = 0 then Some (Inl Assert_failed)
      else if pred it
      then case sl_erase acc h l it of
             None \<Rightarrow> None
           | Some (Inl e) \<Rightarrow> Some (Inl e)
           | Some (Inr (h', it')) \<Rightarrow> sl_remove_loop acc pred h' l it'
      else case iter_inc acc h it of
             None \<Rightarrow> None
           | Some (Inl e) \<Rightarrow> Some (Inl e)
           | Some (Inr it') \<Rightarrow> sl_remove_loop acc pred h l it')"

definition sl_remove_if :: "accessor \<Rightarrow> (addr \<Rightarrow> bool) \<Rightarrow> hooks \<Rightarrow> addr \<Rightarrow> hooks slist_result" where
  "sl_remove_if acc pred h l = sl_remove_loop acc pred h l (sl_begin h l)"

text \<open>\<open>eq\<close> is \<^verbatim>\<open>operator==\<close> of the element type, on the elements at two addresses.\<close>

definition sl_remove_val ::
  "accessor \<Rightarrow> (addr \<Rightarrow> addr \<Rightarrow> bool) \<Rightarrow> hooks \<Rightarrow> addr \<Rightarrow> addr \<Rightarrow> hooks slist_result" where
  "sl_remove_val acc eq h l val = sl_remove_loop acc (\<lambda>it. eq it val) h l (sl_begin h l)"

partial_function (option) sl_remove_dispose_loop ::
  "accessor \<Rightarrow> (addr \<Rightarrow> bool) \<Rightarrow> hooks \<Rightarrow> addr \<Rightarrow> addr \<Rightarrow> addr list \<Rightarrow>
     (hooks \<times> addr list) slist_result" where
  "sl_remove_dispose_loop acc pred h l it log =
     (if it = sl_end h l then Some (Inr (h, log))
      else if it = 0 then Some (Inl Assert_failed)
      else if pred it
      then case sl_erase_and_dispose acc h l it log of
             None \<Rightarrow> None
           | Some (Inl e) \<Rightarrow> Some (Inl e)
           | Some (Inr (h', it', log')) \<Rightarrow> sl_remove_dispose_loop acc pred h' l it' log'
      else case iter_inc acc h it of
             None \<Rightarrow> None
           | Some (Inl e) \<Rightarrow> Some (Inl e)
           | Some (Inr it') \<Rightarrow> sl_remove_dispose_loop acc pred h l it' log)"

definition sl_remove_if_and_dispose ::
  "accessor \<Rightarrow> (addr \<Rightarrow> bool) \<Rightarrow> hooks \<Rightarrow> addr \<Rightarrow> (hooks \<times> addr list) slist_result" where
  "sl_remove_if_and_dispose acc pred h l = sl_remove_dispose_loop acc pred h l (sl_begin h l) []"

definition sl_remove_and_dispose ::
  "accessor \<Rightarrow> (addr \<Rightarrow> addr \<Rightarrow> bool) \<Rightarrow> hooks \<Rightarrow> addr \<Rightarrow> addr \<Rightarrow>
     (hooks \<times> addr list) slist_result" where
  "sl_remove_and_dispose acc eq h l val =
     sl_remove_dispose_loop acc (\<lambda>it. eq it val) h l (sl_begin h l) []"

partial_function (option) sl_reverse_loop ::
  "accessor \<Rightarrow> hooks \<Rightarrow> addr \<Rightarrow> addr \<Rightarrow> hooks slist_result" where
  "sl_reverse_loop acc h l data =
     (if data = l then Some (Inr h)
      else let nx = acc_next acc h data
           in sl_reverse_loop acc (sl_push_front acc h l data) l nx)"

definition sl_reverse :: "accessor \<Rightarrow> hooks \<Rightarrow> addr \<Rightarrow> hooks slist_result" where
  "sl_reverse acc h l =
     (if sl_empty h l then Some (Inr h)
      else sl_reverse_loop acc (sl_clear h l) l (h l))"

section \<open>What the heap holds\<close>

text \<open>The segment of the chain from \<open>p\<close> to \<open>q\<close>; \<open>hk\<close> gives the address of an element's hook.\<close>

fun lseg :: "(addr \<Rightarrow> addr) \<Rightarrow> hooks \<Rightarrow> addr \<Rightarrow> addr list \<Rightarrow> addr \<Rightarrow> bool" where
  "lseg hk h p [] q \<longleftrightarrow> p = q"
| "lseg hk h p (x # xs) q \<longleftrightarrow> p = x \<and> lseg hk h (h (hk x)) xs q"

text \<open>
  \<open>separated\<close>: the elements are distinct objects, none of them null, and neither they nor their
  hooks are at the address of the sentinel.
\<close>

definition separated :: "(addr \<Rightarrow> addr) \<Rightarrow> addr \<Rightarrow> addr list \<Rightarrow> bool" where
  "separated hk l xs \<longleftrightarrow> distinct xs \<and> (\<forall>x\<in>set xs. x \<noteq> 0 \<and> x \<noteq> l \<and> hk x \<noteq> l)"

definition slist :: "(addr \<Rightarrow> addr) \<Rightarrow> hooks \<Rightarrow> addr \<Rightarrow> addr list \<Rightarrow> bool" where
  "slist hk h l xs \<longleftrightarrow> separated hk l xs \<and> lseg hk h (h l) xs l"

lemma lseg_append [simp]:
  "lseg hk h p (xs @ ys) q \<longleftrightarrow> (\<exists>m. lseg hk h p xs m \<and> lseg hk h m ys q)"
  by (induction xs arbitrary: p) auto

lemma lseg_cong:
  assumes "lseg hk h p xs q" "\<And>x. x \<in> set xs \<Longrightarrow> h' (hk x) = h (hk x)"
  shows "lseg hk h' p xs q"
  using assms by (induction xs arbitrary: p) auto

lemma lseg_hd: "lseg hk h p xs q \<Longrightarrow> p = hd (xs @ [q])"
  by (cases xs) auto

lemma separated_Nil [simp]: "separated hk l []"
  by (simp add: separated_def)

lemma separated_Cons [simp]:
  "separated hk l (x # xs) \<longleftrightarrow>
     x \<notin> set xs \<and> x \<noteq> 0 \<and> x \<noteq> l \<and> hk x \<noteq> l \<and> separated hk l xs"
  by (auto simp: separated_def)

lemma separated_append [simp]:
  "separated hk l (xs @ ys) \<longleftrightarrow>
     separated hk l xs \<and> separated hk l ys \<and> set xs \<inter> set ys = {}"
  by (auto simp: separated_def)

lemma separated_mem: "separated hk l xs \<Longrightarrow> x \<in> set xs \<Longrightarrow> x \<noteq> 0 \<and> x \<noteq> l \<and> hk x \<noteq> l"
  by (simp add: separated_def)

text \<open>What the list needs of its accessor policy.\<close>

locale slist_accessor =
  fixes acc :: accessor and hk :: "addr \<Rightarrow> addr"
  assumes hk_inj: "hk x = hk y \<longleftrightarrow> x = y"
    and next_law: "acc_next acc h d = h (hk d)"
    and next_hook_law: "acc_next_hook acc h l = h l"
    and hookAfter_law: "acc_hookAfter acc h e a = h(hk e := h (hk a), hk a := e)"
    and hookAfter_hook_law: "acc_hookAfter_hook acc h e l = h(hk e := h l, l := e)"
    and unhookNext_law:
      "acc_unhookNext acc h d = h(hk d := h (hk (h (hk d))), hk (h (hk d)) := 0)"
    and unhookNext_hook_law:
      "acc_unhookNext_hook acc h l = h(l := h (hk (h l)), hk (h l) := 0)"
begin

lemmas laws = hk_inj next_law next_hook_law hookAfter_law hookAfter_hook_law unhookNext_law
  unhookNext_hook_law

lemma empty_iff: "slist hk h l xs \<Longrightarrow> sl_empty h l \<longleftrightarrow> xs = []"
  by (cases xs) (auto simp: slist_def sl_empty_def)

lemma begin_eq: "slist hk h l xs \<Longrightarrow> sl_begin h l = hd (xs @ [l])"
  using lseg_hd [of hk h "h l" xs l] by (auto simp: sl_begin_def slist_def sl_empty_def)

lemma clear_slist: "slist hk (sl_clear h l) l []"
  by (simp add: slist_def sl_clear_def)

lemma lseg_frame:
  assumes "lseg hk h p xs q" "separated hk l xs" "y \<notin> set xs"
  shows "lseg hk (h(hk y := v)) p xs q" "lseg hk (h(l := w)) p xs q"
    "lseg hk (h(hk y := v, l := w)) p xs q" "lseg hk (h(l := w, hk y := v)) p xs q"
  using assms by (auto intro!: lseg_cong [OF assms(1)] simp: hk_inj dest: separated_mem)

lemma push_front_slist:
  assumes "slist hk h l xs" "separated hk l (x # xs)"
  shows "slist hk (sl_push_front acc h l x) l (x # xs)"
  using assms by (auto simp: slist_def sl_push_front_def laws intro!: lseg_frame)

lemma pop_front_slist:
  assumes "slist hk h l (x # xs)"
  shows "\<exists>h'. sl_pop_front acc h l = Some (Inr h') \<and> slist hk h' l xs \<and> h' (hk x) = 0"
  using assms
  by (auto simp: slist_def sl_pop_front_def sl_empty_def laws intro!: lseg_frame)

lemma pop_front_empty: "slist hk h l [] \<Longrightarrow> sl_pop_front acc h l = Some (Inl Assert_failed)"
  by (simp add: sl_pop_front_def empty_iff)

lemma front_slist: "slist hk h l (x # xs) \<Longrightarrow> sl_front acc h l = Some (Inr x)"
  by (auto simp: sl_front_def sl_empty_def slist_def laws)

lemma distance_lseg:
  assumes "lseg hk h p xs l" "separated hk l xs"
  shows "distance acc h p l n = Some (Inr (n + length xs))"
  using assms
  by (induction xs arbitrary: p n)
    (subst distance.simps, simp add: iter_inc_def laws)+

lemma size_slist: "slist hk h l xs \<Longrightarrow> sl_size acc h l = Some (Inr (length xs))"
  using distance_lseg [of h "sl_begin h l" xs l 0] lseg_hd [of hk h "h l" xs l]
  by (simp add: sl_size_def sl_end_def begin_eq slist_def)

end

subsection \<open>Erasing and inserting\<close>

context slist_accessor
begin

lemma lseg_unhook:
  assumes "lseg hk h p (as @ x # w # zs) l" "separated hk l (as @ x # w # zs)"
  shows "lseg hk (acc_unhookNext acc h x) p (as @ x # zs) l" (is ?chain)
    "acc_unhookNext acc h x (hk w) = 0"
    "acc_unhookNext acc h x (hk x) = hd (zs @ [l])"
    "acc_unhookNext acc h x l = h l"
proof -
  have w: "h (hk x) = w" and zs: "lseg hk h (h (hk w)) zs l"
    and pre: "lseg hk h p as x"
    using assms(1) by auto
  have u: "acc_unhookNext acc h x = h(hk x := h (hk w), hk w := 0)"
    by (simp add: unhookNext_law w)
  show "acc_unhookNext acc h x (hk w) = 0"
    by (simp add: u)
  show "acc_unhookNext acc h x (hk x) = hd (zs @ [l])"
    using assms(2) lseg_hd [OF zs] by (simp add: u hk_inj)
  show "acc_unhookNext acc h x l = h l"
    using assms(2) by (auto simp: u)
  have "lseg hk (h(hk x := h (hk w), hk w := 0)) p as x"
    using assms(2) by (intro lseg_cong [OF pre]) (auto simp: hk_inj)
  moreover have "lseg hk (h(hk x := h (hk w), hk w := 0)) (h (hk w)) zs l"
    using assms(2) by (intro lseg_cong [OF zs]) (auto simp: hk_inj)
  ultimately show ?chain
    using assms(2) by (auto simp: u hk_inj)
qed

lemma lseg_hook:
  assumes "lseg hk h p (as @ x # zs) l" "separated hk l (as @ x # zs)" "separated hk l [d]"
    "d \<notin> set (as @ x # zs)"
  shows "lseg hk (acc_hookAfter acc h d x) p (as @ x # d # zs) l" (is ?chain)
    "acc_hookAfter acc h d x l = h l"
proof -
  have zs: "lseg hk h (h (hk x)) zs l" and pre: "lseg hk h p as x"
    using assms(1) by auto
  have u: "acc_hookAfter acc h d x = h(hk d := h (hk x), hk x := d)"
    by (simp add: hookAfter_law)
  show "acc_hookAfter acc h d x l = h l"
    using assms(2,3) by (auto simp: u)
  have "lseg hk (h(hk d := h (hk x), hk x := d)) p as x"
    using assms(2,4) by (intro lseg_cong [OF pre]) (auto simp: hk_inj)
  moreover have "lseg hk (h(hk d := h (hk x), hk x := d)) (h (hk x)) zs l"
    using assms(2,4) by (intro lseg_cong [OF zs]) (auto simp: hk_inj)
  ultimately show ?chain
    using assms(4) by (auto simp: u hk_inj)
qed

lemma erase_scan_lseg:
  assumes "lseg hk h p (as @ x # w # zs) l" "separated hk l (as @ x # w # zs)"
  shows "sl_erase_scan acc h l w p = Some (Inr (acc_unhookNext acc h x, hd (zs @ [l])))"
  using assms
proof (induction as arbitrary: p)
  case Nil
  then show ?case
    using lseg_unhook(3) [of h p "[]" x w zs l]
    by (subst sl_erase_scan.simps)
      (auto simp: sl_end_def iter_inc_def iter_get_def next_law Let_def)
next
  case (Cons a as)
  then have "sl_erase_scan acc h l w p = sl_erase_scan acc h l w (h (hk a))"
    using lseg_hd [of hk h "h (hk a)" "as @ x # w # zs" l]
    by (subst sl_erase_scan.simps)
      (auto simp: sl_end_def iter_inc_def next_law, (cases as; auto)+)
  with Cons show ?case by simp
qed

lemma insert_scan_lseg:
  assumes "lseg hk h p (as @ x # zs) l" "separated hk l (as @ x # zs)"
    "w = hd (zs @ [l])"
  shows "sl_insert_scan acc h l w d p = Some (Inr (acc_hookAfter acc h d x, d))"
  using assms
proof (induction as arbitrary: p)
  case Nil
  then show ?case
    using lseg_hd [of hk h "h (hk x)" zs l]
    by (subst sl_insert_scan.simps)
      (auto simp: sl_end_def iter_inc_def iter_get_def next_law)
next
  case (Cons a as)
  have "h (hk a) = hd (as @ [x])"
    using Cons.prems(1) lseg_hd [of hk h "h (hk a)" as x] by auto
  moreover have "hd (as @ [x]) \<noteq> w" "hd (as @ [x]) \<noteq> l"
    using Cons.prems(2,3) by (cases as; cases zs; auto)+
  ultimately have "sl_insert_scan acc h l w d p = sl_insert_scan acc h l w d (h (hk a))"
    using Cons.prems(1,2)
    by (subst sl_insert_scan.simps) (auto simp: sl_end_def iter_inc_def next_law)
  with Cons show ?case by simp
qed

text \<open>Erasing the element after \<open>as\<close>: it is gone, unhooked, and the iterator is on the next one.\<close>

lemma erase_slist:
  assumes "slist hk h l (as @ w # zs)"
  shows "\<exists>h'. sl_erase acc h l w = Some (Inr (h', hd (zs @ [l]))) \<and> slist hk h' l (as @ zs) \<and>
    h' (hk w) = 0"
proof (cases as rule: rev_cases)
  case Nil
  then have "sl_begin h l = w" using begin_eq [OF assms] by simp
  moreover obtain h' where "sl_pop_front acc h l = Some (Inr h')" "slist hk h' l zs" "h' (hk w) = 0"
    using pop_front_slist [of h l w zs] assms Nil by auto
  ultimately show ?thesis
    using Nil by (simp add: sl_erase_def begin_eq)
next
  case (snoc bs x)
  let ?h = "acc_unhookNext acc h x"
  have l: "lseg hk h (h l) (bs @ x # w # zs) l" and s: "separated hk l (bs @ x # w # zs)"
    using assms snoc by (auto simp: slist_def)
  have b: "sl_begin h l = hd (bs @ [x])" "h l = hd (bs @ [x])"
    using begin_eq [OF assms] snoc lseg_hd [OF l] by (cases bs; simp)+
  then have "sl_begin h l \<noteq> w" using s by (cases bs) auto
  then have "sl_erase acc h l w = Some (Inr (?h, hd (zs @ [l])))"
    using erase_scan_lseg [OF l s] b by (simp add: sl_erase_def)
  moreover have "slist hk ?h l (as @ zs)"
    using lseg_unhook(1,4) [OF l s] s snoc by (simp add: slist_def)
  moreover have "?h (hk w) = 0" by (rule lseg_unhook(2) [OF l s])
  ultimately show ?thesis by simp
qed

text \<open>Inserting before the position after \<open>as\<close>, the end included.\<close>

lemma insert_slist:
  assumes "slist hk h l (as @ zs)" "separated hk l [d]" "d \<notin> set (as @ zs)"
  shows "\<exists>h'. sl_insert acc h l (hd (zs @ [l])) d = Some (Inr (h', d)) \<and>
    slist hk h' l (as @ d # zs)"
proof (cases as rule: rev_cases)
  case Nil
  then show ?thesis
    using begin_eq [OF assms(1)] push_front_slist [of h l zs d] assms
    by (simp add: sl_insert_def slist_def)
next
  case (snoc bs x)
  have l: "lseg hk h (h l) (bs @ x # zs) l" and s: "separated hk l (bs @ x # zs)"
    using assms snoc by (auto simp: slist_def)
  have b: "sl_begin h l = hd (bs @ [x])" "h l = hd (bs @ [x])"
    using begin_eq [OF assms(1)] snoc lseg_hd [OF l] by (cases bs; simp)+
  then have "sl_begin h l \<noteq> hd (zs @ [l])" using s by (cases bs; cases zs) auto
  then have "sl_insert acc h l (hd (zs @ [l])) d = Some (Inr (acc_hookAfter acc h d x, d))"
    using insert_scan_lseg [OF l s refl] b by (simp add: sl_insert_def)
  moreover have "slist hk (acc_hookAfter acc h d x) l (as @ d # zs)"
    using lseg_hook [OF l s assms(2)] assms(2,3) s snoc by (auto simp: slist_def)
  ultimately show ?thesis by blast
qed

lemma insert_after_slist:
  assumes "slist hk h l (as @ x # zs)" "separated hk l [d]" "d \<notin> set (as @ x # zs)"
  shows "\<exists>h'. sl_insert_after acc h x d = Some (Inr (h', d)) \<and> slist hk h' l (as @ x # d # zs)"
  using lseg_hook [of h "h l" as x zs l d] assms
  by (auto simp: slist_def sl_insert_after_def iter_get_def)

end

subsection \<open>The loops over the list\<close>

context slist_accessor
begin

lemma next_slist:
  assumes "slist hk h l (as @ x # zs)"
  shows "iter_inc acc h x = Some (Inr (hd (zs @ [l])))"
  using assms lseg_hd [of hk h "h (hk x)" zs l] by (auto simp: slist_def iter_inc_def next_law)

lemma remove_loop_slist:
  assumes "slist hk h l (as @ zs)"
  shows "\<exists>h'. sl_remove_loop acc P h l (hd (zs @ [l])) = Some (Inr h') \<and>
    slist hk h' l (as @ filter (\<lambda>x. \<not> P x) zs)"
  using assms
proof (induction zs arbitrary: h as)
  case Nil
  then show ?case by (subst sl_remove_loop.simps) (simp add: sl_end_def)
next
  case (Cons z zs)
  have z: "z \<noteq> 0" "z \<noteq> l" using Cons.prems by (auto simp: slist_def)
  show ?case
  proof (cases "P z")
    case True
    from erase_slist [OF Cons.prems] obtain h1
      where e: "sl_erase acc h l z = Some (Inr (h1, hd (zs @ [l])))" "slist hk h1 l (as @ zs)"
      by blast
    show ?thesis
      using Cons.IH [OF e(2)] z True e(1)
      by (subst sl_remove_loop.simps) (simp add: sl_end_def)
  next
    case False
    show ?thesis
      using Cons.IH [of h "as @ [z]"] Cons.prems z False next_slist [OF Cons.prems]
      by (subst sl_remove_loop.simps) (simp add: sl_end_def)
  qed
qed

lemma remove_if_slist:
  assumes "slist hk h l xs"
  shows "\<exists>h'. sl_remove_if acc P h l = Some (Inr h') \<and> slist hk h' l (filter (\<lambda>x. \<not> P x) xs)"
  using remove_loop_slist [of h l "[]" xs P] assms by (simp add: sl_remove_if_def begin_eq)

lemma remove_slist:
  assumes "slist hk h l xs"
  shows "\<exists>h'. sl_remove_val acc eq h l v = Some (Inr h') \<and>
    slist hk h' l (filter (\<lambda>x. \<not> eq x v) xs)"
  using remove_loop_slist [of h l "[]" xs "\<lambda>it. eq it v"] assms
  by (simp add: sl_remove_val_def begin_eq)

lemma erase_and_dispose_slist:
  assumes "slist hk h l (as @ w # zs)"
  shows "\<exists>h'. sl_erase_and_dispose acc h l w log = Some (Inr (h', hd (zs @ [l]), w # log)) \<and>
    slist hk h' l (as @ zs)"
proof -
  have "w \<noteq> 0" using assms by (simp add: slist_def)
  with erase_slist [OF assms] show ?thesis
    by (auto simp: sl_erase_and_dispose_def iter_get_def)
qed

lemma remove_dispose_loop_slist:
  assumes "slist hk h l (as @ zs)"
  shows "\<exists>h'. sl_remove_dispose_loop acc P h l (hd (zs @ [l])) log =
      Some (Inr (h', rev (filter P zs) @ log)) \<and>
    slist hk h' l (as @ filter (\<lambda>x. \<not> P x) zs)"
  using assms
proof (induction zs arbitrary: h as log)
  case Nil
  then show ?case by (subst sl_remove_dispose_loop.simps) (simp add: sl_end_def)
next
  case (Cons z zs)
  have z: "z \<noteq> 0" "z \<noteq> l" using Cons.prems by (auto simp: slist_def)
  show ?case
  proof (cases "P z")
    case True
    from erase_and_dispose_slist [OF Cons.prems] obtain h1
      where e: "sl_erase_and_dispose acc h l z log = Some (Inr (h1, hd (zs @ [l]), z # log))"
        "slist hk h1 l (as @ zs)"
      by blast
    show ?thesis
      using Cons.IH [OF e(2), of "z # log"] z True e(1)
      by (subst sl_remove_dispose_loop.simps) (simp add: sl_end_def)
  next
    case False
    show ?thesis
      using Cons.IH [of h "as @ [z]" log] Cons.prems z False next_slist [OF Cons.prems]
      by (subst sl_remove_dispose_loop.simps) (simp add: sl_end_def)
  qed
qed

lemma remove_if_and_dispose_slist:
  assumes "slist hk h l xs"
  shows "\<exists>h'. sl_remove_if_and_dispose acc P h l = Some (Inr (h', rev (filter P xs))) \<and>
    slist hk h' l (filter (\<lambda>x. \<not> P x) xs)"
  using remove_dispose_loop_slist [of h l "[]" xs P "[]"] assms
  by (simp add: sl_remove_if_and_dispose_def begin_eq)

lemma remove_and_dispose_slist:
  assumes "slist hk h l xs"
  shows "\<exists>h'. sl_remove_and_dispose acc eq h l v =
      Some (Inr (h', rev (filter (\<lambda>x. eq x v) xs))) \<and>
    slist hk h' l (filter (\<lambda>x. \<not> eq x v) xs)"
  using remove_dispose_loop_slist [of h l "[]" xs "\<lambda>it. eq it v" "[]"] assms
  by (simp add: sl_remove_and_dispose_def begin_eq)

lemma clear_and_dispose_slist:
  assumes "slist hk h l xs"
  shows "\<exists>h'. sl_clear_and_dispose acc h l log = Some (Inr (h', rev xs @ log)) \<and>
    slist hk h' l []"
  using assms
proof (induction xs arbitrary: h log)
  case Nil
  then show ?case
    by (subst sl_clear_and_dispose.simps) (simp add: size_slist [OF Nil])
next
  case (Cons x xs)
  from erase_and_dispose_slist [of h l "[]" x xs log] Cons.prems obtain h1
    where e: "sl_erase_and_dispose acc h l x log = Some (Inr (h1, hd (xs @ [l]), x # log))"
      "slist hk h1 l xs"
    by auto
  show ?case
    using Cons.IH [OF e(2), of "x # log"] e(1) size_slist [OF Cons.prems] begin_eq [OF Cons.prems]
    by (subst sl_clear_and_dispose.simps) simp
qed

lemma reverse_loop_slist:
  assumes "slist hk h l ys" "lseg hk h p zs l" "separated hk l (zs @ ys)"
  shows "\<exists>h'. sl_reverse_loop acc h l p = Some (Inr h') \<and> slist hk h' l (rev zs @ ys)"
  using assms
proof (induction zs arbitrary: h p ys)
  case Nil
  then show ?case by (subst sl_reverse_loop.simps) simp
next
  case (Cons z zs)
  let ?h = "sl_push_front acc h l z"
  have "slist hk ?h l (z # ys)"
    using Cons.prems by (intro push_front_slist) auto
  moreover have "lseg hk ?h (h (hk z)) zs l"
    using Cons.prems by (auto simp: sl_push_front_def laws intro!: lseg_frame)
  ultimately show ?case
    using Cons.IH [of ?h "z # ys" "h (hk z)"] Cons.prems
    by (subst sl_reverse_loop.simps) (auto simp: Let_def next_law)
qed

lemma reverse_slist:
  assumes "slist hk h l xs"
  shows "\<exists>h'. sl_reverse acc h l = Some (Inr h') \<and> slist hk h' l (rev xs)"
proof (cases "xs = []")
  case True
  then show ?thesis using assms empty_iff [OF assms] by (simp add: sl_reverse_def)
next
  case False
  have "lseg hk (sl_clear h l) (h l) xs l"
    using assms lseg_frame(2) [of h "h l" xs l l 0 l]
    by (auto simp: slist_def sl_clear_def dest: separated_mem)
  then show ?thesis
    using reverse_loop_slist [OF clear_slist, of h l "h l" xs] assms False empty_iff [OF assms]
    by (simp add: sl_reverse_def slist_def)
qed

end

text \<open>Both policies keep the contract: the hook is the element itself or its member.\<close>

interpretation base_hook: slist_accessor SlistBaseHookAccessor "\<lambda>d. d"
  by unfold_locales
    (auto simp: SlistBaseHookAccessor_def base_next_def base_hookAfter_def base_unhookNext_def
      Let_def)

lemma member_unhookNext_cases:
  "member_unhookNext mem h d = h(d + mem := h (h (d + mem) + mem), h (d + mem) + mem := 0)"
  "member_unhookNext_hook mem h l = h(l := h (h l + mem), h l + mem := 0)"
  by (simp_all add: member_unhookNext_def member_unhookNext_hook_def member_next_def
      member_next_hook_def Let_def)

interpretation member_hook: slist_accessor "SlistMemberHookAccessor mem" "\<lambda>d. d + mem" for mem
  by unfold_locales
    (simp_all add: SlistMemberHookAccessor_def member_next_def member_next_hook_def
      member_hookAfter_def member_hookAfter_hook_def member_unhookNext_cases Let_def)

section \<open>Sequences of operations\<close>

datatype slist_op =
    Push_front addr
  | Pop_front
  | Erase addr
  | Insert addr addr
  | Insert_after addr addr
  | Remove_if "addr \<Rightarrow> bool"
  | Reverse
  | Clear

fun sl_step :: "accessor \<Rightarrow> addr \<Rightarrow> slist_op \<Rightarrow> hooks \<Rightarrow> hooks slist_result" where
  "sl_step acc l (Push_front x) h = Some (Inr (sl_push_front acc h l x))"
| "sl_step acc l Pop_front h = sl_pop_front acc h l"
| "sl_step acc l (Erase pos) h = obind (sl_erase acc h l pos) (\<lambda>(h', it). Some (Inr h'))"
| "sl_step acc l (Insert pos d) h =
     obind (sl_insert acc h l pos d) (\<lambda>(h', it). Some (Inr h'))"
| "sl_step acc l (Insert_after pos d) h =
     obind (sl_insert_after acc h pos d) (\<lambda>(h', it). Some (Inr h'))"
| "sl_step acc l (Remove_if P) h = sl_remove_if acc P h l"
| "sl_step acc l Reverse h = sl_reverse acc h l"
| "sl_step acc l Clear h = Some (Inr (sl_clear h l))"

fun sl_run :: "accessor \<Rightarrow> addr \<Rightarrow> slist_op list \<Rightarrow> hooks \<Rightarrow> hooks slist_result" where
  "sl_run acc l [] h = Some (Inr h)"
| "sl_run acc l (op # ops) h = obind (sl_step acc l op h) (sl_run acc l ops)"

text \<open>
  The same operations on HOL lists; \<open>None\<close> where the caller breaks the contract of the operation
  (an element that is already in the list or is the sentinel, a position that is not in the list,
  popping an empty list).
\<close>

fun ins_before :: "addr \<Rightarrow> addr \<Rightarrow> addr list \<Rightarrow> addr list" where
  "ins_before p d [] = [d]"
| "ins_before p d (x # xs) = (if x = p then d # x # xs else x # ins_before p d xs)"

fun ins_after :: "addr \<Rightarrow> addr \<Rightarrow> addr list \<Rightarrow> addr list" where
  "ins_after p d [] = [d]"
| "ins_after p d (x # xs) = (if x = p then x # d # xs else x # ins_after p d xs)"

fun list_step :: "(addr \<Rightarrow> addr) \<Rightarrow> addr \<Rightarrow> slist_op \<Rightarrow> addr list \<Rightarrow> addr list option" where
  "list_step hk l (Push_front x) xs = (if separated hk l (x # xs) then Some (x # xs) else None)"
| "list_step hk l Pop_front xs = (case xs of [] \<Rightarrow> None | x # xs' \<Rightarrow> Some xs')"
| "list_step hk l (Erase pos) xs = (if pos \<in> set xs then Some (remove1 pos xs) else None)"
| "list_step hk l (Insert pos d) xs =
     (if separated hk l (d # xs) \<and> (pos = l \<or> pos \<in> set xs) then Some (ins_before pos d xs)
      else None)"
| "list_step hk l (Insert_after pos d) xs =
     (if separated hk l (d # xs) \<and> pos \<in> set xs then Some (ins_after pos d xs) else None)"
| "list_step hk l (Remove_if P) xs = Some (filter (\<lambda>x. \<not> P x) xs)"
| "list_step hk l Reverse xs = Some (rev xs)"
| "list_step hk l Clear xs = Some []"

fun list_run :: "(addr \<Rightarrow> addr) \<Rightarrow> addr \<Rightarrow> slist_op list \<Rightarrow> addr list \<Rightarrow> addr list option" where
  "list_run hk l [] xs = Some xs"
| "list_run hk l (op # ops) xs =
     (case list_step hk l op xs of None \<Rightarrow> None | Some xs' \<Rightarrow> list_run hk l ops xs')"

lemma ins_before_split: "p \<notin> set as \<Longrightarrow> ins_before p d (as @ p # zs) = as @ d # p # zs"
  by (induction as) auto

lemma ins_before_end: "p \<notin> set xs \<Longrightarrow> ins_before p d xs = xs @ [d]"
  by (induction xs) auto

lemma ins_after_split: "p \<notin> set as \<Longrightarrow> ins_after p d (as @ p # zs) = as @ p # d # zs"
  by (induction as) auto

context slist_accessor
begin

lemma insert_before_slist:
  assumes "slist hk h l xs" "separated hk l (d # xs)" "pos = l \<or> pos \<in> set xs"
  shows "\<exists>h'. sl_insert acc h l pos d = Some (Inr (h', d)) \<and> slist hk h' l (ins_before pos d xs)"
proof (cases "pos \<in> set xs")
  case True
  then obtain as zs where "xs = as @ pos # zs" "pos \<notin> set as"
    by (meson split_list_first)
  then show ?thesis
    using insert_slist [of h l as "pos # zs" d] assms by (simp add: ins_before_split)
next
  case False
  then show ?thesis
    using insert_slist [of h l xs "[]" d] assms by (auto simp: ins_before_end)
qed

lemma step_refines:
  assumes "slist hk h l xs" "list_step hk l op xs = Some ys"
  shows "\<exists>h'. sl_step acc l op h = Some (Inr h') \<and> slist hk h' l ys"
proof (cases op)
  case (Push_front x)
  then show ?thesis using assms push_front_slist by (auto split: if_splits)
next
  case Pop_front
  then show ?thesis
    using assms pop_front_slist [of h l "hd xs" "tl xs"] by (auto split: list.splits)
next
  case (Erase pos)
  then obtain as zs where "xs = as @ pos # zs" "pos \<notin> set as" "ys = remove1 pos xs"
    using assms(2) by (auto split: if_splits dest!: split_list_first)
  then show ?thesis
    using erase_slist [of h l as pos zs] assms(1) Erase by (auto simp: remove1_append)
next
  case (Insert pos d)
  then show ?thesis
    using insert_before_slist [OF assms(1), of d pos] assms(2) by (auto split: if_splits)
next
  case (Insert_after pos d)
  then obtain as zs where "xs = as @ pos # zs" "pos \<notin> set as" "ys = ins_after pos d xs"
    "separated hk l (d # xs)"
    using assms(2) by (auto split: if_splits dest!: split_list_first)
  then show ?thesis
    using insert_after_slist [of h l as pos zs d] assms(1) Insert_after
    by (auto simp: ins_after_split)
next
  case (Remove_if P)
  then show ?thesis using remove_if_slist [OF assms(1), of P] assms(2) by auto
next
  case Reverse
  then show ?thesis using reverse_slist [OF assms(1)] assms(2) by auto
next
  case Clear
  then show ?thesis using clear_slist assms(2) by auto
qed

lemma run_refines_list:
  assumes "slist hk h l xs" "list_run hk l ops xs = Some ys"
  shows "\<exists>h'. sl_run acc l ops h = Some (Inr h') \<and> slist hk h' l ys"
  using assms
proof (induction ops arbitrary: h xs)
  case Nil
  then show ?case by simp
next
  case (Cons op ops)
  then obtain xs' where s: "list_step hk l op xs = Some xs'" "list_run hk l ops xs' = Some ys"
    by (auto split: option.splits)
  from step_refines [OF Cons.prems(1) s(1)] Cons.IH [OF _ s(2)] show ?case
    by auto
qed

lemma erase_scan_end:
  assumes "lseg hk h p (as @ [x]) l" "separated hk l (as @ [x])"
  shows "sl_erase_scan acc h l l p =
    Some (Inr (acc_unhookNext acc h x, acc_unhookNext acc h x (hk x)))"
  using assms
proof (induction as arbitrary: p)
  case Nil
  then show ?case
    by (subst sl_erase_scan.simps)
      (auto simp: sl_end_def iter_inc_def iter_get_def next_law Let_def)
next
  case (Cons a as)
  have "h (hk a) = hd (as @ [x])" using Cons.prems(1) lseg_hd [of hk h "h (hk a)" as x] by auto
  then have "h (hk a) \<noteq> l" using Cons.prems(2) by (cases as) auto
  then show ?case
    using Cons by (subst sl_erase_scan.simps) (auto simp: sl_end_def iter_inc_def next_law)
qed

end

text \<open>The accessor for a hook in the base class (\<open>None\<close>) or in the member at an offset.\<close>

definition accessor_of :: "nat option \<Rightarrow> accessor" where
  "accessor_of pol =
     (case pol of None \<Rightarrow> SlistBaseHookAccessor | Some mem \<Rightarrow> SlistMemberHookAccessor mem)"

definition hook_of :: "nat option \<Rightarrow> addr \<Rightarrow> addr" where
  "hook_of pol d = (case pol of None \<Rightarrow> d | Some mem \<Rightarrow> d + mem)"

interpretation any_hook: slist_accessor "accessor_of pol" "hook_of pol" for pol
proof (cases pol)
  case None
  then have "accessor_of pol = SlistBaseHookAccessor" "hook_of pol = (\<lambda>d. d)"
    by (auto simp: accessor_of_def hook_of_def)
  then show "slist_accessor (accessor_of pol) (hook_of pol)"
    using base_hook.slist_accessor_axioms by simp
next
  case (Some mem)
  then have "accessor_of pol = SlistMemberHookAccessor mem" "hook_of pol = (\<lambda>d. d + mem)"
    by (auto simp: accessor_of_def hook_of_def)
  then show "slist_accessor (accessor_of pol) (hook_of pol)"
    using member_hook.slist_accessor_axioms by simp
qed

text \<open>
  Erasing \<^verbatim>\<open>end()\<close> of a list that is not empty does not run into the assertion: the sentinel
  itself is unhooked, after which the list cannot even be counted.
\<close>

lemma erase_end_unhooks_sentinel:
  assumes "slist (\<lambda>d. d) h l xs" "xs \<noteq> []" "l \<noteq> 0"
  shows "\<exists>h'. sl_erase SlistBaseHookAccessor h l l = Some (Inr (h', hd xs)) \<and> h' l = 0 \<and>
    sl_size SlistBaseHookAccessor h' l = Some (Inl Assert_failed)"
proof -
  obtain as x where xs: "xs = as @ [x]" using assms(2) by (cases xs rule: rev_cases) auto
  have l: "lseg (\<lambda>d. d) h (h l) (as @ [x]) l" and s: "separated (\<lambda>d. d) l (as @ [x])"
    using assms(1) xs by (auto simp: slist_def)
  have x: "h x = l" using l by simp
  have hl: "h l = hd xs" "hd xs \<noteq> l"
    using lseg_hd [OF l] xs s by (cases as; simp)+
  have b: "sl_begin h l = hd xs" "sl_begin h l \<noteq> l"
    using base_hook.begin_eq [OF assms(1)] xs hl by (cases as; simp)+
  let ?h = "h(x := h l, l := 0)"
  have u: "acc_unhookNext SlistBaseHookAccessor h x = ?h"
    using base_hook.unhookNext_law [of h x] x by simp
  have "sl_erase SlistBaseHookAccessor h l l = Some (Inr (?h, hd xs))"
    using base_hook.erase_scan_end [OF l s] b hl s by (simp add: sl_erase_def u)
  moreover have "sl_size SlistBaseHookAccessor ?h l = Some (Inl Assert_failed)"
    using assms(3) unfolding sl_size_def
    by (subst distance.simps) (simp add: sl_begin_def sl_empty_def sl_end_def iter_inc_def)
  ultimately show ?thesis by auto
qed

end
