(* ===== verification/Message_Buffer.thy ===== *)
theory Message_Buffer
  imports Prelude
begin

text \<open>
  The growing message buffer \<^verbatim>\<open>CBuffer\<close> (\<^verbatim>\<open>include/dsi/private/CBuffer.hpp\<close>,
  \<^verbatim>\<open>src/base/CBuffer.cpp\<close>) that requests are written into and received into. The number of bits
  of \<^verbatim>\<open>size_t\<close>, whether an allocation succeeds and the contents of memory nobody has written are
  given by a \<open>platform\<close>. The lemmas show when the capacity calculation ends, what it gives, and
  that growing keeps the data.
\<close>

section \<open>The state\<close>

record platform =
  size_bits :: nat
  alloc :: "nat \<Rightarrow> bool"
  junk :: "nat \<Rightarrow> char"

text \<open>\<^verbatim>\<open>sizeof(DSI::MessageHeader)\<close>, \<^verbatim>\<open>sizeof(DSI::EventInfo)\<close> and \<^verbatim>\<open>DSI_PAYLOAD_SIZE\<close>.\<close>

definition DSI_PACKET_SIZE :: nat where
  "DSI_PACKET_SIZE = 4 * 1024"

definition sizeof_MessageHeader :: nat where
  "sizeof_MessageHeader = 40"

definition sizeof_EventInfo :: nat where
  "sizeof_EventInfo = 16"

definition DSI_PAYLOAD_SIZE :: nat where
  "DSI_PAYLOAD_SIZE = DSI_PACKET_SIZE - sizeof_MessageHeader"

lemma payload_size: "DSI_PAYLOAD_SIZE = 4056"
  by (simp add: DSI_PAYLOAD_SIZE_def DSI_PACKET_SIZE_def sizeof_MessageHeader_def)

datatype increment_function = One2one | PowerOf2

text \<open>What \<^verbatim>\<open>mBuf\<close> points at: the array inside the object, a heap block, or nothing.\<close>

datatype cb_block = Static | Heap "char list" | Null

record cbuffer =
  mCapacity :: nat
  mBuf :: cb_block
  mSize :: nat
  mCalculator :: increment_function
  mBuffer :: "char list"

definition CBuffer :: "platform \<Rightarrow> increment_function \<Rightarrow> cbuffer" where
  "CBuffer pf func =
     \<lparr> mCapacity = DSI_PAYLOAD_SIZE, mBuf = Static, mSize = 0, mCalculator = func,
       mBuffer = map (junk pf) [0..<DSI_PAYLOAD_SIZE] \<rparr>"

section \<open>Operations\<close>

definition one2one :: "nat \<Rightarrow> nat option" where
  "one2one newCapacity = Some newCapacity"

text \<open>The loop \<^verbatim>\<open>while(rc < newCapacity) rc <<= 1;\<close> on a \<^verbatim>\<open>size_t\<close> of \<open>w\<close> bits.\<close>

partial_function (option) powerOf2_loop :: "nat \<Rightarrow> nat \<Rightarrow> nat \<Rightarrow> nat option" where
  "powerOf2_loop w newCapacity rc =
     (if rc < newCapacity then powerOf2_loop w newCapacity ((rc * 2) mod 2 ^ w) else Some rc)"

definition powerOf2 :: "nat \<Rightarrow> nat \<Rightarrow> nat option" where
  "powerOf2 w newCapacity = powerOf2_loop w newCapacity DSI_PAYLOAD_SIZE"

definition calculate :: "platform \<Rightarrow> increment_function \<Rightarrow> nat \<Rightarrow> nat option" where
  "calculate pf f n = (case f of One2one \<Rightarrow> one2one n | PowerOf2 \<Rightarrow> powerOf2 (size_bits pf) n)"

text \<open>The bytes of the block \<^verbatim>\<open>mBuf\<close> points at.\<close>

definition cb_mem :: "cbuffer \<Rightarrow> char list" where
  "cb_mem b = (case mBuf b of Static \<Rightarrow> mBuffer b | Heap bs \<Rightarrow> bs | Null \<Rightarrow> [])"

text \<open>\<^verbatim>\<open>realloc\<close> that succeeds: a block of \<open>n\<close> bytes that starts with the old contents.\<close>

definition realloc :: "platform \<Rightarrow> char list \<Rightarrow> nat \<Rightarrow> char list" where
  "realloc pf old n = take n old @ map (junk pf) [length old..<n]"

text \<open>Overwriting a block from an offset on, as far as the block goes.\<close>

definition overwrite :: "char list \<Rightarrow> nat \<Rightarrow> char list \<Rightarrow> char list" where
  "overwrite mem off bs = take off mem @ bs @ drop (off + length bs) mem"

definition setCapacity :: "platform \<Rightarrow> nat \<Rightarrow> cbuffer \<Rightarrow> (bool \<times> cbuffer) option" where
  "setCapacity pf newCapacity b =
     (if newCapacity > DSI_PAYLOAD_SIZE then
        if newCapacity > mCapacity b then
          let needMemcpy = (mBuf b = Static);
              old = (case mBuf b of Heap bs \<Rightarrow> bs | _ \<Rightarrow> [])
          in case calculate pf (mCalculator b) newCapacity of
               None \<Rightarrow> None
             | Some actual \<Rightarrow>
                 if alloc pf actual then
                   let mem = realloc pf old actual;
                       mem = (if needMemcpy then overwrite mem 0 (take (mSize b) (mBuffer b))
                              else mem)
                   in Some (True, b\<lparr> mBuf := Heap mem, mCapacity := actual \<rparr>)
                 else Some (False, b\<lparr> mBuf := Null \<rparr>)
        else Some (True, b)
      else Some (True, b))"

definition pbump :: "nat \<Rightarrow> cbuffer \<Rightarrow> cbuffer" where
  "pbump count b = b\<lparr> mSize := mSize b + count \<rparr>"

text \<open>The bytes put into the buffer so far.\<close>

definition content :: "cbuffer \<Rightarrow> char list" where
  "content b = take (mSize b) (cb_mem b)"

section \<open>The capacity calculation\<close>

lemma powerOf2_loop_bounds:
  assumes "powerOf2_loop w n rc = Some r"
  shows "n \<le> r"
  using assms by (rule powerOf2_loop.raw_induct [rotated]) (auto split: if_splits)

lemma powerOf2_loop_returns:
  assumes "n \<le> rc * 2 ^ k" "rc * 2 ^ k < 2 ^ w"
  shows "\<exists>j \<le> k. powerOf2_loop w n rc = Some (rc * 2 ^ j) \<and> (j = 0 \<or> rc * 2 ^ j < 2 * n)"
  using assms
proof (induction k arbitrary: rc)
  case 0
  then show ?case by (subst powerOf2_loop.simps) simp
next
  case (Suc k)
  show ?case
  proof (cases "rc < n")
    case False
    then show ?thesis by (subst powerOf2_loop.simps) auto
  next
    case True
    have "rc * 2 \<le> rc * 2 ^ Suc k" by simp
    then have w: "(rc * 2) mod 2 ^ w = rc * 2"
      using Suc.prems(2) by (intro mod_less) (rule le_less_trans)
    have "\<exists>j \<le> k. powerOf2_loop w n (rc * 2) = Some (rc * 2 * 2 ^ j) \<and>
        (j = 0 \<or> rc * 2 * 2 ^ j < 2 * n)"
      using Suc.prems by (intro Suc.IH) (simp_all add: mult.assoc)
    then obtain j where j: "j \<le> k" "powerOf2_loop w n (rc * 2) = Some (rc * 2 * 2 ^ j)"
      "j = 0 \<or> rc * 2 * 2 ^ j < 2 * n" by blast
    have "powerOf2_loop w n rc = Some (rc * 2 ^ Suc j)"
      using True j(2) w by (subst powerOf2_loop.simps) (simp add: mult.assoc)
    moreover have "rc * 2 ^ Suc j < 2 * n"
      using j(3) True by (auto simp: mult.assoc)
    ultimately show ?thesis using j(1) by (metis Suc_le_mono)
  qed
qed

text \<open>
  Where the shift loses the top bit, the values that follow stay below the largest one reached
  before: the loop never gets to a capacity beyond that one.
\<close>

lemma powerOf2_loop_stuck:
  assumes "\<And>x. x \<in> S \<Longrightarrow> x < n \<and> (x * 2) mod 2 ^ w \<in> S" "rc \<in> S"
  shows "powerOf2_loop w n rc = None"
proof (rule ccontr)
  assume "powerOf2_loop w n rc \<noteq> None"
  then obtain r where "powerOf2_loop w n rc = Some r" by auto
  then have "(\<forall>x \<in> S. x < n \<and> (x * 2) mod 2 ^ w \<in> S) \<longrightarrow> rc \<notin> S"
    by (rule powerOf2_loop.raw_induct [rotated]) (auto split: if_splits, blast)
  with assms show False by blast
qed


text \<open>The capacities the loop goes through: \<open>4056 \<cdot> 2\<^sup>k\<close> on a \<^verbatim>\<open>size_t\<close> of \<open>w\<close> bits.\<close>

lemma powerOf2_wrapped:
  fixes v :: nat
  assumes "12 \<le> w"
  shows "(v * 2 ^ (w - 12) * 2) mod 2 ^ w = ((v * 2) mod 4096) * 2 ^ (w - 12)"
proof -
  have "(2::nat) ^ w = 4096 * 2 ^ (w - 12)"
    using assms power_add [of "2::nat" 12 "w - 12"] by simp
  then show ?thesis
    using mult_mod_left [of "v * 2" 4096 "2 ^ (w - 12)"] by (simp add: ac_simps)
qed

lemma powerOf2_start:
  assumes "12 \<le> w" "k < w - 12"
  shows "(4056 * 2 ^ k * 2) mod 2 ^ w = (4056::nat) * 2 ^ Suc k"
proof -
  have "(4056::nat) * 2 ^ Suc k < 2 ^ 12 * 2 ^ Suc k" by simp
  also have "\<dots> = 2 ^ (12 + Suc k)" by (simp add: power_add)
  also have "\<dots> \<le> 2 ^ w" using assms by (intro power_increasing) auto
  finally show ?thesis by (simp add: mult.assoc)
qed

definition wrapped_values :: "nat set" where
  "wrapped_values = {4056, 4016, 3936, 3776, 3456, 2816, 1536, 3072, 2048, 0}"

lemma wrapped_values_step: "v \<in> wrapped_values \<Longrightarrow> (v * 2) mod 4096 \<in> wrapped_values"
  by (auto simp: wrapped_values_def)

lemma powerOf2_diverges:
  assumes "12 \<le> w" "4056 * 2 ^ (w - 12) < n"
  shows "powerOf2 w n = None"
proof -
  let ?top = "2 ^ (w - 12) :: nat"
  let ?S = "{4056 * 2 ^ k | k. k < w - 12} \<union> {v * ?top | v. v \<in> wrapped_values}"
  have start: "4056 * 2 ^ k < n" if "k < w - 12" for k
  proof -
    have "(4056::nat) * 2 ^ k \<le> 4056 * ?top" using that by (simp add: power_increasing)
    with assms(2) show ?thesis by linarith
  qed
  have wrapped: "v * ?top < n" if "v \<in> wrapped_values" for v
  proof -
    have "v \<le> 4056" using that by (auto simp: wrapped_values_def)
    then have "v * ?top \<le> 4056 * ?top" by simp
    with assms(2) show ?thesis by linarith
  qed
  have next_start: "(4056 * 2 ^ k * 2) mod 2 ^ w \<in> ?S" if "k < w - 12" for k
  proof (cases "Suc k < w - 12")
    case True
    then show ?thesis using powerOf2_start [OF assms(1) that] by auto
  next
    case False
    then have "Suc k = w - 12" using that by simp
    then show ?thesis
      using powerOf2_start [OF assms(1) that] by (auto simp: wrapped_values_def)
  qed
  have "4056 \<in> ?S"
  proof (cases "w = 12")
    case True
    then show ?thesis by (auto simp: wrapped_values_def)
  next
    case False
    then have "0 < w - 12" using assms(1) by simp
    then show ?thesis by (auto intro!: exI [of _ 0])
  qed
  moreover have "x < n \<and> (x * 2) mod 2 ^ w \<in> ?S" if "x \<in> ?S" for x
  proof -
    from that consider k where "x = 4056 * 2 ^ k" "k < w - 12"
      | v where "x = v * ?top" "v \<in> wrapped_values" by blast
    then show ?thesis
    proof cases
      case 1
      then show ?thesis using start next_start by blast
    next
      case 2
      have "(x * 2) mod 2 ^ w = ((v * 2) mod 4096) * ?top"
        unfolding 2(1) by (rule powerOf2_wrapped [OF assms(1)])
      then show ?thesis using wrapped [OF 2(2)] wrapped_values_step [OF 2(2)] 2(1) by blast
    qed
  qed
  ultimately show ?thesis
    unfolding powerOf2_def payload_size by (intro powerOf2_loop_stuck [of ?S]) blast+
qed

lemma powerOf2_returns:
  assumes "12 \<le> w" "n \<le> 4056 * 2 ^ (w - 12)"
  shows "\<exists>k. powerOf2 w n = Some (4056 * 2 ^ k) \<and> n \<le> 4056 * 2 ^ k \<and> (k = 0 \<or> 4056 * 2 ^ k < 2 * n)"
proof -
  have "(4056::nat) * 2 ^ (w - 12) < 2 ^ 12 * 2 ^ (w - 12)" by simp
  also have "\<dots> = 2 ^ w" using assms(1) power_add [of "2::nat" 12 "w - 12"] by simp
  finally have "\<exists>j \<le> w - 12. powerOf2_loop w n 4056 = Some (4056 * 2 ^ j) \<and>
      (j = 0 \<or> 4056 * 2 ^ j < 2 * n)"
    using assms(2) by (intro powerOf2_loop_returns)
  then show ?thesis
    using powerOf2_loop_bounds by (fastforce simp: powerOf2_def payload_size)
qed

section \<open>Growing keeps the data\<close>

definition cb_wf :: "cbuffer \<Rightarrow> bool" where
  "cb_wf b \<longleftrightarrow>
     mBuf b \<noteq> Null \<and> length (cb_mem b) = mCapacity b \<and> mSize b \<le> mCapacity b \<and>
     length (mBuffer b) = DSI_PAYLOAD_SIZE \<and> DSI_PAYLOAD_SIZE \<le> mCapacity b"

text \<open>Allocations succeed and \<^verbatim>\<open>size_t\<close> is wide enough for the shift to double the capacity.\<close>

definition memory_ok :: "platform \<Rightarrow> nat \<Rightarrow> bool" where
  "memory_ok pf n \<longleftrightarrow>
     12 \<le> size_bits pf \<and> n \<le> 4056 * 2 ^ (size_bits pf - 12) \<and> (\<forall>k. alloc pf k)"

lemma memory_ok_mono: "memory_ok pf n \<Longrightarrow> m \<le> n \<Longrightarrow> memory_ok pf m"
  by (simp add: memory_ok_def)

lemma CBuffer_wf: "cb_wf (CBuffer pf f)" "content (CBuffer pf f) = []"
  by (simp_all add: cb_wf_def CBuffer_def cb_mem_def content_def)

lemma overwrite_length [simp]:
  "off + length bs \<le> length mem \<Longrightarrow> length (overwrite mem off bs) = length mem"
  by (simp add: overwrite_def)

lemma realloc_length [simp]: "length (realloc pf old n) = n"
  by (simp add: realloc_def)

lemma calculate_returns:
  assumes "memory_ok pf n"
  shows "\<exists>m. calculate pf f n = Some m \<and> n \<le> m \<and> (m \<le> 4056 \<or> m \<le> 2 * n)"
  using powerOf2_returns [of "size_bits pf" n] assms
  by (auto simp: calculate_def one2one_def memory_ok_def split: increment_function.splits)

lemma setCapacity_ok:
  assumes "cb_wf b" "memory_ok pf n"
  shows "\<exists>b'. setCapacity pf n b = Some (True, b') \<and> cb_wf b' \<and> content b' = content b \<and>
    mSize b' = mSize b \<and> mCalculator b' = mCalculator b \<and> n \<le> mCapacity b' \<and>
    mCapacity b \<le> mCapacity b' \<and> mCapacity b' \<le> max (mCapacity b) (2 * n)"
proof (cases "n > DSI_PAYLOAD_SIZE \<and> n > mCapacity b")
  case False
  with assms(1) show ?thesis by (auto simp: setCapacity_def cb_wf_def)
next
  case True
  obtain m where m: "calculate pf (mCalculator b) n = Some m" "n \<le> m" "m \<le> 4056 \<or> m \<le> 2 * n"
    using calculate_returns [OF assms(2)] by blast
  have al: "alloc pf m" using assms(2) by (simp add: memory_ok_def)
  show ?thesis
  proof (cases "mBuf b")
    case Static
    then show ?thesis
      using True m al assms(1)
      by (auto simp: setCapacity_def Let_def cb_wf_def cb_mem_def content_def payload_size
          overwrite_def)
  next
    case (Heap bs)
    then show ?thesis
      using True m al assms(1)
      by (auto simp: setCapacity_def Let_def cb_wf_def cb_mem_def content_def payload_size
          realloc_def)
  next
    case Null
    then show ?thesis using assms(1) by (simp add: cb_wf_def)
  qed
qed

text \<open>An allocation that fails drops the block and is reported, with the capacity unchanged.\<close>

lemma setCapacity_fails:
  assumes "calculate pf (mCalculator b) n = Some m" "\<not> alloc pf m" "n > DSI_PAYLOAD_SIZE"
    "n > mCapacity b"
  shows "setCapacity pf n b = Some (False, b\<lparr> mBuf := Null \<rparr>)"
  using assms by (simp add: setCapacity_def Let_def)

end
