(* ===== verification/Utf8.thy ===== *)
theory Utf8
  imports Prelude
begin

text \<open>
  The string conversion of \<^verbatim>\<open>src/base/utf8.cpp\<close>. A \<^verbatim>\<open>wchar_t\<close> is a signed 32 bit number and is
  given by its value; a \<^verbatim>\<open>std::string\<close> is its bytes. The lemmas show that decoding inverts
  encoding on the code points, that both passes of the encoder agree on the length, and that the
  space the decoder reserves is enough.
\<close>

unbundle bit_operations_syntax

type_synonym wchar = int

section \<open>Decoding\<close>

text \<open>One round of the loop of \<^verbatim>\<open>fromUTF8\<close>, on the variables \<open>w\<close>, \<open>bytes\<close> and \<open>dest\<close>.\<close>

definition fromUTF8_step :: "int \<times> int \<times> wchar list \<Rightarrow> char \<Rightarrow> int \<times> int \<times> wchar list" where
  "fromUTF8_step st ch =
     (case st of (w, bytes, dest) \<Rightarrow>
        let c = of_char ch :: int in
        if c \<le> 0x7f then
          (if bytes \<noteq> 0 then (w, 0, dest @ [of_char CHR ''?''] @ [c]) else (w, bytes, dest @ [c]))
        else if c \<le> 0xbf then
          (if bytes \<noteq> 0 then
             let w = push_bit 6 w OR (c AND 0x3f);
                 bytes = bytes - 1
             in if bytes = 0 then (w, bytes, dest @ [w]) else (w, bytes, dest)
           else (w, bytes, dest @ [of_char CHR ''?'']))
        else if c \<le> 0xdf then (c AND 0x1f, 1, dest)
        else if c \<le> 0xef then (c AND 0x0f, 2, dest)
        else if c \<le> 0xf7 then (c AND 0x07, 3, dest)
        else (w, 0, dest @ [of_char CHR ''?'']))"

definition fromUTF8 :: "string \<Rightarrow> wchar list" where
  "fromUTF8 src =
     (case foldl fromUTF8_step (0, 0, []) src of
        (w, bytes, dest) \<Rightarrow> if bytes \<noteq> 0 then dest @ [of_char CHR ''?''] else dest)"

section \<open>Encoding\<close>

text \<open>The two loops of \<^verbatim>\<open>toUTF8\<close>: the length of the result, then the result.\<close>

definition utf8_size :: "wchar \<Rightarrow> nat" where
  "utf8_size w =
     (if w \<le> 0x7f then 1 else if w \<le> 0x7ff then 2 else if w \<le> 0xffff then 3
      else if w \<le> 0x10ffff then 4 else 1)"

definition toUTF8_newSize :: "wchar list \<Rightarrow> nat" where
  "toUTF8_newSize src = foldl (\<lambda>newSize w. newSize + utf8_size w) 0 src"

definition utf8_bytes :: "wchar \<Rightarrow> string" where
  "utf8_bytes w =
     (if w \<le> 0x7f then [char_of w]
      else if w \<le> 0x7ff then
        [char_of (0xc0 OR (drop_bit 6 w AND 0x1f)), char_of (0x80 OR (w AND 0x3f))]
      else if w \<le> 0xffff then
        [char_of (0xe0 OR (drop_bit 12 w AND 0x0f)), char_of (0x80 OR (drop_bit 6 w AND 0x3f)),
         char_of (0x80 OR (w AND 0x3f))]
      else if w \<le> 0x10ffff then
        [char_of (0xf0 OR (drop_bit 18 w AND 0x07)), char_of (0x80 OR (drop_bit 12 w AND 0x3f)),
         char_of (0x80 OR (drop_bit 6 w AND 0x3f)), char_of (0x80 OR (w AND 0x3f))]
      else ''?'')"

definition toUTF8 :: "wchar list \<Rightarrow> string" where
  "toUTF8 src = foldl (\<lambda>dest w. dest @ utf8_bytes w) [] src"

section \<open>Arithmetic of the bit fields\<close>

lemma and_fields:
  fixes x :: int
  shows "x AND 0x3f = x mod 64" "x AND 0x1f = x mod 32" "x AND 0x0f = x mod 16"
    "x AND 0x07 = x mod 8"
  using take_bit_eq_mask [of 6 x] take_bit_eq_mask [of 5 x] take_bit_eq_mask [of 4 x]
    take_bit_eq_mask [of 3 x]
  by (simp_all add: mask_eq_exp_minus_1 take_bit_eq_mod)

lemma or_disjoint:
  fixes x :: int
  assumes "x = take_bit n x"
  shows "push_bit n y OR x = push_bit n y + x"
proof (rule disjunctive_add [symmetric])
  fix m show "\<not> bit (push_bit n y) m \<or> \<not> bit x m"
    using assms by (metis bit_push_bit_iff bit_take_bit_iff linorder_not_less)
qed

lemma or_fields:
  fixes x :: int
  shows "0x80 OR (x mod 64) = 0x80 + x mod 64" "0xc0 OR (x mod 32) = 0xc0 + x mod 32"
    "0xe0 OR (x mod 16) = 0xe0 + x mod 16" "0xf0 OR (x mod 8) = 0xf0 + x mod 8"
    "push_bit 6 y OR (x mod 64) = y * 64 + x mod 64"
  using or_disjoint [of "x mod 64" 6 2] or_disjoint [of "x mod 32" 5 6]
    or_disjoint [of "x mod 16" 4 14] or_disjoint [of "x mod 8" 3 30] or_disjoint [of "x mod 64" 6 y]
  by (simp_all add: take_bit_eq_mod push_bit_eq_mult)

text \<open>What the bytes of the encoder decode to.\<close>

lemma byte_values:
  fixes x :: int
  shows "of_char (char_of (0x80 OR (x AND 0x3f))) = 0x80 + x mod 64"
    "of_char (char_of (0xc0 OR (x AND 0x1f))) = 0xc0 + x mod 32"
    "of_char (char_of (0xe0 OR (x AND 0x0f))) = 0xe0 + x mod 16"
    "of_char (char_of (0xf0 OR (x AND 0x07))) = 0xf0 + x mod 8"
  unfolding and_fields or_fields of_char_of
  by (simp_all add: mod_pos_pos_trivial)

lemma lead_step_value:
  assumes "0 \<le> k"
  shows "of_char ch = 0xc0 + k \<Longrightarrow> k < 32 \<Longrightarrow> fromUTF8_step (v, b, d) ch = (k, 1, d)"
    "of_char ch = 0xe0 + k \<Longrightarrow> k < 16 \<Longrightarrow> fromUTF8_step (v, b, d) ch = (k, 2, d)"
    "of_char ch = 0xf0 + k \<Longrightarrow> k < 8 \<Longrightarrow> fromUTF8_step (v, b, d) ch = (k, 3, d)"
  using assms mod_mult_self3 [of 6 32 k] mod_mult_self3 [of 14 16 k] mod_mult_self3 [of 30 8 k]
  by (simp_all add: fromUTF8_step_def and_fields mod_pos_pos_trivial)

lemma tail_step_value:
  assumes "b \<noteq> 0" "of_char ch = 0x80 + k" "0 \<le> k" "k < 64"
  shows "fromUTF8_step (v, b, d) ch = (v * 64 + k, b - 1, if b = 1 then d @ [v * 64 + k] else d)"
proof -
  have "(0x80 + k) mod 64 = k"
    using assms mod_mult_self3 [of 2 64 k] by (simp add: mod_pos_pos_trivial)
  then have "push_bit 6 v OR ((0x80 + k) AND 0x3f) = v * 64 + k"
    using or_fields(5) [of v "0x80 + k"] by (simp add: and_fields)
  then show ?thesis
    using assms by (simp add: fromUTF8_step_def Let_def del: push_bit_of_int)
qed

lemmas lead_steps =
  lead_step_value(1) [OF pos_mod_sign byte_values(2) pos_mod_bound, simplified]
  lead_step_value(2) [OF pos_mod_sign byte_values(3) pos_mod_bound, simplified]
  lead_step_value(3) [OF pos_mod_sign byte_values(4) pos_mod_bound, simplified]

lemmas tail_step = tail_step_value [OF _ byte_values(1) pos_mod_sign pos_mod_bound]

lemma tail_steps:
  "fromUTF8_step (v, 1, d) (char_of (0x80 OR (x AND 0x3f))) =
     (v * 64 + x mod 64, 0, d @ [v * 64 + x mod 64])"
  "fromUTF8_step (v, 2, d) (char_of (0x80 OR (x AND 0x3f))) = (v * 64 + x mod 64, 1, d)"
  "fromUTF8_step (v, 3, d) (char_of (0x80 OR (x AND 0x3f))) = (v * 64 + x mod 64, 2, d)"
  by (subst tail_step; simp)+

lemma drop_values:
  fixes w :: int
  shows "drop_bit 6 w = w div 64" "drop_bit 12 w = w div 4096" "drop_bit 18 w = w div 262144"
  by (simp_all add: drop_bit_eq_div)

lemma field_sums:
  fixes w :: int
  assumes "0 \<le> w"
  shows "w \<le> 0x7ff \<Longrightarrow> w div 64 mod 32 * 64 + w mod 64 = w"
    "w \<le> 0xffff \<Longrightarrow> (w div 4096 mod 16 * 64 + w div 64 mod 64) * 64 + w mod 64 = w"
    "w \<le> 0x10ffff \<Longrightarrow>
      ((w div 262144 mod 8 * 64 + w div 4096 mod 64) * 64 + w div 64 mod 64) * 64 + w mod 64 = w"
proof -
  define a b c where "a = w div 64" and "b = a div 64" and "c = b div 64"
  have d: "w div 4096 = b" "w div 262144 = c"
    using zdiv_zmult2_eq [of 64 w 64] zdiv_zmult2_eq [of 64 w 4096] zdiv_zmult2_eq [of 64 a 64]
    by (simp_all add: a_def b_def c_def)
  have e: "w = 64 * a + w mod 64" "a = 64 * b + a mod 64" "b = 64 * c + b mod 64"
    by (simp_all add: a_def b_def c_def)
  have n: "0 \<le> a" "0 \<le> b" "0 \<le> c"
    using assms by (simp_all add: a_def b_def c_def pos_imp_zdiv_nonneg_iff)
  have r: "0 \<le> w mod 64" "0 \<le> a mod 64" "0 \<le> b mod 64"
    by simp_all
  show "w div 64 mod 32 * 64 + w mod 64 = w" if "w \<le> 0x7ff"
  proof -
    have "a mod 32 = a" using that e(1) n(1) r(1) by (intro mod_pos_pos_trivial) linarith+
    then show ?thesis using e(1) by (simp only: a_def [symmetric])
  qed
  show "(w div 4096 mod 16 * 64 + w div 64 mod 64) * 64 + w mod 64 = w" if "w \<le> 0xffff"
  proof -
    have "b mod 16 = b" using that e n r by (intro mod_pos_pos_trivial) linarith+
    then show ?thesis
      using e n unfolding d a_def [symmetric] by (metis mult.commute)
  qed
  show "((w div 262144 mod 8 * 64 + w div 4096 mod 64) * 64 + w div 64 mod 64) * 64 + w mod 64 = w"
    if "w \<le> 0x10ffff"
  proof -
    have "c mod 8 = c" using that e n r by (intro mod_pos_pos_trivial) linarith+
    then show ?thesis
      using e n unfolding d a_def [symmetric] by (metis mult.commute)
  qed
qed

section \<open>Round trip and lengths\<close>

lemma decode_char:
  assumes "0 \<le> w" "w \<le> 0x10ffff"
  shows "\<exists>w'. foldl fromUTF8_step (v, 0, dest) (utf8_bytes w) = (w', 0, dest @ [w])"
proof -
  consider "w \<le> 0x7f" | "0x7f < w" "w \<le> 0x7ff" | "0x7ff < w" "w \<le> 0xffff" | "0xffff < w"
    by linarith
  then show ?thesis
  proof cases
    case 1
    then show ?thesis
      using assms by (simp add: utf8_bytes_def fromUTF8_step_def Let_def)
  next
    case 2
    then have "utf8_bytes w =
      [char_of (0xc0 OR (drop_bit 6 w AND 0x1f)), char_of (0x80 OR (w AND 0x3f))]"
      unfolding utf8_bytes_def by (subst if_not_P, linarith)+ (simp only: if_True)
    then show ?thesis
      using field_sums(1) [OF assms(1) 2(2)]
      by (simp only: foldl.simps lead_steps tail_steps drop_values) blast
  next
    case 3
    then have "utf8_bytes w =
      [char_of (0xe0 OR (drop_bit 12 w AND 0x0f)), char_of (0x80 OR (drop_bit 6 w AND 0x3f)),
       char_of (0x80 OR (w AND 0x3f))]"
      unfolding utf8_bytes_def by (subst if_not_P, linarith)+ (simp only: if_True)
    then show ?thesis
      using field_sums(2) [OF assms(1) 3(2)]
      by (simp only: foldl.simps lead_steps tail_steps drop_values) blast
  next
    case 4
    then have "utf8_bytes w =
      [char_of (0xf0 OR (drop_bit 18 w AND 0x07)), char_of (0x80 OR (drop_bit 12 w AND 0x3f)),
       char_of (0x80 OR (drop_bit 6 w AND 0x3f)), char_of (0x80 OR (w AND 0x3f))]"
      unfolding utf8_bytes_def using assms(2) by (subst if_not_P, linarith)+ (simp only: if_True)
    then show ?thesis
      using field_sums(3) [OF assms]
      by (simp only: foldl.simps lead_steps tail_steps drop_values) blast
  qed
qed

lemma toUTF8_concat: "toUTF8 ws = concat (map utf8_bytes ws)"
proof -
  have "foldl (\<lambda>dest w. dest @ utf8_bytes w) d ws = d @ concat (map utf8_bytes ws)" for d
    by (induction ws arbitrary: d) auto
  then show ?thesis by (simp add: toUTF8_def)
qed

lemma decode_encoded:
  assumes "\<And>w. w \<in> set ws \<Longrightarrow> 0 \<le> w \<and> w \<le> 0x10ffff"
  shows "\<exists>w'. foldl fromUTF8_step (v, 0, dest) (concat (map utf8_bytes ws)) = (w', 0, dest @ ws)"
  using assms
proof (induction ws arbitrary: v dest)
  case Nil
  then show ?case by simp
next
  case (Cons w ws)
  from decode_char [of w v dest] Cons.prems obtain v'
    where "foldl fromUTF8_step (v, 0, dest) (utf8_bytes w) = (v', 0, dest @ [w])" by auto
  then show ?case using Cons.IH [of v' "dest @ [w]"] Cons.prems by simp
qed

lemma fromUTF8_toUTF8:
  assumes "\<And>w. w \<in> set ws \<Longrightarrow> 0 \<le> w \<and> w \<le> 0x10ffff"
  shows "fromUTF8 (toUTF8 ws) = ws"
  using decode_encoded [of ws 0 "[]"] assms by (auto simp: fromUTF8_def toUTF8_concat)

lemma newSize_exact: "toUTF8_newSize ws = length (toUTF8 ws)"
proof -
  have "foldl (\<lambda>n w. n + utf8_size w) k ws = k + length (concat (map utf8_bytes ws))" for k
    by (induction ws arbitrary: k) (auto simp: utf8_size_def utf8_bytes_def)
  then show ?thesis by (simp add: toUTF8_newSize_def toUTF8_concat)
qed

text \<open>A lead byte that is pending has not been written for yet, so the reserved space suffices.\<close>

lemma fromUTF8_step_length:
  assumes "fromUTF8_step (w, bytes, dest) c = (w', bytes', dest')"
  shows "length dest' + (if bytes' \<noteq> 0 then 1 else 0) \<le>
    Suc (length dest + (if bytes \<noteq> 0 then 1 else 0))"
  using assms by (auto simp: fromUTF8_step_def Let_def split: if_splits)

lemma fromUTF8_fold_length:
  assumes "foldl fromUTF8_step (w, bytes, dest) s = (w', bytes', dest')"
  shows "length dest' + (if bytes' \<noteq> 0 then 1 else 0) \<le>
    length s + (length dest + (if bytes \<noteq> 0 then 1 else 0))"
  using assms
proof (induction s arbitrary: w bytes dest)
  case Nil
  then show ?case by simp
next
  case (Cons c s)
  obtain v b d where st: "fromUTF8_step (w, bytes, dest) c = (v, b, d)"
    by (metis prod_cases3)
  show ?case
    using Cons.IH [of v b d] Cons.prems fromUTF8_step_length [OF st] st by simp
qed

lemma fromUTF8_length: "length (fromUTF8 s) \<le> length s"
proof -
  obtain v b d where st: "foldl fromUTF8_step (0, 0, []) s = (v, b, d)"
    by (metis prod_cases3)
  then show ?thesis
    using fromUTF8_fold_length [OF st] by (auto simp: fromUTF8_def split: if_splits)
qed

end
