(* ===== verification/Streams.thy ===== *)
theory Streams
  imports Message_Buffer Utf8
begin

text \<open>
  The serialiser \<^verbatim>\<open>COStream\<close> and the deserialiser \<^verbatim>\<open>CIStream\<close> (\<^verbatim>\<open>include/dsi/COStream.hpp\<close>,
  \<^verbatim>\<open>include/dsi/CIStream.hpp\<close> and their \<^verbatim>\<open>.cpp\<close> files). The C++ types that can be streamed are a
  datatype, and the operators \<^verbatim>\<open><<\<close> and \<^verbatim>\<open>>>\<close> are functions directed by the value and by the type.
  Numbers are in the byte order of a little endian host. The lemmas show that reading yields a
  value of the type whatever the bytes are, that it stays inside the data, that writing stays
  inside the buffer, and that reading gives back what was written.
\<close>

section \<open>Types and values\<close>

text \<open>
  Integers, enumerations and floating point numbers are the bytes they occupy: \<open>TInt sz\<close> has
  \<open>sz\<close> bytes. A variant holds the number of the stored type, counted from 1.
\<close>

datatype dsi_type =
    TInt nat
  | TBool
  | TStr
  | TWStr
  | TVec dsi_type
  | TMap dsi_type dsi_type
  | TVar "dsi_type list"

datatype dsi_val =
    VInt nat nat
  | VBool bool
  | VStr string
  | VWStr "wchar list"
  | VVec "dsi_val list"
  | VMap "(dsi_val \<times> dsi_val) list"
  | VEmpty
  | VVar nat dsi_val

text \<open>
  What stops the program: writing through a null pointer, writing past the allocated block,
  resizing a vector to a negative number of elements.
\<close>

datatype stream_error = Null_write | Out_of_bounds | Length_error

fun le_bytes :: "nat \<Rightarrow> nat \<Rightarrow> char list" where
  "le_bytes 0 v = []"
| "le_bytes (Suc n) v = char_of (v mod 256) # le_bytes n (v div 256)"

fun of_le :: "char list \<Rightarrow> nat" where
  "of_le [] = 0"
| "of_le (c # cs) = of_char c + 256 * of_le cs"

text \<open>The number of bytes to the next multiple of \<open>sz\<close>: \<^verbatim>\<open>(-offset) & (sizeof(T) - 1)\<close>.\<close>

definition padding :: "nat \<Rightarrow> nat \<Rightarrow> nat" where
  "padding off sz = nat ((- int off) AND (int sz - 1))"

section \<open>Writing\<close>

text \<open>How much room is left; the size never exceeds the capacity.\<close>

definition avail :: "cbuffer \<Rightarrow> nat" where
  "avail b = mCapacity b - mSize b"

definition sbrk :: "platform \<Rightarrow> nat \<Rightarrow> cbuffer \<Rightarrow> cbuffer option" where
  "sbrk pf amount b = map_option snd (setCapacity pf (mCapacity b + amount) b)"

text \<open>\<^verbatim>\<open>COStream::setCapacity\<close> ignores whether the buffer could grow.\<close>

definition os_setCapacity ::
  "platform \<Rightarrow> nat \<Rightarrow> cbuffer \<Rightarrow> (stream_error, cbuffer) outcome" where
  "os_setCapacity pf newCapacity b = map_option Inr (sbrk pf (newCapacity - mSize b) b)"

text \<open>Storing bytes at the put pointer.\<close>

definition put :: "char list \<Rightarrow> cbuffer \<Rightarrow> (stream_error, cbuffer) outcome" where
  "put bs b =
     Some (if mBuf b = Null then Inl Null_write
           else if mCapacity b < mSize b + length bs then Inl Out_of_bounds
           else Inr (case mBuf b of
                       Heap mem \<Rightarrow> b\<lparr> mBuf := Heap (overwrite mem (mSize b) bs) \<rparr>
                     | _ \<Rightarrow> b\<lparr> mBuffer := overwrite (mBuffer b) (mSize b) bs \<rparr>))"

definition write_T ::
  "platform \<Rightarrow> nat \<Rightarrow> char list \<Rightarrow> cbuffer \<Rightarrow> (stream_error, cbuffer) outcome" where
  "write_T pf sz bytes b =
     obind (if 2 * sz < avail b then Some (Inr b)
            else os_setCapacity pf (mSize b + 2 * sz) b)
       (\<lambda>b. let b = pbump (padding (mSize b) sz) b
            in obind (put bytes b) (\<lambda>b. Some (Inr (pbump sz b))))"

definition write_raw ::
  "platform \<Rightarrow> char list \<Rightarrow> cbuffer \<Rightarrow> (stream_error, cbuffer) outcome" where
  "write_raw pf data b =
     obind (if length data < avail b then Some (Inr b)
            else os_setCapacity pf (mSize b + length data) b)
       (\<lambda>b. obind (put data b) (\<lambda>b. Some (Inr (pbump (length data) b))))"

definition write_u32 :: "platform \<Rightarrow> nat \<Rightarrow> cbuffer \<Rightarrow> (stream_error, cbuffer) outcome" where
  "write_u32 pf n b = write_T pf 4 (le_bytes 4 n) b"

definition write_bool :: "platform \<Rightarrow> bool \<Rightarrow> cbuffer \<Rightarrow> (stream_error, cbuffer) outcome" where
  "write_bool pf x b = write_T pf 4 (le_bytes 4 (if x then 1 else 0)) b"

definition write_string :: "platform \<Rightarrow> string \<Rightarrow> cbuffer \<Rightarrow> (stream_error, cbuffer) outcome" where
  "write_string pf s b =
     obind (write_u32 pf (length s) b)
       (\<lambda>b. if length s \<noteq> 0 then write_raw pf s b else Some (Inr b))"

definition write_wstring ::
  "platform \<Rightarrow> wchar list \<Rightarrow> cbuffer \<Rightarrow> (stream_error, cbuffer) outcome" where
  "write_wstring pf s b =
     (if length s \<noteq> 0 then
        let temp = toUTF8 s
        in obind (write_u32 pf (length temp + 1) b) (write_raw pf (temp @ [NUL]))
      else write_u32 pf 0 b)"

function write_val :: "platform \<Rightarrow> dsi_val \<Rightarrow> cbuffer \<Rightarrow> (stream_error, cbuffer) outcome"
  and write_vals :: "platform \<Rightarrow> dsi_val list \<Rightarrow> cbuffer \<Rightarrow> (stream_error, cbuffer) outcome"
  and write_pairs ::
    "platform \<Rightarrow> (dsi_val \<times> dsi_val) list \<Rightarrow> cbuffer \<Rightarrow> (stream_error, cbuffer) outcome" where
  "write_val pf (VInt sz v) b = write_T pf sz (le_bytes sz v) b"
| "write_val pf (VBool x) b = write_bool pf x b"
| "write_val pf (VStr s) b = write_string pf s b"
| "write_val pf (VWStr s) b = write_wstring pf s b"
| "write_val pf (VVec vs) b = obind (write_u32 pf (length vs) b) (write_vals pf vs)"
| "write_val pf (VMap ps) b = obind (write_u32 pf (length ps) b) (write_pairs pf ps)"
| "write_val pf VEmpty b = write_u32 pf 0 b"
| "write_val pf (VVar i v) b = obind (write_u32 pf i b) (write_val pf v)"
| "write_vals pf [] b = Some (Inr b)"
| "write_vals pf (v # vs) b = obind (write_val pf v b) (write_vals pf vs)"
| "write_pairs pf [] b = Some (Inr b)"
| "write_pairs pf ((k, v) # ps) b =
     obind (write_val pf k b) (\<lambda>b. obind (write_val pf v b) (write_pairs pf ps))"
  by pat_completeness auto
termination
  by (relation "measure (\<lambda>x. case x of Inl (pf, v, b) \<Rightarrow> size v
      | Inr (Inl (pf, vs, b)) \<Rightarrow> size_list size vs
      | Inr (Inr (pf, ps, b)) \<Rightarrow> size_list (size_prod size size) ps)") auto

section \<open>Reading\<close>

record istream =
  is_data :: "char list"
  is_size :: nat
  is_offset :: nat
  is_error :: int

definition ERANGE :: int where
  "ERANGE = 34"

definition CIStream :: "char list \<Rightarrow> nat \<Rightarrow> istream" where
  "CIStream payload len = \<lparr> is_data = payload, is_size = len, is_offset = 0, is_error = 0 \<rparr>"

text \<open>\<^verbatim>\<open>glen()\<close> on a \<^verbatim>\<open>size_t\<close> of \<open>w\<close> bits, and \<^verbatim>\<open>gbump\<close>.\<close>

definition glen :: "nat \<Rightarrow> istream \<Rightarrow> nat" where
  "glen w s = (is_size s + 2 ^ w - is_offset s) mod 2 ^ w"

definition gbump :: "nat \<Rightarrow> nat \<Rightarrow> istream \<Rightarrow> istream" where
  "gbump w len s =
     (if len \<le> glen w s then s\<lparr> is_offset := is_offset s + len \<rparr>
      else s\<lparr> is_offset := is_size s, is_error := ERANGE \<rparr>)"

text \<open>Reading a number leaves the variable alone where it fails.\<close>

definition read_T :: "nat \<Rightarrow> nat \<Rightarrow> istream \<Rightarrow> nat \<times> istream" where
  "read_T sz old s =
     (if is_error s = 0 then
        let off = is_offset s + padding (is_offset s) sz
        in if off + sz \<le> is_size s
           then (of_le (take sz (drop off (is_data s))), s\<lparr> is_offset := off + sz \<rparr>)
           else (old, s\<lparr> is_offset := off, is_error := ERANGE \<rparr>)
      else (old, s))"

definition read_bool :: "istream \<Rightarrow> bool \<times> istream" where
  "read_bool s = (let (bval, s) = read_T 4 0 s in (bval \<noteq> 0, s))"

definition read_string :: "string \<Rightarrow> istream \<Rightarrow> string \<times> istream" where
  "read_string old s =
     (if is_error s = 0 then
        let (numOfBytes, s) = read_T 4 0 s
        in if is_error s = 0 \<and> numOfBytes > 0 then
             if numOfBytes \<le> is_size s - is_offset s
             then (take numOfBytes (drop (is_offset s) (is_data s)),
                   s\<lparr> is_offset := is_offset s + numOfBytes \<rparr>)
             else (old, s\<lparr> is_error := ERANGE \<rparr>)
           else ([], s)
      else (old, s))"

definition read_wstring :: "wchar list \<Rightarrow> istream \<Rightarrow> wchar list \<times> istream" where
  "read_wstring old s =
     (if is_error s = 0 then
        let (numOfBytes, s) = read_T 4 0 s
        in if is_error s = 0 \<and> numOfBytes > 0 then
             if numOfBytes \<le> is_size s - is_offset s
             then (fromUTF8 (take (numOfBytes - 1) (drop (is_offset s) (is_data s))),
                   s\<lparr> is_offset := is_offset s + numOfBytes \<rparr>)
             else (old, s\<lparr> is_error := ERANGE \<rparr>)
           else ([], s)
      else (old, s))"

text \<open>The value of a 32 bit number as \<^verbatim>\<open>int32_t\<close>.\<close>

definition as_int32 :: "nat \<Rightarrow> int" where
  "as_int32 n = (if n < 2 ^ 31 then int n else int n - 2 ^ 32)"

text \<open>\<^verbatim>\<open>T()\<close>, the value a variant or a new vector element starts from.\<close>

fun default_val :: "dsi_type \<Rightarrow> dsi_val" where
  "default_val (TInt sz) = VInt sz 0"
| "default_val TBool = VBool False"
| "default_val TStr = VStr []"
| "default_val TWStr = VWStr []"
| "default_val (TVec t) = VVec []"
| "default_val (TMap k v) = VMap []"
| "default_val (TVar ts) = VEmpty"

text \<open>A local variable \<^verbatim>\<open>T x;\<close>: numbers are not initialised, \<open>un\<close> gives what they hold.\<close>

definition local_val :: "(nat \<Rightarrow> nat) \<Rightarrow> dsi_type \<Rightarrow> dsi_val" where
  "local_val un t =
     (case t of TInt sz \<Rightarrow> VInt sz (un sz mod 256 ^ sz) | TBool \<Rightarrow> VBool (un 1 \<noteq> 0)
      | _ \<Rightarrow> default_val t)"

text \<open>\<^verbatim>\<open>m[key] = value\<close> on a \<^verbatim>\<open>std::map\<close>, kept in the order \<open>lt\<close> of its keys.\<close>

fun map_assign ::
  "(dsi_val \<Rightarrow> dsi_val \<Rightarrow> bool) \<Rightarrow> dsi_val \<Rightarrow> dsi_val \<Rightarrow> (dsi_val \<times> dsi_val) list \<Rightarrow>
     (dsi_val \<times> dsi_val) list" where
  "map_assign lt k v [] = [(k, v)]"
| "map_assign lt k v ((k', v') # m) =
     (if lt k' k then (k', v') # map_assign lt k v m
      else if lt k k' then (k, v) # (k', v') # m
      else (k', v) # m)"

text \<open>
  The table of \<^verbatim>\<open>VariantDeserializationHelper::reset\<close>: the position in the type list that each
  type number selects (entry 0 is the empty variant), and \<^verbatim>\<open>typeIdOf\<close>, the number of the first
  occurrence of a type.
\<close>

definition variant_table :: "nat list" where
  "variant_table = [0, 0, 1, 2, 3, 4, 5, 6, 7, 7, 8, 10, 11, 12, 13, 14]"

fun typeIdOf :: "dsi_type \<Rightarrow> dsi_type list \<Rightarrow> nat" where
  "typeIdOf t [] = 0"
| "typeIdOf t (u # us) = (if t = u then 1 else Suc (typeIdOf t us))"

definition variant_reset :: "dsi_type list \<Rightarrow> int \<Rightarrow> nat option" where
  "variant_reset ts idx =
     (if 0 < idx \<and> idx \<le> int (length ts) \<and> nat idx < length variant_table \<and>
         variant_table ! nat idx < length ts
      then Some (variant_table ! nat idx) else None)"

lemma variant_reset_bound: "variant_reset ts idx = Some i \<Longrightarrow> i < length ts"
  by (auto simp: variant_reset_def split: if_splits)

function (sequential) read_val ::
    "(dsi_val \<Rightarrow> dsi_val \<Rightarrow> bool) \<Rightarrow> (nat \<Rightarrow> nat) \<Rightarrow> dsi_type \<Rightarrow> dsi_val \<Rightarrow> istream \<Rightarrow>
       stream_error + (dsi_val \<times> istream)"
  and read_elems ::
    "(dsi_val \<Rightarrow> dsi_val \<Rightarrow> bool) \<Rightarrow> (nat \<Rightarrow> nat) \<Rightarrow> dsi_type \<Rightarrow> dsi_val list \<Rightarrow> istream \<Rightarrow>
       stream_error + (dsi_val list \<times> istream)"
  and read_pairs ::
    "(dsi_val \<Rightarrow> dsi_val \<Rightarrow> bool) \<Rightarrow> (nat \<Rightarrow> nat) \<Rightarrow> dsi_type \<Rightarrow> dsi_type \<Rightarrow> nat \<Rightarrow> dsi_val \<Rightarrow>
       dsi_val \<Rightarrow> (dsi_val \<times> dsi_val) list \<Rightarrow> istream \<Rightarrow>
       stream_error + ((dsi_val \<times> dsi_val) list \<times> istream)" where
  "read_val lt un (TInt sz) old s =
     (let (v, s) = read_T sz (case old of VInt _ n \<Rightarrow> n | _ \<Rightarrow> 0) s in Inr (VInt sz v, s))"
| "read_val lt un TBool old s = (let (x, s) = read_bool s in Inr (VBool x, s))"
| "read_val lt un TStr old s =
     (let (x, s) = read_string (case old of VStr x \<Rightarrow> x | _ \<Rightarrow> []) s in Inr (VStr x, s))"
| "read_val lt un TWStr old s =
     (let (x, s) = read_wstring (case old of VWStr x \<Rightarrow> x | _ \<Rightarrow> []) s in Inr (VWStr x, s))"
| "read_val lt un (TVec t) old s =
     (let (n, s) = read_T 4 0 s;
          newSize = as_int32 n;
          ws = (case old of VVec ws \<Rightarrow> ws | _ \<Rightarrow> [])
      in if newSize < 0 then Inl Length_error
         else case read_elems lt un t
                     (take (nat newSize) ws @
                      replicate (nat newSize - length ws) (default_val t)) s of
                Inl e \<Rightarrow> Inl e
              | Inr (vs, s) \<Rightarrow> Inr (VVec vs, s))"
| "read_val lt un (TMap tk tv) old s =
     (let (n, s) = read_T 4 0 s;
          m = (case old of VMap m \<Rightarrow> m | _ \<Rightarrow> [])
      in case read_pairs lt un tk tv (nat (as_int32 n)) (local_val un tk) (local_val un tv) m s of
           Inl e \<Rightarrow> Inl e
         | Inr (m, s) \<Rightarrow> Inr (VMap m, s))"
| "read_val lt un (TVar ts) old s =
     (let (n, s) = read_T 4 0 s
      in case variant_reset ts (as_int32 n) of
           None \<Rightarrow> Inr (VEmpty, s)
         | Some i \<Rightarrow>
             (case read_val lt un (ts ! i) (default_val (ts ! i)) s of
                Inl e \<Rightarrow> Inl e
              | Inr (v, s) \<Rightarrow> Inr (VVar (typeIdOf (ts ! i) ts) v, s)))"
| "read_elems lt un t [] s = Inr ([], s)"
| "read_elems lt un t (w # ws) s =
     (case read_val lt un t w s of
        Inl e \<Rightarrow> Inl e
      | Inr (v, s) \<Rightarrow>
          (case read_elems lt un t ws s of
             Inl e \<Rightarrow> Inl e
           | Inr (vs, s) \<Rightarrow> Inr (v # vs, s)))"
| "read_pairs lt un tk tv 0 key val m s = Inr (m, s)"
| "read_pairs lt un tk tv (Suc n) key val m s =
     (case read_val lt un tk key s of
        Inl e \<Rightarrow> Inl e
      | Inr (key, s) \<Rightarrow>
          (case read_val lt un tv val s of
             Inl e \<Rightarrow> Inl e
           | Inr (val, s) \<Rightarrow> read_pairs lt un tk tv n key val (map_assign lt key val m) s))"
  by pat_completeness auto
termination
proof (relation "measures
    [\<lambda>x. case x of Inl (lt, un, t, _) \<Rightarrow> size t
        | Inr (Inl (lt, un, t, _)) \<Rightarrow> size t
        | Inr (Inr (lt, un, tk, tv, _)) \<Rightarrow> size tk + size tv,
     \<lambda>x. case x of Inl _ \<Rightarrow> 0
        | Inr (Inl (lt, un, t, ws, _)) \<Rightarrow> Suc (length ws)
        | Inr (Inr (lt, un, tk, tv, n, _)) \<Rightarrow> Suc n]", goal_cases)
  case (4 lt un ts old s x n s' i)
  then have "ts ! i \<in> set ts" using variant_reset_bound by fastforce
  then show ?case by (auto dest: size_list_estimation' [where f = size])
qed auto

section \<open>Numbers and padding\<close>

lemma le_bytes_length [simp]: "length (le_bytes n v) = n"
  by (induction n arbitrary: v) auto

lemma of_le_bytes [simp]: "of_le (le_bytes n v) = v mod 256 ^ n"
proof (induction n arbitrary: v)
  case 0
  then show ?case by simp
next
  case (Suc n)
  have "v mod 256 ^ Suc n = 256 * (v div 256 mod 256 ^ n) + v mod 256"
    by (simp add: mod_mult2_eq)
  with Suc show ?case by simp
qed

lemma of_le_bound: "of_le bs < 256 ^ length bs"
proof (induction bs)
  case Nil
  then show ?case by simp
next
  case (Cons c bs)
  have "(of_char c :: nat) < 256" by (rule nat_of_char_less_256)
  then have "of_char c + 256 * m < 256 * q" if "m < q" for m q :: nat
    using that by linarith
  from this [OF Cons] show ?case by simp
qed

lemma padding_less: "0 < sz \<Longrightarrow> padding off sz < sz"
  using AND_upper2 [of "int sz - 1" "- int off"] by (simp add: padding_def nat_less_iff)

section \<open>Reading stays inside the data\<close>

definition in_bounds :: "istream \<Rightarrow> bool" where
  "in_bounds s \<longleftrightarrow> (is_error s = 0 \<longrightarrow> is_offset s \<le> is_size s)"

text \<open>What every read leaves alone, and that an error stays.\<close>

definition moves :: "istream \<Rightarrow> istream \<Rightarrow> bool" where
  "moves s s' \<longleftrightarrow>
     is_data s' = is_data s \<and> is_size s' = is_size s \<and> (in_bounds s \<longrightarrow> in_bounds s') \<and>
     (is_error s \<noteq> 0 \<longrightarrow> s' = s)"

lemma moves_refl [simp]: "moves s s"
  by (simp add: moves_def)

lemma moves_trans: "moves s s' \<Longrightarrow> moves s' s'' \<Longrightarrow> moves s s''"
  unfolding moves_def by metis

lemma read_T_moves: "read_T sz old s = (v, s') \<Longrightarrow> moves s s'"
  by (auto simp: read_T_def moves_def in_bounds_def Let_def ERANGE_def split: if_splits)

lemma read_bool_moves: "read_bool s = (v, s') \<Longrightarrow> moves s s'"
  using read_T_moves by (auto simp: read_bool_def split: prod.splits)

lemma string_bump_moves:
  assumes "is_error s = 0" "n \<le> is_size s - is_offset s"
  shows "moves s (s\<lparr> is_offset := is_offset s + n \<rparr>)"
  using assms by (auto simp: moves_def in_bounds_def)

lemma fail_moves: "is_error s = 0 \<Longrightarrow> moves s (s\<lparr> is_error := ERANGE \<rparr>)"
  by (auto simp: moves_def in_bounds_def ERANGE_def)

lemmas string_moves = string_bump_moves fail_moves

lemma read_string_moves: "read_string old s = (v, s') \<Longrightarrow> moves s s'"
  by (auto simp: read_string_def split: prod.splits if_splits
      dest!: read_T_moves intro: moves_trans string_moves)

lemma read_wstring_moves: "read_wstring old s = (v, s') \<Longrightarrow> moves s s'"
  by (auto simp: read_wstring_def split: prod.splits if_splits
      dest!: read_T_moves intro: moves_trans string_moves)

lemma read_moves:
  "read_val lt un t old s = Inr (v, s') \<Longrightarrow> moves s s'"
  "read_elems lt un t ws s = Inr (vs, s') \<Longrightarrow> moves s s'"
  "read_pairs lt un tk tv n key val m s = Inr (m', s') \<Longrightarrow> moves s s'"
proof (induction lt un t old s and lt un t ws s and lt un tk tv n key val m s
    arbitrary: v s' and vs s' and m' s' rule: read_val_read_elems_read_pairs.induct)
  case (5 lt un t old s)
  then show ?case
    by (auto simp: Let_def split: prod.splits if_splits sum.splits
        dest!: read_T_moves intro: moves_trans)
next
  case (6 lt un tk tv old s)
  then show ?case
    by (auto simp: Let_def split: prod.splits sum.splits dest!: read_T_moves intro: moves_trans)
next
  case (7 lt un ts old s)
  then show ?case
    by (auto simp: Let_def split: prod.splits sum.splits option.splits
        dest!: read_T_moves intro: moves_trans)
next
  case (9 lt un t w ws s)
  then show ?case
    by (auto split: prod.splits sum.splits intro: moves_trans)
next
  case (11 lt un tk tv n key val m s)
  then show ?case
    by (auto split: prod.splits sum.splits) (meson moves_trans)
qed (auto simp: Let_def split: prod.splits
    dest: read_T_moves read_bool_moves read_string_moves read_wstring_moves)

section \<open>Reading depends on nothing behind the end\<close>

definition cut :: "istream \<Rightarrow> istream" where
  "cut s = s\<lparr> is_data := take (is_size s) (is_data s) \<rparr>"

lemma cut_fields [simp]:
  "is_size (cut s) = is_size s" "is_offset (cut s) = is_offset s" "is_error (cut s) = is_error s"
  "is_data (cut s) = take (is_size s) (is_data s)"
  "(cut s)\<lparr> is_offset := n \<rparr> = cut (s\<lparr> is_offset := n \<rparr>)"
  "(cut s)\<lparr> is_error := e \<rparr> = cut (s\<lparr> is_error := e \<rparr>)"
  by (simp_all add: cut_def)

definition cut_result :: "'e + ('v \<times> istream) \<Rightarrow> 'e + ('v \<times> istream)" where
  "cut_result = map_sum id (apsnd cut)"

lemma cut_result_simps [simp]:
  "cut_result (Inl e) = Inl e" "cut_result (Inr (v, s)) = Inr (v, cut s)"
  by (simp_all add: cut_result_def)

lemma take_drop_cut: "n + k \<le> m \<Longrightarrow> take k (drop n (take m xs)) = take k (drop n xs)"
  by (simp add: drop_take min_def)

lemma read_T_cut: "read_T sz old (cut s) = apsnd cut (read_T sz old s)"
  by (simp add: read_T_def Let_def take_drop_cut)

lemma read_bool_cut: "read_bool (cut s) = apsnd cut (read_bool s)"
  by (simp add: read_bool_def read_T_cut split: prod.split)

lemma read_string_cut: "read_string old (cut s) = apsnd cut (read_string old s)"
  by (auto simp: read_string_def read_T_cut Let_def split: prod.split) (subst take_drop_cut; force)

lemma read_wstring_cut: "read_wstring old (cut s) = apsnd cut (read_wstring old s)"
  by (auto simp: read_wstring_def read_T_cut Let_def split: prod.split) (subst take_drop_cut; force)

lemma read_cut:
  "read_val lt un t old (cut s) = cut_result (read_val lt un t old s)"
  "read_elems lt un t ws (cut s) = cut_result (read_elems lt un t ws s)"
  "read_pairs lt un tk tv n key val m (cut s) = cut_result (read_pairs lt un tk tv n key val m s)"
proof (induction lt un t old s and lt un t ws s and lt un tk tv n key val m s
    rule: read_val_read_elems_read_pairs.induct)
qed (auto simp: Let_def read_T_cut read_bool_cut read_string_cut read_wstring_cut
      split: prod.splits sum.splits option.splits)

section \<open>Reading yields a value of the type\<close>

fun has_type :: "dsi_val \<Rightarrow> dsi_type \<Rightarrow> bool" where
  "has_type (VInt sz v) t \<longleftrightarrow> t = TInt sz \<and> v < 256 ^ sz"
| "has_type (VBool x) t \<longleftrightarrow> t = TBool"
| "has_type (VStr s) t \<longleftrightarrow> t = TStr"
| "has_type (VWStr s) t \<longleftrightarrow> t = TWStr"
| "has_type (VVec vs) t \<longleftrightarrow>
     (case t of TVec u \<Rightarrow> list_all (\<lambda>v. has_type v u) vs | _ \<Rightarrow> False)"
| "has_type (VMap ps) t \<longleftrightarrow>
     (case t of TMap k u \<Rightarrow> list_all (\<lambda>p. has_type (fst p) k \<and> has_type (snd p) u) ps
      | _ \<Rightarrow> False)"
| "has_type VEmpty t \<longleftrightarrow> (case t of TVar ts \<Rightarrow> True | _ \<Rightarrow> False)"
| "has_type (VVar i v) t \<longleftrightarrow>
     (case t of TVar ts \<Rightarrow> 0 < i \<and> i \<le> length ts \<and> has_type v (ts ! (i - 1)) | _ \<Rightarrow> False)"

lemma default_val_type [simp]: "has_type (default_val t) t"
  by (cases t) auto

lemma local_val_type [simp]: "has_type (local_val un t) t"
  by (cases t) (auto simp: local_val_def)

lemma of_le_take_bound: "of_le (take n bs) < 256 ^ n"
proof -
  have "(256::nat) ^ length (take n bs) \<le> 256 ^ n" by (intro power_increasing) auto
  with of_le_bound [of "take n bs"] show ?thesis by linarith
qed

lemma read_T_value: "read_T sz old s = (v, s') \<Longrightarrow> old < 256 ^ sz \<Longrightarrow> v < 256 ^ sz"
  by (auto simp: read_T_def Let_def of_le_take_bound split: if_splits)

lemma typeIdOf_nth:
  assumes "t \<in> set ts"
  shows "0 < typeIdOf t ts \<and> typeIdOf t ts \<le> length ts \<and> ts ! (typeIdOf t ts - 1) = t"
  using assms by (induction ts) (auto simp: nth_Cons split: nat.splits)

lemma map_assign_type:
  assumes "list_all (\<lambda>p. has_type (fst p) tk \<and> has_type (snd p) tv) m" "has_type k tk"
    "has_type v tv"
  shows "list_all (\<lambda>p. has_type (fst p) tk \<and> has_type (snd p) tv) (map_assign lt k v m)"
  using assms by (induction m) auto

lemma has_type_cases:
  "has_type v (TInt sz) \<Longrightarrow> \<exists>n. v = VInt sz n \<and> n < 256 ^ sz"
  "has_type v (TVec u) \<Longrightarrow> \<exists>vs. v = VVec vs \<and> list_all (\<lambda>v. has_type v u) vs"
  "has_type v (TMap k u) \<Longrightarrow>
     \<exists>ps. v = VMap ps \<and> list_all (\<lambda>p. has_type (fst p) k \<and> has_type (snd p) u) ps"
  by (cases v; auto)+

lemma read_types:
  "read_val lt un t old s = Inr (v, s') \<Longrightarrow> has_type old t \<Longrightarrow> has_type v t"
  "read_elems lt un t ws s = Inr (vs, s') \<Longrightarrow> list_all (\<lambda>w. has_type w t) ws \<Longrightarrow>
     list_all (\<lambda>w. has_type w t) vs"
  "read_pairs lt un tk tv n key val m s = Inr (m', s') \<Longrightarrow> has_type key tk \<Longrightarrow> has_type val tv \<Longrightarrow>
     list_all (\<lambda>p. has_type (fst p) tk \<and> has_type (snd p) tv) m \<Longrightarrow>
     list_all (\<lambda>p. has_type (fst p) tk \<and> has_type (snd p) tv) m'"
proof (induction lt un t old s and lt un t ws s and lt un tk tv n key val m s
    arbitrary: v s' and vs s' and m' s' rule: read_val_read_elems_read_pairs.induct)
  case (1 lt un sz old s)
  then show ?case
    by (auto simp: Let_def dest!: has_type_cases(1) split: prod.splits intro: read_T_value)
next
  case (5 lt un t old s)
  from 5(3) obtain ws where old: "old = VVec ws" "list_all (\<lambda>w. has_type w t) ws"
    using has_type_cases(2) by blast
  from 5(2) obtain n s1 vs where
    e: "read_T 4 0 s = (n, s1)" "\<not> as_int32 n < 0" "v = VVec vs"
      "read_elems lt un t (take (nat (as_int32 n)) ws @
        replicate (nat (as_int32 n) - length ws) (default_val t)) s1 = Inr (vs, s')"
    by (auto simp: Let_def old(1) split: prod.splits if_splits sum.splits)
  have "list_all (\<lambda>w. has_type w t) (take (nat (as_int32 n)) ws @
        replicate (nat (as_int32 n) - length ws) (default_val t))"
    using old(2) by (auto simp: list_all_iff dest: in_set_takeD)
  then show ?case using 5(1) e old(1) by (auto simp: Let_def)
next
  case (6 lt un tk tv old s)
  then show ?case
    by (auto simp: Let_def dest!: has_type_cases(3) split: prod.splits sum.splits)
next
  case (7 lt un ts old s)
  show ?case
  proof (cases "variant_reset ts (as_int32 (fst (read_T 4 0 s)))")
    case None
    then show ?thesis using 7 by (auto simp: Let_def split: prod.splits)
  next
    case (Some i)
    then have "ts ! i \<in> set ts" by (auto dest: variant_reset_bound)
    then show ?thesis
      using 7 Some typeIdOf_nth [of "ts ! i" ts]
      by (auto simp: Let_def split: prod.splits sum.splits)
  qed
next
  case (9 lt un t w ws s)
  then show ?case by (auto split: prod.splits sum.splits)
next
  case (11 lt un tk tv n key val m s)
  then show ?case by (auto split: prod.splits sum.splits simp: map_assign_type)
qed (auto simp: Let_def split: prod.splits)

section \<open>Writing stays inside the buffer\<close>

lemma content_length: "cb_wf b \<Longrightarrow> length (content b) = mSize b"
  by (simp add: content_def cb_wf_def)

lemma pbump_wf:
  assumes "cb_wf b" "mSize b + n \<le> mCapacity b"
  shows "cb_wf (pbump n b)" "\<exists>p. content (pbump n b) = content b @ p \<and> length p = n"
    "mSize (pbump n b) = mSize b + n" "mCapacity (pbump n b) = mCapacity b"
proof -
  have m: "cb_mem (pbump n b) = cb_mem b" by (simp add: cb_mem_def pbump_def split: cb_block.splits)
  show "cb_wf (pbump n b)" using assms m by (simp add: cb_wf_def) (simp add: pbump_def)
  have "content (pbump n b) = content b @ take n (drop (mSize b) (cb_mem b))"
    unfolding content_def m by (simp add: pbump_def take_add)
  then show "\<exists>p. content (pbump n b) = content b @ p \<and> length p = n"
    using assms by (simp add: cb_wf_def)
qed (simp_all add: pbump_def)

lemma put_ok:
  assumes "cb_wf b" "mSize b + length bs \<le> mCapacity b"
  shows "\<exists>b'. put bs b = Some (Inr b') \<and> cb_wf (pbump (length bs) b') \<and>
    content (pbump (length bs) b') = content b @ bs"
  using assms
  by (cases "mBuf b")
    (auto simp: put_def cb_wf_def pbump_def content_def cb_mem_def overwrite_def)

lemma room_ok:
  assumes "cb_wf b" "memory_ok pf (2 * (mSize b + n))"
  shows "\<exists>b'. (if n < avail b then Some (Inr b) else os_setCapacity pf (mSize b + n) b) =
      Some (Inr b') \<and> cb_wf b' \<and> content b' = content b \<and> mSize b' = mSize b \<and>
      mSize b + n \<le> mCapacity b'"
proof (cases "n < avail b")
  case True
  with assms(1) show ?thesis by (simp add: avail_def)
next
  case False
  then have "mCapacity b + n \<le> 2 * (mSize b + n)" by (simp add: avail_def)
  from setCapacity_ok [OF assms(1) memory_ok_mono [OF assms(2) this]] obtain b'
    where b': "setCapacity pf (mCapacity b + n) b = Some (True, b')" "cb_wf b'"
      "content b' = content b" "mSize b' = mSize b" "mCapacity b + n \<le> mCapacity b'" by blast
  have "mSize b \<le> mCapacity b" using assms(1) by (simp add: cb_wf_def)
  with b' False show ?thesis by (simp add: os_setCapacity_def sbrk_def)
qed

text \<open>Writing bytes appends them, after padding for a number.\<close>

lemma write_raw_ok:
  assumes "cb_wf b" "memory_ok pf (2 * (mSize b + length bs))"
  shows "\<exists>b'. write_raw pf bs b = Some (Inr b') \<and> cb_wf b' \<and> content b' = content b @ bs"
proof -
  from room_ok [OF assms] obtain b1
    where b1: "(if length bs < avail b then Some (Inr b)
        else os_setCapacity pf (mSize b + length bs) b) = Some (Inr b1)" "cb_wf b1"
      "content b1 = content b" "mSize b1 = mSize b" "mSize b + length bs \<le> mCapacity b1" by blast
  with put_ok [of b1 bs] show ?thesis unfolding write_raw_def b1(1) by auto
qed

lemma write_T_ok:
  assumes "cb_wf b" "memory_ok pf (2 * (mSize b + 2 * sz))" "0 < sz" "length bs = sz"
  shows "\<exists>b' p. write_T pf sz bs b = Some (Inr b') \<and> cb_wf b' \<and> content b' = content b @ p @ bs \<and>
    length p = padding (mSize b) sz"
proof -
  from room_ok [OF assms(1,2)] obtain b1
    where b1: "(if 2 * sz < avail b then Some (Inr b)
        else os_setCapacity pf (mSize b + 2 * sz) b) = Some (Inr b1)" "cb_wf b1"
      "content b1 = content b" "mSize b1 = mSize b" "mSize b + 2 * sz \<le> mCapacity b1" by blast
  let ?p = "padding (mSize b) sz"
  have "mSize b1 + ?p \<le> mCapacity b1" using b1(4,5) padding_less [OF assms(3), of "mSize b"] by simp
  from pbump_wf [OF b1(2) this] obtain p
    where p: "cb_wf (pbump ?p b1)" "content (pbump ?p b1) = content b @ p" "length p = ?p"
      "mSize (pbump ?p b1) = mSize b + ?p" "mCapacity (pbump ?p b1) = mCapacity b1"
    using b1(3,4) by auto
  have "mSize (pbump ?p b1) + length bs \<le> mCapacity (pbump ?p b1)"
    using p(4,5) b1(5) padding_less [OF assms(3), of "mSize b"] assms(4) by simp
  from put_ok [OF p(1) this] p b1(4) assms(4) show ?thesis
    unfolding write_T_def b1(1) by (auto simp: Let_def)
qed

section \<open>Reading back\<close>

text \<open>Where the contents of a variable matter: reading a map adds to what is there.\<close>

fun map_free :: "dsi_type \<Rightarrow> bool" where
  "map_free (TMap k v) = False"
| "map_free (TVec t) = map_free t"
| "map_free t = True"

definition old_ok :: "dsi_type \<Rightarrow> dsi_val \<Rightarrow> bool" where
  "old_ok t old \<longleftrightarrow> map_free t \<or> old = default_val t"

text \<open>
  The values that come back: lengths fit their fields, wide strings consist of code points, maps
  are in the order of their keys and nest no maps, and variants avoid the two type numbers the
  table of \<^verbatim>\<open>reset\<close> gets wrong.
\<close>

fun streamable :: "(dsi_val \<Rightarrow> dsi_val \<Rightarrow> bool) \<Rightarrow> dsi_val \<Rightarrow> dsi_type \<Rightarrow> bool" where
  "streamable lt (VInt sz v) t \<longleftrightarrow> t = TInt sz \<and> 0 < sz \<and> v < 256 ^ sz"
| "streamable lt (VBool x) t \<longleftrightarrow> t = TBool"
| "streamable lt (VStr s) t \<longleftrightarrow> t = TStr \<and> length s < 2 ^ 32"
| "streamable lt (VWStr s) t \<longleftrightarrow>
     t = TWStr \<and> list_all (\<lambda>w. 0 \<le> w \<and> w \<le> 0x10ffff) s \<and> length (toUTF8 s) + 1 < 2 ^ 32"
| "streamable lt (VVec vs) t \<longleftrightarrow>
     (case t of TVec u \<Rightarrow> length vs < 2 ^ 31 \<and> list_all (\<lambda>v. streamable lt v u) vs | _ \<Rightarrow> False)"
| "streamable lt (VMap ps) t \<longleftrightarrow>
     (case t of TMap k u \<Rightarrow>
          map_free k \<and> map_free u \<and> length ps < 2 ^ 31 \<and> sorted_wrt lt (map fst ps) \<and>
          list_all (\<lambda>p. streamable lt (fst p) k \<and> streamable lt (snd p) u) ps
      | _ \<Rightarrow> False)"
| "streamable lt VEmpty t \<longleftrightarrow> (case t of TVar ts \<Rightarrow> True | _ \<Rightarrow> False)"
| "streamable lt (VVar i v) t \<longleftrightarrow>
     (case t of TVar ts \<Rightarrow>
          0 < i \<and> i \<le> length ts \<and> length ts \<le> 15 \<and> i \<noteq> 9 \<and> i \<noteq> 10 \<and> distinct ts \<and>
          streamable lt v (ts ! (i - 1))
      | _ \<Rightarrow> False)"

text \<open>An upper bound of the bytes a value takes.\<close>

fun val_bound :: "dsi_val \<Rightarrow> nat" where
  "val_bound (VInt sz v) = 2 * sz"
| "val_bound (VBool x) = 8"
| "val_bound (VStr s) = 8 + length s"
| "val_bound (VWStr s) = 9 + length (toUTF8 s)"
| "val_bound (VVec vs) = 8 + sum_list (map val_bound vs)"
| "val_bound (VMap ps) = 8 + sum_list (map (\<lambda>p. val_bound (fst p) + val_bound (snd p)) ps)"
| "val_bound VEmpty = 8"
| "val_bound (VVar i v) = 8 + val_bound v"

text \<open>A stream over \<open>data\<close> at an offset.\<close>

definition at :: "char list \<Rightarrow> nat \<Rightarrow> istream" where
  "at data off = \<lparr> is_data = data, is_size = length data, is_offset = off, is_error = 0 \<rparr>"

lemma at_simps [simp]:
  "is_error (at d n) = 0" "is_data (at d n) = d" "is_size (at d n) = length d"
  "is_offset (at d n) = n" "(at d n)\<lparr> is_offset := m \<rparr> = at d m"
  by (simp_all add: at_def)

text \<open>
  The bytes from \<open>b\<close> to \<open>b'\<close>: what was appended, how much at most, and a reader \<open>rd\<close> that takes
  them from a stream that goes on behind them.
\<close>

definition appends :: "nat \<Rightarrow> cbuffer \<Rightarrow> cbuffer \<Rightarrow> bool" where
  "appends n b b' \<longleftrightarrow> cb_wf b' \<and> (\<exists>bs. content b' = content b @ bs \<and> length bs \<le> n)"

definition takes :: "(istream \<Rightarrow> 'e + ('v \<times> istream)) \<Rightarrow> 'v \<Rightarrow> cbuffer \<Rightarrow> cbuffer \<Rightarrow> bool" where
  "takes rd v b b' \<longleftrightarrow>
     (\<forall>rest. rd (at (content b' @ rest) (mSize b)) = Inr (v, at (content b' @ rest) (mSize b')))"

lemma appends_size: "cb_wf b \<Longrightarrow> appends n b b' \<Longrightarrow> mSize b' \<le> mSize b + n"
  using content_length [of b] content_length [of b'] by (auto simp: appends_def)

lemma appends_trans: "appends n b b1 \<Longrightarrow> appends m b1 b2 \<Longrightarrow> appends (n + m) b b2"
  by (auto simp: appends_def)

lemma appends_le: "appends n b b' \<Longrightarrow> n \<le> m \<Longrightarrow> appends m b b'"
  unfolding appends_def by (meson le_trans)

text \<open>A reader on the earlier part of the data is not disturbed by what follows.\<close>

lemma takes_later:
  assumes "takes rd v b b1" "appends n b1 b2"
  shows "rd (at (content b2 @ rest) (mSize b)) = Inr (v, at (content b2 @ rest) (mSize b1))"
proof -
  obtain bs where "content b2 = content b1 @ bs" using assms(2) by (auto simp: appends_def)
  then show ?thesis using assms(1) by (simp add: takes_def)
qed

lemma read_T_at:
  assumes "length p = padding off sz" "length bs = sz" "off = length c"
  shows "read_T sz old (at (c @ p @ bs @ rest) off) =
    (of_le bs, at (c @ p @ bs @ rest) (off + length p + sz))"
  using assms by (simp add: read_T_def Let_def)

lemma write_T_takes:
  assumes "cb_wf b" "memory_ok pf (2 * (mSize b + 2 * sz))" "0 < sz" "length bs = sz"
  shows "\<exists>b'. write_T pf sz bs b = Some (Inr b') \<and> appends (2 * sz) b b' \<and>
    (\<forall>old. takes (\<lambda>s. Inr (read_T sz old s)) (of_le bs) b b')"
proof -
  from write_T_ok [OF assms] obtain b' p
    where b': "write_T pf sz bs b = Some (Inr b')" "cb_wf b'" "content b' = content b @ p @ bs"
      "length p = padding (mSize b) sz" by blast
  have l: "length (content b) = mSize b" using content_length [OF assms(1)] .
  have "mSize b' = mSize b + length p + sz"
    using content_length [OF b'(2)] b'(3) l assms(4) by simp
  then have "takes (\<lambda>s. Inr (read_T sz old s)) (of_le bs) b b'" for old
    using read_T_at [OF b'(4) assms(4) l [symmetric]] b'(3) by (simp add: takes_def)
  moreover have "appends (2 * sz) b b'"
    using b' assms(4) padding_less [OF assms(3), of "mSize b"] by (simp add: appends_def)
  ultimately show ?thesis using b'(1) by blast
qed

lemma write_u32_takes:
  assumes "cb_wf b" "memory_ok pf (2 * (mSize b + 8))"
  shows "\<exists>b'. write_u32 pf n b = Some (Inr b') \<and> appends 8 b b' \<and>
    (\<forall>old. takes (\<lambda>s. Inr (read_T 4 old s)) (n mod 2 ^ 32) b b')"
  using write_T_takes [of b pf 4 "le_bytes 4 n"] assms by (simp add: write_u32_def)

lemma write_raw_takes:
  assumes "cb_wf b" "memory_ok pf (2 * (mSize b + length bs))"
  shows "\<exists>b'. write_raw pf bs b = Some (Inr b') \<and> appends (length bs) b b' \<and>
    content b' = content b @ bs \<and> mSize b' = mSize b + length bs"
  using write_raw_ok [OF assms] content_length [OF assms(1)] content_length
  by (fastforce simp: appends_def)

text \<open>A length in front of the bytes, as strings are written.\<close>

lemma write_counted:
  assumes "cb_wf b" "memory_ok pf (2 * (mSize b + (8 + length bs)))" "n < 2 ^ 32"
  shows "\<exists>b1 b'. write_u32 pf n b = Some (Inr b1) \<and> write_raw pf bs b1 = Some (Inr b') \<and>
    appends (8 + length bs) b b' \<and> mSize b' = mSize b1 + length bs \<and>
    (\<forall>rest old. read_T 4 old (at (content b' @ rest) (mSize b)) = (n, at (content b' @ rest) (mSize b1)) \<and>
      take (length bs) (drop (mSize b1) (content b' @ rest)) = bs)"
proof -
  obtain b1
    where b1: "write_u32 pf n b = Some (Inr b1)" "appends 8 b b1"
      "\<And>old. takes (\<lambda>s. Inr (read_T 4 old s)) n b b1"
    using assms(3) write_u32_takes [OF assms(1) memory_ok_mono [OF assms(2)], of n] by auto
  have wf1: "cb_wf b1" using b1(2) by (simp add: appends_def)
  have "mSize b1 + length bs \<le> mSize b + (8 + length bs)"
    using appends_size [OF assms(1) b1(2)] by simp
  then have "memory_ok pf (2 * (mSize b1 + length bs))"
    using memory_ok_mono [OF assms(2)] by simp
  from write_raw_takes [OF wf1 this] obtain b2
    where b2: "write_raw pf bs b1 = Some (Inr b2)" "appends (length bs) b1 b2"
      "content b2 = content b1 @ bs" "mSize b2 = mSize b1 + length bs" by blast
  have "read_T 4 old (at (content b2 @ rest) (mSize b)) = (n, at (content b2 @ rest) (mSize b1))"
    for rest old
    using takes_later [OF b1(3) b2(2)] by blast
  moreover have "take (length bs) (drop (mSize b1) (content b2 @ rest)) = bs" for rest
    using b2(3) content_length [OF wf1] by simp
  ultimately show ?thesis using b1 b2 appends_trans [OF b1(2) b2(2)] by blast
qed

lemma write_string_takes:
  assumes "cb_wf b" "memory_ok pf (2 * (mSize b + (8 + length s)))" "length s < 2 ^ 32"
  shows "\<exists>b'. write_string pf s b = Some (Inr b') \<and> appends (8 + length s) b b' \<and>
    (\<forall>old. takes (\<lambda>st. Inr (read_string old st)) s b b')"
proof (cases "s = []")
  case True
  from write_u32_takes [OF assms(1) memory_ok_mono [OF assms(2)], of 0] True show ?thesis
    by (auto simp: write_string_def takes_def read_string_def intro: appends_le)
next
  case False
  from write_counted [OF assms(1,2,3)] False show ?thesis
    by (fastforce simp: write_string_def takes_def read_string_def appends_def content_length)
qed

lemma write_wstring_takes:
  assumes "cb_wf b" "memory_ok pf (2 * (mSize b + (9 + length (toUTF8 s))))"
    "length (toUTF8 s) + 1 < 2 ^ 32" "list_all (\<lambda>w. 0 \<le> w \<and> w \<le> 0x10ffff) s"
  shows "\<exists>b'. write_wstring pf s b = Some (Inr b') \<and> appends (9 + length (toUTF8 s)) b b' \<and>
    (\<forall>old. takes (\<lambda>st. Inr (read_wstring old st)) s b b')"
proof (cases "s = []")
  case True
  from write_u32_takes [OF assms(1) memory_ok_mono [OF assms(2)], of 0] True show ?thesis
    by (auto simp: write_wstring_def takes_def read_wstring_def dest: appends_le [of 8 b _ "9 + length (toUTF8 [])"])
next
  case False
  let ?n = "length (toUTF8 s)"
  have "memory_ok pf (2 * (mSize b + (8 + length (toUTF8 s @ [NUL]))))"
    using assms(2) by (simp add: algebra_simps)
  from write_counted [OF assms(1) this assms(3)] obtain b1 b'
    where w: "write_u32 pf (?n + 1) b = Some (Inr b1)"
      "write_raw pf (toUTF8 s @ [NUL]) b1 = Some (Inr b')"
      "appends (9 + ?n) b b'" "mSize b' = mSize b1 + (?n + 1)"
      and r: "\<And>rest old. read_T 4 old (at (content b' @ rest) (mSize b)) =
          (?n + 1, at (content b' @ rest) (mSize b1))"
      "\<And>rest. take (?n + 1) (drop (mSize b1) (content b' @ rest)) = toUTF8 s @ [NUL]"
    by auto
  have "take ?n (drop (mSize b1) (content b' @ rest)) = toUTF8 s" for rest
  proof -
    have "take ?n (drop (mSize b1) (content b' @ rest)) =
        take ?n (take (?n + 1) (drop (mSize b1) (content b' @ rest)))" by (simp only: take_take) simp
    then show ?thesis unfolding r(2) by simp
  qed
  moreover have "fromUTF8 (toUTF8 s) = s"
    using assms(4) by (intro fromUTF8_toUTF8) (auto simp: list_all_iff)
  moreover have "length (content b') = mSize b'"
    using w(3) content_length by (auto simp: appends_def)
  ultimately have "takes (\<lambda>st. Inr (read_wstring old st)) s b b'" for old
    using r(1) w(4) by (simp add: takes_def read_wstring_def)
  then show ?thesis using w False by (auto simp: write_wstring_def Let_def)
qed

lemma as_int32_small: "n < 2 ^ 31 \<Longrightarrow> as_int32 (n mod 2 ^ 32) = int n"
  by (simp add: as_int32_def)

lemma map_assign_last:
  assumes "\<forall>x\<in>set m. lt (fst x) k"
  shows "map_assign lt k v m = m @ [(k, v)]"
  using assms by (induction m) auto

lemma variant_reset_inverts:
  assumes "0 < i" "i \<le> length ts" "length ts \<le> 15" "i \<noteq> 9" "i \<noteq> 10"
  shows "variant_reset ts (int i) = Some (i - 1)"
proof -
  have "i \<in> {1, 2, 3, 4, 5, 6, 7, 8, 11, 12, 13, 14, 15}"
    using assms by (simp only: insert_iff empty_iff) presburger
  then show ?thesis using assms(1,2) by (auto simp: variant_reset_def variant_table_def)
qed

lemma typeIdOf_distinct: "distinct ts \<Longrightarrow> i < length ts \<Longrightarrow> typeIdOf (ts ! i) ts = Suc i"
proof (induction ts arbitrary: i)
  case (Cons t ts)
  then show ?case by (cases i) auto
qed simp

text \<open>The three writers and their readers, by induction over the value.\<close>

lemma chain_memory:
  assumes "cb_wf b" "appends n b b1" "memory_ok pf (2 * (mSize b + (n + m)))"
  shows "cb_wf b1" "memory_ok pf (2 * (mSize b1 + m))"
  using assms appends_size [OF assms(1,2)] by (auto simp: appends_def intro: memory_ok_mono)

lemma old_ok_vec:
  assumes "old_ok (TVec u) old"
  shows "list_all (old_ok u) (take n (case old of VVec ws \<Rightarrow> ws | _ \<Rightarrow> []) @
    replicate (n - length (case old of VVec ws \<Rightarrow> ws | _ \<Rightarrow> [])) (default_val u))"
  using assms by (cases "map_free u") (auto simp: old_ok_def list_all_iff)

lemma counted_takes:
  assumes "cb_wf b" "memory_ok pf (2 * (mSize b + (8 + n)))" "k < 2 ^ 31"
    and rest: "\<And>b1. cb_wf b1 \<Longrightarrow> memory_ok pf (2 * (mSize b1 + n)) \<Longrightarrow>
      \<exists>b'. w b1 = Some (Inr b') \<and> appends n b1 b' \<and> (\<forall>x. P x \<longrightarrow> takes (rd x) v b1 b')"
  shows "\<exists>b'. obind (write_u32 pf k b) w = Some (Inr b') \<and> appends (8 + n) b b' \<and>
    (\<forall>r. as_int32 (fst (read_T 4 0 (at (content b' @ r) (mSize b)))) = int k) \<and>
    (\<forall>x. P x \<longrightarrow> takes (\<lambda>s. rd x (snd (read_T 4 0 s))) v b b')"
proof -
  obtain b1 where b1: "write_u32 pf k b = Some (Inr b1)" "appends 8 b b1"
    "\<And>old. takes (\<lambda>s. Inr (read_T 4 old s)) (k mod 2 ^ 32) b b1"
    using write_u32_takes [OF assms(1) memory_ok_mono [OF assms(2)], of k] by auto
  obtain b2 where b2: "w b1 = Some (Inr b2)" "appends n b1 b2"
    "\<And>x. P x \<Longrightarrow> takes (rd x) v b1 b2"
    using rest [OF chain_memory [OF assms(1) b1(2) assms(2)]] by blast
  have "read_T 4 0 (at (content b2 @ r) (mSize b)) =
      (k mod 2 ^ 32, at (content b2 @ r) (mSize b1))" for r
    using takes_later [OF b1(3) b2(2)] by blast
  then show ?thesis
    using b1(1) b2 appends_trans [OF b1(2) b2(2)] as_int32_small [OF assms(3)]
    by (auto simp: takes_def)
qed

lemma write_read:
  "cb_wf b \<Longrightarrow> memory_ok pf (2 * (mSize b + val_bound v)) \<Longrightarrow> streamable lt v t \<Longrightarrow>
    \<exists>b'. write_val pf v b = Some (Inr b') \<and> appends (val_bound v) b b' \<and>
      (\<forall>old. old_ok t old \<longrightarrow> takes (read_val lt un t old) v b b')"
  "cb_wf b \<Longrightarrow> memory_ok pf (2 * (mSize b + sum_list (map val_bound vs))) \<Longrightarrow>
    list_all (\<lambda>v. streamable lt v t) vs \<Longrightarrow>
    \<exists>b'. write_vals pf vs b = Some (Inr b') \<and> appends (sum_list (map val_bound vs)) b b' \<and>
      (\<forall>ws. length ws = length vs \<longrightarrow> list_all (old_ok t) ws \<longrightarrow>
        takes (read_elems lt un t ws) vs b b')"
  "cb_wf b \<Longrightarrow>
    memory_ok pf (2 * (mSize b + sum_list (map (\<lambda>p. val_bound (fst p) + val_bound (snd p)) ps))) \<Longrightarrow>
    list_all (\<lambda>p. streamable lt (fst p) t \<and> streamable lt (snd p) u) ps \<Longrightarrow>
    map_free t \<Longrightarrow> map_free u \<Longrightarrow>
    \<exists>b'. write_pairs pf ps b = Some (Inr b') \<and>
      appends (sum_list (map (\<lambda>p. val_bound (fst p) + val_bound (snd p)) ps)) b b' \<and>
      (\<forall>m key val. sorted_wrt lt (map fst (m @ ps)) \<longrightarrow>
        takes (read_pairs lt un t u (length ps) key val m) (m @ ps) b b')"
proof (induction pf v b and pf vs b and pf ps b arbitrary: t and t and t u
    rule: write_val_write_vals_write_pairs.induct)
  case (1 pf sz v b)
  then show ?case
    using write_T_takes [of b pf sz "le_bytes sz v"] by (auto simp: takes_def)
next
  case (2 pf x b)
  then show ?case
    using write_T_takes [of b pf 4 "le_bytes 4 (if x then 1 else 0)"]
    by (auto simp: takes_def write_bool_def read_bool_def)
next
  case (3 pf s b)
  then show ?case
    using write_string_takes [of b pf s] by (auto simp: takes_def)
next
  case (4 pf s b)
  then show ?case
    using write_wstring_takes [of b pf s] by (auto simp: takes_def)
next
  case (5 pf vs b)
  then obtain u where u: "t = TVec u" "length vs < 2 ^ 31" "list_all (\<lambda>v. streamable lt v u) vs"
    by (auto split: dsi_type.splits)
  have "length (take (length vs) (case old of VVec ws \<Rightarrow> ws | _ \<Rightarrow> []) @
    replicate (length vs - length (case old of VVec ws \<Rightarrow> ws | _ \<Rightarrow> [])) (default_val u)) = length vs"
    for old by simp
  with counted_takes [OF 5(2) _ u(2), where w = "write_vals pf vs" and rd = "read_elems lt un u"
      and P = "\<lambda>ws. length ws = length vs \<and> list_all (old_ok u) ws" and v = vs
      and n = "sum_list (map val_bound vs)"] 5(1) [OF _ _ u(3)] 5(3) show ?case
    using old_ok_vec [of u _ "length vs"]
    by (fastforce simp: takes_def u(1) Let_def case_prod_beta)
next
  case (6 pf ps b)
  then obtain k u where u: "t = TMap k u" "length ps < 2 ^ 31" "map_free k" "map_free u"
    "sorted_wrt lt (map fst ps)"
    "list_all (\<lambda>p. streamable lt (fst p) k \<and> streamable lt (snd p) u) ps"
    by (auto split: dsi_type.splits)
  have old: "old_ok t old \<Longrightarrow> old = VMap []" for old by (simp add: old_ok_def u(1))
  have "\<exists>b'. write_pairs pf ps b1 = Some (Inr b') \<and>
      appends (sum_list (map (\<lambda>p. val_bound (fst p) + val_bound (snd p)) ps)) b1 b' \<and>
      (\<forall>x. True \<longrightarrow> takes (read_pairs lt un k u (length ps) (fst x) (snd x) []) ps b1 b')"
    if "cb_wf b1" "memory_ok pf (2 * (mSize b1 +
      sum_list (map (\<lambda>p. val_bound (fst p) + val_bound (snd p)) ps)))" for b1
    using 6(1) [OF that u(6,3,4)] u(5) by (metis append_Nil)
  from counted_takes [OF 6(2) _ u(2) this] 6(3) old show ?case
    by (fastforce simp: takes_def u(1) Let_def case_prod_beta)
next
  case (7 pf b)
  then show ?case
    using write_u32_takes [of b pf 0]
    by (auto simp: takes_def as_int32_def variant_reset_def split: dsi_type.splits)
next
  case (8 pf i v b)
  then obtain ts where ts: "t = TVar ts" "0 < i" "i \<le> length ts" "length ts \<le> 15" "i \<noteq> 9" "i \<noteq> 10"
    "distinct ts" "streamable lt v (ts ! (i - 1))"
    by (auto split: dsi_type.splits)
  have "i < 2 ^ 31" using ts(3,4) by simp
  moreover have "typeIdOf (ts ! (i - 1)) ts = i"
    using typeIdOf_distinct [OF ts(7), of "i - 1"] ts(2,3) by simp
  ultimately show ?case
    using counted_takes [OF 8(2) _ _ 8(1) [OF _ _ ts(8)]] 8(3) variant_reset_inverts [OF ts(2-6)]
    by (fastforce simp: takes_def ts(1) Let_def case_prod_beta old_ok_def)
next
  case (9 pf b)
  then show ?case by (auto simp: takes_def appends_def)
next
  case (10 pf v vs b)
  let ?n = "sum_list (map val_bound vs)"
  have mem: "memory_ok pf (2 * (mSize b + (val_bound v + ?n)))" using 10(4) by simp
  obtain b1 where b1: "write_val pf v b = Some (Inr b1)" "appends (val_bound v) b b1"
    "\<And>old. old_ok t old \<Longrightarrow> takes (read_val lt un t old) v b b1"
    using 10(1) [OF 10(3) memory_ok_mono [OF mem]] 10(5) by auto
  obtain b2 where b2: "write_vals pf vs b1 = Some (Inr b2)" "appends ?n b1 b2"
    "\<And>ws. length ws = length vs \<Longrightarrow> list_all (old_ok t) ws \<Longrightarrow> takes (read_elems lt un t ws) vs b1 b2"
    using 10(2) [OF chain_memory [OF 10(3) b1(2) mem]] 10(5) by auto
  have "takes (read_elems lt un t ws) (v # vs) b b2"
    if "length ws = length (v # vs)" "list_all (old_ok t) ws" for ws
    using that takes_later [OF b1(3) b2(2)] b2(3) by (cases ws) (auto simp: takes_def)
  then show ?case using b1(1) b2(1) appends_trans [OF b1(2) b2(2)] by simp
next
  case (11 pf b)
  then show ?case by (auto simp: takes_def appends_def)
next
  case (12 pf k v ps b)
  let ?n = "sum_list (map (\<lambda>p. val_bound (fst p) + val_bound (snd p)) ps)"
  have mem: "memory_ok pf (2 * (mSize b + (val_bound k + (val_bound v + ?n))))"
    using 12(5) by (simp add: add.assoc)
  obtain b1 where b1: "write_val pf k b = Some (Inr b1)" "appends (val_bound k) b b1"
    "\<And>old. takes (read_val lt un t old) k b b1"
    using 12(1) [OF 12(4) memory_ok_mono [OF mem], of t] 12(6,7) by (auto simp: old_ok_def)
  note m1 = chain_memory [OF 12(4) b1(2) mem]
  obtain b2 where b2: "write_val pf v b1 = Some (Inr b2)" "appends (val_bound v) b1 b2"
    "\<And>old. takes (read_val lt un u old) v b1 b2"
    using 12(2) [OF m1(1) memory_ok_mono [OF m1(2)], of u] 12(6,8) by (auto simp: old_ok_def)
  obtain b3 where b3: "write_pairs pf ps b2 = Some (Inr b3)" "appends ?n b2 b3"
    "\<And>m key val. sorted_wrt lt (map fst (m @ ps)) \<Longrightarrow>
      takes (read_pairs lt un t u (length ps) key val m) (m @ ps) b2 b3"
    using 12(3) [OF chain_memory [OF m1(1) b2(2) m1(2)], of t u] 12(6,7,8) by auto
  have "takes (read_pairs lt un t u (length ((k, v) # ps)) key val m) (m @ (k, v) # ps) b b3"
    if s: "sorted_wrt lt (map fst (m @ (k, v) # ps))" for m key val
  proof -
    have "map_assign lt k v m = m @ [(k, v)]"
      using s by (intro map_assign_last) (auto simp: sorted_wrt_append)
    moreover have "takes (read_pairs lt un t u (length ps) k v (m @ [(k, v)])) (m @ (k, v) # ps) b2 b3"
      using b3(3) [of "m @ [(k, v)]"] s by simp
    ultimately show ?thesis
      using takes_later [OF b1(3) appends_trans [OF b2(2) b3(2)]] takes_later [OF b2(3) b3(2)]
      by (auto simp: takes_def)
  qed
  then show ?case
    using b1(1) b2(1) b3(1) appends_trans [OF b1(2) appends_trans [OF b2(2) b3(2)]]
    by (simp add: add.assoc del: read_pairs.simps)
qed

section \<open>Messages\<close>

text \<open>The arguments of a request, read one after the other into fresh variables.\<close>

fun read_args ::
  "(dsi_val \<Rightarrow> dsi_val \<Rightarrow> bool) \<Rightarrow> (nat \<Rightarrow> nat) \<Rightarrow> dsi_type list \<Rightarrow> istream \<Rightarrow>
     stream_error + (dsi_val list \<times> istream)" where
  "read_args lt un [] s = Inr ([], s)"
| "read_args lt un (t # ts) s =
     (case read_val lt un t (default_val t) s of
        Inl e \<Rightarrow> Inl e
      | Inr (v, s) \<Rightarrow>
          (case read_args lt un ts s of Inl e \<Rightarrow> Inl e | Inr (vs, s) \<Rightarrow> Inr (v # vs, s)))"

text \<open>Reading all arguments: from the bytes inside the size only, into values of the types.\<close>

lemma read_args_cut: "read_args lt un ts (cut s) = cut_result (read_args lt un ts s)"
  by (induction ts arbitrary: s) (auto simp: read_cut split: sum.split prod.split)

lemma read_args_only:
  "map_sum id fst (read_args lt un ts (CIStream (data @ behind) (length data))) =
   map_sum id fst (read_args lt un ts (CIStream data (length data)))"
proof -
  have "map_sum id fst (cut_result r) = map_sum id fst r" for r :: "stream_error + dsi_val list \<times> istream"
    by (cases r) auto
  moreover have "cut (CIStream (data @ behind) (length data)) = CIStream data (length data)"
    by (simp add: cut_def CIStream_def)
  ultimately show ?thesis
    using read_args_cut [of lt un ts "CIStream (data @ behind) (length data)"] by metis
qed

lemma read_errors:
  "read_val lt un t old s = Inl e \<Longrightarrow> e = Length_error"
  "read_elems lt un t ws s = Inl e \<Longrightarrow> e = Length_error"
  "read_pairs lt un tk tv n key val m s = Inl e \<Longrightarrow> e = Length_error"
  by (induction lt un t old s and lt un t ws s and lt un tk tv n key val m s
      rule: read_val_read_elems_read_pairs.induct)
    (auto simp: Let_def split: prod.splits sum.splits option.splits if_splits)

lemma read_args_typed:
  "in_bounds s \<Longrightarrow> (case read_args lt un ts s of
      Inr (vs, s') \<Rightarrow> list_all2 has_type vs ts \<and> in_bounds s' | Inl e \<Rightarrow> e = Length_error)"
proof (induction ts arbitrary: s)
  case (Cons t ts)
  show ?case
  proof (cases "read_val lt un t (default_val t) s")
    case (Inr r)
    obtain v s1 where r: "r = (v, s1)" by fastforce
    have "in_bounds s1" using read_moves(1) [OF Inr [unfolded r]] Cons.prems by (simp add: moves_def)
    from Cons.IH [OF this] read_types(1) [OF Inr [unfolded r]] Inr r show ?thesis
      by (auto split: sum.splits prod.splits)
  qed (simp add: read_errors)
qed simp

lemma old_ok_default [simp]: "old_ok t (default_val t)"
  by (simp add: old_ok_def)

lemma write_args_takes:
  assumes "cb_wf b" "memory_ok pf (2 * (mSize b + sum_list (map val_bound vs)))"
    "list_all2 (streamable lt) vs ts"
  shows "\<exists>b'. write_vals pf vs b = Some (Inr b') \<and> appends (sum_list (map val_bound vs)) b b' \<and>
    takes (read_args lt un ts) vs b b'"
  using assms
proof (induction vs arbitrary: b ts)
  case Nil
  then show ?case by (auto simp: takes_def appends_def)
next
  case (Cons v vs)
  then obtain t ts' where ts: "ts = t # ts'" "streamable lt v t" "list_all2 (streamable lt) vs ts'"
    by (auto simp: list_all2_Cons1)
  have mem: "memory_ok pf (2 * (mSize b + (val_bound v + sum_list (map val_bound vs))))"
    using Cons.prems(2) by simp
  obtain b1 where b1: "write_val pf v b = Some (Inr b1)" "appends (val_bound v) b b1"
    "takes (read_val lt un t (default_val t)) v b b1"
    using write_read(1) [OF Cons.prems(1) memory_ok_mono [OF mem] ts(2), of un] by auto
  obtain b2 where b2: "write_vals pf vs b1 = Some (Inr b2)"
    "appends (sum_list (map val_bound vs)) b1 b2" "takes (read_args lt un ts') vs b1 b2"
    using Cons.IH [OF chain_memory [OF Cons.prems(1) b1(2) mem] ts(3)] by blast
  show ?case
    using b1(1) b2 appends_trans [OF b1(2) b2(2)] takes_later [OF b1(3) b2(2)]
    by (simp add: ts(1) takes_def)
qed

lemma message_returns:
  assumes "memory_ok pf (2 * sum_list (map val_bound vs))" "list_all2 (streamable lt) vs ts"
  shows "\<exists>b. write_vals pf vs (CBuffer pf f) = Some (Inr b) \<and> cb_wf b \<and>
    mSize b \<le> sum_list (map val_bound vs) \<and>
    (\<forall>rest. read_args lt un ts (CIStream (content b @ rest) (length (content b @ rest))) =
      Inr (vs, at (content b @ rest) (mSize b)))"
proof -
  have m: "mSize (CBuffer pf f) = 0" by (simp add: CBuffer_def)
  have "memory_ok pf (2 * (mSize (CBuffer pf f) + sum_list (map val_bound vs)))"
    using assms(1) by (simp add: m)
  from write_args_takes [OF CBuffer_wf(1) this assms(2), of un] show ?thesis
    using appends_size [OF CBuffer_wf(1)]
    by (fastforce simp: takes_def appends_def m CIStream_def at_def)
qed

section \<open>Where reading goes wrong\<close>

text \<open>The table of \<^verbatim>\<open>reset\<close> gives type number 9 the eighth and number 10 the ninth type.\<close>

lemma variant_table_shift:
  assumes "10 \<le> length ts"
  shows "variant_reset ts 9 = Some 7" "variant_reset ts 10 = Some 8"
  using assms by (simp_all add: variant_reset_def variant_table_def)

text \<open>
  The variable a map value is read into is not reset between the entries: where the value is a map
  itself, the entries of one value are left in the next. Read are the bytes of
  \<^verbatim>\<open>{1: {1: 1}, 2: {2: 2}}\<close>.
\<close>

definition nested_map_bytes :: "char list" where
  "nested_map_bytes =
     map char_of [2, 0, 0, 0, 1, 0, 0, 0, 1, 0, 0, 0, 1, 0, 0, 0, 1, 0, 0, 0 :: nat,
                  2, 0, 0, 0, 1, 0, 0, 0, 2, 0, 0, 0, 2, 0, 0, 0]"

definition int_less :: "dsi_val \<Rightarrow> dsi_val \<Rightarrow> bool" where
  "int_less a b = (case (a, b) of (VInt _ x, VInt _ y) \<Rightarrow> x < y | _ \<Rightarrow> False)"

lemma padding_4: "padding off 4 = nat ((- int off) mod 4)"
  using take_bit_eq_mask [of 2 "- int off"]
  by (simp add: padding_def mask_eq_exp_minus_1 take_bit_eq_mod)

lemma counts: "nat (as_int32 2) = Suc (Suc 0)" "nat (as_int32 (Suc 0)) = Suc 0"
  by (simp_all add: as_int32_def)

lemma nested_map_accumulates:
  "map_sum id fst (read_val int_less id (TMap (TInt 4) (TMap (TInt 4) (TInt 4))) (VMap [])
     (CIStream nested_map_bytes 36)) =
   Inr (VMap [(VInt 4 1, VMap [(VInt 4 1, VInt 4 1)]),
              (VInt 4 2, VMap [(VInt 4 1, VInt 4 1), (VInt 4 2, VInt 4 2)])])"
  unfolding nested_map_bytes_def
  by (simp add: read_T_def padding_4 CIStream_def counts int_less_def local_val_def)

text \<open>A failed read can leave the offset behind the end, where \<^verbatim>\<open>glen\<close> wraps around.\<close>

lemma glen_after_error:
  "glen 32 (snd (read_T 4 0 ((CIStream ''ab'' 2)\<lparr> is_offset := 1 \<rparr>))) = 2 ^ 32 - 2"
  by (simp add: glen_def read_T_def padding_4 CIStream_def ERANGE_def)

end
