(* ===== verification/Request_Packets.thy ===== *)
theory Request_Packets
  imports Streams
begin

text \<open>
  Sending a request in packets and putting the packets together again: \<^verbatim>\<open>CRequestWriter::flush\<close>
  (\<^verbatim>\<open>src/base/CRequestWriter.cpp\<close>), \<^verbatim>\<open>CRequestReader::receiveAll\<close> (\<^verbatim>\<open>src/base/CRequestReader.cpp\<close>)
  and the \<^verbatim>\<open>MessageHeader\<close> on the wire (\<^verbatim>\<open>include/dsi/DSI.hpp\<close>, \<^verbatim>\<open>src/base/DSI.cpp\<close>). The channel is
  a parameter of the writer; the reader takes its bytes from what has arrived, and to run out of
  them is to fail. Tracing has no effect on the data and is left out.
\<close>

section \<open>The message header\<close>

record message_header =
  h_type :: u32
  h_protoMajor :: u16
  h_protoMinor :: u16
  h_serverID :: u64
  h_clientID :: u64
  h_cmd :: u32
  h_flags :: u32
  h_packetLength :: u32
  h_reserved :: u32

datatype dsi_command =
  Cmd_Invalid | DataRequest | DataResponse | ConnectRequest | DisconnectRequest | ConnectResponse

fun dsi_command_code :: "dsi_command \<Rightarrow> u32" where
  "dsi_command_code Cmd_Invalid = 0"
| "dsi_command_code DataRequest = 7"
| "dsi_command_code DataResponse = 8"
| "dsi_command_code ConnectRequest = 9"
| "dsi_command_code DisconnectRequest = 10"
| "dsi_command_code ConnectResponse = 11"

definition DSI_MESSAGE_MAGIC :: u32 where
  "DSI_MESSAGE_MAGIC = 0x200"

definition DSI_MORE_DATA_FLAG :: u32 where
  "DSI_MORE_DATA_FLAG = 1"

definition DSI_PROTOCOL_VERSION_MAJOR :: u16 where
  "DSI_PROTOCOL_VERSION_MAJOR = 4"

definition MessageHeader :: "u64 \<Rightarrow> u64 \<Rightarrow> dsi_command \<Rightarrow> u16 \<Rightarrow> u32 \<Rightarrow> message_header" where
  "MessageHeader serverID clientID cmd protoMinor packetLength =
     \<lparr> h_type = DSI_MESSAGE_MAGIC, h_protoMajor = DSI_PROTOCOL_VERSION_MAJOR,
       h_protoMinor = protoMinor, h_serverID = serverID, h_clientID = clientID,
       h_cmd = dsi_command_code cmd, h_flags = 0, h_packetLength = packetLength,
       h_reserved = 0 \<rparr>"

text \<open>The bytes of the structure, and the structure its bytes are.\<close>

definition header_bytes :: "message_header \<Rightarrow> char list" where
  "header_bytes h =
     le_bytes 4 (unat (h_type h)) @ le_bytes 2 (unat (h_protoMajor h)) @
     le_bytes 2 (unat (h_protoMinor h)) @ le_bytes 8 (unat (h_serverID h)) @
     le_bytes 8 (unat (h_clientID h)) @ le_bytes 4 (unat (h_cmd h)) @
     le_bytes 4 (unat (h_flags h)) @ le_bytes 4 (unat (h_packetLength h)) @
     le_bytes 4 (unat (h_reserved h))"

definition field :: "nat \<Rightarrow> nat \<Rightarrow> char list \<Rightarrow> nat" where
  "field off n bs = of_le (take n (drop off bs))"

definition header_of :: "char list \<Rightarrow> message_header" where
  "header_of bs =
     \<lparr> h_type = of_nat (field 0 4 bs), h_protoMajor = of_nat (field 4 2 bs),
       h_protoMinor = of_nat (field 6 2 bs), h_serverID = of_nat (field 8 8 bs),
       h_clientID = of_nat (field 16 8 bs), h_cmd = of_nat (field 24 4 bs),
       h_flags = of_nat (field 28 4 bs), h_packetLength = of_nat (field 32 4 bs),
       h_reserved = of_nat (field 36 4 bs) \<rparr>"

section \<open>The writer\<close>

record request_writer =
  w_header :: message_header
  w_info :: "char list"
  w_buf :: cbuffer

definition haveEventInfo :: "message_header \<Rightarrow> bool" where
  "haveEventInfo h \<longleftrightarrow>
     h_cmd h = dsi_command_code DataRequest \<or> h_cmd h = dsi_command_code DataResponse"

text \<open>The bytes at the buffer's base pointer plus an offset, past the end of the block too.\<close>

definition memory_at :: "platform \<Rightarrow> cbuffer \<Rightarrow> nat \<Rightarrow> nat \<Rightarrow> char list" where
  "memory_at pf b off n =
     map (\<lambda>i. if i < length (cb_mem b) then cb_mem b ! i else junk pf i) [off..<off + n]"

text \<open>The length and the flag of a packet with \<open>n\<close> bytes still to go.\<close>

definition packet_header :: "nat \<Rightarrow> message_header \<Rightarrow> message_header" where
  "packet_header n h =
     (if n > DSI_PAYLOAD_SIZE
      then h\<lparr> h_packetLength := of_nat DSI_PAYLOAD_SIZE,
              h_flags := h_flags h OR DSI_MORE_DATA_FLAG \<rparr>
      else h\<lparr> h_packetLength := of_nat n,
              h_flags := h_flags h AND NOT DSI_MORE_DATA_FLAG \<rparr>)"

text \<open>The loop over the remaining data; \<open>sendAll\<close> is the channel.\<close>

function flush_loop ::
  "platform \<Rightarrow> ('c \<Rightarrow> char list \<Rightarrow> bool \<times> 'c) \<Rightarrow> cbuffer \<Rightarrow> nat \<Rightarrow> nat \<Rightarrow> message_header \<Rightarrow> bool \<Rightarrow> 'c \<Rightarrow>
     bool \<times> 'c" where
  "flush_loop pf sendAll b totalLength dataSent h ret c =
     (if ret \<and> dataSent < totalLength then
        let h = packet_header (totalLength - dataSent) h;
            (ret, c) = sendAll c
              (header_bytes h @ memory_at pf b dataSent (unat (h_packetLength h)))
        in flush_loop pf sendAll b totalLength (dataSent + DSI_PAYLOAD_SIZE) h ret c
      else (ret, c))"
  by pat_completeness auto
termination
  by (relation "measure (\<lambda>(pf, sendAll, b, tot, sent, h, ret, c). tot - sent)")
    (auto simp: payload_size)

declare flush_loop.simps [simp del]

text \<open>
  \<open>Inl ()\<close> is the failed assertion of a second flush. The header's type is cleared before the
  header is sent.
\<close>

definition flush ::
  "platform \<Rightarrow> ('c \<Rightarrow> char list \<Rightarrow> bool \<times> 'c) \<Rightarrow> request_writer \<Rightarrow> 'c \<Rightarrow>
     unit + (bool \<times> request_writer \<times> 'c)" where
  "flush pf sendAll w c =
     (if h_type (w_header w) = 0 then Inl ()
      else
        let h = (w_header w)\<lparr> h_type := 0 \<rparr>;
            totalLength = mSize (w_buf w) + (if haveEventInfo h then sizeof_EventInfo else 0);
            h = packet_header totalLength h;
            info = (if haveEventInfo h then w_info w else []);
            len = unat (h_packetLength h) - (if haveEventInfo h then sizeof_EventInfo else 0);
            (ret, c) = sendAll c (header_bytes h @ info @ memory_at pf (w_buf w) 0 len);
            (ret, c) =
              (if totalLength > DSI_PAYLOAD_SIZE
               then flush_loop pf sendAll (w_buf w) totalLength
                      (DSI_PAYLOAD_SIZE - sizeof_EventInfo) h ret c
               else (ret, c))
        in Inr (ret, w\<lparr> w_header := h \<rparr>, c))"

section \<open>The reader\<close>

definition recvAll :: "nat \<Rightarrow> char list \<Rightarrow> (char list \<times> char list) option" where
  "recvAll n wire = (if n \<le> length wire then Some (take n wire, drop n wire) else None)"

text \<open>Making room for a packet and receiving it at the put pointer.\<close>

definition receive_packet ::
  "platform \<Rightarrow> message_header \<Rightarrow> cbuffer \<Rightarrow> char list \<Rightarrow>
     (stream_error, bool \<times> cbuffer \<times> char list) outcome" where
  "receive_packet pf h b wire =
     (let n = unat (h_packetLength h) in
      case setCapacity pf (mSize b + n) b of
        None \<Rightarrow> None
      | Some (False, b) \<Rightarrow> Some (Inr (False, b, wire))
      | Some (True, b) \<Rightarrow>
          (case recvAll n wire of
             None \<Rightarrow> Some (Inr (False, b, wire))
           | Some (bs, wire) \<Rightarrow> obind (put bs b) (\<lambda>b. Some (Inr (True, pbump n b, wire)))))"

lemma recvAll_length: "recvAll n wire = Some (bs, wire') \<Longrightarrow> length wire' = length wire - n \<and> n \<le> length wire"
  by (auto simp: recvAll_def split: if_splits)

lemma receive_packet_length:
  "receive_packet pf h b wire = Some (Inr (ok, b', wire')) \<Longrightarrow> length wire' \<le> length wire"
  by (auto simp: receive_packet_def Let_def put_def split: option.splits prod.splits bool.splits
      if_splits dest: recvAll_length)

text \<open>
  The loop over the further packets. A packet without data does not become the current one, so
  the flag of the last packet with data decides whether the loop goes on.
\<close>

function receive_loop ::
  "platform \<Rightarrow> message_header \<Rightarrow> cbuffer \<Rightarrow> char list \<Rightarrow>
     (stream_error, bool \<times> cbuffer \<times> char list) outcome" where
  "receive_loop pf cur b wire =
     (if h_flags cur AND DSI_MORE_DATA_FLAG \<noteq> 0 then
        case recvAll sizeof_MessageHeader wire of
          None \<Rightarrow> Some (Inr (False, b, wire))
        | Some (hb, wire') \<Rightarrow>
            (if h_packetLength (header_of hb) > 0 then
               case receive_packet pf (header_of hb) b wire' of
                 None \<Rightarrow> None
               | Some (Inl e) \<Rightarrow> Some (Inl e)
               | Some (Inr (ok, b', wire'')) \<Rightarrow>
                   (if ok then receive_loop pf (header_of hb) b' wire''
                    else Some (Inr (False, b', wire'')))
             else receive_loop pf cur b wire')
      else Some (Inr (True, b, wire)))"
  by pat_completeness auto
termination
  by (relation "measure (\<lambda>(pf, cur, b, wire). length wire)")
    (auto simp: sizeof_MessageHeader_def dest!: recvAll_length receive_packet_length)

declare receive_loop.simps [simp del]

definition receiveAll ::
  "platform \<Rightarrow> message_header \<Rightarrow> char list \<Rightarrow> (stream_error, bool \<times> cbuffer \<times> char list) outcome" where
  "receiveAll pf cur wire =
     (let b = CBuffer pf One2one in
      if h_packetLength cur > 0
      then obind (receive_packet pf cur b wire)
             (\<lambda>(ok, b, wire). if ok then receive_loop pf cur b wire else Some (Inr (False, b, wire)))
      else Some (Inr (True, b, wire)))"

section \<open>Headers and packets\<close>

lemma header_bytes_length [simp]: "length (header_bytes h) = sizeof_MessageHeader"
  by (simp add: header_bytes_def sizeof_MessageHeader_def)

lemma unat_u16: "unat (x :: u16) < 65536" and unat_u32: "unat (y :: u32) < 4294967296"
  and unat_u64: "unat (z :: u64) < 18446744073709551616"
  using unsigned_less [of x] unsigned_less [of y] unsigned_less [of z] by simp_all

lemma header_round_trip: "header_of (header_bytes h) = h"
  by (simp add: header_of_def header_bytes_def field_def unat_u16 unat_u32 unat_u64)

lemma recvAll_append: "length bs = n \<Longrightarrow> recvAll n (bs @ rest) = Some (bs, rest)"
  by (simp add: recvAll_def)

lemma more_flag:
  "h_flags (packet_header n h) AND DSI_MORE_DATA_FLAG \<noteq> 0 \<longleftrightarrow> n > DSI_PAYLOAD_SIZE"
proof -
  have "(f AND NOT 1) AND 1 = 0" "(f OR 1) AND 1 \<noteq> 0" for f :: u32
    by (simp_all add: and.assoc bit.conj_disj_distrib2 or_eq_0_iff)
  then show ?thesis by (simp add: packet_header_def DSI_MORE_DATA_FLAG_def)
qed

lemma packet_length: "unat (h_packetLength (packet_header n h)) = min n DSI_PAYLOAD_SIZE"
proof -
  have "unat (of_nat m :: u32) = m" if "m \<le> 4056" for m
    using that by (simp add: unat_of_nat)
  then show ?thesis by (simp add: packet_header_def payload_size)
qed

lemma packet_length_pos:
  assumes "0 < n"
  shows "0 < h_packetLength (packet_header n h)"
proof -
  have "unat (h_packetLength (packet_header n h)) \<noteq> 0"
    using assms by (simp add: packet_length payload_size)
  then show ?thesis by (metis unsigned_0 word_gt_0)
qed

lemma memory_at_add: "memory_at pf b off (n + m) = memory_at pf b off n @ memory_at pf b (off + n) m"
  unfolding memory_at_def map_append [symmetric] add.assoc [symmetric]
  by (subst upt_add_eq_append) simp_all

lemma memory_at_length [simp]: "length (memory_at pf b off n) = n"
  by (simp add: memory_at_def)

lemma memory_at_content:
  assumes "cb_wf b"
  shows "memory_at pf b 0 (mSize b) = content b"
  using assms by (auto simp: memory_at_def content_def cb_wf_def intro!: nth_equalityI)

lemma receive_packet_ok:
  assumes "cb_wf b" "memory_ok pf (mSize b + length bs)" "length bs = unat (h_packetLength h)"
  shows "\<exists>b'. receive_packet pf h b (bs @ rest) = Some (Inr (True, b', rest)) \<and> cb_wf b' \<and>
    content b' = content b @ bs"
proof -
  obtain b1 where b1: "setCapacity pf (mSize b + length bs) b = Some (True, b1)" "cb_wf b1"
    "content b1 = content b" "mSize b1 = mSize b" "mSize b + length bs \<le> mCapacity b1"
    using setCapacity_ok [OF assms(1,2)] by blast
  obtain b2 where b2: "put bs b1 = Some (Inr b2)" "cb_wf (pbump (length bs) b2)"
    "content (pbump (length bs) b2) = content b1 @ bs"
    using put_ok [of b1 bs] b1(2,4,5) by auto
  show ?thesis
    using b1 b2 assms(3) by (simp add: receive_packet_def Let_def recvAll_append)
qed

lemma receive_loop_step:
  assumes "h_flags cur AND DSI_MORE_DATA_FLAG \<noteq> 0" "cb_wf b" "0 < n"
    "memory_ok pf (mSize b + length bs)" "length bs = min n DSI_PAYLOAD_SIZE"
  shows "\<exists>b'. receive_loop pf cur b (header_bytes (packet_header n h) @ bs @ rest) =
      receive_loop pf (packet_header n h) b' rest \<and> cb_wf b' \<and> content b' = content b @ bs"
proof -
  obtain b' where "receive_packet pf (packet_header n h) b (bs @ rest) =
      Some (Inr (True, b', rest))" "cb_wf b'" "content b' = content b @ bs"
    using receive_packet_ok [OF assms(2,4)] assms(5) packet_length by metis
  then show ?thesis
    using assms(1) packet_length_pos [OF assms(3), of h]
    by (intro exI [of _ b'], subst receive_loop.simps)
      (simp add: recvAll_append header_round_trip)
qed

section \<open>What arrives\<close>

text \<open>A channel that delivers what is sent.\<close>

definition deliver :: "char list \<Rightarrow> char list \<Rightarrow> bool \<times> char list" where
  "deliver wire bs = (True, wire @ bs)"

lemma flush_loop_received:
  assumes "sent < tot"
  shows "\<exists>frames. (\<forall>c. flush_loop pf deliver b tot sent h True c = (True, c @ frames)) \<and>
    (\<forall>cur buf rest. h_flags cur AND DSI_MORE_DATA_FLAG \<noteq> 0 \<longrightarrow> cb_wf buf \<longrightarrow>
       memory_ok rpf (mSize buf + (tot - sent)) \<longrightarrow>
       (\<exists>buf'. receive_loop rpf cur buf (frames @ rest) = Some (Inr (True, buf', rest)) \<and>
          cb_wf buf' \<and> content buf' = content buf @ memory_at pf b sent (tot - sent)))"
  using assms
proof (induction "tot - sent" arbitrary: sent h rule: less_induct)
  case less
  let ?n = "tot - sent"
  let ?h = "packet_header ?n h"
  let ?bs = "memory_at pf b sent (min ?n DSI_PAYLOAD_SIZE)"
  let ?f = "header_bytes ?h @ ?bs"
  have pos: "0 < ?n" using less.prems by simp
  have step: "flush_loop pf deliver b tot sent h True c =
      flush_loop pf deliver b tot (sent + DSI_PAYLOAD_SIZE) ?h True (c @ ?f)" for c
    using less.prems by (subst flush_loop.simps) (simp add: Let_def deliver_def packet_length)
  show ?case
  proof (cases "?n > DSI_PAYLOAD_SIZE")
    case False
    have stop: "flush_loop pf deliver b tot (sent + DSI_PAYLOAD_SIZE) ?h True c = (True, c)" for c
    proof -
      have "\<not> sent + DSI_PAYLOAD_SIZE < tot" using False by linarith
      then show ?thesis by (subst flush_loop.simps) simp
    qed
    have "\<exists>buf'. receive_loop rpf cur buf (?f @ rest) = Some (Inr (True, buf', rest)) \<and>
        cb_wf buf' \<and> content buf' = content buf @ memory_at pf b sent ?n"
      if "h_flags cur AND DSI_MORE_DATA_FLAG \<noteq> 0" "cb_wf buf" "memory_ok rpf (mSize buf + ?n)"
      for cur buf rest
      using receive_loop_step [OF that(1,2) pos, of rpf ?bs h rest] that(3) False
        more_flag [of ?n h]
      by (auto simp: receive_loop.simps [of rpf ?h])
    then show ?thesis using step stop by (intro exI [of _ ?f]) simp
  next
    case True
    have d: "tot - (sent + DSI_PAYLOAD_SIZE) < ?n" "sent + DSI_PAYLOAD_SIZE < tot"
      using True by (simp_all add: payload_size)
    from less.hyps [OF d] obtain frames where fr:
      "\<And>c. flush_loop pf deliver b tot (sent + DSI_PAYLOAD_SIZE) ?h True c = (True, c @ frames)"
      "\<And>cur buf rest. h_flags cur AND DSI_MORE_DATA_FLAG \<noteq> 0 \<Longrightarrow> cb_wf buf \<Longrightarrow>
         memory_ok rpf (mSize buf + (tot - (sent + DSI_PAYLOAD_SIZE))) \<Longrightarrow>
         \<exists>buf'. receive_loop rpf cur buf (frames @ rest) = Some (Inr (True, buf', rest)) \<and>
           cb_wf buf' \<and> content buf' = content buf @
             memory_at pf b (sent + DSI_PAYLOAD_SIZE) (tot - (sent + DSI_PAYLOAD_SIZE))"
      by blast
    have "\<exists>buf'. receive_loop rpf cur buf ((?f @ frames) @ rest) = Some (Inr (True, buf', rest)) \<and>
        cb_wf buf' \<and> content buf' = content buf @ memory_at pf b sent ?n"
      if a: "h_flags cur AND DSI_MORE_DATA_FLAG \<noteq> 0" "cb_wf buf" "memory_ok rpf (mSize buf + ?n)"
      for cur buf rest
    proof -
      obtain b1 where b1: "receive_loop rpf cur buf (?f @ frames @ rest) =
          receive_loop rpf ?h b1 (frames @ rest)" "cb_wf b1" "content b1 = content buf @ ?bs"
        using receive_loop_step [OF a(1,2) pos, of rpf ?bs h "frames @ rest"]
          memory_ok_mono [OF a(3)] by auto
      have "mSize b1 + (tot - (sent + DSI_PAYLOAD_SIZE)) = mSize buf + ?n"
        using b1(3) content_length [OF b1(2)] content_length [OF a(2)] True by auto
      then obtain b2 where "receive_loop rpf ?h b1 (frames @ rest) = Some (Inr (True, b2, rest))"
        "cb_wf b2" "content b2 = content b1 @
          memory_at pf b (sent + DSI_PAYLOAD_SIZE) (tot - (sent + DSI_PAYLOAD_SIZE))"
        using fr(2) [of ?h b1 rest] more_flag [of ?n h] True b1(2) a(3) by auto
      then show ?thesis
        using b1 True memory_at_add [of pf b sent DSI_PAYLOAD_SIZE "?n - DSI_PAYLOAD_SIZE"]
        by (simp add: min_def)
    qed
    then show ?thesis using step fr(1) by (intro exI [of _ "?f @ frames"]) simp
  qed
qed

text \<open>What a reader gets out of the packets of one request, the header of the first one read.\<close>

definition received :: "platform \<Rightarrow> char list \<Rightarrow> (stream_error, bool \<times> cbuffer \<times> char list) outcome" where
  "received rpf wire =
     (case recvAll sizeof_MessageHeader wire of
        None \<Rightarrow> Some (Inr (False, CBuffer rpf One2one, wire))
      | Some (hb, wire) \<Rightarrow> receiveAll rpf (header_of hb) wire)"

lemma event_info_kept: "haveEventInfo (packet_header n (h\<lparr> h_type := t \<rparr>)) = haveEventInfo h"
  by (simp add: haveEventInfo_def packet_header_def)

lemma event_info_type [simp]: "haveEventInfo (h\<lparr> h_type := t \<rparr>) = haveEventInfo h"
  by (simp add: haveEventInfo_def)

lemma CBuffer_size: "mSize (CBuffer pf f) = 0"
  by (simp add: CBuffer_def)

lemma receive_first:
  assumes "0 < n" "length bs = min n DSI_PAYLOAD_SIZE" "memory_ok rpf (length bs)"
  shows "\<exists>b. received rpf (header_bytes (packet_header n h) @ bs @ rest) =
      receive_loop rpf (packet_header n h) b rest \<and> cb_wf b \<and> content b = bs"
proof -
  obtain b where "receive_packet rpf (packet_header n h) (CBuffer rpf One2one) (bs @ rest) =
      Some (Inr (True, b, rest))" "cb_wf b" "content b = bs"
    using receive_packet_ok [of "CBuffer rpf One2one" rpf bs "packet_header n h" rest] assms
      CBuffer_wf [of rpf One2one] by (auto simp: packet_length CBuffer_size)
  then show ?thesis
    using packet_length_pos [OF assms(1), of h]
    by (intro exI [of _ b]) (simp add: received_def recvAll_append header_round_trip receiveAll_def)
qed

lemma flush_unfold:
  assumes "h_type (w_header w) \<noteq> 0"
    "e = (if haveEventInfo (w_header w) then sizeof_EventInfo else 0)"
    "info = (if haveEventInfo (w_header w) then w_info w else [])"
    "n = mSize (w_buf w) + e"
  shows "flush pf sendAll w c =
    (let h = packet_header n ((w_header w)\<lparr> h_type := 0 \<rparr>);
         (ret, c) = sendAll c (header_bytes h @ info @
           memory_at pf (w_buf w) 0 (min n DSI_PAYLOAD_SIZE - e));
         (ret, c) = (if n > DSI_PAYLOAD_SIZE
           then flush_loop pf sendAll (w_buf w) n (DSI_PAYLOAD_SIZE - sizeof_EventInfo) h ret c
           else (ret, c))
     in Inr (ret, w\<lparr> w_header := h \<rparr>, c))"
  using assms(1) unfolding flush_def assms(2-4)
  by (simp add: Let_def event_info_kept packet_length)

lemma flush_single:
  assumes "h_type (w_header w) \<noteq> 0" "cb_wf (w_buf w)" "length (w_info w) = sizeof_EventInfo"
    "e = (if haveEventInfo (w_header w) then sizeof_EventInfo else 0)"
    "info = (if haveEventInfo (w_header w) then w_info w else [])"
    "n = mSize (w_buf w) + e" "0 < n" "n \<le> DSI_PAYLOAD_SIZE" "memory_ok rpf n"
  shows "\<exists>w' wire b. flush pf deliver w [] = Inr (True, w', wire) \<and>
    received rpf wire = Some (Inr (True, b, [])) \<and> cb_wf b \<and>
    content b = info @ content (w_buf w)"
proof -
  let ?h = "packet_header n ((w_header w)\<lparr> h_type := 0 \<rparr>)"
  let ?bs = "info @ memory_at pf (w_buf w) 0 (mSize (w_buf w))"
  have len: "length ?bs = min n DSI_PAYLOAD_SIZE" "length ?bs = n"
    using assms(3-6,8) by auto
  have "flush pf deliver w [] = Inr (True, w\<lparr> w_header := ?h \<rparr>, header_bytes ?h @ ?bs)"
    using assms(6,8) unfolding flush_unfold [OF assms(1,4,5,6)]
    by (simp add: Let_def deliver_def min_def)
  moreover obtain b where "received rpf (header_bytes ?h @ ?bs @ []) =
      receive_loop rpf ?h b []" "cb_wf b" "content b = ?bs"
    using receive_first [OF assms(7) len(1)] assms(9) len(2) by metis
  moreover have "receive_loop rpf ?h b [] = Some (Inr (True, b, []))"
    using more_flag [of n "(w_header w)\<lparr> h_type := 0 \<rparr>"] assms(8)
    by (subst receive_loop.simps) simp
  ultimately show ?thesis by (simp add: memory_at_content [OF assms(2)])
qed

lemma flush_several:
  assumes "h_type (w_header w) \<noteq> 0" "length (w_info w) = sizeof_EventInfo"
    "e = (if haveEventInfo (w_header w) then sizeof_EventInfo else 0)"
    "info = (if haveEventInfo (w_header w) then w_info w else [])"
    "n = mSize (w_buf w) + e" "DSI_PAYLOAD_SIZE < n" "memory_ok rpf (2 * n)"
  shows "\<exists>w' wire b. flush pf deliver w [] = Inr (True, w', wire) \<and>
    received rpf wire = Some (Inr (True, b, [])) \<and> cb_wf b \<and>
    content b = info @ memory_at pf (w_buf w) 0 (DSI_PAYLOAD_SIZE - e) @
      memory_at pf (w_buf w) (DSI_PAYLOAD_SIZE - sizeof_EventInfo)
        (n - (DSI_PAYLOAD_SIZE - sizeof_EventInfo))"
proof -
  let ?hd = "(w_header w)\<lparr> h_type := 0 \<rparr>"
  let ?h = "packet_header n ?hd"
  let ?sent = "DSI_PAYLOAD_SIZE - sizeof_EventInfo"
  let ?bs = "info @ memory_at pf (w_buf w) 0 (DSI_PAYLOAD_SIZE - e)"
  have len: "length ?bs = min n DSI_PAYLOAD_SIZE"
    using assms(2-6) by (auto simp: payload_size sizeof_EventInfo_def)
  have "?sent < n" using assms(6) by simp
  from flush_loop_received [OF this, of pf "w_buf w" ?h rpf] obtain frames where fr:
    "\<And>c. flush_loop pf deliver (w_buf w) n ?sent ?h True c = (True, c @ frames)"
    "\<And>cur buf rest. h_flags cur AND DSI_MORE_DATA_FLAG \<noteq> 0 \<Longrightarrow> cb_wf buf \<Longrightarrow>
       memory_ok rpf (mSize buf + (n - ?sent)) \<Longrightarrow>
       \<exists>buf'. receive_loop rpf cur buf (frames @ rest) = Some (Inr (True, buf', rest)) \<and>
          cb_wf buf' \<and> content buf' = content buf @ memory_at pf (w_buf w) ?sent (n - ?sent)"
    by blast
  have "flush pf deliver w [] =
      Inr (True, w\<lparr> w_header := ?h \<rparr>, (header_bytes ?h @ ?bs) @ frames)"
    using assms(6) fr(1) unfolding flush_unfold [OF assms(1,3,4,5)]
    by (simp add: Let_def deliver_def min_def)
  moreover obtain b where b: "received rpf (header_bytes ?h @ ?bs @ frames) =
      receive_loop rpf ?h b frames" "cb_wf b" "content b = ?bs"
    using receive_first [OF _ len, of rpf ?hd frames] memory_ok_mono [OF assms(7)] len assms(6)
    by auto
  moreover have "mSize b + (n - ?sent) \<le> 2 * n"
    using content_length [OF b(2)] b(3) len assms(6) by simp
  ultimately show ?thesis
    using fr(2) [of ?h b "[]"] more_flag [of n ?hd] assms(6) memory_ok_mono [OF assms(7)] by auto
qed

text \<open>
  A data request arrives as it was written. In more than one packet, 16 bytes of the memory
  behind the data follow: the size of the event information is counted again in the last packet.
\<close>

lemma data_request_received:
  assumes "h_type (w_header w) \<noteq> 0" "cb_wf (w_buf w)" "length (w_info w) = sizeof_EventInfo"
    "haveEventInfo (w_header w)" "memory_ok rpf (2 * (mSize (w_buf w) + sizeof_EventInfo))"
  shows "\<exists>w' wire b. flush pf deliver w [] = Inr (True, w', wire) \<and>
    received rpf wire = Some (Inr (True, b, [])) \<and> cb_wf b \<and>
    content b = w_info w @ content (w_buf w) @
      (if mSize (w_buf w) + sizeof_EventInfo \<le> DSI_PAYLOAD_SIZE then []
       else memory_at pf (w_buf w) (mSize (w_buf w)) sizeof_EventInfo)"
proof (cases "mSize (w_buf w) + sizeof_EventInfo \<le> DSI_PAYLOAD_SIZE")
  case True
  then show ?thesis
    using flush_single [OF assms(1-3) refl refl refl _ _ memory_ok_mono [OF assms(5)], of pf] assms(4)
    by (simp add: sizeof_EventInfo_def)
next
  case False
  let ?s = "DSI_PAYLOAD_SIZE - sizeof_EventInfo"
  have s: "?s \<le> mSize (w_buf w) + sizeof_EventInfo"
    "?s + (mSize (w_buf w) + sizeof_EventInfo - ?s) = mSize (w_buf w) + sizeof_EventInfo"
    using False by auto
  have "memory_at pf (w_buf w) 0 ?s @
      memory_at pf (w_buf w) ?s (mSize (w_buf w) + sizeof_EventInfo - ?s) =
      content (w_buf w) @ memory_at pf (w_buf w) (mSize (w_buf w)) sizeof_EventInfo"
    using memory_at_add [of pf "w_buf w" 0 ?s "mSize (w_buf w) + sizeof_EventInfo - ?s"]
      memory_at_add [of pf "w_buf w" 0 "mSize (w_buf w)" sizeof_EventInfo] s(2)
      memory_at_content [OF assms(2), of pf] by simp
  then show ?thesis
    using flush_several [OF assms(1,3) refl refl refl _ , of rpf pf] assms(4,5) False by auto
qed

text \<open>
  A request without event information that needs more than one packet arrives with the last 16
  bytes of its first packet twice.
\<close>

lemma control_request_received:
  assumes "h_type (w_header w) \<noteq> 0" "length (w_info w) = sizeof_EventInfo"
    "\<not> haveEventInfo (w_header w)" "DSI_PAYLOAD_SIZE < mSize (w_buf w)"
    "memory_ok rpf (2 * mSize (w_buf w))"
  shows "\<exists>w' wire b. flush pf deliver w [] = Inr (True, w', wire) \<and>
    received rpf wire = Some (Inr (True, b, [])) \<and>
    length (content b) = mSize (w_buf w) + sizeof_EventInfo"
  using flush_several [OF assms(1,2) refl refl refl, of rpf pf] assms(3-5)
  by (auto simp: payload_size sizeof_EventInfo_def)

text \<open>The magic number of the header never reaches the wire.\<close>

lemma header_type_cleared:
  assumes "h_type (w_header w) \<noteq> 0" "flush pf sendAll w c = Inr (ret, w', c')"
  shows "h_type (w_header w') = 0"
  using assms
  by (auto simp: flush_def Let_def packet_header_def split: prod.splits if_splits)

end
