(* ===== verification/Auto_Buffer.thy ===== *)
theory Auto_Buffer
  imports Streams Message_Context
begin

text \<open>
  The buffer a client's request is read into and its response is written from:
  \<^verbatim>\<open>AutoBuffer<512>\<close> (\<^verbatim>\<open>src/servicebroker/AutoBuffer.hpp\<close>), the frames in it
  (\<^verbatim>\<open>src/servicebroker/frames.h\<close>) and what \<^verbatim>\<open>SocketMessageContext\<close> does with them, at the level of
  bytes. The lemmas show that growing keeps the contents, that a request or response frame that
  was put into the buffer is found there, and how the response functions fill it.
\<close>

section \<open>The buffer\<close>

text \<open>
  The block on the heap, if there is one; the position is \<^verbatim>\<open>ptr_ - buf_\<close>.
\<close>

record autobuffer =
  ab_internal :: "char list"
  ab_heap :: "char list option"
  ab_capa :: nat
  ab_pos :: nat

definition ab_Size :: nat where
  "ab_Size = 512"

definition AutoBuffer :: "platform \<Rightarrow> autobuffer" where
  "AutoBuffer pf =
     \<lparr> ab_internal = map (junk pf) [0..<ab_Size], ab_heap = None, ab_capa = ab_Size, ab_pos = 0 \<rparr>"

definition ab_mem :: "autobuffer \<Rightarrow> char list" where
  "ab_mem b = (case ab_heap b of None \<Rightarrow> ab_internal b | Some m \<Rightarrow> m)"

definition ab_store :: "nat \<Rightarrow> char list \<Rightarrow> autobuffer \<Rightarrow> autobuffer" where
  "ab_store off bs b =
     (case ab_heap b of
        None \<Rightarrow> b\<lparr> ab_internal := overwrite (ab_internal b) off bs \<rparr>
      | Some m \<Rightarrow> b\<lparr> ab_heap := Some (overwrite m off bs) \<rparr>)"

definition ab_set :: "nat \<Rightarrow> autobuffer \<Rightarrow> autobuffer" where
  "ab_set off b = b\<lparr> ab_pos := off \<rparr>"

definition ab_bump :: "nat \<Rightarrow> autobuffer \<Rightarrow> autobuffer" where
  "ab_bump off b = b\<lparr> ab_pos := ab_pos b + off \<rparr>"

text \<open>\<open>None\<close> is the \<^verbatim>\<open>std::bad_alloc\<close> of \<^verbatim>\<open>new char[len]\<close>.\<close>

definition ab_reserve :: "platform \<Rightarrow> nat \<Rightarrow> autobuffer \<Rightarrow> autobuffer option" where
  "ab_reserve pf len b =
     (if len > ab_capa b then
        if len > ab_Size then
          if alloc pf len
          then Some (b\<lparr> ab_heap := Some (take (ab_capa b) (ab_mem b) @ map (junk pf) [ab_capa b..<len]),
                        ab_capa := len \<rparr>)
          else None
        else Some b
      else Some b)"

definition ab_reset :: "autobuffer \<Rightarrow> autobuffer" where
  "ab_reset b = b\<lparr> ab_heap := None, ab_capa := ab_Size, ab_pos := 0 \<rparr>"

section \<open>Frames\<close>

definition SB_FRAME_MAGIC :: nat where
  "SB_FRAME_MAGIC = 1263682131"

definition sizeof_frame :: nat where
  "sizeof_frame = 16"

text \<open>A 32 bit field of the buffer's beginning, as a number and as \<^verbatim>\<open>int32_t\<close>.\<close>

definition ab_field :: "nat \<Rightarrow> autobuffer \<Rightarrow> nat" where
  "ab_field off b = of_le (take 4 (drop off (ab_mem b)))"

definition fr_magic :: "autobuffer \<Rightarrow> nat" where
  "fr_magic b = ab_field 0 b"

definition fr_size :: "autobuffer \<Rightarrow> int" where
  "fr_size b = as_int32 (ab_field 4 b)"

definition fr_cmd :: "autobuffer \<Rightarrow> nat" where
  "fr_cmd b = ab_field 8 b"

text \<open>\<^verbatim>\<open>fr_size + sizeof(frame)\<close> as a \<^verbatim>\<open>size_t\<close>.\<close>

definition frame_length :: "platform \<Rightarrow> autobuffer \<Rightarrow> nat" where
  "frame_length pf b = nat ((fr_size b + int sizeof_frame) mod 2 ^ size_bits pf)"

definition frame_header :: "int \<Rightarrow> int \<Rightarrow> char list" where
  "frame_header sz val =
     le_bytes 4 SB_FRAME_MAGIC @ le_bytes 4 (nat (sz mod 2 ^ 32)) @
     le_bytes 4 (nat (val mod 2 ^ 32)) @ le_bytes 4 0"

definition INIT_RESPONSE_FRAME :: "int \<Rightarrow> int \<Rightarrow> autobuffer \<Rightarrow> autobuffer" where
  "INIT_RESPONSE_FRAME sz retval b = ab_store 0 (frame_header sz retval) b"

section \<open>Access at an offset\<close>

definition ab_read :: "nat \<Rightarrow> nat \<Rightarrow> autobuffer \<Rightarrow> int \<times> char list" where
  "ab_read len offset b =
     (let rc = (if as_int32 ((len + offset) mod 2 ^ 32) \<le> fr_size b + int sizeof_frame then int len
                else fr_size b + int sizeof_frame - int offset)
      in if rc > 0 then (rc, take (nat rc) (drop offset (ab_mem b))) else (- 1, []))"

definition ab_write :: "platform \<Rightarrow> char list \<Rightarrow> nat \<Rightarrow> autobuffer \<Rightarrow> autobuffer option" where
  "ab_write pf bs offset b =
     map_option (ab_store offset bs) (ab_reserve pf (length bs + offset) b)"

section \<open>The response\<close>

text \<open>The fields \<^verbatim>\<open>prepareResponse\<close> sets, with the ancillary data written so far.\<close>

definition set_response :: "int \<Rightarrow> int \<Rightarrow> autobuffer \<Rightarrow> autobuffer" where
  "set_response sz retval b =
     ab_store 8 (le_bytes 4 (nat (retval mod 2 ^ 32)))
       (ab_store 4 (le_bytes 4 (nat (sz mod 2 ^ 32))) b)"

definition smc_prepareResponse :: "int \<Rightarrow> nat \<Rightarrow> autobuffer \<Rightarrow> autobuffer" where
  "smc_prepareResponse retval putOffset b =
     set_response (if 0 < putOffset \<and> retval \<le> status_code FNDOK then int putOffset else 0) retval b"

definition smc_prepareResponse_data ::
  "platform \<Rightarrow> int \<Rightarrow> char list \<Rightarrow> nat \<Rightarrow> autobuffer \<Rightarrow> autobuffer option" where
  "smc_prepareResponse_data pf retval data putOffset b =
     ab_write pf data sizeof_frame
       (set_response
          (if 0 < putOffset \<and> retval = status_code FNDOK then int putOffset else int (length data))
          retval b)"

fun smc_writeAncillaryData ::
  "platform \<Rightarrow> char list list \<Rightarrow> nat \<Rightarrow> autobuffer \<Rightarrow> (nat \<times> autobuffer) option" where
  "smc_writeAncillaryData pf [] putOffset b = Some (putOffset, b)"
| "smc_writeAncillaryData pf (bs # bss) putOffset b =
     (case ab_write pf bs (putOffset + sizeof_frame) b of
        None \<Rightarrow> None
      | Some b \<Rightarrow> smc_writeAncillaryData pf bss (putOffset + length bs) b)"

section \<open>Lemmas\<close>

definition ab_wf :: "autobuffer \<Rightarrow> bool" where
  "ab_wf b \<longleftrightarrow>
     length (ab_internal b) = ab_Size \<and> length (ab_mem b) = ab_capa b \<and> ab_Size \<le> ab_capa b \<and>
     ab_pos b \<le> ab_capa b"

lemma AutoBuffer_wf: "ab_wf (AutoBuffer pf)"
  by (simp add: ab_wf_def AutoBuffer_def ab_mem_def)

lemma ab_store_simps [simp]:
  "ab_mem (ab_store off bs b) = overwrite (ab_mem b) off bs"
  "ab_pos (ab_store off bs b) = ab_pos b" "ab_capa (ab_store off bs b) = ab_capa b"
  by (simp_all add: ab_store_def ab_mem_def split: option.splits)

lemma ab_store_wf: "ab_wf b \<Longrightarrow> off + length bs \<le> ab_capa b \<Longrightarrow> ab_wf (ab_store off bs b)"
  by (auto simp: ab_wf_def ab_store_def ab_mem_def split: option.splits)

lemma ab_pos_simps [simp]:
  "ab_mem (ab_set n b) = ab_mem b" "ab_capa (ab_set n b) = ab_capa b" "ab_pos (ab_set n b) = n"
  "ab_mem (ab_bump n b) = ab_mem b" "ab_capa (ab_bump n b) = ab_capa b"
  "ab_pos (ab_bump n b) = ab_pos b + n"
  "ab_pos (ab_reset b) = 0" "ab_capa (ab_reset b) = ab_Size" "ab_mem (ab_reset b) = ab_internal b"
  by (simp_all add: ab_set_def ab_bump_def ab_reset_def ab_mem_def split: option.splits)

lemma ab_set_wf: "ab_wf b \<Longrightarrow> n \<le> ab_capa b \<Longrightarrow> ab_wf (ab_set n b)"
  by (auto simp: ab_wf_def ab_set_def ab_mem_def split: option.splits)

lemma ab_bump_wf: "ab_wf b \<Longrightarrow> ab_pos b + n \<le> ab_capa b \<Longrightarrow> ab_wf (ab_bump n b)"
  by (auto simp: ab_wf_def ab_bump_def ab_mem_def split: option.splits)

lemma ab_reset_wf: "ab_wf b \<Longrightarrow> ab_wf (ab_reset b)"
  by (simp add: ab_wf_def ab_reset_def ab_mem_def)

lemma ab_reserve_ok:
  assumes "ab_wf b" "alloc pf len"
  shows "\<exists>b'. ab_reserve pf len b = Some b' \<and> ab_wf b' \<and> ab_pos b' = ab_pos b \<and>
    take (ab_capa b) (ab_mem b') = ab_mem b \<and> ab_capa b' = max (ab_capa b) len \<and>
    ab_internal b' = ab_internal b"
  using assms by (auto simp: ab_reserve_def ab_wf_def ab_mem_def max_def)

lemma overwrite_read:
  "off + length bs \<le> length mem \<Longrightarrow> take (length bs) (drop off (overwrite mem off bs)) = bs"
  by (simp add: overwrite_def)

lemma overwrite_take: "off \<le> length mem \<Longrightarrow> take off (overwrite mem off bs) = take off mem"
  by (simp add: overwrite_def)

lemma overwrite_append:
  "off + length bs \<le> length mem \<Longrightarrow>
    take (off + length bs) (overwrite mem off bs) = take off mem @ bs"
  by (simp add: overwrite_def)


text \<open>Fields depend only on the bytes they are in.\<close>

lemma ab_field_prefix:
  assumes "take n (ab_mem b) = take n bs" "off + 4 \<le> n"
  shows "ab_field off b = of_le (take 4 (drop off bs))"
proof -
  have "take 4 (drop off xs) = take 4 (drop off (take n xs))" for xs :: "char list"
    using assms(2) by (simp add: drop_take)
  then show ?thesis using assms(1) by (metis ab_field_def)
qed

lemma frame_header_length [simp]: "length (frame_header sz val) = sizeof_frame"
  by (simp add: frame_header_def sizeof_frame_def)

lemma nat_mod32_less: "nat (x mod 4294967296) < 4294967296"
  by (simp add: nat_less_iff)

lemma frame_header_fields:
  "of_le (take 4 (drop 0 (frame_header sz val @ rest))) = SB_FRAME_MAGIC"
  "of_le (take 4 (drop 4 (frame_header sz val @ rest))) = nat (sz mod 2 ^ 32)"
  "of_le (take 4 (drop 8 (frame_header sz val @ rest))) = nat (val mod 2 ^ 32)"
  using nat_mod32_less [of sz] nat_mod32_less [of val]
  by (simp_all add: frame_header_def SB_FRAME_MAGIC_def)

lemma as_int32_inverse: "- (2 ^ 31) \<le> x \<Longrightarrow> x < 2 ^ 31 \<Longrightarrow> as_int32 (nat (x mod 2 ^ 32)) = x"
proof -
  assume a: "- (2 ^ 31) \<le> x" "x < 2 ^ 31"
  show ?thesis
  proof (cases "0 \<le> x")
    case True
    then have "x mod 2 ^ 32 = x" using a by simp
    then show ?thesis using a True by (simp add: as_int32_def nat_less_iff)
  next
    case False
    have "x mod 2 ^ 32 = (x + 2 ^ 32) mod 2 ^ 32" by simp
    also have "\<dots> = x + 2 ^ 32" using a False by (intro mod_pos_pos_trivial) auto
    finally have "x mod 2 ^ 32 = x + 2 ^ 32" .
    then show ?thesis using a False by (simp add: as_int32_def nat_less_iff)
  qed
qed

text \<open>A frame at the beginning of the buffer.\<close>

definition holds_frame :: "int \<Rightarrow> int \<Rightarrow> char list \<Rightarrow> autobuffer \<Rightarrow> bool" where
  "holds_frame sz val body b \<longleftrightarrow>
     take (sizeof_frame + length body) (ab_mem b) = frame_header sz val @ body"

lemma holds_frame_fields:
  assumes "holds_frame sz val body b"
  shows "fr_magic b = SB_FRAME_MAGIC" "- (2 ^ 31) \<le> sz \<Longrightarrow> sz < 2 ^ 31 \<Longrightarrow> fr_size b = sz"
    "fr_cmd b = nat (val mod 2 ^ 32)"
proof -
  let ?n = "sizeof_frame + length body"
  have t: "take ?n (ab_mem b) = take ?n (frame_header sz val @ body)"
    using assms by (simp add: holds_frame_def)
  have f: "ab_field off b = of_le (take 4 (drop off (frame_header sz val @ body)))" if "off \<le> 12" for off
    using ab_field_prefix [OF t] that by (simp add: sizeof_frame_def)
  show "fr_magic b = SB_FRAME_MAGIC" "fr_cmd b = nat (val mod 2 ^ 32)"
    unfolding fr_magic_def fr_cmd_def by (subst f; simp only: frame_header_fields; simp)+
  show "- (2 ^ 31) \<le> sz \<Longrightarrow> sz < 2 ^ 31 \<Longrightarrow> fr_size b = sz"
    unfolding fr_size_def by (subst f, simp) (simp only: frame_header_fields as_int32_inverse)
qed

lemma INIT_RESPONSE_FRAME_holds:
  assumes "ab_wf b"
  shows "holds_frame sz val [] (INIT_RESPONSE_FRAME sz val b)" "ab_wf (INIT_RESPONSE_FRAME sz val b)"
    "ab_pos (INIT_RESPONSE_FRAME sz val b) = ab_pos b"
proof -
  have "sizeof_frame \<le> length (ab_mem b)"
    using assms by (simp add: ab_wf_def ab_Size_def sizeof_frame_def)
  then show "holds_frame sz val [] (INIT_RESPONSE_FRAME sz val b)"
    by (simp add: holds_frame_def INIT_RESPONSE_FRAME_def overwrite_def)
  show "ab_wf (INIT_RESPONSE_FRAME sz val b)"
    using assms unfolding INIT_RESPONSE_FRAME_def
    by (intro ab_store_wf) (auto simp: ab_wf_def ab_Size_def sizeof_frame_def)
  show "ab_pos (INIT_RESPONSE_FRAME sz val b) = ab_pos b"
    by (simp add: INIT_RESPONSE_FRAME_def)
qed

text \<open>\<^verbatim>\<open>prepareResponse\<close> changes the size and the return code of the header.\<close>

lemma set_response_holds:
  assumes "ab_wf b" "holds_frame sz val body b" "length (ab_mem b) \<ge> sizeof_frame + length body"
  shows "holds_frame sz' val' body (set_response sz' val' b)" "ab_wf (set_response sz' val' b)"
    "ab_pos (set_response sz' val' b) = ab_pos b" "ab_capa (set_response sz' val' b) = ab_capa b"
proof -
  let ?a = "le_bytes 4 SB_FRAME_MAGIC" and ?z = "le_bytes 4 0"
  have m: "ab_mem b = frame_header sz val @ body @ drop (sizeof_frame + length body) (ab_mem b)"
    using assms(2) by (metis append.assoc append_take_drop_id holds_frame_def)
  have "ab_mem (set_response sz' val' b) =
      frame_header sz' val' @ body @ drop (sizeof_frame + length body) (ab_mem b)"
    unfolding set_response_def ab_store_simps
    by (subst m) (simp add: frame_header_def overwrite_def)
  then show "holds_frame sz' val' body (set_response sz' val' b)"
    by (simp add: holds_frame_def)
  have c: "sizeof_frame \<le> ab_capa b" using assms(1) by (simp add: ab_wf_def ab_Size_def sizeof_frame_def)
  show "ab_wf (set_response sz' val' b)"
    using assms(1) c unfolding set_response_def by (intro ab_store_wf) (auto simp: sizeof_frame_def)
qed (simp_all add: set_response_def)

text \<open>Writing behind the header and the data that is there already.\<close>

lemma ab_write_holds:
  assumes "ab_wf b" "holds_frame sz val body b" "alloc pf (length bs + (length body + sizeof_frame))"
    "length (ab_mem b) \<ge> sizeof_frame + length body"
  shows "\<exists>b'. ab_write pf bs (length body + sizeof_frame) b = Some b' \<and> ab_wf b' \<and>
    holds_frame sz val (body @ bs) b' \<and> ab_pos b' = ab_pos b \<and>
    length (ab_mem b') \<ge> sizeof_frame + length (body @ bs)"
proof -
  let ?off = "length body + sizeof_frame"
  obtain b1 where b1: "ab_reserve pf (length bs + ?off) b = Some b1" "ab_wf b1"
    "ab_pos b1 = ab_pos b" "take (ab_capa b) (ab_mem b1) = ab_mem b"
    "ab_capa b1 = max (ab_capa b) (length bs + ?off)"
    using ab_reserve_ok [OF assms(1,3)] by blast
  have l: "length (ab_mem b1) = ab_capa b1" "length (ab_mem b) = ab_capa b"
    using b1(2) assms(1) by (simp_all add: ab_wf_def)
  have "?off \<le> ab_capa b" using assms(4) l(2) by simp
  then have "take ?off (ab_mem b1) = take ?off (take (ab_capa b) (ab_mem b1))"
    by (simp add: min_def)
  then have "take ?off (ab_mem b1) = take ?off (ab_mem b)" by (simp only: b1(4))
  then have "take (?off + length bs) (overwrite (ab_mem b1) ?off bs) = frame_header sz val @ body @ bs"
    using assms(2) b1(5) l(1) overwrite_append [of ?off bs "ab_mem b1"]
    by (simp add: holds_frame_def add.commute)
  then have "holds_frame sz val (body @ bs) (ab_store ?off bs b1)"
    by (simp add: holds_frame_def ac_simps)
  then show ?thesis
    using b1 l ab_store_wf [OF b1(2), of ?off bs] by (auto simp: ab_write_def)
qed

end
