(* ===== verification/Client_Session.thy ===== *)
theory Client_Session
  imports Auto_Buffer Slist
begin

text \<open>
  The connections of the servicebroker: \<^verbatim>\<open>ServicebrokerClientBase\<close> and \<^verbatim>\<open>ServicebrokerClient\<close>
  (\<^verbatim>\<open>src/servicebroker/ServicebrokerServer.hpp\<close> and \<^verbatim>\<open>.cpp\<close>). A client object reads the header and
  the body of a request in as many pieces as the socket delivers, has the request dispatched,
  and writes the response in as many pieces as the socket takes. The dispatcher of the
  \<^verbatim>\<open>Servicebroker\<close> object and what it keeps per connection are parameters here (\<open>broker_if\<close>); the
  socket's answers are events. The lemmas show that every request frame is dispatched once,
  however it is split, and that its response is sent completely.
\<close>

section \<open>State\<close>

datatype client_state = Reading_header | Reading_body | Writing | Deferred

text \<open>The asynchronous operation the object waits for.\<close>

datatype pending_io = No_io | Read_some nat | Write_some "char list"

record client =
  cl_read :: autobuffer
  cl_write :: autobuffer
  cl_state :: client_state
  cl_io :: pending_io
  cl_sent :: "char list" \<comment> \<open>what the socket has taken so far\<close>

text \<open>
  What \<^verbatim>\<open>Servicebroker::dispatch\<close> did with the message context: nothing, a response with the
  ancillary elements and the data it wrote, or a deferred response.
\<close>

datatype answer = Not_found | Answer int "char list list" "char list option" | Defer_answer

record 's broker_if =
  bi_dispatch :: "addr \<Rightarrow> nat \<Rightarrow> char list \<Rightarrow> 's \<Rightarrow> answer \<times> 's"
  bi_extendedID :: "'s \<Rightarrow> addr \<Rightarrow> int"
  bi_clear :: "addr \<Rightarrow> 's \<Rightarrow> 's"

text \<open>
  The client objects by address, the list of the connected slaves (the intrusive list of
  \<open>Slist\<close> holds it) and the broker's own state.
\<close>

record 's server =
  sv_clients :: "addr list"
  sv_obj :: "addr \<Rightarrow> client option"
  sv_broker :: 's

datatype session_error = Use_after_free | Bad_alloc | Assertion | Not_armed

datatype io_result = Wrote nat | Would_block | Io_failed

definition put_client :: "addr \<Rightarrow> client \<Rightarrow> 's server \<Rightarrow> 's server" where
  "put_client a c sv = sv\<lparr> sv_obj := (sv_obj sv)(a := Some c) \<rparr>"

section \<open>Operations of the server\<close>

definition sv_addClient :: "addr \<Rightarrow> 's server \<Rightarrow> 's server" where
  "sv_addClient a sv = sv\<lparr> sv_clients := a # sv_clients sv \<rparr>"

definition sv_removeClient :: "addr \<Rightarrow> 's server \<Rightarrow> 's server" where
  "sv_removeClient a sv = sv\<lparr> sv_clients := filter (\<lambda>x. x \<noteq> a) (sv_clients sv) \<rparr>"

text \<open>\<^verbatim>\<open>delete\<close> of a client object: its destructor and the end of the object.\<close>

definition delete_client :: "'s broker_if \<Rightarrow> addr \<Rightarrow> 's server \<Rightarrow> 's server" where
  "delete_client B a sv =
     (let sv = sv_removeClient a sv
      in sv\<lparr> sv_broker := bi_clear B a (sv_broker sv), sv_obj := (sv_obj sv)(a := None) \<rparr>)"

fun remove_matching :: "'s broker_if \<Rightarrow> int \<Rightarrow> addr list \<Rightarrow> 's server \<Rightarrow> 's server" where
  "remove_matching B ext [] sv = sv"
| "remove_matching B ext (a # as) sv =
     (if bi_extendedID B (sv_broker sv) a = ext
      then remove_matching B ext as (delete_client B a sv)
      else remove_matching B ext as sv)"

definition sv_removeClient_extended :: "'s broker_if \<Rightarrow> int \<Rightarrow> 's server \<Rightarrow> 's server" where
  "sv_removeClient_extended B ext sv = remove_matching B ext (sv_clients sv) sv"

section \<open>Operations of the client object\<close>

definition client_arm :: "platform \<Rightarrow> 's broker_if \<Rightarrow> addr \<Rightarrow> client \<Rightarrow> 's server \<Rightarrow> 's server" where
  "client_arm pf B a c sv =
     (if cl_state c = Reading_header \<or> cl_state c = Reading_body then
        if ab_capa (cl_read c) - ab_pos (cl_read c) > 0
        then put_client a (c\<lparr> cl_io := Read_some (ab_capa (cl_read c) - ab_pos (cl_read c)) \<rparr>) sv
        else delete_client B a sv
      else
        put_client a (c\<lparr> cl_io := Write_some
          (take (frame_length pf (cl_write c) - ab_pos (cl_write c))
             (drop (ab_pos (cl_write c)) (ab_mem (cl_write c)))) \<rparr>) sv)"

text \<open>\<open>ws\<close> is the socket's answer to the attempt to write a number of bytes at once.\<close>

definition evaluateWriteResult ::
  "platform \<Rightarrow> 's broker_if \<Rightarrow> (nat \<Rightarrow> io_result) \<Rightarrow> addr \<Rightarrow> client \<Rightarrow> 's server \<Rightarrow> 's server" where
  "evaluateWriteResult pf B ws a c sv =
     (let len = frame_length pf (cl_write c);
          data = take len (drop (ab_pos (cl_write c)) (ab_mem (cl_write c)))
      in case ws len of
           Wrote rc \<Rightarrow>
             let c = c\<lparr> cl_sent := cl_sent c @ take rc data \<rparr>;
                 c = (if rc < len
                      then c\<lparr> cl_write := ab_bump rc (cl_write c), cl_state := Writing \<rparr>
                      else c\<lparr> cl_write := ab_reset (cl_write c), cl_state := Reading_header \<rparr>)
             in client_arm pf B a c sv
         | Would_block \<Rightarrow> client_arm pf B a (c\<lparr> cl_state := Writing \<rparr>) sv
         | Io_failed \<Rightarrow> delete_client B a sv)"

text \<open>The response frame in the write buffer after the dispatcher is done.\<close>

definition fill_response :: "platform \<Rightarrow> answer \<Rightarrow> autobuffer \<Rightarrow> autobuffer option" where
  "fill_response pf ans b =
     (case ans of
        Answer retval anc data \<Rightarrow>
          (case smc_writeAncillaryData pf anc 0 b of
             None \<Rightarrow> None
           | Some (off, b) \<Rightarrow>
               (case data of
                  None \<Rightarrow> Some (smc_prepareResponse retval off b)
                | Some d \<Rightarrow> smc_prepareResponse_data pf retval d off b))
      | _ \<Rightarrow> Some b)"

definition ping_id_command :: nat where
  "ping_id_command = unat (dcmd (MASTER_PING_ID 0))"

definition client_eval ::
  "platform \<Rightarrow> 's broker_if \<Rightarrow> (nat \<Rightarrow> io_result) \<Rightarrow> addr \<Rightarrow> client \<Rightarrow> 's server \<Rightarrow>
     session_error + 's server" where
  "client_eval pf B ws a c sv =
     (let w = INIT_RESPONSE_FRAME 0 (status_code FNDUnknownCommand) (cl_write c);
          cmd = fr_cmd (cl_read c);
          (ans, br) = bi_dispatch B a cmd
            (take (nat (fr_size (cl_read c))) (drop sizeof_frame (ab_mem (cl_read c)))) (sv_broker sv)
      in case fill_response pf ans w of
           None \<Rightarrow> Inl Bad_alloc
         | Some w \<Rightarrow>
             let c = c\<lparr> cl_write := w \<rparr>;
                 sv = (put_client a c sv)\<lparr> sv_broker := br \<rparr>;
                 pinged = (cmd = ping_id_command \<and> bi_extendedID B br a \<noteq> 0);
                 sv = (if pinged then sv_removeClient_extended B (bi_extendedID B br a) sv else sv)
             in if pinged \<and> sv_obj sv a = None then Inl Use_after_free
                else
                  let sv = (if pinged then sv_addClient a sv else sv)
                  in if ans = Defer_answer then Inr (put_client a (c\<lparr> cl_state := Deferred \<rparr>) sv)
                     else Inr (evaluateWriteResult pf B ws a
                            (c\<lparr> cl_read := ab_reset (cl_read c),
                                cl_write := ab_set 0 (cl_write c) \<rparr>) sv))"

text \<open>After the bytes are accounted for: a complete request is evaluated.\<close>

definition check_complete ::
  "platform \<Rightarrow> 's broker_if \<Rightarrow> (nat \<Rightarrow> io_result) \<Rightarrow> addr \<Rightarrow> client \<Rightarrow> 's server \<Rightarrow>
     session_error + 's server" where
  "check_complete pf B ws a c sv =
     (if ab_pos (cl_read c) = frame_length pf (cl_read c) then client_eval pf B ws a c sv
      else Inr (client_arm pf B a c sv))"

definition handleRead ::
  "platform \<Rightarrow> 's broker_if \<Rightarrow> (nat \<Rightarrow> io_result) \<Rightarrow> nat \<Rightarrow> bool \<Rightarrow> addr \<Rightarrow> client \<Rightarrow> 's server \<Rightarrow>
     session_error + 's server" where
  "handleRead pf B ws amount ok a c sv =
     (if ok then
        if cl_state c = Reading_header then
          let r = ab_bump amount (cl_read c) in
          if ab_pos r \<ge> sizeof_frame then
            if fr_magic r = SB_FRAME_MAGIC then
              case ab_reserve pf (frame_length pf r) r of
                None \<Rightarrow> Inl Bad_alloc
              | Some r \<Rightarrow>
                  check_complete pf B ws a (c\<lparr> cl_read := r, cl_state := Reading_body \<rparr>) sv
            else Inr (delete_client B a sv)
          else check_complete pf B ws a (c\<lparr> cl_read := r \<rparr>) sv
        else if cl_state c = Reading_body then
          check_complete pf B ws a (c\<lparr> cl_read := ab_bump amount (cl_read c) \<rparr>) sv
        else check_complete pf B ws a c sv
      else Inr (delete_client B a sv))"

definition handleWrite ::
  "platform \<Rightarrow> 's broker_if \<Rightarrow> nat \<Rightarrow> bool \<Rightarrow> addr \<Rightarrow> client \<Rightarrow> 's server \<Rightarrow> 's server" where
  "handleWrite pf B amount ok a c sv =
     (if ok then
        let w = ab_bump amount (cl_write c);
            c = (if ab_pos w = frame_length pf w
                 then c\<lparr> cl_state := Reading_header, cl_write := ab_reset w \<rparr>
                 else c\<lparr> cl_write := w \<rparr>)
        in client_arm pf B a c sv
      else delete_client B a sv)"

definition sendDeferredResponse ::
  "platform \<Rightarrow> 's broker_if \<Rightarrow> int \<Rightarrow> int \<Rightarrow> char list \<Rightarrow> addr \<Rightarrow> client \<Rightarrow> 's server \<Rightarrow>
     session_error + 's server" where
  "sendDeferredResponse pf B status retval data a c sv =
     (if cl_state c \<noteq> Deferred then Inl Assertion
      else
        let w = (if status \<noteq> 0
                 then Some (INIT_RESPONSE_FRAME 0 (status_code FNDInternalError) (cl_write c))
                 else if retval \<le> status_code FNDOK
                 then map_option (INIT_RESPONSE_FRAME (int (length data)) retval)
                        (ab_write pf data sizeof_frame (cl_write c))
                 else Some (INIT_RESPONSE_FRAME 0 retval (cl_write c)))
        in case w of
             None \<Rightarrow> Inl Bad_alloc
           | Some w \<Rightarrow>
               Inr (client_arm pf B a
                 (c\<lparr> cl_read := ab_reset (cl_read c), cl_write := ab_set 0 w, cl_state := Writing \<rparr>)
                 sv))"

section \<open>Events\<close>

text \<open>The socket delivers bytes for the pending read, or takes bytes of the pending write.\<close>

definition on_data ::
  "platform \<Rightarrow> 's broker_if \<Rightarrow> (nat \<Rightarrow> io_result) \<Rightarrow> addr \<Rightarrow> char list \<Rightarrow> 's server \<Rightarrow>
     session_error + 's server" where
  "on_data pf B ws a bs sv =
     (case sv_obj sv a of
        None \<Rightarrow> Inl Not_armed
      | Some c \<Rightarrow>
          (case cl_io c of
             Read_some n \<Rightarrow>
               if length bs \<le> n
               then handleRead pf B ws (length bs) True a
                      (c\<lparr> cl_read := ab_store (ab_pos (cl_read c)) bs (cl_read c), cl_io := No_io \<rparr>) sv
               else Inl Not_armed
           | _ \<Rightarrow> Inl Not_armed))"

definition on_written ::
  "platform \<Rightarrow> 's broker_if \<Rightarrow> addr \<Rightarrow> nat \<Rightarrow> 's server \<Rightarrow> session_error + 's server" where
  "on_written pf B a n sv =
     (case sv_obj sv a of
        None \<Rightarrow> Inl Not_armed
      | Some c \<Rightarrow>
          (case cl_io c of
             Write_some data \<Rightarrow>
               if n \<le> length data
               then Inr (handleWrite pf B n True a
                      (c\<lparr> cl_sent := cl_sent c @ take n data, cl_io := No_io \<rparr>) sv)
               else Inl Not_armed
           | _ \<Rightarrow> Inl Not_armed))"

fun feed ::
  "platform \<Rightarrow> 's broker_if \<Rightarrow> (nat \<Rightarrow> io_result) \<Rightarrow> addr \<Rightarrow> char list list \<Rightarrow> 's server \<Rightarrow>
     session_error + 's server" where
  "feed pf B ws a [] sv = Inr sv"
| "feed pf B ws a (bs # bss) sv =
     (case on_data pf B ws a bs sv of Inl e \<Rightarrow> Inl e | Inr sv \<Rightarrow> feed pf B ws a bss sv)"

fun drain ::
  "platform \<Rightarrow> 's broker_if \<Rightarrow> addr \<Rightarrow> nat list \<Rightarrow> 's server \<Rightarrow> session_error + 's server" where
  "drain pf B a [] sv = Inr sv"
| "drain pf B a (n # ns) sv =
     (case on_written pf B a n sv of Inl e \<Rightarrow> Inl e | Inr sv \<Rightarrow> drain pf B a ns sv)"

section \<open>Reading a request\<close>

definition request_frame :: "int \<Rightarrow> char list \<Rightarrow> char list" where
  "request_frame cmd body = frame_header (int (length body)) cmd @ body"

text \<open>\<^verbatim>\<open>size_t\<close> has 32 bits at least and memory suffices.\<close>

definition session_platform :: "platform \<Rightarrow> bool" where
  "session_platform pf \<longleftrightarrow> 32 \<le> size_bits pf \<and> (\<forall>n. alloc pf n)"

lemma frame_length_eq:
  assumes "session_platform pf" "0 \<le> fr_size b" "fr_size b < 2 ^ 31"
  shows "frame_length pf b = nat (fr_size b) + sizeof_frame"
proof -
  have "fr_size b + 16 < 2 ^ 32" using assms(3) by simp
  also have "(2::int) ^ 32 \<le> 2 ^ size_bits pf"
    using assms(1) by (intro power_increasing) (auto simp: session_platform_def)
  finally have "(fr_size b + 16) mod 2 ^ size_bits pf = fr_size b + 16"
    using assms(2) by (intro mod_pos_pos_trivial) auto
  then show ?thesis using assms(2) by (simp add: frame_length_def sizeof_frame_def)
qed

text \<open>The sign of the size field is in its last byte.\<close>

lemma fr_size_bounds:
  assumes "8 \<le> length (ab_mem b)" "of_char (ab_mem b ! 7) < (128::nat)"
  shows "0 \<le> fr_size b" "fr_size b < 2 ^ 31"
proof -
  let ?m = "ab_mem b"
  have "drop 4 ?m = ?m ! 4 # ?m ! 5 # ?m ! 6 # ?m ! 7 # drop 8 ?m"
    using assms(1) Cons_nth_drop_Suc [of 4 ?m] Cons_nth_drop_Suc [of 5 ?m]
      Cons_nth_drop_Suc [of 6 ?m] Cons_nth_drop_Suc [of 7 ?m] by simp
  then have "take 4 (drop 4 ?m) = [?m ! 4, ?m ! 5, ?m ! 6, ?m ! 7]" by simp
  then have f: "ab_field 4 b = of_char (?m ! 4) + 256 * (of_char (?m ! 5) +
      256 * (of_char (?m ! 6) + 256 * of_char (?m ! 7)))"
    by (simp add: ab_field_def)
  have "x + 256 * (y + 256 * (z + 256 * u)) < 2147483648"
    if "x < 256" "y < 256" "z < 256" "u < 128" for x y z u :: nat
  proof -
    define p where "p = z + 256 * u"
    define q where "q = y + 256 * p"
    have "p \<le> 32767" using that(3,4) unfolding p_def by linarith
    then have "q \<le> 8388607" using that(2) unfolding q_def by linarith
    then have "x + 256 * q < 2147483648" using that(1) by linarith
    then show ?thesis by (simp only: p_def q_def)
  qed
  then have "ab_field 4 b < 2147483648"
    unfolding f using assms(2) by (simp only: nat_of_char_less_256)
  then show "0 \<le> fr_size b" "fr_size b < 2 ^ 31" by (simp_all add: fr_size_def as_int32_def)
qed

lemma le_bytes_4:
  "le_bytes 4 v = [char_of (v mod 256), char_of (v div 256 mod 256),
     char_of (v div 256 div 256 mod 256), char_of (v div 256 div 256 div 256 mod 256)]"
proof -
  have "(4::nat) = Suc (Suc (Suc (Suc 0)))" by simp
  then have "le_bytes 4 v = le_bytes (Suc (Suc (Suc (Suc 0)))) v" by (rule arg_cong)
  then show ?thesis by (simp only: le_bytes.simps)
qed

lemma request_frame_byte7:
  assumes "length body < 2 ^ 31"
  shows "of_char (request_frame cmd body ! 7) < (128::nat)"
proof -
  have "length body div 256 div 256 div 256 < 128"
    using assms by (simp add: div_mult2_eq [symmetric])
  moreover have "request_frame cmd body ! 7 = char_of (length body div 256 div 256 div 256 mod 256)"
  proof -
    have "nat (int (length body) mod 2 ^ 32) = length body" using assms by simp
    then show ?thesis
      by (simp only: request_frame_def frame_header_def le_bytes_4) simp
  qed
  ultimately show ?thesis by simp
qed

text \<open>
  The byte with the sign of the size, in the block in use and in the one the buffer returns to: the
  size is looked at before all of it has arrived.
\<close>

definition sign_clear :: "autobuffer \<Rightarrow> bool" where
  "sign_clear r \<longleftrightarrow>
     of_char (ab_mem r ! 7) < (128::nat) \<and> of_char (ab_internal r ! 7) < (128::nat)"

text \<open>A client that has read \<open>k\<close> bytes of a frame and waits for more.\<close>

definition reading :: "char list \<Rightarrow> nat \<Rightarrow> client \<Rightarrow> bool" where
  "reading frame k c \<longleftrightarrow>
     ab_wf (cl_read c) \<and> ab_pos (cl_read c) = k \<and>
     take k (ab_mem (cl_read c)) = take k frame \<and> sign_clear (cl_read c) \<and>
     (if k < sizeof_frame then cl_state c = Reading_header \<and> ab_capa (cl_read c) = ab_Size
      else cl_state c = Reading_body \<and> ab_capa (cl_read c) = max ab_Size (length frame)) \<and>
     cl_io c = Read_some (ab_capa (cl_read c) - k)"

lemma put_client_obj [simp]: "sv_obj (put_client a c sv) a = Some c"
  "put_client a c' (put_client a c sv) = put_client a c' sv"
  "sv_broker (put_client a c sv) = sv_broker sv" "sv_clients (put_client a c sv) = sv_clients sv"
  by (simp_all add: put_client_def)

lemma client_eval_put: "client_eval pf B ws a c (put_client a d sv) = client_eval pf B ws a c sv"
  unfolding client_eval_def put_client_obj ..

text \<open>The bytes of one read, stored behind what is there.\<close>

lemma store_piece:
  assumes "ab_wf r" "ab_pos r = k" "take k (ab_mem r) = take k frame"
    "sign_clear r" "of_char (frame ! 7) < (128::nat)"
    "bs = take (length bs) (drop k frame)" "k + length bs \<le> ab_capa r"
    "k + length bs \<le> length frame" "8 \<le> length frame"
  defines "r' \<equiv> ab_bump (length bs) (ab_store k bs r)"
  shows "ab_wf r'" "ab_pos r' = k + length bs" "ab_capa r' = ab_capa r"
    "take (k + length bs) (ab_mem r') = take (k + length bs) frame"
    "sign_clear r'"
proof -
  have l: "length (ab_mem r) = ab_capa r" "8 \<le> ab_capa r"
    using assms(1) by (simp_all add: ab_wf_def ab_Size_def)
  show "ab_wf r'"
    unfolding r'_def using assms(1,2,7) by (intro ab_bump_wf ab_store_wf) auto
  show "ab_pos r' = k + length bs" "ab_capa r' = ab_capa r"
    using assms(2) by (simp_all add: r'_def)
  have "take (k + length bs) (ab_mem r') = take k (ab_mem r) @ bs"
    unfolding r'_def using overwrite_append [of k bs "ab_mem r"] l(1) assms(7) by simp
  also have "\<dots> = take k frame @ take (length bs) (drop k frame)"
    using assms(3,6) by simp
  also have "\<dots> = take (k + length bs) frame" by (simp add: take_add)
  finally show t: "take (k + length bs) (ab_mem r') = take (k + length bs) frame" .
  have "of_char (ab_mem r' ! 7) < (128::nat)"
  proof (cases "7 < k + length bs")
    case True
    then have "ab_mem r' ! 7 = frame ! 7" using t by (metis nth_take)
    then show ?thesis using assms(5) by simp
  next
    case False
    then have "ab_mem r' ! 7 = ab_mem r ! 7"
      using l assms(7) by (auto simp: r'_def overwrite_def nth_append)
    then show ?thesis using assms(4) by (simp add: sign_clear_def)
  qed
  then show "sign_clear r'"
    using assms(4)
    by (auto simp: sign_clear_def r'_def ab_bump_def ab_store_def ab_mem_def split: option.splits)
qed

lemma reserve_keeps:
  assumes "ab_wf r" "alloc pf len"
  shows "\<exists>r'. ab_reserve pf len r = Some r' \<and> ab_wf r' \<and> ab_pos r' = ab_pos r \<and>
    ab_capa r' = max (ab_capa r) len \<and>
    (\<forall>n \<le> ab_capa r. take n (ab_mem r') = take n (ab_mem r)) \<and>
    (\<forall>i < ab_capa r. ab_mem r' ! i = ab_mem r ! i) \<and> ab_internal r' = ab_internal r"
proof -
  obtain r' where r': "ab_reserve pf len r = Some r'" "ab_wf r'" "ab_pos r' = ab_pos r"
    "take (ab_capa r) (ab_mem r') = ab_mem r" "ab_capa r' = max (ab_capa r) len"
    "ab_internal r' = ab_internal r"
    using ab_reserve_ok [OF assms] by blast
  have "take n (ab_mem r') = take n (ab_mem r)" if "n \<le> ab_capa r" for n
    unfolding r'(4) [symmetric] using that by (simp add: min_def)
  moreover have "ab_mem r' ! i = ab_mem r ! i" if "i < ab_capa r" for i
    unfolding r'(4) [symmetric] using that by simp
  ultimately show ?thesis using r' by blast
qed

lemma length_request_frame [simp]: "length (request_frame cmd body) = sizeof_frame + length body"
  by (simp add: request_frame_def)

lemma holds_request:
  assumes "take (sizeof_frame + length body) (ab_mem r) = request_frame cmd body"
  shows "holds_frame (int (length body)) cmd body r"
  using assms by (simp add: holds_frame_def request_frame_def)

lemma header_read:
  assumes "session_platform pf" "take k (ab_mem r) = take k (request_frame cmd body)"
    "sizeof_frame \<le> k" "length body < 2 ^ 31"
  shows "fr_magic r = SB_FRAME_MAGIC" "frame_length pf r = sizeof_frame + length body"
proof -
  have "take sizeof_frame (ab_mem r) = take sizeof_frame (request_frame cmd body)"
    using assms(2,3) by (metis min.absorb1 take_take)
  then have h: "holds_frame (int (length body)) cmd [] r"
    by (simp add: holds_frame_def request_frame_def)
  have "fr_size r = int (length body)"
    using holds_frame_fields(2) [OF h] assms(4) by simp
  then show "frame_length pf r = sizeof_frame + length body"
    using frame_length_eq [OF assms(1), of r] assms(4) by simp
  show "fr_magic r = SB_FRAME_MAGIC" using holds_frame_fields(1) [OF h] .
qed

text \<open>One read of a part of the frame: the request is evaluated when it is the last one.\<close>

lemma read_piece:
  assumes pf: "session_platform pf" and c: "reading frame k c" "sv_obj sv a = Some c"
    and frame: "frame = request_frame cmd body" "length body < 2 ^ 31"
    and bs: "bs = take (length bs) (drop k frame)" "k + length bs \<le> length frame"
      "k + length bs \<le> ab_capa (cl_read c)"
  shows "(k + length bs < length frame \<longrightarrow>
      (\<exists>c'. on_data pf B ws a bs sv = Inr (put_client a c' sv) \<and> reading frame (k + length bs) c' \<and>
        cl_write c' = cl_write c \<and> cl_sent c' = cl_sent c)) \<and>
    (k + length bs = length frame \<longrightarrow>
      (\<exists>c'. on_data pf B ws a bs sv = client_eval pf B ws a c' sv \<and> ab_wf (cl_read c') \<and>
        sign_clear (cl_read c') \<and> holds_frame (int (length body)) cmd body (cl_read c') \<and> cl_write c' = cl_write c \<and>
        cl_sent c' = cl_sent c))"
proof -
  let ?r = "ab_bump (length bs) (ab_store k bs (cl_read c))"
  let ?c = "c\<lparr> cl_read := ab_store k bs (cl_read c), cl_io := No_io \<rparr>"
  have r: "ab_wf (cl_read c)" "ab_pos (cl_read c) = k"
    "take k (ab_mem (cl_read c)) = take k frame" "sign_clear (cl_read c)"
    using c(1) by (simp_all add: reading_def)
  have f7: "of_char (frame ! 7) < (128::nat)" "8 \<le> length frame"
    using request_frame_byte7 [OF frame(2)] frame(1) by (simp_all add: sizeof_frame_def)
  note p = store_piece [OF r f7(1) bs(1,3,2) f7(2)]
  have go: "on_data pf B ws a bs sv = handleRead pf B ws (length bs) True a ?c sv"
  proof -
    have "length bs \<le> ab_capa (cl_read c) - k" using bs(3) by simp
    then show ?thesis using c r(2) by (simp add: on_data_def reading_def)
  qed
  show ?thesis
  proof (cases "k + length bs < sizeof_frame")
    case True
    then have k: "k < sizeof_frame" by simp
    have "8 \<le> length (ab_mem ?r)" using p(1) by (auto simp: ab_wf_def ab_Size_def)
    from fr_size_bounds [OF this] p(5) have "sizeof_frame \<le> frame_length pf ?r"
      using frame_length_eq [OF pf] by (simp add: sign_clear_def)
    then have "check_complete pf B ws a (?c\<lparr> cl_read := ?r \<rparr>) sv =
        Inr (client_arm pf B a (?c\<lparr> cl_read := ?r \<rparr>) sv)"
      using True r(2) by (simp add: check_complete_def)
    then have "on_data pf B ws a bs sv = Inr (client_arm pf B a (?c\<lparr> cl_read := ?r \<rparr>) sv)"
      unfolding go using c(1) k True r(2) by (simp add: handleRead_def reading_def Let_def)
    then show ?thesis
      using c(1) k True p frame(1)
      by (auto simp: client_arm_def reading_def ab_Size_def sizeof_frame_def)
  next
    case False
    note h = header_read [OF pf, of "k + length bs" ?r cmd body]
    have h: "fr_magic ?r = SB_FRAME_MAGIC" "frame_length pf ?r = length frame"
      using h p(4) False frame by simp_all
    obtain r2 where r2: "ab_wf r2" "ab_pos r2 = k + length bs"
      "ab_capa r2 = max ab_Size (length frame)"
      "take (k + length bs) (ab_mem r2) = take (k + length bs) frame"
      "sign_clear r2"
      "on_data pf B ws a bs sv =
         check_complete pf B ws a (?c\<lparr> cl_read := r2, cl_state := Reading_body \<rparr>) sv"
    proof (cases "k < sizeof_frame")
      case True
      have "alloc pf (length frame)" using pf by (simp add: session_platform_def)
      from reserve_keeps [OF p(1) this] obtain r2 where r2: "ab_reserve pf (length frame) ?r = Some r2"
        "ab_wf r2" "ab_pos r2 = ab_pos ?r" "ab_capa r2 = max (ab_capa ?r) (length frame)"
        "\<And>n. n \<le> ab_capa ?r \<Longrightarrow> take n (ab_mem r2) = take n (ab_mem ?r)"
        "\<And>i. i < ab_capa ?r \<Longrightarrow> ab_mem r2 ! i = ab_mem ?r ! i" "ab_internal r2 = ab_internal ?r"
        by blast
      have capa: "ab_capa ?r = ab_Size" using c(1) True by (simp add: reading_def)
      then have "7 < ab_capa ?r" by (simp add: ab_Size_def)
      with r2(5,6) have "take (k + length bs) (ab_mem r2) = take (k + length bs) frame"
        "ab_mem r2 ! 7 = ab_mem ?r ! 7"
        using p(3,4) bs(3) by (simp_all only:)
      moreover have "on_data pf B ws a bs sv =
         check_complete pf B ws a (?c\<lparr> cl_read := r2, cl_state := Reading_body \<rparr>) sv"
        unfolding go using c(1) True False p(2) h r2(1) by (simp add: handleRead_def reading_def Let_def)
      ultimately show ?thesis using that r2(2,3,4,7) p(2,5) capa by (simp add: sign_clear_def)
    next
      case False
      then have st: "cl_state c = Reading_body" using c(1) by (simp add: reading_def)
      then have same: "c\<lparr> cl_io := x, cl_read := y, cl_state := Reading_body \<rparr> =
          c\<lparr> cl_io := x, cl_read := y \<rparr>" for x y
        by (cases c) simp
      show ?thesis
        using that [of ?r] p c(1) st False r(2) unfolding go
        by (simp add: handleRead_def reading_def same)
    qed
    have "frame_length pf r2 = length frame"
      using header_read(2) [OF pf, of "k + length bs" r2 cmd body] r2(4) False frame by simp
    then show ?thesis
      using r2 False frame holds_request [of body r2 cmd]
      by (auto simp: check_complete_def client_arm_def reading_def ab_Size_def)
  qed
qed

text \<open>How a frame may be split: pieces that are not empty and that the pending read has room for.\<close>

fun fits :: "nat \<Rightarrow> nat \<Rightarrow> char list list \<Rightarrow> bool" where
  "fits n k [] = True"
| "fits n k (bs # bss) \<longleftrightarrow>
     bs \<noteq> [] \<and> k + length bs \<le> (if k < sizeof_frame then ab_Size else max ab_Size n) \<and>
     fits n (k + length bs) bss"

lemma feed_frame:
  assumes "session_platform pf" "reading (request_frame cmd body) k c" "sv_obj sv a = Some c"
    "length body < 2 ^ 31" "concat bss = drop k (request_frame cmd body)"
    "fits (length (request_frame cmd body)) k bss" "k < length (request_frame cmd body)"
  shows "\<exists>c'. feed pf B ws a bss sv = client_eval pf B ws a c' sv \<and> ab_wf (cl_read c') \<and>
    sign_clear (cl_read c') \<and> holds_frame (int (length body)) cmd body (cl_read c') \<and>
    cl_write c' = cl_write c \<and> cl_sent c' = cl_sent c"
  using assms(2-7)
proof (induction bss arbitrary: k c sv)
  case Nil
  then show ?case by simp
next
  case (Cons bs bss)
  let ?f = "request_frame cmd body"
  have d: "drop k ?f = bs @ concat bss" using Cons.prems(4) by simp
  then have bs: "bs = take (length bs) (drop k ?f)" by simp
  have len: "length ?f = k + length bs + length (concat bss)"
    using arg_cong [OF d, of length] Cons.prems(6) by simp
  have "k + length bs \<le> ab_capa (cl_read c)"
    using Cons.prems(1,5) by (auto simp: reading_def split: if_splits)
  note p = read_piece [OF assms(1) Cons.prems(1,2) refl Cons.prems(3) bs _ this, of B ws]
  show ?case
  proof (cases "concat bss = []")
    case True
    then have "bss = []" using Cons.prems(5) by (cases bss) auto
    then show ?thesis using p len True by (auto split: sum.splits)
  next
    case False
    then have l: "k + length bs < length ?f" using len by simp
    then obtain c' where c': "on_data pf B ws a bs sv = Inr (put_client a c' sv)"
      "reading ?f (k + length bs) c'" "cl_write c' = cl_write c" "cl_sent c' = cl_sent c"
      using p by auto
    have "concat bss = drop (k + length bs) ?f"
      using d by (metis add.commute append_eq_conv_conj drop_drop)
    from Cons.IH [OF c'(2) put_client_obj(1) Cons.prems(3) this _ l] Cons.prems(5) c'
    show ?thesis by (auto simp: client_eval_put)
  qed
qed

section \<open>Writing the response\<close>

text \<open>The frame a request is answered with.\<close>

definition response_parts :: "answer \<Rightarrow> int \<times> char list" where
  "response_parts ans =
     (case ans of
        Answer retval anc data \<Rightarrow>
          (case data of
             None \<Rightarrow> (retval, if retval \<le> status_code FNDOK then concat anc else [])
           | Some d \<Rightarrow> (retval, d))
      | _ \<Rightarrow> (status_code FNDUnknownCommand, []))"

definition response_frame :: "answer \<Rightarrow> char list" where
  "response_frame ans =
     (let (retval, body) = response_parts ans in frame_header (int (length body)) retval @ body)"

definition plain_answer :: "answer \<Rightarrow> bool" where
  "plain_answer ans =
     (case ans of Answer retval anc data \<Rightarrow> anc = [] \<or> data = None | Not_found \<Rightarrow> True
      | Defer_answer \<Rightarrow> False)"

lemma holds_frame_prefix: "holds_frame sz val (body @ bs) b \<Longrightarrow> holds_frame sz val body b"
proof -
  assume "holds_frame sz val (body @ bs) b"
  then have "take (sizeof_frame + length body) (take (sizeof_frame + length (body @ bs)) (ab_mem b)) =
      take (sizeof_frame + length body) (frame_header sz val @ body @ bs)"
    by (simp add: holds_frame_def)
  then show ?thesis by (simp add: holds_frame_def)
qed

lemma writeAncillary_holds:
  assumes "session_platform pf" "ab_wf b" "holds_frame sz val body b"
    "sizeof_frame + length body \<le> length (ab_mem b)"
  shows "\<exists>b'. smc_writeAncillaryData pf anc (length body) b =
      Some (length body + length (concat anc), b') \<and> ab_wf b' \<and>
    holds_frame sz val (body @ concat anc) b' \<and>
    sizeof_frame + length (body @ concat anc) \<le> length (ab_mem b')"
  using assms(2-4)
proof (induction anc arbitrary: body b)
  case Nil
  then show ?case by simp
next
  case (Cons x anc)
  have "alloc pf (length x + (length body + sizeof_frame))"
    using assms(1) by (simp add: session_platform_def)
  from ab_write_holds [OF Cons.prems(1,2) this Cons.prems(3)] obtain b1 where b1:
    "ab_write pf x (length body + sizeof_frame) b = Some b1" "ab_wf b1"
    "holds_frame sz val (body @ x) b1" "sizeof_frame + length (body @ x) \<le> length (ab_mem b1)"
    by auto
  from Cons.IH [OF b1(2-4)] b1(1) show ?case by (auto simp: ac_simps)
qed

lemma fill_response_holds:
  assumes "session_platform pf" "ab_wf b" "plain_answer ans" "response_parts ans = (val, body)"
  shows "\<exists>b'. fill_response pf ans
      (INIT_RESPONSE_FRAME 0 (status_code FNDUnknownCommand) b) = Some b' \<and> ab_wf b' \<and>
    holds_frame (int (length body)) val body b'"
proof -
  let ?b = "INIT_RESPONSE_FRAME 0 (status_code FNDUnknownCommand) b"
  note i = INIT_RESPONSE_FRAME_holds [OF assms(2), of 0 "status_code FNDUnknownCommand"]
  have cap: "sizeof_frame \<le> length (ab_mem b')" if "ab_wf b'" for b'
    using that by (simp add: ab_wf_def ab_Size_def sizeof_frame_def)
  show ?thesis
  proof (cases ans)
    case (Answer r anc data)
    show ?thesis
    proof (cases data)
      case None
      from writeAncillary_holds [OF assms(1) i(2,1), of anc] cap [OF i(2)] obtain b1 where b1:
        "smc_writeAncillaryData pf anc 0 ?b = Some (length (concat anc), b1)" "ab_wf b1"
        "holds_frame 0 (status_code FNDUnknownCommand) (concat anc) b1"
        "sizeof_frame + length (concat anc) \<le> length (ab_mem b1)"
        by auto
      note s = set_response_holds [OF b1(2,3,4)]
      have "holds_frame (int (length body)) r body (smc_prepareResponse r (length (concat anc)) b1)"
        using s(1) [of "int (length (concat anc))" r] s(1) [of 0 r]
          holds_frame_prefix [of 0 r "[]" "concat anc" "set_response 0 r b1"] assms(4) Answer None
        by (cases "concat anc = []") (auto simp: smc_prepareResponse_def response_parts_def
            split: if_splits simp del: concat_eq_Nil_conv)
      then show ?thesis
        using Answer None b1(1) s(2) assms(4)
        by (auto simp: fill_response_def smc_prepareResponse_def response_parts_def)
    next
      case (Some d)
      then have d: "anc = []" "body = d" "val = r"
        using assms(3,4) Answer by (auto simp: plain_answer_def response_parts_def)
      note s = set_response_holds [OF i(2,1), of "int (length d)" r]
      have "alloc pf (length d + (length [] + sizeof_frame))"
        using assms(1) by (simp add: session_platform_def)
      from ab_write_holds [OF s(2,1) this] cap [OF i(2)] cap [OF s(2)] show ?thesis
        using Answer Some d by (auto simp: fill_response_def smc_prepareResponse_data_def)
    qed
  qed (use i assms(3,4) in \<open>auto simp: fill_response_def response_parts_def plain_answer_def\<close>)
qed

text \<open>A client between two requests.\<close>

definition session_ready :: "client \<Rightarrow> bool" where
  "session_ready c \<longleftrightarrow>
     cl_state c = Reading_header \<and> ab_wf (cl_read c) \<and> ab_pos (cl_read c) = 0 \<and>
     ab_capa (cl_read c) = ab_Size \<and> sign_clear (cl_read c) \<and> ab_wf (cl_write c) \<and>
     cl_io c = Read_some ab_Size"

text \<open>A client that has a response in its write buffer, and the same with \<open>j\<close> bytes written.\<close>

definition answering :: "int \<Rightarrow> char list \<Rightarrow> client \<Rightarrow> bool" where
  "answering val body c \<longleftrightarrow>
     ab_wf (cl_write c) \<and> holds_frame (int (length body)) val body (cl_write c) \<and>
     length body < 2 ^ 31 \<and> ab_wf (cl_read c) \<and> ab_pos (cl_read c) = 0 \<and>
     ab_capa (cl_read c) = ab_Size \<and> sign_clear (cl_read c)"

definition writing :: "int \<Rightarrow> char list \<Rightarrow> nat \<Rightarrow> client \<Rightarrow> bool" where
  "writing val body j c \<longleftrightarrow>
     answering val body c \<and> cl_state c = Writing \<and> ab_pos (cl_write c) = j \<and>
     cl_io c = Write_some (drop j (frame_header (int (length body)) val @ body))"

lemma ready_reading: "session_ready c \<Longrightarrow> reading frame 0 c"
  by (simp add: session_ready_def reading_def sizeof_frame_def)

lemma answering_frame:
  assumes "session_platform pf" "answering val body c"
  shows "frame_length pf (cl_write c) = sizeof_frame + length body"
    "take (sizeof_frame + length body - j) (drop j (ab_mem (cl_write c))) =
       drop j (frame_header (int (length body)) val @ body)"
proof -
  have h: "holds_frame (int (length body)) val body (cl_write c)" "length body < 2 ^ 31"
    using assms(2) by (simp_all add: answering_def)
  then show "frame_length pf (cl_write c) = sizeof_frame + length body"
    using holds_frame_fields(2) [OF h(1)] frame_length_eq [OF assms(1), of "cl_write c"] by simp
  show "take (sizeof_frame + length body - j) (drop j (ab_mem (cl_write c))) =
       drop j (frame_header (int (length body)) val @ body)"
    using h(1) by (metis drop_take holds_frame_def)
qed

text \<open>Waiting for the socket to take the rest of the response.\<close>

lemma arm_writing:
  assumes "session_platform pf" "answering val body c" "cl_state c = Writing"
    "ab_pos (cl_write c) = j"
  shows "\<exists>c'. client_arm pf B a c sv = put_client a c' sv \<and> writing val body j c' \<and>
    cl_sent c' = cl_sent c"
  using assms answering_frame [OF assms(1,2)]
  by (intro exI [of _ "c\<lparr> cl_io := Write_some (drop j (frame_header (int (length body)) val @ body)) \<rparr>"])
    (simp add: client_arm_def writing_def answering_def)

lemma arm_ready:
  assumes "answering val body c" "cl_read d = cl_read c" "cl_state d = Reading_header"
    "ab_wf (cl_write d)"
  shows "\<exists>c'. client_arm pf B a d sv = put_client a c' sv \<and> session_ready c' \<and>
    cl_sent c' = cl_sent d"
  using assms
  by (intro exI [of _ "d\<lparr> cl_io := Read_some ab_Size \<rparr>"])
    (simp add: client_arm_def session_ready_def answering_def ab_Size_def)

lemma answering_bump:
  assumes "answering val body c" "ab_pos (cl_write c) + n \<le> sizeof_frame + length body"
  shows "answering val body (c\<lparr> cl_write := ab_bump n (cl_write c), cl_state := st, cl_sent := x \<rparr>)"
proof -
  have "sizeof_frame + length body \<le> length (ab_mem (cl_write c))"
  proof -
    have "length (take (sizeof_frame + length body) (ab_mem (cl_write c))) = sizeof_frame + length body"
      using assms(1) by (simp add: answering_def holds_frame_def)
    then show ?thesis by simp
  qed
  then have "ab_wf (ab_bump n (cl_write c))"
    using assms by (intro ab_bump_wf) (auto simp: answering_def ab_wf_def)
  then show ?thesis using assms(1) by (simp add: answering_def holds_frame_def)
qed

lemma written_piece:
  assumes "session_platform pf" "writing val body j c" "sv_obj sv a = Some c" "0 < n"
    "j + n \<le> sizeof_frame + length body"
  shows "\<exists>c'. on_written pf B a n sv = Inr (put_client a c' sv) \<and>
    cl_sent c' = cl_sent c @ take n (drop j (frame_header (int (length body)) val @ body)) \<and>
    (if j + n = sizeof_frame + length body then session_ready c' else writing val body (j + n) c')"
proof -
  let ?f = "frame_header (int (length body)) val @ body"
  let ?d = "c\<lparr> cl_sent := cl_sent c @ take n (drop j ?f), cl_io := No_io \<rparr>"
  let ?w = "ab_bump n (cl_write c)"
  have ans: "answering val body c" "cl_state c = Writing" "ab_pos (cl_write c) = j"
    using assms(2) by (simp_all add: writing_def)
  have go: "on_written pf B a n sv = Inr (handleWrite pf B n True a ?d sv)"
    using assms(2,3,5) by (auto simp: on_written_def writing_def)
  have ansd: "answering val body ?d" using ans(1) by (simp add: answering_def)
  have answ: "answering val body (?d\<lparr> cl_write := ?w \<rparr>)"
    using answering_bump [OF ansd, where n = n and st = "cl_state ?d" and x = "cl_sent ?d"] ans(3) assms(5)
    by (simp add: answering_def)
  have len: "frame_length pf ?w = sizeof_frame + length body"
    using answering_frame(1) [OF assms(1) answ] by simp
  show ?thesis
  proof (cases "j + n = sizeof_frame + length body")
    case True
    have "ab_wf (ab_reset ?w)" using answ by (intro ab_reset_wf) (simp add: answering_def)
    with arm_ready [OF ans(1), of "?d\<lparr> cl_state := Reading_header, cl_write := ab_reset ?w \<rparr>" pf B a sv]
      True len ans(3) show ?thesis
      unfolding go handleWrite_def by (auto simp: Let_def)
  next
    case False
    from arm_writing [OF assms(1) answ, of "j + n" B a sv] False len ans show ?thesis
      unfolding go handleWrite_def by (auto simp: Let_def)
  qed
qed

lemma drain_frame:
  assumes "session_platform pf" "writing val body j c" "sv_obj sv a = Some c"
    "j + sum_list ns = sizeof_frame + length body" "list_all (\<lambda>n. 0 < n) ns"
    "j < sizeof_frame + length body"
  shows "\<exists>c'. drain pf B a ns sv = Inr (put_client a c' sv) \<and> session_ready c' \<and>
    cl_sent c' = cl_sent c @ drop j (frame_header (int (length body)) val @ body)"
  using assms(2-6)
proof (induction ns arbitrary: j c sv)
  case Nil
  then show ?case by simp
next
  case (Cons n ns)
  let ?f = "frame_header (int (length body)) val @ body"
  have n: "0 < n" "j + n \<le> sizeof_frame + length body" using Cons.prems(3,4) by auto
  from written_piece [OF assms(1) Cons.prems(1,2) n, of B] obtain c1 where c1:
    "on_written pf B a n sv = Inr (put_client a c1 sv)"
    "cl_sent c1 = cl_sent c @ take n (drop j ?f)"
    "if j + n = sizeof_frame + length body then session_ready c1 else writing val body (j + n) c1"
    by blast
  show ?case
  proof (cases "j + n = sizeof_frame + length body")
    case True
    then have "ns = []" using Cons.prems(3,4) by (cases ns) auto
    then show ?thesis using c1 True by (intro exI [of _ c1]) simp
  next
    case False
    have "take n (drop j ?f) @ drop (j + n) ?f = drop j ?f"
      by (metis add.commute append_take_drop_id drop_drop)
    then show ?thesis
      using Cons.IH [of "j + n" c1 "put_client a c1 sv"] c1 False Cons.prems(3,4) n by auto
  qed
qed

section \<open>The whole cycle\<close>

text \<open>How the socket takes a response: at once, in part, or later, then in the pieces \<open>ns\<close>.\<close>

definition socket_takes :: "(nat \<Rightarrow> io_result) \<Rightarrow> nat \<Rightarrow> nat list \<Rightarrow> bool" where
  "socket_takes ws len ns \<longleftrightarrow>
     list_all (\<lambda>n. 0 < n) ns \<and>
     (case ws len of Wrote m \<Rightarrow> m + sum_list ns = len | Would_block \<Rightarrow> sum_list ns = len
      | Io_failed \<Rightarrow> False)"

lemma put_client_broker:
  "put_client a c ((put_client a d sv)\<lparr> sv_broker := br \<rparr>) = (put_client a c sv)\<lparr> sv_broker := br \<rparr>"
  by (simp add: put_client_def)

lemma sum_list_pos: "list_all (\<lambda>n. 0 < n) ns \<Longrightarrow> sum_list ns = (0::nat) \<Longrightarrow> ns = []"
  by (cases ns) auto

lemma evaluate_drain:
  assumes "session_platform pf" "answering val body c" "ab_pos (cl_write c) = 0"
    "socket_takes ws (sizeof_frame + length body) ns"
  shows "\<exists>c'. drain pf B a ns (evaluateWriteResult pf B ws a c sv) = Inr (put_client a c' sv) \<and>
    session_ready c' \<and> cl_sent c' = cl_sent c @ frame_header (int (length body)) val @ body"
proof -
  let ?f = "frame_header (int (length body)) val @ body" and ?n = "sizeof_frame + length body"
  have ns: "list_all (\<lambda>n. 0 < n) ns" using assms(4) by (simp add: socket_takes_def)
  have fl: "frame_length pf (cl_write c) = ?n" "take ?n (drop 0 (ab_mem (cl_write c))) = ?f"
    using answering_frame [OF assms(1,2)] answering_frame(2) [OF assms(1,2), of 0] by simp_all
  have fin: "\<exists>c'. drain pf B a ns (put_client a d sv) = Inr (put_client a c' sv) \<and> session_ready c' \<and>
      cl_sent c' = cl_sent d @ drop j ?f"
    if "writing val body j d" "j + sum_list ns = ?n" "j < ?n" for j d
    using drain_frame [OF assms(1) that(1) put_client_obj(1) that(2) ns that(3), of B a sv] by simp
  show ?thesis
  proof (cases "ws ?n")
    case (Wrote m)
    let ?c = "c\<lparr> cl_sent := cl_sent c @ take m ?f \<rparr>"
    have m: "m + sum_list ns = ?n" using assms(4) Wrote by (simp add: socket_takes_def)
    have ansc: "answering val body ?c" using assms(2) by (simp add: answering_def)
    show ?thesis
    proof (cases "m < ?n")
      case True
      let ?d = "?c\<lparr> cl_write := ab_bump m (cl_write c), cl_state := Writing \<rparr>"
      have "answering val body ?d"
        using answering_bump [OF ansc, where n = m and st = Writing and x = "cl_sent ?c"] assms(3) True
        by (simp add: answering_def)
      from arm_writing [OF assms(1) this, of m B a sv] assms(3) obtain c1 where c1:
        "client_arm pf B a ?d sv = put_client a c1 sv" "writing val body m c1"
        "cl_sent c1 = cl_sent c @ take m ?f" by auto
      have "evaluateWriteResult pf B ws a c sv = put_client a c1 sv"
        using Wrote fl True assms(3) c1(1) by (simp add: evaluateWriteResult_def Let_def)
      then show ?thesis
        using fin [OF c1(2) m True] c1(3)
        by (metis append.assoc append_take_drop_id)
    next
      case False
      then have "sum_list ns = 0" "m = ?n" using m by linarith+
      then have z: "ns = []" "m = ?n" using sum_list_pos [OF ns] by blast+
      let ?d = "?c\<lparr> cl_write := ab_reset (cl_write c), cl_state := Reading_header \<rparr>"
      have "ab_wf (ab_reset (cl_write c))" using assms(2) by (intro ab_reset_wf) (simp add: answering_def)
      with arm_ready [OF assms(2), of ?d pf B a sv] obtain c1 where
        "client_arm pf B a ?d sv = put_client a c1 sv" "session_ready c1"
        "cl_sent c1 = cl_sent c @ ?f" using z(2) by auto
      moreover from this have "evaluateWriteResult pf B ws a c sv = put_client a c1 sv"
        using Wrote fl False assms(3) by (simp add: evaluateWriteResult_def Let_def z(2))
      ultimately show ?thesis using z by (intro exI [of _ c1]) simp
    qed
  next
    case Would_block
    have "answering val body (c\<lparr> cl_state := Writing \<rparr>)" using assms(2) by (simp add: answering_def)
    from arm_writing [OF assms(1) this, of 0 B a sv] assms(3) obtain c1 where c1:
      "client_arm pf B a (c\<lparr> cl_state := Writing \<rparr>) sv = put_client a c1 sv"
      "writing val body 0 c1" "cl_sent c1 = cl_sent c" by auto
    then show ?thesis
      using fin [OF c1(2)] assms(4) Would_block fl
      by (simp add: evaluateWriteResult_def socket_takes_def sizeof_frame_def)
  next
    case Io_failed
    then show ?thesis using assms(4) by (simp add: socket_takes_def)
  qed
qed

text \<open>Evaluating a request that is not the first ping of a slave.\<close>

lemma eval_answers:
  assumes "session_platform pf" "holds_frame (int (length body)) cmd body (cl_read c)"
    "ab_wf (cl_read c)" "sign_clear (cl_read c)" "ab_wf (cl_write c)" "length body < 2 ^ 31"
    "nat (cmd mod 2 ^ 32) \<noteq> ping_id_command"
    "bi_dispatch B a (nat (cmd mod 2 ^ 32)) body (sv_broker sv) = (ans, br)" "plain_answer ans"
    "response_parts ans = (val, rbody)" "length rbody < 2 ^ 31"
    and that: "fill_response pf ans
      (INIT_RESPONSE_FRAME 0 (status_code FNDUnknownCommand) (cl_write c)) = Some w"
    "ab_wf w" "holds_frame (int (length rbody)) val rbody w"
  shows "\<exists>c'. client_eval pf B ws a c sv =
      Inr (evaluateWriteResult pf B ws a c' ((put_client a (c\<lparr> cl_write := w \<rparr>) sv)\<lparr> sv_broker := br \<rparr>)) \<and>
    answering val rbody c' \<and> ab_pos (cl_write c') = 0 \<and> cl_sent c' = cl_sent c"
proof -
  have sz: "fr_size (cl_read c) = int (length body)" "fr_cmd (cl_read c) = nat (cmd mod 2 ^ 32)"
    using holds_frame_fields [OF assms(2)] assms(6) by simp_all
  have "take (sizeof_frame + length body) (ab_mem (cl_read c)) =
      frame_header (int (length body)) cmd @ body"
    using assms(2) by (simp add: holds_frame_def)
  then have "drop sizeof_frame (take (sizeof_frame + length body) (ab_mem (cl_read c))) = body"
    by simp
  then have body: "take (length body) (drop sizeof_frame (ab_mem (cl_read c))) = body"
    by (simp add: drop_take)
  have nd: "ans \<noteq> Defer_answer" using assms(9) by (auto simp: plain_answer_def)
  let ?c = "c\<lparr> cl_read := ab_reset (cl_read c), cl_write := ab_set 0 w \<rparr>"
  have "answering val rbody ?c"
    using that assms(3,4,11) ab_set_wf [OF that(2), of 0] ab_reset_wf [OF assms(3)]
    by (simp add: answering_def holds_frame_def sign_clear_def)
      (simp add: ab_reset_def)
  moreover have "client_eval pf B ws a c sv = Inr (evaluateWriteResult pf B ws a ?c
      ((put_client a (c\<lparr> cl_write := w \<rparr>) sv)\<lparr> sv_broker := br \<rparr>))"
    using that(1) assms(7,8) nd sz body by (simp add: client_eval_def Let_def)
  ultimately show ?thesis by (intro exI [of _ ?c]) simp
qed

lemma request_answered:
  assumes "session_platform pf" "sv_obj sv a = Some c" "session_ready c" "length body < 2 ^ 31"
    "nat (cmd mod 2 ^ 32) \<noteq> ping_id_command"
    "bi_dispatch B a (nat (cmd mod 2 ^ 32)) body (sv_broker sv) = (ans, br)" "plain_answer ans"
    "response_parts ans = (val, rbody)" "length rbody < 2 ^ 31"
    "concat bss = request_frame cmd body" "fits (length (request_frame cmd body)) 0 bss"
    "socket_takes ws (length (response_frame ans)) ns"
  shows "\<exists>sv1 c'. feed pf B ws a bss sv = Inr sv1 \<and>
    drain pf B a ns sv1 = Inr ((put_client a c' sv)\<lparr> sv_broker := br \<rparr>) \<and> session_ready c' \<and>
    cl_sent c' = cl_sent c @ response_frame ans"
proof -
  have "ab_wf (cl_write c)" using assms(3) by (simp add: session_ready_def)
  from feed_frame [OF assms(1) ready_reading [OF assms(3)] assms(2,4), of bss cmd B ws] assms(10,11)
  obtain c1 where c1: "feed pf B ws a bss sv = client_eval pf B ws a c1 sv" "ab_wf (cl_read c1)"
    "sign_clear (cl_read c1)" "holds_frame (int (length body)) cmd body (cl_read c1)"
    "cl_write c1 = cl_write c" "cl_sent c1 = cl_sent c"
    by (auto simp: sizeof_frame_def)
  from fill_response_holds [OF assms(1) \<open>ab_wf (cl_write c)\<close> assms(7,8)] obtain w where w:
    "fill_response pf ans (INIT_RESPONSE_FRAME 0 (status_code FNDUnknownCommand) (cl_write c1)) = Some w"
    "ab_wf w" "holds_frame (int (length rbody)) val rbody w"
    using c1(5) by auto
  have "ab_wf (cl_write c1)" using c1(5) \<open>ab_wf (cl_write c)\<close> by simp
  from eval_answers [OF assms(1) c1(4,2,3) this assms(4-9) w] obtain c2 where c2:
    "client_eval pf B ws a c1 sv = Inr (evaluateWriteResult pf B ws a c2
      ((put_client a (c1\<lparr> cl_write := w \<rparr>) sv)\<lparr> sv_broker := br \<rparr>))"
    "answering val rbody c2" "ab_pos (cl_write c2) = 0" "cl_sent c2 = cl_sent c1" by blast
  have f: "response_frame ans = frame_header (int (length rbody)) val @ rbody"
    using assms(8) by (simp add: response_frame_def)
  with assms(12) have "socket_takes ws (sizeof_frame + length rbody) ns" by simp
  from evaluate_drain [OF assms(1) c2(2,3) this] c1(1,6) c2(1,4) f show ?thesis
    by (metis put_client_broker)
qed

section \<open>Closing\<close>

text \<open>A frame that does not start with the magic number closes the connection.\<close>

lemma wrong_magic_closes:
  assumes "cl_state c = Reading_header" "sizeof_frame \<le> ab_pos (cl_read c) + n"
    "fr_magic (ab_bump n (cl_read c)) \<noteq> SB_FRAME_MAGIC"
  shows "handleRead pf B ws n True a c sv = Inr (delete_client B a sv)"
  using assms by (simp add: handleRead_def Let_def)

text \<open>Closing takes the object and the broker's data of the connection away, and only those.\<close>

lemma delete_client_effect:
  "sv_obj (delete_client B a sv) = (sv_obj sv)(a := None)"
  "a \<notin> set (sv_clients (delete_client B a sv))"
  "sv_broker (delete_client B a sv) = bi_clear B a (sv_broker sv)"
  by (simp_all add: delete_client_def sv_removeClient_def Let_def)

text \<open>The deferred response of a request that the master has answered.\<close>

lemma deferred_answer_written:
  assumes "session_platform pf" "cl_state c = Deferred" "ab_wf (cl_write c)" "ab_wf (cl_read c)"
    "sign_clear (cl_read c)" "retval \<le> status_code FNDOK" "length data < 2 ^ 31"
  shows "\<exists>c'. sendDeferredResponse pf B 0 retval data a c sv = Inr (put_client a c' sv) \<and>
    writing retval data 0 c' \<and> cl_sent c' = cl_sent c"
proof -
  let ?i = "INIT_RESPONSE_FRAME (int (length data)) retval"
  have "alloc pf (length data + sizeof_frame)" using assms(1) by (simp add: session_platform_def)
  from reserve_keeps [OF assms(3) this] obtain b1 where b1:
    "ab_reserve pf (length data + sizeof_frame) (cl_write c) = Some b1" "ab_wf b1"
    "ab_capa b1 = max (ab_capa (cl_write c)) (length data + sizeof_frame)" by blast
  let ?w = "ab_store sizeof_frame data b1"
  have wfw: "ab_wf ?w" using b1(2,3) by (intro ab_store_wf) auto
  have "holds_frame (int (length data)) retval data (?i ?w)"
    using b1(2,3)
    by (simp add: holds_frame_def INIT_RESPONSE_FRAME_def overwrite_def ab_wf_def ab_Size_def
        sizeof_frame_def)
  then have "answering retval data
      (c\<lparr> cl_read := ab_reset (cl_read c), cl_write := ab_set 0 (?i ?w), cl_state := Writing \<rparr>)"
    using assms(4,5,7) ab_reset_wf [OF assms(4)]
      ab_set_wf [OF INIT_RESPONSE_FRAME_holds(2) [OF wfw], of 0 "int (length data)" retval]
    by (simp add: answering_def holds_frame_def sign_clear_def) (simp add: ab_reset_def)
  from arm_writing [OF assms(1) this, of 0 B a sv] show ?thesis
    using assms(2,6) b1(1) by (simp add: sendDeferredResponse_def ab_write_def)
qed

section \<open>Where the session goes wrong\<close>

text \<open>
  A second ping with an id on one connection: the client is in the list under that id, is deleted
  as a dangling one, and is then added to the list again.
\<close>

lemma second_ping_frees:
  assumes "session_platform pf" "ab_wf (cl_write c)" "fr_cmd (cl_read c) = ping_id_command"
    "bi_dispatch B a ping_id_command
       (take (nat (fr_size (cl_read c))) (drop sizeof_frame (ab_mem (cl_read c)))) (sv_broker sv) =
     (Answer 0 [] None, br)" "bi_extendedID B br a \<noteq> 0" "sv_clients sv = [a]"
  shows "client_eval pf B ws a c sv = Inl Use_after_free"
proof -
  obtain w where "fill_response pf (Answer 0 [] None)
      (INIT_RESPONSE_FRAME 0 (status_code FNDUnknownCommand) (cl_write c)) = Some w"
    using fill_response_holds [OF assms(1,2), of "Answer 0 [] None"]
    by (auto simp: plain_answer_def response_parts_def)
  then show ?thesis
    using assms(3-6)
    by (simp add: client_eval_def Let_def sv_removeClient_extended_def delete_client_effect
        put_client_def)
qed

text \<open>The size of a request is not checked: a negative one asks for nearly all of memory.\<close>

lemma negative_size_allocates:
  assumes "cl_state c = Reading_header" "sizeof_frame \<le> ab_pos (cl_read c) + n"
    "fr_magic (ab_bump n (cl_read c)) = SB_FRAME_MAGIC" "fr_size (ab_bump n (cl_read c)) = - 17"
    "ab_capa (cl_read c) < 2 ^ 32 - 1" "32 \<le> size_bits pf" "\<not> alloc pf (2 ^ size_bits pf - 1)"
  shows "handleRead pf B ws n True a c sv = Inl Bad_alloc"
proof -
  have "(2::nat) ^ 32 \<le> 2 ^ size_bits pf" using assms(6) by (intro power_increasing) auto
  then have "4294967296 \<le> (2::nat) ^ size_bits pf" by simp
  moreover have "ab_capa (cl_read c) < 4294967295" using assms(5) by simp
  ultimately have "512 < (2::nat) ^ size_bits pf - 1" "ab_capa (cl_read c) < 2 ^ size_bits pf - 1"
    by linarith+
  moreover have "(- 1 :: int) mod 2 ^ size_bits pf = 2 ^ size_bits pf - 1"
    by (rule zmod_minus1) simp
  then have "frame_length pf (ab_bump n (cl_read c)) = 2 ^ size_bits pf - 1"
    using assms(4) by (simp add: frame_length_def sizeof_frame_def nat_diff_distrib nat_power_eq)
  ultimately show ?thesis
    using assms by (simp add: handleRead_def Let_def ab_reserve_def ab_Size_def)
qed

text \<open>Bytes of a second request behind the first one: the request is never found complete.\<close>

lemma overshoot_waits:
  assumes "frame_length pf (cl_read c) < ab_pos (cl_read c)"
  shows "check_complete pf B ws a c sv = Inr (client_arm pf B a c sv)"
  using assms by (simp add: check_complete_def)

end
