(* ===== verification/Server_Setup.thy ===== *)
theory Server_Setup
  imports Client_Session
begin

text \<open>
  The rest of \<^verbatim>\<open>src/servicebroker/ServicebrokerServer.cpp\<close> and \<^verbatim>\<open>.hpp\<close> that computes: the parsing of
  the addresses to bind, the choice of the server socket of a new connection, the authentication
  of a client, its supervision by a timer, and the small HTTP service (\<^verbatim>\<open>HTTPClient\<close>). The system
  calls around them only open and bind sockets. The lemmas give the results of the parsers and
  show three places where they leave their buffers or look at the wrong text.
\<close>

section \<open>Addresses to bind\<close>

text \<open>The tokens of \<^verbatim>\<open>strtok\<close> with one delimiter: the non-empty pieces between delimiters.\<close>

fun pieces :: "char \<Rightarrow> string \<Rightarrow> string \<Rightarrow> string list" where
  "pieces d cur [] = [rev cur]"
| "pieces d cur (c # cs) = (if c = d then rev cur # pieces d [] cs else pieces d (c # cur) cs)"

definition strtok_all :: "char \<Rightarrow> string \<Rightarrow> string list" where
  "strtok_all d s = filter (\<lambda>t. t \<noteq> []) (pieces d [] s)"

text \<open>\<^verbatim>\<open>inet_pton(AF_INET, ...)\<close>: four decimal numbers up to 255 without leading zeros.\<close>

definition octet :: "string \<Rightarrow> nat option" where
  "octet s =
     (if s \<noteq> [] \<and> length s \<le> 3 \<and> list_all (\<lambda>c. 48 \<le> byte c \<and> byte c \<le> 57) s \<and>
         \<not> (length s > 1 \<and> hd s = CHR ''0'') \<and>
         foldl (\<lambda>v c. v * 10 + (byte c - 48)) 0 s \<le> 255
      then Some (foldl (\<lambda>v c. v * 10 + (byte c - 48)) 0 s) else None)"

text \<open>The address in host byte order, as after \<^verbatim>\<open>ntohl\<close>.\<close>

definition inet_pton :: "string \<Rightarrow> nat option" where
  "inet_pton s =
     (case map octet (pieces CHR ''.'' [] s) of
        [Some a, Some b, Some c, Some d] \<Rightarrow> Some (((a * 256 + b) * 256 + c) * 256 + d)
      | _ \<Rightarrow> None)"

text \<open>
  The values \<^verbatim>\<open>parseIPs\<close> stores from index 0 on; their number is what it returns. Nothing compares
  the index with \<open>ips_size\<close>.
\<close>

definition parseIPs :: "string option \<Rightarrow> nat \<Rightarrow> nat list" where
  "parseIPs dottedIps ips_size =
     (case dottedIps of
        None \<Rightarrow> []
      | Some s \<Rightarrow>
          if ips_size = 0 then []
          else List.map_filter inet_pton (strtok_all CHR '','' s))"

definition MAX_IPS_TO_BIND :: nat where
  "MAX_IPS_TO_BIND = 5"

text \<open>
  The bytes \<^verbatim>\<open>parseIPs\<close> writes to its copy of the string and the bytes it allocated for it.
\<close>

definition parseIPs_copy :: "string \<Rightarrow> nat \<times> nat" where
  "parseIPs_copy s = (length s + 1, length s)"

section \<open>Connections\<close>

text \<open>
  \<^verbatim>\<open>getServerSocket\<close>: with addresses bound, the socket of that address; without, the only one.
  \<open>Inl ()\<close> is the failed assertion of \<^verbatim>\<open>front()\<close>. A socket is given by its address.
\<close>

definition getServerSocket :: "bool \<Rightarrow> nat list \<Rightarrow> nat \<Rightarrow> unit + nat option" where
  "getServerSocket mBindFeatureActive sockets addr_ip =
     (if mBindFeatureActive then Inr (List.find (\<lambda>ip. ip = addr_ip) sockets)
      else case sockets of [] \<Rightarrow> Inl () | ip # ips \<Rightarrow> Inr (Some ip))"

text \<open>What \<^verbatim>\<open>CredentialsEvent::eval\<close> accepts: eight bytes with the first and the fourth as expected.\<close>

definition auth_accepted :: "char list \<Rightarrow> bool" where
  "auth_accepted bs \<longleftrightarrow> length bs = 8 \<and> bs ! 0 = CHR ''A'' \<and> bs ! 3 = CHR ''H''"

definition handleCredentials ::
  "platform \<Rightarrow> 's broker_if \<Rightarrow> char list \<Rightarrow> addr \<Rightarrow> client \<Rightarrow> 's server \<Rightarrow> 's server" where
  "handleCredentials pf B bs a c sv =
     (if auth_accepted bs then client_arm pf B a c sv else delete_client B a sv)"

text \<open>A new connection: the object as its constructor leaves it.\<close>

definition new_client :: "platform \<Rightarrow> client" where
  "new_client pf =
     \<lparr> cl_read = AutoBuffer pf, cl_write = AutoBuffer pf, cl_state = Reading_header,
       cl_io = No_io, cl_sent = [] \<rparr>"

text \<open>The supervision of a slave: the operations since the last timeout.\<close>

definition tick :: "nat \<Rightarrow> nat" where
  "tick operations = (operations + 1) mod 2 ^ 32"

definition handleTimeout ::
  "'s broker_if \<Rightarrow> bool \<Rightarrow> nat \<Rightarrow> addr \<Rightarrow> 's server \<Rightarrow> bool \<times> nat \<times> 's server" where
  "handleTimeout B ok operations a sv =
     (if ok then
        if operations > 0 then (True, 0, sv) else (False, operations, delete_client B a sv)
      else (False, operations, sv))"

section \<open>The HTTP service\<close>

definition http_Size :: nat where
  "http_Size = 512"

text \<open>The index from which a condition holds first, if it does in the buffer.\<close>

fun index_from :: "(char \<Rightarrow> bool) \<Rightarrow> nat \<Rightarrow> char list \<Rightarrow> nat option" where
  "index_from P i [] = None"
| "index_from P i (c # cs) = (if P c then Some i else index_from P (Suc i) cs)"

text \<open>
  \<^verbatim>\<open>parseRequestLine\<close> on the 512 bytes of the buffer: \<open>Inl ()\<close> when the search for the end of the
  line runs out of the buffer, \<open>Inr None\<close> for a request that is too short, else the URI. The
  second character searched for is the letter \<^verbatim>\<open>n\<close>.
\<close>

definition parseRequestLine :: "char list \<Rightarrow> unit + string option" where
  "parseRequestLine buf =
     (if length (c_str (take (http_Size - 1) buf)) > 4 then
        case index_from (\<lambda>c. c = CHR 0x0D \<or> c = CHR ''n'') 0 buf of
          None \<Rightarrow> Inl ()
        | Some eol \<Rightarrow>
            let line = c_str (take eol buf);
                rest = dropWhile (\<lambda>c. c \<noteq> CHR '' '') line;
                rest = (case rest of [] \<Rightarrow> [] | c # cs \<Rightarrow> cs)
            in Inr (Some (takeWhile (\<lambda>c. c \<noteq> CHR '' '') rest))
      else Inr None)"

text \<open>\<^verbatim>\<open>strstr\<close>: the rest of a text from the first occurrence of a word on.\<close>

fun strstr :: "string \<Rightarrow> string \<Rightarrow> string option" where
  "strstr [] w = (if w = [] then Some [] else None)"
| "strstr (c # cs) w = (if take (length w) (c # cs) = w then Some (c # cs) else strstr cs w)"

text \<open>\<^verbatim>\<open>atoi\<close> on unsigned text.\<close>

definition atoi :: "string \<Rightarrow> int" where
  "atoi s = int (foldl (\<lambda>v c. v * 10 + (byte c - 48)) 0
     (takeWhile (\<lambda>c. 48 \<le> byte c \<and> byte c \<le> 57) (dropWhile (\<lambda>c. c = CHR '' '') s)))"

text \<open>\<^verbatim>\<open>parseContentLength\<close>: the copy in lower case is made but not searched.\<close>

definition parseContentLength :: "char list \<Rightarrow> int" where
  "parseContentLength buf =
     (case strstr (c_str buf) ''content-length'' of
        None \<Rightarrow> - 1
      | Some t \<Rightarrow> atoi (dropWhile (\<lambda>c. c = CHR '':'' \<or> c = CHR '' '') (drop 15 t)))"

text \<open>
  \<^verbatim>\<open>HTTPClient::handleRead\<close>: with \<open>n_total\<close> bytes in the buffer, read on or evaluate.
\<close>

definition http_end :: string where
  "http_end = [CHR 0x0D, CHR 0x0A, CHR 0x0D, CHR 0x0A]"

definition http_read_on :: "char list \<Rightarrow> nat \<Rightarrow> bool" where
  "http_read_on buf n_total =
     (case strstr (c_str buf) http_end of
        None \<Rightarrow> n_total < http_Size
      | Some t \<Rightarrow>
          let body_begin = length (c_str buf) - length t + 2 in
          hd buf = CHR ''P'' \<and> int n_total < int body_begin + parseContentLength buf \<and>
          n_total < http_Size)"

text \<open>The page \<^verbatim>\<open>eval\<close> serves for a URI.\<close>

datatype http_content =
  Page_empty | Page_servers | Page_clients | Page_connect | Page_disconnect | Page_detach | Page_stats

definition http_page :: "string \<Rightarrow> http_content" where
  "http_page uri =
     (if uri = [] then Page_empty
      else
        let c = byte_at uri 1 in
        if c = CHR ''s'' then Page_servers
        else if c = CHR ''a'' then Page_clients
        else if c = CHR ''c'' then Page_connect
        else if c = CHR ''d'' then (if byte_at uri 2 = NUL then Page_disconnect else Page_detach)
        else if c = CHR ''f'' then Page_empty
        else Page_stats)"

section \<open>Lemmas\<close>

lemma pieces_length: "pieces d cur s \<noteq> []"
  by (induction d cur s rule: pieces.induct) auto

lemma pieces_no_delimiter:
  assumes "d \<notin> set cur" "t \<in> set (pieces d cur s)"
  shows "d \<notin> set t"
  using assms by (induction d cur s rule: pieces.induct) (auto split: if_splits)

lemma octet_range: "octet s = Some v \<Longrightarrow> v \<le> 255"
  by (auto simp: octet_def split: if_splits)

text \<open>Every address stored is a 32 bit number.\<close>

lemma inet_pton_range:
  assumes "inet_pton s = Some v"
  shows "v < 2 ^ 32"
proof -
  obtain a b c d where v: "v = ((a * 256 + b) * 256 + c) * 256 + d"
    and o: "Some a \<in> set (map octet (pieces CHR ''.'' [] s))"
      "Some b \<in> set (map octet (pieces CHR ''.'' [] s))"
      "Some c \<in> set (map octet (pieces CHR ''.'' [] s))"
      "Some d \<in> set (map octet (pieces CHR ''.'' [] s))"
    using assms by (auto simp: inet_pton_def split: list.splits option.splits)
  have r: "a \<le> 255" "b \<le> 255" "c \<le> 255" "d \<le> 255"
    using o octet_range by (auto simp del: set_map simp: image_iff set_map)
  define p where "p = a * 256 + b"
  define q where "q = p * 256 + c"
  have "p \<le> 65535" using r unfolding p_def by linarith
  then have "q \<le> 16777215" using r unfolding q_def by linarith
  then have "q * 256 + d \<le> 4294967295" using r by linarith
  then show ?thesis by (simp add: v p_def q_def)
qed

lemma parseIPs_range: "v \<in> set (parseIPs ips n) \<Longrightarrow> v < 2 ^ 32"
  using inet_pton_range by (auto simp: parseIPs_def map_filter_def split: option.splits if_splits)

text \<open>More addresses than the array has room for are stored behind it.\<close>

lemma octet_digits:
  "octet ''1'' = Some 1" "octet ''2'' = Some 2" "octet ''3'' = Some 3" "octet ''4'' = Some 4"
  "octet ''5'' = Some 5" "octet ''6'' = Some 6"
  by code_simp+

lemma six_tokens:
  "strtok_all CHR '','' ''1.1.1.1,1.1.1.2,1.1.1.3,1.1.1.4,1.1.1.5,1.1.1.6'' =
     [''1.1.1.1'', ''1.1.1.2'', ''1.1.1.3'', ''1.1.1.4'', ''1.1.1.5'', ''1.1.1.6'']"
  by code_simp

lemma parseIPs_overflows:
  "parseIPs (Some ''1.1.1.1,1.1.1.2,1.1.1.3,1.1.1.4,1.1.1.5,1.1.1.6'') MAX_IPS_TO_BIND =
     [16843009, 16843010, 16843011, 16843012, 16843013, 16843014]"
  unfolding parseIPs_def option.case six_tokens
  by (simp add: MAX_IPS_TO_BIND_def map_filter_def inet_pton_def octet_digits)

lemma parseIPs_copy_overflows: "fst (parseIPs_copy s) = snd (parseIPs_copy s) + 1"
  by (simp add: parseIPs_copy_def)

text \<open>The letter n ends the request line.\<close>

lemma request_line_cut:
  "parseRequestLine (''GET /dn HTTP/1.1'' @ http_end @ replicate 492 NUL) = Inr (Some ''/d'')"
  by code_simp

text \<open>The length of a body is found only where the field name is in lower case.\<close>

lemma content_length_case:
  "parseContentLength (''Content-Length: 7'' @ http_end) = - 1"
  "parseContentLength (''content-length: 7'' @ http_end) = 7"
  by code_simp+

text \<open>Without supervision traffic between two timeouts the slave's connection is closed.\<close>

lemma timeout_closes:
  "handleTimeout B True 0 a sv = (False, 0, delete_client B a sv)"
  "0 < n \<Longrightarrow> handleTimeout B True n a sv = (True, 0, sv)"
  by (simp_all add: handleTimeout_def)

text \<open>A client that authenticates waits for its first request.\<close>

lemma authenticated_ready:
  assumes "auth_accepted bs" "sign_clear (AutoBuffer pf)"
  shows "\<exists>c. handleCredentials pf B bs a (new_client pf) sv = put_client a c sv \<and> session_ready c"
  using assms AutoBuffer_wf [of pf]
  by (simp add: handleCredentials_def new_client_def client_arm_def)
    (auto simp: session_ready_def AutoBuffer_def ab_Size_def)

end
