(* ===== verification/Transport_Spec.thy ===== *)
theory Transport_Spec
  imports Slist Request_Packets Server_Setup
begin

text \<open>
  The properties of the byte transport: the intrusive list, messages from the
  writing to the reading application, the growth of buffers and the conversion of wide strings.
\<close>

section \<open>Sessions of the daemon\<close>

text \<open>A session before its first request, for the concrete runs.\<close>

definition example_platform :: platform where
  "example_platform = \<lparr> size_bits = 32, alloc = (\<lambda>_. True), junk = (\<lambda>_. CHR 0x00) \<rparr>"

lemma example_sign: "sign_clear (AutoBuffer example_platform)"
  by (simp add: sign_clear_def AutoBuffer_def ab_mem_def example_platform_def ab_Size_def)

lemma example_platform_ok: "session_platform example_platform"
  by (simp add: session_platform_def example_platform_def)

definition example_client :: client where
  "example_client = (new_client example_platform)\<lparr> cl_io := Read_some ab_Size \<rparr>"

lemma example_client_ready: "session_ready example_client"
  using example_sign AutoBuffer_wf [of example_platform]
  by (simp add: session_ready_def example_client_def new_client_def)
    (simp add: AutoBuffer_def)

section \<open>The intrusive list\<close>

text \<open>
  C36. The intrusive list does what a list does, for elements that derive from the hook and for
  elements that hold it as a member: every sequence of insertions, removals, reversals and clearings that
  keeps to the contract of the operations returns and leaves the memory representing the list that
  the same operations on mathematical lists give, whose length \<^verbatim>\<open>size\<close> counts.
\<close>

theorem slist_refines_list:
  assumes "slist (hook_of pol) h l xs" and "list_run (hook_of pol) l ops xs = Some ys"
  shows "\<exists>h'. sl_run (accessor_of pol) l ops h = Some (Inr h') \<and> slist (hook_of pol) h' l ys \<and>
    sl_size (accessor_of pol) h' l = Some (Inr (length ys))"
  using any_hook.run_refines_list [OF assms] any_hook.size_slist by blast

theorem slist_refines_list_witness:
  "\<exists>h'. sl_run (accessor_of (Some 4)) 100 [Push_front 8, Insert 100 16, Reverse, Erase 8]
      (\<lambda>_. 100) = Some (Inr h') \<and> slist (hook_of (Some 4)) h' 100 [16] \<and>
    sl_size (accessor_of (Some 4)) h' 100 = Some (Inr 1)"
  using slist_refines_list [of "Some 4" "\<lambda>_. 100" 100 "[]" "[Push_front 8, Insert 100 16, Reverse, Erase 8]" "[16]"]
  by (simp add: slist_def hook_of_def)

section \<open>Messages\<close>







text \<open>
  C40. The two passes of the UTF-8 encoder agree: the size computed first is exactly the number of
  bytes written. Decoding what was encoded gives the string back, for all Unicode code points, and decoding any
  bytes at all never yields more characters than the bytes for which space was reserved.
\<close>

theorem utf8_passes_agree:
  "toUTF8_newSize ws = length (toUTF8 ws) \<and>
   (list_all (\<lambda>w. 0 \<le> w \<and> w \<le> 0x10ffff) ws \<longrightarrow> fromUTF8 (toUTF8 ws) = ws) \<and>
   length (fromUTF8 s) \<le> length s"
  using fromUTF8_toUTF8 by (auto simp: newSize_exact fromUTF8_length list_all_iff)

theorem utf8_passes_agree_witness:
  "fromUTF8 (toUTF8 [0x41, 0xe4, 0x20ac, 0x1d11e]) = [0x41, 0xe4, 0x20ac, 0x1d11e]"
  using utf8_passes_agree [of "[0x41, 0xe4, 0x20ac, 0x1d11e]"] by simp

end
