(* ===== verification/Stub_Server.thy ===== *)
theory Stub_Server
  imports Client_Data Request_Packets
begin

text \<open>
  The base class of the servers, \<^verbatim>\<open>src/base/CServer.cpp\<close>, with the part of the generated stubs that
  works on its state (\<^verbatim>\<open>CDSIStub.cpp.jet\<close>): connections of clients, notifications and pending responses,
  register sessions and unblocked requests. A client's channel is a weak pointer: a number, or \<open>None\<close> when
  the engine could not attach. Dereferencing a missing connection and a failing assertion are
  errors. Sequence numbers, session and request ids are compared for equality only and are words.
\<close>

section \<open>Data\<close>

definition INVALID_ID :: u32 where "INVALID_ID = 0xFFFFFFFF"
definition INVALID_SEQUENCE_NR :: u32 where "INVALID_SEQUENCE_NR = 0"
definition INVALID_SESSION_ID :: u32 where "INVALID_SESSION_ID = 0xFFFFFFFF"
definition DSI_PROTOCOL_VERSION_MINOR :: u16 where "DSI_PROTOCOL_VERSION_MINOR = 0"

definition isAttributeId :: "u32 \<Rightarrow> bool" where
  "isAttributeId i \<longleftrightarrow> i \<ge> 0xC0000000 \<and> i \<le> 0xFFFFFFFF"

definition isResponseId :: "u32 \<Rightarrow> bool" where
  "isResponseId i \<longleftrightarrow> i \<ge> 0x80000000 \<and> i \<le> 0xBFFFFFFF"

datatype request_type =
    REQUEST | REQUEST_NOTIFY | REQUEST_STOP_NOTIFY | REQUEST_LOAD_COMPONENT | REQUEST_STOP_ALL_NOTIFY
  | REQUEST_REGISTER_NOTIFY | REQUEST_STOP_REGISTER_NOTIFY | REQUEST_STOP_ALL_REGISTER_NOTIFY

datatype result_type =
    RESULT_OK | RESULT_INVALID | RESULT_DATA_OK | RESULT_DATA_INVALID | RESULT_REQUEST_ERROR
  | RESULT_REQUEST_BUSY

datatype data_state = DATA_NOT_AVAILABLE | DATA_INVALID | DATA_OK

datatype update_type = UPDATE_NONE | UPDATE_COMPLETE | UPDATE_INSERT | UPDATE_REPLACE | UPDATE_DELETE

record session_data =
  sd_sessionId :: u32
  sd_clientID :: SPartyID
  sd_sequenceNr :: u32
  sd_updateId :: u32

record notif =
  nf_sessionId :: u32
  nf_clientID :: SPartyID
  nf_sequenceNr :: u32
  nf_notifyID :: u32

record client_conn =
  cc_id :: u32
  cc_clientID :: SPartyID
  cc_serverID :: SPartyID
  cc_notificationID :: u32
  cc_channel :: "nat option"
  cc_protoMinor :: u16

text \<open>A message given to a channel: header, event information and payload.\<close>

datatype out_msg =
    Data_response nat SPartyID SPartyID u16 result_type u32 u32 "char list"
  | Connect_response nat SPartyID SPartyID u16 u32 u32
  | Legacy_response nat u32 u32

text \<open>Calls of the servicebroker.\<close>

datatype sb_call =
    Set_detach_notification SPartyID u32
  | Clear_notification u32
  | Register_interface u32
  | Register_interface_TCP u32 int
  | Unregister_interface SPartyID

record stub_server =
  ss_conns :: "client_conn list"
  ss_notifs :: "notif list"
  ss_unblocked :: "u32 \<rightharpoonup> notif"
  ss_sessions :: "session_data list"
  ss_active :: "u32 set"
  ss_sessionId :: u32
  ss_responseId :: u32
  ss_clientID :: SPartyID
  ss_sequenceNr :: u32
  ss_responseState :: "u32 \<Rightarrow> bool"
  ss_attributeState :: "u32 \<Rightarrow> data_state"
  ss_serverID :: SPartyID
  ss_tcpServerID :: SPartyID
  ss_tcpEnabled :: bool
  ss_nextId :: u32
  ss_out :: "out_msg list"
  ss_calls :: "sb_call list"
  ss_callbacks :: "(u32 \<times> u32) list"

text \<open>
  What stops the server: a null connection whose channel is asked, an assertion on an expired
  channel, a vector index behind the end, and the assertions on the state of a request.
\<close>

datatype stub_error = Null_connection | Null_session | Channel_expired | Out_of_range | No_request | Response_pending

text \<open>The operations a service implementation calls while it works on a request or at any other time.\<close>

datatype stub_op =
    Respond u32 "char list"
  | Send_error u32 "u32 option"
  | Notify u32 update_type int int
  | Set_attribute_state u32 data_state
  | Unblock
  | Prepare u32
  | Add_active u32
  | Clear_active

datatype method_kind = Plain_method | Register_method | Unregister_method

text \<open>
  What the base class does not define: the virtual functions of the generated class, the implementation of the
  requests, the communication engine, the servicebroker, and what uninitialised memory holds.
\<close>

record stub_env =
  sve_alive :: "nat \<Rightarrow> bool"
  sve_getResponse :: "u32 \<Rightarrow> u32"
  sve_method :: "u32 \<Rightarrow> method_kind option"
  sve_arguments_ok :: "u32 \<Rightarrow> char list \<Rightarrow> bool"
  sve_implementation :: "u32 \<Rightarrow> char list \<Rightarrow> stub_server \<Rightarrow> stub_op list"
  sve_writeAttribute :: "u32 \<Rightarrow> update_type \<Rightarrow> int \<Rightarrow> int \<Rightarrow> char list"
  sve_attach :: "u32 \<Rightarrow> u32 \<Rightarrow> nat option"
  sve_attachTCP :: "u32 \<Rightarrow> u32 \<Rightarrow> nat option"
  sve_register :: "sb_call list \<Rightarrow> SPartyID option"
  sve_detachNotification :: "SPartyID \<Rightarrow> u32 \<Rightarrow> u32"
  sve_pid :: u32
  sve_localChannel :: u32
  sve_ipPort :: u32
  sve_localName :: "nat \<Rightarrow> u32 option"
  sve_junk :: u32
  sve_moves :: "nat \<Rightarrow> bool"

definition expired :: "stub_env \<Rightarrow> nat option \<Rightarrow> bool" where
  "expired E ch = (case ch of None \<Rightarrow> True | Some n \<Rightarrow> \<not> sve_alive E n)"

definition cs_createId :: "stub_server \<Rightarrow> u32 \<times> stub_server" where
  "cs_createId s = (ss_nextId s, s\<lparr> ss_nextId := ss_nextId s + 1 \<rparr>)"

definition emit :: "out_msg \<Rightarrow> stub_server \<Rightarrow> stub_server" where
  "emit m s = s\<lparr> ss_out := ss_out s @ [m] \<rparr>"

definition call_broker :: "sb_call \<Rightarrow> stub_server \<Rightarrow> stub_server" where
  "call_broker c s = s\<lparr> ss_calls := ss_calls s @ [c] \<rparr>"

section \<open>Notifications and connections\<close>

text \<open>\<open>INVALID_ID\<close> stands for every notification of the client.\<close>

definition cs_removeNotification :: "SPartyID \<Rightarrow> u32 \<Rightarrow> stub_server \<Rightarrow> stub_server" where
  "cs_removeNotification cid i s =
     s\<lparr> ss_notifs := filter (\<lambda>n. \<not> (party_eq (nf_clientID n) cid \<and> (i = INVALID_ID \<or> nf_notifyID n = i)))
          (ss_notifs s) \<rparr>"

definition find_conn :: "SPartyID \<Rightarrow> client_conn list \<Rightarrow> client_conn option" where
  "find_conn cid cs = find (\<lambda>c. globalID (cc_clientID c) = globalID cid) cs"

definition findClientConnection :: "SPartyID \<Rightarrow> stub_server \<Rightarrow> client_conn option \<times> stub_server" where
  "findClientConnection cid s =
     (case find_conn cid (ss_conns s) of
        Some c \<Rightarrow> (Some c, s)
      | None \<Rightarrow> (None, cs_removeNotification cid INVALID_ID s))"

text \<open>\<^verbatim>\<open>std::set::insert\<close>, ordered by the id of the client: an entry that is there stays.\<close>

fun insert_conn :: "client_conn \<Rightarrow> client_conn list \<Rightarrow> client_conn list" where
  "insert_conn c [] = [c]"
| "insert_conn c (d # ds) =
     (if globalID (cc_clientID c) < globalID (cc_clientID d) then c # d # ds
      else if globalID (cc_clientID d) < globalID (cc_clientID c) then d # insert_conn c ds
      else d # ds)"

text \<open>The index of the session that \<^verbatim>\<open>findSession\<close> points to: the last one that matches.\<close>

definition findSession :: "u32 \<Rightarrow> SPartyID \<Rightarrow> stub_server \<Rightarrow> nat option" where
  "findSession seqNr cid s =
     (let idx = find_last (\<lambda>d. party_eq (sd_clientID d) cid \<and> sd_sequenceNr d = seqNr) (ss_sessions s)
                  (length (ss_sessions s))
      in if seqNr \<noteq> INVALID_SEQUENCE_NR \<and> 0 \<le> idx then Some (nat idx) else None)"

definition session_id_at :: "stub_server \<Rightarrow> nat \<Rightarrow> u32" where
  "session_id_at s idx = sd_sessionId (ss_sessions s ! idx)"

text \<open>\<^verbatim>\<open>std::remove_if\<close> without \<^verbatim>\<open>erase\<close>: the vector keeps its length and its old tail.\<close>

definition removeSessionNotifications :: "u32 \<Rightarrow> stub_server \<Rightarrow> stub_server" where
  "removeSessionNotifications sid s =
     (let ys = filter (\<lambda>n. nf_sessionId n \<noteq> sid) (ss_notifs s)
      in s\<lparr> ss_notifs := ys @ drop (length ys) (ss_notifs s) \<rparr>)"

definition removeSession :: "u32 \<Rightarrow> stub_server \<Rightarrow> stub_server" where
  "removeSession sid s =
     (let s = removeSessionNotifications sid s
      in s\<lparr> ss_sessions := erase_first (\<lambda>d. sd_sessionId d = sid) (ss_sessions s) \<rparr>)"

definition removeUnblockedSessions :: "SPartyID \<Rightarrow> stub_server \<Rightarrow> stub_server" where
  "removeUnblockedSessions cid s =
     s\<lparr> ss_unblocked := (\<lambda>k. case ss_unblocked s k of
          Some n \<Rightarrow> if party_eq (nf_clientID n) cid then None else Some n
        | None \<Rightarrow> None) \<rparr>"

text \<open>
  The copy constructor of \<^verbatim>\<open>SessionData\<close> does not copy \<^verbatim>\<open>updateId\<close>: neither the new element has it,
  nor, when the vector moves to a larger block, the ones before.
\<close>

definition copy_session :: "stub_env \<Rightarrow> session_data \<Rightarrow> session_data" where
  "copy_session E d = d\<lparr> sd_updateId := sve_junk E \<rparr>"

definition push_session :: "stub_env \<Rightarrow> session_data \<Rightarrow> stub_server \<Rightarrow> stub_server" where
  "push_session E d s =
     s\<lparr> ss_sessions := (if sve_moves E (length (ss_sessions s)) then map (copy_session E) (ss_sessions s)
                          else ss_sessions s) @ [copy_session E d] \<rparr>"

text \<open>The generated \<^verbatim>\<open>removeAllSessions\<close>: the matching unregister callback of every session of the client.\<close>

fun session_callbacks :: "stub_env \<Rightarrow> SPartyID \<Rightarrow> session_data list \<Rightarrow> (u32 \<times> u32) list" where
  "session_callbacks E cid [] = []"
| "session_callbacks E cid (d # ds) =
     (if party_eq (sd_clientID d) cid \<and> sve_method E (sd_updateId d) = Some Register_method
      then [(sd_updateId d, sd_sessionId d)] else []) @ session_callbacks E cid ds"

definition removeAllSessions :: "stub_env \<Rightarrow> SPartyID \<Rightarrow> stub_server \<Rightarrow> stub_server" where
  "removeAllSessions E cid s =
     s\<lparr> ss_callbacks := ss_callbacks s @ session_callbacks E cid (ss_sessions s),
        ss_sessions := filter (\<lambda>d. \<not> party_eq (sd_clientID d) cid) (ss_sessions s),
        ss_sequenceNr := (if \<exists>d \<in> set (ss_sessions s). party_eq (sd_clientID d) cid
           then INVALID_SEQUENCE_NR else ss_sequenceNr s),
        ss_clientID := party_assign 0 \<rparr>"

section \<open>Sending\<close>

definition response_message :: "client_conn \<Rightarrow> nat \<Rightarrow> SPartyID \<Rightarrow> result_type \<Rightarrow> u32 \<Rightarrow> u32 \<Rightarrow> char list \<Rightarrow> out_msg" where
  "response_message c ch cid rt i seqNr payload =
     Data_response ch cid (cc_serverID c) (cc_protoMinor c) rt i seqNr payload"

definition sendErrorToClient ::
  "stub_env \<Rightarrow> SPartyID \<Rightarrow> u32 \<Rightarrow> result_type \<Rightarrow> u32 \<Rightarrow> stub_server \<Rightarrow> stub_error + stub_server" where
  "sendErrorToClient E cid i rt seqNr s =
     (case findClientConnection cid s of
        (None, s) \<Rightarrow> Inl Null_connection
      | (Some c, s) \<Rightarrow>
          if expired E (cc_channel c) then Inl Channel_expired
          else Inr (emit (response_message c (the (cc_channel c)) (cc_clientID c) rt i seqNr (le_bytes 4 0)) s))"

text \<open>An attribute to one client, as it is sent for a new notification.\<close>

definition attribute_message :: "stub_env \<Rightarrow> client_conn \<Rightarrow> u32 \<Rightarrow> data_state \<Rightarrow> update_type \<Rightarrow> int \<Rightarrow> int \<Rightarrow> out_msg" where
  "attribute_message E c i st rt position cnt =
     response_message c (the (cc_channel c)) (cc_clientID c)
       (if st = DATA_OK then RESULT_DATA_OK else RESULT_DATA_INVALID) i INVALID_SEQUENCE_NR
       (if st = DATA_OK then sve_writeAttribute E i rt position cnt else [])"

text \<open>The loop of \<^verbatim>\<open>sendNotification\<close> from index \<open>idx\<close> on.\<close>

function send_notification_loop ::
  "stub_env \<Rightarrow> u32 \<Rightarrow> update_type \<Rightarrow> int \<Rightarrow> int \<Rightarrow> nat \<Rightarrow> stub_server \<Rightarrow> stub_error + stub_server" where
  "send_notification_loop E i rt position cnt idx s =
     (if idx < length (ss_notifs s) then
        if nf_notifyID (ss_notifs s ! idx) = i then
          case findClientConnection (nf_clientID (ss_notifs s ! idx)) s of
            (None, s') \<Rightarrow> Inl Null_connection
          | (Some c, s') \<Rightarrow>
              if expired E (cc_channel c) then Inl Channel_expired
              else send_notification_loop E i rt position cnt (Suc idx)
                     (emit (attribute_message E c i (ss_attributeState s i) rt position cnt) s)
        else send_notification_loop E i rt position cnt (Suc idx) s
      else Inr s)"
  by pat_completeness auto
termination
  by (relation "measure (\<lambda>(E, i, rt, position, cnt, idx, s). length (ss_notifs s) - idx)")
    (auto simp: emit_def)

declare send_notification_loop.simps [simp del]

definition sendNotification ::
  "stub_env \<Rightarrow> u32 \<Rightarrow> update_type \<Rightarrow> int \<Rightarrow> int \<Rightarrow> stub_server \<Rightarrow> stub_error + stub_server" where
  "sendNotification E i rt position cnt s = send_notification_loop E i rt position cnt 0 s"

text \<open>Who gets a response: the requests that wait for it and the active register sessions.\<close>

definition gets_response :: "u32 \<Rightarrow> stub_server \<Rightarrow> notif \<Rightarrow> bool" where
  "gets_response rid s n \<longleftrightarrow>
     nf_notifyID n = rid \<and> (nf_sessionId n = INVALID_SESSION_ID \<or> nf_sessionId n \<in> ss_active s)"

definition one_shot :: "notif \<Rightarrow> bool" where
  "one_shot n \<longleftrightarrow> nf_sequenceNr n \<noteq> INVALID_SEQUENCE_NR \<and> nf_sessionId n = INVALID_SESSION_ID"

definition erase_at :: "nat \<Rightarrow> 'a list \<Rightarrow> 'a list" where
  "erase_at i xs = take i xs @ drop (Suc i) xs"

definition after_response :: "nat \<Rightarrow> notif \<Rightarrow> stub_server \<Rightarrow> stub_server" where
  "after_response idx n s =
     (if one_shot n then s\<lparr> ss_notifs := erase_at idx (ss_notifs s) \<rparr> else s)"

text \<open>The loop of \<^verbatim>\<open>sendResponse\<close>, from the last notification down.\<close>

fun send_response_loop ::
  "stub_env \<Rightarrow> u32 \<Rightarrow> u32 \<Rightarrow> result_type \<Rightarrow> char list \<Rightarrow> nat \<Rightarrow> stub_server \<Rightarrow> stub_error + stub_server" where
  "send_response_loop E rid i rt payload 0 s = Inr s"
| "send_response_loop E rid i rt payload (Suc idx) s =
     (let n = ss_notifs s ! idx in
      if gets_response rid s n then
        case findClientConnection (nf_clientID n) s of
          (None, s) \<Rightarrow> Inl Null_connection
        | (Some c, s) \<Rightarrow>
            if expired E (cc_channel c) then Inl Channel_expired
            else send_response_loop E rid i rt payload idx (after_response idx n
                   (emit (response_message c (the (cc_channel c)) (nf_clientID n) rt i (nf_sequenceNr n) payload) s))
      else send_response_loop E rid i rt payload idx s)"

definition response_sent :: "u32 \<Rightarrow> stub_server \<Rightarrow> stub_server" where
  "response_sent rid s = (if ss_responseId s = rid then s\<lparr> ss_responseId := INVALID_ID \<rparr> else s)"

definition sendResponse ::
  "stub_env \<Rightarrow> u32 \<Rightarrow> u32 \<Rightarrow> result_type \<Rightarrow> u32 option \<Rightarrow> stub_server \<Rightarrow> stub_error + stub_server" where
  "sendResponse E rid i rt err s =
     map_sum id (response_sent rid)
       (send_response_loop E rid i rt (case err of None \<Rightarrow> [] | Some e \<Rightarrow> le_bytes 4 (unat e))
          (length (ss_notifs s)) s)"

text \<open>
  The generated response methods have a loop of their own, which goes on when the client is not connected any
  more. The id of the client is passed on by reference into the vector of the notifications, and
  \<^verbatim>\<open>removeNotification\<close> erases from that vector: once the element itself is gone, the reference reads the
  next one. The vector is its memory with the number of its elements.
\<close>

definition vector_erase :: "nat \<Rightarrow> 'a list \<times> nat \<Rightarrow> 'a list \<times> nat" where
  "vector_erase j v =
     (case v of (mem, n) \<Rightarrow> (take j mem @ drop (Suc j) (take n mem) @ [mem ! (n - 1)] @ drop n mem, n - 1))"

fun remove_ref_loop :: "nat \<Rightarrow> nat \<Rightarrow> notif list \<times> nat \<Rightarrow> notif list \<times> nat" where
  "remove_ref_loop r 0 v = v"
| "remove_ref_loop r (Suc j) v =
     remove_ref_loop r j (if party_eq (nf_clientID (fst v ! j)) (nf_clientID (fst v ! r)) then vector_erase j v else v)"

definition removeNotification_ref :: "nat \<Rightarrow> stub_server \<Rightarrow> stub_server" where
  "removeNotification_ref r s =
     (let (mem, n) = remove_ref_loop r (length (ss_notifs s)) (ss_notifs s, length (ss_notifs s))
      in s\<lparr> ss_notifs := take n mem \<rparr>)"

fun response_method_loop ::
  "stub_env \<Rightarrow> u32 \<Rightarrow> char list \<Rightarrow> nat \<Rightarrow> stub_server \<Rightarrow> stub_error + stub_server" where
  "response_method_loop E rid payload 0 s = Inr s"
| "response_method_loop E rid payload (Suc idx) s =
     (if length (ss_notifs s) \<le> idx then Inl Out_of_range
      else
        let n = ss_notifs s ! idx in
        if gets_response rid s n then
          case findClientConnection (nf_clientID n) s of
            (None, _) \<Rightarrow> response_method_loop E rid payload idx (removeNotification_ref idx s)
          | (Some c, s) \<Rightarrow>
              if expired E (cc_channel c) then response_method_loop E rid payload idx s
              else response_method_loop E rid payload idx (after_response idx n
                     (emit (response_message c (the (cc_channel c)) (nf_clientID n) RESULT_OK rid
                        (nf_sequenceNr n) payload) s))
        else response_method_loop E rid payload idx s)"

definition response_method :: "stub_env \<Rightarrow> u32 \<Rightarrow> char list \<Rightarrow> stub_server \<Rightarrow> stub_error + stub_server" where
  "response_method E rid payload s =
     (let s = s\<lparr> ss_responseState := (ss_responseState s)(rid := False) \<rparr>
      in map_sum id (response_sent rid) (response_method_loop E rid payload (length (ss_notifs s)) s))"

text \<open>The generated \<^verbatim>\<open>sendError\<close>.\<close>

definition sendError :: "stub_env \<Rightarrow> u32 \<Rightarrow> u32 option \<Rightarrow> stub_server \<Rightarrow> stub_error + stub_server" where
  "sendError E i err s =
     (if isAttributeId i then
        if ss_attributeState s i \<noteq> DATA_INVALID then
          sendNotification E i UPDATE_COMPLETE (- 1) (- 1)
            (s\<lparr> ss_attributeState := (ss_attributeState s)(i := DATA_INVALID) \<rparr>)
        else Inr s
      else
        let rid = (if isResponseId i then i else sve_getResponse E i);
            rt = (if isResponseId i then RESULT_INVALID else RESULT_REQUEST_ERROR)
        in if rid \<noteq> INVALID_ID
           then sendResponse E rid i rt err (s\<lparr> ss_responseState := (ss_responseState s)(rid := False) \<rparr>)
           else Inr s)"

section \<open>Unblocking a request\<close>

text \<open>The position of the last notification of the current request that is not of a session.\<close>

definition unblockRequest :: "stub_server \<Rightarrow> stub_error + (u32 \<times> stub_server)" where
  "unblockRequest s =
     (if ss_sequenceNr s = INVALID_SEQUENCE_NR then Inl No_request
      else if ss_responseId s = INVALID_ID then Inr (INVALID_SESSION_ID, s)
      else
        let idx = find_last (\<lambda>n. nf_notifyID n = ss_responseId s \<and> nf_sessionId n = INVALID_SESSION_ID \<and>
                    party_eq (nf_clientID n) (ss_clientID s)) (ss_notifs s) (length (ss_notifs s));
            (handle, s1) =
              (if 0 \<le> idx then
                 let (handle, s1) = cs_createId s
                 in (handle, s1\<lparr> ss_unblocked := (ss_unblocked s1)(handle \<mapsto> ss_notifs s ! nat idx),
                       ss_notifs := erase_at (nat idx) (ss_notifs s1) \<rparr>)
               else (INVALID_SESSION_ID, s))
        in Inr (handle, s1\<lparr> ss_responseState := (ss_responseState s1)(ss_responseId s1 := False),
             ss_responseId := INVALID_ID, ss_sequenceNr := INVALID_SEQUENCE_NR \<rparr>))"

definition cs_prepareResponse :: "u32 \<Rightarrow> stub_server \<Rightarrow> stub_error + stub_server" where
  "cs_prepareResponse handle s =
     (if ss_responseId s \<noteq> INVALID_ID then Inl Response_pending
      else case ss_unblocked s handle of
             None \<Rightarrow> Inr s
           | Some n \<Rightarrow>
               Inr (s\<lparr> ss_unblocked := (ss_unblocked s)(handle := None), ss_responseId := nf_notifyID n,
                 ss_clientID := nf_clientID n, ss_notifs := ss_notifs s @ [n],
                 ss_responseState := (ss_responseState s)(nf_notifyID n := True) \<rparr>))"

section \<open>Requests\<close>

fun run_op :: "stub_env \<Rightarrow> stub_op \<Rightarrow> stub_server \<Rightarrow> stub_error + stub_server" where
  "run_op E (Respond rid payload) s = response_method E rid payload s"
| "run_op E (Send_error i err) s = sendError E i err s"
| "run_op E (Notify i rt position cnt) s = sendNotification E i rt position cnt s"
| "run_op E (Set_attribute_state i st) s = Inr (s\<lparr> ss_attributeState := (ss_attributeState s)(i := st) \<rparr>)"
| "run_op E Unblock s = map_sum id snd (unblockRequest s)"
| "run_op E (Prepare handle) s = cs_prepareResponse handle s"
| "run_op E (Add_active sid) s = Inr (s\<lparr> ss_active := insert sid (ss_active s) \<rparr>)"
| "run_op E Clear_active s = Inr (s\<lparr> ss_active := {} \<rparr>)"

fun run_ops :: "stub_env \<Rightarrow> stub_op list \<Rightarrow> stub_server \<Rightarrow> stub_error + stub_server" where
  "run_ops E [] s = Inr s"
| "run_ops E (x # xs) s = (case run_op E x s of Inl e \<Rightarrow> Inl e | Inr s \<Rightarrow> run_ops E xs s)"

text \<open>A data request as \<^verbatim>\<open>CDataRequestHandle\<close> gives it.\<close>

record data_handle =
  dh_clientID :: SPartyID
  dh_protoMinor :: u16
  dh_type :: request_type
  dh_requestId :: u32
  dh_sequenceNr :: u32
  dh_payload :: "char list"

definition run_implementation :: "stub_env \<Rightarrow> data_handle \<Rightarrow> stub_server \<Rightarrow> stub_error + stub_server" where
  "run_implementation E h s =
     run_ops E (sve_implementation E (dh_requestId h) (dh_payload h) s) s"

text \<open>The generated \<^verbatim>\<open>processRequest\<close> with the sessions of register and unregister methods.\<close>

definition select_session :: "data_handle \<Rightarrow> stub_server \<Rightarrow> nat option \<times> stub_server" where
  "select_session h s =
     (let session = findSession (dh_sequenceNr h) (ss_clientID s) s
      in (session, case session of Some idx \<Rightarrow> s\<lparr> ss_sessionId := session_id_at s idx \<rparr> | None \<Rightarrow> s))"

definition register_session :: "stub_env \<Rightarrow> data_handle \<Rightarrow> stub_server \<Rightarrow> stub_error + stub_server" where
  "register_session E h s =
     (let (session, s) = select_session h s in
      if ss_sessionId s = INVALID_SESSION_ID then
        let (sid, s) = cs_createId s
        in Inr ((push_session E \<lparr> sd_sessionId = sid, sd_clientID = ss_clientID s,
              sd_sequenceNr = dh_sequenceNr h, sd_updateId = dh_requestId h \<rparr> s)\<lparr> ss_sessionId := sid \<rparr>)
      else case session of
             None \<Rightarrow> Inl Null_session
           | Some idx \<Rightarrow>
               Inr (s\<lparr> ss_sessions := (ss_sessions s)[idx := (ss_sessions s ! idx)\<lparr> sd_updateId := dh_requestId h \<rparr>] \<rparr>))"

definition session_done :: "stub_error + stub_server \<Rightarrow> stub_error + stub_server" where
  "session_done = map_sum id (\<lambda>s. s\<lparr> ss_sessionId := INVALID_SESSION_ID \<rparr>)"

definition processRequest :: "stub_env \<Rightarrow> data_handle \<Rightarrow> stub_server \<Rightarrow> stub_error + stub_server" where
  "processRequest E h s =
     (case sve_method E (dh_requestId h) of
        None \<Rightarrow> Inr s
      | Some Plain_method \<Rightarrow>
          if sve_arguments_ok E (dh_requestId h) (dh_payload h) then run_implementation E h s else Inr s
      | Some Register_method \<Rightarrow>
          (case register_session E h s of
             Inl e \<Rightarrow> Inl e
           | Inr s \<Rightarrow>
               session_done (if sve_arguments_ok E (dh_requestId h) (dh_payload h)
                             then run_implementation E h s else Inr s))
      | Some Unregister_method \<Rightarrow>
          let s = snd (select_session h s)
          in session_done (if ss_sessionId s \<noteq> INVALID_SESSION_ID
               then map_sum id (\<lambda>s. removeSession (ss_sessionId s) s) (run_implementation E h s)
               else Inr s))"

text \<open>A standard request.\<close>

definition handle_standard :: "stub_env \<Rightarrow> data_handle \<Rightarrow> stub_server \<Rightarrow> stub_error + stub_server" where
  "handle_standard E h s =
     (let rid = sve_getResponse E (dh_requestId h) in
      if rid \<noteq> INVALID_ID \<and> ss_responseState s rid then
        sendErrorToClient E (dh_clientID h) (dh_requestId h) RESULT_REQUEST_BUSY (dh_sequenceNr h) s
      else
        let s = s\<lparr> ss_responseId := rid \<rparr>;
            s = (if rid \<noteq> INVALID_ID
                 then s\<lparr> ss_notifs := ss_notifs s @
                        [\<lparr> nf_sessionId = INVALID_SESSION_ID, nf_clientID = dh_clientID h,
                           nf_sequenceNr = dh_sequenceNr h, nf_notifyID = rid \<rparr>],
                      ss_responseState := (ss_responseState s)(rid := True) \<rparr>
                 else s);
            s = s\<lparr> ss_clientID := dh_clientID h, ss_sequenceNr := dh_sequenceNr h \<rparr>
        in map_sum id (\<lambda>s. s\<lparr> ss_responseId := INVALID_ID, ss_sequenceNr := INVALID_SEQUENCE_NR,
                              ss_clientID := party_assign 0 \<rparr>) (processRequest E h s))"

text \<open>A request to be notified: entered once, with a session for register methods.\<close>

definition already_notified :: "data_handle \<Rightarrow> notif \<Rightarrow> bool" where
  "already_notified h n \<longleftrightarrow>
     party_eq (nf_clientID n) (dh_clientID h) \<and> nf_notifyID n = dh_requestId h \<and>
     (dh_type h = REQUEST_NOTIFY \<or> nf_sequenceNr n = dh_sequenceNr h)"

definition notify_entry :: "stub_env \<Rightarrow> data_handle \<Rightarrow> stub_server \<Rightarrow> notif \<times> stub_server" where
  "notify_entry E h s =
     (let n = \<lparr> nf_sessionId = INVALID_SESSION_ID, nf_clientID = dh_clientID h,
                nf_sequenceNr = INVALID_SEQUENCE_NR, nf_notifyID = dh_requestId h \<rparr> in
      if dh_type h = REQUEST_REGISTER_NOTIFY then
        let n = n\<lparr> nf_sequenceNr := dh_sequenceNr h \<rparr> in
        case findSession (dh_sequenceNr h) (dh_clientID h) s of
          Some idx \<Rightarrow> (n\<lparr> nf_sessionId := session_id_at s idx \<rparr>, s)
        | None \<Rightarrow>
            let (sid, s) = cs_createId s
            in (n\<lparr> nf_sessionId := sid \<rparr>,
                push_session E \<lparr> sd_sessionId = sid, sd_clientID = dh_clientID h,
                  sd_sequenceNr = dh_sequenceNr h, sd_updateId = INVALID_ID \<rparr> s)
      else (n, s))"

definition enter_notification :: "stub_env \<Rightarrow> data_handle \<Rightarrow> stub_server \<Rightarrow> stub_server" where
  "enter_notification E h s =
     (if list_ex (already_notified h) (ss_notifs s) then s
      else let (n, s) = notify_entry E h s in s\<lparr> ss_notifs := ss_notifs s @ [n] \<rparr>)"

definition handle_notify :: "stub_env \<Rightarrow> data_handle \<Rightarrow> stub_server \<Rightarrow> stub_error + stub_server" where
  "handle_notify E h s =
     (let s = enter_notification E h s;
          i = dh_requestId h
      in if isAttributeId i then
           if ss_attributeState s i = DATA_OK then
             case findClientConnection (dh_clientID h) s of
               (None, s) \<Rightarrow> Inl Null_connection
             | (Some c, s) \<Rightarrow>
                 if expired E (cc_channel c) then Inl Channel_expired
                 else Inr (emit (attribute_message E c i DATA_OK UPDATE_COMPLETE (- 1) (- 1)) s)
           else if ss_attributeState s i = DATA_INVALID
           then sendNotification E i UPDATE_COMPLETE (- 1) (- 1) s
           else Inr s
         else Inr s)"

definition handleDataRequest :: "stub_env \<Rightarrow> data_handle \<Rightarrow> stub_server \<Rightarrow> stub_error + stub_server" where
  "handleDataRequest E h s =
     (let (conn, s) = findClientConnection (dh_clientID h) s;
          isProtoMinor = (case conn of Some c \<Rightarrow> cc_protoMinor c | None \<Rightarrow> DSI_PROTOCOL_VERSION_MINOR)
      in if isProtoMinor \<noteq> dh_protoMinor h then Inr s
         else case dh_type h of
                REQUEST \<Rightarrow> handle_standard E h s
              | REQUEST_NOTIFY \<Rightarrow> handle_notify E h s
              | REQUEST_REGISTER_NOTIFY \<Rightarrow> handle_notify E h s
              | REQUEST_STOP_NOTIFY \<Rightarrow> Inr (cs_removeNotification (dh_clientID h) (dh_requestId h) s)
              | REQUEST_STOP_REGISTER_NOTIFY \<Rightarrow> Inr (cs_removeNotification (dh_clientID h) (dh_requestId h) s)
              | REQUEST_STOP_ALL_NOTIFY \<Rightarrow> Inr (cs_removeNotification (dh_clientID h) INVALID_ID s)
              | REQUEST_STOP_ALL_REGISTER_NOTIFY \<Rightarrow>
                  (case findSession (dh_sequenceNr h) (dh_clientID h) s of
                     Some idx \<Rightarrow> Inr (removeSessionNotifications (session_id_at s idx) s)
                   | None \<Rightarrow> Inr s)
              | REQUEST_LOAD_COMPONENT \<Rightarrow> Inr s)"

section \<open>Connections\<close>

definition min_protoMinor :: "u16 \<Rightarrow> u16" where
  "min_protoMinor p = (if p < DSI_PROTOCOL_VERSION_MINOR then p else DSI_PROTOCOL_VERSION_MINOR)"

text \<open>The new connection of a client over the channel the engine gave.\<close>

definition enter_connection ::
  "stub_env \<Rightarrow> nat option \<Rightarrow> SPartyID \<Rightarrow> SPartyID \<Rightarrow> u16 \<Rightarrow> stub_server \<Rightarrow> stub_server" where
  "enter_connection E ch cid sid proto s =
     (let (i, s) = cs_createId s;
          c = \<lparr> cc_id = i, cc_clientID = cid, cc_serverID = sid,
                cc_notificationID = sve_detachNotification E cid i, cc_channel = ch,
                cc_protoMinor = min_protoMinor proto \<rparr>;
          s = call_broker (Set_detach_notification cid i) s
      in s\<lparr> ss_conns := insert_conn c (ss_conns s) \<rparr>)"

definition handleConnectRequest ::
  "stub_env \<Rightarrow> nat \<Rightarrow> SPartyID \<Rightarrow> SPartyID \<Rightarrow> u16 \<Rightarrow> u32 \<Rightarrow> u32 \<Rightarrow> stub_server \<Rightarrow> stub_server" where
  "handleConnectRequest E from cid sid proto pid chid s =
     (let s = enter_connection E (sve_attach E pid chid) cid sid proto s
      in emit (Connect_response from sid cid (min_protoMinor proto) (sve_pid E) (sve_localChannel E)) s)"

definition handleConnectRequestTCP ::
  "stub_env \<Rightarrow> nat \<Rightarrow> SPartyID \<Rightarrow> SPartyID \<Rightarrow> u16 \<Rightarrow> u32 \<Rightarrow> u32 \<Rightarrow> stub_server \<Rightarrow> stub_server" where
  "handleConnectRequestTCP E from cid sid proto ip port s =
     (if \<not> ss_tcpEnabled s then s
      else
        let s = enter_connection E (sve_attachTCP E ip port) cid sid proto s
        in case sve_localName E from of
             None \<Rightarrow> s
           | Some own \<Rightarrow> emit (Connect_response from sid cid (min_protoMinor proto) own (sve_ipPort E)) s)"

definition handleLegacyConnectRequestTCP ::
  "stub_env \<Rightarrow> nat \<Rightarrow> SPartyID \<Rightarrow> SPartyID \<Rightarrow> u16 \<Rightarrow> u32 \<Rightarrow> u32 \<Rightarrow> stub_server \<Rightarrow> stub_server" where
  "handleLegacyConnectRequestTCP E from cid sid proto ip port s =
     (if \<not> ss_tcpEnabled s then emit (Legacy_response from 0 0) s
      else
        let s = enter_connection E (sve_attachTCP E ip port) cid sid proto s
        in case sve_localName E from of
             None \<Rightarrow> emit (Legacy_response from 0 0) s
           | Some own \<Rightarrow> emit (Legacy_response from own (sve_ipPort E)) s)"

text \<open>Everything that belongs to a client whose connection ends.\<close>

definition drop_client :: "stub_env \<Rightarrow> client_conn \<Rightarrow> stub_server \<Rightarrow> stub_server" where
  "drop_client E c s =
     (let s = cs_removeNotification (cc_clientID c) INVALID_ID s;
          s = removeAllSessions E (cc_clientID c) s;
          s = removeUnblockedSessions (cc_clientID c) s
      in s\<lparr> ss_conns := filter (\<lambda>d. globalID (cc_clientID d) \<noteq> globalID (cc_clientID c)) (ss_conns s) \<rparr>)"

definition handleDisconnectRequest :: "stub_env \<Rightarrow> SPartyID \<Rightarrow> stub_server \<Rightarrow> stub_server" where
  "handleDisconnectRequest E cid s =
     (case find_conn cid (ss_conns s) of
        None \<Rightarrow> s
      | Some c \<Rightarrow>
          drop_client E c
            (if cc_notificationID c \<noteq> 0 then call_broker (Clear_notification (cc_notificationID c)) s else s))"

definition handleClientDetached :: "stub_env \<Rightarrow> u32 \<Rightarrow> stub_server \<Rightarrow> bool \<times> stub_server" where
  "handleClientDetached E i s =
     (case find (\<lambda>c. cc_id c = i) (ss_conns s) of
        None \<Rightarrow> (False, s)
      | Some c \<Rightarrow> (True, drop_client E c s))"

text \<open>Registering at the servicebroker: the id is set when the call succeeds.\<close>

definition cs_registerInterface :: "stub_env \<Rightarrow> u32 \<Rightarrow> stub_server \<Rightarrow> stub_server" where
  "cs_registerInterface E channel s =
     (let s' = call_broker (Register_interface channel) s
      in case sve_register E (ss_calls s) of Some sid \<Rightarrow> s'\<lparr> ss_serverID := sid \<rparr> | None \<Rightarrow> s')"

definition registerInterfaceTCP :: "stub_env \<Rightarrow> u32 \<Rightarrow> int \<Rightarrow> stub_server \<Rightarrow> stub_server" where
  "registerInterfaceTCP E address port s =
     (if ss_tcpEnabled s \<and> port > 0 then
        let s' = call_broker (Register_interface_TCP address port) s
        in case sve_register E (ss_calls s) of Some sid \<Rightarrow> s'\<lparr> ss_tcpServerID := sid \<rparr> | None \<Rightarrow> s'
      else s)"

definition cleanupClientConnection :: "client_conn \<Rightarrow> stub_server \<Rightarrow> stub_server" where
  "cleanupClientConnection c s =
     cs_removeNotification (cc_clientID c) INVALID_ID (call_broker (Clear_notification (cc_notificationID c)) s)"

definition unregisterInterface :: "stub_server \<Rightarrow> stub_server" where
  "unregisterInterface s =
     (let s = (fold cleanupClientConnection (ss_conns s) s)\<lparr> ss_conns := [] \<rparr>;
          s = (if globalID (ss_serverID s) \<noteq> 0
               then (call_broker (Unregister_interface (ss_serverID s)) s)\<lparr> ss_serverID := party_assign 0 \<rparr> else s)
      in if globalID (ss_tcpServerID s) \<noteq> 0
         then (call_broker (Unregister_interface (ss_tcpServerID s)) s)\<lparr> ss_tcpServerID := party_assign 0 \<rparr>
         else s)"

end
