(* ===== verification/Stub_Client.thy ===== *)
theory Stub_Client
  imports Stub_Server
begin

text \<open>
  The base class of the proxies, \<^verbatim>\<open>src/base/CClient.cpp\<close>, with the state machine that connects it to its
  server, \<^verbatim>\<open>CClientConnectSM.cpp\<close>. The servicebroker and the communication engine answer through the
  environment; calls, messages and callbacks are logged in order. Assertions are errors.
\<close>

section \<open>Data\<close>

text \<open>The weak pointer to the channel; a new client has the dummy channel, which never expires.\<close>

datatype client_channel = Dummy_channel | Channel nat | No_channel

record conn_info =
  ki_clientID :: SPartyID
  ki_serverID :: SPartyID
  ki_nid :: u32
  ki_pid :: u32
  ki_chid :: u32

record tcp_info =
  ti_clientID :: SPartyID
  ti_serverID :: SPartyID
  ti_ipaddress :: u32
  ti_port :: u32

record connector =
  cn_conn :: conn_info
  cn_tcp :: tcp_info
  cn_channel :: "nat option"

datatype client_call =
    Attach_interface
  | Attach_interface_TCP
  | Detach_interface SPartyID
  | Set_server_available u32
  | Set_server_disconnect SPartyID u32
  | Clear_client_notification u32

datatype client_msg =
    Connect_request nat SPartyID SPartyID u32 u32
  | Connect_request_TCP nat SPartyID SPartyID u32 u32
  | Disconnect_request client_channel SPartyID SPartyID
  | Data_request client_channel SPartyID SPartyID u16 request_type u32 u32

datatype callback = Component_connected | Component_disconnected | Process_response u32 u32

record stub_client =
  sc_id :: u32
  sc_engine :: bool
  sc_notificationID :: u32
  sc_channel :: client_channel
  sc_connector :: "connector option"
  sc_protoMinor :: u16
  sc_clientID :: SPartyID
  sc_serverID :: SPartyID
  sc_sequenceNr :: u32
  sc_nextId :: u32
  sc_calls :: "client_call list"
  sc_sent :: "client_msg list"
  sc_callbacks :: "callback list"

datatype client_error = Assert_channel | Assert_engine | Assert_connector

text \<open>Answers of the servicebroker (by the calls so far) and of the engine.\<close>

record client_env =
  ce_attachInterface :: "client_call list \<Rightarrow> conn_info option"
  ce_attachInterfaceTCP :: "client_call list \<Rightarrow> tcp_info option"
  ce_notification :: "client_call list \<Rightarrow> u32"
  ce_tcpForced :: bool
  ce_attach :: "u32 \<Rightarrow> u32 \<Rightarrow> nat option"
  ce_attachTCP :: "u32 \<Rightarrow> u32 \<Rightarrow> bool \<Rightarrow> nat option"
  ce_localName :: "nat \<Rightarrow> u32 option"
  ce_flush :: "nat \<Rightarrow> bool"
  ce_alive :: "nat \<Rightarrow> bool"
  ce_pid :: u32
  ce_localChannel :: u32
  ce_ipPort :: u32

definition zero_conn :: conn_info where
  "zero_conn = \<lparr> ki_clientID = party_assign 0, ki_serverID = party_assign 0, ki_nid = 0, ki_pid = 0, ki_chid = 0 \<rparr>"

definition zero_tcp :: tcp_info where
  "zero_tcp = \<lparr> ti_clientID = party_assign 0, ti_serverID = party_assign 0, ti_ipaddress = 0, ti_port = 0 \<rparr>"

text \<open>An id that is not 0.\<close>

definition set_id :: "SPartyID \<Rightarrow> bool" where
  "set_id p \<longleftrightarrow> globalID p \<noteq> 0"

definition channel_expired :: "client_env \<Rightarrow> client_channel \<Rightarrow> bool" where
  "channel_expired E ch = (case ch of Dummy_channel \<Rightarrow> False | Channel n \<Rightarrow> \<not> ce_alive E n | No_channel \<Rightarrow> True)"

definition channel_of :: "nat option \<Rightarrow> client_channel" where
  "channel_of ch = (case ch of None \<Rightarrow> No_channel | Some n \<Rightarrow> Channel n)"

definition call_sb :: "client_call \<Rightarrow> stub_client \<Rightarrow> stub_client" where
  "call_sb c s = s\<lparr> sc_calls := sc_calls s @ [c] \<rparr>"

definition send_msg :: "client_msg \<Rightarrow> stub_client \<Rightarrow> stub_client" where
  "send_msg m s = s\<lparr> sc_sent := sc_sent s @ [m] \<rparr>"

definition call_back :: "callback \<Rightarrow> stub_client \<Rightarrow> stub_client" where
  "call_back c s = s\<lparr> sc_callbacks := sc_callbacks s @ [c] \<rparr>"

section \<open>Notifications and the end of a connection\<close>

definition setServerAvailableNotification :: "client_env \<Rightarrow> stub_client \<Rightarrow> stub_client" where
  "setServerAvailableNotification E s =
     (call_sb (Set_server_available (sc_id s)) s)\<lparr> sc_notificationID := ce_notification E (sc_calls s) \<rparr>"

definition cc_removeNotification :: "stub_client \<Rightarrow> stub_client" where
  "cc_removeNotification s =
     (if sc_notificationID s \<noteq> 0
      then (call_sb (Clear_client_notification (sc_notificationID s)) s)\<lparr> sc_notificationID := 0 \<rparr> else s)"

definition sendDisconnectRequest :: "client_env \<Rightarrow> stub_client \<Rightarrow> client_error + stub_client" where
  "sendDisconnectRequest E s =
     (if channel_expired E (sc_channel s) then Inl Assert_channel
      else Inr (send_msg (Disconnect_request (sc_channel s) (sc_clientID s) (sc_serverID s)) s))"

text \<open>What follows the disconnect request.\<close>

definition detach_rest :: "client_env \<Rightarrow> bool \<Rightarrow> stub_client \<Rightarrow> stub_client" where
  "detach_rest E resetNotification s =
     (let s = (if set_id (sc_serverID s)
               then (if sc_engine s then call_back Component_disconnected s else s)\<lparr> sc_serverID := party_assign 0 \<rparr>
               else s)
      in if resetNotification \<and> sc_engine s then setServerAvailableNotification E s else s)"

definition detachInterface :: "client_env \<Rightarrow> bool \<Rightarrow> stub_client \<Rightarrow> client_error + stub_client" where
  "detachInterface E resetNotification s =
     (let s = (cc_removeNotification s)\<lparr> sc_connector := None \<rparr> in
      if set_id (sc_clientID s) then
        (case sendDisconnectRequest E s of
           Inl e \<Rightarrow> Inl e
         | Inr s \<Rightarrow> Inr (detach_rest E resetNotification
             ((call_sb (Detach_interface (sc_clientID s)) s)\<lparr> sc_clientID := party_assign 0 \<rparr>)))
      else Inr (detach_rest E resetNotification s))"

section \<open>Connecting\<close>

definition onFailure :: "client_env \<Rightarrow> connector \<Rightarrow> stub_client \<Rightarrow> client_error + stub_client" where
  "onFailure E cn s =
     (let s = (if set_id (ti_clientID (cn_tcp cn)) then call_sb (Detach_interface (ti_clientID (cn_tcp cn))) s else s);
          s = (if set_id (ki_clientID (cn_conn cn)) then call_sb (Detach_interface (ki_clientID (cn_conn cn))) s else s)
      in detachInterface E True s)"

definition finalizeConnectRequest :: "client_env \<Rightarrow> stub_client \<Rightarrow> stub_client" where
  "finalizeConnectRequest E s =
     (let s = (call_sb (Set_server_disconnect (sc_serverID s) (sc_id s)) s)\<lparr> sc_notificationID := ce_notification E (sc_calls s) \<rparr>;
          s = call_back Component_connected s
      in s\<lparr> sc_connector := None \<rparr>)"

text \<open>The id is set before the request is sent.\<close>

definition initiateConnectRequest :: "client_env \<Rightarrow> nat \<Rightarrow> conn_info \<Rightarrow> stub_client \<Rightarrow> bool \<times> stub_client" where
  "initiateConnectRequest E ch ci s =
     (let s = s\<lparr> sc_clientID := ki_clientID ci \<rparr>
      in (ce_flush E ch,
          send_msg (Connect_request ch (ki_clientID ci) (ki_serverID ci) (ce_pid E) (ce_localChannel E)) s))"

definition initiateConnectRequestTCP :: "client_env \<Rightarrow> nat \<Rightarrow> tcp_info \<Rightarrow> stub_client \<Rightarrow> bool \<times> stub_client" where
  "initiateConnectRequestTCP E ch ti s =
     (if sc_engine s then
        (case ce_localName E ch of
           None \<Rightarrow> (False, s)
         | Some ip \<Rightarrow> (ce_flush E ch, send_msg (Connect_request_TCP ch (ti_clientID ti) (ti_serverID ti) ip (ce_ipPort E)) s))
      else (False, s))"

text \<open>The attempt over TCP: the state machine, whether it waits for the response now, the state.\<close>

definition attach_tcp :: "client_env \<Rightarrow> connector \<Rightarrow> stub_client \<Rightarrow> connector \<times> bool \<times> stub_client" where
  "attach_tcp E cn s =
     (let answer = ce_attachInterfaceTCP E (sc_calls s);
          s = call_sb Attach_interface_TCP s
      in case answer of
           None \<Rightarrow> (cn, False, s)
         | Some ti \<Rightarrow>
             let ch = ce_attachTCP E (ti_ipaddress ti) (ti_port ti) True;
                 cn = cn\<lparr> cn_tcp := ti, cn_channel := ch \<rparr>
             in case ch of
                  None \<Rightarrow> (cn, False, s)
                | Some n \<Rightarrow>
                    (case initiateConnectRequestTCP E n ti s of
                       (True, s) \<Rightarrow>
                         (cn\<lparr> cn_conn := (cn_conn cn)\<lparr> ki_clientID := party_assign 0 \<rparr> \<rparr>, True,
                          call_sb (Detach_interface (ki_clientID (cn_conn cn))) s)
                     | (False, s) \<Rightarrow> (cn, False, s)))"

definition attach_local :: "client_env \<Rightarrow> connector \<Rightarrow> stub_client \<Rightarrow> connector \<times> bool \<times> stub_client" where
  "attach_local E cn s =
     (if ki_nid (cn_conn cn) = 0 then
        let ch = ce_attach E (ki_pid (cn_conn cn)) (ki_chid (cn_conn cn));
            cn = cn\<lparr> cn_channel := ch \<rparr>
        in case ch of
             None \<Rightarrow> (cn, False, s)
           | Some n \<Rightarrow>
               (case initiateConnectRequest E n (cn_conn cn) s of
                  (True, s) \<Rightarrow>
                    (cn, True, if set_id (ti_clientID (cn_tcp cn))
                       then call_sb (Detach_interface (ti_clientID (cn_tcp cn))) s else s)
                | (False, s) \<Rightarrow> (cn, False, s))
      else (cn, False, s))"

text \<open>TCP first if it is forced or the server is on another node; the local channel if there is none after that.\<close>

definition choose_transport :: "client_env \<Rightarrow> conn_info \<Rightarrow> stub_client \<Rightarrow> connector \<times> bool \<times> stub_client" where
  "choose_transport E ci s =
     (let cn = \<lparr> cn_conn = ci, cn_tcp = zero_tcp, cn_channel = None \<rparr>;
          (cn, waiting, s) =
            (if ce_tcpForced E \<or> ki_nid ci \<noteq> 0 then attach_tcp E cn s else (cn, False, s))
      in if cn_channel cn = None then attach_local E cn s else (cn, waiting, s))"

definition sm_attach :: "client_env \<Rightarrow> stub_client \<Rightarrow> client_error + stub_client" where
  "sm_attach E s =
     (let answer = ce_attachInterface E (sc_calls s);
          s = call_sb Attach_interface s
      in case answer of
           None \<Rightarrow> onFailure E \<lparr> cn_conn = zero_conn, cn_tcp = zero_tcp, cn_channel = None \<rparr> s
         | Some ci \<Rightarrow>
             (case choose_transport E ci s of
                (cn, waiting, s) \<Rightarrow> if waiting then Inr (s\<lparr> sc_connector := Some cn \<rparr>) else onFailure E cn s))"

definition attachInterface :: "client_env \<Rightarrow> stub_client \<Rightarrow> client_error + stub_client" where
  "attachInterface E s =
     (if \<not> sc_engine s then Inl Assert_engine
      else if sc_connector s \<noteq> None then Inl Assert_connector
      else sm_attach E s)"

text \<open>The response over the local transport.\<close>

definition sm_handleConnectResponse ::
  "client_env \<Rightarrow> connector \<Rightarrow> SPartyID \<Rightarrow> u16 \<Rightarrow> u32 \<Rightarrow> u32 \<Rightarrow> stub_client \<Rightarrow> client_error + stub_client" where
  "sm_handleConnectResponse E cn sid proto pid chid s =
     (if pid \<noteq> 0 then
        Inr (finalizeConnectRequest E (s\<lparr> sc_serverID := sid, sc_channel := channel_of (ce_attach E pid chid),
          sc_protoMinor := min_protoMinor proto \<rparr>))
      else onFailure E cn s)"

definition cc_handleConnectResponse ::
  "client_env \<Rightarrow> SPartyID \<Rightarrow> u16 \<Rightarrow> u32 \<Rightarrow> u32 \<Rightarrow> stub_client \<Rightarrow> client_error + stub_client" where
  "cc_handleConnectResponse E sid proto pid chid s =
     (case sc_connector s of
        None \<Rightarrow> Inl Assert_connector
      | Some cn \<Rightarrow> sm_handleConnectResponse E cn sid proto pid chid s)"

text \<open>
  The response over TCP: the first eight bytes are the address of a legacy server or the start of a
  header; in the second case the rest is read behind it.
\<close>

definition connected_tcp :: "client_env \<Rightarrow> connector \<Rightarrow> u32 \<Rightarrow> u32 \<Rightarrow> u16 \<Rightarrow> stub_client \<Rightarrow> client_error + stub_client" where
  "connected_tcp E cn ip port proto s =
     (if ip \<noteq> 0 then
        Inr (finalizeConnectRequest E (s\<lparr> sc_clientID := ti_clientID (cn_tcp cn), sc_serverID := ti_serverID (cn_tcp cn),
          sc_channel := channel_of (ce_attachTCP E ip port False), sc_protoMinor := proto \<rparr>))
      else onFailure E cn s)"

definition onLegacyConnectRequestTCP ::
  "client_env \<Rightarrow> connector \<Rightarrow> u32 \<Rightarrow> u32 \<Rightarrow> message_header \<Rightarrow> u32 \<times> u32 \<Rightarrow> stub_client \<Rightarrow> client_error + stub_client" where
  "onLegacyConnectRequestTCP E cn ip port hdr info s =
     (if ip = DSI_MESSAGE_MAGIC then
        if h_cmd hdr = dsi_command_code ConnectResponse
        then connected_tcp E cn (fst info) (snd info) (min_protoMinor (h_protoMinor hdr)) s
        else onFailure E cn s
      else connected_tcp E cn ip port DSI_PROTOCOL_VERSION_MINOR s)"

definition readHandlerTCP ::
  "client_env \<Rightarrow> bool \<Rightarrow> connector \<Rightarrow> u32 \<Rightarrow> u32 \<Rightarrow> message_header \<Rightarrow> u32 \<times> u32 \<Rightarrow> stub_client \<Rightarrow> client_error + stub_client" where
  "readHandlerTCP E ok cn ip port hdr info s =
     (if ok then onLegacyConnectRequestTCP E cn ip port hdr info s else onFailure E cn s)"

section \<open>Requests and responses\<close>

definition isConnected :: "client_env \<Rightarrow> stub_client \<Rightarrow> bool" where
  "isConnected E s \<longleftrightarrow>
     set_id (sc_clientID s) \<and> set_id (sc_serverID s) \<and> \<not> channel_expired E (sc_channel s)"

text \<open>A data request; without a sequence number the writer makes up one.\<close>

definition send_request :: "client_env \<Rightarrow> request_type \<Rightarrow> u32 \<Rightarrow> u16 \<Rightarrow> u32 \<Rightarrow> stub_client \<Rightarrow> client_error + stub_client" where
  "send_request E rt i proto seqNr s =
     (if channel_expired E (sc_channel s) then Inl Assert_channel
      else
        let (seqNr, s) = (if seqNr = INVALID_SEQUENCE_NR then (sc_nextId s, s\<lparr> sc_nextId := sc_nextId s + 1 \<rparr>) else (seqNr, s))
        in Inr (send_msg (Data_request (sc_channel s) (sc_clientID s) (sc_serverID s) proto rt i seqNr) s))"

text \<open>
  The arguments for the protocol version and the sequence number are exchanged in the call of the
  writer's constructor, or the version is missing there.
\<close>

definition setNotification :: "client_env \<Rightarrow> u32 \<Rightarrow> stub_client \<Rightarrow> client_error + stub_client" where
  "setNotification E i s = send_request E REQUEST_NOTIFY i (ucast INVALID_SEQUENCE_NR) (ucast (sc_protoMinor s)) s"

definition cc_clearNotification :: "client_env \<Rightarrow> u32 \<Rightarrow> stub_client \<Rightarrow> client_error + stub_client" where
  "cc_clearNotification E i s =
     send_request E REQUEST_STOP_NOTIFY i (ucast INVALID_SEQUENCE_NR) INVALID_SEQUENCE_NR s"

definition clearAllNotifications :: "client_env \<Rightarrow> stub_client \<Rightarrow> client_error + stub_client" where
  "clearAllNotifications E s =
     send_request E REQUEST_STOP_ALL_NOTIFY INVALID_ID (ucast INVALID_SEQUENCE_NR) INVALID_SEQUENCE_NR s"

definition handleDataResponse :: "u16 \<Rightarrow> u32 \<Rightarrow> u32 \<Rightarrow> stub_client \<Rightarrow> stub_client" where
  "handleDataResponse proto i seqNr s =
     (if sc_protoMinor s \<noteq> proto then s
      else (call_back (Process_response i seqNr) (s\<lparr> sc_sequenceNr := seqNr \<rparr>))\<lparr> sc_sequenceNr := INVALID_SEQUENCE_NR \<rparr>)"

definition new_stub_client :: "u32 \<Rightarrow> u32 \<Rightarrow> stub_client" where
  "new_stub_client i next =
     \<lparr> sc_id = i, sc_engine = False, sc_notificationID = 0, sc_channel = Dummy_channel, sc_connector = None,
       sc_protoMinor = 0, sc_clientID = party_assign 0, sc_serverID = party_assign 0,
       sc_sequenceNr = INVALID_SEQUENCE_NR, sc_nextId = next, sc_calls = [], sc_sent = [], sc_callbacks = [] \<rparr>"

section \<open>Connected and disconnected alternate\<close>

text \<open>What the callbacks so far have told the proxy; \<open>None\<close> if they contradict each other.\<close>

fun told_step :: "callback \<Rightarrow> bool option \<Rightarrow> bool option" where
  "told_step Component_connected st = (if st = Some False then Some True else None)"
| "told_step Component_disconnected st = (if st = Some True then Some False else None)"
| "told_step (Process_response i n) st = st"

definition told :: "callback list \<Rightarrow> bool option" where
  "told cs = fold told_step cs (Some False)"

lemma told_snoc [simp]: "told (cs @ [c]) = told_step c (told cs)" "told [] = Some False"
  by (simp_all add: told_def)

text \<open>
  The client belongs to an engine, knows a server exactly when its proxy has been told so, and while it
  connects it knows none.
\<close>

definition client_ok :: "stub_client \<Rightarrow> bool" where
  "client_ok s \<longleftrightarrow> sc_engine s \<and> told (sc_callbacks s) = Some (set_id (sc_serverID s)) \<and>
     (sc_connector s \<noteq> None \<longrightarrow> \<not> set_id (sc_serverID s)) \<and>
     (sc_connector s = None \<longrightarrow> set_id (sc_clientID s) = set_id (sc_serverID s)) \<and>
     (\<forall>cn. sc_connector s = Some cn \<longrightarrow> set_id (sc_clientID s) \<or> set_id (ti_clientID (cn_tcp cn)) \<and> set_id (ti_serverID (cn_tcp cn)))"

definition idle :: "stub_client \<Rightarrow> bool" where
  "idle s \<longleftrightarrow> sc_connector s = None \<and> \<not> set_id (sc_clientID s) \<and> \<not> set_id (sc_serverID s)"

lemma set_id_zero [simp]: "\<not> set_id (party_assign 0)"
  by (simp add: set_id_def globalID_zero_iff)

lemmas client_log_defs = call_sb_def send_msg_def call_back_def

lemma detach_idle:
  assumes "sc_engine s" "told (sc_callbacks s) = Some (set_id (sc_serverID s))" "detachInterface E r s = Inr s'"
  shows "sc_engine s' \<and> told (sc_callbacks s') = Some False \<and> idle s'"
  using assms
  by (auto simp: detachInterface_def cc_removeNotification_def sendDisconnectRequest_def detach_rest_def Let_def
      client_log_defs idle_def setServerAvailableNotification_def split: if_splits)

lemma idle_ok: "sc_engine s \<Longrightarrow> told (sc_callbacks s) = Some False \<Longrightarrow> idle s \<Longrightarrow> client_ok s"
  by (simp add: client_ok_def idle_def)

lemma failure_idle:
  assumes "sc_engine s" "told (sc_callbacks s) = Some (set_id (sc_serverID s))" "onFailure E cn s = Inr s'"
  shows "client_ok s'"
proof -
  have "\<exists>calls. detachInterface E True (s\<lparr> sc_calls := calls \<rparr>) = Inr s'"
    using assms(3) by (auto simp: onFailure_def Let_def call_sb_def split: if_splits)
      (metis stub_client.surjective stub_client.update_convs(11))
  then show ?thesis
    using detach_idle [of "s\<lparr> sc_calls := calls \<rparr>" for calls] assms(1,2) idle_ok by fastforce
qed

text \<open>The ids the servicebroker gives out are not 0.\<close>

definition ids_given :: "client_env \<Rightarrow> bool" where
  "ids_given E \<longleftrightarrow>
     (\<forall>calls ci. ce_attachInterface E calls = Some ci \<longrightarrow> set_id (ki_clientID ci)) \<and>
     (\<forall>calls ti. ce_attachInterfaceTCP E calls = Some ti \<longrightarrow> set_id (ti_clientID ti) \<and> set_id (ti_serverID ti))"

text \<open>The parts of the state the attempts leave alone.\<close>

definition same_peer :: "stub_client \<Rightarrow> stub_client \<Rightarrow> bool" where
  "same_peer s s' \<longleftrightarrow> sc_engine s' = sc_engine s \<and> sc_callbacks s' = sc_callbacks s \<and>
     sc_serverID s' = sc_serverID s \<and> sc_channel s' = sc_channel s"

lemma attach_tcp_result:
  assumes "attach_tcp E cn s = (cn', waiting, s')" "ids_given E"
  shows "same_peer s s' \<and> sc_clientID s' = sc_clientID s \<and>
    (waiting \<longrightarrow> cn_channel cn' \<noteq> None \<and> set_id (ti_clientID (cn_tcp cn')) \<and> set_id (ti_serverID (cn_tcp cn'))) \<and>
    (\<not> waiting \<longrightarrow> cn_conn cn' = cn_conn cn)"
  using assms
  by (auto simp: attach_tcp_def initiateConnectRequestTCP_def Let_def client_log_defs same_peer_def ids_given_def
      split: option.splits prod.splits if_splits bool.splits)

lemma attach_local_result:
  assumes "attach_local E cn s = (cn', waiting, s')"
  shows "same_peer s s' \<and> (waiting \<longrightarrow> sc_clientID s' = ki_clientID (cn_conn cn))"
  using assms
  by (auto simp: attach_local_def initiateConnectRequest_def Let_def client_log_defs same_peer_def
      split: option.splits prod.splits if_splits bool.splits)

lemma same_peer_trans: "same_peer s s1 \<Longrightarrow> same_peer s1 s2 \<Longrightarrow> same_peer s s2"
  by (simp add: same_peer_def)

lemma choose_transport_result:
  assumes "choose_transport E ci s = (cn, waiting, s')" "ids_given E" "set_id (ki_clientID ci)"
  shows "same_peer s s'"
    "waiting \<Longrightarrow> set_id (sc_clientID s') \<or> set_id (ti_clientID (cn_tcp cn)) \<and> set_id (ti_serverID (cn_tcp cn))"
proof -
  let ?cn = "\<lparr> cn_conn = ci, cn_tcp = zero_tcp, cn_channel = None \<rparr>"
  obtain cn1 w1 s1 where r1: "(if ce_tcpForced E \<or> ki_nid ci \<noteq> 0 then attach_tcp E ?cn s else (?cn, False, s)) = (cn1, w1, s1)"
    using prod_cases3 by blast
  have r2: "(if cn_channel cn1 = None then attach_local E cn1 s1 else (cn1, w1, s1)) = (cn, waiting, s')"
    using assms(1) unfolding choose_transport_def Let_def r1 by simp
  have t1: "same_peer s s1 \<and> (w1 \<longrightarrow> cn_channel cn1 \<noteq> None \<and> set_id (ti_clientID (cn_tcp cn1)) \<and> set_id (ti_serverID (cn_tcp cn1))) \<and>
    (\<not> w1 \<longrightarrow> cn_conn cn1 = ci)"
  proof (cases "ce_tcpForced E \<or> ki_nid ci \<noteq> 0")
    case True
    then have "attach_tcp E ?cn s = (cn1, w1, s1)" using r1 by simp
    from attach_tcp_result [OF this assms(2)] show ?thesis by simp
  next
    case False
    then show ?thesis using r1 by (auto simp: same_peer_def)
  qed
  show "same_peer s s'"
    using r2 t1 attach_local_result [of E cn1 s1 cn waiting s'] same_peer_trans [of s s1 s'] by (auto split: if_splits)
  show "set_id (sc_clientID s') \<or> set_id (ti_clientID (cn_tcp cn)) \<and> set_id (ti_serverID (cn_tcp cn))" if waiting
    using that r2 t1 assms(3) attach_local_result [of E cn1 s1 cn waiting s'] by (auto split: if_splits)
qed

lemma sm_attach_ok:
  assumes "client_ok s" "idle s" "ids_given E" "sm_attach E s = Inr s'"
  shows "client_ok s'"
proof -
  let ?s = "call_sb Attach_interface s"
  have base: "sc_engine s" "told (sc_callbacks s) = Some (set_id (sc_serverID s))" "\<not> set_id (sc_serverID s)"
    using assms(1,2) by (simp_all add: client_ok_def idle_def)
  have s: "same_peer s ?s" by (simp add: same_peer_def call_sb_def)
  have fail: "client_ok s'" if "onFailure E cn s1 = Inr s'" "same_peer s s1" for cn s1
    using failure_idle [OF _ _ that(1)] base that(2) by (simp add: same_peer_def)
  show ?thesis
  proof (cases "ce_attachInterface E (sc_calls s)")
    case None
    then show ?thesis using assms(4) fail s by (simp add: sm_attach_def)
  next
    case (Some ci)
    obtain cn w s1 where r: "choose_transport E ci ?s = (cn, w, s1)" using prod_cases3 by blast
    have id: "set_id (ki_clientID ci)" using Some assms(3) by (simp add: ids_given_def)
    note res = choose_transport_result [OF r assms(3) id]
    have p: "same_peer s s1" using same_peer_trans [OF s res(1)] .
    have e: "sm_attach E s = (if w then Inr (s1\<lparr> sc_connector := Some cn \<rparr>) else onFailure E cn s1)"
      using Some r by (simp add: sm_attach_def)
    show ?thesis
    proof (cases w)
      case True
      then have "s' = s1\<lparr> sc_connector := Some cn \<rparr>" using e assms(4) by simp
      then show ?thesis using res(2) [OF True] p base by (simp add: client_ok_def same_peer_def)
    next
      case False
      then show ?thesis using e assms(4) fail [OF _ p] by simp
    qed
  qed
qed

lemma finalize_ok:
  assumes "sc_engine s" "told (sc_callbacks s) = Some False" "set_id (sc_clientID s)" "set_id (sc_serverID s)"
  shows "client_ok (finalizeConnectRequest E s)"
  using assms by (simp add: client_ok_def finalizeConnectRequest_def Let_def client_log_defs)

text \<open>
  The events of a client. A pulse that announces the server comes while the client waits for it;
  a response comes from the server the request went to.
\<close>

inductive client_step :: "client_env \<Rightarrow> stub_client \<Rightarrow> stub_client \<Rightarrow> bool" for E where
  Available: "idle s \<Longrightarrow> attachInterface E s = Inr s' \<Longrightarrow> client_step E s s'"
| Lost: "detachInterface E True s = Inr s' \<Longrightarrow> client_step E s s'"
| Response: "set_id (sc_clientID s) \<Longrightarrow> set_id sid \<Longrightarrow> cc_handleConnectResponse E sid proto pid chid s = Inr s' \<Longrightarrow>
    client_step E s s'"
| Response_TCP: "sc_connector s = Some cn \<Longrightarrow> \<not> set_id (sc_clientID s) \<Longrightarrow>
    readHandlerTCP E ok cn ip port hdr info s = Inr s' \<Longrightarrow> client_step E s s'"
| Data_response: "client_step E s (handleDataResponse proto i seqNr s)"
| Request: "send_request E rt i proto seqNr s = Inr s' \<Longrightarrow> client_step E s s'"

inductive client_reachable :: "client_env \<Rightarrow> stub_client \<Rightarrow> stub_client \<Rightarrow> bool" for E s where
  start: "client_reachable E s s"
| step: "client_reachable E s s1 \<Longrightarrow> client_step E s1 s2 \<Longrightarrow> client_reachable E s s2"

lemma client_step_ok:
  assumes "client_step E s s'" "client_ok s" "ids_given E"
  shows "client_ok s'"
  using assms(1)
proof cases
  case Available
  then show ?thesis
    using sm_attach_ok [OF assms(2) _ assms(3)] by (simp add: attachInterface_def split: if_splits)
next
  case Lost
  moreover have "sc_engine s" "told (sc_callbacks s) = Some (set_id (sc_serverID s))"
    using assms(2) by (simp_all add: client_ok_def)
  ultimately show ?thesis using detach_idle idle_ok by blast
next
  case (Response sid proto pid chid)
  then obtain cn where cn: "sc_connector s = Some cn"
    by (auto simp: cc_handleConnectResponse_def split: option.splits)
  then have "told (sc_callbacks s) = Some False" "sc_engine s" using assms(2) by (simp_all add: client_ok_def)
  moreover have "told (sc_callbacks s) = Some (set_id (sc_serverID s))" using assms(2) by (simp add: client_ok_def)
  moreover have "sm_handleConnectResponse E cn sid proto pid chid s = Inr s'"
    using Response cn by (simp add: cc_handleConnectResponse_def)
  ultimately show ?thesis
    using Response finalize_ok [of "s\<lparr> sc_serverID := sid, sc_channel := c, sc_protoMinor := p \<rparr>" for c p]
      failure_idle [of s E cn s']
    by (auto simp: sm_handleConnectResponse_def split: if_splits)
next
  case (Response_TCP cn ok ip port hdr info)
  then have t: "told (sc_callbacks s) = Some False" "sc_engine s" "set_id (ti_clientID (cn_tcp cn))"
    "set_id (ti_serverID (cn_tcp cn))" "told (sc_callbacks s) = Some (set_id (sc_serverID s))"
    using assms(2) by (auto simp: client_ok_def)
  have c: "client_ok s'" if "connected_tcp E cn x y z s = Inr s'" for x y z
    using that t failure_idle [OF t(2,5)]
      finalize_ok [of "s\<lparr> sc_clientID := c, sc_serverID := d, sc_channel := e, sc_protoMinor := p \<rparr>" for c d e p]
    by (auto simp: connected_tcp_def split: if_splits)
  show ?thesis
    using Response_TCP(3) c failure_idle [OF t(2,5)]
    by (auto simp: readHandlerTCP_def onLegacyConnectRequestTCP_def split: if_splits)
next
  case (Data_response proto i seqNr)
  then show ?thesis using assms(2) by (simp add: client_ok_def handleDataResponse_def call_back_def)
next
  case (Request rt i proto seqNr)
  then show ?thesis
    using assms(2) by (auto simp: client_ok_def send_request_def send_msg_def Let_def split: if_splits)
qed

lemma client_reachable_ok:
  assumes "client_reachable E s s'" "client_ok s" "ids_given E"
  shows "client_ok s'"
  using assms by induction (auto intro: client_step_ok)

text \<open>The way to a connection over the local transport.\<close>

lemma local_connect:
  assumes "idle s" "sc_engine s" "ce_attachInterface E (sc_calls s) = Some ci" "\<not> ce_tcpForced E" "ki_nid ci = 0"
    "ce_attach E (ki_pid ci) (ki_chid ci) = Some n" "ce_flush E n" "set_id (ki_clientID ci)" "set_id sid" "pid \<noteq> 0"
    "ce_attach E pid chid = Some m" "ce_alive E m"
  shows "\<exists>s1 s2. attachInterface E s = Inr s1 \<and> cc_handleConnectResponse E sid proto pid chid s1 = Inr s2 \<and>
    isConnected E s2 \<and> sc_clientID s2 = ki_clientID ci \<and> sc_serverID s2 = sid \<and> sc_connector s2 = None \<and>
    sc_protoMinor s2 = min_protoMinor proto \<and> sc_callbacks s2 = sc_callbacks s @ [Component_connected] \<and>
    sc_sent s2 = sc_sent s @ [Connect_request n (ki_clientID ci) (ki_serverID ci) (ce_pid E) (ce_localChannel E)]"
proof -
  have "attachInterface E s = Inr (s\<lparr> sc_calls := sc_calls s @ [Attach_interface], sc_clientID := ki_clientID ci,
      sc_sent := sc_sent s @ [Connect_request n (ki_clientID ci) (ki_serverID ci) (ce_pid E) (ce_localChannel E)],
      sc_connector := Some \<lparr> cn_conn = ci, cn_tcp = zero_tcp, cn_channel = Some n \<rparr> \<rparr>)"
    using assms(1-7)
    by (simp add: attachInterface_def idle_def sm_attach_def choose_transport_def attach_local_def initiateConnectRequest_def Let_def
        client_log_defs zero_tcp_def)
  then show ?thesis
    using assms(8-12)
    by (simp add: cc_handleConnectResponse_def sm_handleConnectResponse_def finalizeConnectRequest_def Let_def
        client_log_defs isConnected_def channel_of_def channel_expired_def)
qed

section \<open>Where the client goes wrong\<close>

text \<open>
  A second attempt to connect, after the first connection and its channel have gone: if the request cannot be
  sent, a disconnect request for the new id is tried on the old channel, and the assertion fails.
\<close>

lemma reconnect_asserts:
  assumes "idle s" "sc_engine s" "sc_channel s = Channel k" "\<not> ce_alive E k" "sc_notificationID s = 0"
    "ce_attachInterface E (sc_calls s) = Some ci" "\<not> ce_tcpForced E" "ki_nid ci = 0" "set_id (ki_clientID ci)"
    "ce_attach E (ki_pid ci) (ki_chid ci) = Some n" "\<not> ce_flush E n"
  shows "attachInterface E s = Inl Assert_channel"
  using assms
  by (simp add: attachInterface_def idle_def sm_attach_def choose_transport_def attach_local_def initiateConnectRequest_def Let_def
      client_log_defs zero_tcp_def onFailure_def detachInterface_def cc_removeNotification_def
      sendDisconnectRequest_def channel_expired_def)

text \<open>A second pulse for an available server while the client connects stops the program.\<close>

lemma second_pulse_asserts:
  "sc_engine s \<Longrightarrow> sc_connector s = Some cn \<Longrightarrow> attachInterface E s = Inl Assert_connector"
  by (simp add: attachInterface_def)

text \<open>Losing the connection while the response over TCP is awaited: the id at the servicebroker is not given back.\<close>

lemma lost_while_connecting_leaks:
  assumes "sc_connector s = Some cn" "set_id (ti_clientID (cn_tcp cn))" "\<not> set_id (sc_clientID s)"
    "Detach_interface (ti_clientID (cn_tcp cn)) \<notin> set (sc_calls s)" "detachInterface E r s = Inr s'"
  shows "Detach_interface (ti_clientID (cn_tcp cn)) \<notin> set (sc_calls s') \<and> sc_connector s' = None"
  using assms
  by (auto simp: detachInterface_def cc_removeNotification_def detach_rest_def Let_def client_log_defs
      setServerAvailableNotification_def split: if_splits)

text \<open>Setting a notification sends the version 0, whatever was agreed with the server.\<close>

lemma setNotification_version:
  assumes "\<not> channel_expired E (sc_channel s)" "setNotification E i s = Inr s'"
  shows "\<exists>seqNr. sc_sent s' = sc_sent s @
    [Data_request (sc_channel s) (sc_clientID s) (sc_serverID s) 0 REQUEST_NOTIFY i seqNr]"
  using assms
  by (auto simp: setNotification_def send_request_def send_msg_def INVALID_SEQUENCE_NR_def Let_def split: if_splits)

end
