(* ===== verification/Comm_Engine.thy ===== *)
theory Comm_Engine
  imports Stub_Client
begin

text \<open>
  The communication engine, \<^verbatim>\<open>src/base/CCommEngine.cpp\<close>: the lists of clients and servers, the caches that
  map party ids to them, and the way of a message or a pulse from the socket to the object it is for. Clients
  and servers are objects at addresses; an address without an object is that of a destroyed one, and to
  dereference it is an error. The ids the objects of the process create come from one counter. Sockets,
  the dispatcher's loop and the connections behind \<^verbatim>\<open>attach\<close> are given by the environment of the objects;
  the cache of connections is modelled at the end.
\<close>

section \<open>Data\<close>

datatype engine_error =
    Destroyed nat
  | Iterator_erased
  | In_server stub_error
  | In_client client_error
  | In_stream stream_error

record engine =
  en_open :: bool
  en_active :: bool
  en_clientList :: "nat list"
  en_serverList :: "nat list"
  en_serverCache :: "(u64 \<times> nat) list"
  en_clientCache :: "(u64 \<times> nat) list"
  en_clients :: "nat \<rightharpoonup> stub_client"
  en_servers :: "nat \<rightharpoonup> stub_server"
  en_attached :: "nat set"
  en_nextId :: u32
  en_out :: "out_msg list"

text \<open>The environment: of each object, of the reader, and the answers of the sockets.\<close>

record engine_env =
  ge_client :: "nat \<Rightarrow> client_env"
  ge_server :: "nat \<Rightarrow> stub_env"
  ge_platform :: platform
  ge_isTCP :: "nat \<Rightarrow> bool"
  ge_sends :: "nat \<Rightarrow> bool"
  ge_opens :: bool
  ge_listens :: bool
  ge_localFd :: u32
  ge_localIp :: u32
  ge_ipPort :: int

definition PULSE_SERVER_AVAILABLE :: u32 where "PULSE_SERVER_AVAILABLE = 100"
definition PULSE_SERVER_DISCONNECT :: u32 where "PULSE_SERVER_DISCONNECT = 101"
definition PULSE_CLIENT_DETACHED :: u32 where "PULSE_CLIENT_DETACHED = 102"

definition sizeof_ConnectRequestInfo :: nat where "sizeof_ConnectRequestInfo = 8"

text \<open>A call of a method of a server or a client.\<close>

definition on_server :: "nat \<Rightarrow> (stub_server \<Rightarrow> stub_error + stub_server) \<Rightarrow> engine \<Rightarrow> engine_error + engine" where
  "on_server a f e =
     (case en_servers e a of
        None \<Rightarrow> Inl (Destroyed a)
      | Some s \<Rightarrow>
          (case f (s\<lparr> ss_nextId := en_nextId e \<rparr>) of
             Inl x \<Rightarrow> Inl (In_server x)
           | Inr s \<Rightarrow> Inr (e\<lparr> en_servers := (en_servers e)(a \<mapsto> s), en_nextId := ss_nextId s \<rparr>)))"

definition on_client :: "nat \<Rightarrow> (stub_client \<Rightarrow> client_error + stub_client) \<Rightarrow> engine \<Rightarrow> engine_error + engine" where
  "on_client a f e =
     (case en_clients e a of
        None \<Rightarrow> Inl (Destroyed a)
      | Some c \<Rightarrow>
          (case f (c\<lparr> sc_nextId := en_nextId e \<rparr>) of
             Inl x \<Rightarrow> Inl (In_client x)
           | Inr c \<Rightarrow> Inr (e\<lparr> en_clients := (en_clients e)(a \<mapsto> c), en_nextId := sc_nextId c \<rparr>)))"

fun on_all :: "(nat \<Rightarrow> engine \<Rightarrow> engine_error + engine) \<Rightarrow> nat list \<Rightarrow> engine \<Rightarrow> engine_error + engine" where
  "on_all f [] e = Inr e"
| "on_all f (a # as) e = (case f a e of Inl x \<Rightarrow> Inl x | Inr e \<Rightarrow> on_all f as e)"

section \<open>Finding clients and servers\<close>

text \<open>\<^verbatim>\<open>std::find_if\<close> over a vector of pointers.\<close>

fun find_object :: "(nat \<rightharpoonup> 'a) \<Rightarrow> ('a \<Rightarrow> bool) \<Rightarrow> nat list \<Rightarrow> engine_error + nat option" where
  "find_object h P [] = Inr None"
| "find_object h P (a # as) =
     (case h a of
        None \<Rightarrow> Inl (Destroyed a)
      | Some x \<Rightarrow> if P x then Inr (Some a) else find_object h P as)"

text \<open>Assignment to an element of a \<^verbatim>\<open>std::map\<close>, and erasing the first entry of a value.\<close>

fun cache_put :: "u64 \<Rightarrow> nat \<Rightarrow> (u64 \<times> nat) list \<Rightarrow> (u64 \<times> nat) list" where
  "cache_put k v [] = [(k, v)]"
| "cache_put k v ((l, w) # xs) =
     (if k < l then (k, v) # (l, w) # xs else if k = l then (k, v) # xs else (l, w) # cache_put k v xs)"

definition removeFromCache :: "nat \<Rightarrow> (u64 \<times> nat) list \<Rightarrow> (u64 \<times> nat) list" where
  "removeFromCache v xs = erase_first (\<lambda>(k, w). w = v) xs"

definition is_server_id :: "SPartyID \<Rightarrow> stub_server \<Rightarrow> bool" where
  "is_server_id sid s \<longleftrightarrow> party_eq (ss_serverID s) sid \<or> party_eq (ss_tcpServerID s) sid"

definition is_client_id :: "SPartyID \<Rightarrow> stub_client \<Rightarrow> bool" where
  "is_client_id cid c \<longleftrightarrow> globalID (sc_clientID c) = globalID cid"

definition server_key :: "engine \<Rightarrow> nat \<Rightarrow> u64" where
  "server_key e a = globalID (ss_serverID (the (en_servers e a)))"

definition client_key :: "engine \<Rightarrow> nat \<Rightarrow> u64" where
  "client_key e a = globalID (sc_clientID (the (en_clients e a)))"

definition findServer :: "SPartyID \<Rightarrow> engine \<Rightarrow> engine_error + (nat option \<times> engine)" where
  "findServer sid e =
     (case map_of (en_serverCache e) (globalID sid) of
        Some a \<Rightarrow> Inr (Some a, e)
      | None \<Rightarrow>
          (case find_object (en_servers e) (is_server_id sid) (en_serverList e) of
             Inl x \<Rightarrow> Inl x
           | Inr None \<Rightarrow> Inr (None, e)
           | Inr (Some a) \<Rightarrow> Inr (Some a, e\<lparr> en_serverCache := cache_put (server_key e a) a (en_serverCache e) \<rparr>)))"

definition findClient :: "SPartyID \<Rightarrow> engine \<Rightarrow> engine_error + (nat option \<times> engine)" where
  "findClient cid e =
     (case map_of (en_clientCache e) (globalID cid) of
        Some a \<Rightarrow> Inr (Some a, e)
      | None \<Rightarrow>
          (case find_object (en_clients e) (is_client_id cid) (en_clientList e) of
             Inl x \<Rightarrow> Inl x
           | Inr None \<Rightarrow> Inr (None, e)
           | Inr (Some a) \<Rightarrow> Inr (Some a, e\<lparr> en_clientCache := cache_put (client_key e a) a (en_clientCache e) \<rparr>)))"

definition findClient_id :: "u32 \<Rightarrow> engine \<Rightarrow> engine_error + nat option" where
  "findClient_id i e = find_object (en_clients e) (\<lambda>c. sc_id c = i) (en_clientList e)"

section \<open>Adding and removing\<close>

text \<open>Objects leave the lists by \<open>std_remove\<close>: \<^verbatim>\<open>std::remove\<close> without \<^verbatim>\<open>erase\<close>.\<close>

definition en_setNotification :: "engine_env \<Rightarrow> nat \<Rightarrow> engine \<Rightarrow> engine_error + engine" where
  "en_setNotification E a = on_client a (\<lambda>c. Inr (setServerAvailableNotification (ge_client E a) c))"

definition add_client :: "engine_env \<Rightarrow> nat \<Rightarrow> engine \<Rightarrow> engine_error + (bool \<times> engine)" where
  "add_client E a e =
     (case en_clients e a of
        None \<Rightarrow> Inl (Destroyed a)
      | Some c \<Rightarrow>
          if sc_engine c then Inr (False, e)
          else
            let e = e\<lparr> en_clients := (en_clients e)(a \<mapsto> c\<lparr> sc_engine := True \<rparr>), en_clientList := en_clientList e @ [a] \<rparr>
            in map_sum id (Pair True) (if en_active e then en_setNotification E a e else Inr e))"

definition remove_client :: "engine_env \<Rightarrow> nat \<Rightarrow> engine \<Rightarrow> engine_error + (bool \<times> engine)" where
  "remove_client E a e =
     (case en_clients e a of
        None \<Rightarrow> Inl (Destroyed a)
      | Some c \<Rightarrow>
          if sc_engine c then
            let e = e\<lparr> en_clientList := std_remove a (en_clientList e), en_clientCache := removeFromCache a (en_clientCache e) \<rparr>;
                r = (if en_active e then on_client a (detachInterface (ge_client E a) False) e else Inr e)
            in (case r of
                  Inl x \<Rightarrow> Inl x
                | Inr e \<Rightarrow> map_sum id (Pair True) (on_client a (\<lambda>c. Inr (c\<lparr> sc_engine := False \<rparr>)) e))
          else Inr (False, e))"

text \<open>The destructor clears the pointer to the engine before it asks the engine to forget the client.\<close>

definition destroy_client :: "engine_env \<Rightarrow> nat \<Rightarrow> engine \<Rightarrow> engine_error + engine" where
  "destroy_client E a e =
     (case en_clients e a of
        None \<Rightarrow> Inl (Destroyed a)
      | Some c \<Rightarrow>
          (case remove_client E a (e\<lparr> en_clients := (en_clients e)(a \<mapsto> c\<lparr> sc_engine := False \<rparr>) \<rparr>) of
             Inl x \<Rightarrow> Inl x
           | Inr (_, e) \<Rightarrow> Inr (e\<lparr> en_clients := (en_clients e)(a := None) \<rparr>)))"

definition register_tcp :: "engine_env \<Rightarrow> nat \<Rightarrow> stub_server \<Rightarrow> stub_server" where
  "register_tcp E a s =
     (if ss_tcpEnabled s then registerInterfaceTCP (ge_server E a) (ge_localIp E) (ge_ipPort E) s else s)"

definition en_registerInterface :: "engine_env \<Rightarrow> nat \<Rightarrow> engine \<Rightarrow> engine_error + engine" where
  "en_registerInterface E a =
     on_server a (\<lambda>s. Inr (cs_registerInterface (ge_server E a) (ge_localFd E) (register_tcp E a s)))"

text \<open>A server that is added to a running engine is registered over the local transport twice.\<close>

definition register_added :: "engine_env \<Rightarrow> nat \<Rightarrow> stub_server \<Rightarrow> stub_server" where
  "register_added E a s =
     cs_registerInterface (ge_server E a) (ge_localFd E)
       (register_tcp E a (cs_registerInterface (ge_server E a) (ge_localFd E) s))"

definition add_server :: "engine_env \<Rightarrow> nat \<Rightarrow> engine \<Rightarrow> engine_error + (bool \<times> engine)" where
  "add_server E a e =
     (if a \<in> en_attached e then Inr (False, e)
      else
        let e = e\<lparr> en_attached := insert a (en_attached e), en_serverList := en_serverList e @ [a] \<rparr>
        in map_sum id (Pair True) (if en_active e then on_server a (\<lambda>s. Inr (register_added E a s)) e else Inr e))"

definition remove_server :: "nat \<Rightarrow> engine \<Rightarrow> engine_error + (bool \<times> engine)" where
  "remove_server a e =
     (if a \<in> en_attached e then
        let e = e\<lparr> en_serverList := std_remove a (en_serverList e), en_serverCache := removeFromCache a (en_serverCache e) \<rparr>;
            r = (if en_active e then on_server a (\<lambda>s. Inr (unregisterInterface s)) e else Inr e)
        in map_sum id (\<lambda>e. (True, e\<lparr> en_attached := en_attached e - {a} \<rparr>)) r
      else Inr (False, e))"

definition destroy_server :: "nat \<Rightarrow> engine \<Rightarrow> engine_error + engine" where
  "destroy_server a e =
     (case (if a \<in> en_attached e then remove_server a e else Inr (False, e)) of
        Inl x \<Rightarrow> Inl x
      | Inr (_, e) \<Rightarrow> Inr (e\<lparr> en_servers := (en_servers e)(a := None) \<rparr>))"

text \<open>The end of the engine: no object points to it any more.\<close>

definition destroy_engine :: "engine \<Rightarrow> engine_error + engine" where
  "destroy_engine e =
     (case on_all (\<lambda>a. on_server a Inr) (en_serverList e) e of
        Inl x \<Rightarrow> Inl x
      | Inr e \<Rightarrow> on_all (\<lambda>a. on_client a (\<lambda>c. Inr (c\<lparr> sc_engine := False \<rparr>))) (en_clientList e)
                    (e\<lparr> en_attached := en_attached e - set (en_serverList e) \<rparr>))"

section \<open>Messages\<close>

text \<open>Numbers out of the memory of the received data; behind its end there is whatever memory holds.\<close>

definition word_at :: "platform \<Rightarrow> cbuffer \<Rightarrow> nat \<Rightarrow> u32" where
  "word_at pf b off = of_nat (of_le (memory_at pf b off 4))"

text \<open>The request types by their codes; the server ignores the other codes as it does \<open>REQUEST_LOAD_COMPONENT\<close>.\<close>

definition request_of_code :: "u32 \<Rightarrow> request_type" where
  "request_of_code c =
     (if c = 0x100 then REQUEST else if c = 0x101 then REQUEST_NOTIFY else if c = 0x102 then REQUEST_STOP_NOTIFY
      else if c = 0x104 then REQUEST_STOP_ALL_NOTIFY else if c = 0x105 then REQUEST_REGISTER_NOTIFY
      else if c = 0x106 then REQUEST_STOP_REGISTER_NOTIFY else if c = 0x107 then REQUEST_STOP_ALL_REGISTER_NOTIFY
      else REQUEST_LOAD_COMPONENT)"

text \<open>The handle of a data request: a length below that of the event information wraps around.\<close>

definition payload_length :: "nat \<Rightarrow> nat" where
  "payload_length len = nat ((int len - int sizeof_EventInfo) mod 2 ^ 64)"

definition data_request :: "platform \<Rightarrow> message_header \<Rightarrow> cbuffer \<Rightarrow> data_handle" where
  "data_request pf hdr b =
     \<lparr> dh_clientID = party_assign (h_clientID hdr), dh_protoMinor = h_protoMinor hdr,
       dh_type = request_of_code (word_at pf b 4), dh_requestId = word_at pf b 8, dh_sequenceNr = word_at pf b 12,
       dh_payload = memory_at pf b sizeof_EventInfo (payload_length (mSize b)) \<rparr>"

text \<open>No server with the id: the answer is an address of zeros.\<close>

definition refuse_connect :: "engine_env \<Rightarrow> nat \<Rightarrow> message_header \<Rightarrow> engine \<Rightarrow> bool \<times> engine" where
  "refuse_connect E ch hdr e =
     (ge_sends E ch,
      e\<lparr> en_out := en_out e @
        [if ge_isTCP E ch then Legacy_response ch 0 0
         else Connect_response ch (party_assign (h_serverID hdr)) (party_assign (h_clientID hdr))
                DSI_PROTOCOL_VERSION_MINOR 0 0] \<rparr>)"

definition connect_server :: "engine_env \<Rightarrow> nat \<Rightarrow> message_header \<Rightarrow> cbuffer \<Rightarrow> nat \<Rightarrow> stub_server \<Rightarrow> stub_server" where
  "connect_server E ch hdr b a =
     (let pf = ge_platform E;
          handler = (if ge_isTCP E ch
                     then if unat (h_packetLength hdr) = sizeof_ConnectRequestInfo
                          then handleLegacyConnectRequestTCP else handleConnectRequestTCP
                     else handleConnectRequest)
      in handler (ge_server E a) ch (party_assign (h_clientID hdr)) (party_assign (h_serverID hdr))
           (h_protoMinor hdr) (word_at pf b 0) (word_at pf b 4))"

definition dispatch_connect :: "engine_env \<Rightarrow> nat \<Rightarrow> message_header \<Rightarrow> cbuffer \<Rightarrow> engine \<Rightarrow> engine_error + (bool \<times> engine)" where
  "dispatch_connect E ch hdr b e =
     (case findServer (party_assign (h_serverID hdr)) e of
        Inl x \<Rightarrow> Inl x
      | Inr (None, e) \<Rightarrow> Inr (refuse_connect E ch hdr e)
      | Inr (Some a, e) \<Rightarrow> map_sum id (Pair True) (on_server a (\<lambda>s. Inr (connect_server E ch hdr b a s)) e))"

text \<open>The other commands: the object the message is for, if it is known, handles it.\<close>

definition to_server ::
  "message_header \<Rightarrow> (nat \<Rightarrow> stub_server \<Rightarrow> stub_error + stub_server) \<Rightarrow> engine \<Rightarrow> engine_error + (bool \<times> engine)" where
  "to_server hdr f e =
     (case findServer (party_assign (h_serverID hdr)) e of
        Inl x \<Rightarrow> Inl x
      | Inr (None, e) \<Rightarrow> Inr (True, e)
      | Inr (Some a, e) \<Rightarrow> map_sum id (Pair True) (on_server a (f a) e))"

definition to_client ::
  "message_header \<Rightarrow> (nat \<Rightarrow> stub_client \<Rightarrow> client_error + stub_client) \<Rightarrow> engine \<Rightarrow> engine_error + (bool \<times> engine)" where
  "to_client hdr f e =
     (case findClient (party_assign (h_clientID hdr)) e of
        Inl x \<Rightarrow> Inl x
      | Inr (None, e) \<Rightarrow> Inr (True, e)
      | Inr (Some a, e) \<Rightarrow> map_sum id (Pair True) (on_client a (f a) e))"

definition en_dispatch :: "engine_env \<Rightarrow> nat \<Rightarrow> message_header \<Rightarrow> cbuffer \<Rightarrow> engine \<Rightarrow> engine_error + (bool \<times> engine)" where
  "en_dispatch E ch hdr b e =
     (let pf = ge_platform E in
      if h_cmd hdr = dsi_command_code ConnectRequest then dispatch_connect E ch hdr b e
      else if h_cmd hdr = dsi_command_code DisconnectRequest then
        to_server hdr (\<lambda>a s. Inr (handleDisconnectRequest (ge_server E a) (party_assign (h_clientID hdr)) s)) e
      else if h_cmd hdr = dsi_command_code ConnectResponse then
        to_client hdr (\<lambda>a. cc_handleConnectResponse (ge_client E a) (party_assign (h_serverID hdr)) (h_protoMinor hdr)
                               (word_at pf b 0) (word_at pf b 4)) e
      else if h_cmd hdr = dsi_command_code DataRequest then
        to_server hdr (\<lambda>a. handleDataRequest (ge_server E a) (data_request pf hdr b)) e
      else if h_cmd hdr = dsi_command_code DataResponse then
        to_client hdr (\<lambda>a c. Inr (handleDataResponse (h_protoMinor hdr) (word_at pf b 8) (word_at pf b 12) c)) e
      else Inr (True, e))"

text \<open>The result says whether the connection stays; the bytes left on it are returned.\<close>

definition handleMessage ::
  "engine_env \<Rightarrow> nat \<Rightarrow> message_header \<Rightarrow> char list \<Rightarrow> engine \<Rightarrow> (engine_error, bool \<times> char list \<times> engine) outcome" where
  "handleMessage E ch hdr wire e =
     (if h_protoMajor hdr \<noteq> DSI_PROTOCOL_VERSION_MAJOR then Some (Inr (False, wire, e))
      else
        (case receiveAll (ge_platform E) hdr wire of
           None \<Rightarrow> None
         | Some (Inl x) \<Rightarrow> Some (Inl (In_stream x))
         | Some (Inr (rc, b, wire)) \<Rightarrow>
             if rc then Some (map_sum id (\<lambda>(rc, e). (rc, wire, e)) (en_dispatch E ch hdr b e))
             else Some (Inr (False, wire, e))))"

section \<open>The end of a connection\<close>

text \<open>
  The loop over the connections of a server. An element that is erased invalidates the iterator, and the next
  step uses it.
\<close>

fun cleanup_conns :: "stub_env \<Rightarrow> nat \<Rightarrow> client_conn list \<Rightarrow> stub_server \<Rightarrow> engine_error + stub_server" where
  "cleanup_conns E ch [] s = Inr s"
| "cleanup_conns E ch (c # cs) s =
     (if \<not> expired E (cc_channel c) \<and> cc_channel c = Some ch then
        let s = snd (handleClientDetached E (cc_id c) s)
        in if c \<in> set (ss_conns s) then cleanup_conns E ch (filter (\<lambda>d. d \<in> set (ss_conns s)) cs) s
           else Inl Iterator_erased
      else cleanup_conns E ch cs s)"

definition cleanup_server :: "engine_env \<Rightarrow> nat \<Rightarrow> nat \<Rightarrow> engine \<Rightarrow> engine_error + engine" where
  "cleanup_server E ch a e =
     (case en_servers e a of
        None \<Rightarrow> Inl (Destroyed a)
      | Some s \<Rightarrow>
          (case cleanup_conns (ge_server E a) ch (ss_conns s) s of
             Inl x \<Rightarrow> Inl x
           | Inr s \<Rightarrow> Inr (e\<lparr> en_servers := (en_servers e)(a \<mapsto> s) \<rparr>)))"

definition cleanup_client :: "engine_env \<Rightarrow> nat \<Rightarrow> nat \<Rightarrow> engine \<Rightarrow> engine_error + engine" where
  "cleanup_client E ch a =
     on_client a (\<lambda>c. if \<not> channel_expired (ge_client E a) (sc_channel c) \<and> sc_channel c = Channel ch
                       then detachInterface (ge_client E a) True c else Inr c)"

definition cleanupChannel :: "engine_env \<Rightarrow> nat \<Rightarrow> engine \<Rightarrow> engine_error + engine" where
  "cleanupChannel E ch e =
     (case on_all (cleanup_server E ch) (en_serverList e) e of
        Inl x \<Rightarrow> Inl x
      | Inr e \<Rightarrow> on_all (cleanup_client E ch) (en_clientList e) e)"

text \<open>The read handler of a connection: the connection ends when the header or the message does not arrive.\<close>

definition handleMessageHeader ::
  "engine_env \<Rightarrow> nat \<Rightarrow> char list \<Rightarrow> engine \<Rightarrow> (engine_error, bool \<times> char list \<times> engine) outcome" where
  "handleMessageHeader E ch wire e =
     (case recvAll sizeof_MessageHeader wire of
        None \<Rightarrow> Some (map_sum id (\<lambda>e. (False, wire, e)) (cleanupChannel E ch e))
      | Some (hb, wire) \<Rightarrow>
          obind (handleMessage E ch (header_of hb) wire e)
            (\<lambda>(rc, wire, e). if rc then Some (Inr (True, wire, e))
                              else Some (map_sum id (\<lambda>e. (False, wire, e)) (cleanupChannel E ch e))))"

section \<open>Pulses\<close>

fun detach_in :: "engine_env \<Rightarrow> u32 \<Rightarrow> nat list \<Rightarrow> engine \<Rightarrow> engine_error + engine" where
  "detach_in E v [] e = Inr e"
| "detach_in E v (a # as) e =
     (case en_servers e a of
        None \<Rightarrow> Inl (Destroyed a)
      | Some s \<Rightarrow>
          (case handleClientDetached (ge_server E a) v s of
             (found, s) \<Rightarrow>
               let e = e\<lparr> en_servers := (en_servers e)(a \<mapsto> s) \<rparr>
               in if found then Inr e else detach_in E v as e))"

definition handlePulse :: "engine_env \<Rightarrow> u32 \<Rightarrow> u32 \<Rightarrow> engine \<Rightarrow> engine_error + engine" where
  "handlePulse E code v e =
     (if code = PULSE_SERVER_AVAILABLE then
        (case findClient_id v e of
           Inl x \<Rightarrow> Inl x
         | Inr None \<Rightarrow> Inr e
         | Inr (Some a) \<Rightarrow> on_client a (attachInterface (ge_client E a)) e)
      else if code = PULSE_SERVER_DISCONNECT then
        (case findClient_id v e of
           Inl x \<Rightarrow> Inl x
         | Inr None \<Rightarrow> Inr e
         | Inr (Some a) \<Rightarrow> on_client a (detachInterface (ge_client E a) True)
                               (e\<lparr> en_clientCache := removeFromCache a (en_clientCache e) \<rparr>))
      else if code = PULSE_CLIENT_DETACHED then detach_in E v (en_serverList e) e
      else Inr e)"

section \<open>Running\<close>

text \<open>What the dispatcher hands to the engine: data on a connection, a pulse, the answer to a client's TCP request.\<close>

datatype en_event =
    Ev_data nat "char list"
  | Ev_pulse u32 u32
  | Ev_tcp nat bool u32 u32 message_header "u32 \<times> u32"

definition tcp_answer ::
  "engine_env \<Rightarrow> nat \<Rightarrow> bool \<Rightarrow> u32 \<Rightarrow> u32 \<Rightarrow> message_header \<Rightarrow> u32 \<times> u32 \<Rightarrow> engine \<Rightarrow> engine_error + engine" where
  "tcp_answer E a ok ip port hdr info =
     on_client a (\<lambda>c. case sc_connector c of
                        None \<Rightarrow> Inr c
                      | Some cn \<Rightarrow> readHandlerTCP (ge_client E a) ok cn ip port hdr info c)"

fun en_handle :: "engine_env \<Rightarrow> en_event \<Rightarrow> engine \<Rightarrow> (engine_error, engine) outcome" where
  "en_handle E (Ev_data ch wire) e = obind (handleMessageHeader E ch wire e) (\<lambda>(rc, wire, e). Some (Inr e))"
| "en_handle E (Ev_pulse code v) e = Some (handlePulse E code v e)"
| "en_handle E (Ev_tcp a ok ip port hdr info) e = Some (tcp_answer E a ok ip port hdr info e)"

fun en_loop :: "engine_env \<Rightarrow> en_event list \<Rightarrow> engine \<Rightarrow> (engine_error, engine) outcome" where
  "en_loop E [] e = Some (Inr e)"
| "en_loop E (x # xs) e = obind (en_handle E x e) (en_loop E xs)"

definition run_start :: "engine_env \<Rightarrow> engine \<Rightarrow> engine_error + engine" where
  "run_start E e =
     (case on_all (en_registerInterface E) (en_serverList e) e of
        Inl x \<Rightarrow> Inl x
      | Inr e \<Rightarrow> map_sum id (\<lambda>e. e\<lparr> en_active := True \<rparr>) (on_all (en_setNotification E) (en_clientList e) e))"

definition run_stop :: "engine_env \<Rightarrow> engine \<Rightarrow> engine_error + engine" where
  "run_stop E e =
     (let e = e\<lparr> en_active := False \<rparr> in
      case on_all (\<lambda>a. on_client a (detachInterface (ge_client E a) False)) (en_clientList e) e of
        Inl x \<Rightarrow> Inl x
      | Inr e \<Rightarrow> on_all (\<lambda>a. on_server a (\<lambda>s. Inr (unregisterInterface s))) (en_serverList e) e)"

text \<open>Without a listening socket, or inside another \<open>run\<close>, the result is -1; else that of the dispatcher.\<close>

definition en_run :: "engine_env \<Rightarrow> int \<Rightarrow> en_event list \<Rightarrow> engine \<Rightarrow> (engine_error, int \<times> engine) outcome" where
  "en_run E exitcode events e =
     (if en_open e \<or> \<not> ge_opens E \<or> \<not> ge_listens E then Some (Inr (- 1, e))
      else
        obind (Some (run_start E (e\<lparr> en_open := True \<rparr>)))
          (\<lambda>e. obind (en_loop E events e)
            (\<lambda>e. Some (map_sum id (\<lambda>e. (exitcode, e\<lparr> en_open := False \<rparr>)) (run_stop E e)))))"

section \<open>Connections to other processes\<close>

text \<open>
  The abstract name of a local socket in a buffer of a given length: a NUL, the name, NULs to the end. The
  buffer overflows when the name and its terminator do not fit.
\<close>

datatype local_path = No_path | Path "char list" | Path_overflow

definition makeLocalPath :: "nat \<Rightarrow> int \<Rightarrow> int \<Rightarrow> local_path" where
  "makeLocalPath len pid chid =
     (if 23 < len then
        let name = ''dsi/'' @ print_d pid @ ''/'' @ print_d chid
        in if length name + 2 \<le> len then Path (NUL # name @ replicate (len - 1 - length name) NUL) else Path_overflow
      else No_path)"

text \<open>
  The connection objects of a process: which exist, with their channels, and the tables by endpoint. The tables are
  never cleared of an object that has deleted itself.
\<close>

record channel_table =
  ct_local :: "char list \<rightharpoonup> nat"
  ct_tcp :: "u32 \<times> u32 \<rightharpoonup> nat"
  ct_conns :: "nat \<rightharpoonup> nat"
  ct_next :: nat

text \<open>A new connection object for a channel.\<close>

definition new_connection :: "nat \<Rightarrow> channel_table \<Rightarrow> nat \<times> channel_table" where
  "new_connection ch t = (ct_next t, t\<lparr> ct_conns := (ct_conns t)(ct_next t \<mapsto> ch), ct_next := Suc (ct_next t) \<rparr>)"

definition handleNewLocalConnection :: "char list \<Rightarrow> nat \<Rightarrow> channel_table \<Rightarrow> channel_table" where
  "handleNewLocalConnection address ch t =
     (let (c, t) = new_connection ch t in t\<lparr> ct_local := (ct_local t)(address \<mapsto> c) \<rparr>)"

definition handleNewTCPConnection :: "u32 \<times> u32 \<Rightarrow> nat \<Rightarrow> channel_table \<Rightarrow> channel_table" where
  "handleNewTCPConnection address ch t =
     (let (c, t) = new_connection ch t in t\<lparr> ct_tcp := (ct_tcp t)(address \<mapsto> c) \<rparr>)"

definition delete_connection :: "nat \<Rightarrow> channel_table \<Rightarrow> channel_table" where
  "delete_connection c t = t\<lparr> ct_conns := (ct_conns t)(c := None) \<rparr>"

text \<open>
  Attaching to the engine of another process: \<open>connect\<close> says which channel a new socket gets, if it can
  be connected.
\<close>

definition cached_channel :: "nat option \<Rightarrow> channel_table \<Rightarrow> engine_error + nat option" where
  "cached_channel entry t =
     (case entry of
        None \<Rightarrow> Inr None
      | Some c \<Rightarrow> (case ct_conns t c of None \<Rightarrow> Inl (Destroyed c) | Some ch \<Rightarrow> Inr (Some ch)))"

definition en_attach ::
  "(char list \<Rightarrow> nat option) \<Rightarrow> int \<Rightarrow> int \<Rightarrow> channel_table \<Rightarrow> engine_error + (nat option \<times> channel_table)" where
  "en_attach connect pid chid t =
     (let ep = (case makeLocalPath 32 pid chid of Path p \<Rightarrow> p | _ \<Rightarrow> []) in
      case cached_channel (ct_local t ep) t of
        Inl x \<Rightarrow> Inl x
      | Inr (Some ch) \<Rightarrow> Inr (Some ch, t)
      | Inr None \<Rightarrow>
          (case connect ep of
             None \<Rightarrow> Inr (None, t)
           | Some ch \<Rightarrow>
               let (c, t) = new_connection ch t
               in Inr (Some ch, t\<lparr> ct_local := (ct_local t)(ep \<mapsto> c) \<rparr>)))"

definition en_attachTCP ::
  "(u32 \<times> u32 \<Rightarrow> nat option) \<Rightarrow> u32 \<Rightarrow> u32 \<Rightarrow> bool \<Rightarrow> channel_table \<Rightarrow> engine_error + (nat option \<times> channel_table)" where
  "en_attachTCP connect host port private t =
     (let ep = (host, port) in
      case (if private then Inr None else cached_channel (ct_tcp t ep) t) of
        Inl x \<Rightarrow> Inl x
      | Inr (Some ch) \<Rightarrow> Inr (Some ch, t)
      | Inr None \<Rightarrow>
          (case connect ep of
             None \<Rightarrow> Inr (None, t)
           | Some ch \<Rightarrow>
               if private then Inr (Some ch, t)
               else let (c, t) = new_connection ch t
                    in Inr (Some ch, t\<lparr> ct_tcp := (ct_tcp t)(ep \<mapsto> c) \<rparr>)))"


end
