(* ===== verification/Stub_Server_Spec.thy ===== *)
theory Stub_Server_Spec
  imports Stub_Server
begin

text \<open>
  What the server base class does for its clients: who gets a response or a notification, that a request is answered
  or refused as busy, that a deferred response reaches its requester, that nothing of a client stays
  behind, and that the connections the code dereferences exist.
\<close>

section \<open>Every notification has a connection\<close>

definition connected :: "SPartyID \<Rightarrow> stub_server \<Rightarrow> bool" where
  "connected cid s \<longleftrightarrow> (\<exists>c \<in> set (ss_conns s). cc_clientID c = cid)"

definition stub_ok :: "stub_env \<Rightarrow> stub_server \<Rightarrow> bool" where
  "stub_ok E s \<longleftrightarrow>
     (\<forall>n \<in> set (ss_notifs s). connected (nf_clientID n) s) \<and>
     (\<forall>n \<in> ran (ss_unblocked s). connected (nf_clientID n) s) \<and>
     (\<forall>c \<in> set (ss_conns s). \<not> expired E (cc_channel c))"

lemma connected_find:
  "connected cid s \<Longrightarrow>
     \<exists>c. find_conn cid (ss_conns s) = Some c \<and> c \<in> set (ss_conns s) \<and> cc_clientID c = cid"
  unfolding connected_def find_conn_def
  by (cases "find (\<lambda>c. globalID (cc_clientID c) = globalID cid) (ss_conns s)")
    (auto simp: find_None_iff find_Some_iff)

lemma stub_ok_conn:
  assumes "stub_ok E s" "n \<in> set (ss_notifs s)"
  shows "\<exists>c ch. find_conn (nf_clientID n) (ss_conns s) = Some c \<and> cc_clientID c = nf_clientID n \<and>
    cc_channel c = Some ch \<and> sve_alive E ch"
  using connected_find [of "nf_clientID n" s] assms
  by (fastforce simp: stub_ok_def expired_def split: option.splits)

text \<open>The changes that keep the invariant.\<close>

lemma stub_ok_cong:
  assumes "stub_ok E s" "ss_conns s' = ss_conns s" "set (ss_notifs s') \<subseteq> set (ss_notifs s)"
    "ran (ss_unblocked s') \<subseteq> ran (ss_unblocked s)"
  shows "stub_ok E s'"
  using assms by (fastforce simp: stub_ok_def connected_def)

lemma stub_ok_change:
  assumes "stub_ok E s" "ss_conns s' = ss_conns s"
    "\<And>n. n \<in> set (ss_notifs s') \<Longrightarrow> connected (nf_clientID n) s"
    "\<And>n. n \<in> ran (ss_unblocked s') \<Longrightarrow> connected (nf_clientID n) s"
  shows "stub_ok E s'"
  using assms by (simp add: stub_ok_def connected_def)

lemma stub_okD:
  assumes "stub_ok E s"
  shows "n \<in> set (ss_notifs s) \<Longrightarrow> connected (nf_clientID n) s"
    "n \<in> ran (ss_unblocked s) \<Longrightarrow> connected (nf_clientID n) s"
  using assms by (simp_all add: stub_ok_def)

lemma set_erase_at: "set (erase_at i xs) \<subseteq> set xs"
  by (auto simp: erase_at_def dest: in_set_takeD in_set_dropD)

section \<open>Responses\<close>

definition response_to :: "stub_server \<Rightarrow> result_type \<Rightarrow> u32 \<Rightarrow> char list \<Rightarrow> notif \<Rightarrow> out_msg" where
  "response_to s rt i payload n =
     (let c = the (find_conn (nf_clientID n) (ss_conns s))
      in response_message c (the (cc_channel c)) (nf_clientID n) rt i (nf_sequenceNr n) payload)"

text \<open>The state after the response has gone to the first \<open>idx\<close> notifications.\<close>

definition responded ::
  "u32 \<Rightarrow> u32 \<Rightarrow> result_type \<Rightarrow> char list \<Rightarrow> nat \<Rightarrow> stub_server \<Rightarrow> stub_server" where
  "responded rid i rt payload idx s =
     s\<lparr> ss_notifs := filter (\<lambda>n. \<not> (gets_response rid s n \<and> one_shot n)) (take idx (ss_notifs s)) @
          drop idx (ss_notifs s),
        ss_out := ss_out s @ map (response_to s rt i payload)
          (rev (filter (gets_response rid s) (take idx (ss_notifs s)))) \<rparr>"

lemma emit_fields [simp]:
  "ss_conns (emit m s) = ss_conns s" "ss_notifs (emit m s) = ss_notifs s"
  "ss_unblocked (emit m s) = ss_unblocked s" "ss_active (emit m s) = ss_active s"
  "ss_out (emit m s) = ss_out s @ [m]" "ss_attributeState (emit m s) = ss_attributeState s"
  "ss_responseState (emit m s) = ss_responseState s" "ss_responseId (emit m s) = ss_responseId s"
  "ss_sessionId (emit m s) = ss_sessionId s" "ss_sessions (emit m s) = ss_sessions s"
  by (simp_all add: emit_def)

lemma take_erase_at [simp]: "take i (erase_at i xs) = take i xs"
  by (cases "i \<le> length xs") (simp_all add: erase_at_def)

lemma drop_erase_at [simp]: "i < length xs \<Longrightarrow> drop i (erase_at i xs) = drop (Suc i) xs"
  by (simp add: erase_at_def)

lemma length_erase_at: "i < length xs \<Longrightarrow> i \<le> length (erase_at i xs)"
  by (simp add: erase_at_def)

lemma after_response_fields [simp]:
  "ss_conns (after_response i n s) = ss_conns s" "ss_unblocked (after_response i n s) = ss_unblocked s"
  "ss_active (after_response i n s) = ss_active s" "ss_out (after_response i n s) = ss_out s"
  "take i (ss_notifs (after_response i n s)) = take i (ss_notifs s)"
  "ss_sessionId (after_response i n s) = ss_sessionId s"
  by (simp_all add: after_response_def)

lemma after_response_drop:
  "i < length (ss_notifs s) \<Longrightarrow> drop i (ss_notifs (after_response i n s)) =
     (if one_shot n then [] else [ss_notifs s ! i]) @ drop (Suc i) (ss_notifs s)"
  by (simp add: after_response_def Cons_nth_drop_Suc)

lemma stub_ok_after_response: "stub_ok E s \<Longrightarrow> stub_ok E (after_response i n (emit m s))"
  using set_erase_at [of i "ss_notifs s"]
  by (elim stub_ok_cong) (simp_all add: after_response_def)

lemma gets_response_cong: "ss_active s' = ss_active s \<Longrightarrow> gets_response rid s' = gets_response rid s"
  by (auto simp: gets_response_def)

lemma response_to_cong: "ss_conns s' = ss_conns s \<Longrightarrow> response_to s' = response_to s"
  by (auto simp: response_to_def fun_eq_iff)

lemma responded_step:
  assumes "idx < length (ss_notifs s)" "n = ss_notifs s ! idx" "gets_response rid s n"
  shows "responded rid i rt payload idx (after_response idx n (emit (response_to s rt i payload n) s)) =
    responded rid i rt payload (Suc idx) s"
proof -
  let ?s = "after_response idx n (emit (response_to s rt i payload n) s)"
  have g: "gets_response rid ?s = gets_response rid s" by (rule gets_response_cong) simp
  have r: "response_to ?s = response_to s" by (rule response_to_cong) simp
  have t: "take (Suc idx) (ss_notifs s) = take idx (ss_notifs s) @ [n]"
    using assms(1,2) by (simp add: take_Suc_conv_app_nth)
  show ?thesis
    using assms(1,3) after_response_drop [of idx "emit (response_to s rt i payload n) s" n] assms(2) [symmetric]
    by (simp add: responded_def g r t) (simp add: after_response_def emit_def)
qed

lemma responded_skip:
  assumes "idx < length (ss_notifs s)" "\<not> gets_response rid s (ss_notifs s ! idx)"
  shows "responded rid i rt payload idx s = responded rid i rt payload (Suc idx) s"
  using assms by (simp add: responded_def take_Suc_conv_app_nth Cons_nth_drop_Suc)

lemma send_response_loop_ok:
  assumes "stub_ok E s" "idx \<le> length (ss_notifs s)"
  shows "send_response_loop E rid i rt payload idx s = Inr (responded rid i rt payload idx s)"
  using assms
proof (induction idx arbitrary: s)
  case 0
  then show ?case by (simp add: responded_def)
next
  case (Suc idx)
  let ?n = "ss_notifs s ! idx"
  have lt: "idx < length (ss_notifs s)" using Suc.prems by simp
  show ?case
  proof (cases "gets_response rid s ?n")
    case True
    obtain c ch where c: "find_conn (nf_clientID ?n) (ss_conns s) = Some c" "cc_channel c = Some ch"
      "sve_alive E ch"
      using stub_ok_conn [OF Suc.prems(1) nth_mem [OF lt]] by blast
    let ?s = "after_response idx ?n (emit (response_to s rt i payload ?n) s)"
    have "idx \<le> length (ss_notifs ?s)"
      using lt length_erase_at [OF lt] by (simp add: after_response_def)
    from Suc.IH [OF stub_ok_after_response [OF Suc.prems(1)] this]
    show ?thesis
      using True c responded_step [OF lt refl True, of i rt payload]
      by (simp add: findClientConnection_def expired_def response_to_def)
  next
    case False
    then show ?thesis
      using Suc.IH [of s] Suc.prems responded_skip [OF lt False] by simp
  qed
qed

text \<open>With connected clients the generated loop is the loop of the base class.\<close>

lemma response_method_loop_eq:
  assumes "stub_ok E s" "idx \<le> length (ss_notifs s)"
  shows "response_method_loop E rid payload idx s = send_response_loop E rid rid RESULT_OK payload idx s"
  using assms
proof (induction idx arbitrary: s)
  case (Suc idx)
  let ?n = "ss_notifs s ! idx"
  have lt: "idx < length (ss_notifs s)" using Suc.prems by simp
  obtain c ch where c: "find_conn (nf_clientID ?n) (ss_conns s) = Some c" "cc_channel c = Some ch"
    "sve_alive E ch"
    using stub_ok_conn [OF Suc.prems(1) nth_mem [OF lt]] by blast
  have "idx \<le> length (ss_notifs (after_response idx ?n (emit m s)))" for m
    using lt length_erase_at [OF lt] by (simp add: after_response_def)
  with c lt Suc.IH [OF stub_ok_after_response [OF Suc.prems(1)]] Suc.IH [OF Suc.prems(1)] show ?case
    by (simp add: findClientConnection_def expired_def Let_def)
qed simp

lemma response_method_ok:
  assumes "stub_ok E s"
  shows "response_method E rid payload s =
    Inr (response_sent rid (responded rid rid RESULT_OK payload (length (ss_notifs s))
      (s\<lparr> ss_responseState := (ss_responseState s)(rid := False) \<rparr>)))"
proof -
  let ?s = "s\<lparr> ss_responseState := (ss_responseState s)(rid := False) \<rparr>"
  have "stub_ok E ?s" by (rule stub_ok_cong [OF assms]) simp_all
  then show ?thesis
    by (simp add: response_method_def response_method_loop_eq send_response_loop_ok)
qed

lemma sendResponse_ok:
  assumes "stub_ok E s"
  shows "sendResponse E rid i rt err s = Inr (response_sent rid (responded rid i rt
    (case err of None \<Rightarrow> [] | Some e \<Rightarrow> le_bytes 4 (unat e)) (length (ss_notifs s)) s))"
  by (simp add: sendResponse_def send_response_loop_ok [OF assms])

section \<open>Attribute notifications\<close>

definition update_to :: "stub_env \<Rightarrow> stub_server \<Rightarrow> u32 \<Rightarrow> update_type \<Rightarrow> int \<Rightarrow> int \<Rightarrow> notif \<Rightarrow> out_msg" where
  "update_to E s i rt position cnt n =
     attribute_message E (the (find_conn (nf_clientID n) (ss_conns s))) i (ss_attributeState s i) rt position cnt"

lemma send_notification_loop_ok:
  assumes "stub_ok E s"
  shows "send_notification_loop E i rt position cnt idx s =
    Inr (s\<lparr> ss_out := ss_out s @ map (update_to E s i rt position cnt)
      (filter (\<lambda>n. nf_notifyID n = i) (drop idx (ss_notifs s))) \<rparr>)"
  using assms
proof (induction "length (ss_notifs s) - idx" arbitrary: idx s)
  case 0
  then show ?case by (subst send_notification_loop.simps) simp
next
  case (Suc k)
  let ?n = "ss_notifs s ! idx"
  have lt: "idx < length (ss_notifs s)" using Suc.hyps(2) by simp
  have k: "k = length (ss_notifs s) - Suc idx" using Suc.hyps(2) by simp
  obtain c ch where c: "find_conn (nf_clientID ?n) (ss_conns s) = Some c" "cc_channel c = Some ch"
    "sve_alive E ch"
    using stub_ok_conn [OF Suc.prems nth_mem [OF lt]] by blast
  have ok: "stub_ok E (emit m s)" for m by (rule stub_ok_cong [OF Suc.prems]) simp_all
  have u: "update_to E (emit m s) i rt position cnt = update_to E s i rt position cnt" for m
    by (simp add: update_to_def fun_eq_iff)
  have d: "drop idx (ss_notifs s) = ?n # drop (Suc idx) (ss_notifs s)"
    using lt by (simp add: Cons_nth_drop_Suc)
  show ?case
    using Suc.hyps(1) [of s "Suc idx"] Suc.hyps(1) [OF _ ok, of _ "Suc idx"] lt c Suc.prems k
    by (subst send_notification_loop.simps)
      (simp add: findClientConnection_def expired_def d u, simp add: update_to_def emit_def)
qed

lemma sendNotification_ok:
  assumes "stub_ok E s"
  shows "sendNotification E i rt position cnt s =
    Inr (s\<lparr> ss_out := ss_out s @ map (update_to E s i rt position cnt)
      (filter (\<lambda>n. nf_notifyID n = i) (ss_notifs s)) \<rparr>)"
  by (simp add: sendNotification_def send_notification_loop_ok [OF assms])

section \<open>The operations of an implementation\<close>

definition keeps :: "stub_env \<Rightarrow> stub_server \<Rightarrow> stub_error + stub_server \<Rightarrow> bool" where
  "keeps E s r \<longleftrightarrow>
     (case r of
        Inl e \<Rightarrow> e = No_request \<or> e = Response_pending
      | Inr s' \<Rightarrow> stub_ok E s' \<and> ss_conns s' = ss_conns s \<and> ss_sessionId s' = ss_sessionId s)"

lemma keeps_Inr [simp]:
  "keeps E s (Inr s') \<longleftrightarrow> stub_ok E s' \<and> ss_conns s' = ss_conns s \<and> ss_sessionId s' = ss_sessionId s"
  by (simp add: keeps_def)

lemma keeps_Inl [simp]: "keeps E s (Inl e) \<longleftrightarrow> e = No_request \<or> e = Response_pending"
  by (simp add: keeps_def)

lemma response_sent_fields [simp]:
  "ss_conns (response_sent rid s) = ss_conns s" "ss_notifs (response_sent rid s) = ss_notifs s"
  "ss_unblocked (response_sent rid s) = ss_unblocked s" "ss_out (response_sent rid s) = ss_out s"
  "ss_sessionId (response_sent rid s) = ss_sessionId s"
  "ss_responseState (response_sent rid s) = ss_responseState s"
  by (simp_all add: response_sent_def)

lemma responded_fields [simp]:
  "ss_conns (responded rid i rt p k s) = ss_conns s" "ss_unblocked (responded rid i rt p k s) = ss_unblocked s"
  "ss_sessionId (responded rid i rt p k s) = ss_sessionId s"
  "ss_responseState (responded rid i rt p k s) = ss_responseState s"
  "ss_responseId (responded rid i rt p k s) = ss_responseId s"
  by (simp_all add: responded_def)

lemma stub_ok_responded: "stub_ok E s \<Longrightarrow> stub_ok E (response_sent q (responded rid i rt p k s))"
  by (elim stub_ok_cong) (auto simp: responded_def dest: in_set_takeD in_set_dropD)

lemma stub_ok_state [simp]:
  "stub_ok E (s\<lparr> ss_responseState := f \<rparr>) = stub_ok E s" "stub_ok E (s\<lparr> ss_attributeState := g \<rparr>) = stub_ok E s"
  "stub_ok E (s\<lparr> ss_out := out \<rparr>) = stub_ok E s" "stub_ok E (s\<lparr> ss_active := a \<rparr>) = stub_ok E s"
  "stub_ok E (s\<lparr> ss_responseId := rid \<rparr>) = stub_ok E s" "stub_ok E (s\<lparr> ss_sequenceNr := n \<rparr>) = stub_ok E s"
  "stub_ok E (s\<lparr> ss_clientID := cid \<rparr>) = stub_ok E s" "stub_ok E (s\<lparr> ss_sessionId := sid \<rparr>) = stub_ok E s"
  "stub_ok E (s\<lparr> ss_sessions := ds \<rparr>) = stub_ok E s" "stub_ok E (s\<lparr> ss_nextId := k \<rparr>) = stub_ok E s"
  "stub_ok E (s\<lparr> ss_calls := cs \<rparr>) = stub_ok E s" "stub_ok E (s\<lparr> ss_callbacks := cb \<rparr>) = stub_ok E s"
  "stub_ok E (emit m s) = stub_ok E s"
  by (simp_all add: stub_ok_def connected_def)

lemma ran_upd_subset: "ran (m(k \<mapsto> v)) \<subseteq> insert v (ran m)"
  by (auto simp: ran_def)

lemma stub_ok_unblock:
  assumes "stub_ok E s" "i < length (ss_notifs s)"
  shows "stub_ok E (s\<lparr> ss_unblocked := (ss_unblocked s)(h \<mapsto> ss_notifs s ! i),
    ss_notifs := erase_at i (ss_notifs s) \<rparr>)"
  using ran_upd_subset [of "ss_unblocked s" h "ss_notifs s ! i"] set_erase_at [of i "ss_notifs s"]
    stub_okD [OF assms(1)] nth_mem [OF assms(2)]
  by (intro stub_ok_change [OF assms(1)]) auto

lemma unblock_keeps:
  assumes "stub_ok E s"
  shows "keeps E s (map_sum id snd (unblockRequest s))"
proof -
  define idx where "idx = find_last (\<lambda>n. nf_notifyID n = ss_responseId s \<and>
      nf_sessionId n = INVALID_SESSION_ID \<and> party_eq (nf_clientID n) (ss_clientID s))
      (ss_notifs s) (length (ss_notifs s))"
  have "0 \<le> idx \<Longrightarrow> nat idx < length (ss_notifs s)"
    unfolding idx_def using find_last_range by (meson nat_less_iff)
  with stub_ok_unblock [OF assms, of "nat idx" "ss_nextId s"] assms show ?thesis
    by (simp add: unblockRequest_def idx_def [symmetric] cs_createId_def Let_def)
      (simp add: stub_ok_def connected_def)
qed

lemma prepare_keeps:
  assumes "stub_ok E s"
  shows "keeps E s (cs_prepareResponse h s)"
proof (cases "ss_unblocked s h")
  case (Some n)
  then have "n \<in> ran (ss_unblocked s)" by (rule ranI)
  moreover have "ran ((ss_unblocked s)(h := None)) \<subseteq> ran (ss_unblocked s)" by (auto simp: ran_def)
  ultimately have "stub_ok E (s\<lparr> ss_unblocked := (ss_unblocked s)(h := None), ss_notifs := ss_notifs s @ [n] \<rparr>)"
    using stub_okD [OF assms] by (intro stub_ok_change [OF assms]) auto
  with assms Some show ?thesis
    by (simp add: cs_prepareResponse_def) (simp add: stub_ok_def connected_def)
qed (use assms in \<open>simp add: cs_prepareResponse_def\<close>)

lemma sendError_keeps:
  assumes "stub_ok E s"
  shows "keeps E s (sendError E i err s)"
  using assms
  by (simp add: sendError_def sendNotification_ok sendResponse_ok stub_ok_responded Let_def)

lemma run_op_keeps: "stub_ok E s \<Longrightarrow> keeps E s (run_op E x s)"
  by (cases x)
    (simp_all add: response_method_ok stub_ok_responded sendNotification_ok sendError_keeps unblock_keeps
      prepare_keeps)

lemma keeps_trans: "keeps E s (Inr s1) \<Longrightarrow> keeps E s1 r \<Longrightarrow> keeps E s r"
  by (auto simp: keeps_def split: sum.splits)

lemma run_ops_keeps: "stub_ok E s \<Longrightarrow> keeps E s (run_ops E xs s)"
proof (induction xs arbitrary: s)
  case (Cons x xs)
  from run_op_keeps [OF Cons.prems, of x] Cons.IH keeps_trans show ?case
    by (cases "run_op E x s") auto
qed simp

section \<open>Requests\<close>

lemma push_session_fields [simp]:
  "ss_conns (push_session E d s) = ss_conns s" "ss_sessionId (push_session E d s) = ss_sessionId s"
  "stub_ok E (push_session E' d s) = stub_ok E s" "ss_notifs (push_session E d s) = ss_notifs s"
  "ss_attributeState (push_session E d s) = ss_attributeState s"
  by (simp_all add: push_session_def)

lemma removeSessionNotifications_subset:
  "set (ss_notifs (removeSessionNotifications sid s)) \<subseteq> set (ss_notifs s)"
  by (auto simp: removeSessionNotifications_def Let_def dest: in_set_dropD)

lemma removeSession_keeps:
  "stub_ok E s \<Longrightarrow> stub_ok E (removeSession sid s) \<and> ss_conns (removeSession sid s) = ss_conns s"
  using removeSessionNotifications_subset [of sid s]
  by (auto simp: removeSession_def Let_def removeSessionNotifications_def elim!: stub_ok_cong)

lemma implementation_keeps: "stub_ok E s \<Longrightarrow> keeps E s (run_implementation E h s)"
  by (simp add: run_implementation_def run_ops_keeps)

lemma session_done_keeps:
  "keeps E s r \<Longrightarrow> ss_conns s = ss_conns s0 \<Longrightarrow> ss_sessionId s0 = INVALID_SESSION_ID \<Longrightarrow>
     keeps E s0 (session_done r)"
  by (cases r) (auto simp: session_done_def)

lemma select_session_fields:
  "select_session h s = (session, s1) \<Longrightarrow> stub_ok E s1 = stub_ok E s \<and> ss_conns s1 = ss_conns s"
  by (auto simp: select_session_def Let_def split: option.splits)

lemma register_session_keeps:
  assumes "stub_ok E s" "ss_sessionId s = INVALID_SESSION_ID"
  shows "\<exists>s1. register_session E h s = Inr s1 \<and> stub_ok E s1 \<and> ss_conns s1 = ss_conns s"
proof -
  obtain session s1 where ss: "select_session h s = (session, s1)" by fastforce
  then have "session = None \<Longrightarrow> ss_sessionId s1 = INVALID_SESSION_ID"
    using assms(2) by (auto simp: select_session_def Let_def)
  with ss select_session_fields [OF ss, of E] assms(1) show ?thesis
    by (cases session) (simp_all add: register_session_def cs_createId_def Let_def)
qed

lemma processRequest_keeps:
  assumes "stub_ok E s" "ss_sessionId s = INVALID_SESSION_ID"
  shows "keeps E s (processRequest E h s)"
proof -
  consider "sve_method E (dh_requestId h) = None" | "sve_method E (dh_requestId h) = Some Plain_method"
    | "sve_method E (dh_requestId h) = Some Register_method"
    | "sve_method E (dh_requestId h) = Some Unregister_method"
    by (metis method_kind.exhaust not_None_eq)
  then show ?thesis
  proof cases
    case 3
    obtain s1 where s1: "register_session E h s = Inr s1" "stub_ok E s1" "ss_conns s1 = ss_conns s"
      using register_session_keeps [OF assms] by blast
    then have "keeps E s1 (if sve_arguments_ok E (dh_requestId h) (dh_payload h)
        then run_implementation E h s1 else Inr s1)"
      by (simp add: implementation_keeps)
    from session_done_keeps [OF this s1(3) assms(2)] show ?thesis using 3 s1(1)
      by (simp add: processRequest_def)
  next
    case 4
    obtain session s1 where ss: "select_session h s = (session, s1)" by fastforce
    have s1: "stub_ok E s1" "ss_conns s1 = ss_conns s"
      using select_session_fields [OF ss, of E] assms(1) by simp_all
    have "keeps E (s1\<lparr> ss_sessionId := INVALID_SESSION_ID \<rparr>) (session_done (map_sum id
        (\<lambda>s. removeSession (ss_sessionId s) s) (run_implementation E h s1)))"
      using implementation_keeps [OF s1(1), of h] removeSession_keeps
      by (cases "run_implementation E h s1") (auto simp: session_done_def)
    then show ?thesis
      using 4 s1 ss assms by (auto simp: processRequest_def Let_def keeps_def session_done_def split: sum.splits)
  qed (use assms in \<open>simp_all add: processRequest_def implementation_keeps\<close>)
qed

lemma find_connected [simp]:
  "connected cid s \<Longrightarrow> \<exists>c ch. stub_ok E s \<longrightarrow> findClientConnection cid s = (Some c, s) \<and> cc_clientID c = cid \<and>
     cc_channel c = Some ch \<and> sve_alive E ch \<and> find_conn cid (ss_conns s) = Some c"
  using connected_find [of cid s] unfolding findClientConnection_def
  by (fastforce simp: stub_ok_def expired_def split: option.splits)

lemma connected_cong: "ss_conns s' = ss_conns s \<Longrightarrow> connected cid s' = connected cid s"
  by (simp add: connected_def)

lemma stub_ok_push:
  assumes "stub_ok E s" "connected (nf_clientID n) s"
  shows "stub_ok E (s\<lparr> ss_notifs := ss_notifs s @ [n] \<rparr>)"
  using assms stub_okD [OF assms(1)] by (intro stub_ok_change [OF assms(1)]) auto

lemma handle_standard_keeps:
  assumes "stub_ok E s" "connected (dh_clientID h) s" "ss_sessionId s = INVALID_SESSION_ID"
  shows "keeps E s (handle_standard E h s)"
proof -
  define rid where "rid = sve_getResponse E (dh_requestId h)"
  obtain c ch where c: "findClientConnection (dh_clientID h) s = (Some c, s)" "cc_channel c = Some ch" "sve_alive E ch"
    using find_connected [OF assms(2), of E] assms(1) by blast
  have finish: "keeps E s (map_sum id (\<lambda>s. s\<lparr> ss_responseId := r, ss_sequenceNr := q, ss_clientID := x \<rparr>) res)"
    if "keeps E s1 res" "ss_conns s1 = ss_conns s" "ss_sessionId s1 = ss_sessionId s" for s1 res r q x
    using that by (cases res) auto
  let ?n = "\<lparr> nf_sessionId = INVALID_SESSION_ID, nf_clientID = dh_clientID h,
      nf_sequenceNr = dh_sequenceNr h, nf_notifyID = rid \<rparr>"
  have "stub_ok E (s\<lparr> ss_notifs := ss_notifs s @ [?n] \<rparr>)" using assms(1,2) by (simp add: stub_ok_push)
  then have n: "stub_ok E (s\<lparr> ss_responseId := rid, ss_notifs := ss_notifs s @ [?n],
      ss_responseState := f, ss_clientID := x, ss_sequenceNr := q \<rparr>)" for f x q
    by (simp add: stub_ok_def connected_def)
  show ?thesis
  proof (cases "rid \<noteq> INVALID_ID \<and> ss_responseState s rid")
    case True
    then show ?thesis
      using c assms(1) by (simp add: handle_standard_def rid_def [symmetric] sendErrorToClient_def expired_def)
  next
    case False
    define s1 where "s1 = (if rid \<noteq> INVALID_ID
      then s\<lparr> ss_responseId := rid, ss_notifs := ss_notifs s @ [?n],
             ss_responseState := (ss_responseState s)(rid := True) \<rparr>
      else s\<lparr> ss_responseId := rid \<rparr>)\<lparr> ss_clientID := dh_clientID h, ss_sequenceNr := dh_sequenceNr h \<rparr>"
    have s1: "stub_ok E s1" "ss_conns s1 = ss_conns s" "ss_sessionId s1 = ss_sessionId s"
      using n assms(1) by (simp_all add: s1_def)
    have "handle_standard E h s = map_sum id (\<lambda>s. s\<lparr> ss_responseId := INVALID_ID,
        ss_sequenceNr := INVALID_SEQUENCE_NR, ss_clientID := party_assign 0 \<rparr>) (processRequest E h s1)"
      using False unfolding handle_standard_def rid_def [symmetric] s1_def by (auto simp: Let_def)
    then show ?thesis
      using finish [OF processRequest_keeps s1(2,3)] s1 assms(3) by simp
  qed
qed

lemma notify_entry_fields:
  "notify_entry E h s = (n, s1) \<Longrightarrow> nf_clientID n = dh_clientID h \<and> nf_notifyID n = dh_requestId h \<and>
     ss_conns s1 = ss_conns s \<and> ss_notifs s1 = ss_notifs s \<and> stub_ok E s1 = stub_ok E s \<and>
     ss_sessionId s1 = ss_sessionId s \<and> ss_attributeState s1 = ss_attributeState s"
  by (auto simp: notify_entry_def Let_def cs_createId_def split: option.splits if_splits prod.splits)

lemma handle_notify_keeps:
  assumes "stub_ok E s" "connected (dh_clientID h) s"
  shows "keeps E s (handle_notify E h s)"
proof -
  define s1 where "s1 = enter_notification E h s"
  obtain n s0 where n: "notify_entry E h s = (n, s0)" by fastforce
  have s1: "stub_ok E s1" "ss_conns s1 = ss_conns s" "ss_sessionId s1 = ss_sessionId s"
    using notify_entry_fields [OF n] assms stub_ok_push [of E s0 n] connected_cong [of s0 s] n
    by (simp_all add: s1_def enter_notification_def)
  then have "connected (dh_clientID h) s1" using assms(2) by (simp add: connected_def)
  from find_connected [OF this, of E] s1(1) obtain c ch where
    "findClientConnection (dh_clientID h) s1 = (Some c, s1)" "cc_channel c = Some ch" "sve_alive E ch" by blast
  with s1 show ?thesis
    by (simp add: handle_notify_def s1_def [symmetric] Let_def expired_def sendNotification_ok)
qed

lemma removeNotification_keeps: "stub_ok E s \<Longrightarrow> keeps E s (Inr (cs_removeNotification cid i s))"
  by (auto simp: cs_removeNotification_def elim: stub_ok_cong)

lemma handleDataRequest_keeps:
  assumes "stub_ok E s" "connected (dh_clientID h) s" "ss_sessionId s = INVALID_SESSION_ID"
  shows "keeps E s (handleDataRequest E h s)"
proof -
  obtain c where c: "findClientConnection (dh_clientID h) s = (Some c, s)"
    using find_connected [OF assms(2), of E] assms(1) by blast
  have "keeps E s (Inr (removeSessionNotifications sid s))" for sid
    using removeSessionNotifications_subset [of sid s] stub_ok_cong [OF assms(1)]
    by (auto simp: removeSessionNotifications_def Let_def)
  moreover have "keeps E s (Inr s)" using assms(1) by simp
  ultimately have same: "keeps E s (Inr s)" "\<And>sid. keeps E s (Inr (removeSessionNotifications sid s))" by blast+
  note keep = same handle_standard_keeps [OF assms] handle_notify_keeps [OF assms(1,2)]
    removeNotification_keeps [OF assms(1)]
  show ?thesis
    using c keep
    by (cases "dh_type h") (auto simp: handleDataRequest_def simp del: keeps_Inr split: option.split)
qed

section \<open>Connections\<close>

lemma set_insert_conn: "set cs \<subseteq> set (insert_conn c cs) \<and> set (insert_conn c cs) \<subseteq> insert c (set cs)"
  by (induction c cs rule: insert_conn.induct) auto

lemma insert_conn_connects: "\<exists>d \<in> set (insert_conn c cs). cc_clientID d = cc_clientID c"
proof (induction c cs rule: insert_conn.induct)
  case (2 c d ds)
  then show ?case
    by (auto simp: not_less_iff_gr_or_eq)
qed simp

lemma enter_connection_keeps:
  assumes "stub_ok E s" "\<not> expired E ch"
  shows "stub_ok E (enter_connection E ch cid sid proto s) \<and> connected cid (enter_connection E ch cid sid proto s) \<and>
    ss_sessionId (enter_connection E ch cid sid proto s) = ss_sessionId s"
proof -
  define c where "c = \<lparr> cc_id = ss_nextId s, cc_clientID = cid, cc_serverID = sid,
      cc_notificationID = sve_detachNotification E cid (ss_nextId s), cc_channel = ch,
      cc_protoMinor = min_protoMinor proto \<rparr>"
  have "enter_connection E ch cid sid proto s = s\<lparr> ss_nextId := ss_nextId s + 1,
      ss_calls := ss_calls s @ [Set_detach_notification cid (ss_nextId s)],
      ss_conns := insert_conn c (ss_conns s) \<rparr>"
    by (simp add: enter_connection_def cs_createId_def c_def call_broker_def)
  moreover have "cc_clientID c = cid" "\<not> expired E (cc_channel c)" using assms(2) by (simp_all add: c_def)
  ultimately show ?thesis
    using assms(1) set_insert_conn [of "ss_conns s" c] insert_conn_connects [of c "ss_conns s"]
    by (auto simp: stub_ok_def connected_def) (meson subsetD)+
qed

lemma removeUnblocked_ran:
  "ran (ss_unblocked (removeUnblockedSessions cid s)) = {n \<in> ran (ss_unblocked s). \<not> party_eq (nf_clientID n) cid}"
  by (auto simp: removeUnblockedSessions_def ran_def split: option.splits if_splits)

lemma drop_client_fields:
  "ss_notifs (drop_client E c s) = filter (\<lambda>n. \<not> party_eq (nf_clientID n) (cc_clientID c)) (ss_notifs s)"
  "ran (ss_unblocked (drop_client E c s)) = {n \<in> ran (ss_unblocked s). \<not> party_eq (nf_clientID n) (cc_clientID c)}"
  "ss_conns (drop_client E c s) = filter (\<lambda>d. cc_clientID d \<noteq> cc_clientID c) (ss_conns s)"
  "ss_sessions (drop_client E c s) = filter (\<lambda>d. \<not> party_eq (sd_clientID d) (cc_clientID c)) (ss_sessions s)"
  "ss_sessionId (drop_client E c s) = ss_sessionId s" "ss_out (drop_client E c s) = ss_out s"
  using removeUnblocked_ran [of "cc_clientID c"]
  by (simp_all add: drop_client_def Let_def removeAllSessions_def cs_removeNotification_def)
    (simp_all add: removeUnblockedSessions_def)

lemma drop_client_keeps:
  assumes "stub_ok E s"
  shows "stub_ok E (drop_client E c s)"
  using assms by (fastforce simp: stub_ok_def connected_def drop_client_fields party_eq_def)

section \<open>Runs of a server\<close>

text \<open>
  The events of a server between its start and its end: clients connect (over a channel that the
  engine could attach), send requests while they are connected, disconnect or are found dead, and
  the implementation calls its operations.
\<close>

inductive stub_step :: "stub_env \<Rightarrow> stub_server \<Rightarrow> stub_server \<Rightarrow> bool" for E where
  Connect: "\<not> expired E (sve_attach E pid chid) \<Longrightarrow>
    stub_step E s (handleConnectRequest E from cid sid proto pid chid s)"
| Connect_TCP: "\<not> expired E (sve_attachTCP E ip port) \<Longrightarrow>
    stub_step E s (handleConnectRequestTCP E from cid sid proto ip port s)"
| Connect_legacy: "\<not> expired E (sve_attachTCP E ip port) \<Longrightarrow>
    stub_step E s (handleLegacyConnectRequestTCP E from cid sid proto ip port s)"
| Data: "connected (dh_clientID h) s \<Longrightarrow> handleDataRequest E h s = Inr s' \<Longrightarrow> stub_step E s s'"
| Operation: "run_op E x s = Inr s' \<Longrightarrow> stub_step E s s'"
| Disconnect: "stub_step E s (handleDisconnectRequest E cid s)"
| Detached: "stub_step E s (snd (handleClientDetached E i s))"

inductive stub_reachable :: "stub_env \<Rightarrow> stub_server \<Rightarrow> stub_server \<Rightarrow> bool" for E s where
  start: "stub_reachable E s s"
| step: "stub_reachable E s s1 \<Longrightarrow> stub_step E s1 s2 \<Longrightarrow> stub_reachable E s s2"

lemma stub_reachable_trans:
  assumes "stub_reachable E s s1" "stub_reachable E s1 s2"
  shows "stub_reachable E s s2"
  using assms(2) by induction (auto intro: assms(1) stub_reachable.step)

text \<open>A server as its constructor leaves it.\<close>

definition new_stub_server :: "u32 \<Rightarrow> bool \<Rightarrow> (u32 \<Rightarrow> data_state) \<Rightarrow> stub_server" where
  "new_stub_server next tcp attrs =
     \<lparr> ss_conns = [], ss_notifs = [], ss_unblocked = Map.empty, ss_sessions = [], ss_active = {},
       ss_sessionId = INVALID_SESSION_ID, ss_responseId = INVALID_ID, ss_clientID = party_assign 0,
       ss_sequenceNr = INVALID_SEQUENCE_NR, ss_responseState = (\<lambda>_. False), ss_attributeState = attrs,
       ss_serverID = party_assign 0, ss_tcpServerID = party_assign 0, ss_tcpEnabled = tcp,
       ss_nextId = next, ss_out = [], ss_calls = [], ss_callbacks = [] \<rparr>"

lemma keepsD: "keeps E s (Inr s') \<Longrightarrow> stub_ok E s' \<and> ss_sessionId s' = ss_sessionId s"
  by simp

lemma stub_step_ok:
  assumes "stub_step E s s'" "stub_ok E s" "ss_sessionId s = INVALID_SESSION_ID"
  shows "stub_ok E s' \<and> ss_sessionId s' = INVALID_SESSION_ID"
  using assms
proof cases
  case (Data h)
  then show ?thesis using handleDataRequest_keeps [OF assms(2) Data(1) assms(3)] assms(3) keepsD by metis
next
  case (Operation x)
  then show ?thesis using run_op_keeps [OF assms(2), of x] assms(3) keepsD by metis
next
  case (Disconnect cid)
  have "stub_ok E (call_broker x s)" "ss_sessionId (call_broker x s) = ss_sessionId s" for x
    using assms(2) by (simp_all add: call_broker_def)
  then show ?thesis
    using Disconnect assms(2,3) drop_client_keeps
    by (auto simp: handleDisconnectRequest_def drop_client_fields split: option.split)
next
  case (Detached i)
  then show ?thesis
    using assms(2,3) drop_client_keeps by (auto simp: handleClientDetached_def drop_client_fields split: option.split)
qed (use assms(2,3) enter_connection_keeps in \<open>auto simp: handleConnectRequest_def handleConnectRequestTCP_def
      handleLegacyConnectRequestTCP_def Let_def split: option.split\<close>)

lemma stub_reachable_ok:
  assumes "stub_reachable E (new_stub_server next tcp attrs) s"
  shows "stub_ok E s \<and> ss_sessionId s = INVALID_SESSION_ID"
  using assms
proof induction
  case start
  then show ?case by (simp add: stub_ok_def new_stub_server_def)
qed (use stub_step_ok in blast)

section \<open>A request and its response\<close>

definition pending :: "data_handle \<Rightarrow> u32 \<Rightarrow> notif" where
  "pending h rid = \<lparr> nf_sessionId = INVALID_SESSION_ID, nf_clientID = dh_clientID h,
     nf_sequenceNr = dh_sequenceNr h, nf_notifyID = rid \<rparr>"

text \<open>The state in which the implementation of a standard request is called.\<close>

definition in_request :: "data_handle \<Rightarrow> u32 \<Rightarrow> stub_server \<Rightarrow> stub_server" where
  "in_request h rid s =
     s\<lparr> ss_responseId := rid, ss_notifs := ss_notifs s @ [pending h rid],
        ss_responseState := (ss_responseState s)(rid := True), ss_clientID := dh_clientID h,
        ss_sequenceNr := dh_sequenceNr h \<rparr>"

definition request_over :: "stub_server \<Rightarrow> stub_server" where
  "request_over s = s\<lparr> ss_responseId := INVALID_ID, ss_sequenceNr := INVALID_SEQUENCE_NR,
     ss_clientID := party_assign 0 \<rparr>"

lemma standard_request:
  assumes "stub_ok E s" "find_conn (dh_clientID h) (ss_conns s) = Some c" "cc_protoMinor c = dh_protoMinor h"
    "dh_type h = REQUEST" "sve_getResponse E (dh_requestId h) = rid" "rid \<noteq> INVALID_ID" "\<not> ss_responseState s rid"
    "sve_method E (dh_requestId h) = Some Plain_method" "sve_arguments_ok E (dh_requestId h) (dh_payload h)"
  shows "handleDataRequest E h s = map_sum id request_over
    (run_ops E (sve_implementation E (dh_requestId h) (dh_payload h) (in_request h rid s)) (in_request h rid s))"
  using assms
  by (simp add: handleDataRequest_def findClientConnection_def handle_standard_def processRequest_def
      run_implementation_def in_request_def pending_def request_over_def [abs_def] Let_def)

lemma find_conn_id: "find_conn cid cs = Some c \<Longrightarrow> c \<in> set cs \<and> cc_clientID c = cid"
  by (auto simp: find_conn_def find_Some_iff)

lemma in_request_ok:
  assumes "stub_ok E s" "find_conn (dh_clientID h) (ss_conns s) = Some c"
  shows "stub_ok E (in_request h rid s)"
proof -
  have "connected (dh_clientID h) s"
    using find_conn_id [OF assms(2)] by (auto simp: connected_def)
  then have "stub_ok E (s\<lparr> ss_notifs := ss_notifs s @ [pending h rid] \<rparr>)"
    using assms(1) by (intro stub_ok_push) (simp_all add: pending_def)
  then show ?thesis by (simp add: in_request_def stub_ok_def connected_def)
qed

text \<open>Nobody else waits for the response.\<close>

lemma responded_last:
  assumes "\<And>n. n \<in> set ns \<Longrightarrow> nf_notifyID n \<noteq> rid" "ss_notifs s = ns @ [m]" "nf_notifyID m = rid"
    "nf_sessionId m = INVALID_SESSION_ID" "nf_sequenceNr m \<noteq> INVALID_SEQUENCE_NR"
  shows "responded rid i rt payload (length (ss_notifs s)) s =
    s\<lparr> ss_notifs := ns, ss_out := ss_out s @ [response_to s rt i payload m] \<rparr>"
proof -
  have "filter (gets_response rid s) ns = []" "filter (\<lambda>n. \<not> (gets_response rid s n \<and> one_shot n)) ns = ns"
    using assms(1) by (auto simp: gets_response_def filter_empty_conv filter_id_conv)
  moreover have "gets_response rid s m" "one_shot m"
    using assms(3-5) by (simp_all add: gets_response_def one_shot_def)
  ultimately show ?thesis using assms(2) by (simp add: responded_def)
qed

lemma respond_to_last:
  assumes "stub_ok E s" "ss_notifs s = ns @ [m]" "\<And>n. n \<in> set ns \<Longrightarrow> nf_notifyID n \<noteq> rid" "nf_notifyID m = rid"
    "nf_sessionId m = INVALID_SESSION_ID" "nf_sequenceNr m \<noteq> INVALID_SEQUENCE_NR" "ss_responseId s = rid"
    "find_conn (nf_clientID m) (ss_conns s) = Some c" "cc_channel c = Some ch"
  shows "response_method E rid payload s =
    Inr (s\<lparr> ss_responseState := (ss_responseState s)(rid := False), ss_notifs := ns,
      ss_out := ss_out s @ [Data_response ch (nf_clientID m) (cc_serverID c) (cc_protoMinor c) RESULT_OK rid
        (nf_sequenceNr m) payload], ss_responseId := INVALID_ID \<rparr>)"
  using responded_last [OF assms(3) _ assms(4-6), where s = "s\<lparr> ss_responseState := (ss_responseState s)(rid := False) \<rparr>"]
    assms(2,7-9)
  by (simp add: response_method_ok [OF assms(1)] response_sent_def response_to_def response_message_def)

lemma request_answered_once:
  assumes "stub_ok E s" "find_conn (dh_clientID h) (ss_conns s) = Some c" "cc_channel c = Some ch"
    "cc_protoMinor c = dh_protoMinor h" "dh_type h = REQUEST" "sve_getResponse E (dh_requestId h) = rid"
    "rid \<noteq> INVALID_ID" "\<not> ss_responseState s rid" "dh_sequenceNr h \<noteq> INVALID_SEQUENCE_NR"
    "sve_method E (dh_requestId h) = Some Plain_method" "sve_arguments_ok E (dh_requestId h) (dh_payload h)"
    "\<And>n. n \<in> set (ss_notifs s) \<Longrightarrow> nf_notifyID n \<noteq> rid"
    "sve_implementation E (dh_requestId h) (dh_payload h) (in_request h rid s) = [Respond rid payload]"
  shows "handleDataRequest E h s = Inr (request_over (s\<lparr> ss_responseState := (ss_responseState s)(rid := False),
    ss_out := ss_out s @ [Data_response ch (dh_clientID h) (cc_serverID c) (cc_protoMinor c) RESULT_OK rid
      (dh_sequenceNr h) payload] \<rparr>))"
proof -
  have "response_method E rid payload (in_request h rid s) =
      Inr ((in_request h rid s)\<lparr> ss_responseState := (ss_responseState s)(rid := False), ss_notifs := ss_notifs s,
        ss_out := ss_out s @ [Data_response ch (dh_clientID h) (cc_serverID c) (cc_protoMinor c) RESULT_OK rid
          (dh_sequenceNr h) payload], ss_responseId := INVALID_ID \<rparr>)"
    by (subst respond_to_last [OF in_request_ok [OF assms(1,2)], where ns = "ss_notifs s" and m = "pending h rid"
          and c = c and ch = ch])
      (use assms in \<open>simp_all add: in_request_def pending_def\<close>)
  then show ?thesis
    unfolding standard_request [OF assms(1,2,4-8,10,11)] assms(13)
    by (simp add: request_over_def in_request_def)
qed

text \<open>While a response is outstanding, the next request for it is refused.\<close>

lemma busy_refused:
  assumes "stub_ok E s" "find_conn (dh_clientID h) (ss_conns s) = Some c" "cc_channel c = Some ch"
    "cc_protoMinor c = dh_protoMinor h" "dh_type h = REQUEST" "sve_getResponse E (dh_requestId h) = rid"
    "rid \<noteq> INVALID_ID" "ss_responseState s rid"
  shows "handleDataRequest E h s = Inr (emit (Data_response ch (dh_clientID h) (cc_serverID c) (cc_protoMinor c)
    RESULT_REQUEST_BUSY (dh_requestId h) (dh_sequenceNr h) (le_bytes 4 0)) s)"
proof -
  have "\<not> expired E (cc_channel c)" "cc_clientID c = dh_clientID h"
    using assms(1) find_conn_id [OF assms(2)] by (simp_all add: stub_ok_def)
  then show ?thesis
    using assms by (simp add: handleDataRequest_def findClientConnection_def handle_standard_def
        sendErrorToClient_def response_message_def)
qed

section \<open>A deferred response\<close>

lemma find_last_snoc:
  assumes "P x"
  shows "find_last P (xs @ [x]) (length (xs @ [x])) = int (length xs)"
  using assms by (simp add: nth_append)

lemma unblocked_request:
  assumes "stub_ok E s" "find_conn (dh_clientID h) (ss_conns s) = Some c"
    "cc_protoMinor c = dh_protoMinor h" "dh_type h = REQUEST" "sve_getResponse E (dh_requestId h) = rid"
    "rid \<noteq> INVALID_ID" "\<not> ss_responseState s rid" "dh_sequenceNr h \<noteq> INVALID_SEQUENCE_NR"
    "sve_method E (dh_requestId h) = Some Plain_method" "sve_arguments_ok E (dh_requestId h) (dh_payload h)"
    "sve_implementation E (dh_requestId h) (dh_payload h) (in_request h rid s) = [Unblock]"
  shows "handleDataRequest E h s = Inr (request_over (s\<lparr> ss_nextId := ss_nextId s + 1,
    ss_unblocked := (ss_unblocked s)(ss_nextId s \<mapsto> pending h rid),
    ss_responseState := (ss_responseState s)(rid := False) \<rparr>))"
proof -
  let ?P = "\<lambda>n. nf_notifyID n = rid \<and> nf_sessionId n = INVALID_SESSION_ID \<and>
      party_eq (nf_clientID n) (dh_clientID h)"
  have l: "find_last ?P (ss_notifs s @ [pending h rid]) (Suc (length (ss_notifs s))) = int (length (ss_notifs s))"
    using find_last_snoc [of ?P "pending h rid" "ss_notifs s"] by (simp add: pending_def party_eq_def)
  have "erase_at (length (ss_notifs s)) (ss_notifs s @ [pending h rid]) = ss_notifs s"
    by (simp add: erase_at_def)
  with l show ?thesis
    unfolding standard_request [OF assms(1-7,9,10)] assms(11)
    using assms(6,8)
    by (simp add: unblockRequest_def in_request_def cs_createId_def request_over_def Let_def del: find_last.simps)
qed

text \<open>Later the response goes to the client that asked, with the number of its request.\<close>

lemma prepared_response_sent:
  assumes "stub_ok E s" "ss_responseId s = INVALID_ID" "ss_unblocked s handle = Some (pending h rid)"
    "dh_sequenceNr h \<noteq> INVALID_SEQUENCE_NR" "\<And>n. n \<in> set (ss_notifs s) \<Longrightarrow> nf_notifyID n \<noteq> rid"
    "find_conn (dh_clientID h) (ss_conns s) = Some c" "cc_channel c = Some ch"
  shows "run_ops E [Prepare handle, Respond rid payload] s = Inr (s\<lparr> ss_clientID := dh_clientID h,
    ss_unblocked := (ss_unblocked s)(handle := None), ss_responseState := (ss_responseState s)(rid := False),
    ss_out := ss_out s @ [Data_response ch (dh_clientID h) (cc_serverID c) (cc_protoMinor c) RESULT_OK rid
      (dh_sequenceNr h) payload], ss_responseId := INVALID_ID \<rparr>)"
proof -
  define s1 where "s1 = s\<lparr> ss_unblocked := (ss_unblocked s)(handle := None), ss_responseId := rid,
    ss_clientID := dh_clientID h, ss_notifs := ss_notifs s @ [pending h rid],
    ss_responseState := (ss_responseState s)(rid := True) \<rparr>"
  have p: "cs_prepareResponse handle s = Inr s1"
    using assms(2,3) by (simp add: cs_prepareResponse_def s1_def) (simp add: pending_def)
  have "stub_ok E s1" using prepare_keeps [OF assms(1), of handle] by (simp add: p)
  then have "response_method E rid payload s1 =
    Inr (s1\<lparr> ss_responseState := (ss_responseState s1)(rid := False), ss_notifs := ss_notifs s,
      ss_out := ss_out s1 @ [Data_response ch (dh_clientID h) (cc_serverID c) (cc_protoMinor c) RESULT_OK rid
        (dh_sequenceNr h) payload], ss_responseId := INVALID_ID \<rparr>)"
    by (subst respond_to_last [where ns = "ss_notifs s" and m = "pending h rid" and c = c and ch = ch])
      (use assms in \<open>simp_all add: s1_def pending_def\<close>)
  then show ?thesis using p by (simp add: s1_def)
qed

section \<open>Where the server goes wrong\<close>

text \<open>
  A request of a client that is not connected is processed all the same; when it is refused as busy, the
  missing connection is dereferenced.
\<close>

lemma unconnected_request_null:
  assumes "find_conn (dh_clientID h) (ss_conns s) = None" "dh_protoMinor h = DSI_PROTOCOL_VERSION_MINOR"
    "dh_type h = REQUEST" "sve_getResponse E (dh_requestId h) \<noteq> INVALID_ID"
    "ss_responseState s (sve_getResponse E (dh_requestId h))"
  shows "handleDataRequest E h s = Inl Null_connection"
  using assms
  by (simp add: handleDataRequest_def findClientConnection_def handle_standard_def sendErrorToClient_def
      cs_removeNotification_def)

text \<open>
  Two notifications of a client that is gone: taking both out while the generated loop goes on with
  the smaller index reads behind the end of the vector.
\<close>

lemma response_loop_out_of_range:
  assumes "ss_conns s = []" "ss_notifs s = [n, m]" "nf_notifyID m = rid" "nf_sessionId m = INVALID_SESSION_ID"
    "party_eq (nf_clientID n) (nf_clientID m)"
  shows "response_method E rid payload s = Inl Out_of_range"
  using assms
  by (simp add: response_method_def gets_response_def findClientConnection_def find_conn_def Let_def
      removeNotification_ref_def vector_erase_def numeral_2_eq_2 party_eq_def)

text \<open>
  The reference in the call for a client that is gone: with the notification of that client between two of
  another, connected one, the response to the first erases a notification of the second.
\<close>

lemma other_client_loses_notification:
  assumes "ss_conns s = [c]" "ss_notifs s = [x, g, y]" "nf_notifyID g = rid" "nf_sessionId g = INVALID_SESSION_ID"
    "globalID (cc_clientID c) \<noteq> globalID (nf_clientID g)" "nf_clientID x = cc_clientID c" "nf_clientID y = cc_clientID c"
    "\<not> party_eq (cc_clientID c) (nf_clientID g)" "nf_notifyID x \<noteq> rid" "nf_notifyID y \<noteq> rid"
  shows "\<exists>s'. response_method E rid payload s = Inr s' \<and> ss_notifs s' = [y]"
  using assms
  by (simp add: response_method_def gets_response_def findClientConnection_def find_conn_def Let_def response_sent_def
      removeNotification_ref_def vector_erase_def numeral_3_eq_3 numeral_2_eq_2 party_eq_def)

text \<open>Removing the notifications of a session leaves the vector as long as it was.\<close>

lemma session_notifications_stay:
  "length (ss_notifs (removeSessionNotifications sid s)) = length (ss_notifs s)"
  "ss_notifs s = ns @ [n] \<Longrightarrow> n \<in> set (ss_notifs (removeSessionNotifications sid s)) \<or> nf_sessionId n \<noteq> sid"
  by (auto simp: removeSessionNotifications_def Let_def min_def not_le
      dest: length_filter_le [THEN le_trans])

text \<open>A new register session does not know its method, so the callback of its end depends on chance.\<close>

lemma session_method_lost:
  assumes "ss_sessions s = []" "ss_sessionId s = INVALID_SESSION_ID" "register_session E h s = Inr s'"
  shows "map sd_updateId (ss_sessions s') = [sve_junk E]"
  using assms
  by (auto simp: register_session_def select_session_def findSession_def cs_createId_def push_session_def
      copy_session_def Let_def)

text \<open>Clients of different nodes with the same local id: the end of one takes the notifications of the other.\<close>

lemma disconnect_hits_namesake:
  assumes "n \<in> set (ss_notifs s)" "party_eq (nf_clientID n) cid" "find_conn cid (ss_conns s) = Some c"
  shows "n \<notin> set (ss_notifs (handleDisconnectRequest E cid s))"
  using assms find_conn_id [OF assms(3)]
  by (simp add: handleDisconnectRequest_def drop_client_fields call_broker_def)

text \<open>A connect request over TCP that is not wanted gets no answer at all.\<close>

lemma tcp_refusal_silent:
  "\<not> ss_tcpEnabled s \<Longrightarrow> ss_out (handleConnectRequestTCP E from cid sid proto ip port s) = ss_out s"
  by (simp add: handleConnectRequestTCP_def)

end
