(* ===== verification/Comm_Engine_Spec.thy ===== *)
theory Comm_Engine_Spec
  imports Comm_Engine Stub_Server_Spec
begin

text \<open>
  What the communication engine guarantees: with every listed object alive it never uses a destroyed one,
  the caches agree with the lists, and a message reaches the one object it is for. Then where it goes wrong.
\<close>

section \<open>The ids of a server stay while it handles messages\<close>

definition server_ids :: "stub_server \<Rightarrow> SPartyID \<times> SPartyID \<times> bool" where
  "server_ids s = (ss_serverID s, ss_tcpServerID s, ss_tcpEnabled s)"

definition same_ids :: "stub_server \<Rightarrow> stub_error + stub_server \<Rightarrow> bool" where
  "same_ids s r \<longleftrightarrow> (\<forall>s'. r = Inr s' \<longrightarrow> server_ids s' = server_ids s)"

lemma same_ids_simps [simp]: "same_ids s (Inl x)" "same_ids s (Inr s') \<longleftrightarrow> server_ids s' = server_ids s"
  by (simp_all add: same_ids_def)

lemma server_ids_update [simp]:
  "server_ids (s\<lparr> ss_conns := x1 \<rparr>) = server_ids s" "server_ids (s\<lparr> ss_notifs := x2 \<rparr>) = server_ids s"
  "server_ids (s\<lparr> ss_unblocked := x3 \<rparr>) = server_ids s" "server_ids (s\<lparr> ss_sessions := x4 \<rparr>) = server_ids s"
  "server_ids (s\<lparr> ss_active := x5 \<rparr>) = server_ids s" "server_ids (s\<lparr> ss_sessionId := x6 \<rparr>) = server_ids s"
  "server_ids (s\<lparr> ss_responseId := x7 \<rparr>) = server_ids s" "server_ids (s\<lparr> ss_clientID := x8 \<rparr>) = server_ids s"
  "server_ids (s\<lparr> ss_sequenceNr := x9 \<rparr>) = server_ids s" "server_ids (s\<lparr> ss_responseState := x10 \<rparr>) = server_ids s"
  "server_ids (s\<lparr> ss_attributeState := x11 \<rparr>) = server_ids s" "server_ids (s\<lparr> ss_nextId := x12 \<rparr>) = server_ids s"
  "server_ids (s\<lparr> ss_out := x13 \<rparr>) = server_ids s" "server_ids (s\<lparr> ss_calls := x14 \<rparr>) = server_ids s"
  "server_ids (s\<lparr> ss_callbacks := x15 \<rparr>) = server_ids s"
  by (simp_all add: server_ids_def)

lemma same_ids_trans: "server_ids s1 = server_ids s \<Longrightarrow> same_ids s1 r \<Longrightarrow> same_ids s r"
  by (simp add: same_ids_def)

lemma same_ids_map: "same_ids s r \<Longrightarrow> (\<And>s. server_ids (f s) = server_ids s) \<Longrightarrow> same_ids s (map_sum id f r)"
  by (cases r) simp_all

lemma findClientConnection_ids: "server_ids (snd (findClientConnection cid s)) = server_ids s"
  by (simp add: findClientConnection_def cs_removeNotification_def split: option.splits)

lemma emit_ids [simp]: "server_ids (emit m s) = server_ids s"
  "server_ids (call_broker c s) = server_ids s" "server_ids (response_sent rid s) = server_ids s"
  "server_ids (after_response i n s) = server_ids s"
  "server_ids (removeNotification_ref i s) = server_ids s"
  by (simp_all add: emit_def call_broker_def response_sent_def after_response_def removeNotification_ref_def Let_def
      split: prod.splits)

lemma findClientConnection_idsD [dest]: "findClientConnection cid s = (r, s') \<Longrightarrow> server_ids s' = server_ids s"
  using findClientConnection_ids [of cid s] by simp

lemma send_notification_loop_ids: "same_ids s (send_notification_loop E i rt p c idx s)"
proof (induction "length (ss_notifs s) - idx" arbitrary: idx s rule: less_induct)
  case less
  have IH: "idx < length (ss_notifs s) \<Longrightarrow> server_ids s1 = server_ids s \<Longrightarrow> ss_notifs s1 = ss_notifs s \<Longrightarrow>
      same_ids s (send_notification_loop E i rt p c (Suc idx) s1)" for s1
    using less [of s1 "Suc idx"] same_ids_trans [of s1 s] by simp
  show ?case
    by (subst send_notification_loop.simps) (simp add: IH split: option.splits prod.splits)
qed

lemma send_response_loop_ids: "same_ids s (send_response_loop E rid i rt payload idx s)"
proof (induction idx arbitrary: s)
  case (Suc idx)
  have "server_ids s1 = server_ids s \<Longrightarrow> same_ids s (send_response_loop E rid i rt payload idx s1)" for s1
    using same_ids_trans Suc.IH by metis
  then show ?case by (auto simp: Let_def split: option.splits prod.splits)
qed simp

lemma response_method_loop_ids: "same_ids s (response_method_loop E rid payload idx s)"
proof (induction idx arbitrary: s)
  case (Suc idx)
  have "server_ids s1 = server_ids s \<Longrightarrow> same_ids s (response_method_loop E rid payload idx s1)" for s1
    using same_ids_trans Suc.IH by metis
  then show ?case by (auto simp: Let_def split: option.splits prod.splits)
qed simp

lemma sendNotification_ids: "same_ids s (sendNotification E i rt p c s)"
  by (simp add: sendNotification_def send_notification_loop_ids)

lemma response_method_ids: "same_ids s (response_method E rid payload s)"
  unfolding response_method_def Let_def
  by (rule same_ids_map [OF same_ids_trans [OF _ response_method_loop_ids]]) simp_all

lemma sendResponse_ids: "same_ids s (sendResponse E rid i rt err s)"
  unfolding sendResponse_def by (rule same_ids_map [OF send_response_loop_ids]) simp

lemma sendError_ids: "same_ids s (sendError E i err s)"
  by (auto simp: sendError_def Let_def intro: same_ids_trans [OF _ sendNotification_ids] same_ids_trans [OF _ sendResponse_ids])

lemma unblockRequest_ids: "same_ids s (map_sum id snd (unblockRequest s))"
  by (auto simp: unblockRequest_def Let_def cs_createId_def)

lemma run_op_ids: "same_ids s (run_op E x s)"
  by (cases x) (auto simp: response_method_ids sendError_ids sendNotification_ids unblockRequest_ids
      cs_prepareResponse_def split: option.splits)

lemma run_ops_ids: "same_ids s (run_ops E xs s)"
proof (induction xs arbitrary: s)
  case (Cons x xs)
  then show ?case using run_op_ids [of s E x] same_ids_trans by (auto split: sum.splits)
qed simp

lemma removeSession_ids [simp]:
  "server_ids (removeSessionNotifications sid s) = server_ids s" "server_ids (removeSession sid s) = server_ids s"
  "server_ids (push_session E d s) = server_ids s" "server_ids (snd (cs_createId s)) = server_ids s"
  "server_ids (cs_removeNotification cid i s) = server_ids s"
  by (simp_all add: removeSession_def removeSessionNotifications_def push_session_def cs_createId_def
      cs_removeNotification_def Let_def)

lemma select_session_ids [simp]: "server_ids (snd (select_session h s)) = server_ids s"
  by (simp add: select_session_def Let_def split: option.splits)

lemma register_session_ids: "same_ids s (register_session E h s)"
proof -
  obtain session s1 where "select_session h s = (session, s1)" by fastforce
  moreover from this have "server_ids s1 = server_ids s" using select_session_ids [of h s] by simp
  ultimately show ?thesis
    by (auto simp: register_session_def Let_def cs_createId_def split: option.splits)
qed

lemma session_done_ids: "same_ids s r \<Longrightarrow> same_ids s (session_done r)"
  unfolding session_done_def by (rule same_ids_map) simp_all

lemma processRequest_ids: "same_ids s (processRequest E h s)"
proof -
  have impl: "server_ids s1 = server_ids s \<Longrightarrow> same_ids s (run_implementation E h s1)" for s1
    using same_ids_trans run_ops_ids by (metis run_implementation_def)
  have reg: "register_session E h s = Inr s1 \<Longrightarrow> server_ids s1 = server_ids s" for s1
    using register_session_ids [of s E h] by simp
  show ?thesis
    by (auto simp: processRequest_def Let_def impl reg
        intro!: session_done_ids same_ids_map split: option.splits method_kind.splits sum.splits)
qed

lemma sendErrorToClient_ids: "same_ids s (sendErrorToClient E cid i rt seqNr s)"
  by (auto simp: sendErrorToClient_def split: prod.splits option.splits)

lemma handle_standard_ids: "same_ids s (handle_standard E h s)"
  unfolding handle_standard_def Let_def
  by (auto simp: sendErrorToClient_ids intro!: same_ids_map [OF same_ids_trans [OF _ processRequest_ids]])

lemma enter_notification_ids [simp]: "server_ids (enter_notification E h s) = server_ids s"
  by (auto simp: enter_notification_def notify_entry_def Let_def cs_createId_def split: prod.splits option.splits)

lemma handle_notify_ids: "same_ids s (handle_notify E h s)"
  unfolding handle_notify_def Let_def
  by (auto intro: same_ids_trans [OF _ sendNotification_ids] split: prod.splits option.splits)

lemma handleDataRequest_ids: "same_ids s (handleDataRequest E h s)"
proof -
  obtain conn s1 where f: "findClientConnection (dh_clientID h) s = (conn, s1)" by fastforce
  have s1: "server_ids s1 = server_ids s" using f by auto
  note tr = same_ids_trans [OF s1]
  show ?thesis
    using s1 by (cases "dh_type h")
      (auto simp: handleDataRequest_def f tr [OF handle_standard_ids] tr [OF handle_notify_ids]
        split: option.splits)
qed

lemma connect_ids [simp]:
  "server_ids (enter_connection E c cid sid proto s) = server_ids s"
  "server_ids (handleConnectRequest E n cid sid proto pid chid s) = server_ids s"
  "server_ids (handleConnectRequestTCP E n cid sid proto pid chid s) = server_ids s"
  "server_ids (handleLegacyConnectRequestTCP E n cid sid proto pid chid s) = server_ids s"
proof -
  show c: "server_ids (enter_connection E c cid sid proto s) = server_ids s" for c
    by (simp add: enter_connection_def Let_def cs_createId_def)
  show "server_ids (handleConnectRequest E n cid sid proto pid chid s) = server_ids s"
    "server_ids (handleConnectRequestTCP E n cid sid proto pid chid s) = server_ids s"
    "server_ids (handleLegacyConnectRequestTCP E n cid sid proto pid chid s) = server_ids s"
    by (simp_all add: handleConnectRequest_def handleConnectRequestTCP_def handleLegacyConnectRequestTCP_def
        Let_def c split: option.splits)
qed

lemma disconnect_ids [simp]:
  "server_ids (drop_client E c s) = server_ids s" "server_ids (handleDisconnectRequest E cid s) = server_ids s"
  "server_ids (snd (handleClientDetached E i s)) = server_ids s"
proof -
  show d: "server_ids (drop_client E c s) = server_ids s" for c s
    by (simp add: drop_client_def removeAllSessions_def removeUnblockedSessions_def Let_def server_ids_def
        cs_removeNotification_def)
  show "server_ids (handleDisconnectRequest E cid s) = server_ids s"
    "server_ids (snd (handleClientDetached E i s)) = server_ids s"
    by (simp_all add: handleDisconnectRequest_def handleClientDetached_def d split: option.splits)
qed


section \<open>The objects of an engine\<close>

text \<open>
  Every address in a list or a cache is that of a living object, a listed client or server points to the engine, and
  a cached server is filed under the id it has.
\<close>

definition cache_live :: "nat list \<Rightarrow> (u64 \<times> nat) list \<Rightarrow> bool" where
  "cache_live as cache \<longleftrightarrow> snd ` set cache \<subseteq> set as"

definition engine_ok :: "engine \<Rightarrow> bool" where
  "engine_ok e \<longleftrightarrow>
     set (en_serverList e) \<subseteq> dom (en_servers e) \<and> set (en_clientList e) \<subseteq> dom (en_clients e) \<and>
     cache_live (en_serverList e) (en_serverCache e) \<and> cache_live (en_clientList e) (en_clientCache e) \<and>
     (\<forall>(k, a) \<in> set (en_serverCache e). server_key e a = k)"

lemma engine_okD:
  assumes "engine_ok e"
  shows "a \<in> set (en_serverList e) \<Longrightarrow> \<exists>s. en_servers e a = Some s"
    "a \<in> set (en_clientList e) \<Longrightarrow> \<exists>c. en_clients e a = Some c"
    "(k, a) \<in> set (en_serverCache e) \<Longrightarrow> a \<in> set (en_serverList e)"
    "(k, a) \<in> set (en_clientCache e) \<Longrightarrow> a \<in> set (en_clientList e)"
    "(k, a) \<in> set (en_serverCache e) \<Longrightarrow> server_key e a = k"
  using assms by (force simp: engine_ok_def cache_live_def)+

lemma set_cache_put: "set (cache_put k v xs) \<subseteq> insert (k, v) (set xs)"
  by (induction k v xs rule: cache_put.induct) auto

lemma cache_live_put: "cache_live as cache \<Longrightarrow> a \<in> set as \<Longrightarrow> cache_live as (cache_put k a cache)"
  using set_cache_put [of k a cache] by (fastforce simp: cache_live_def)

lemma cache_live_remove: "cache_live as cache \<Longrightarrow> cache_live as (removeFromCache a cache)"
  using set_erase_first_subset [of "\<lambda>(k, w). w = a" cache] by (fastforce simp: cache_live_def removeFromCache_def)

lemma find_object_live:
  assumes "set as \<subseteq> dom h"
  shows "\<exists>r. find_object h P as = Inr r \<and>
    (case r of None \<Rightarrow> \<forall>a \<in> set as. \<not> P (the (h a)) | Some a \<Rightarrow> a \<in> set as \<and> P (the (h a)))"
  using assms by (induction as) (auto split: option.splits)

section \<open>The directories of clients and servers\<close>

text \<open>
  What the lookups of clients and servers have in common: a cache by global id in front of a scan of the list. The
  scan is the specification; the cache must not change what it finds.
\<close>

definition scan_party :: "('a \<Rightarrow> bool) \<Rightarrow> (nat \<rightharpoonup> 'a) \<Rightarrow> nat list \<Rightarrow> nat option" where
  "scan_party P h as = find (\<lambda>a. \<exists>x. h a = Some x \<and> P x) as"

lemma scan_party_Some:
  "scan_party P h as = Some a \<Longrightarrow> a \<in> set as \<and> (\<exists>x. h a = Some x \<and> P x)"
  unfolding scan_party_def by (auto simp: find_Some_iff)

lemma find_object_scan: "set as \<subseteq> dom h \<Longrightarrow> find_object h P as = Inr (scan_party P h as)"
  by (induction as) (auto simp: scan_party_def split: option.splits)

locale party_directory =
  fixes objects :: "engine \<Rightarrow> nat \<rightharpoonup> 'a" and listed :: "engine \<Rightarrow> nat list" and cache :: "engine \<Rightarrow> (u64 \<times> nat) list"
    and refile :: "(u64 \<times> nat) list \<Rightarrow> engine \<Rightarrow> engine" and key :: "'a \<Rightarrow> u64" and is_id :: "SPartyID \<Rightarrow> 'a \<Rightarrow> bool"
    and find_party :: "SPartyID \<Rightarrow> engine \<Rightarrow> engine_error + (nat option \<times> engine)"
  assumes find_unfold: "find_party p e =
      (case map_of (cache e) (globalID p) of
         Some a \<Rightarrow> Inr (Some a, e)
       | None \<Rightarrow>
           (case find_object (objects e) (is_id p) (listed e) of
              Inl x \<Rightarrow> Inl x
            | Inr None \<Rightarrow> Inr (None, e)
            | Inr (Some a) \<Rightarrow> Inr (Some a, refile (cache_put (key (the (objects e a))) a (cache e)) e)))"
    and refile_frame: "objects (refile c e) = objects e" "listed (refile c e) = listed e" "cache (refile c e) = c"
      "refile (cache e) e = e"
    and own_id: "key x = globalID p \<Longrightarrow> is_id p x"
begin

definition directory_ok :: "engine \<Rightarrow> bool" where
  "directory_ok e \<longleftrightarrow> set (listed e) \<subseteq> dom (objects e) \<and> cache_live (listed e) (cache e)"

definition filed_right :: "engine \<Rightarrow> bool" where
  "filed_right e \<longleftrightarrow> (\<forall>(k, a) \<in> set (cache e). key (the (objects e a)) = k)"

definition unambiguous :: "SPartyID \<Rightarrow> engine \<Rightarrow> bool" where
  "unambiguous p e \<longleftrightarrow>
     (\<forall>a \<in> set (listed e). \<forall>b \<in> set (listed e). is_id p (the (objects e a)) \<longrightarrow> is_id p (the (objects e b)) \<longrightarrow> a = b)"

lemma find_ok:
  assumes "directory_ok e"
  shows "\<exists>r c. find_party p e = Inr (r, refile c e) \<and> cache_live (listed e) c \<and> (\<forall>a. r = Some a \<longrightarrow> a \<in> set (listed e)) \<and>
    (filed_right e \<longrightarrow> filed_right (refile c e))"
proof (cases "map_of (cache e) (globalID p)")
  case (Some a)
  then show ?thesis
    using assms map_of_SomeD [OF Some]
    by (intro exI [of _ "Some a"] exI [of _ "cache e"]) (force simp: find_unfold directory_ok_def cache_live_def refile_frame)
next
  case None
  let ?s = "scan_party (is_id p) (objects e) (listed e)"
  have f: "find_object (objects e) (is_id p) (listed e) = Inr ?s"
    using assms by (simp add: directory_ok_def find_object_scan)
  show ?thesis
  proof (cases ?s)
    case None
    with f \<open>map_of _ _ = None\<close> assms show ?thesis
      by (intro exI [of _ None] exI [of _ "cache e"]) (simp add: find_unfold directory_ok_def refile_frame)
  next
    case (Some a)
    with f \<open>map_of _ _ = None\<close> scan_party_Some [OF Some] assms show ?thesis
      using set_cache_put [of "key (the (objects e a))" a "cache e"]
      by (intro exI [of _ "Some a"] exI [of _ "cache_put (key (the (objects e a))) a (cache e)"])
        (auto simp: find_unfold directory_ok_def cache_live_put refile_frame filed_right_def)
  qed
qed

lemma find_scans:
  assumes "directory_ok e" "filed_right e" "unambiguous p e"
  shows "\<exists>c. find_party p e = Inr (scan_party (is_id p) (objects e) (listed e), refile c e)"
proof (cases "map_of (cache e) (globalID p)")
  case (Some a)
  have a: "a \<in> set (listed e)" "key (the (objects e a)) = globalID p"
    using map_of_SomeD [OF Some] assms(1,2) by (force simp: directory_ok_def cache_live_def filed_right_def)+
  then obtain x where x: "objects e a = Some x" using assms(1) by (auto simp: directory_ok_def)
  then have i: "is_id p x" using own_id a(2) by simp
  obtain b where b: "scan_party (is_id p) (objects e) (listed e) = Some b"
    using a(1) x i by (cases "scan_party (is_id p) (objects e) (listed e)") (auto simp: scan_party_def find_None_iff)
  then have "b = a"
    using scan_party_Some [OF b] assms(3) a(1) x i unfolding unambiguous_def by (metis option.sel)
  with b Some show ?thesis by (intro exI [of _ "cache e"]) (simp add: find_unfold refile_frame)
next
  case None
  then have "find_party p e = (case scan_party (is_id p) (objects e) (listed e) of
      None \<Rightarrow> Inr (None, e)
    | Some a \<Rightarrow> Inr (Some a, refile (cache_put (key (the (objects e a))) a (cache e)) e))"
    using assms(1) by (simp add: find_unfold directory_ok_def find_object_scan)
  then show ?thesis using refile_frame(4) by (cases "scan_party (is_id p) (objects e) (listed e)") (simp, metis, auto)
qed

end

definition file_server :: "(u64 \<times> nat) list \<Rightarrow> engine \<Rightarrow> engine" where
  "file_server c e = e\<lparr> en_serverCache := c \<rparr>"

definition file_client :: "(u64 \<times> nat) list \<Rightarrow> engine \<Rightarrow> engine" where
  "file_client c e = e\<lparr> en_clientCache := c \<rparr>"

interpretation sdir: party_directory en_servers en_serverList en_serverCache file_server
  "\<lambda>s. globalID (ss_serverID s)" is_server_id findServer
  by unfold_locales
    (auto simp: findServer_def server_key_def file_server_def is_server_id_def party_eq_def
      split: option.splits sum.splits)

interpretation cdir: party_directory en_clients en_clientList en_clientCache file_client
  "\<lambda>c. globalID (sc_clientID c)" is_client_id findClient
  by unfold_locales
    (auto simp: findClient_def client_key_def file_client_def is_client_id_def split: option.splits sum.splits)

section \<open>An engine with living objects never uses a destroyed one\<close>

lemma engine_ok_iff:
  "engine_ok e \<longleftrightarrow> sdir.directory_ok e \<and> cdir.directory_ok e \<and> sdir.filed_right e"
  by (auto simp: engine_ok_def sdir.directory_ok_def cdir.directory_ok_def sdir.filed_right_def server_key_def)

definition same_lists :: "engine \<Rightarrow> engine \<Rightarrow> bool" where
  "same_lists e e' \<longleftrightarrow> en_serverList e' = en_serverList e \<and> en_clientList e' = en_clientList e"

definition sound :: "engine \<Rightarrow> engine_error + engine \<Rightarrow> bool" where
  "sound e r \<longleftrightarrow> (case r of Inl x \<Rightarrow> \<forall>a. x \<noteq> Destroyed a | Inr e' \<Rightarrow> engine_ok e' \<and> same_lists e e')"

lemma sound_simps [simp]:
  "sound e (Inr e') \<longleftrightarrow> engine_ok e' \<and> same_lists e e'" "sound e (Inl x) \<longleftrightarrow> (\<forall>a. x \<noteq> Destroyed a)"
  by (simp_all add: sound_def)

lemma same_lists_refl [simp]: "same_lists e e"
  by (simp add: same_lists_def)

lemma sound_trans: "same_lists e e1 \<Longrightarrow> sound e1 r \<Longrightarrow> sound e r"
  by (cases r) (auto simp: same_lists_def)

lemma engine_ok_server:
  assumes "engine_ok e" "en_servers e a = Some s" "server_ids s' = server_ids s"
  shows "engine_ok (e\<lparr> en_servers := (en_servers e)(a \<mapsto> s') \<rparr>)"
  using assms by (auto simp: engine_ok_def server_key_def server_ids_def)

lemma engine_ok_counter [simp]: "engine_ok (e\<lparr> en_nextId := n \<rparr>) = engine_ok e"
  "engine_ok (e\<lparr> en_out := out \<rparr>) = engine_ok e" "engine_ok (e\<lparr> en_active := b \<rparr>) = engine_ok e"
  "engine_ok (e\<lparr> en_open := b \<rparr>) = engine_ok e"
  by (simp_all add: engine_ok_def server_key_def)

lemma engine_ok_client:
  assumes "engine_ok e" "en_clients e a = Some c"
  shows "engine_ok (e\<lparr> en_clients := (en_clients e)(a \<mapsto> c') \<rparr>)"
  using assms by (auto simp: engine_ok_def server_key_def)

lemma on_server_sound:
  assumes "engine_ok e" "a \<in> set (en_serverList e)" "\<And>s. same_ids s (f s)"
  shows "sound e (on_server a f e)"
proof -
  obtain s where s: "en_servers e a = Some s" using engine_okD(1) [OF assms(1,2)] by blast
  show ?thesis
    using s assms(3) [of "s\<lparr> ss_nextId := en_nextId e \<rparr>"] engine_ok_server [OF assms(1) s]
    by (auto simp: on_server_def same_lists_def same_ids_def split: sum.splits)
qed

lemma on_client_sound:
  assumes "engine_ok e" "a \<in> set (en_clientList e)"
  shows "sound e (on_client a f e)"
proof -
  obtain c where c: "en_clients e a = Some c" using engine_okD(2) [OF assms] by blast
  then show ?thesis
    using engine_ok_client [OF assms(1) c] by (auto simp: on_client_def same_lists_def split: sum.splits)
qed

lemma on_all_sound:
  assumes "engine_ok e" "\<And>a e. a \<in> set as \<Longrightarrow> engine_ok e \<Longrightarrow> same_lists base e \<Longrightarrow> sound e (f a e)" "same_lists base e"
  shows "sound e (on_all f as e)"
  using assms
proof (induction as arbitrary: e)
  case (Cons a as)
  have s: "sound e (f a e)" using Cons.prems by simp
  show ?case
  proof (cases "f a e")
    case (Inr e1)
    then have e1: "engine_ok e1" "same_lists e e1" using s by simp_all
    then have "sound e1 (on_all f as e1)"
      using Cons.prems by (intro Cons.IH) (auto simp: same_lists_def)
    then show ?thesis using Inr e1(2) sound_trans by simp
  qed (use s in simp)
qed simp

definition sound_rc :: "engine \<Rightarrow> engine_error + (bool \<times> engine) \<Rightarrow> bool" where
  "sound_rc e r \<longleftrightarrow> sound e (map_sum id snd r)"

lemma sound_rc_Pair: "sound e r \<Longrightarrow> sound_rc e (map_sum id (Pair b) r)"
  by (cases r) (simp_all add: sound_rc_def)

lemma to_server_sound:
  assumes "engine_ok e" "\<And>a s. same_ids s (f a s)"
  shows "sound_rc e (to_server hdr f e)"
proof -
  obtain r c where f: "findServer (party_assign (h_serverID hdr)) e = Inr (r, file_server c e)"
    "engine_ok (file_server c e)" "\<And>a. r = Some a \<Longrightarrow> a \<in> set (en_serverList e)"
    using sdir.find_ok [of e "party_assign (h_serverID hdr)"] assms(1)
    by (auto simp: engine_ok_iff sdir.directory_ok_def cdir.directory_ok_def sdir.refile_frame file_server_def)
  have l: "same_lists e (file_server c e)" "en_serverList (file_server c e) = en_serverList e"
    by (simp_all add: same_lists_def file_server_def)
  show ?thesis
  proof (cases r)
    case None
    then show ?thesis using f l by (simp add: to_server_def sound_rc_def)
  next
    case (Some a)
    then have "sound (file_server c e) (on_server a (f a) (file_server c e))"
      using f(2,3) l(2) assms(2) on_server_sound by simp
    then show ?thesis
      using f(1) Some sound_trans [OF l(1)] by (simp add: to_server_def sound_rc_Pair)
  qed
qed

lemma to_client_sound:
  assumes "engine_ok e"
  shows "sound_rc e (to_client hdr f e)"
proof -
  obtain r c where f: "findClient (party_assign (h_clientID hdr)) e = Inr (r, file_client c e)"
    "engine_ok (file_client c e)" "\<And>a. r = Some a \<Longrightarrow> a \<in> set (en_clientList e)"
    using cdir.find_ok [of e "party_assign (h_clientID hdr)"] assms
    by (auto simp: engine_ok_def sdir.directory_ok_def cdir.directory_ok_def file_client_def server_key_def)
  have l: "same_lists e (file_client c e)" "en_clientList (file_client c e) = en_clientList e"
    by (simp_all add: same_lists_def file_client_def)
  show ?thesis
  proof (cases r)
    case None
    then show ?thesis using f l by (simp add: to_client_def sound_rc_def)
  next
    case (Some a)
    then have "sound (file_client c e) (on_client a (f a) (file_client c e))"
      using f(2,3) l(2) on_client_sound by simp
    then show ?thesis
      using f(1) Some sound_trans [OF l(1)] by (simp add: to_client_def sound_rc_Pair)
  qed
qed

lemma connect_server_ids [simp]: "server_ids (connect_server E ch hdr b a s) = server_ids s"
  by (simp add: connect_server_def Let_def)

text \<open>A refused connection apart, a connect request goes the way of the other messages to servers.\<close>

lemma dispatch_connect_sound:
  assumes "engine_ok e"
  shows "sound_rc e (dispatch_connect E ch hdr b e)"
proof -
  have "sound_rc e (to_server hdr (\<lambda>a s. Inr (connect_server E ch hdr b a s)) e)"
    by (rule to_server_sound [OF assms]) simp
  moreover have "findServer p e = Inr (None, e1) \<Longrightarrow> sound e (Inr e1)" for p e1
    using sdir.find_ok [of e p] assms
    by (auto simp: engine_ok_iff sdir.directory_ok_def cdir.directory_ok_def sdir.refile_frame file_server_def
        same_lists_def)
  ultimately show ?thesis
    by (auto simp: dispatch_connect_def to_server_def refuse_connect_def sound_rc_def same_lists_def
        split: sum.splits option.splits)
qed

lemma en_dispatch_sound:
  assumes "engine_ok e"
  shows "sound_rc e (en_dispatch E ch hdr b e)"
  using assms dispatch_connect_sound [OF assms] to_client_sound [OF assms]
  by (auto simp: en_dispatch_def Let_def intro!: to_server_sound handleDataRequest_ids)
    (simp add: sound_rc_def)


lemma cleanup_conns_ids: "cleanup_conns E ch cs s = Inr s' \<Longrightarrow> server_ids s' = server_ids s"
  by (induction E ch cs s rule: cleanup_conns.induct) (auto simp: Let_def split: if_splits)

lemma cleanup_conns_error: "cleanup_conns E ch cs s = Inl x \<Longrightarrow> x = Iterator_erased"
  by (induction E ch cs s rule: cleanup_conns.induct) (auto simp: Let_def split: if_splits)

lemma cleanup_server_sound:
  assumes "engine_ok e" "a \<in> set (en_serverList e)"
  shows "sound e (cleanup_server E ch a e)"
proof -
  obtain s where s: "en_servers e a = Some s" using engine_okD(1) [OF assms] by blast
  show ?thesis
    using s engine_ok_server [OF assms(1) s] cleanup_conns_ids [of "ge_server E a" ch "ss_conns s" s]
      cleanup_conns_error [of "ge_server E a" ch "ss_conns s" s]
    by (auto simp: cleanup_server_def same_lists_def split: sum.splits)
qed

lemma cleanupChannel_sound:
  assumes "engine_ok e"
  shows "sound e (cleanupChannel E ch e)"
proof -
  have s: "sound e (on_all (cleanup_server E ch) (en_serverList e) e)"
    by (rule on_all_sound [OF assms, where base = e]) (simp_all add: cleanup_server_sound same_lists_def)
  show ?thesis
  proof (cases "on_all (cleanup_server E ch) (en_serverList e) e")
    case (Inr e1)
    then have e1: "engine_ok e1" "same_lists e e1" using s by simp_all
    have "sound e1 (on_all (cleanup_client E ch) (en_clientList e1) e1)"
      by (rule on_all_sound [OF e1(1), where base = e1])
        (simp_all add: cleanup_client_def on_client_sound same_lists_def)
    then show ?thesis using Inr e1 sound_trans by (simp add: cleanupChannel_def)
  qed (use s in \<open>simp add: cleanupChannel_def\<close>)
qed

lemma detach_in_sound:
  assumes "engine_ok e" "set as \<subseteq> set (en_serverList e)"
  shows "sound e (detach_in E v as e)"
  using assms
proof (induction as arbitrary: e)
  case (Cons a as)
  obtain s where s: "en_servers e a = Some s" using engine_okD(1) Cons.prems by force
  obtain found s' where h: "handleClientDetached (ge_server E a) v s = (found, s')" by fastforce
  let ?e = "e\<lparr> en_servers := (en_servers e)(a \<mapsto> s') \<rparr>"
  have "server_ids s' = server_ids s" using h disconnect_ids(3) [of "ge_server E a" v s] by simp
  then have ok: "engine_ok ?e" using engine_ok_server Cons.prems(1) s by blast
  then have "sound ?e (detach_in E v as ?e)" using Cons.IH [of ?e] Cons.prems(2) by simp
  then have "sound e (detach_in E v as ?e)" using sound_trans [of e ?e] by (simp add: same_lists_def)
  then show ?case using s h ok by (simp add: Let_def same_lists_def)
qed simp

lemma findClient_id_ok:
  assumes "engine_ok e"
  shows "\<exists>r. findClient_id i e = Inr r \<and> (\<forall>a. r = Some a \<longrightarrow> a \<in> set (en_clientList e))"
  using find_object_scan [of "en_clientList e" "en_clients e" "\<lambda>c. sc_id c = i"] assms scan_party_Some
  by (fastforce simp: findClient_id_def engine_ok_def)

lemma handlePulse_sound:
  assumes "engine_ok e"
  shows "sound e (handlePulse E code v e)"
proof -
  obtain r where r: "findClient_id v e = Inr r" "\<And>a. r = Some a \<Longrightarrow> a \<in> set (en_clientList e)"
    using findClient_id_ok [OF assms] by blast
  have c: "engine_ok (e\<lparr> en_clientCache := removeFromCache a (en_clientCache e) \<rparr>)" for a
    using assms by (auto simp: engine_ok_def server_key_def intro: cache_live_remove)
  have "sound e (on_client a f (e\<lparr> en_clientCache := removeFromCache b (en_clientCache e) \<rparr>))"
    if "r = Some a" for a b f
    using on_client_sound [OF c, of a b f] r(2) [OF that] sound_trans [OF _ on_client_sound [OF c, of a b f]]
    by (simp add: same_lists_def)
  then show ?thesis
    using r assms on_client_sound detach_in_sound [OF assms]
    by (auto simp: handlePulse_def split: option.splits)
qed

text \<open>The same of the functions that also return the rest of the bytes on the connection.\<close>

definition sound_msg :: "engine \<Rightarrow> (engine_error, bool \<times> char list \<times> engine) outcome \<Rightarrow> bool" where
  "sound_msg e r \<longleftrightarrow>
     (\<forall>a. r \<noteq> Some (Inl (Destroyed a))) \<and>
     (\<forall>rc w e'. r = Some (Inr (rc, w, e')) \<longrightarrow> engine_ok e' \<and> same_lists e e')"

lemma sound_msg_bind:
  assumes "sound_msg e r" "\<And>rc w e'. engine_ok e' \<Longrightarrow> same_lists e e' \<Longrightarrow> sound_msg e (f (rc, w, e'))"
  shows "sound_msg e (obind r f)"
proof -
  consider "r = None" | x where "r = Some (Inl x)" | rc w e' where "r = Some (Inr (rc, w, e'))"
    by (metis not_None_eq obj_sumE prod_cases3)
  then show ?thesis
  proof cases
    case 3
    then have "engine_ok e'" "same_lists e e'" using assms(1) by (simp_all add: sound_msg_def)
    with 3 assms(2) show ?thesis by simp
  qed (use assms(1) in \<open>simp_all add: sound_msg_def\<close>)
qed

lemma close_sound:
  assumes "engine_ok e1" "same_lists e e1"
  shows "sound_msg e (Some (map_sum id (\<lambda>e. (False, w, e)) (cleanupChannel E ch e1)))"
  using cleanupChannel_sound [OF assms(1), of E ch] assms(2)
  by (cases "cleanupChannel E ch e1") (auto simp: sound_msg_def same_lists_def)

lemma handleMessage_sound:
  assumes "engine_ok e"
  shows "sound_msg e (handleMessage E ch hdr wire e)"
proof -
  have d: "sound_msg e (Some (map_sum id (\<lambda>(rc, e). (rc, w, e)) (en_dispatch E ch hdr b e)))" for w b
    using en_dispatch_sound [OF assms, of E ch hdr b] by (cases "en_dispatch E ch hdr b e") (auto simp: sound_msg_def sound_rc_def)
  show ?thesis
    using assms by (auto simp: handleMessage_def d split: option.splits sum.splits) (simp_all add: sound_msg_def)
qed

lemma handleMessageHeader_sound:
  assumes "engine_ok e"
  shows "sound_msg e (handleMessageHeader E ch wire e)"
proof (cases "recvAll sizeof_MessageHeader wire")
  case None
  then show ?thesis using close_sound [OF assms] by (simp add: handleMessageHeader_def)
next
  case (Some p)
  obtain hb w where p: "p = (hb, w)" by fastforce
  have "sound_msg e (obind (handleMessage E ch (header_of hb) w e)
      (\<lambda>(rc, wire, e). if rc then Some (Inr (True, wire, e))
         else Some (map_sum id (\<lambda>e. (False, wire, e)) (cleanupChannel E ch e))))"
    by (rule sound_msg_bind [OF handleMessage_sound [OF assms]]) (auto intro: close_sound, simp add: sound_msg_def)
  then show ?thesis using Some p by (simp add: handleMessageHeader_def)
qed

text \<open>An event, and a sequence of events.\<close>

definition sound_outcome :: "engine \<Rightarrow> (engine_error, engine) outcome \<Rightarrow> bool" where
  "sound_outcome e r \<longleftrightarrow> (case r of None \<Rightarrow> True | Some x \<Rightarrow> sound e x)"

lemma tcp_answer_sound:
  assumes "engine_ok e" "a \<in> set (en_clientList e)"
  shows "sound e (tcp_answer E a ok ip port hdr info e)"
  unfolding tcp_answer_def by (rule on_client_sound [OF assms])

definition event_ok :: "engine \<Rightarrow> en_event \<Rightarrow> bool" where
  "event_ok e x \<longleftrightarrow> (case x of Ev_tcp a ok ip port hdr info \<Rightarrow> a \<in> set (en_clientList e) | _ \<Rightarrow> True)"

lemma en_handle_sound:
  assumes "engine_ok e" "event_ok e x"
  shows "sound_outcome e (en_handle E x e)"
proof (cases x)
  case (Ev_data ch wire)
  show ?thesis
    using handleMessageHeader_sound [OF assms(1), of E ch wire] Ev_data
    by (auto simp: sound_outcome_def sound_msg_def obind_def split: option.splits sum.splits)
next
  case (Ev_pulse code v)
  then show ?thesis using handlePulse_sound [OF assms(1)] by (simp add: sound_outcome_def)
next
  case (Ev_tcp a ok ip port hdr info)
  then show ?thesis
    using tcp_answer_sound [OF assms(1)] assms(2) by (simp add: sound_outcome_def event_ok_def)
qed

lemma event_ok_cong: "same_lists e e' \<Longrightarrow> event_ok e' = event_ok e"
  by (auto simp: event_ok_def same_lists_def fun_eq_iff split: en_event.splits)

lemma en_loop_sound:
  assumes "engine_ok e" "\<forall>x \<in> set xs. event_ok e x"
  shows "sound_outcome e (en_loop E xs e)"
  using assms
proof (induction xs arbitrary: e)
  case (Cons x xs)
  have s: "sound_outcome e (en_handle E x e)" using en_handle_sound Cons.prems by simp
  show ?case
  proof (cases "en_handle E x e")
    case (Some r)
    then show ?thesis
    proof (cases r)
      case (Inr e1)
      then have e1: "engine_ok e1" "same_lists e e1" using s Some by (simp_all add: sound_outcome_def)
      then have "sound_outcome e1 (en_loop E xs e1)"
        using Cons.IH [OF e1(1)] Cons.prems(2) event_ok_cong [OF e1(2)] by simp
      then show ?thesis
        using Some Inr e1(2) by (auto simp: sound_outcome_def split: option.splits elim: sound_trans)
    qed (use s Some in \<open>simp add: sound_outcome_def\<close>)
  qed (simp add: sound_outcome_def)
qed (simp add: sound_outcome_def)

section \<open>A whole run\<close>

definition lists_live :: "engine \<Rightarrow> bool" where
  "lists_live e \<longleftrightarrow> set (en_serverList e) \<subseteq> dom (en_servers e) \<and> set (en_clientList e) \<subseteq> dom (en_clients e)"

text \<open>Calls that may change the ids of the objects keep the lists, the caches and the objects alive.\<close>

definition alive :: "engine \<Rightarrow> engine_error + engine \<Rightarrow> bool" where
  "alive e r \<longleftrightarrow>
     (\<forall>a. r \<noteq> Inl (Destroyed a)) \<and>
     (\<forall>e'. r = Inr e' \<longrightarrow> same_lists e e' \<and> lists_live e' \<and> en_serverCache e' = en_serverCache e \<and>
        en_clientCache e' = en_clientCache e)"

lemma on_object_alive:
  assumes "lists_live e"
  shows "a \<in> set (en_serverList e) \<Longrightarrow> alive e (on_server a f e)"
    "a \<in> set (en_clientList e) \<Longrightarrow> alive e (on_client a g e)"
  using assms
  by (auto simp: alive_def lists_live_def on_server_def on_client_def same_lists_def split: option.splits sum.splits)

lemma on_all_alive:
  assumes "lists_live e" "\<And>a e. a \<in> set as \<Longrightarrow> lists_live e \<Longrightarrow> same_lists base e \<Longrightarrow> alive e (f a e)" "same_lists base e"
  shows "alive e (on_all f as e)"
  using assms
proof (induction as arbitrary: e)
  case (Cons a as)
  have s: "alive e (f a e)" using Cons.prems by simp
  show ?case
  proof (cases "f a e")
    case (Inr e1)
    then have e1: "same_lists e e1" "lists_live e1" "en_serverCache e1 = en_serverCache e"
      "en_clientCache e1 = en_clientCache e" using s by (simp_all add: alive_def)
    then have "alive e1 (on_all f as e1)"
      using Cons.prems by (intro Cons.IH) (auto simp: same_lists_def)
    then show ?thesis using Inr e1 by (auto simp: alive_def same_lists_def)
  qed (use s in \<open>simp add: alive_def\<close>)
qed (simp add: alive_def)

lemma on_servers_alive:
  assumes "lists_live e" "\<And>a e'. a \<in> set (en_serverList e') \<Longrightarrow> lists_live e' \<Longrightarrow> alive e' (f a e')"
  shows "alive e (on_all f (en_serverList e) e)"
  by (rule on_all_alive [OF assms(1), where base = e]) (simp_all add: assms(2) same_lists_def)

lemma on_clients_alive:
  assumes "lists_live e" "\<And>a e'. a \<in> set (en_clientList e') \<Longrightarrow> lists_live e' \<Longrightarrow> alive e' (f a e')"
  shows "alive e (on_all f (en_clientList e) e)"
  by (rule on_all_alive [OF assms(1), where base = e]) (simp_all add: assms(2) same_lists_def)

lemma alive_then:
  assumes "alive e1 r" "alive e (Inr e1)"
  shows "alive e (map_sum id (\<lambda>e. e\<lparr> en_active := b \<rparr>) r)"
  using assms by (cases r) (auto simp: alive_def same_lists_def lists_live_def)

lemma run_start_alive:
  assumes "lists_live e"
  shows "alive e (run_start E e)"
proof -
  have s: "alive e (on_all (en_registerInterface E) (en_serverList e) e)"
    using assms by (rule on_servers_alive) (simp add: en_registerInterface_def on_object_alive)
  show ?thesis
  proof (cases "on_all (en_registerInterface E) (en_serverList e) e")
    case (Inr e1)
    then have "lists_live e1" using s by (simp add: alive_def)
    then have "alive e1 (on_all (en_setNotification E) (en_clientList e1) e1)"
      by (rule on_clients_alive) (simp add: en_setNotification_def on_object_alive)
    then show ?thesis using Inr s by (simp add: run_start_def alive_then)
  qed (use s in \<open>simp add: run_start_def alive_def\<close>)
qed

lemma run_stop_alive:
  assumes "lists_live e"
  shows "run_stop E e \<noteq> Inl (Destroyed a)"
proof -
  let ?e = "e\<lparr> en_active := False \<rparr>"
  have "lists_live ?e" using assms by (simp add: lists_live_def)
  then have s: "alive ?e (on_all (\<lambda>a. on_client a (detachInterface (ge_client E a) False)) (en_clientList ?e) ?e)"
    by (rule on_clients_alive) (simp add: on_object_alive)
  show ?thesis
  proof (cases "on_all (\<lambda>a. on_client a (detachInterface (ge_client E a) False)) (en_clientList ?e) ?e")
    case (Inr e1)
    then have "lists_live e1" using s by (simp add: alive_def)
    then have "alive e1 (on_all (\<lambda>a. on_server a (\<lambda>s. Inr (unregisterInterface s))) (en_serverList e1) e1)"
      by (rule on_servers_alive) (simp add: on_object_alive)
    then show ?thesis using Inr by (simp add: run_stop_def Let_def alive_def)
  qed (use s in \<open>auto simp: run_stop_def Let_def alive_def\<close>)
qed

text \<open>A first run of an engine over the objects it lists, with any events of the dispatcher.\<close>

lemma en_run_safe:
  assumes "lists_live e" "en_serverCache e = []" "en_clientCache e = []" "\<forall>x \<in> set events. event_ok e x"
  shows "en_run E exitcode events e \<noteq> Some (Inl (Destroyed a))"
proof (cases "en_open e \<or> \<not> ge_opens E \<or> \<not> ge_listens E")
  case False
  let ?e = "e\<lparr> en_open := True \<rparr>"
  have s: "alive ?e (run_start E ?e)" using assms(1) by (intro run_start_alive) (simp add: lists_live_def)
  show ?thesis
  proof (cases "run_start E ?e")
    case (Inr e1)
    then have e1: "same_lists e e1" "lists_live e1" "en_serverCache e1 = []" "en_clientCache e1 = []"
      using s assms(2,3) by (auto simp: alive_def same_lists_def)
    then have ok: "engine_ok e1" by (simp add: engine_ok_def lists_live_def cache_live_def)
    then have lp: "sound_outcome e1 (en_loop E events e1)"
      using en_loop_sound [OF ok, of events E] assms(4) event_ok_cong [OF e1(1)] by simp
    show ?thesis
    proof (cases "en_loop E events e1")
      case (Some r)
      then show ?thesis
      proof (cases r)
        case (Inr e2)
        then have "lists_live e2" using lp Some by (simp add: sound_outcome_def engine_ok_def lists_live_def)
        then show ?thesis
          using Some Inr \<open>run_start E ?e = Inr e1\<close> False run_stop_alive [of e2 E a]
          by (cases "run_stop E e2") (auto simp: en_run_def)
      qed (use lp Some Inr False in \<open>auto simp: en_run_def sound_outcome_def\<close>)
    qed (use Inr False in \<open>simp add: en_run_def\<close>)
  qed (use s False in \<open>auto simp: en_run_def alive_def\<close>)
qed (auto simp: en_run_def)


section \<open>Names of local sockets\<close>

text \<open>The buffer of \<^verbatim>\<open>attach\<close> holds the name for every pid and channel another process may send.\<close>

lemma attach_path_fits:
  assumes "- (2 ^ 31) \<le> pid" "pid < 2 ^ 31" "- (2 ^ 31) \<le> chid" "chid < 2 ^ 31"
  shows "\<exists>p. makeLocalPath 32 pid chid = Path p \<and> length p = 32 \<and> hd p = NUL \<and> last p = NUL"
proof -
  let ?name = "''dsi/'' @ print_d pid @ ''/'' @ print_d chid"
  have "length ?name \<le> 27" using print_d_length [OF assms(1,2)] print_d_length [OF assms(3,4)] by simp
  then show ?thesis by (auto simp: makeLocalPath_def Let_def)
qed

text \<open>That of \<^verbatim>\<open>run\<close> has 24 bytes: enough for 17 digits, and only for those.\<close>

lemma decimal_step: "0 < n \<Longrightarrow> length (decimal (10 * n)) = Suc (length (decimal n))"
  by (subst decimal.simps) simp

lemma decimal_power: "length (decimal (10 ^ k)) = Suc k"
proof (induction k)
  case 0
  show ?case by (subst decimal.simps) simp
next
  case (Suc k)
  then show ?case using decimal_step [of "10 ^ k"] by simp
qed

lemma run_path_overflow: "makeLocalPath 24 (10 ^ 9) (10 ^ 9) = Path_overflow"
proof -
  have "print_d (10 ^ 9) = decimal (10 ^ 9)" by (simp add: print_d_def)
  then have "length (print_d (10 ^ 9)) = 10" by (simp only: decimal_power)
  then show ?thesis by (simp only: makeLocalPath_def Let_def) simp
qed

section \<open>Where the engine goes wrong\<close>

text \<open>\<^verbatim>\<open>std::remove\<close> alone leaves the vector as long as it was: a client that was added last stays listed.\<close>

lemma removed_client_listed:
  assumes "en_clientList e = as @ [a]" "remove_client E a e = Inr (True, e')"
  shows "a \<in> set (en_clientList e')"
  using assms
  by (auto simp: remove_client_def std_remove_last on_client_def Let_def split: option.splits sum.splits if_splits)

text \<open>The destructor of a client takes nothing out of the engine, which uses the client at the next pulse.\<close>

lemma destroyed_client_used:
  assumes "en_clientList e = [a]" "en_clients e a = Some c"
  shows "\<exists>e'. destroy_client E a e = Inr e' \<and> handlePulse E PULSE_SERVER_AVAILABLE v e' = Inl (Destroyed a)"
  using assms by (simp add: destroy_client_def remove_client_def handlePulse_def findClient_id_def)

text \<open>The end of a connection over which a server has a client erases the element its loop stands on.\<close>

lemma cleanup_erases_iterator:
  assumes "en_serverList e = a # as" "en_servers e a = Some s" "ss_conns s = [c]" "cc_channel c = Some ch"
    "sve_alive (ge_server E a) ch"
  shows "cleanupChannel E ch e = Inl Iterator_erased"
  using assms
  by (simp add: cleanupChannel_def cleanup_server_def expired_def handleClientDetached_def drop_client_def Let_def
      removeAllSessions_def removeUnblockedSessions_def cs_removeNotification_def)

text \<open>A server added to a running engine is registered locally twice, the first time before it is over TCP.\<close>

lemma added_registers_twice:
  assumes "ss_tcpEnabled s" "0 < ge_ipPort E"
  shows "ss_calls (register_added E a s) = ss_calls s @
    [Register_interface (ge_localFd E), Register_interface_TCP (ge_localIp E) (ge_ipPort E), Register_interface (ge_localFd E)]"
  using assms
  by (auto simp: register_added_def cs_registerInterface_def register_tcp_def registerInterfaceTCP_def call_broker_def
      Let_def split: option.splits)

text \<open>A server without TCP is found under every id with the local part 0.\<close>

lemma zero_id_found: "ss_tcpServerID s = party_assign 0 \<Longrightarrow> localID sid = 0 \<Longrightarrow> is_server_id sid s"
  by (simp add: is_server_id_def party_eq_def party_assign_def)

text \<open>Of two entries for one client the cache keeps the second.\<close>

lemma second_entry_stays: "removeFromCache a [(k, a), (l, a)] = [(l, a)]"
  by (simp add: removeFromCache_def)

text \<open>A connection that has deleted itself is still in the table, and the next \<^verbatim>\<open>attach\<close> uses it.\<close>

lemma deleted_connection_used:
  assumes "makeLocalPath 32 pid chid = Path p" "ct_local t p = None" "connect p = Some ch"
  shows "\<exists>t' c. en_attach connect pid chid t = Inr (Some ch, t') \<and>
    en_attach connect pid chid (delete_connection c t') = Inl (Destroyed c)"
  using assms
  by (auto simp: en_attach_def cached_channel_def new_connection_def delete_connection_def Let_def)

text \<open>A data request without event information has a payload of almost \<open>2 ^ 64\<close> bytes.\<close>

lemma short_request_wraps: "payload_length 0 = 2 ^ 64 - 16"
  by (simp add: payload_length_def sizeof_EventInfo_def)


end
