(* ===== verification/End_To_End.thy ===== *)
theory End_To_End
  imports Comm_Engine_Spec
begin

text \<open>
  From a proxy in one process to a server in another and back: the bytes \<^verbatim>\<open>CRequestWriter\<close> sends, read by
  the communication engine of the other process and given to the object they are for.
\<close>

section \<open>Messages as bytes\<close>

fun request_code :: "request_type \<Rightarrow> u32" where
  "request_code REQUEST = 0x100"
| "request_code REQUEST_NOTIFY = 0x101"
| "request_code REQUEST_STOP_NOTIFY = 0x102"
| "request_code REQUEST_LOAD_COMPONENT = 0x103"
| "request_code REQUEST_STOP_ALL_NOTIFY = 0x104"
| "request_code REQUEST_REGISTER_NOTIFY = 0x105"
| "request_code REQUEST_STOP_REGISTER_NOTIFY = 0x106"
| "request_code REQUEST_STOP_ALL_REGISTER_NOTIFY = 0x107"

text \<open>The event information of a request; nobody sets the version of the interface.\<close>

definition event_info :: "u32 \<Rightarrow> u32 \<Rightarrow> u32 \<Rightarrow> char list" where
  "event_info code i seqNr = le_bytes 4 0 @ le_bytes 4 (unat code) @ le_bytes 4 (unat i) @ le_bytes 4 (unat seqNr)"

definition data_writer ::
  "SPartyID \<Rightarrow> SPartyID \<Rightarrow> u16 \<Rightarrow> request_type \<Rightarrow> u32 \<Rightarrow> u32 \<Rightarrow> cbuffer \<Rightarrow> request_writer" where
  "data_writer cid sid proto rt i seqNr b =
     \<lparr> w_header = MessageHeader (globalID sid) (globalID cid) DataRequest proto 0,
       w_info = event_info (request_code rt) i seqNr, w_buf = b \<rparr>"

text \<open>A request to connect or disconnect has no event information.\<close>

definition control_writer :: "dsi_command \<Rightarrow> SPartyID \<Rightarrow> SPartyID \<Rightarrow> cbuffer \<Rightarrow> request_writer" where
  "control_writer cmd cid sid b =
     \<lparr> w_header = MessageHeader (globalID sid) (globalID cid) cmd DSI_PROTOCOL_VERSION_MINOR 0,
       w_info = event_info 0 0 0, w_buf = b \<rparr>"

definition connect_info :: "u32 \<Rightarrow> u32 \<Rightarrow> char list" where
  "connect_info pid chid = le_bytes 4 (unat pid) @ le_bytes 4 (unat chid)"

text \<open>Writing it at the put pointer of a new request.\<close>

definition connect_buffer :: "platform \<Rightarrow> u32 \<Rightarrow> u32 \<Rightarrow> (stream_error, cbuffer) outcome" where
  "connect_buffer pf pid chid =
     obind (put (connect_info pid chid) (CBuffer pf One2one)) (\<lambda>b. Some (Inr (pbump sizeof_ConnectRequestInfo b)))"

text \<open>The answer of the server goes out as the structures it consists of.\<close>

definition connect_response :: "SPartyID \<Rightarrow> SPartyID \<Rightarrow> u16 \<Rightarrow> u32 \<Rightarrow> u32 \<Rightarrow> char list" where
  "connect_response sid cid proto pid chid =
     header_bytes (MessageHeader (globalID sid) (globalID cid) ConnectResponse proto 8) @ connect_info pid chid"

lemma request_code_inverse [simp]: "request_of_code (request_code rt) = rt"
  by (cases rt) (simp_all add: request_of_code_def)

lemma event_info_length [simp]: "length (event_info code i seqNr) = sizeof_EventInfo"
  by (simp add: event_info_def sizeof_EventInfo_def)

lemma party_assign_globalID [simp]: "party_assign (globalID p) = p"
proof -
  have e: "unat (extendedID p) < 2 ^ 32" and l: "unat (localID p) < 2 ^ 32"
    using unsigned_less [of "extendedID p"] unsigned_less [of "localID p"] by simp_all
  have "unat (ucast (globalID p) :: u32) = unat (localID p)"
    unfolding unsigned_ucast_eq using l by (simp add: take_bit_eq_mod unat_globalID)
  moreover have "unat (ucast (drop_bit 32 (globalID p)) :: u32) = unat (extendedID p)"
    unfolding unsigned_ucast_eq unsigned_drop_bit_eq
    using e l by (simp add: take_bit_eq_mod drop_bit_eq_div unat_globalID)
  ultimately have "ucast (globalID p) = localID p" "ucast (drop_bit 32 (globalID p)) = extendedID p"
    by (simp_all add: unsigned_word_eqI)
  then show ?thesis by (simp add: party_assign_def)
qed

lemma memory_at_part:
  assumes "cb_wf b" "off + n \<le> mSize b"
  shows "memory_at pf b off n = take n (drop off (content b))"
proof -
  have "memory_at pf b 0 (off + n) = take (off + n) (memory_at pf b 0 (mSize b))"
    using memory_at_add [of pf b 0 "off + n" "mSize b - (off + n)"] assms(2) by simp
  then have "memory_at pf b 0 off @ memory_at pf b off n = take (off + n) (content b)"
    using memory_at_content [OF assms(1), of pf] memory_at_add [of pf b 0 off n] by simp
  then have "drop off (memory_at pf b 0 off @ memory_at pf b off n) = drop off (take (off + n) (content b))"
    by simp
  then show ?thesis by (simp add: drop_take)
qed

lemma word_at_bytes:
  assumes "cb_wf b" "content b = xs @ le_bytes 4 (unat (v :: u32)) @ ys" "length xs = off"
  shows "word_at pf b off = v"
proof -
  have "off + 4 \<le> mSize b" using content_length [OF assms(1)] assms(2,3) by simp
  then show ?thesis
    using assms by (simp add: word_at_def memory_at_part unat_u32)
qed

section \<open>From the bytes to the object\<close>

lemma received_receiveAll: "received pf (header_bytes h @ rest) = receiveAll pf h rest"
  by (simp add: received_def recvAll_append header_round_trip)

lemma handleMessageHeader_received:
  assumes "received (ge_platform E) (header_bytes h @ rest) = Some (Inr (True, b, w))"
    "h_protoMajor h = DSI_PROTOCOL_VERSION_MAJOR" "en_dispatch E ch h b e = map_sum id (Pair True) r"
  shows "handleMessageHeader E ch (header_bytes h @ rest) e = Some (map_sum id (\<lambda>e. (True, w, e)) r)"
  using assms
  by (cases r) (simp_all add: handleMessageHeader_def recvAll_append header_round_trip handleMessage_def
      received_receiveAll)

text \<open>What \<^verbatim>\<open>flush\<close> sends starts with the header of the request.\<close>

lemma flush_header:
  assumes "h_type (w_header w) \<noteq> 0" "n = mSize (w_buf w) + (if haveEventInfo (w_header w) then sizeof_EventInfo else 0)"
    "flush pf deliver w [] = Inr (True, w', wire)"
  shows "\<exists>rest. wire = header_bytes (packet_header n ((w_header w)\<lparr> h_type := 0 \<rparr>)) @ rest"
proof (cases "DSI_PAYLOAD_SIZE < n")
  case True
  then have "DSI_PAYLOAD_SIZE - sizeof_EventInfo < n" by simp
  from flush_loop_received [OF this] obtain frames where
    "\<And>c. flush_loop pf deliver (w_buf w) n (DSI_PAYLOAD_SIZE - sizeof_EventInfo)
       (packet_header n ((w_header w)\<lparr> h_type := 0 \<rparr>)) True c = (True, c @ frames)" by blast
  with True assms(3) show ?thesis
    unfolding flush_unfold [OF assms(1) refl refl assms(2)] by (auto simp: Let_def deliver_def)
next
  case False
  with assms(3) show ?thesis
    unfolding flush_unfold [OF assms(1) refl refl assms(2)] by (auto simp: Let_def deliver_def)
qed

lemma packet_header_fields [simp]:
  "h_cmd (packet_header n h) = h_cmd h" "h_serverID (packet_header n h) = h_serverID h"
  "h_clientID (packet_header n h) = h_clientID h" "h_protoMajor (packet_header n h) = h_protoMajor h"
  "h_protoMinor (packet_header n h) = h_protoMinor h"
  by (simp_all add: packet_header_def)

lemma MessageHeader_fields [simp]:
  "h_cmd (MessageHeader sid cid cmd proto len) = dsi_command_code cmd"
  "h_serverID (MessageHeader sid cid cmd proto len) = sid" "h_clientID (MessageHeader sid cid cmd proto len) = cid"
  "h_protoMajor (MessageHeader sid cid cmd proto len) = DSI_PROTOCOL_VERSION_MAJOR"
  "h_protoMinor (MessageHeader sid cid cmd proto len) = proto" "h_type (MessageHeader sid cid cmd proto len) \<noteq> 0"
  by (simp_all add: MessageHeader_def DSI_MESSAGE_MAGIC_def)

text \<open>A server that is listed and the only one with the id, in an engine in order.\<close>

definition serves :: "engine \<Rightarrow> SPartyID \<Rightarrow> nat \<Rightarrow> stub_server \<Rightarrow> bool" where
  "serves e sid a s \<longleftrightarrow>
     engine_ok e \<and> a \<in> set (en_serverList e) \<and> en_servers e a = Some s \<and> is_server_id sid s \<and>
     (\<forall>b \<in> set (en_serverList e). is_server_id sid (the (en_servers e b)) \<longrightarrow> b = a)"

definition proxied :: "engine \<Rightarrow> SPartyID \<Rightarrow> nat \<Rightarrow> stub_client \<Rightarrow> bool" where
  "proxied e cid a c \<longleftrightarrow>
     engine_ok e \<and> a \<in> set (en_clientList e) \<and> en_clients e a = Some c \<and> sc_clientID c = cid \<and>
     (\<forall>b \<in> set (en_clientList e). sc_clientID (the (en_clients e b)) = cid \<longrightarrow> b = a) \<and>
     (\<forall>(k, b) \<in> set (en_clientCache e). client_key e b = k)"

lemma serves_found:
  assumes "serves e sid a s"
  shows "\<exists>c. findServer sid e = Inr (Some a, e\<lparr> en_serverCache := c \<rparr>)"
proof -
  have "scan_party (is_server_id sid) (en_servers e) (en_serverList e) = Some a"
  proof (cases "scan_party (is_server_id sid) (en_servers e) (en_serverList e)")
    case None
    then show ?thesis using assms by (auto simp: scan_party_def find_None_iff serves_def)
  next
    case (Some b)
    from scan_party_Some [OF this] assms have "b = a" by (auto simp: serves_def)
    then show ?thesis using Some by simp
  qed
  moreover have "sdir.unambiguous sid e" using assms unfolding sdir.unambiguous_def serves_def by metis
  ultimately show ?thesis
    using sdir.find_scans [of e sid] assms by (auto simp: serves_def engine_ok_iff file_server_def)
qed

lemma proxied_found:
  assumes "proxied e cid a c"
  shows "\<exists>ca. findClient cid e = Inr (Some a, e\<lparr> en_clientCache := ca \<rparr>)"
proof -
  have "scan_party (is_client_id cid) (en_clients e) (en_clientList e) = Some a"
  proof (cases "scan_party (is_client_id cid) (en_clients e) (en_clientList e)")
    case None
    then show ?thesis using assms by (auto simp: scan_party_def find_None_iff proxied_def is_client_id_def)
  next
    case (Some b)
    from scan_party_Some [OF this] assms have "b = a" by (auto simp: proxied_def is_client_id_def)
    then show ?thesis using Some by simp
  qed
  moreover have "cdir.unambiguous cid e"
    using assms unfolding cdir.unambiguous_def proxied_def is_client_id_def globalID_eq_iff by metis
  moreover have "cdir.filed_right e" using assms by (auto simp: cdir.filed_right_def proxied_def client_key_def)
  ultimately show ?thesis
    using cdir.find_scans [of e cid] assms by (auto simp: proxied_def engine_ok_iff file_client_def)
qed

text \<open>The state after a server or a client has handled a message, the cache apart.\<close>

definition server_done :: "nat \<Rightarrow> stub_server \<Rightarrow> (u64 \<times> nat) list \<Rightarrow> engine \<Rightarrow> engine" where
  "server_done a s cache e =
     e\<lparr> en_serverCache := cache, en_servers := (en_servers e)(a \<mapsto> s), en_nextId := ss_nextId s \<rparr>"

definition client_done :: "nat \<Rightarrow> stub_client \<Rightarrow> (u64 \<times> nat) list \<Rightarrow> engine \<Rightarrow> engine" where
  "client_done a c cache e =
     e\<lparr> en_clientCache := cache, en_clients := (en_clients e)(a \<mapsto> c), en_nextId := sc_nextId c \<rparr>"

lemma on_server_serves:
  assumes "serves e sid a s"
  shows "\<exists>cache. findServer sid e = Inr (Some a, e\<lparr> en_serverCache := cache \<rparr>) \<and>
    (\<forall>f. on_server a f (e\<lparr> en_serverCache := cache \<rparr>) =
       (case f (s\<lparr> ss_nextId := en_nextId e \<rparr>) of Inl x \<Rightarrow> Inl (In_server x) | Inr s' \<Rightarrow> Inr (server_done a s' cache e)))"
  using serves_found [OF assms] assms
  by (auto simp: on_server_def serves_def server_done_def split: sum.splits)

lemma on_client_proxied:
  assumes "proxied e cid a c"
  shows "\<exists>cache. findClient cid e = Inr (Some a, e\<lparr> en_clientCache := cache \<rparr>) \<and>
    (\<forall>f. on_client a f (e\<lparr> en_clientCache := cache \<rparr>) =
       (case f (c\<lparr> sc_nextId := en_nextId e \<rparr>) of Inl x \<Rightarrow> Inl (In_client x) | Inr c' \<Rightarrow> Inr (client_done a c' cache e)))"
  using proxied_found [OF assms] assms
  by (auto simp: on_client_def proxied_def client_done_def split: sum.splits)


section \<open>A data request\<close>

text \<open>The bytes behind the data that a request of more than one packet takes along.\<close>

definition trailing :: "platform \<Rightarrow> cbuffer \<Rightarrow> char list" where
  "trailing pf b =
     (if mSize b + sizeof_EventInfo \<le> DSI_PAYLOAD_SIZE then [] else memory_at pf b (mSize b) sizeof_EventInfo)"

lemma data_request_content:
  assumes "cb_wf b" "content b = event_info (request_code rt) i seqNr @ data" "length data < 2 ^ 63"
  shows "data_request pf hdr b =
    \<lparr> dh_clientID = party_assign (h_clientID hdr), dh_protoMinor = h_protoMinor hdr, dh_type = rt, dh_requestId = i,
      dh_sequenceNr = seqNr, dh_payload = data \<rparr>"
proof -
  have size: "mSize b = sizeof_EventInfo + length data" using content_length [OF assms(1)] assms(2) by simp
  then have "payload_length (mSize b) = length data"
    using assms(3) by (simp add: payload_length_def)
  then have "memory_at pf b sizeof_EventInfo (payload_length (mSize b)) = data"
    using assms(1,2) size by (simp add: memory_at_part)
  moreover have "word_at pf b 4 = request_code rt"
    by (rule word_at_bytes [OF assms(1), where xs = "le_bytes 4 0"]) (simp_all add: assms(2) event_info_def)
  moreover have "word_at pf b 8 = i"
    by (rule word_at_bytes [OF assms(1), where xs = "le_bytes 4 0 @ le_bytes 4 (unat (request_code rt))"])
      (simp_all add: assms(2) event_info_def)
  moreover have "word_at pf b 12 = seqNr"
    by (rule word_at_bytes [OF assms(1), where xs = "le_bytes 4 0 @ le_bytes 4 (unat (request_code rt)) @ le_bytes 4 (unat i)"])
      (simp_all add: assms(2) event_info_def)
  ultimately show ?thesis by (simp add: data_request_def)
qed

lemma data_request_delivered:
  assumes "serves e sid a s" "cb_wf b" "mSize b < 2 ^ 62" "memory_ok (ge_platform E) (2 * (mSize b + sizeof_EventInfo))"
  shows "\<exists>w' wire cache. flush pf deliver (data_writer cid sid proto rt i seqNr b) [] = Inr (True, w', wire) \<and>
    handleMessageHeader E ch wire e =
      Some (case handleDataRequest (ge_server E a)
              \<lparr> dh_clientID = cid, dh_protoMinor = proto, dh_type = rt, dh_requestId = i, dh_sequenceNr = seqNr,
                dh_payload = content b @ trailing pf b \<rparr> (s\<lparr> ss_nextId := en_nextId e \<rparr>) of
              Inl x \<Rightarrow> Inl (In_server x) | Inr s' \<Rightarrow> Inr (True, [], server_done a s' cache e))"
proof -
  let ?w = "data_writer cid sid proto rt i seqNr b"
  let ?h = "packet_header (mSize b + sizeof_EventInfo) ((w_header ?w)\<lparr> h_type := 0 \<rparr>)"
  have w: "h_type (w_header ?w) \<noteq> 0" "haveEventInfo (w_header ?w)" "length (w_info ?w) = sizeof_EventInfo" "w_buf ?w = b"
    "w_info ?w = event_info (request_code rt) i seqNr"
    by (simp_all add: data_writer_def haveEventInfo_def)
  obtain w' wire rb where f: "flush pf deliver ?w [] = Inr (True, w', wire)"
    "received (ge_platform E) wire = Some (Inr (True, rb, []))" "cb_wf rb"
    "content rb = event_info (request_code rt) i seqNr @ content b @ trailing pf b"
    using data_request_received [OF w(1) _ w(3,2), of "ge_platform E" pf] assms(2,4) unfolding w(4,5) trailing_def by metis
  obtain rest where rest: "wire = header_bytes ?h @ rest"
    using flush_header [OF w(1) _ f(1)] w(2,4) by auto
  obtain cache where on: "findServer sid e = Inr (Some a, e\<lparr> en_serverCache := cache \<rparr>)"
    "\<And>f. on_server a f (e\<lparr> en_serverCache := cache \<rparr>) =
       (case f (s\<lparr> ss_nextId := en_nextId e \<rparr>) of Inl x \<Rightarrow> Inl (In_server x) | Inr s' \<Rightarrow> Inr (server_done a s' cache e))"
    using on_server_serves [OF assms(1)] by blast
  have h: "h_cmd ?h = dsi_command_code DataRequest" "h_serverID ?h = globalID sid" "h_clientID ?h = globalID cid"
    "h_protoMajor ?h = DSI_PROTOCOL_VERSION_MAJOR" "h_protoMinor ?h = proto"
    by (simp_all add: data_writer_def)
  have "length (content b @ trailing pf b) < 2 ^ 63"
    using assms(3) content_length [OF assms(2)] by (simp add: trailing_def sizeof_EventInfo_def)
  note handle = data_request_content [OF f(3,4) this, of "ge_platform E" ?h]
  have "en_dispatch E ch ?h rb e = map_sum id (Pair True) (on_server a (handleDataRequest (ge_server E a)
      (data_request (ge_platform E) ?h rb)) (e\<lparr> en_serverCache := cache \<rparr>))"
    unfolding en_dispatch_def Let_def to_server_def h(1,2) by (simp add: on(1))
  from handleMessageHeader_received [OF f(2) [unfolded rest] h(4) this]
  have "handleMessageHeader E ch wire e = Some (map_sum id (\<lambda>e. (True, [], e)) (on_server a (handleDataRequest (ge_server E a)
      (data_request (ge_platform E) ?h rb)) (e\<lparr> en_serverCache := cache \<rparr>)))"
    unfolding rest .
  then show ?thesis
    using f(1) unfolding on(2) handle h(3,5)
    by (intro exI [of _ w'] exI [of _ wire] exI [of _ cache]) (simp split: sum.splits)
qed


section \<open>Connecting\<close>

lemma connect_info_words:
  assumes "cb_wf b" "content b = connect_info pid chid"
  shows "word_at pf b 0 = pid" "word_at pf b 4 = chid"
proof -
  show "word_at pf b 0 = pid"
    by (rule word_at_bytes [OF assms(1), where xs = "[]"]) (simp_all add: assms(2) connect_info_def)
  show "word_at pf b 4 = chid"
    by (rule word_at_bytes [OF assms(1), where xs = "le_bytes 4 (unat pid)" and ys = "[]"])
      (simp_all add: assms(2) connect_info_def)
qed

lemma connect_info_length [simp]: "length (connect_info pid chid) = 8"
  by (simp add: connect_info_def)

lemma connect_buffer_ok:
  "\<exists>b. connect_buffer pf pid chid = Some (Inr b) \<and> cb_wf b \<and> content b = connect_info pid chid"
proof -
  have "mSize (CBuffer pf One2one) + length (connect_info pid chid) \<le> mCapacity (CBuffer pf One2one)"
    by (simp add: CBuffer_def payload_size)
  from put_ok [OF CBuffer_wf(1) this] show ?thesis
    by (auto simp: connect_buffer_def sizeof_ConnectRequestInfo_def CBuffer_wf(2))
qed

text \<open>The request of the client at the server.\<close>

lemma connect_request_delivered:
  assumes "serves e sid a s" "\<not> ge_isTCP E ch" "cb_wf b" "content b = connect_info pid chid" "memory_ok (ge_platform E) 8"
  shows "\<exists>w' wire cache. flush pf deliver (control_writer ConnectRequest cid sid b) [] = Inr (True, w', wire) \<and>
    handleMessageHeader E ch wire e = Some (Inr (True, [], server_done a
      (handleConnectRequest (ge_server E a) ch cid sid DSI_PROTOCOL_VERSION_MINOR pid chid
         (s\<lparr> ss_nextId := en_nextId e \<rparr>)) cache e))"
proof -
  let ?w = "control_writer ConnectRequest cid sid b"
  let ?h = "packet_header 8 ((w_header ?w)\<lparr> h_type := 0 \<rparr>)"
  have size: "mSize b = 8" using content_length [OF assms(3)] assms(4) by simp
  have w: "h_type (w_header ?w) \<noteq> 0" "cb_wf (w_buf ?w)" "length (w_info ?w) = sizeof_EventInfo"
    "\<not> haveEventInfo (w_header ?w)" "w_buf ?w = b"
    using assms(3) by (simp_all add: control_writer_def haveEventInfo_def)
  obtain w' wire rb where f: "flush pf deliver ?w [] = Inr (True, w', wire)"
    "received (ge_platform E) wire = Some (Inr (True, rb, []))" "cb_wf rb" "content rb = connect_info pid chid"
    using flush_single [OF w(1-3) refl refl refl, of "ge_platform E" pf] assms(4,5) size
    unfolding w(5) by (auto simp: w(4) payload_size)
  obtain rest where rest: "wire = header_bytes ?h @ rest"
    using flush_header [OF w(1) _ f(1), of 8] w(4,5) size by auto
  obtain cache where on: "findServer sid e = Inr (Some a, e\<lparr> en_serverCache := cache \<rparr>)"
    "\<And>f. on_server a f (e\<lparr> en_serverCache := cache \<rparr>) =
       (case f (s\<lparr> ss_nextId := en_nextId e \<rparr>) of Inl x \<Rightarrow> Inl (In_server x) | Inr s' \<Rightarrow> Inr (server_done a s' cache e))"
    using on_server_serves [OF assms(1)] by blast
  have h: "h_cmd ?h = dsi_command_code ConnectRequest" "h_serverID ?h = globalID sid" "h_clientID ?h = globalID cid"
    "h_protoMajor ?h = DSI_PROTOCOL_VERSION_MAJOR" "h_protoMinor ?h = DSI_PROTOCOL_VERSION_MINOR"
    by (simp_all add: control_writer_def)
  have "en_dispatch E ch ?h rb e = map_sum id (Pair True) (Inr (server_done a
      (handleConnectRequest (ge_server E a) ch cid sid DSI_PROTOCOL_VERSION_MINOR pid chid
         (s\<lparr> ss_nextId := en_nextId e \<rparr>)) cache e))"
    using assms(2) unfolding en_dispatch_def Let_def dispatch_connect_def connect_server_def h
    by (simp add: on connect_info_words [OF f(3,4)])
  from handleMessageHeader_received [OF f(2) [unfolded rest] h(4) this] f(1) show ?thesis
    unfolding rest by auto
qed

text \<open>The answer of the server at the client.\<close>

lemma connect_response_delivered:
  assumes "proxied e cid a c" "memory_ok (ge_platform E) 8"
  shows "\<exists>cache. handleMessageHeader E ch (connect_response sid cid proto pid chid) e =
    Some (case cc_handleConnectResponse (ge_client E a) sid proto pid chid (c\<lparr> sc_nextId := en_nextId e \<rparr>) of
            Inl x \<Rightarrow> Inl (In_client x) | Inr c' \<Rightarrow> Inr (True, [], client_done a c' cache e))"
proof -
  let ?h = "MessageHeader (globalID sid) (globalID cid) ConnectResponse proto 8"
  have hp: "packet_header 8 ?h = ?h"
    by (simp add: packet_header_def MessageHeader_def payload_size)
  have "0 < (8 :: nat)" "length (connect_info pid chid) = min 8 DSI_PAYLOAD_SIZE" by (simp_all add: payload_size)
  from receive_first [OF this, of "ge_platform E" ?h "[]"] obtain rb where
    r: "received (ge_platform E) (header_bytes ?h @ connect_info pid chid) = receive_loop (ge_platform E) ?h rb []"
      "cb_wf rb" "content rb = connect_info pid chid"
    using assms(2) by (auto simp: hp)
  have "receive_loop (ge_platform E) ?h rb [] = Some (Inr (True, rb, []))"
    by (subst receive_loop.simps) (simp add: MessageHeader_def)
  with r(1) have rec: "received (ge_platform E) (header_bytes ?h @ connect_info pid chid) = Some (Inr (True, rb, []))"
    by simp
  obtain cache where on: "findClient cid e = Inr (Some a, e\<lparr> en_clientCache := cache \<rparr>)"
    "\<And>f. on_client a f (e\<lparr> en_clientCache := cache \<rparr>) =
       (case f (c\<lparr> sc_nextId := en_nextId e \<rparr>) of Inl x \<Rightarrow> Inl (In_client x) | Inr c' \<Rightarrow> Inr (client_done a c' cache e))"
    using on_client_proxied [OF assms(1)] by blast
  have "en_dispatch E ch ?h rb e = map_sum id (Pair True) (on_client a (cc_handleConnectResponse (ge_client E a)
      sid proto pid chid) (e\<lparr> en_clientCache := cache \<rparr>))"
    by (simp add: en_dispatch_def Let_def to_client_def on(1) connect_info_words [OF r(2,3)])
  from handleMessageHeader_received [OF rec _ this] show ?thesis
    unfolding on(2) connect_response_def by (auto split: sum.splits)
qed

lemma insert_conn_set: "cc_clientID c = cid \<Longrightarrow> \<exists>d \<in> set (insert_conn c cs). cc_clientID d = cid"
  using insert_conn_connects [of c cs] by simp

lemma connect_request_effect:
  assumes "s' = handleConnectRequest E ch cid sid proto pid chid s"
  shows "connected cid s'" "ss_out s' = ss_out s @ [Connect_response ch sid cid (min_protoMinor proto) (sve_pid E) (sve_localChannel E)]"
  using assms
  by (auto simp: handleConnectRequest_def enter_connection_def cs_createId_def call_broker_def Let_def connected_def
      intro: insert_conn_set)

text \<open>A client that waits for its server, unknown to the cache, and the answers it gets on its way to the server.\<close>

definition waiting_client :: "engine \<Rightarrow> nat \<Rightarrow> stub_client \<Rightarrow> SPartyID \<Rightarrow> bool" where
  "waiting_client e a c cid \<longleftrightarrow>
     engine_ok e \<and> (\<forall>(k, b) \<in> set (en_clientCache e). client_key e b = k \<and> b \<noteq> a) \<and>
     a \<in> set (en_clientList e) \<and> en_clients e a = Some c \<and> idle c \<and> sc_engine c \<and>
     (\<forall>b \<in> set (en_clientList e). sc_id (the (en_clients e b)) = sc_id c \<longrightarrow> b = a) \<and>
     (\<forall>b \<in> set (en_clientList e). sc_clientID (the (en_clients e b)) \<noteq> cid)"

definition local_answers :: "client_env \<Rightarrow> stub_client \<Rightarrow> conn_info \<Rightarrow> nat \<Rightarrow> bool" where
  "local_answers E c ci n \<longleftrightarrow>
     ce_attachInterface E (sc_calls c) = Some ci \<and> \<not> ce_tcpForced E \<and> ki_nid ci = 0 \<and>
     ce_attach E (ki_pid ci) (ki_chid ci) = Some n \<and> ce_flush E n \<and> set_id (ki_clientID ci) \<and> set_id (ki_serverID ci)"

definition connecting :: "client_env \<Rightarrow> conn_info \<Rightarrow> nat \<Rightarrow> stub_client \<Rightarrow> stub_client" where
  "connecting E ci n c =
     c\<lparr> sc_calls := sc_calls c @ [Attach_interface], sc_clientID := ki_clientID ci,
        sc_sent := sc_sent c @ [Connect_request n (ki_clientID ci) (ki_serverID ci) (ce_pid E) (ce_localChannel E)],
        sc_connector := Some \<lparr> cn_conn = ci, cn_tcp = zero_tcp, cn_channel = Some n \<rparr> \<rparr>"

lemma attach_connecting:
  assumes "local_answers E c ci n" "idle c" "sc_engine c"
  shows "attachInterface E c = Inr (connecting E ci n c)"
  using assms
  by (simp add: local_answers_def connecting_def attachInterface_def idle_def sm_attach_def choose_transport_def attach_local_def
      initiateConnectRequest_def Let_def client_log_defs zero_tcp_def)

lemma find_unique:
  assumes "a \<in> set as" "P a" "\<forall>b \<in> set as. P b \<longrightarrow> b = a"
  shows "find P as = Some a"
proof (cases "find P as")
  case None
  then show ?thesis using assms(1,2) by (simp add: find_None_iff)
next
  case (Some b)
  then have "b \<in> set as" "P b" by (auto simp: find_Some_iff)
  then show ?thesis using Some assms(3) by simp
qed

lemma available_pulse:
  assumes "waiting_client e a c (ki_clientID ci)" "local_answers (ge_client E a) c ci n"
  shows "\<exists>e1. handlePulse E PULSE_SERVER_AVAILABLE (sc_id c) e = Inr e1 \<and>
    proxied e1 (ki_clientID ci) a (connecting (ge_client E a) ci n (c\<lparr> sc_nextId := en_nextId e \<rparr>))"
proof -
  let ?c = "c\<lparr> sc_nextId := en_nextId e \<rparr>"
  let ?c1 = "connecting (ge_client E a) ci n ?c"
  let ?e = "e\<lparr> en_clients := (en_clients e)(a \<mapsto> ?c1), en_nextId := en_nextId e \<rparr>"
  have l: "a \<in> set (en_clientList e)" "en_clients e a = Some c" "set (en_clientList e) \<subseteq> dom (en_clients e)" "engine_ok e"
    using assms(1) by (simp_all add: waiting_client_def engine_ok_def)
  have "scan_party (\<lambda>d. sc_id d = sc_id c) (en_clients e) (en_clientList e) = Some a"
    unfolding scan_party_def
  proof (rule find_unique [OF l(1)])
    show "\<exists>x. en_clients e a = Some x \<and> sc_id x = sc_id c" using l(2) by simp
    show "\<forall>b \<in> set (en_clientList e). (\<exists>x. en_clients e b = Some x \<and> sc_id x = sc_id c) \<longrightarrow> b = a"
      using assms(1) unfolding waiting_client_def by (metis option.sel)
  qed
  then have f: "findClient_id (sc_id c) e = Inr (Some a)"
    by (simp add: findClient_id_def find_object_scan [OF l(3)])
  have "attachInterface (ge_client E a) ?c = Inr ?c1"
    using assms by (intro attach_connecting) (auto simp: waiting_client_def local_answers_def idle_def)
  moreover have "sc_nextId ?c1 = en_nextId e" by (simp add: connecting_def)
  ultimately have "handlePulse E PULSE_SERVER_AVAILABLE (sc_id c) e = Inr ?e"
    using f l(2) by (simp add: handlePulse_def on_client_def)
  moreover have "proxied ?e (ki_clientID ci) a ?c1"
    unfolding proxied_def
  proof (intro conjI)
    show "engine_ok ?e" using engine_ok_client [OF l(4,2)] by simp
    have "\<forall>b \<in> set (en_clientList e). sc_clientID (the (en_clients e b)) \<noteq> ki_clientID ci"
      using assms(1) by (simp add: waiting_client_def)
    then show "\<forall>b \<in> set (en_clientList ?e). sc_clientID (the (en_clients ?e b)) = ki_clientID ci \<longrightarrow> b = a" by simp
    have "\<forall>(k, b) \<in> set (en_clientCache e). client_key e b = k \<and> b \<noteq> a"
      using assms(1) by (simp add: waiting_client_def)
    then show "\<forall>(k, b) \<in> set (en_clientCache ?e). client_key ?e b = k" by (auto simp: client_key_def)
  qed (use l in \<open>simp_all add: connecting_def\<close>)
  ultimately show ?thesis by blast
qed

lemma response_connects:
  assumes "local_answers E c ci n" "told (sc_callbacks c) = Some False" "pid \<noteq> 0" "ce_attach E pid chid = Some m" "ce_alive E m"
    "c1 = (connecting E ci n c)\<lparr> sc_nextId := k \<rparr>"
  shows "\<exists>c2. cc_handleConnectResponse E (ki_serverID ci) proto pid chid c1 = Inr c2 \<and> isConnected E c2 \<and>
    sc_clientID c2 = ki_clientID ci \<and> sc_serverID c2 = ki_serverID ci \<and> sc_protoMinor c2 = min_protoMinor proto \<and>
    sc_connector c2 = None \<and> sc_callbacks c2 = sc_callbacks c @ [Component_connected]"
  using assms
  by (simp add: connecting_def local_answers_def cc_handleConnectResponse_def sm_handleConnectResponse_def
      finalizeConnectRequest_def Let_def client_log_defs isConnected_def channel_of_def channel_expired_def)

end
