(* ===== verification/Attributes.thy ===== *)
theory Attributes
  imports Streams Stub_Server
begin

text \<open>
  Attributes with partial updates: \<^verbatim>\<open>include/dsi/private/attributes.hpp\<close> and the parts of the generated classes that
  use it (\<^verbatim>\<open>CDSIStub.hpp.jet\<close>, \<^verbatim>\<open>CDSIStub.cpp.jet\<close>, \<^verbatim>\<open>CDSIProxy.cpp.jet\<close>). A server changes a vector and sends only what
  changed; the proxy of a client applies it to its copy. The elements are values of the streams.
  An iterator outside of its vector is the error \<open>Attr_range\<close>. The lemmas show that the copy agrees with the original, and
  where it does not.
\<close>

section \<open>Partial updates on the wire\<close>

datatype attr_error = Attr_range | Attr_stream stream_error

text \<open>Conversion to \<^verbatim>\<open>int16_t\<close>, and a stored number as a signed one of \<open>n\<close> bytes.\<close>

definition int16_of :: "int \<Rightarrow> int" where
  "int16_of n = (n + 2 ^ 15) mod 2 ^ 16 - 2 ^ 15"

definition as_int16 :: "nat \<Rightarrow> int" where
  "as_int16 n = (if n < 2 ^ 15 then int n else int n - 2 ^ 16)"

definition int16_val :: "int \<Rightarrow> dsi_val" where
  "int16_val n = VInt 2 (nat (n mod 2 ^ 16))"

definition update_code :: "update_type \<Rightarrow> int" where
  "update_code t = (case t of UPDATE_NONE \<Rightarrow> - 1 | UPDATE_COMPLETE \<Rightarrow> 0 | UPDATE_INSERT \<Rightarrow> 1 | UPDATE_REPLACE \<Rightarrow> 2 | UPDATE_DELETE \<Rightarrow> 3)"

text \<open>An enumeration is written as a 32 bit number.\<close>

definition update_val :: "update_type \<Rightarrow> dsi_val" where
  "update_val t = VInt 4 (nat (update_code t mod 2 ^ 32))"

text \<open>A part of a vector given by iterators.\<close>

definition range_ok :: "int \<Rightarrow> int \<Rightarrow> 'a list \<Rightarrow> bool" where
  "range_ok pos n xs \<longleftrightarrow> 0 \<le> pos \<and> 0 \<le> n \<and> pos + n \<le> int (length xs)"

definition vec_insert :: "int \<Rightarrow> 'a list \<Rightarrow> 'a list \<Rightarrow> attr_error + 'a list" where
  "vec_insert pos ys xs =
     (if range_ok pos 0 xs then Inr (take (nat pos) xs @ ys @ drop (nat pos) xs) else Inl Attr_range)"

definition vec_copy :: "int \<Rightarrow> 'a list \<Rightarrow> 'a list \<Rightarrow> attr_error + 'a list" where
  "vec_copy pos ys xs =
     (if range_ok pos (int (length ys)) xs then Inr (take (nat pos) xs @ ys @ drop (nat pos + length ys) xs)
      else Inl Attr_range)"

definition vec_erase :: "int \<Rightarrow> int \<Rightarrow> 'a list \<Rightarrow> attr_error + 'a list" where
  "vec_erase pos cnt xs =
     (if range_ok pos cnt xs then Inr (take (nat pos) xs @ drop (nat pos + nat cnt) xs) else Inl Attr_range)"

text \<open>
  \<^verbatim>\<open>writePartialAttribute\<close>. Positions and counts are 16 bit numbers, the size in front of the elements is one of 32 bits.
\<close>

definition writePartialAttribute ::
  "platform \<Rightarrow> dsi_val list \<Rightarrow> update_type \<Rightarrow> int \<Rightarrow> int \<Rightarrow> cbuffer \<Rightarrow> (attr_error, cbuffer) outcome" where
  "writePartialAttribute pf t ty position cnt b =
     (let position = (if position < 0 then 0 else position);
          cnt = (if cnt < 0 then int16_of (int (length t) - position) else cnt);
          n = (if ty = UPDATE_DELETE then 0 else cnt);
          header = [update_val ty, int16_val position, int16_val cnt, VInt 4 (nat (n mod 2 ^ 32))]
      in if 0 < n \<and> \<not> range_ok position n t then Some (Inl Attr_range)
         else map_option (map_sum Attr_stream id)
                (write_vals pf (header @ (if 0 < n then take (nat n) (drop (nat position) t) else [])) b))"

text \<open>
  \<^verbatim>\<open>readPartialAttribute\<close>. The three numbers are local variables that are not initialised: \<open>un\<close> is what they hold. The vector
  is changed before anybody looks at the error of the stream.
\<close>

definition apply_update :: "int \<Rightarrow> int \<Rightarrow> int \<Rightarrow> 'a list \<Rightarrow> 'a list \<Rightarrow> attr_error + 'a list" where
  "apply_update code position cnt vec t =
     (if code = update_code UPDATE_COMPLETE then Inr vec
      else if code = update_code UPDATE_INSERT then vec_insert position vec t
      else if code = update_code UPDATE_REPLACE then vec_copy position vec t
      else if code = update_code UPDATE_DELETE then vec_erase position cnt t
      else Inr t)"

definition readPartialAttribute ::
  "(dsi_val \<Rightarrow> dsi_val \<Rightarrow> bool) \<Rightarrow> (nat \<Rightarrow> nat) \<Rightarrow> dsi_type \<Rightarrow> istream \<Rightarrow> dsi_val list \<Rightarrow>
     attr_error + (dsi_val list \<times> (int \<times> int \<times> int) \<times> istream)" where
  "readPartialAttribute lt un et s t =
     (let (ty, s) = read_T 4 (un 0) s;
          (position, s) = read_T 2 (un 1) s;
          (cnt, s) = read_T 2 (un 2) s
      in case read_val lt un (TVec et) (VVec []) s of
           Inl e \<Rightarrow> Inl (Attr_stream e)
         | Inr (v, s) \<Rightarrow>
             (case apply_update (as_int32 ty) (as_int16 position) (as_int16 cnt) (case v of VVec vec \<Rightarrow> vec | _ \<Rightarrow> []) t of
                Inl e \<Rightarrow> Inl e
              | Inr t \<Rightarrow> Inr (t, (as_int32 ty, as_int16 position, as_int16 cnt), s)))"

section \<open>The attribute of a server\<close>

record attribute =
  at_value :: "dsi_val list"
  at_state :: data_state

definition AttributeBase :: attribute where
  "AttributeBase = \<lparr> at_value = [], at_state = DATA_NOT_AVAILABLE \<rparr>"

definition at_isValid :: "attribute \<Rightarrow> bool" where
  "at_isValid a \<longleftrightarrow> at_state a = DATA_OK"

definition at_assign :: "dsi_val list \<Rightarrow> attribute \<Rightarrow> attribute" where
  "at_assign data a = a\<lparr> at_value := data, at_state := DATA_OK \<rparr>"

definition at_equals :: "attribute \<Rightarrow> dsi_val list \<Rightarrow> bool" where
  "at_equals a data \<longleftrightarrow> at_value a = data"

definition at_setState :: "data_state \<Rightarrow> attribute \<Rightarrow> attribute" where
  "at_setState st a = a\<lparr> at_state := st \<rparr>"

definition at_invalidate :: "attribute \<Rightarrow> attribute" where
  "at_invalidate a = a\<lparr> at_state := DATA_INVALID \<rparr>"

text \<open>\<^verbatim>\<open>ServerAttribute::set\<close>: the position and the count it leaves in its arguments, and the attribute.\<close>

definition at_set :: "dsi_val list \<Rightarrow> update_type \<Rightarrow> int \<Rightarrow> int \<Rightarrow> attribute \<Rightarrow> attr_error + (int \<times> int \<times> attribute)" where
  "at_set from ty position cnt a =
     (let position = (if position < 0 then 0 else position);
          n = int16_of (int (length from));
          done = (\<lambda>pos cnt v. Inr (pos, cnt, a\<lparr> at_value := v, at_state := DATA_OK \<rparr>))
      in case ty of
           UPDATE_COMPLETE \<Rightarrow> done 0 n from
         | UPDATE_INSERT \<Rightarrow>
             (case vec_insert position from (at_value a) of Inl e \<Rightarrow> Inl e | Inr v \<Rightarrow> done position n v)
         | UPDATE_REPLACE \<Rightarrow>
             (case vec_copy position from (at_value a) of Inl e \<Rightarrow> Inl e | Inr v \<Rightarrow> done position n v)
         | UPDATE_DELETE \<Rightarrow>
             let cnt = (if cnt < 0 then int16_of (int (length (at_value a)) - position) else cnt)
             in (case vec_erase position cnt (at_value a) of Inl e \<Rightarrow> Inl e | Inr v \<Rightarrow> done position cnt v)
         | UPDATE_NONE \<Rightarrow> done position cnt (at_value a))"

section \<open>Notifications of a server and the copy of a client\<close>

text \<open>What reaches a client that has asked for the notifications: the attribute or that it is invalid.\<close>

datatype attr_note = Note_data "char list" | Note_invalid

text \<open>The answer to the request for notifications is the whole attribute.\<close>

definition at_message ::
  "platform \<Rightarrow> increment_function \<Rightarrow> dsi_val list \<Rightarrow> update_type \<Rightarrow> int \<Rightarrow> int \<Rightarrow> (attr_error, attr_note) outcome" where
  "at_message pf f t ty position cnt =
     map_option (map_sum id (\<lambda>b. Note_data (content b))) (writePartialAttribute pf t ty position cnt (CBuffer pf f))"

definition request_notify :: "platform \<Rightarrow> increment_function \<Rightarrow> attribute \<Rightarrow> (attr_error, attr_note list) outcome" where
  "request_notify pf f a =
     (case at_state a of
        DATA_OK \<Rightarrow> map_option (map_sum id (\<lambda>n. [n])) (at_message pf f (at_value a) UPDATE_COMPLETE (- 1) (- 1))
      | DATA_INVALID \<Rightarrow> Some (Inr [Note_invalid])
      | DATA_NOT_AVAILABLE \<Rightarrow> Some (Inr []))"

text \<open>The generated \<^verbatim>\<open>set\<close> functions of the three kinds of attributes.\<close>

definition set_partial ::
  "platform \<Rightarrow> increment_function \<Rightarrow> dsi_val list \<Rightarrow> update_type \<Rightarrow> int \<Rightarrow> int \<Rightarrow> attribute \<Rightarrow>
     (attr_error, attr_note list \<times> attribute) outcome" where
  "set_partial pf f from ty position cnt a =
     (case at_set from ty position cnt a of
        Inl e \<Rightarrow> Some (Inl e)
      | Inr (position, cnt, a') \<Rightarrow>
          map_option (map_sum id (\<lambda>n. ([n], a'))) (at_message pf f (at_value a') ty position cnt))"

definition whole_message :: "platform \<Rightarrow> increment_function \<Rightarrow> dsi_val list \<Rightarrow> (attr_error, attr_note) outcome" where
  "whole_message pf f t =
     map_option (map_sum Attr_stream (\<lambda>b. Note_data (content b))) (write_val pf (VVec t) (CBuffer pf f))"

definition set_always ::
  "platform \<Rightarrow> increment_function \<Rightarrow> dsi_val list \<Rightarrow> attribute \<Rightarrow> (attr_error, attr_note list \<times> attribute) outcome" where
  "set_always pf f from a =
     (let a' = at_assign from a in map_option (map_sum id (\<lambda>n. ([n], a'))) (whole_message pf f (at_value a')))"

definition set_on_change ::
  "platform \<Rightarrow> increment_function \<Rightarrow> dsi_val list \<Rightarrow> attribute \<Rightarrow> (attr_error, attr_note list \<times> attribute) outcome" where
  "set_on_change pf f from a =
     (if \<not> at_isValid a \<or> \<not> at_equals a from then set_always pf f from a else Some (Inr ([], at_assign from a)))"

text \<open>\<^verbatim>\<open>sendError\<close> of an attribute.\<close>

definition send_invalid :: "attribute \<Rightarrow> attr_note list \<times> attribute" where
  "send_invalid a = (if at_state a \<noteq> DATA_INVALID then ([Note_invalid], at_setState DATA_INVALID a) else ([], a))"

text \<open>
  A notification in the proxy: the copy, the error of the stream that decides whether the program is told, and the update
  it is told of.
\<close>

definition process_note ::
  "(dsi_val \<Rightarrow> dsi_val \<Rightarrow> bool) \<Rightarrow> (nat \<Rightarrow> nat) \<Rightarrow> dsi_type \<Rightarrow> attr_note \<Rightarrow> attribute \<Rightarrow>
     attr_error + (attribute \<times> (int \<times> int \<times> int) option)" where
  "process_note lt un et note a =
     (case note of
        Note_data payload \<Rightarrow>
          (case readPartialAttribute lt un et (CIStream payload (length payload)) (at_value a) of
             Inl e \<Rightarrow> Inl e
           | Inr (t, upd, s) \<Rightarrow>
               Inr (a\<lparr> at_value := t, at_state := DATA_OK \<rparr>, if is_error s = 0 then Some upd else None))
      | Note_invalid \<Rightarrow> Inr (a\<lparr> at_state := DATA_INVALID \<rparr>, Some (update_code UPDATE_NONE, 0, 0)))"

text \<open>The same for an attribute that is always sent as a whole; the vector is read over the old one.\<close>

definition process_whole ::
  "(dsi_val \<Rightarrow> dsi_val \<Rightarrow> bool) \<Rightarrow> (nat \<Rightarrow> nat) \<Rightarrow> dsi_type \<Rightarrow> attr_note \<Rightarrow> attribute \<Rightarrow>
     attr_error + (attribute \<times> bool)" where
  "process_whole lt un et note a =
     (case note of
        Note_data payload \<Rightarrow>
          (case read_val lt un (TVec et) (VVec (at_value a)) (CIStream payload (length payload)) of
             Inl e \<Rightarrow> Inl (Attr_stream e)
           | Inr (v, s) \<Rightarrow>
               Inr (a\<lparr> at_value := (case v of VVec t \<Rightarrow> t | _ \<Rightarrow> []), at_state := DATA_OK \<rparr>, is_error s = 0))
      | Note_invalid \<Rightarrow> Inr (a\<lparr> at_state := DATA_INVALID \<rparr>, True))"

text \<open>The end of the connection keeps the value.\<close>

definition at_resetState :: "attribute \<Rightarrow> attribute" where
  "at_resetState a = a\<lparr> at_state := DATA_NOT_AVAILABLE \<rparr>"

section \<open>One update\<close>

lemma map_sum_Inr: "map_sum f g z = Inr y \<longleftrightarrow> (\<exists>x. z = Inr x \<and> g x = y)"
  by (cases z) auto

lemma int16_of_small [simp]: "- (2 ^ 15) \<le> n \<Longrightarrow> n < 2 ^ 15 \<Longrightarrow> int16_of n = n"
  by (simp add: int16_of_def)

lemma as_int16_stored: "- (2 ^ 15) \<le> n \<Longrightarrow> n < 2 ^ 15 \<Longrightarrow> as_int16 (nat (n mod 2 ^ 16)) = n"
proof (cases "0 \<le> n")
  case False
  assume "- (2 ^ 15) \<le> n" "n < 2 ^ 15"
  then have "(n + 65536) mod 65536 = n + 65536" using False by (intro mod_pos_pos_trivial) auto
  then have "n mod 65536 = n + 65536" by simp
  then show ?thesis using False \<open>- (2 ^ 15) \<le> n\<close> by (simp add: as_int16_def)
qed (simp add: as_int16_def)

lemma as_int32_update: "as_int32 (nat (update_code ty mod 2 ^ 32)) = update_code ty"
  by (cases ty) (simp_all add: update_code_def as_int32_def)

lemma update_code_eq [simp]: "update_code s = update_code t \<longleftrightarrow> s = t"
  by (cases s; cases t) (simp_all add: update_code_def)

lemma write_vals_cong: "write_vals pf ys = write_vals pf zs \<Longrightarrow> write_vals pf (v # ys) = write_vals pf (v # zs)"
  by (rule ext) simp

text \<open>An update of a part of the right length is written like four values one after the other.\<close>

lemma writePartialAttribute_values:
  fixes t :: "dsi_val list"
  assumes "0 \<le> pos" "0 \<le> n" "n < 2 ^ 15" "xs = (if ty = UPDATE_DELETE then [] else take (nat n) (drop (nat pos) t))"
    "ty \<noteq> UPDATE_DELETE \<Longrightarrow> range_ok pos n t"
  shows "writePartialAttribute pf t ty pos n b =
    map_option (map_sum Attr_stream id) (write_vals pf [update_val ty, int16_val pos, int16_val n, VVec xs] b)"
proof -
  have len: "length xs = (if ty = UPDATE_DELETE then 0 else nat n)"
    using assms(1,2,4,5) by (auto simp: range_ok_def)
  have m: "n mod 4294967296 = n" using assms(2,3) by simp
  have vec: "write_vals pf (VInt 4 (length xs) # xs) b1 = write_vals pf [VVec xs] b1" for b1
    by (auto simp: write_u32_def obind_def split: option.splits sum.splits)
  have "writePartialAttribute pf t ty pos n b = map_option (map_sum Attr_stream id)
      (write_vals pf (update_val ty # int16_val pos # int16_val n # VInt 4 (length xs) # xs) b)"
    using assms len m by (cases "n = 0") (auto simp: writePartialAttribute_def Let_def)
  moreover have "write_vals pf (update_val ty # int16_val pos # int16_val n # VInt 4 (length xs) # xs) =
      write_vals pf [update_val ty, int16_val pos, int16_val n, VVec xs]"
    by (intro write_vals_cong ext vec)
  ultimately show ?thesis by simp
qed

text \<open>Where the stream has no error, what the variables held before does not matter.\<close>

lemma read_T_old:
  "snd (read_T sz old s) = snd (read_T sz old' s)"
  "is_error (snd (read_T sz old s)) = 0 \<Longrightarrow> fst (read_T sz old s) = fst (read_T sz old' s)"
  by (auto simp: read_T_def Let_def ERANGE_def split: if_splits)

lemma read_args_error: "read_args lt un ts s = Inr (vs, s') \<Longrightarrow> is_error s' = 0 \<Longrightarrow> is_error s = 0"
proof (induction ts arbitrary: s vs)
  case (Cons t ts)
  then obtain v s1 vs' where "read_val lt un t (default_val t) s = Inr (v, s1)" "read_args lt un ts s1 = Inr (vs', s')"
    by (auto split: sum.splits)
  then have "moves s s1" "is_error s1 = 0" using read_moves(1) Cons.IH Cons.prems(2) by blast+
  then show ?case by (auto simp: moves_def)
qed simp

lemma readPartialAttribute_head:
  assumes "read_args lt un (TInt 4 # TInt 2 # TInt 2 # ts) s = Inr (VInt 4 ty # VInt 2 p # VInt 2 n # vs, s')" "is_error s' = 0"
  shows "\<exists>s3. read_args lt un ts s3 = Inr (vs, s') \<and> (\<forall>t. readPartialAttribute lt un et s t =
    (case read_val lt un (TVec et) (VVec []) s3 of
       Inl e \<Rightarrow> Inl (Attr_stream e)
     | Inr (v, s) \<Rightarrow>
         (case apply_update (as_int32 ty) (as_int16 p) (as_int16 n) (case v of VVec vec \<Rightarrow> vec | _ \<Rightarrow> []) t of
            Inl e \<Rightarrow> Inl e
          | Inr t \<Rightarrow> Inr (t, (as_int32 ty, as_int16 p, as_int16 n), s))))"
proof -
  obtain s1 s2 s3 where r: "read_T 4 0 s = (ty, s1)" "read_T 2 0 s1 = (p, s2)" "read_T 2 0 s2 = (n, s3)"
    "read_args lt un ts s3 = Inr (vs, s')"
    using assms(1) by (auto split: sum.splits prod.splits)
  have e: "is_error s3 = 0" using read_args_error [OF r(4) assms(2)] .
  then have e2: "is_error s2 = 0" using r(3) by (auto simp: read_T_def split: if_splits)
  then have e1: "is_error s1 = 0" using r(2) by (auto simp: read_T_def split: if_splits)
  have "read_T 4 (un 0) s = (ty, s1)" "read_T 2 (un 1) s1 = (p, s2)" "read_T 2 (un 2) s2 = (n, s3)"
    using read_T_old(1) [of 4 "un 0" s 0] read_T_old(2) [of 4 "un 0" s 0]
      read_T_old(1) [of 2 "un 1" s1 0] read_T_old(2) [of 2 "un 1" s1 0]
      read_T_old(1) [of 2 "un 2" s2 0] read_T_old(2) [of 2 "un 2" s2 0] r e e1 e2
    by (auto intro!: prod_eqI)
  then show ?thesis using r(4) by (auto simp: readPartialAttribute_def simp del: read_val.simps(5))
qed

lemma readPartialAttribute_values:
  assumes "read_args lt un [TInt 4, TInt 2, TInt 2, TVec et] s = Inr ([VInt 4 ty, VInt 2 p, VInt 2 n, VVec vec], s')"
    "is_error s' = 0"
  shows "readPartialAttribute lt un et s t =
    (case apply_update (as_int32 ty) (as_int16 p) (as_int16 n) vec t of
       Inl e \<Rightarrow> Inl e | Inr t \<Rightarrow> Inr (t, (as_int32 ty, as_int16 p, as_int16 n), s'))"
proof -
  obtain s3 where s3: "read_args lt un [TVec et] s3 = Inr ([VVec vec], s')"
    and r: "\<And>t. readPartialAttribute lt un et s t =
      (case read_val lt un (TVec et) (VVec []) s3 of
         Inl e \<Rightarrow> Inl (Attr_stream e)
       | Inr (v, s) \<Rightarrow>
           (case apply_update (as_int32 ty) (as_int16 p) (as_int16 n) (case v of VVec vec \<Rightarrow> vec | _ \<Rightarrow> []) t of
              Inl e \<Rightarrow> Inl e
            | Inr t \<Rightarrow> Inr (t, (as_int32 ty, as_int16 p, as_int16 n), s)))"
    using readPartialAttribute_head [OF assms] by blast
  have "read_val lt un (TVec et) (VVec []) s3 = Inr (VVec vec, s')"
    using s3 by (auto simp del: read_val.simps(5) split: sum.splits)
  then show ?thesis by (simp add: r del: read_val.simps(5))
qed

text \<open>A negative size in front of the elements.\<close>

lemma readPartialAttribute_negative:
  assumes "read_args lt un [TInt 4, TInt 2, TInt 2, TInt 4] s = Inr ([VInt 4 ty, VInt 2 p, VInt 2 n, VInt 4 k], s')"
    "is_error s' = 0" "as_int32 k < 0"
  shows "readPartialAttribute lt un et s t = Inl (Attr_stream Length_error)"
proof -
  obtain s3 where s3: "read_args lt un [TInt 4] s3 = Inr ([VInt 4 k], s')"
    and r: "\<And>t. readPartialAttribute lt un et s t =
      (case read_val lt un (TVec et) (VVec []) s3 of
         Inl e \<Rightarrow> Inl (Attr_stream e)
       | Inr (v, s) \<Rightarrow>
           (case apply_update (as_int32 ty) (as_int16 p) (as_int16 n) (case v of VVec vec \<Rightarrow> vec | _ \<Rightarrow> []) t of
              Inl e \<Rightarrow> Inl e
            | Inr t \<Rightarrow> Inr (t, (as_int32 ty, as_int16 p, as_int16 n), s)))"
    using readPartialAttribute_head [OF assms(1,2)] by blast
  have "read_T 4 0 s3 = (k, s')" using s3 by (auto split: prod.splits)
  then show ?thesis using assms(3) by (simp add: r)
qed

text \<open>A message that is written and read.\<close>

definition attr_bound :: "dsi_val list \<Rightarrow> nat" where
  "attr_bound xs = 24 + sum_list (map val_bound xs)"

lemma update_transferred:
  assumes "0 \<le> pos" "pos < 2 ^ 15" "0 \<le> n" "n < 2 ^ 15"
    "xs = (if ty = UPDATE_DELETE then [] else take (nat n) (drop (nat pos) t))"
    "ty \<noteq> UPDATE_DELETE \<Longrightarrow> range_ok pos n t"
    "list_all (\<lambda>v. streamable lt v et) xs" "memory_ok pf (2 * attr_bound xs)"
  shows "\<exists>bs. at_message pf f t ty pos n = Some (Inr (Note_data bs)) \<and>
    (\<forall>c. process_note lt un et (Note_data bs) c =
      (case apply_update (update_code ty) pos n xs (at_value c) of
         Inl e \<Rightarrow> Inl e | Inr v \<Rightarrow> Inr (c\<lparr> at_value := v, at_state := DATA_OK \<rparr>, Some (update_code ty, pos, n))))"
proof -
  let ?vs = "[update_val ty, int16_val pos, int16_val n, VVec xs]"
  have len: "length xs < 2 ^ 31" using assms(4,5) by auto
  have small: "nat (update_code ty mod 2 ^ 32) < 256 ^ 4" by (cases ty) (simp_all add: update_code_def)
  have "memory_ok pf (2 * sum_list (map val_bound ?vs))"
    using assms(8) by (simp add: update_val_def int16_val_def attr_bound_def algebra_simps)
  moreover have "list_all2 (streamable lt) ?vs [TInt 4, TInt 2, TInt 2, TVec et]"
    using assms(1-4,7) len small by (simp add: update_val_def int16_val_def nat_less_iff)
  ultimately obtain b where b: "write_vals pf ?vs (CBuffer pf f) = Some (Inr b)"
    "read_args lt un [TInt 4, TInt 2, TInt 2, TVec et] (CIStream (content b) (length (content b))) =
      Inr (?vs, at (content b) (mSize b))"
    using message_returns [of pf ?vs lt "[TInt 4, TInt 2, TInt 2, TVec et]" f un] by (metis append_Nil2)
  have "at_message pf f t ty pos n = Some (Inr (Note_data (content b)))"
    using writePartialAttribute_values [OF assms(1,3,4,5,6), of pf "CBuffer pf f"] b(1) by (simp add: at_message_def)
  moreover have "as_int16 (nat (pos mod 2 ^ 16)) = pos" "as_int16 (nat (n mod 2 ^ 16)) = n"
    using assms(1-4) as_int16_stored [of pos] as_int16_stored [of n] by auto
  then have "process_note lt un et (Note_data (content b)) c =
      (case apply_update (update_code ty) pos n xs (at_value c) of
         Inl e \<Rightarrow> Inl e | Inr v \<Rightarrow> Inr (c\<lparr> at_value := v, at_state := DATA_OK \<rparr>, Some (update_code ty, pos, n)))" for c
    using readPartialAttribute_values [OF b(2) [unfolded update_val_def int16_val_def], of "at_value c"] as_int32_update [of ty]
    by (simp add: process_note_def split: sum.split)
  ultimately show ?thesis by blast
qed

text \<open>
  What a service may do: an update inside the vector that leaves at most 32767 elements, all of which can be streamed. The
  update sends the elements \<open>sent\<close>.
\<close>

definition update_ok ::
  "platform \<Rightarrow> (dsi_val \<Rightarrow> dsi_val \<Rightarrow> bool) \<Rightarrow> dsi_type \<Rightarrow> dsi_val list \<Rightarrow> update_type \<Rightarrow> int \<Rightarrow> int \<Rightarrow> attribute \<Rightarrow> bool" where
  "update_ok pf lt et from ty pos cnt a \<longleftrightarrow>
     ty \<noteq> UPDATE_NONE \<and> pos < 2 ^ 15 \<and> length from < 2 ^ 15 \<and>
     list_all (\<lambda>v. streamable lt v et) from \<and> memory_ok pf (2 * attr_bound from) \<and> length (at_value a) < 2 ^ 15 \<and>
     (ty = UPDATE_INSERT \<longrightarrow> pos \<le> int (length (at_value a))) \<and>
     (ty = UPDATE_REPLACE \<longrightarrow> max 0 pos + int (length from) \<le> int (length (at_value a))) \<and>
     (ty = UPDATE_DELETE \<longrightarrow> max 0 pos + max 0 cnt \<le> int (length (at_value a)))"

text \<open>The position and the count an update leaves, and the elements it sends.\<close>

definition upd_position :: "update_type \<Rightarrow> int \<Rightarrow> int" where
  "upd_position ty pos = (if ty = UPDATE_COMPLETE then 0 else max 0 pos)"

definition upd_count :: "dsi_val list \<Rightarrow> update_type \<Rightarrow> int \<Rightarrow> int \<Rightarrow> attribute \<Rightarrow> int" where
  "upd_count from ty pos cnt a =
     (if ty = UPDATE_DELETE then (if cnt < 0 then int (length (at_value a)) - max 0 pos else cnt) else int (length from))"

definition upd_sent :: "dsi_val list \<Rightarrow> update_type \<Rightarrow> dsi_val list" where
  "upd_sent from ty = (if ty = UPDATE_DELETE then [] else from)"

lemma at_set_applied:
  assumes "update_ok pf lt et from ty pos cnt a"
  shows "\<exists>v. at_set from ty pos cnt a = Inr (upd_position ty pos, upd_count from ty pos cnt a, a\<lparr> at_value := v, at_state := DATA_OK \<rparr>) \<and>
    apply_update (update_code ty) (upd_position ty pos) (upd_count from ty pos cnt a) (upd_sent from ty) (at_value a) = Inr v \<and>
    (ty \<noteq> UPDATE_DELETE \<longrightarrow> range_ok (upd_position ty pos) (upd_count from ty pos cnt a) v \<and>
      from = take (nat (upd_count from ty pos cnt a)) (drop (nat (upd_position ty pos)) v))"
proof -
  note ok = assms [unfolded update_ok_def]
  have p: "(if pos < 0 then 0 else pos) = max 0 pos" by simp
  have n: "int16_of (int (length from)) = int (length from)" using ok by simp
  have d: "int16_of (int (length (at_value a)) - max 0 pos) = int (length (at_value a)) - max 0 pos"
    if "ty = UPDATE_DELETE" using ok that by (intro int16_of_small) auto
  note defs = upd_position_def upd_count_def upd_sent_def at_set_def apply_update_def vec_insert_def vec_copy_def vec_erase_def
    range_ok_def Let_def p n
  show ?thesis
  proof (cases ty)
    case UPDATE_DELETE
    then show ?thesis using ok d by (cases "cnt < 0") (auto simp: defs)
  qed (use ok in \<open>auto simp: defs\<close>)
qed

lemma set_partial_transferred:
  assumes "update_ok pf lt et from ty pos cnt a"
  shows "\<exists>note a' upd. set_partial pf f from ty pos cnt a = Some (Inr ([note], a')) \<and> at_state a' = DATA_OK \<and>
    (\<forall>c. at_value c = at_value a \<longrightarrow> process_note lt un et note c = Inr (c\<lparr> at_value := at_value a', at_state := DATA_OK \<rparr>, Some upd))"
proof -
  let ?p = "upd_position ty pos"
  let ?n = "upd_count from ty pos cnt a"
  let ?xs = "upd_sent from ty"
  note ok = assms [unfolded update_ok_def]
  obtain v where v: "at_set from ty pos cnt a = Inr (?p, ?n, a\<lparr> at_value := v, at_state := DATA_OK \<rparr>)"
    "apply_update (update_code ty) ?p ?n ?xs (at_value a) = Inr v"
    "ty \<noteq> UPDATE_DELETE \<Longrightarrow> range_ok ?p ?n v \<and> from = take (nat ?n) (drop (nat ?p) v)"
    using at_set_applied [OF assms] by blast
  have xs: "?xs = (if ty = UPDATE_DELETE then [] else take (nat ?n) (drop (nat ?p) v))" "ty \<noteq> UPDATE_DELETE \<Longrightarrow> range_ok ?p ?n v"
    using v(3) by (simp_all add: upd_sent_def)
  have "0 \<le> ?p" "?p < 2 ^ 15" "0 \<le> ?n" "?n < 2 ^ 15"
    using ok by (auto simp: upd_position_def upd_count_def max_def split: if_splits)
  moreover have "list_all (\<lambda>v. streamable lt v et) ?xs" "memory_ok pf (2 * attr_bound ?xs)"
    using ok by (auto simp: upd_sent_def attr_bound_def intro: memory_ok_mono)
  ultimately obtain bs where bs: "at_message pf f v ty ?p ?n = Some (Inr (Note_data bs))"
    "\<And>c. process_note lt un et (Note_data bs) c =
      (case apply_update (update_code ty) ?p ?n ?xs (at_value c) of
         Inl e \<Rightarrow> Inl e | Inr v \<Rightarrow> Inr (c\<lparr> at_value := v, at_state := DATA_OK \<rparr>, Some (update_code ty, ?p, ?n)))"
    using update_transferred [OF _ _ _ _ xs] by blast
  show ?thesis
    using v(1,2) bs by (intro exI [of _ "Note_data bs"] exI [of _ "a\<lparr> at_value := v, at_state := DATA_OK \<rparr>"]) (auto simp: set_partial_def)
qed

text \<open>The answer to the request for notifications.\<close>

lemma request_notify_transferred:
  assumes "at_state a = DATA_OK" "length (at_value a) < 2 ^ 15" "list_all (\<lambda>v. streamable lt v et) (at_value a)"
    "memory_ok pf (2 * attr_bound (at_value a))"
  shows "\<exists>note upd. request_notify pf f a = Some (Inr [note]) \<and>
    (\<forall>c. process_note lt un et note c = Inr (c\<lparr> at_value := at_value a, at_state := DATA_OK \<rparr>, Some upd))"
proof -
  let ?n = "int (length (at_value a))"
  have "at_message pf f (at_value a) UPDATE_COMPLETE (- 1) (- 1) = at_message pf f (at_value a) UPDATE_COMPLETE 0 ?n"
    using assms(2) by (simp add: at_message_def writePartialAttribute_def)
  then show ?thesis
    using update_transferred [of 0 ?n "at_value a" UPDATE_COMPLETE "at_value a" lt et pf f un] assms
    by (auto simp: request_notify_def range_ok_def apply_update_def)
qed

section \<open>Copies that follow their original\<close>

text \<open>The notifications on the way, one after the other.\<close>

fun receives :: "('n \<Rightarrow> 'c \<Rightarrow> 'e + 'c) \<Rightarrow> 'n list \<Rightarrow> 'c \<Rightarrow> 'e + 'c" where
  "receives recv [] c = Inr c"
| "receives recv (n # ns) c = (case recv n c of Inl e \<Rightarrow> Inl e | Inr c \<Rightarrow> receives recv ns c)"

lemma receives_append:
  "receives recv (ns @ ms) c = (case receives recv ns c of Inl e \<Rightarrow> Inl e | Inr c \<Rightarrow> receives recv ms c)"
  by (induction ns arbitrary: c) (auto split: sum.split)

text \<open>Any number of changes, with all they send.\<close>

inductive history :: "('c \<Rightarrow> 'n list \<Rightarrow> 'c \<Rightarrow> bool) \<Rightarrow> 'c \<Rightarrow> 'n list \<Rightarrow> 'c \<Rightarrow> bool" for changes where
  Begin: "history changes a [] a"
| Change: "history changes a ns b \<Longrightarrow> changes b ms c \<Longrightarrow> history changes a (ns @ ms) c"

text \<open>
  The contract between the two sides of an attribute: what the original sends with a change makes an equal copy equal to the
  changed original. Then a copy catches up with whatever is on the way.
\<close>

locale replicated =
  fixes recv :: "'n \<Rightarrow> 'c \<Rightarrow> 'e + 'c"
    and changes :: "'c \<Rightarrow> 'n list \<Rightarrow> 'c \<Rightarrow> bool"
  assumes change_transferred: "changes a ns a' \<Longrightarrow> receives recv ns a = Inr a'"
begin

lemma follows_change: "receives recv q c = Inr a \<Longrightarrow> changes a ns a' \<Longrightarrow> receives recv (q @ ns) c = Inr a'"
  by (simp add: receives_append change_transferred)

lemma follows_delivery: "receives recv (n # q) c = Inr a \<Longrightarrow> \<exists>c'. recv n c = Inr c' \<and> receives recv q c' = Inr a"
  by (auto split: sum.splits)

lemma history_followed: "history changes a ns b \<Longrightarrow> receives recv ns a = Inr b"
  by (induction rule: history.induct) (auto intro: follows_change)

end

text \<open>Attributes with partial updates.\<close>

definition recv_note ::
  "(dsi_val \<Rightarrow> dsi_val \<Rightarrow> bool) \<Rightarrow> (nat \<Rightarrow> nat) \<Rightarrow> dsi_type \<Rightarrow> attr_note \<Rightarrow> attribute \<Rightarrow> attr_error + attribute" where
  "recv_note lt un et n c = map_sum id fst (process_note lt un et n c)"

definition partial_change ::
  "platform \<Rightarrow> increment_function \<Rightarrow> (dsi_val \<Rightarrow> dsi_val \<Rightarrow> bool) \<Rightarrow> dsi_type \<Rightarrow> attribute \<Rightarrow> attr_note list \<Rightarrow> attribute \<Rightarrow> bool" where
  "partial_change pf f lt et a ns a' \<longleftrightarrow>
     (\<exists>from ty pos cnt. update_ok pf lt et from ty pos cnt a \<and> set_partial pf f from ty pos cnt a = Some (Inr (ns, a'))) \<or>
     send_invalid a = (ns, a')"

lemma attribute_eqI: "at_value a = at_value b \<Longrightarrow> at_state a = at_state b \<Longrightarrow> a = (b :: attribute)"
  by (rule attribute.equality) simp_all

interpretation partial: replicated "recv_note lt un et" "partial_change pf f lt et" for pf f lt un et
proof
  fix a ns a'
  assume "partial_change pf f lt et a ns a'"
  then show "receives (recv_note lt un et) ns a = Inr a'"
    unfolding partial_change_def
  proof (elim disjE exE conjE)
    fix xs ty pos cnt
    assume ok: "update_ok pf lt et xs ty pos cnt a" and set: "set_partial pf f xs ty pos cnt a = Some (Inr (ns, a'))"
    obtain m upd where m: "ns = [m]" "at_state a' = DATA_OK"
      "process_note lt un et m a = Inr (a\<lparr> at_value := at_value a', at_state := DATA_OK \<rparr>, Some upd)"
      using set_partial_transferred [OF ok, of f un] set by auto
    moreover have "a\<lparr> at_value := at_value a', at_state := DATA_OK \<rparr> = a'" by (rule attribute_eqI) (simp_all add: m(2))
    ultimately show ?thesis by (simp add: recv_note_def)
  qed (auto simp: send_invalid_def at_setState_def recv_note_def process_note_def split: if_splits)
qed

text \<open>
  Attributes that are sent as a whole, at every assignment or when they change. The elements are read over the old ones, so
  they must not be maps.
\<close>

definition recv_whole ::
  "(dsi_val \<Rightarrow> dsi_val \<Rightarrow> bool) \<Rightarrow> (nat \<Rightarrow> nat) \<Rightarrow> dsi_type \<Rightarrow> attr_note \<Rightarrow> attribute \<Rightarrow> attr_error + attribute" where
  "recv_whole lt un et n c = map_sum id fst (process_whole lt un et n c)"

definition whole_change ::
  "platform \<Rightarrow> increment_function \<Rightarrow> (dsi_val \<Rightarrow> dsi_val \<Rightarrow> bool) \<Rightarrow> dsi_type \<Rightarrow> attribute \<Rightarrow> attr_note list \<Rightarrow> attribute \<Rightarrow> bool" where
  "whole_change pf f lt et a ns a' \<longleftrightarrow>
     (\<exists>from. map_free et \<and> streamable lt (VVec from) (TVec et) \<and> memory_ok pf (2 * val_bound (VVec from)) \<and>
        (set_always pf f from a = Some (Inr (ns, a')) \<or> set_on_change pf f from a = Some (Inr (ns, a')))) \<or>
     send_invalid a = (ns, a')"

lemma set_always_transferred:
  assumes "map_free et" "streamable lt (VVec xs) (TVec et)" "memory_ok pf (2 * val_bound (VVec xs))"
  shows "\<exists>m. set_always pf f xs a = Some (Inr ([m], at_assign xs a)) \<and> recv_whole lt un et m a = Inr (at_assign xs a)"
proof -
  have "memory_ok pf (2 * (mSize (CBuffer pf f) + val_bound (VVec xs)))" using assms(3) by (simp add: CBuffer_def)
  from write_read(1) [OF CBuffer_wf(1) this assms(2), of un] obtain b where b: "write_val pf (VVec xs) (CBuffer pf f) = Some (Inr b)"
    "\<And>old. takes (read_val lt un (TVec et) (VVec old)) (VVec xs) (CBuffer pf f) b"
    using assms(1) by (auto simp: old_ok_def simp del: read_val.simps write_val.simps)
  have "read_val lt un (TVec et) (VVec (at_value a)) (CIStream (content b) (length (content b))) =
      Inr (VVec xs, at (content b) (mSize b))"
    using b(2) [of "at_value a", unfolded takes_def, THEN spec, of "[]"] by (simp add: at_def CIStream_def CBuffer_def del: read_val.simps)
  then show ?thesis
    using b(1) by (intro exI [of _ "Note_data (content b)"])
      (simp add: set_always_def whole_message_def recv_whole_def process_whole_def at_assign_def del: read_val.simps write_val.simps)
qed

interpretation whole: replicated "recv_whole lt un et" "whole_change pf f lt et" for pf f lt un et
proof
  fix a ns a'
  assume "whole_change pf f lt et a ns a'"
  then show "receives (recv_whole lt un et) ns a = Inr a'"
    unfolding whole_change_def
  proof (elim disjE exE conjE)
    fix xs
    assume x: "map_free et" "streamable lt (VVec xs) (TVec et)" "memory_ok pf (2 * val_bound (VVec xs))"
    have always: "set_always pf f xs a = Some (Inr (ns, a')) \<Longrightarrow> ?thesis"
      using set_always_transferred [OF x, of f a un] by auto
    show "set_always pf f xs a = Some (Inr (ns, a')) \<Longrightarrow> ?thesis" by (rule always)
    have "at_isValid a \<Longrightarrow> at_equals a xs \<Longrightarrow> at_assign xs a = a"
      by (rule attribute_eqI) (simp_all add: at_isValid_def at_equals_def at_assign_def)
    then show "set_on_change pf f xs a = Some (Inr (ns, a')) \<Longrightarrow> ?thesis"
      using always by (auto simp: set_on_change_def split: if_splits)
  qed (auto simp: send_invalid_def at_setState_def recv_whole_def process_whole_def split: if_splits)
qed

lemma whole_copy_follows: "history (whole_change pf f lt et) a ns b \<Longrightarrow> receives (recv_whole lt un et) ns a = Inr b"
  by (rule whole.history_followed)

section \<open>A server and its client\<close>

text \<open>
  The server, a client that gets its notifications, and the notifications on the way between them in the order they
  were sent. The service updates and invalidates the attribute while earlier notifications are still on their way.
\<close>

record replica =
  rp_server :: attribute
  rp_client :: attribute
  rp_queue :: "attr_note list"

inductive replica_step ::
  "platform \<Rightarrow> increment_function \<Rightarrow> (dsi_val \<Rightarrow> dsi_val \<Rightarrow> bool) \<Rightarrow> (nat \<Rightarrow> nat) \<Rightarrow> dsi_type \<Rightarrow> replica \<Rightarrow> replica \<Rightarrow> bool"
  for pf f lt un et where
  Update: "update_ok pf lt et from ty pos cnt (rp_server r) \<Longrightarrow>
    set_partial pf f from ty pos cnt (rp_server r) = Some (Inr (ns, a)) \<Longrightarrow>
    replica_step pf f lt un et r (r\<lparr> rp_server := a, rp_queue := rp_queue r @ ns \<rparr>)"
| Invalidate: "send_invalid (rp_server r) = (ns, a) \<Longrightarrow>
    replica_step pf f lt un et r (r\<lparr> rp_server := a, rp_queue := rp_queue r @ ns \<rparr>)"
| Deliver: "rp_queue r = n # ns \<Longrightarrow> process_note lt un et n (rp_client r) = Inr (c, upd) \<Longrightarrow>
    replica_step pf f lt un et r (r\<lparr> rp_client := c, rp_queue := ns \<rparr>)"

text \<open>What is on the way makes the copy equal to the original.\<close>

definition catches_up :: "(dsi_val \<Rightarrow> dsi_val \<Rightarrow> bool) \<Rightarrow> (nat \<Rightarrow> nat) \<Rightarrow> dsi_type \<Rightarrow> replica \<Rightarrow> bool" where
  "catches_up lt un et r \<longleftrightarrow> receives (recv_note lt un et) (rp_queue r) (rp_client r) = Inr (rp_server r)"

lemma replica_step_catches_up:
  assumes "catches_up lt un et r" "replica_step pf f lt un et r r'"
  shows "catches_up lt un et r'"
  using assms(2)
proof (cases rule: replica_step.cases)
  case (Update xs ty pos cnt ns a)
  then have "partial_change pf f lt et (rp_server r) ns a" by (auto simp: partial_change_def)
  then show ?thesis using assms(1) Update(1) partial.follows_change by (auto simp: catches_up_def)
next
  case (Invalidate ns a)
  then have "partial_change pf f lt et (rp_server r) ns a" by (simp add: partial_change_def)
  then show ?thesis using assms(1) Invalidate(1) partial.follows_change by (auto simp: catches_up_def)
next
  case (Deliver n ns c upd)
  then show ?thesis using assms(1) by (simp add: catches_up_def recv_note_def)
qed

text \<open>
  The ways to begin: a new attribute at both sides, or a client, with whatever copy it has, that asks for the
  notifications of a valid attribute.
\<close>

definition replica_start ::
  "platform \<Rightarrow> increment_function \<Rightarrow> (dsi_val \<Rightarrow> dsi_val \<Rightarrow> bool) \<Rightarrow> dsi_type \<Rightarrow> replica \<Rightarrow> bool" where
  "replica_start pf f lt et r \<longleftrightarrow>
     r = \<lparr> rp_server = AttributeBase, rp_client = AttributeBase, rp_queue = [] \<rparr> \<or>
     at_state (rp_server r) = DATA_OK \<and> request_notify pf f (rp_server r) = Some (Inr (rp_queue r)) \<and>
     length (at_value (rp_server r)) < 2 ^ 15 \<and> list_all (\<lambda>v. streamable lt v et) (at_value (rp_server r)) \<and>
     memory_ok pf (2 * attr_bound (at_value (rp_server r)))"

lemma replica_start_catches_up:
  assumes "replica_start pf f lt et r"
  shows "catches_up lt un et r"
  using assms
proof (elim replica_start_def [THEN iffD1, elim_format] disjE conjE)
  assume "r = \<lparr> rp_server = AttributeBase, rp_client = AttributeBase, rp_queue = [] \<rparr>"
  then show ?thesis by (simp add: catches_up_def)
next
  assume *: "at_state (rp_server r) = DATA_OK" "request_notify pf f (rp_server r) = Some (Inr (rp_queue r))"
    "length (at_value (rp_server r)) < 2 ^ 15" "list_all (\<lambda>v. streamable lt v et) (at_value (rp_server r))"
    "memory_ok pf (2 * attr_bound (at_value (rp_server r)))"
  obtain m where n: "rp_queue r = [m]"
    "\<exists>upd. process_note lt un et m (rp_client r) =
       Inr ((rp_client r)\<lparr> at_value := at_value (rp_server r), at_state := DATA_OK \<rparr>, Some upd)"
    using request_notify_transferred [OF *(1,3-5), of f un] *(2) by auto
  moreover have "(rp_client r)\<lparr> at_value := at_value (rp_server r), at_state := DATA_OK \<rparr> = rp_server r"
    by (rule attribute_eqI) (simp_all add: *(1))
  ultimately show ?thesis by (auto simp: catches_up_def recv_note_def)
qed

inductive replica_run ::
  "platform \<Rightarrow> increment_function \<Rightarrow> (dsi_val \<Rightarrow> dsi_val \<Rightarrow> bool) \<Rightarrow> (nat \<Rightarrow> nat) \<Rightarrow> dsi_type \<Rightarrow> replica \<Rightarrow> bool"
  for pf f lt un et where
  Start: "replica_start pf f lt et r \<Longrightarrow> replica_run pf f lt un et r"
| Step: "replica_run pf f lt un et r \<Longrightarrow> replica_step pf f lt un et r r' \<Longrightarrow> replica_run pf f lt un et r'"

lemma replica_run_catches_up: "replica_run pf f lt un et r \<Longrightarrow> catches_up lt un et r"
  by (induction rule: replica_run.induct) (blast intro: replica_start_catches_up replica_step_catches_up)+

section \<open>Where the copy goes wrong\<close>

text \<open>A count has 16 bits: an attribute of 65536 elements arrives empty.\<close>

lemma long_attribute_empty:
  assumes "length xs = 2 ^ 16" "memory_ok pf 48"
  shows "\<exists>n a'. set_partial pf f xs UPDATE_COMPLETE pos cnt a = Some (Inr ([n], a')) \<and> at_value a' = xs \<and>
    process_note lt un et n c = Inr (c\<lparr> at_value := [], at_state := DATA_OK \<rparr>, Some (0, 0, 0))"
proof -
  have "int16_of (int (length xs)) = 0" by (simp add: assms(1) int16_of_def)
  moreover have "\<exists>bs. at_message pf f xs UPDATE_COMPLETE 0 0 = Some (Inr (Note_data bs)) \<and>
    (\<forall>c. process_note lt un et (Note_data bs) c =
      (case apply_update (update_code UPDATE_COMPLETE) 0 0 [] (at_value c) of
         Inl e \<Rightarrow> Inl e | Inr v \<Rightarrow> Inr (c\<lparr> at_value := v, at_state := DATA_OK \<rparr>, Some (update_code UPDATE_COMPLETE, 0, 0))))"
    by (rule update_transferred) (use assms(2) in \<open>simp_all add: range_ok_def attr_bound_def\<close>)
  ultimately show ?thesis
    by (auto simp: set_partial_def at_set_def apply_update_def update_code_def)
qed

text \<open>
  One of more than 32767 elements has a negative count. The writer takes that for \<open>all the rest\<close>, which is the same
  negative number again, and puts it in front of the elements; the proxy gets an exception out of \<^verbatim>\<open>resize\<close>.
\<close>

lemma long_attribute_throws:
  assumes "2 ^ 15 \<le> length xs" "length xs < 2 ^ 16" "memory_ok pf 48"
  shows "\<exists>n a'. set_partial pf f xs UPDATE_COMPLETE pos cnt a = Some (Inr ([n], a')) \<and>
    process_note lt un et n c = Inl (Attr_stream Length_error)"
proof -
  let ?k = "int (length xs) - 2 ^ 16"
  let ?vs = "[update_val UPDATE_COMPLETE, int16_val 0, int16_val ?k, VInt 4 (nat (?k mod 2 ^ 32))]"
  have "(int (length xs) - 32768 + 65536) mod 65536 = int (length xs) - 32768"
    using assms(1,2) unfolding mod_add_self2 by (intro mod_pos_pos_trivial) auto
  then have k: "int16_of (int (length xs)) = ?k" by (simp add: int16_of_def algebra_simps)
  have neg: "?k < 0" "- (2 ^ 15) \<le> ?k" using assms(1,2) by auto
  have "(?k + 2 ^ 32) mod 2 ^ 32 = ?k + 2 ^ 32" using neg by (intro mod_pos_pos_trivial) auto
  then have "?k mod 2 ^ 32 = ?k + 2 ^ 32" unfolding mod_add_self2 .
  then have big: "as_int32 (nat (?k mod 2 ^ 32)) < 0" using neg by (simp add: as_int32_def)
  have "list_all2 (streamable lt) ?vs [TInt 4, TInt 2, TInt 2, TInt 4]"
    by (simp add: update_val_def update_code_def int16_val_def nat_less_iff)
  moreover have "memory_ok pf (2 * sum_list (map val_bound ?vs))"
    using assms(3) by (simp add: update_val_def int16_val_def)
  ultimately obtain b where b: "write_vals pf ?vs (CBuffer pf f) = Some (Inr b)"
    "read_args lt un [TInt 4, TInt 2, TInt 2, TInt 4] (CIStream (content b) (length (content b))) =
      Inr (?vs, at (content b) (mSize b))"
    using message_returns [of pf ?vs lt "[TInt 4, TInt 2, TInt 2, TInt 4]" f un] by (metis append_Nil2)
  have "at_message pf f xs UPDATE_COMPLETE 0 ?k = Some (Inr (Note_data (content b)))"
    using b(1) k neg by (simp add: at_message_def writePartialAttribute_def Let_def del: write_vals.simps)
  moreover have "process_note lt un et (Note_data (content b)) c = Inl (Attr_stream Length_error)"
    using readPartialAttribute_negative [OF b(2) [unfolded update_val_def int16_val_def] _ big]
    by (simp add: process_note_def)
  ultimately show ?thesis using k by (simp add: set_partial_def at_set_def)
qed

text \<open>
  A client that asks for the notifications of an invalid attribute is told so and keeps its copy, the server keeps its
  value. The next partial update does not fit the copy: here it is put behind the end of an empty vector.
\<close>

lemma invalid_then_partial:
  assumes "at_state a = DATA_INVALID" "0 < length (at_value a)" "length (at_value a) < 2 ^ 15"
    "list_all (\<lambda>v. streamable lt v et) xs" "memory_ok pf (2 * attr_bound xs)" "length xs < 2 ^ 15"
  shows "\<exists>n a'. request_notify pf f a = Some (Inr [Note_invalid]) \<and>
    set_partial pf f xs UPDATE_INSERT (int (length (at_value a))) (- 1) a = Some (Inr ([n], a')) \<and>
    receives (recv_note lt un et) [Note_invalid, n] AttributeBase = Inl Attr_range"
proof -
  let ?p = "int (length (at_value a))"
  have "\<exists>bs. at_message pf f (at_value a @ xs) UPDATE_INSERT ?p (int (length xs)) = Some (Inr (Note_data bs)) \<and>
    (\<forall>c. process_note lt un et (Note_data bs) c =
      (case apply_update (update_code UPDATE_INSERT) ?p (int (length xs)) xs (at_value c) of
         Inl e \<Rightarrow> Inl e
       | Inr v \<Rightarrow> Inr (c\<lparr> at_value := v, at_state := DATA_OK \<rparr>, Some (update_code UPDATE_INSERT, ?p, int (length xs)))))"
    by (rule update_transferred) (use assms in \<open>simp_all add: range_ok_def\<close>)
  moreover have "at_set xs UPDATE_INSERT ?p (- 1) a =
      Inr (?p, int (length xs), a\<lparr> at_value := at_value a @ xs, at_state := DATA_OK \<rparr>)"
    using assms(6) by (simp add: at_set_def vec_insert_def range_ok_def Let_def)
  moreover have "process_note lt un et Note_invalid AttributeBase =
      Inr (AttributeBase\<lparr> at_state := DATA_INVALID \<rparr>, Some (update_code UPDATE_NONE, 0, 0))"
    by (simp add: process_note_def)
  ultimately show ?thesis
    using assms(1,2) by (auto simp: request_notify_def set_partial_def apply_update_def vec_insert_def range_ok_def AttributeBase_def recv_note_def)
qed

text \<open>The copy outlives its connection: at a restarted server the first partial update goes into the old elements.\<close>

lemma stale_copy_stays:
  assumes "update_ok pf lt et [x] UPDATE_INSERT 0 (- 1) AttributeBase"
  shows "\<exists>n a'. request_notify pf f AttributeBase = Some (Inr []) \<and>
    set_partial pf f [x] UPDATE_INSERT 0 (- 1) AttributeBase = Some (Inr ([n], a')) \<and> at_value a' = [x] \<and>
    receives (recv_note lt un et) [n] (at_resetState \<lparr> at_value = [y], at_state = DATA_OK \<rparr>) =
      Inr \<lparr> at_value = [x, y], at_state = DATA_OK \<rparr>"
proof -
  have *: "\<exists>bs. at_message pf f [x] UPDATE_INSERT 0 1 = Some (Inr (Note_data bs)) \<and>
    (\<forall>c. process_note lt un et (Note_data bs) c =
      (case apply_update (update_code UPDATE_INSERT) 0 1 [x] (at_value c) of
         Inl e \<Rightarrow> Inl e | Inr v \<Rightarrow> Inr (c\<lparr> at_value := v, at_state := DATA_OK \<rparr>, Some (update_code UPDATE_INSERT, 0, 1))))"
    by (rule update_transferred) (use assms in \<open>simp_all add: range_ok_def update_ok_def\<close>)
  have "at_set [x] UPDATE_INSERT 0 (- 1) AttributeBase = Inr (0, 1, \<lparr> at_value = [x], at_state = DATA_OK \<rparr>)"
    by (simp add: at_set_def vec_insert_def range_ok_def AttributeBase_def)
  with * show ?thesis
    by (auto simp: request_notify_def set_partial_def apply_update_def vec_insert_def range_ok_def AttributeBase_def at_resetState_def recv_note_def)
qed

text \<open>
  A message that is too short: the error of the stream is looked at after the update has been applied with what the
  variables happened to hold.
\<close>

lemma short_message_applied:
  "process_note lt (\<lambda>i. [3, 0, 1] ! i) et (Note_data []) \<lparr> at_value = [x, y], at_state = DATA_OK \<rparr> =
     Inr (\<lparr> at_value = [y], at_state = DATA_OK \<rparr>, None)"
  by (simp add: process_note_def readPartialAttribute_def CIStream_def read_T_def padding_def ERANGE_def apply_update_def
      update_code_def as_int32_def as_int16_def vec_erase_def range_ok_def)

end
