(* ===== verification/Library_Spec.thy ===== *)
theory Library_Spec
  imports End_To_End Attributes
begin

text \<open>
  The properties of the base library: servers and clients over all their runs, the communication engine, and the
  way from one process to another. The example process at the start serves the witnesses.
\<close>

section \<open>An example\<close>

definition ex_rid :: u32 where "ex_rid = 0x80000001"

definition ex_senv :: stub_env where
  "ex_senv =
     \<lparr> sve_alive = (\<lambda>_. True), sve_getResponse = (\<lambda>i. if i = 1 then ex_rid else INVALID_ID),
       sve_method = (\<lambda>i. if i = 1 then Some Plain_method else None), sve_arguments_ok = (\<lambda>_ _. True),
       sve_implementation = (\<lambda>i p s. if p = ''later'' then [Unblock] else [Respond ex_rid p]),
       sve_writeAttribute = (\<lambda>_ _ _ _. []), sve_attach = (\<lambda>_ _. Some 7), sve_attachTCP = (\<lambda>_ _. Some 8),
       sve_register = (\<lambda>_. Some \<lparr> localID = 5, extendedID = 0 \<rparr>), sve_detachNotification = (\<lambda>_ _. 3), sve_pid = 77,
       sve_localChannel = 4, sve_ipPort = 9000, sve_localName = (\<lambda>_. Some 1), sve_junk = 0, sve_moves = (\<lambda>_. True) \<rparr>"

definition ex_cid :: SPartyID where "ex_cid = \<lparr> localID = 9, extendedID = 0 \<rparr>"
definition ex_sid :: SPartyID where "ex_sid = \<lparr> localID = 5, extendedID = 0 \<rparr>"

definition ex_server :: stub_server where
  "ex_server = handleConnectRequest ex_senv 6 ex_cid ex_sid 0 88 3 (new_stub_server 100 False (\<lambda>_. DATA_NOT_AVAILABLE))"

definition ex_request :: "char list \<Rightarrow> data_handle" where
  "ex_request p = \<lparr> dh_clientID = ex_cid, dh_protoMinor = 0, dh_type = REQUEST, dh_requestId = 1, dh_sequenceNr = 42,
     dh_payload = p \<rparr>"

lemmas ex_server_simps = ex_server_def ex_senv_def ex_cid_def ex_sid_def handleConnectRequest_def enter_connection_def
  cs_createId_def call_broker_def emit_def new_stub_server_def min_protoMinor_def DSI_PROTOCOL_VERSION_MINOR_def

lemma ex_server_fields:
  "ss_conns ex_server = [\<lparr> cc_id = 100, cc_clientID = ex_cid, cc_serverID = ex_sid, cc_notificationID = 3,
     cc_channel = Some 7, cc_protoMinor = 0 \<rparr>]" "ss_notifs ex_server = []" "ss_unblocked ex_server = Map.empty"
  "ss_nextId ex_server = 101" "ss_responseId ex_server = INVALID_ID" "ss_responseState ex_server = (\<lambda>_. False)"
  by (simp_all add: ex_server_simps Let_def)

lemma ex_senv_fields [simp]:
  "sve_alive ex_senv n" "sve_getResponse ex_senv 1 = ex_rid" "sve_method ex_senv 1 = Some Plain_method"
  "sve_arguments_ok ex_senv i p" "sve_implementation ex_senv i p s = (if p = ''later'' then [Unblock] else [Respond ex_rid p])"
  "sve_attach ex_senv u v = Some 7" "sve_pid ex_senv = 77" "sve_localChannel ex_senv = 4"
  by (simp_all add: ex_senv_def)

lemma ex_ids [simp]: "ex_rid \<noteq> INVALID_ID" "(42 :: u32) \<noteq> INVALID_SEQUENCE_NR"
  by (simp_all add: ex_rid_def INVALID_ID_def INVALID_SEQUENCE_NR_def)

lemma ex_request_fields [simp]:
  "dh_clientID (ex_request p) = ex_cid" "dh_protoMinor (ex_request p) = 0" "dh_type (ex_request p) = REQUEST"
  "dh_requestId (ex_request p) = 1" "dh_sequenceNr (ex_request p) = 42" "dh_payload (ex_request p) = p"
  by (simp_all add: ex_request_def)

lemma ex_server_reachable: "stub_reachable ex_senv (new_stub_server 100 False (\<lambda>_. DATA_NOT_AVAILABLE)) ex_server"
  unfolding ex_server_def
  by (rule stub_reachable.step [OF stub_reachable.start stub_step.Connect]) (simp add: expired_def ex_senv_def)

lemma ex_server_conn:
  "connected ex_cid ex_server" "find_conn ex_cid (ss_conns ex_server) = Some (hd (ss_conns ex_server))"
  by (simp_all add: connected_def find_conn_def ex_server_fields)

section \<open>Servers\<close>



text \<open>
  C29. A standard request with a response, from a connected client. While the response to an earlier request is
  outstanding, the client gets exactly one message, that the request is busy, and the server does not change. Otherwise
  the implementation is called, and when it responds, the client gets exactly one message: the response, with the
  sequence number of its request and over its own connection; nothing of the request is left in the server, and the next
  one will be served.
\<close>

theorem request_gets_one_answer:
  assumes "stub_reachable E (new_stub_server next tcp attrs) s"
    "find_conn (dh_clientID h) (ss_conns s) = Some c" "cc_channel c = Some ch" "cc_protoMinor c = dh_protoMinor h"
    "dh_type h = REQUEST" "sve_getResponse E (dh_requestId h) = rid" "rid \<noteq> INVALID_ID"
  shows "(ss_responseState s rid \<longrightarrow>
      handleDataRequest E h s = Inr (s\<lparr> ss_out := ss_out s @ [Data_response ch (dh_clientID h) (cc_serverID c)
        (cc_protoMinor c) RESULT_REQUEST_BUSY (dh_requestId h) (dh_sequenceNr h) (le_bytes 4 0)] \<rparr>)) \<and>
    (\<not> ss_responseState s rid \<and> dh_sequenceNr h \<noteq> INVALID_SEQUENCE_NR \<and>
     sve_method E (dh_requestId h) = Some Plain_method \<and> sve_arguments_ok E (dh_requestId h) (dh_payload h) \<and>
     (\<forall>n \<in> set (ss_notifs s). nf_notifyID n \<noteq> rid) \<and>
     sve_implementation E (dh_requestId h) (dh_payload h) (in_request h rid s) = [Respond rid payload] \<longrightarrow>
       (\<exists>s'. handleDataRequest E h s = Inr s' \<and>
          ss_out s' = ss_out s @ [Data_response ch (dh_clientID h) (cc_serverID c) (cc_protoMinor c) RESULT_OK rid
            (dh_sequenceNr h) payload] \<and>
          ss_notifs s' = ss_notifs s \<and> \<not> ss_responseState s' rid \<and> ss_responseId s' = INVALID_ID \<and>
          ss_sequenceNr s' = INVALID_SEQUENCE_NR \<and> ss_conns s' = ss_conns s))"
proof (intro conjI impI)
  have ok: "stub_ok E s" using stub_reachable_ok [OF assms(1)] by simp
  show "handleDataRequest E h s = Inr (s\<lparr> ss_out := ss_out s @ [Data_response ch (dh_clientID h) (cc_serverID c)
      (cc_protoMinor c) RESULT_REQUEST_BUSY (dh_requestId h) (dh_sequenceNr h) (le_bytes 4 0)] \<rparr>)"
    if "ss_responseState s rid"
    using busy_refused [OF ok assms(2-7) that] by (simp add: emit_def)
  assume a: "\<not> ss_responseState s rid \<and> dh_sequenceNr h \<noteq> INVALID_SEQUENCE_NR \<and>
     sve_method E (dh_requestId h) = Some Plain_method \<and> sve_arguments_ok E (dh_requestId h) (dh_payload h) \<and>
     (\<forall>n \<in> set (ss_notifs s). nf_notifyID n \<noteq> rid) \<and>
     sve_implementation E (dh_requestId h) (dh_payload h) (in_request h rid s) = [Respond rid payload]"
  show "\<exists>s'. handleDataRequest E h s = Inr s' \<and>
       ss_out s' = ss_out s @ [Data_response ch (dh_clientID h) (cc_serverID c) (cc_protoMinor c) RESULT_OK rid
         (dh_sequenceNr h) payload] \<and>
       ss_notifs s' = ss_notifs s \<and> \<not> ss_responseState s' rid \<and> ss_responseId s' = INVALID_ID \<and>
       ss_sequenceNr s' = INVALID_SEQUENCE_NR \<and> ss_conns s' = ss_conns s"
    using request_answered_once [OF ok assms(2-7), of payload] a by (simp add: request_over_def)
qed

theorem request_gets_one_answer_witness:
  "\<exists>s'. handleDataRequest ex_senv (ex_request ''ping'') ex_server = Inr s' \<and>
     ss_out s' = ss_out ex_server @ [Data_response 7 ex_cid ex_sid 0 RESULT_OK ex_rid 42 ''ping'']"
  using request_gets_one_answer [OF ex_server_reachable, of "ex_request ''ping''" "hd (ss_conns ex_server)" 7 ex_rid "''ping''"]
  by (auto simp: find_conn_def ex_server_fields)

text \<open>
  C30. A deferred response. An implementation that unblocks its request leaves the server free for the next one, and the
  request waits under the handle it got. In any later state in which the client is still connected, preparing the
  response with that handle and responding sends exactly one message, to the client that asked, with the sequence
  number of its request, and the handle is used up.
\<close>

theorem deferred_response:
  assumes "stub_reachable E (new_stub_server next tcp attrs) s"
    "find_conn (dh_clientID h) (ss_conns s) = Some c" "cc_protoMinor c = dh_protoMinor h" "dh_type h = REQUEST"
    "sve_getResponse E (dh_requestId h) = rid" "rid \<noteq> INVALID_ID" "\<not> ss_responseState s rid"
    "dh_sequenceNr h \<noteq> INVALID_SEQUENCE_NR" "sve_method E (dh_requestId h) = Some Plain_method"
    "sve_arguments_ok E (dh_requestId h) (dh_payload h)"
    "sve_implementation E (dh_requestId h) (dh_payload h) (in_request h rid s) = [Unblock]"
  shows "\<exists>s1. handleDataRequest E h s = Inr s1 \<and> ss_out s1 = ss_out s \<and> \<not> ss_responseState s1 rid \<and>
    ss_unblocked s1 (ss_nextId s) = Some (pending h rid) \<and>
    (\<forall>s2 d ch. stub_reachable E s1 s2 \<and> ss_responseId s2 = INVALID_ID \<and> ss_unblocked s2 (ss_nextId s) = Some (pending h rid) \<and>
       (\<forall>n \<in> set (ss_notifs s2). nf_notifyID n \<noteq> rid) \<and> find_conn (dh_clientID h) (ss_conns s2) = Some d \<and>
       cc_channel d = Some ch \<longrightarrow>
       (\<exists>s3. run_ops E [Prepare (ss_nextId s), Respond rid payload] s2 = Inr s3 \<and>
          ss_out s3 = ss_out s2 @ [Data_response ch (dh_clientID h) (cc_serverID d) (cc_protoMinor d) RESULT_OK rid
            (dh_sequenceNr h) payload] \<and>
          ss_unblocked s3 (ss_nextId s) = None \<and> ss_notifs s3 = ss_notifs s2))"
proof -
  have ok: "stub_ok E s" using stub_reachable_ok [OF assms(1)] by simp
  obtain s1 where s1: "handleDataRequest E h s = Inr s1" "ss_out s1 = ss_out s" "\<not> ss_responseState s1 rid"
    "ss_unblocked s1 (ss_nextId s) = Some (pending h rid)"
    using unblocked_request [OF ok assms(2-11)] by (simp add: request_over_def)
  have "connected (dh_clientID h) s" using find_conn_id [OF assms(2)] by (auto simp: connected_def)
  then have "stub_step E s s1" using s1(1) by (rule stub_step.Data)
  with assms(1) have r1: "stub_reachable E (new_stub_server next tcp attrs) s1" by (rule stub_reachable.step)
  have later: "\<exists>s3. run_ops E [Prepare (ss_nextId s), Respond rid payload] s2 = Inr s3 \<and>
      ss_out s3 = ss_out s2 @ [Data_response ch (dh_clientID h) (cc_serverID d) (cc_protoMinor d) RESULT_OK rid
        (dh_sequenceNr h) payload] \<and>
      ss_unblocked s3 (ss_nextId s) = None \<and> ss_notifs s3 = ss_notifs s2"
    if "stub_reachable E s1 s2" "ss_responseId s2 = INVALID_ID" "ss_unblocked s2 (ss_nextId s) = Some (pending h rid)"
      "\<forall>n \<in> set (ss_notifs s2). nf_notifyID n \<noteq> rid" "find_conn (dh_clientID h) (ss_conns s2) = Some d"
      "cc_channel d = Some ch" for s2 d ch
  proof -
    have "stub_ok E s2" using stub_reachable_ok [OF stub_reachable_trans [OF r1 that(1)]] by simp
    from prepared_response_sent [OF this that(2,3) assms(8) _ that(5,6), of payload] that(4) show ?thesis by simp
  qed
  show ?thesis using s1 later by blast
qed

theorem deferred_response_witness:
  "\<exists>s1 s3. handleDataRequest ex_senv (ex_request ''later'') ex_server = Inr s1 \<and>
     run_ops ex_senv [Prepare 101, Respond ex_rid ''pong''] s1 = Inr s3 \<and>
     ss_out s3 = ss_out ex_server @ [Data_response 7 ex_cid ex_sid 0 RESULT_OK ex_rid 42 ''pong'']"
proof -
  have c: "find_conn ex_cid (ss_conns ex_server) = Some (hd (ss_conns ex_server))" by (rule ex_server_conn)
  obtain s1 where s1: "handleDataRequest ex_senv (ex_request ''later'') ex_server = Inr s1" "ss_out s1 = ss_out ex_server"
    and later: "\<And>s2 d ch. stub_reachable ex_senv s1 s2 \<and> ss_responseId s2 = INVALID_ID \<and>
       ss_unblocked s2 101 = Some (pending (ex_request ''later'') ex_rid) \<and>
       (\<forall>n \<in> set (ss_notifs s2). nf_notifyID n \<noteq> ex_rid) \<and> find_conn ex_cid (ss_conns s2) = Some d \<and>
       cc_channel d = Some ch \<longrightarrow>
       (\<exists>s3. run_ops ex_senv [Prepare 101, Respond ex_rid ''pong''] s2 = Inr s3 \<and>
          ss_out s3 = ss_out s2 @ [Data_response ch ex_cid (cc_serverID d) (cc_protoMinor d) RESULT_OK ex_rid 42 ''pong''])"
    using deferred_response [OF ex_server_reachable, of "ex_request ''later''" "hd (ss_conns ex_server)" ex_rid "''pong''"] c
    by (auto simp: ex_server_fields) blast
  have "ss_conns s1 = ss_conns ex_server" "ss_responseId s1 = INVALID_ID" "ss_notifs s1 = []"
    "ss_unblocked s1 101 = Some (pending (ex_request ''later'') ex_rid)"
    using s1(1) unblocked_request [of ex_senv ex_server "ex_request ''later''" "hd (ss_conns ex_server)" ex_rid] c
      stub_reachable_ok [OF ex_server_reachable]
    by (auto simp: ex_server_fields request_over_def)
  then show ?thesis
    using later [of s1 "hd (ss_conns ex_server)" 7] s1 c stub_reachable.start by (auto simp: ex_server_fields)
qed

section \<open>Clients\<close>


definition ex_cenv :: client_env where
  "ex_cenv =
     \<lparr> ce_attachInterface = (\<lambda>_. Some \<lparr> ki_clientID = ex_cid, ki_serverID = ex_sid, ki_nid = 0, ki_pid = 77, ki_chid = 4 \<rparr>),
       ce_attachInterfaceTCP = (\<lambda>_. None), ce_notification = (\<lambda>_. 12), ce_tcpForced = False, ce_attach = (\<lambda>_ _. Some 6),
       ce_attachTCP = (\<lambda>_ _ _. None), ce_localName = (\<lambda>_. None), ce_flush = (\<lambda>_. True), ce_alive = (\<lambda>_. True), ce_pid = 88,
       ce_localChannel = 3, ce_ipPort = 0 \<rparr>"

definition ex_conn :: conn_info where
  "ex_conn = \<lparr> ki_clientID = ex_cid, ki_serverID = ex_sid, ki_nid = 0, ki_pid = 77, ki_chid = 4 \<rparr>"

definition ex_client :: stub_client where
  "ex_client = (new_stub_client 11 200)\<lparr> sc_engine := True \<rparr>"

lemma ex_set_id [simp]: "set_id ex_cid" "set_id ex_sid"
  by (simp_all add: set_id_def globalID_zero_iff ex_cid_def ex_sid_def party_assign_def)

lemma ex_answers: "local_answers ex_cenv ex_client ex_conn 6" "ids_given ex_cenv"
  by (simp_all add: local_answers_def ids_given_def ex_cenv_def ex_conn_def)

lemma ex_client_idle: "idle ex_client" "sc_engine ex_client" "sc_callbacks ex_client = []"
  by (simp_all add: idle_def ex_client_def new_stub_client_def)



section \<open>The communication engine\<close>


definition ex_platform :: platform where
  "ex_platform = \<lparr> size_bits = 64, alloc = (\<lambda>_. True), junk = (\<lambda>_. NUL) \<rparr>"

definition ex_env :: engine_env where
  "ex_env = \<lparr> ge_client = (\<lambda>_. ex_cenv), ge_server = (\<lambda>_. ex_senv), ge_platform = ex_platform, ge_isTCP = (\<lambda>_. False),
     ge_sends = (\<lambda>_. True), ge_opens = True, ge_listens = True, ge_localFd = 4, ge_localIp = 1, ge_ipPort = 9000 \<rparr>"

text \<open>The process of the client and that of the server, before they run.\<close>

definition ex_client_process :: engine where
  "ex_client_process =
     \<lparr> en_open = False, en_active = False, en_clientList = [1], en_serverList = [], en_serverCache = [], en_clientCache = [],
       en_clients = [1 \<mapsto> ex_client], en_servers = Map.empty, en_attached = {}, en_nextId = 200, en_out = [] \<rparr>"

definition ex_server_process :: engine where
  "ex_server_process =
     \<lparr> en_open = False, en_active = False, en_clientList = [], en_serverList = [2], en_serverCache = [], en_clientCache = [],
       en_clients = Map.empty,
       en_servers = [2 \<mapsto> (new_stub_server 100 False (\<lambda>_. DATA_NOT_AVAILABLE))\<lparr> ss_serverID := ex_sid \<rparr>],
       en_attached = {2}, en_nextId = 100, en_out = [] \<rparr>"


section \<open>From process to process\<close>

text \<open>
  C33. A request of any type reaches its server. The bytes the writer sends for it, in as many packets as it takes, are
  read by the engine of the other process, and exactly the server with the id, found through the cache or by the scan,
  handles a request with the client's id, the protocol version, the type, the request id, the sequence number and the
  arguments that were written; a request of more than one packet carries 16 bytes of the writer's memory behind them. The
  connection stays, all bytes are consumed, and no other object changes.
\<close>

theorem request_reaches_server:
  assumes "serves e sid a s" "cb_wf b" "mSize b < 2 ^ 62" "memory_ok (ge_platform E) (2 * (mSize b + sizeof_EventInfo))"
  shows "\<exists>w' wire cache. flush pf deliver (data_writer cid sid proto rt i seqNr b) [] = Inr (True, w', wire) \<and>
    handleMessageHeader E ch wire e =
      Some (case handleDataRequest (ge_server E a)
              \<lparr> dh_clientID = cid, dh_protoMinor = proto, dh_type = rt, dh_requestId = i, dh_sequenceNr = seqNr,
                dh_payload = content b @ trailing pf b \<rparr> (s\<lparr> ss_nextId := en_nextId e \<rparr>) of
              Inl x \<Rightarrow> Inl (In_server x) | Inr s' \<Rightarrow> Inr (True, [], server_done a s' cache e))"
  by (rule data_request_delivered [OF assms])

lemma ex_serves: "serves ex_server_process ex_sid 2 ((new_stub_server 100 False (\<lambda>_. DATA_NOT_AVAILABLE))\<lparr> ss_serverID := ex_sid \<rparr>)"
  by (simp add: serves_def engine_ok_def cache_live_def ex_server_process_def is_server_id_def party_eq_def)

lemma ex_memory: "n \<le> 4056 \<Longrightarrow> memory_ok ex_platform n"
  by (simp add: memory_ok_def ex_platform_def)

lemma ex_buffer: "cb_wf (CBuffer ex_platform One2one)" "content (CBuffer ex_platform One2one) = []"
  using CBuffer_wf [of ex_platform One2one] by (simp_all add: content_def CBuffer_size)

theorem request_reaches_server_witness:
  "\<exists>w' wire cache s'. flush ex_platform deliver (data_writer ex_cid ex_sid 0 REQUEST_STOP_NOTIFY 1 42
       (CBuffer ex_platform One2one)) [] = Inr (True, w', wire) \<and>
     handleMessageHeader ex_env 6 wire ex_server_process = Some (Inr (True, [], server_done 2 s' cache ex_server_process))"
proof -
  have "mSize (CBuffer ex_platform One2one) < 2 ^ 62"
    "memory_ok (ge_platform ex_env) (2 * (mSize (CBuffer ex_platform One2one) + sizeof_EventInfo))"
    by (simp_all add: CBuffer_size ex_env_def ex_memory sizeof_EventInfo_def)
  note r = request_reaches_server [OF ex_serves ex_buffer(1) this, of ex_platform ex_cid 0 REQUEST_STOP_NOTIFY 1 42 6]
  have "\<exists>s'. handleDataRequest (ge_server ex_env 2) \<lparr> dh_clientID = ex_cid, dh_protoMinor = 0,
      dh_type = REQUEST_STOP_NOTIFY, dh_requestId = 1, dh_sequenceNr = 42, dh_payload = p \<rparr> s = Inr s'" for p s
    by (simp add: handleDataRequest_def split: prod.splits)
  then show ?thesis using r by (metis sum.simps(6))
qed


text \<open>
  C34. Connecting, from the pulse of the servicebroker to the callback. A client that waits for its server gets the pulse
  that announces it: it attaches at the servicebroker, and a connect request goes to the server's process. The
  bytes of the request enter the client into the server's connections and make the server answer with its own address; the
  bytes of the answer leave the client connected to that server, with the agreed protocol version, its state machine gone
  and its proxy told exactly once.
\<close>

theorem connect_from_pulse_to_callback:
  assumes "waiting_client ec a c (ki_clientID ci)" "local_answers (ge_client Ec a) c ci n" "told (sc_callbacks c) = Some False"
    "serves es (ki_serverID ci) d s" "\<not> ge_isTCP Es ch" "sve_pid (ge_server Es d) \<noteq> 0"
    "ce_attach (ge_client Ec a) (sve_pid (ge_server Es d)) (sve_localChannel (ge_server Es d)) = Some m"
    "ce_alive (ge_client Ec a) m" "memory_ok (ge_platform Es) 8" "memory_ok (ge_platform Ec) 8"
  shows "\<exists>ec1 c1 b w' wire cache1 s' cache2 c2.
    handlePulse Ec PULSE_SERVER_AVAILABLE (sc_id c) ec = Inr ec1 \<and> en_clients ec1 a = Some c1 \<and>
    sc_sent c1 = sc_sent c @ [Connect_request n (ki_clientID ci) (ki_serverID ci) (ce_pid (ge_client Ec a))
      (ce_localChannel (ge_client Ec a))] \<and>
    connect_buffer pf (ce_pid (ge_client Ec a)) (ce_localChannel (ge_client Ec a)) = Some (Inr b) \<and>
    flush pf deliver (control_writer ConnectRequest (ki_clientID ci) (ki_serverID ci) b) [] = Inr (True, w', wire) \<and>
    handleMessageHeader Es ch wire es = Some (Inr (True, [], server_done d s' cache1 es)) \<and>
    connected (ki_clientID ci) s' \<and>
    ss_out s' = ss_out s @ [Connect_response ch (ki_serverID ci) (ki_clientID ci) DSI_PROTOCOL_VERSION_MINOR
      (sve_pid (ge_server Es d)) (sve_localChannel (ge_server Es d))] \<and>
    handleMessageHeader Ec ch' (connect_response (ki_serverID ci) (ki_clientID ci) DSI_PROTOCOL_VERSION_MINOR
      (sve_pid (ge_server Es d)) (sve_localChannel (ge_server Es d))) ec1 = Some (Inr (True, [], client_done a c2 cache2 ec1)) \<and>
    isConnected (ge_client Ec a) c2 \<and> sc_clientID c2 = ki_clientID ci \<and> sc_serverID c2 = ki_serverID ci \<and>
    sc_connector c2 = None \<and> sc_callbacks c2 = sc_callbacks c @ [Component_connected]"
proof -
  let ?E = "ge_client Ec a" and ?S = "ge_server Es d"
  let ?c = "c\<lparr> sc_nextId := en_nextId ec \<rparr>"
  let ?c1 = "connecting ?E ci n ?c"
  obtain ec1 where p: "handlePulse Ec PULSE_SERVER_AVAILABLE (sc_id c) ec = Inr ec1" "proxied ec1 (ki_clientID ci) a ?c1"
    using available_pulse [OF assms(1,2)] by blast
  obtain b where b: "connect_buffer pf (ce_pid ?E) (ce_localChannel ?E) = Some (Inr b)" "cb_wf b"
    "content b = connect_info (ce_pid ?E) (ce_localChannel ?E)" using connect_buffer_ok by blast
  define s' where "s' = handleConnectRequest ?S ch (ki_clientID ci) (ki_serverID ci) DSI_PROTOCOL_VERSION_MINOR
    (ce_pid ?E) (ce_localChannel ?E) (s\<lparr> ss_nextId := en_nextId es \<rparr>)"
  obtain w' wire cache1 where f: "flush pf deliver (control_writer ConnectRequest (ki_clientID ci) (ki_serverID ci) b) [] =
      Inr (True, w', wire)" "handleMessageHeader Es ch wire es = Some (Inr (True, [], server_done d s' cache1 es))"
    using connect_request_delivered [OF assms(4,5) b(2,3) assms(9), of pf] unfolding s'_def by blast
  have la: "local_answers ?E ?c ci n" "told (sc_callbacks ?c) = Some False"
    using assms(2,3) by (simp_all add: local_answers_def)
  obtain c2 where c2: "cc_handleConnectResponse ?E (ki_serverID ci) DSI_PROTOCOL_VERSION_MINOR (sve_pid ?S) (sve_localChannel ?S)
      (?c1\<lparr> sc_nextId := en_nextId ec1 \<rparr>) = Inr c2" "isConnected ?E c2" "sc_clientID c2 = ki_clientID ci"
    "sc_serverID c2 = ki_serverID ci" "sc_connector c2 = None" "sc_callbacks c2 = sc_callbacks c @ [Component_connected]"
    using response_connects [OF la assms(6-8) refl, where k = "en_nextId ec1" and proto = DSI_PROTOCOL_VERSION_MINOR] by auto
  obtain cache2 where r: "handleMessageHeader Ec ch' (connect_response (ki_serverID ci) (ki_clientID ci)
      DSI_PROTOCOL_VERSION_MINOR (sve_pid ?S) (sve_localChannel ?S)) ec1 = Some (Inr (True, [], client_done a c2 cache2 ec1))"
    using connect_response_delivered [OF p(2) assms(10), of ch' "ki_serverID ci" DSI_PROTOCOL_VERSION_MINOR
        "sve_pid ?S" "sve_localChannel ?S"] c2(1) by auto
  have "en_clients ec1 a = Some ?c1" using p(2) by (simp add: proxied_def)
  moreover have "sc_sent ?c1 = sc_sent c @ [Connect_request n (ki_clientID ci) (ki_serverID ci) (ce_pid ?E) (ce_localChannel ?E)]"
    by (simp add: connecting_def)
  moreover have "min_protoMinor DSI_PROTOCOL_VERSION_MINOR = DSI_PROTOCOL_VERSION_MINOR" by (simp add: min_protoMinor_def)
  ultimately show ?thesis
    using p(1) b(1) f r c2(2-6) connect_request_effect [OF s'_def] by (intro exI conjI) auto
qed

lemma ex_waiting: "waiting_client ex_client_process 1 ex_client ex_cid"
proof -
  have "sc_clientID ex_client \<noteq> ex_cid"
    by (simp add: ex_client_def new_stub_client_def ex_cid_def party_assign_def)
  then show ?thesis
    by (simp add: waiting_client_def engine_ok_def cache_live_def ex_client_process_def ex_client_idle)
qed

lemma ex_env_fields [simp]:
  "ge_client ex_env a = ex_cenv" "ge_server ex_env a = ex_senv" "ge_platform ex_env = ex_platform" "\<not> ge_isTCP ex_env ch"
  by (simp_all add: ex_env_def)

theorem connect_from_pulse_to_callback_witness:
  "\<exists>ec1 wire cache1 s' cache2 c2.
    handlePulse ex_env PULSE_SERVER_AVAILABLE 11 ex_client_process = Inr ec1 \<and>
    handleMessageHeader ex_env 6 wire ex_server_process = Some (Inr (True, [], server_done 2 s' cache1 ex_server_process)) \<and>
    handleMessageHeader ex_env 6 (connect_response ex_sid ex_cid DSI_PROTOCOL_VERSION_MINOR 77 4) ec1 =
      Some (Inr (True, [], client_done 1 c2 cache2 ec1)) \<and> isConnected ex_cenv c2 \<and> sc_callbacks c2 = [Component_connected]"
proof -
  have "ki_clientID ex_conn = ex_cid" "ki_serverID ex_conn = ex_sid" "sc_id ex_client = 11" "told (sc_callbacks ex_client) = Some False"
    "ce_attach ex_cenv 77 4 = Some 6" "ce_alive ex_cenv 6" "sc_callbacks ex_client = []"
    by (simp_all add: ex_conn_def ex_client_def new_stub_client_def ex_cenv_def)
  then show ?thesis
    using connect_from_pulse_to_callback [of ex_client_process 1 ex_client ex_conn ex_env 6 ex_server_process 2
        "(new_stub_server 100 False (\<lambda>_. DATA_NOT_AVAILABLE))\<lparr> ss_serverID := ex_sid \<rparr>" ex_env 6 6 ex_platform 6]
      ex_waiting ex_answers(1) ex_serves ex_memory [of 8] by auto
qed

section \<open>Attributes\<close>



end
