(* ===== verification/Client_Io.thy ===== *)
theory Client_Io
  imports Client_Session
begin

text \<open>
  The blocking exchange of a request with the servicebroker (\<^verbatim>\<open>src/servicebroker/clientIo.cpp\<close>),
  used by the client library and by the connection of a slave to its master. The kernel's answers to
  the system calls are a list, taken in order; a call that finds the list empty has not returned, and
  neither has the function that made it (\<open>None\<close>). The lemmas show which sequences of answers
  transfer a request and its response completely, and what happens on the others.
\<close>

section \<open>The socket\<close>

definition EINTR :: int where "EINTR = 4"
definition ENOENT :: int where "ENOENT = 2"

text \<open>\<open>Did n\<close>: the call handles up to \<open>n\<close> bytes; \<open>Failed e\<close>: it returns -1 with that \<^verbatim>\<open>errno\<close>.\<close>

datatype io_answer = Did nat | Failed int

text \<open>
  What has been written to the socket, what the peer writes, the answers of the kernel and the
  \<^verbatim>\<open>errno\<close> of the thread.
\<close>

record sock =
  sk_out :: "char list"
  sk_in :: "char list"
  sk_calls :: "io_answer list"
  sk_errno :: int

definition sys_send :: "char list \<Rightarrow> sock \<Rightarrow> (int \<times> sock) option" where
  "sys_send bs s =
     (case sk_calls s of
        [] \<Rightarrow> None
      | Did n # cs \<Rightarrow>
          let k = min n (length bs)
          in Some (int k, s\<lparr> sk_out := sk_out s @ take k bs, sk_calls := cs \<rparr>)
      | Failed e # cs \<Rightarrow> Some (- 1, s\<lparr> sk_errno := e, sk_calls := cs \<rparr>))"

text \<open>A read that finds nothing more to deliver is the end of the stream.\<close>

definition sys_recv :: "nat \<Rightarrow> sock \<Rightarrow> (int \<times> char list \<times> sock) option" where
  "sys_recv len s =
     (case sk_calls s of
        [] \<Rightarrow> None
      | Did n # cs \<Rightarrow>
          let k = min n (min len (length (sk_in s)))
          in Some (int k, take k (sk_in s), s\<lparr> sk_in := drop k (sk_in s), sk_calls := cs \<rparr>)
      | Failed e # cs \<Rightarrow> Some (- 1, [], s\<lparr> sk_errno := e, sk_calls := cs \<rparr>))"

lemma sys_send_calls: "sys_send bs s = Some (rc, s') \<Longrightarrow> length (sk_calls s') < length (sk_calls s)"
  by (auto simp: sys_send_def Let_def split: list.splits io_answer.splits)

lemma sys_recv_calls: "sys_recv n s = Some (rc, bs, s') \<Longrightarrow> length (sk_calls s') < length (sk_calls s)"
  by (auto simp: sys_recv_def Let_def split: list.splits io_answer.splits)

section \<open>Sending and receiving completely\<close>

text \<open>The loops return \<open>have_error\<close>; receiving also returns the bytes stored so far.\<close>

function sendAll_loop :: "char list \<Rightarrow> nat \<Rightarrow> sock \<Rightarrow> (bool \<times> sock) option" where
  "sendAll_loop data sent s =
     (case sys_send (drop sent data) s of
        None \<Rightarrow> None
      | Some (rc, s') \<Rightarrow>
          let have_error = (rc < 0 \<and> sk_errno s' \<noteq> EINTR);
              sent' = (if rc < 0 then sent else sent + nat rc)
          in if \<not> have_error \<and> sent' < length data then sendAll_loop data sent' s'
             else Some (have_error, s'))"
  by pat_completeness auto
termination
  by (relation "measure (\<lambda>(data, sent, s). length (sk_calls s))") (auto dest: sys_send_calls)

definition cio_sendAll :: "char list \<Rightarrow> sock \<Rightarrow> (bool \<times> sock) option" where
  "cio_sendAll data s = sendAll_loop data 0 s"

function recvAll_loop :: "nat \<Rightarrow> char list \<Rightarrow> sock \<Rightarrow> (bool \<times> char list \<times> sock) option" where
  "recvAll_loop len got s =
     (case sys_recv (len - length got) s of
        None \<Rightarrow> None
      | Some (rc, bs, s') \<Rightarrow>
          let have_error = (rc < 0 \<and> sk_errno s' \<noteq> EINTR \<or> rc = 0);
              got' = got @ bs
          in if \<not> have_error \<and> length got' < len then recvAll_loop len got' s'
             else Some (have_error, got', s'))"
  by pat_completeness auto
termination
  by (relation "measure (\<lambda>(len, got, s). length (sk_calls s))") (auto dest: sys_recv_calls)

definition cio_recvAll :: "nat \<Rightarrow> sock \<Rightarrow> (bool \<times> char list \<times> sock) option" where
  "cio_recvAll len s = recvAll_loop len [] s"

declare sendAll_loop.simps [simp del] recvAll_loop.simps [simp del]

section \<open>Sending a vector of buffers\<close>

text \<open>A buffer: the memory \<^verbatim>\<open>iov_base\<close> points at (\<open>None\<close> for a null pointer) and its length.\<close>

record iovec =
  iov_base :: "char list option"
  iov_len :: nat

definition iov_data :: "iovec \<Rightarrow> char list" where
  "iov_data v = (case iov_base v of None \<Rightarrow> [] | Some mem \<Rightarrow> take (iov_len v) mem)"

definition iov_bytes :: "iovec list \<Rightarrow> char list" where
  "iov_bytes vs = concat (map iov_data vs)"

definition iov_advance :: "nat \<Rightarrow> iovec \<Rightarrow> iovec" where
  "iov_advance n v = \<lparr> iov_base = map_option (drop n) (iov_base v), iov_len = iov_len v - n \<rparr>"

text \<open>
  The loop that accounts for \<open>rc\<close> sent bytes on the first \<open>n\<close> elements of the array: the array
  afterwards and the number of elements found empty.
\<close>

fun adapt_iov :: "nat \<Rightarrow> nat \<Rightarrow> iovec list \<Rightarrow> iovec list \<times> nat" where
  "adapt_iov 0 rc vs = (vs, 0)"
| "adapt_iov (Suc n) rc [] = ([], 0)"
| "adapt_iov (Suc n) rc (v # vs) =
     (if rc = 0 then (v # vs, 0)
      else if rc < iov_len v then (iov_advance rc v # vs, 0)
      else let (vs', empty_iovs) = adapt_iov n (rc - iov_len v) vs in (v # vs', Suc empty_iovs))"

text \<open>
  \<^verbatim>\<open>hdr.msg_iov\<close> is element \<open>off\<close> of the array \<open>in\<close>, \<^verbatim>\<open>hdr.msg_iovlen\<close> is \<open>cnt\<close>. The accounting
  starts at the first element of the array, wherever \<^verbatim>\<open>hdr.msg_iov\<close> is.
\<close>

function sendiov_loop ::
  "iovec list \<Rightarrow> nat \<Rightarrow> nat \<Rightarrow> nat \<Rightarrow> nat \<Rightarrow> sock \<Rightarrow> (bool \<times> sock) option" where
  "sendiov_loop inp off cnt sent total_len s =
     (case sys_send (iov_bytes (take cnt (drop off inp))) s of
        None \<Rightarrow> None
      | Some (rc, s') \<Rightarrow>
          if rc < 0 then
            if sk_errno s' \<noteq> EINTR then Some (True, s')
            else if sent < total_len then sendiov_loop inp off cnt sent total_len s'
            else Some (False, s')
          else
            let sent' = sent + nat rc
            in if sent' < total_len then
                 let (inp', empty_iovs) = adapt_iov cnt (nat rc) inp
                 in sendiov_loop inp' (off + empty_iovs) (cnt - empty_iovs) sent' total_len s'
               else Some (False, s'))"
  by pat_completeness auto
termination
  by (relation "measure (\<lambda>(inp, off, cnt, sent, total_len, s). length (sk_calls s))")
    (auto dest: sys_send_calls)

declare sendiov_loop.simps [simp del]

definition sendiov :: "iovec list \<Rightarrow> nat \<Rightarrow> sock \<Rightarrow> (bool \<times> sock) option" where
  "sendiov inp total_len s = sendiov_loop inp 0 (length inp) 0 total_len s"

section \<open>Request and response\<close>

definition INIT_REQUEST_FRAME :: "int \<Rightarrow> int \<Rightarrow> char list" where
  "INIT_REQUEST_FRAME sz cmd = frame_header sz cmd"

text \<open>
  The body of the response into the output buffers, as far as they go: \<open>have_error\<close> and the bytes
  stored in each buffer that was reached.
\<close>

fun recv_body ::
  "nat list \<Rightarrow> nat \<Rightarrow> sock \<Rightarrow> (bool \<times> char list list \<times> sock) option" where
  "recv_body [] rest s = Some (False, [], s)"
| "recv_body (n # ns) rest s =
     (if 0 < rest then
        let cur = (if n < rest then n else rest)
        in case cio_recvAll cur s of
             None \<Rightarrow> None
           | Some (have_error, bs, s') \<Rightarrow>
               if have_error then Some (True, [bs], s')
               else case recv_body ns (rest - cur) s' of
                      None \<Rightarrow> None
                    | Some (e, bss, s'') \<Rightarrow> Some (e, bs # bss, s'')
      else Some (False, [], s))"

text \<open>
  The header of the response. A header that was not received completely has set \<open>have_error\<close>, so
  what the check of the magic number reads then does not matter.
\<close>

definition recv_response ::
  "platform \<Rightarrow> nat list \<Rightarrow> sock \<Rightarrow> (bool \<times> int option \<times> char list list \<times> sock) option" where
  "recv_response pf out s =
     (case cio_recvAll sizeof_frame s of
        None \<Rightarrow> None
      | Some (err, f, s') \<Rightarrow>
          if err \<or> of_le (take 4 f) \<noteq> SB_FRAME_MAGIC then Some (True, None, [], s')
          else
            let rc = as_int32 (of_le (take 4 (drop 8 f)));
                rest = nat (as_int32 (of_le (take 4 (drop 4 f))) mod 2 ^ size_bits pf)
            in case recv_body out rest s' of
                 None \<Rightarrow> None
               | Some (e, bss, s'') \<Rightarrow> Some (e, Some rc, bss, s''))"

text \<open>\<^verbatim>\<open>sizeof(struct iovec)\<close>\<close>

definition sizeof_iovec :: nat where
  "sizeof_iovec = 8"

text \<open>
  \<open>sendAndReceiveV\<close>: the return value, the value stored in \<open>*rc\<close> if any, and the bytes stored in
  the output buffers. A null pointer in the first input buffer is the placeholder for the frame.
\<close>

definition sendAndReceiveV ::
  "platform \<Rightarrow> int \<Rightarrow> iovec list \<Rightarrow> nat list \<Rightarrow> sock \<Rightarrow>
     (int \<times> int option \<times> char list list \<times> sock) option" where
  "sendAndReceiveV pf cmd inp out s =
     (let s = s\<lparr> sk_errno := EINVAL \<rparr>;
          total_body_length = sum_list (map iov_len inp);
          f = \<lparr> iov_base = Some (INIT_REQUEST_FRAME (int total_body_length) cmd), iov_len = sizeof_frame \<rparr>;
          placeholder = (iov_base (inp ! 0) = None);
          iov = (if placeholder then f # tl inp else f # inp)
      in if \<not> placeholder \<and> \<not> alloc pf (sizeof_iovec * (length inp + 1)) then Some (- 1, None, [], s)
         else
           case sendiov iov (total_body_length + sizeof_frame) s of
             None \<Rightarrow> None
           | Some (True, s') \<Rightarrow> Some (- 1, None, [], s')
           | Some (False, s') \<Rightarrow>
               (case recv_response pf out s' of
                  None \<Rightarrow> None
                | Some (have_error, rc, bss, s'') \<Rightarrow>
                    Some (if have_error then - 1 else 0, rc, bss, s'')))"

text \<open>
  \<open>sendAndReceive\<close>: request and response share the memory at \<open>ptr\<close>; the result is the memory
  afterwards.
\<close>

definition sendAndReceive ::
  "platform \<Rightarrow> int \<Rightarrow> char list \<Rightarrow> nat \<Rightarrow> nat \<Rightarrow> sock \<Rightarrow> (int \<times> int option \<times> char list \<times> sock) option" where
  "sendAndReceive pf cmd ptr inputlen outputlen s =
     map_option (\<lambda>(r, rc, bss, s'). (r, rc, overwrite ptr 0 (concat bss), s'))
       (sendAndReceiveV pf cmd
          [\<lparr> iov_base = None, iov_len = 0 \<rparr>, \<lparr> iov_base = Some ptr, iov_len = inputlen \<rparr>]
          (if 0 < outputlen then [outputlen] else []) s)"

text \<open>The eight bytes of \<open>auth_request\<close>; the credentials travel beside the data.\<close>

definition auth_request :: "u32 \<Rightarrow> char list" where
  "auth_request pid = ''AUTH'' @ le_bytes 4 (unat pid)"

function sendAuth_loop :: "char list \<Rightarrow> sock \<Rightarrow> (int \<times> sock) option" where
  "sendAuth_loop bs s =
     (case sys_send bs s of
        None \<Rightarrow> None
      | Some (ret, s') \<Rightarrow>
          if ret < 0 \<and> sk_errno s' = EINTR then sendAuth_loop bs s' else Some (ret, s'))"
  by pat_completeness auto
termination
  by (relation "measure (\<lambda>(bs, s). length (sk_calls s))") (auto dest: sys_send_calls)

declare sendAuth_loop.simps [simp del]

definition sendAuthPackage :: "u32 \<Rightarrow> sock \<Rightarrow> (int \<times> sock) option" where
  "sendAuthPackage pid s =
     map_option (\<lambda>(ret, s'). (if ret = int (length (auth_request pid)) then 0 else ret, s'))
       (sendAuth_loop (auth_request pid) s)"

section \<open>Answers that complete a transfer\<close>

text \<open>
  The answers left over when \<open>m\<close> bytes have been received; \<open>None\<close> if the connection fails, ends
  or stalls before.
\<close>

fun transfers :: "nat \<Rightarrow> io_answer list \<Rightarrow> io_answer list option" where
  "transfers m [] = None"
| "transfers m (Did n # cs) = (if n = 0 then None else if m \<le> n then Some cs else transfers (m - n) cs)"
| "transfers m (Failed e # cs) = (if e = EINTR then transfers m cs else None)"

text \<open>The same for one call that takes all of \<open>m\<close> bytes.\<close>

fun finishes :: "nat \<Rightarrow> io_answer list \<Rightarrow> io_answer list option" where
  "finishes m [] = None"
| "finishes m (Did n # cs) = (if m \<le> n then Some cs else None)"
| "finishes m (Failed e # cs) = (if e = EINTR then finishes m cs else None)"

text \<open>
  A vector of \<open>m\<close> bytes whose first buffer has \<open>h\<close> bytes left: parts may end inside the first
  buffer; once a part ends behind it, the next one has to take the rest.
\<close>

fun splits :: "nat \<Rightarrow> nat \<Rightarrow> io_answer list \<Rightarrow> io_answer list option" where
  "splits h m [] = None"
| "splits h m (Did n # cs) =
     (if m \<le> n then Some cs else if n < h then splits (h - n) (m - n) cs else finishes (m - n) cs)"
| "splits h m (Failed e # cs) = (if e = EINTR then splits h m cs else None)"

lemma sys_simps [simp]:
  "sk_calls s = [] \<Longrightarrow> sys_send bs s = None"
  "sk_calls s = Failed e # cs \<Longrightarrow> sys_send bs s = Some (- 1, s\<lparr> sk_errno := e, sk_calls := cs \<rparr>)"
  "sk_calls s = [] \<Longrightarrow> sys_recv n s = None"
  "sk_calls s = Failed e # cs \<Longrightarrow> sys_recv n s = Some (- 1, [], s\<lparr> sk_errno := e, sk_calls := cs \<rparr>)"
  by (simp_all add: sys_send_def sys_recv_def)

lemma sys_send_Did:
  "sk_calls s = Did n # cs \<Longrightarrow> sys_send bs s =
     Some (int (min n (length bs)), s\<lparr> sk_out := sk_out s @ take n bs, sk_calls := cs \<rparr>)"
  by (cases "n \<le> length bs") (simp_all add: sys_send_def Let_def min_def)

lemma sys_recv_Did:
  "sk_calls s = Did n # cs \<Longrightarrow> n \<le> m \<Longrightarrow> n \<le> length (sk_in s) \<Longrightarrow> sys_recv m s =
     Some (int n, take n (sk_in s), s\<lparr> sk_in := drop n (sk_in s), sk_calls := cs \<rparr>)"
  "sk_calls s = Did n # cs \<Longrightarrow> m \<le> n \<Longrightarrow> m \<le> length (sk_in s) \<Longrightarrow> sys_recv m s =
     Some (int m, take m (sk_in s), s\<lparr> sk_in := drop m (sk_in s), sk_calls := cs \<rparr>)"
  by (simp_all add: sys_recv_def Let_def min_def)

section \<open>Receiving\<close>

lemma recvAll_loop_ok:
  assumes "transfers m (sk_calls s) = Some cs" "0 < m" "m \<le> length (sk_in s)"
  shows "\<exists>e. recvAll_loop (length got + m) got s =
    Some (False, got @ take m (sk_in s), s\<lparr> sk_in := drop m (sk_in s), sk_calls := cs, sk_errno := e \<rparr>)"
  using assms
proof (induction m "sk_calls s" arbitrary: got s rule: transfers.induct)
  case (2 m n cs')
  have calls: "sk_calls s = Did n # cs'" using "2.hyps"(2) by simp
  show ?case
  proof (cases "m \<le> n")
    case True
    then show ?thesis
      using "2.prems" calls sys_recv_Did(2) [OF calls True "2.prems"(3)]
      by (subst recvAll_loop.simps) (auto intro!: exI [of _ "sk_errno s"] split: if_splits)
  next
    case False
    let ?s = "s\<lparr> sk_in := drop n (sk_in s), sk_calls := cs' \<rparr>" and ?got = "got @ take n (sk_in s)"
    have n: "0 < n" "n < m" "transfers (m - n) cs' = Some cs"
      using "2.prems"(1) calls False by (auto split: if_splits)
    have len: "length ?got + (m - n) = length got + m" using n "2.prems"(3) by simp
    from "2.hyps"(1) [of ?s ?got] n "2.prems" obtain e where e:
      "recvAll_loop (length got + m) ?got ?s = Some (False, ?got @ take (m - n) (sk_in ?s),
         ?s\<lparr> sk_in := drop (m - n) (sk_in ?s), sk_calls := cs, sk_errno := e \<rparr>)"
      unfolding len using diff_le_mono [OF "2.prems"(3), of n] by auto
    have "take n (sk_in s) @ take (m - n) (drop n (sk_in s)) = take m (sk_in s)"
      using n(2) by (metis le_add_diff_inverse less_imp_le take_add)
    then show ?thesis
      using e n "2.prems" sys_recv_Did(1) [OF calls, of m]
      by (subst recvAll_loop.simps) (auto simp: Let_def)
  qed
next
  case (3 m e0 cs')
  have calls: "sk_calls s = Failed e0 # cs'" using "3.hyps"(2) by simp
  with "3.prems" have e0: "e0 = EINTR" "transfers m cs' = Some cs" by (auto split: if_splits)
  let ?s = "s\<lparr> sk_errno := e0, sk_calls := cs' \<rparr>"
  from "3.hyps"(1) [OF e0(1), of ?s got] e0 "3.prems" obtain e where
    "recvAll_loop (length got + m) got ?s = Some (False, got @ take m (sk_in s),
       ?s\<lparr> sk_in := drop m (sk_in s), sk_calls := cs, sk_errno := e \<rparr>)" by auto
  then show ?case using calls e0 "3.prems" by (subst recvAll_loop.simps) (auto simp: Let_def)
qed simp

lemma recvAll_ok:
  assumes "transfers m (sk_calls s) = Some cs" "0 < m" "m \<le> length (sk_in s)"
  shows "\<exists>e. cio_recvAll m s =
    Some (False, take m (sk_in s), s\<lparr> sk_in := drop m (sk_in s), sk_calls := cs, sk_errno := e \<rparr>)"
  using recvAll_loop_ok [OF assms, of "[]"] by (simp add: cio_recvAll_def)

text \<open>A response that ends too early is an error, not a wait.\<close>

lemma recvAll_eof:
  assumes "sk_calls s = Did n # cs" "sk_in s = []"
  shows "cio_recvAll m s = Some (True, [], s\<lparr> sk_calls := cs \<rparr>)"
  using assms by (simp add: cio_recvAll_def recvAll_loop.simps sys_recv_def)

section \<open>Sending\<close>

lemma sendAll_loop_ok:
  assumes "transfers m (sk_calls s) = Some cs" "m = length data - sent" "sent < length data"
  shows "\<exists>e. sendAll_loop data sent s =
    Some (False, s\<lparr> sk_out := sk_out s @ drop sent data, sk_calls := cs, sk_errno := e \<rparr>)"
  using assms
proof (induction m "sk_calls s" arbitrary: sent s rule: transfers.induct)
  case (2 m n cs')
  have calls: "sk_calls s = Did n # cs'" using "2.hyps"(2) by simp
  show ?case
  proof (cases "m \<le> n")
    case True
    then show ?thesis
      using "2.prems" calls
      by (subst sendAll_loop.simps) (auto simp: sys_send_Did [OF calls] Let_def min_def
          intro!: exI [of _ "sk_errno s"] split: if_splits)
  next
    case False
    let ?s = "s\<lparr> sk_out := sk_out s @ take n (drop sent data), sk_calls := cs' \<rparr>"
    have n: "0 < n" "n < m" "transfers (m - n) cs' = Some cs" "sent + n < length data"
      using "2.prems" calls False by (auto split: if_splits)
    from "2.hyps"(1) [of ?s "sent + n"] n "2.prems" obtain e where e:
      "sendAll_loop data (sent + n) ?s = Some (False,
         ?s\<lparr> sk_out := sk_out ?s @ drop (sent + n) data, sk_calls := cs, sk_errno := e \<rparr>)" by auto
    have "take n (drop sent data) @ drop (sent + n) data = drop sent data"
      by (metis add.commute append_take_drop_id drop_drop)
    then show ?thesis
      using e n "2.prems"
      by (subst sendAll_loop.simps) (auto simp: sys_send_Did [OF calls] Let_def min_def)
  qed
next
  case (3 m e0 cs')
  have calls: "sk_calls s = Failed e0 # cs'" using "3.hyps"(2) by simp
  with "3.prems" have e0: "e0 = EINTR" "transfers m cs' = Some cs" by (auto split: if_splits)
  let ?s = "s\<lparr> sk_errno := e0, sk_calls := cs' \<rparr>"
  from "3.hyps"(1) [OF e0(1), of ?s sent] e0 "3.prems" obtain e where
    "sendAll_loop data sent ?s = Some (False,
       ?s\<lparr> sk_out := sk_out s @ drop sent data, sk_calls := cs, sk_errno := e \<rparr>)" by auto
  then show ?case using calls e0 "3.prems" by (subst sendAll_loop.simps) (auto simp: Let_def)
qed simp

text \<open>Buffers whose length is that of their memory at most.\<close>

definition iov_ok :: "iovec \<Rightarrow> bool" where
  "iov_ok v \<longleftrightarrow> length (iov_data v) = iov_len v"

lemma iov_advance_data:
  "iov_ok v \<Longrightarrow> iov_data (iov_advance n v) = drop n (iov_data v)"
  "iov_ok v \<Longrightarrow> iov_ok (iov_advance n v)"
  by (auto simp: iov_ok_def iov_data_def iov_advance_def drop_take split: option.splits)

lemma iov_bytes_simps [simp]:
  "iov_bytes [] = []" "iov_bytes (v # vs) = iov_data v @ iov_bytes vs"
  by (simp_all add: iov_bytes_def)

text \<open>The accounting is right for an array that still starts with the bytes to send.\<close>

lemma adapt_iov_drop:
  assumes "list_all iov_ok vs" "rc < length (iov_bytes vs)" "adapt_iov (length vs) rc vs = (vs', k)"
  shows "iov_bytes (drop k vs') = drop rc (iov_bytes vs)" "length vs' = length vs" "k \<le> length vs"
  using assms
proof (induction vs arbitrary: rc vs' k)
  case (Cons v vs)
  {
    case 1
    then show ?case
    proof (cases "rc < iov_len v")
      case True
      with 1 show ?thesis by (auto simp: iov_advance_data iov_ok_def split: if_splits)
    next
      case False
      obtain ws j where a: "adapt_iov (length vs) (rc - iov_len v) vs = (ws, j)" by force
      have l: "length (iov_data v) = iov_len v" using 1 by (simp add: iov_ok_def)
      show ?thesis using 1 False a l Cons.IH(1) [of "rc - iov_len v" ws j]
        by (auto split: if_splits)
    qed
  next
    case 2
    then show ?case
      using Cons.IH(2) [of "rc - iov_len v"]
      by (auto simp: iov_ok_def split: if_splits prod.splits)
  next
    case 3
    then show ?case
      using Cons.IH(3) [of "rc - iov_len v"]
      by (auto simp: iov_ok_def split: if_splits prod.splits)
  }
qed auto

lemma sendiov_finishes:
  assumes "finishes m (sk_calls s) = Some cs" "bs = iov_bytes (take cnt (drop off inp))"
    "m = length bs" "sent + m = total_len" "0 < m"
  shows "\<exists>e. sendiov_loop inp off cnt sent total_len s =
    Some (False, s\<lparr> sk_out := sk_out s @ bs, sk_calls := cs, sk_errno := e \<rparr>)"
  using assms
proof (induction m "sk_calls s" arbitrary: s rule: finishes.induct)
  case (2 m n cs')
  have calls: "sk_calls s = Did n # cs'" using "2.hyps" by simp
  with 2 show ?case
    by (subst sendiov_loop.simps)
      (auto simp: sys_send_Did [OF calls] Let_def min_def intro!: exI [of _ "sk_errno s"] split: if_splits)
next
  case (3 m e0 cs')
  have calls: "sk_calls s = Failed e0 # cs'" using "3.hyps"(2) by simp
  with "3.prems" have e0: "e0 = EINTR" "finishes m cs' = Some cs" by (auto split: if_splits)
  let ?s = "s\<lparr> sk_errno := e0, sk_calls := cs' \<rparr>"
  from "3.hyps"(1) [OF e0(1), of ?s] e0 "3.prems" obtain e where
    "sendiov_loop inp off cnt sent total_len ?s = Some (False,
       ?s\<lparr> sk_out := sk_out s @ bs, sk_calls := cs, sk_errno := e \<rparr>)" by auto
  then show ?case using calls e0 "3.prems" by (subst sendiov_loop.simps) (auto simp: Let_def)
qed simp

lemma sendiov_loop_ok:
  assumes "splits h m (sk_calls s) = Some cs" "list_all iov_ok (v # vs)" "h = iov_len v"
    "m = length (iov_bytes (v # vs))" "sent + m = total_len" "0 < m"
  shows "\<exists>e. sendiov_loop (v # vs) 0 (Suc (length vs)) sent total_len s =
    Some (False, s\<lparr> sk_out := sk_out s @ iov_bytes (v # vs), sk_calls := cs, sk_errno := e \<rparr>)"
  using assms
proof (induction h m "sk_calls s" arbitrary: v sent s rule: splits.induct)
  case (2 h m n cs')
  let ?bs = "iov_bytes (v # vs)"
  have calls: "sk_calls s = Did n # cs'" using "2.hyps"(2) by simp
  consider "m \<le> n" | "n < m" "n < h" | "n < m" "h \<le> n" by linarith
  then show ?case
  proof cases
    case 1
    then show ?thesis using "2.prems" calls
      by (subst sendiov_loop.simps)
        (auto simp: sys_send_Did [OF calls] Let_def min_def intro!: exI [of _ "sk_errno s"])
  next
    case 2
    let ?v = "iov_advance n v"
    let ?s = "s\<lparr> sk_out := sk_out s @ take n ?bs, sk_calls := cs' \<rparr>"
    have v: "iov_ok v" "length (iov_data v) = iov_len v" using "2.prems"(2) by (simp_all add: iov_ok_def)
    have tk: "take n ?bs = take n (iov_data v)" and dr: "iov_bytes (?v # vs) = drop n ?bs"
      using 2 "2.prems"(3) v by (simp_all add: iov_advance_data)
    have ok: "list_all iov_ok (?v # vs)" "h - n = iov_len ?v" "m - n = length (iov_bytes (?v # vs))"
      using 2 "2.prems" v dr by (auto simp: iov_advance_data) (simp_all add: iov_advance_def)
    have sp: "splits (h - n) (m - n) (sk_calls ?s) = Some cs" using "2.prems"(1) calls 2 by simp
    have "\<not> m \<le> n" "sent + n + (m - n) = total_len" "0 < m - n" using 2 "2.prems" by auto
    from "2.hyps"(1) [OF this(1) 2(2) _ sp ok this(2,3)] obtain e where
      "sendiov_loop (?v # vs) 0 (Suc (length vs)) (sent + n) total_len ?s = Some (False,
         ?s\<lparr> sk_out := sk_out ?s @ iov_bytes (?v # vs), sk_calls := cs, sk_errno := e \<rparr>)" by auto
    moreover have "sendiov_loop (v # vs) 0 (Suc (length vs)) sent total_len s =
        sendiov_loop (?v # vs) 0 (Suc (length vs)) (sent + n) total_len ?s"
    proof (cases "n = 0")
      case True
      have "?v = v" using True by (cases v) (simp add: iov_advance_def map_option.identity)
      moreover have "sent < total_len" using "2.prems"(5,6) by simp
      ultimately show ?thesis using True
        by (subst sendiov_loop.simps) (simp add: sys_send_Did [OF calls] Let_def)
    next
      case False
      then show ?thesis using 2 "2.prems"
        by (subst sendiov_loop.simps) (simp add: sys_send_Did [OF calls] Let_def min_def)
    qed
    moreover have "sk_out ?s @ iov_bytes (?v # vs) = sk_out s @ ?bs" 
      unfolding dr using append_take_drop_id [of n ?bs] by (simp del: iov_bytes_simps append_take_drop_id)
    ultimately show ?thesis by (intro exI [of _ e]) simp
  next
    case 3
    obtain ws k where a: "adapt_iov (length (v # vs)) n (v # vs) = (ws, k)" by force
    have d: "iov_bytes (drop k ws) = drop n ?bs" "length ws = length (v # vs)" "k \<le> length (v # vs)"
      using adapt_iov_drop [OF "2.prems"(2) _ a] 3 "2.prems"(4) by auto
    let ?s = "s\<lparr> sk_out := sk_out s @ take n ?bs, sk_calls := cs' \<rparr>"
    have f: "finishes (m - n) (sk_calls ?s) = Some cs" using "2.prems"(1) calls 3 by simp
    have t: "iov_bytes (take (length (v # vs) - k) (drop k ws)) = drop n ?bs" using d by simp
    have l: "m - n = length (drop n ?bs)" "sent + n + (m - n) = total_len" "0 < m - n"
      using 3 "2.prems" by auto
    from sendiov_finishes [OF f t [symmetric] l] obtain e where
      "sendiov_loop ws k (length (v # vs) - k) (sent + n) total_len ?s = Some (False,
         ?s\<lparr> sk_out := sk_out ?s @ drop n ?bs, sk_calls := cs, sk_errno := e \<rparr>)" by blast
    moreover have "sendiov_loop (v # vs) 0 (Suc (length vs)) sent total_len s =
        sendiov_loop ws k (length (v # vs) - k) (sent + n) total_len ?s"
      using 3 "2.prems" a
      by (subst sendiov_loop.simps) (simp add: sys_send_Did [OF calls] Let_def min_def)
    moreover have "sk_out ?s @ drop n ?bs = sk_out s @ ?bs"
      using append_take_drop_id [of n ?bs] by (simp del: iov_bytes_simps append_take_drop_id)
    ultimately show ?thesis by (intro exI [of _ e]) simp
  qed
next
  case (3 h m e0 cs')
  have calls: "sk_calls s = Failed e0 # cs'" using "3.hyps"(2) by simp
  with "3.prems" have e0: "e0 = EINTR" "splits h m cs' = Some cs" by (auto split: if_splits)
  let ?s = "s\<lparr> sk_errno := e0, sk_calls := cs' \<rparr>"
  from "3.hyps"(1) [OF e0(1), of ?s v sent] e0 "3.prems" obtain e where
    "sendiov_loop (v # vs) 0 (Suc (length vs)) sent total_len ?s = Some (False,
       ?s\<lparr> sk_out := sk_out s @ iov_bytes (v # vs), sk_calls := cs, sk_errno := e \<rparr>)" by auto
  then show ?case using calls e0 "3.prems" by (subst sendiov_loop.simps) (auto simp: Let_def)
qed simp


lemma sendiov_ok:
  assumes "splits (iov_len v) m (sk_calls s) = Some cs" "list_all iov_ok (v # vs)"
    "m = length (iov_bytes (v # vs))" "0 < m"
  shows "\<exists>e. sendiov (v # vs) m s =
    Some (False, s\<lparr> sk_out := sk_out s @ iov_bytes (v # vs), sk_calls := cs, sk_errno := e \<rparr>)"
  using sendiov_loop_ok [OF assms(1,2) refl assms(3) _ assms(4), of 0 m] by (simp add: sendiov_def)

text \<open>
  When a part ends behind the first buffer and the next one does not take the rest, the
  accounting is wrong: the bytes of the second part are sent again, behind them the rest, and the
  function reports success.
\<close>

lemma sendiov_repeats:
  assumes "sk_calls s = Did (iov_len v) # Did k # Did n # cs" "iov_ok v" "iov_ok w"
    "0 < k" "k < iov_len v" "k < iov_len w" "iov_len w \<le> n" "m = iov_len v + iov_len w"
  shows "sendiov [v, w] m s =
    Some (False, s\<lparr> sk_out := sk_out s @ iov_data v @ take k (iov_data w) @ iov_data w, sk_calls := cs \<rparr>)"
proof -
  have l: "length (iov_data v) = iov_len v" "length (iov_data w) = iov_len w"
    using assms(2,3) by (simp_all add: iov_ok_def)
  let ?s1 = "s\<lparr> sk_out := sk_out s @ iov_data v, sk_calls := Did k # Did n # cs \<rparr>"
  let ?s2 = "s\<lparr> sk_out := sk_out s @ iov_data v @ take k (iov_data w), sk_calls := Did n # cs \<rparr>"
  have "sendiov_loop [v, w] 0 2 0 m s = sendiov_loop [v, w] 1 1 (iov_len v) m ?s1"
    using assms l by (subst sendiov_loop.simps) (simp add: sys_send_Did [OF assms(1)] Let_def numeral_2_eq_2)
  also have "\<dots> = sendiov_loop [iov_advance k v, w] 1 1 (iov_len v + k) m ?s2"
    using assms l by (subst sendiov_loop.simps) (simp add: sys_send_Did Let_def min_def)
  also have "\<dots> = Some (False, s\<lparr> sk_out := sk_out s @ iov_data v @ take k (iov_data w) @ iov_data w, sk_calls := cs \<rparr>)"
    using assms l by (subst sendiov_loop.simps) (simp add: sys_send_Did Let_def min_def)
  finally show ?thesis by (simp add: sendiov_def numeral_2_eq_2)
qed

section \<open>Calls that are answered\<close>

text \<open>
  The answers left over when a request of \<open>n\<close> bytes has been sent and a response of \<open>m\<close> bytes
  has been received into a buffer of \<open>len\<close> bytes.
\<close>

definition completes :: "nat \<Rightarrow> nat \<Rightarrow> nat \<Rightarrow> io_answer list \<Rightarrow> io_answer list option" where
  "completes n m len cs =
     (case splits sizeof_frame (sizeof_frame + n) cs of
        None \<Rightarrow> None
      | Some cs \<Rightarrow>
          (case transfers sizeof_frame cs of
             None \<Rightarrow> None
           | Some cs \<Rightarrow> if 0 < m \<and> 0 < len then transfers (min m len) cs else Some cs))"

text \<open>Return codes are 32-bit integers.\<close>

definition is_int32 :: "int \<Rightarrow> bool" where
  "is_int32 x \<longleftrightarrow> - (2 ^ 31) \<le> x \<and> x < 2 ^ 31"

lemma size_mod:
  assumes "session_platform pf" "n < 2 ^ 31"
  shows "nat (as_int32 (nat (int n mod 2 ^ 32)) mod 2 ^ size_bits pf) = n"
proof -
  have a: "as_int32 (nat (int n mod 2 ^ 32)) = int n"
    using assms(2) by (intro as_int32_inverse) auto
  have "int n < 2 ^ 32" using assms(2) by simp
  also have "(2::int) ^ 32 \<le> 2 ^ size_bits pf"
    using assms(1) by (intro power_increasing) (auto simp: session_platform_def)
  finally show ?thesis unfolding a by simp
qed

lemma recv_response_ok:
  assumes "session_platform pf" "sk_in s = frame_header (int (length body)) val @ body @ rest"
    "length body < 2 ^ 31" "is_int32 val" "transfers sizeof_frame (sk_calls s) = Some cs1"
    "0 < length body \<and> 0 < len \<longrightarrow> transfers (min (length body) len) cs1 = Some cs"
    "\<not> (0 < length body \<and> 0 < len) \<longrightarrow> cs1 = cs"
  shows "\<exists>e bss. recv_response pf (if 0 < len then [len] else []) s =
      Some (False, Some val, bss,
        s\<lparr> sk_in := drop len body @ rest, sk_calls := cs, sk_errno := e \<rparr>) \<and>
    concat bss = take len body"
proof -
  let ?h = "frame_header (int (length body)) val"
  have fh: "length ?h = sizeof_frame" by simp
  obtain e where e: "cio_recvAll sizeof_frame s = Some (False, ?h,
      s\<lparr> sk_in := body @ rest, sk_calls := cs1, sk_errno := e \<rparr>)"
    using recvAll_ok [OF assms(5)] assms(2) by (auto simp: sizeof_frame_def)
  let ?s1 = "s\<lparr> sk_in := body @ rest, sk_calls := cs1, sk_errno := e \<rparr>"
  have f: "of_le (take 4 ?h) = SB_FRAME_MAGIC"
    "as_int32 (of_le (take 4 (drop 8 ?h))) = val"
    "nat (as_int32 (of_le (take 4 (drop 4 ?h))) mod 2 ^ size_bits pf) = length body"
    using frame_header_fields [of "int (length body)" val "[]"] assms(4)
      size_mod [OF assms(1,3)] as_int32_inverse [of val] by (simp_all add: is_int32_def)
  show ?thesis
  proof (cases "0 < length body \<and> 0 < len")
    case True
    from recvAll_ok [of "min (length body) len" ?s1 cs] True assms(6) obtain e' where
      "cio_recvAll (min (length body) len) ?s1 = Some (False, take len body,
         ?s1\<lparr> sk_in := drop len body @ rest, sk_calls := cs, sk_errno := e' \<rparr>)"
      by (auto simp: min_def split: if_splits)
    then show ?thesis using e f True assms(3)
      by (auto simp: recv_response_def Let_def min_def split: if_splits)
  next
    case False
    then show ?thesis using e f assms(7) by (auto simp: recv_response_def Let_def split: list.splits)
  qed
qed

text \<open>
  A call whose request is sent in acceptable parts and whose response arrives: the request frame is
  written, the return code is that of the response, its body overwrites the memory as far as the
  buffer goes, and what does not fit is left on the socket.
\<close>

lemma sendAndReceive_ok:
  assumes "session_platform pf" "inputlen \<le> length ptr"
    "sk_in s = frame_header (int (length body)) val @ body @ rest"
    "length body < 2 ^ 31" "is_int32 val"
    "completes inputlen (length body) outputlen (sk_calls s) = Some cs"
  shows "\<exists>e. sendAndReceive pf cmd ptr inputlen outputlen s =
    Some (0, Some val, overwrite ptr 0 (take outputlen body),
      s\<lparr> sk_out := sk_out s @ request_frame cmd (take inputlen ptr),
         sk_in := drop outputlen body @ rest, sk_calls := cs, sk_errno := e \<rparr>)"
proof -
  let ?f = "\<lparr> iov_base = Some (INIT_REQUEST_FRAME (int inputlen) cmd), iov_len = sizeof_frame \<rparr>"
  let ?v = "\<lparr> iov_base = Some ptr, iov_len = inputlen \<rparr>"
  from assms(6) obtain cs0 cs1 where c: "splits sizeof_frame (sizeof_frame + inputlen) (sk_calls s) = Some cs0"
    "transfers sizeof_frame cs0 = Some cs1"
    "0 < length body \<and> 0 < outputlen \<longrightarrow> transfers (min (length body) outputlen) cs1 = Some cs"
    "\<not> (0 < length body \<and> 0 < outputlen) \<longrightarrow> cs1 = cs"
    by (auto simp: completes_def split: option.splits if_splits)
  have b: "iov_bytes [?f, ?v] = request_frame cmd (take inputlen ptr)" "list_all iov_ok [?f, ?v]"
    using assms(2) by (simp_all add: iov_data_def INIT_REQUEST_FRAME_def request_frame_def iov_ok_def)
  have l: "length (iov_bytes [?f, ?v]) = sizeof_frame + inputlen" unfolding b(1) using assms(2) by simp
  let ?s0 = "s\<lparr> sk_errno := EINVAL \<rparr>"
  from sendiov_ok [of ?f "sizeof_frame + inputlen" ?s0 cs0 "[?v]"] c(1) b(2) l obtain e0 where s:
    "sendiov [?f, ?v] (sizeof_frame + inputlen) ?s0 = Some (False,
       s\<lparr> sk_out := sk_out s @ request_frame cmd (take inputlen ptr), sk_calls := cs0, sk_errno := e0 \<rparr>)"
    unfolding b(1) by (auto simp: sizeof_frame_def)
  let ?s1 = "s\<lparr> sk_out := sk_out s @ request_frame cmd (take inputlen ptr), sk_calls := cs0, sk_errno := e0 \<rparr>"
  from recv_response_ok [OF assms(1) _ assms(4,5) _ c(3,4), of ?s1 rest] assms(3) c(2) obtain e bss where
    "recv_response pf (if 0 < outputlen then [outputlen] else []) ?s1 = Some (False, Some val, bss,
       ?s1\<lparr> sk_in := drop outputlen body @ rest, sk_calls := cs, sk_errno := e \<rparr>)"
    "concat bss = take outputlen body" by auto
  with s show ?thesis
    by (auto simp: sendAndReceive_def sendAndReceiveV_def Let_def add.commute)
qed

end
