(* ===== verification/Wire_Format.thy ===== *)
theory Wire_Format
  imports Broker_Responses Client_Session
begin

text \<open>
  The argument structures of \<^verbatim>\<open>include/dsi/private/servicebroker.h\<close> as bytes: where the compiler
  puts their fields (little endian, 4-byte alignment, 8-byte alignment of \<^verbatim>\<open>SPartyID\<close>), how
  \<^verbatim>\<open>Servicebroker::dispatch\<close> reads a request out of its receive buffer, and the bytes of the
  responses. With them the dispatcher becomes the \<open>broker_if\<close> of the sessions of \<open>Client_Session\<close>.
\<close>

section \<open>Commands\<close>

definition DCMD_FND_REGISTER_INTERFACE :: u32 where "DCMD_FND_REGISTER_INTERFACE = DIOTF 0 280"
definition DCMD_FND_UNREGISTER_INTERFACE :: u32 where "DCMD_FND_UNREGISTER_INTERFACE = DIOTF 1 16"
definition DCMD_FND_ATTACH_INTERFACE :: u32 where "DCMD_FND_ATTACH_INTERFACE = DIOTF 2 264"
definition DCMD_FND_DETACH_INTERFACE :: u32 where "DCMD_FND_DETACH_INTERFACE = DIOTF 3 16"
definition DCMD_FND_NOTIFY_SERVER_DISCONNECT :: u32 where "DCMD_FND_NOTIFY_SERVER_DISCONNECT = DIOTF 4 32"
definition DCMD_FND_NOTIFY_SERVER_AVAILABLE :: u32 where "DCMD_FND_NOTIFY_SERVER_AVAILABLE = DIOTF 5 280"
definition DCMD_FND_NOTIFY_SERVER_AVAILABLE_EX :: u32 where "DCMD_FND_NOTIFY_SERVER_AVAILABLE_EX = DIOTF 5 8"
definition DCMD_FND_NOTIFY_CLIENT_DETACH :: u32 where "DCMD_FND_NOTIFY_CLIENT_DETACH = DIOTF 6 32"
definition DCMD_FND_CLEAR_NOTIFICATION :: u32 where "DCMD_FND_CLEAR_NOTIFICATION = DIOTF 7 8"
definition DCMD_FND_GET_INTERFACELIST :: u32 where "DCMD_FND_GET_INTERFACELIST = DIOTF 8 260"
definition DCMD_FND_NOTIFY_INTERFACELIST_CHANGE :: u32 where "DCMD_FND_NOTIFY_INTERFACELIST_CHANGE = DIOTF 9 20"
definition DCMD_FND_MATCH_INTERFACELIST :: u32 where "DCMD_FND_MATCH_INTERFACELIST = DIOTF 10 264"
definition DCMD_FND_NOTIFY_INTERFACELIST_MATCH :: u32 where "DCMD_FND_NOTIFY_INTERFACELIST_MATCH = DIOTF 11 276"
definition DCMD_FND_REGISTER_INTERFACE_EX :: u32 where "DCMD_FND_REGISTER_INTERFACE_EX = DIOTF 12 24"
definition DCMD_FND_REGISTER_INTERFACE_GROUPID :: u32 where "DCMD_FND_REGISTER_INTERFACE_GROUPID = DIOTF 13 288"
definition DCMD_FND_REGISTER_MASTER_INTERFACE_EX :: u32 where "DCMD_FND_REGISTER_MASTER_INTERFACE_EX = DIOTF 30 8"
definition DCMD_FND_MASTER_PING :: u32 where "DCMD_FND_MASTER_PING = DION 31"
definition DCMD_FND_MASTER_PING_ID :: u32 where "DCMD_FND_MASTER_PING_ID = DIOTF 32 12"
definition DCMD_FND_ATTACH_INTERFACE_EXTENDED :: u32 where "DCMD_FND_ATTACH_INTERFACE_EXTENDED = DIOTF 35 280"
definition DCMD_FND_GET_SERVER_INFORMATION :: u32 where "DCMD_FND_GET_SERVER_INFORMATION = DIOTF 37 264"

lemmas DCMD_defs = DCMD_FND_REGISTER_INTERFACE_def DCMD_FND_UNREGISTER_INTERFACE_def
  DCMD_FND_ATTACH_INTERFACE_def DCMD_FND_DETACH_INTERFACE_def DCMD_FND_NOTIFY_SERVER_DISCONNECT_def
  DCMD_FND_NOTIFY_SERVER_AVAILABLE_def DCMD_FND_NOTIFY_SERVER_AVAILABLE_EX_def
  DCMD_FND_NOTIFY_CLIENT_DETACH_def DCMD_FND_CLEAR_NOTIFICATION_def DCMD_FND_GET_INTERFACELIST_def
  DCMD_FND_NOTIFY_INTERFACELIST_CHANGE_def DCMD_FND_MATCH_INTERFACELIST_def
  DCMD_FND_NOTIFY_INTERFACELIST_MATCH_def DCMD_FND_REGISTER_INTERFACE_EX_def
  DCMD_FND_REGISTER_INTERFACE_GROUPID_def DCMD_FND_REGISTER_MASTER_INTERFACE_EX_def
  DCMD_FND_MASTER_PING_def DCMD_FND_MASTER_PING_ID_def DCMD_FND_ATTACH_INTERFACE_EXTENDED_def
  DCMD_FND_GET_SERVER_INFORMATION_def

section \<open>Fields in memory\<close>

definition put_u16 :: "u16 \<Rightarrow> char list" where
  "put_u16 w = le_bytes 2 (unat w)"

definition put_u32 :: "u32 \<Rightarrow> char list" where
  "put_u32 w = le_bytes 4 (unat w)"

definition get_u16 :: "char list \<Rightarrow> nat \<Rightarrow> u16" where
  "get_u16 mem off = of_nat (of_le (take 2 (drop off mem)))"

definition get_u32 :: "char list \<Rightarrow> nat \<Rightarrow> u32" where
  "get_u32 mem off = of_nat (of_le (take 4 (drop off mem)))"

definition put_version :: "SFNDInterfaceVersion \<Rightarrow> char list" where
  "put_version v = put_u16 (v_major v) @ put_u16 (v_minor v)"

definition get_version :: "char list \<Rightarrow> nat \<Rightarrow> SFNDInterfaceVersion" where
  "get_version mem off = \<lparr> v_major = get_u16 mem off, v_minor = get_u16 mem (off + 2) \<rparr>"

definition put_party :: "SPartyID \<Rightarrow> char list" where
  "put_party p = put_u32 (localID p) @ put_u32 (extendedID p)"

definition get_party :: "char list \<Rightarrow> nat \<Rightarrow> SPartyID" where
  "get_party mem off = \<lparr> localID = get_u32 mem off, extendedID = get_u32 mem (off + 4) \<rparr>"

definition put_pulse :: "SFNDPulseInfo \<Rightarrow> char list" where
  "put_pulse p = put_u32 (p_code p) @ put_u32 (p_value p) @ put_u32 (p_chid p) @ put_u32 (p_pid p)"

definition get_pulse :: "char list \<Rightarrow> nat \<Rightarrow> SFNDPulseInfo" where
  "get_pulse mem off =
     \<lparr> p_code = get_u32 mem off, p_value = get_u32 mem (off + 4), p_chid = get_u32 mem (off + 8),
       p_pid = get_u32 mem (off + 12) \<rparr>"

definition put_channel :: "SFNDChannelInfo \<Rightarrow> char list" where
  "put_channel c = put_u32 (c_nid c) @ put_u32 (c_pid c) @ put_u32 (c_chid c)"

definition get_channel :: "char list \<Rightarrow> nat \<Rightarrow> SFNDChannelInfo" where
  "get_channel mem off =
     \<lparr> c_nid = get_u32 mem off, c_pid = get_u32 mem (off + 4), c_chid = get_u32 mem (off + 8) \<rparr>"

definition put_connection :: "SConnectionInfo \<Rightarrow> char list" where
  "put_connection ci =
     put_version (ci_version ci) @ put_channel (ci_channel ci) @ put_party (ci_serverID ci) @
     put_party (ci_clientID ci)"

definition get_connection :: "char list \<Rightarrow> nat \<Rightarrow> SConnectionInfo" where
  "get_connection mem off =
     \<lparr> ci_version = get_version mem off, ci_channel = get_channel mem (off + 4),
       ci_serverID = get_party mem (off + 16), ci_clientID = get_party mem (off + 24) \<rparr>"

text \<open>The name is the memory from its first byte on, as everywhere in the model.\<close>

definition get_ifDescription :: "char list \<Rightarrow> nat \<Rightarrow> SFNDInterfaceDescription" where
  "get_ifDescription mem off =
     \<lparr> sf_version = get_version mem off, sf_name = drop (off + 4) mem \<rparr>"

definition put_ifDescription :: "SFNDInterfaceDescription \<Rightarrow> char list" where
  "put_ifDescription d =
     put_version (sf_version d) @ take NAME_SIZE (sf_name d @ replicate NAME_SIZE NUL)"

definition sizeof_ifDescription :: nat where
  "sizeof_ifDescription = 260"

definition get_impl :: "char list \<Rightarrow> nat \<Rightarrow> SFNDImplementationVersion" where
  "get_impl mem off =
     \<lparr> iv_major = get_u16 mem off, iv_minor = get_u16 mem (off + 2), iv_patch = get_u16 mem (off + 4) \<rparr>"

definition get_ifDescriptionEx :: "char list \<Rightarrow> SFNDInterfaceDescriptionEx" where
  "get_ifDescriptionEx mem =
     \<lparr> dx_impl = get_impl mem 0, dx_chid = get_u32 mem 8, dx_pid = get_u32 mem 12,
       dx_nd = get_u32 mem 16, dx_serverID = get_party mem 24,
       dx_ifDescription = get_ifDescription mem 32 \<rparr>"

definition sizeof_ifDescriptionEx :: nat where
  "sizeof_ifDescriptionEx = 296"

definition get_notificationDescription :: "char list \<Rightarrow> SFNDNotificationDescription" where
  "get_notificationDescription mem =
     \<lparr> nd_cookie = get_u32 mem 0, nd_pulse = get_pulse mem 4, nd_ifDescription = get_ifDescription mem 20 \<rparr>"

definition sizeof_notificationDescription :: nat where
  "sizeof_notificationDescription = 280"

section \<open>Reading a request\<close>

text \<open>
  What the stack holds where \<^verbatim>\<open>rcvBuffer\<close> and the variable for the elements of a list are, before they
  are written.
\<close>

record stack =
  st_rcvBuffer :: "char list"
  st_element :: "char list"

definition rcvBuffer :: "stack \<Rightarrow> char list \<Rightarrow> char list" where
  "rcvBuffer st body = overwrite (st_rcvBuffer st) 0 (take rcvBuffer_size body)"

text \<open>
  The elements behind the fixed part, as \<open>readAncillaryData\<close> delivers them one after the other
  into the same variable: a last incomplete one keeps the end of its predecessor.
\<close>

function anc_elements :: "nat \<Rightarrow> char list \<Rightarrow> char list \<Rightarrow> char list list" where
  "anc_elements sz var rest =
     (if rest = [] \<or> sz = 0 then []
      else let var' = overwrite var 0 (take sz rest)
           in var' # anc_elements sz var' (drop sz rest))"
  by pat_completeness auto
termination
  by (relation "measure (\<lambda>(sz, var, rest). length rest)") auto

declare anc_elements.simps [simp del]

definition decode_request :: "stack \<Rightarrow> nat \<Rightarrow> char list \<Rightarrow> request" where
  "decode_request st code body =
     (let cmd = of_nat code :: u32;
          mem = rcvBuffer st body;
          elems = (\<lambda>sz off. anc_elements sz (st_element st) (drop off body))
      in if cmd = DCMD_FND_MASTER_PING then MASTER_PING
         else if cmd = DCMD_FND_REGISTER_INTERFACE
         then REGISTER_INTERFACE (get_ifDescription mem 4) (get_u32 mem 272) (get_u32 mem 276)
         else if cmd = DCMD_FND_REGISTER_INTERFACE_EX
         then REGISTER_INTERFACE_EX (get_u32 mem 12) (get_u32 mem 16) (get_u32 mem 20)
                (map (\<lambda>m. get_ifDescription m 0) (elems sizeof_ifDescription 24))
         else if cmd = DCMD_FND_REGISTER_INTERFACE_GROUPID
         then REGISTER_INTERFACE_GROUPID (get_ifDescription mem 4) (get_u32 mem 272) (get_u32 mem 276)
                (get_u32 mem 280)
         else if cmd = DCMD_FND_UNREGISTER_INTERFACE then UNREGISTER_INTERFACE (get_party mem 8)
         else if cmd = DCMD_FND_ATTACH_INTERFACE then ATTACH_INTERFACE (get_ifDescription mem 4)
         else if cmd = DCMD_FND_ATTACH_INTERFACE_EXTENDED
         then ATTACH_INTERFACE_EXTENDED (get_pulse mem 4) (get_ifDescription mem 20)
         else if cmd = DCMD_FND_GET_SERVER_INFORMATION
         then GET_SERVER_INFORMATION (get_ifDescription mem 4)
         else if cmd = DCMD_FND_DETACH_INTERFACE then DETACH_INTERFACE (get_party mem 8)
         else if cmd = DCMD_FND_NOTIFY_SERVER_DISCONNECT
         then NOTIFY_SERVER_DISCONNECT (get_party mem 8) (get_pulse mem 16)
         else if cmd = DCMD_FND_NOTIFY_SERVER_AVAILABLE
         then NOTIFY_SERVER_AVAILABLE (get_pulse mem 4) (get_ifDescription mem 20)
         else if cmd = DCMD_FND_NOTIFY_SERVER_AVAILABLE_EX
         then NOTIFY_SERVER_AVAILABLE_EX (get_u32 mem 4)
                (map get_notificationDescription (elems sizeof_notificationDescription 8))
         else if cmd = DCMD_FND_NOTIFY_CLIENT_DETACH
         then NOTIFY_CLIENT_DETACH (get_party mem 8) (get_pulse mem 16)
         else if cmd = DCMD_FND_CLEAR_NOTIFICATION then CLEAR_NOTIFICATION (get_u32 mem 4)
         else if cmd = DCMD_FND_REGISTER_MASTER_INTERFACE_EX
         then REGISTER_MASTER_INTERFACE_EX (get_u32 mem 4)
                (map get_ifDescriptionEx (elems sizeof_ifDescriptionEx 8))
         else if cmd = DCMD_FND_GET_INTERFACELIST then GET_INTERFACELIST (get_u32 mem 4)
         else if cmd = DCMD_FND_NOTIFY_INTERFACELIST_CHANGE
         then NOTIFY_INTERFACELIST_CHANGE (get_pulse mem 4)
         else if cmd = DCMD_FND_MATCH_INTERFACELIST
         then MATCH_INTERFACELIST (get_u32 mem 4) (c_str (drop 8 mem))
         else if cmd = DCMD_FND_NOTIFY_INTERFACELIST_MATCH
         then NOTIFY_INTERFACELIST_MATCH (get_pulse mem 4) (c_str (drop 20 mem))
         else if cmd = DCMD_FND_MASTER_PING_ID then MASTER_PING_ID (get_u32 mem 4)
         else OTHER_COMMAND cmd)"

section \<open>Writing a response\<close>

text \<open>
  The output structures share the receive buffer with the request: what a handler does not write,
  padding included, still holds the bytes of the request.
\<close>

fun body_bytes :: "char list \<Rightarrow> payload \<Rightarrow> char list" where
  "body_bytes mem (BodyServerID p) = put_party p"
| "body_bytes mem (BodyConnection ci) = put_connection ci"
| "body_bytes mem (BodyAttachExtended (Some ci) i) =
     put_connection ci @ put_u32 i @ take 4 (drop 36 mem)"
| "body_bytes mem (BodyAttachExtended None i) = take 32 mem @ put_u32 i @ take 4 (drop 36 mem)"
| "body_bytes mem (BodyServerInfo si) =
     put_channel (si_channel si) @ take 4 (drop 12 mem) @ put_party (si_serverID si)"
| "body_bytes mem (BodyNotificationID i) = put_u32 i"

fun anc_bytes :: "ancillary \<Rightarrow> char list" where
  "anc_bytes (AncServerID p) = put_party p"
| "anc_bytes (AncNotificationID n) = put_u32 (ni_cookie n) @ put_u32 (ni_notificationID n)"
| "anc_bytes (AncInterface d) = put_ifDescription d"

definition message_answer :: "char list \<Rightarrow> message \<Rightarrow> answer" where
  "message_answer mem m =
     (if m_state m = State_DEFERRED then Defer_answer
      else Answer (m_returncode m) (map anc_bytes (m_ancillary m)) (map_option (body_bytes mem) (m_body m)))"

text \<open>\<^verbatim>\<open>Servicebroker::dispatch(cmd, context, data)\<close> on the bytes of a request.\<close>

definition sb_dispatch :: "env \<Rightarrow> stack \<Rightarrow> addr \<Rightarrow> nat \<Rightarrow> char list \<Rightarrow> broker \<Rightarrow> answer \<times> broker" where
  "sb_dispatch E st a code body b =
     (let mem = rcvBuffer st body;
          (known, b', m) =
            dispatch E a (decode_request st code body) (get_version mem 0) (length body) b new_message
      in (message_answer mem m, b'))"

text \<open>The broker as the sessions see it; a client object is known by the number of its connection.\<close>

definition sb_interface :: "env \<Rightarrow> stack \<Rightarrow> broker broker_if" where
  "sb_interface E st =
     \<lparr> bi_dispatch = sb_dispatch E st, bi_extendedID = (\<lambda>b a. sint (ocb_extendedID (ocb b a))),
       bi_clear = clear_connection E \<rparr>"

section \<open>Layout\<close>

named_theorems layout \<open>lengths and contents of encoded fields\<close>

lemma length_put [simp, layout]:
  "length (put_u16 a) = 2" "length (put_u32 w) = 4" "length (put_version v) = 4"
  "length (put_party p) = 8" "length (put_pulse q) = 16" "length (put_channel c) = 12"
  "length (put_connection ci) = 32" "length (put_ifDescription d) = 260"
  by (simp_all add: put_u16_def put_u32_def put_version_def put_party_def put_pulse_def put_channel_def
      put_connection_def put_ifDescription_def NAME_SIZE_def)

lemma length_strncpy [simp, layout]: "length (strncpy n s) = n"
  by (simp add: strncpy_def)

lemma word_of_bytes [simp]:
  "of_nat (of_le (put_u16 a)) = a" "of_nat (of_le (put_u32 w)) = w"
  using unsigned_less [where 'a = nat, of a] unsigned_less [where 'a = nat, of w] by (simp_all add: put_u16_def put_u32_def)

text \<open>Reading a field that was written is reading the value, wherever it is in memory.\<close>

lemma get_put:
  "get_u16 (put_u16 a @ rest) 0 = a" "get_u32 (put_u32 w @ rest) 0 = w"
  "get_version (put_version v @ rest) 0 = v" "get_party (put_party p @ rest) 0 = p"
  "get_pulse (put_pulse q @ rest) 0 = q" "get_channel (put_channel c @ rest) 0 = c"
  "get_connection (put_connection ci @ rest) 0 = ci"
  by (simp_all add: get_u16_def get_u32_def get_version_def put_version_def get_party_def put_party_def
      get_pulse_def put_pulse_def get_channel_def put_channel_def get_connection_def put_connection_def)

lemma get_drop:
  "get_u16 mem off = get_u16 (drop off mem) 0" "get_u32 mem off = get_u32 (drop off mem) 0"
  "get_version mem off = get_version (drop off mem) 0" "get_party mem off = get_party (drop off mem) 0"
  "get_pulse mem off = get_pulse (drop off mem) 0" "get_channel mem off = get_channel (drop off mem) 0"
  "get_connection mem off = get_connection (drop off mem) 0"
  by (simp_all add: get_u16_def get_u32_def get_version_def get_party_def get_pulse_def get_channel_def
      get_connection_def add.commute)

lemma body_bytes_length [simp]: "40 \<le> length mem \<Longrightarrow> length (body_bytes mem p) = body_size p"
  by (cases "(mem, p)" rule: body_bytes.cases) (simp_all add: put_channel_def put_party_def)

lemma anc_bytes_length [simp]: "length (anc_bytes x) = ancillary_size x"
  by (cases x) simp_all

lemma rcvBuffer_short:
  "length body \<le> rcvBuffer_size \<Longrightarrow> rcvBuffer st body = body @ drop (length body) (st_rcvBuffer st)"
  by (simp add: rcvBuffer_def overwrite_def)

text \<open>The elements of a list that arrived completely.\<close>

lemma anc_elements_exact:
  assumes "list_all (\<lambda>x. length x = sz) xs" "0 < sz"
  shows "length (anc_elements sz var (concat xs)) = length xs \<and>
    (\<forall>i < length xs. take sz (anc_elements sz var (concat xs) ! i) = xs ! i)"
  using assms
proof (induction xs arbitrary: var)
  case Nil
  then show ?case by (simp add: anc_elements.simps)
next
  case (Cons x xs)
  then have x: "x \<noteq> []" "length x = sz" by auto
  show ?case
    using Cons x by (subst (1 2) anc_elements.simps) (auto simp: Let_def overwrite_def less_Suc_eq_0_disj)
qed

section \<open>Dispatching bytes\<close>

definition open_message :: message where
  "open_message = new_message\<lparr> m_state := State_PROCESSING \<rparr>"

lemma open_message_open [simp]: "msg_open open_message"
  by (simp add: open_message_def msg_open_def new_message_def)

lemma open_message_fields [simp]:
  "m_ancillary open_message = []" "m_body open_message = None" "m_state open_message = State_PROCESSING"
  by (simp_all add: open_message_def new_message_def)

text \<open>A request of the right version and length is given to its handler.\<close>

lemma sb_dispatch_handled:
  assumes "decode_request st code body = req" "req \<noteq> MASTER_PING" "\<forall>d. req \<noteq> OTHER_COMMAND d"
    "check_version (get_version (rcvBuffer st body) 0)" "4 \<le> length body"
    "length_ok req (buffer_read (length body) rcvBuffer_size)" "\<not> bad_match E req"
    "handle_request E a req b open_message = (b', m)"
  shows "sb_dispatch E st a code body b = (message_answer (rcvBuffer st body) m, b')"
proof -
  have r: "readData (length body) rcvBuffer_size new_message =
      (buffer_read (length body) rcvBuffer_size, open_message)"
    by (simp add: readData_def open_message_def new_message_def)
  have n: "4 \<le> buffer_read (length body) rcvBuffer_size"
    using assms(5) by (auto simp: buffer_read_def rcvBuffer_size_def Let_def)
  have "msg_done m" using handle_request_done [OF open_message_open assms(7,2,3), of a b] assms(8) by simp
  then have "m_state m = State_SENT \<or> m_state m = State_DEFERRED" by (simp add: msg_done_def)
  then show ?thesis
    using assms n r by (auto simp: sb_dispatch_def dispatch_known Let_def)
qed

text \<open>A request of the wrong length is answered with an internal error.\<close>

lemma sb_dispatch_wrong_length:
  assumes "decode_request st code body = req" "req \<noteq> MASTER_PING" "\<forall>d. req \<noteq> OTHER_COMMAND d"
    "check_version (get_version (rcvBuffer st body) 0)" "4 \<le> length body"
    "\<not> length_ok req (buffer_read (length body) rcvBuffer_size)"
  shows "sb_dispatch E st a code body b = (Answer (status_code FNDInternalError) [] None, b)"
proof -
  have r: "readData (length body) rcvBuffer_size new_message =
      (buffer_read (length body) rcvBuffer_size, open_message)"
    by (simp add: readData_def open_message_def new_message_def)
  have n: "4 \<le> buffer_read (length body) rcvBuffer_size"
    using assms(5) by (auto simp: buffer_read_def rcvBuffer_size_def Let_def)
  then show ?thesis
    using assms n r
    by (auto simp: sb_dispatch_def dispatch_known Let_def message_answer_def prepareResponse_def)
qed

end
