(* ===== verification/Client_Lib.thy ===== *)
theory Client_Lib
  imports Client_Io Wire_Format
begin

text \<open>
  The client library \<^verbatim>\<open>src/servicebroker/clientlib.c\<close>: every function fills an argument structure,
  exchanges it with the servicebroker and copies what it needs from the response. Pointers the
  caller passes are options (a null pointer is \<open>None\<close>), or flags where only a result is stored
  through them; a result is the return value, what was stored through the output pointer, if
  anything, and the socket. Writing past the end of a buffer is the error \<open>Buffer_overrun\<close>.
\<close>

section \<open>The process around the library\<close>

text \<open>Answers of the operating system; \<^verbatim>\<open>socket\<close> gives a descriptor or -1, failures carry \<^verbatim>\<open>errno\<close>.\<close>

record client_os =
  os_getenv :: "string \<Rightarrow> string option"
  os_getpid :: u32
  os_getgrnam :: "string \<Rightarrow> u32 option"
  os_socket :: "int + int" \<comment> \<open>\<open>Inl\<close> errno, \<open>Inr\<close> descriptor\<close>
  os_connect :: "string \<Rightarrow> int option"
  os_bind :: "char list \<Rightarrow> int option"

datatype lib_event = Connected string | Bound "char list" | Closed_fd int

datatype api_error = Buffer_overrun

definition UNIX_PATH_MAX :: nat where "UNIX_PATH_MAX = 108"

definition FND_SERVICEBROKER_ROOT :: string where
  "FND_SERVICEBROKER_ROOT = ''/var/run/servicebroker/''"

text \<open>The credentials go with the first packet as ancillary data, which the socket model leaves out.\<close>

definition SBOpen :: "client_os \<Rightarrow> string option \<Rightarrow> sock \<Rightarrow> (int \<times> lib_event list \<times> sock) option" where
  "SBOpen os filename s =
     (let filename = (case os_getenv os ''SB_PATH'' of Some p \<Rightarrow> Some p | None \<Rightarrow> filename);
          s = s\<lparr> sk_errno := EINVAL \<rparr>
      in case filename of
           None \<Rightarrow> Some (- 1, [], s)
         | Some f \<Rightarrow>
             if length f + length FND_SERVICEBROKER_ROOT < UNIX_PATH_MAX then
               (case os_socket os of
                  Inl e \<Rightarrow> Some (- 1, [], s\<lparr> sk_errno := e \<rparr>)
                | Inr fd \<Rightarrow>
                    let path = FND_SERVICEBROKER_ROOT @ f
                    in case os_connect os path of
                         Some e \<Rightarrow> Some (- 1, [Closed_fd fd], s\<lparr> sk_errno := e \<rparr>)
                       | None \<Rightarrow>
                           (case sendAuthPackage (os_getpid os) s of
                              None \<Rightarrow> None
                            | Some (ret, s') \<Rightarrow>
                                if ret \<noteq> 0 then Some (- 1, [Connected path, Closed_fd fd], s')
                                else Some (fd, [Connected path], s')))
             else Some (- 1, [], s\<lparr> sk_errno := EINVAL \<rparr>))"

text \<open>
  \<open>make_unix_path\<close> zeroes the buffer of \<open>len\<close> bytes and prints behind its first byte;
  \<open>None\<close> in the first component is the null pointer, in the second the buffer is overrun.
\<close>

definition make_unix_path :: "nat \<Rightarrow> int \<Rightarrow> int \<Rightarrow> (api_error + char list) option" where
  "make_unix_path len pid chid =
     (if 20 < len then
        let text = print_d pid @ ''/'' @ print_d chid
        in if length text + 2 \<le> len
           then Some (Inr ([NUL] @ text @ replicate (len - length text - 1) NUL))
           else Some (Inl Buffer_overrun)
      else None)"

definition SBOpenNotificationHandle :: "client_os \<Rightarrow> int \<times> lib_event list" where
  "SBOpenNotificationHandle os =
     (case os_socket os of
        Inl e \<Rightarrow> (- 1, [])
      | Inr fd \<Rightarrow>
          if 0 < fd then
            (case make_unix_path UNIX_PATH_MAX (sint (os_getpid os)) fd of
               Some (Inr path) \<Rightarrow>
                 (case os_bind os path of
                    Some e \<Rightarrow> (- 1, [Closed_fd fd])
                  | None \<Rightarrow> (fd, [Bound path]))
             | _ \<Rightarrow> (fd, []))
          else (fd, []))"

text \<open>\<open>SBClose\<close> repeats \<^verbatim>\<open>close\<close> while it is interrupted; the answers are the list.\<close>

fun SBClose :: "io_answer list \<Rightarrow> io_answer list option" where
  "SBClose [] = None"
| "SBClose (Did n # cs) = Some cs"
| "SBClose (Failed e # cs) = (if e = EINTR then SBClose cs else Some cs)"

section \<open>Filling argument structures\<close>

definition DSI_SERVICEBROKER_VERSION :: SFNDInterfaceVersion where
  "DSI_SERVICEBROKER_VERSION = \<lparr> v_major = 4, v_minor = 0 \<rparr>"

definition SBGetDSIVersion :: SFNDInterfaceVersion where
  "SBGetDSIVersion = DSI_SERVICEBROKER_VERSION"

text \<open>\<^verbatim>\<open>memset\<close> of \<open>n\<close> bytes at the beginning of the memory, and the version.\<close>

definition INIT_ARGUMENT :: "nat \<Rightarrow> char list \<Rightarrow> char list" where
  "INIT_ARGUMENT n mem =
     overwrite (overwrite mem 0 (replicate n NUL)) 0 (put_version DSI_SERVICEBROKER_VERSION)"

text \<open>A structure on the stack: its old contents do not matter, \<open>INIT_ARGUMENT\<close> clears all of it.\<close>

definition new_argument :: "nat \<Rightarrow> char list" where
  "new_argument n = INIT_ARGUMENT n (replicate n NUL)"

definition version_of :: "int \<Rightarrow> int \<Rightarrow> SFNDInterfaceVersion" where
  "version_of majorVersion minorVersion =
     \<lparr> v_major = word_of_int majorVersion, v_minor = word_of_int minorVersion \<rparr>"

definition FILL_DESCRIPTION :: "nat \<Rightarrow> string \<Rightarrow> int \<Rightarrow> int \<Rightarrow> char list \<Rightarrow> char list" where
  "FILL_DESCRIPTION off ifname majorVersion minorVersion mem =
     overwrite (overwrite mem (off + 4) (strncpy NAME_SIZE ifname)) off
       (put_version (version_of majorVersion minorVersion))"

text \<open>\<^verbatim>\<open>strcat\<close> finds the end of the string and writes the suffix with its terminator there.\<close>

definition strcat :: "nat \<Rightarrow> string \<Rightarrow> char list \<Rightarrow> api_error + char list" where
  "strcat off suffix mem =
     (let p = off + length (c_str (drop off mem))
      in if p + length suffix < length mem then Inr (overwrite mem p (suffix @ [NUL]))
         else Inl Buffer_overrun)"

definition FILL_DESCRIPTION_TCP ::
  "nat \<Rightarrow> string \<Rightarrow> int \<Rightarrow> int \<Rightarrow> char list \<Rightarrow> api_error + char list" where
  "FILL_DESCRIPTION_TCP off ifname majorVersion minorVersion mem =
     (case strcat (off + 4) ''_tcp'' (overwrite mem (off + 4) (strncpy (NAME_SIZE - 4) ifname)) of
        Inl e \<Rightarrow> Inl e
      | Inr mem \<Rightarrow> Inr (overwrite mem off (put_version (version_of majorVersion minorVersion))))"

definition fill_pulse :: "client_os \<Rightarrow> nat \<Rightarrow> int \<Rightarrow> int \<Rightarrow> int \<Rightarrow> char list \<Rightarrow> char list" where
  "fill_pulse os off chid code val mem =
     overwrite mem off (put_pulse \<lparr> p_code = word_of_int code, p_value = word_of_int val,
                                    p_chid = word_of_int chid, p_pid = os_getpid os \<rparr>)"

section \<open>Calls\<close>

text \<open>The return code: -1 until the exchange has stored one.\<close>

definition stored_rc :: "int option \<Rightarrow> int" where
  "stored_rc rco = (case rco of None \<Rightarrow> - 1 | Some v \<Rightarrow> v)"

text \<open>The result is copied if the exchange succeeded with return code 0.\<close>

definition call_out ::
  "(char list \<Rightarrow> 'o) \<Rightarrow> int \<times> int option \<times> char list \<times> sock \<Rightarrow> int \<times> 'o option \<times> sock" where
  "call_out get = (\<lambda>(r, rco, mem, s).
     (stored_rc rco, if r = 0 \<and> stored_rc rco = 0 then Some (get mem) else None, s))"

definition no_call :: "sock \<Rightarrow> int \<times> 'o option \<times> sock" where
  "no_call s = (- 1, None, s\<lparr> sk_errno := EINVAL \<rparr>)"

definition lib_call ::
  "platform \<Rightarrow> u32 \<Rightarrow> char list \<Rightarrow> nat \<Rightarrow> nat \<Rightarrow> (char list \<Rightarrow> 'o) \<Rightarrow> sock \<Rightarrow> (int \<times> 'o option \<times> sock) option" where
  "lib_call pf cmd arg inlen outlen get s =
     map_option (call_out get) (sendAndReceive pf (sint cmd) arg inlen outlen (s\<lparr> sk_errno := EINVAL \<rparr>))"

definition register_argument :: "char list \<Rightarrow> u32 \<Rightarrow> u32 \<Rightarrow> char list" where
  "register_argument arg chid pid = overwrite (overwrite arg 272 (put_u32 chid)) 276 (put_u32 pid)"

definition SBRegisterInterface ::
  "platform \<Rightarrow> client_os \<Rightarrow> string option \<Rightarrow> int \<Rightarrow> int \<Rightarrow> int \<Rightarrow> bool \<Rightarrow> sock \<Rightarrow>
     (int \<times> SPartyID option \<times> sock) option" where
  "SBRegisterInterface pf os ifName majorVersion minorVersion chid serverId s =
     (case ifName of
        Some name \<Rightarrow>
          if serverId then
            lib_call pf DCMD_FND_REGISTER_INTERFACE
              (register_argument (FILL_DESCRIPTION 4 name majorVersion minorVersion (new_argument 280))
                 (word_of_int chid) (os_getpid os)) 280 8 (\<lambda>res. get_party res 0) s
          else Some (no_call s)
      | None \<Rightarrow> Some (no_call s))"

definition SBRegisterInterfaceTCP ::
  "platform \<Rightarrow> string option \<Rightarrow> int \<Rightarrow> int \<Rightarrow> u32 \<Rightarrow> u16 \<Rightarrow> bool \<Rightarrow> sock \<Rightarrow>
     (api_error, int \<times> SPartyID option \<times> sock) outcome" where
  "SBRegisterInterfaceTCP pf ifName majorVersion minorVersion ipaddress port serverId s =
     (case ifName of
        Some name \<Rightarrow>
          if serverId then
            (case FILL_DESCRIPTION_TCP 4 name majorVersion minorVersion (new_argument 280) of
               Inl e \<Rightarrow> Some (Inl e)
             | Inr arg \<Rightarrow>
                 map_option Inr (lib_call pf DCMD_FND_REGISTER_INTERFACE
                   (register_argument arg (ucast port) ipaddress) 280 8 (\<lambda>res. get_party res 0) s))
          else Some (Inr (no_call s))
      | None \<Rightarrow> Some (Inr (no_call s)))"

text \<open>The structure has 284 bytes, the union 288: it is aligned for the output.\<close>

definition SBRegisterGroupInterface ::
  "platform \<Rightarrow> client_os \<Rightarrow> string option \<Rightarrow> int \<Rightarrow> int \<Rightarrow> int \<Rightarrow> string option \<Rightarrow> bool \<Rightarrow> sock \<Rightarrow>
     (int \<times> SPartyID option \<times> sock) option" where
  "SBRegisterGroupInterface pf os ifName majorVersion minorVersion chid groupName serverId s =
     (case ifName of
        Some name \<Rightarrow>
          if serverId then
            let arg = register_argument
                  (FILL_DESCRIPTION 4 name majorVersion minorVersion (new_argument 288))
                  (word_of_int chid) (os_getpid os);
                call = (\<lambda>grpid. lib_call pf DCMD_FND_REGISTER_INTERFACE_GROUPID
                  (overwrite arg 280 (put_u32 grpid)) 284 8 (\<lambda>res. get_party res 0) s)
            in case groupName of
                 None \<Rightarrow> call SB_UNKNOWN_GROUP_ID
               | Some g \<Rightarrow>
                   (case os_getgrnam os g of
                      None \<Rightarrow> Some (- 1, None, s\<lparr> sk_errno := ENOENT \<rparr>)
                    | Some gid \<Rightarrow> call gid)
          else Some (no_call s)
      | None \<Rightarrow> Some (no_call s))"

text \<open>
  The functions for several interfaces: the descriptions are memory of the caller, the server ids
  go straight into the caller's array. \<open>descr_bytes\<close> is \<^verbatim>\<open>descrCount * sizeof(...)\<close> as a \<^verbatim>\<open>size_t\<close>.
\<close>

definition descr_bytes :: "platform \<Rightarrow> int \<Rightarrow> nat \<Rightarrow> nat" where
  "descr_bytes pf descrCount sz = nat ((descrCount * int sz) mod 2 ^ size_bits pf)"

definition register_ex_argument :: "u32 \<Rightarrow> u32 \<Rightarrow> int \<Rightarrow> char list" where
  "register_ex_argument chid pid descrCount =
     overwrite (overwrite (overwrite (new_argument 24) 12 (put_u32 chid)) 16 (put_u32 pid)) 20
       (put_u32 (word_of_int descrCount))"

definition register_ex_call ::
  "platform \<Rightarrow> u32 \<Rightarrow> u32 \<Rightarrow> char list \<Rightarrow> int \<Rightarrow> sock \<Rightarrow> (int \<times> char list \<times> sock) option" where
  "register_ex_call pf chid pid descrs descrCount s =
     map_option (\<lambda>(r, rco, bss, s'). (stored_rc rco, concat bss, s'))
       (sendAndReceiveV pf (sint DCMD_FND_REGISTER_INTERFACE_EX)
          [\<lparr> iov_base = Some (register_ex_argument chid pid descrCount), iov_len = 24 \<rparr>,
           \<lparr> iov_base = Some descrs, iov_len = descr_bytes pf descrCount sizeof_ifDescription \<rparr>]
          [descr_bytes pf descrCount 8] (s\<lparr> sk_errno := EINVAL \<rparr>))"

definition SBRegisterInterfaceEx ::
  "platform \<Rightarrow> client_os \<Rightarrow> char list option \<Rightarrow> int \<Rightarrow> int \<Rightarrow> bool \<Rightarrow> sock \<Rightarrow>
     (int \<times> char list \<times> sock) option" where
  "SBRegisterInterfaceEx pf os ifDescr descrCount chid serverId s =
     (case ifDescr of
        Some descrs \<Rightarrow>
          if serverId then register_ex_call pf (word_of_int chid) (os_getpid os) descrs descrCount s
          else Some (- 1, [], s\<lparr> sk_errno := EINVAL \<rparr>)
      | None \<Rightarrow> Some (- 1, [], s\<lparr> sk_errno := EINVAL \<rparr>))"

definition NAME_MAX :: nat where "NAME_MAX = 255"

text \<open>The loop over the copy: the suffix where there is room, else the name is cut off.\<close>

fun append_tcp :: "nat \<Rightarrow> nat \<Rightarrow> char list \<Rightarrow> api_error + char list" where
  "append_tcp 0 i mem = Inr mem"
| "append_tcp (Suc n) i mem =
     (let off = i * sizeof_ifDescription + 4
      in if length (c_str (drop off mem)) \<le> NAME_MAX - 4 then
           (case strcat off ''_tcp'' mem of Inl e \<Rightarrow> Inl e | Inr mem \<Rightarrow> append_tcp n (Suc i) mem)
         else append_tcp n (Suc i) (overwrite mem off [NUL]))"

definition SBRegisterInterfaceExTCP ::
  "platform \<Rightarrow> char list option \<Rightarrow> int \<Rightarrow> u32 \<Rightarrow> u16 \<Rightarrow> bool \<Rightarrow> sock \<Rightarrow>
     (api_error, int \<times> char list \<times> sock) outcome" where
  "SBRegisterInterfaceExTCP pf ifDescr descrCount ipaddress port serverId s =
     (case ifDescr of
        Some descrs \<Rightarrow>
          if serverId \<and> 0 < descrCount then
            (case append_tcp (nat descrCount) 0
                    (take (descr_bytes pf descrCount sizeof_ifDescription) descrs) of
               Inl e \<Rightarrow> Some (Inl e)
             | Inr desc_tcp \<Rightarrow>
                 map_option Inr (register_ex_call pf (ucast port) ipaddress desc_tcp descrCount s))
          else Some (Inr (- 1, [], s\<lparr> sk_errno := EINVAL \<rparr>))
      | None \<Rightarrow> Some (Inr (- 1, [], s\<lparr> sk_errno := EINVAL \<rparr>)))"

definition SBUnregisterInterface :: "platform \<Rightarrow> SPartyID \<Rightarrow> sock \<Rightarrow> (int \<times> unit option \<times> sock) option" where
  "SBUnregisterInterface pf serverId s =
     map_option (call_out (\<lambda>_. ()))
       (sendAndReceive pf (sint DCMD_FND_UNREGISTER_INTERFACE)
          (overwrite (new_argument 16) 8 (put_party serverId)) 16 0 s)"

definition SBAttachInterface ::
  "platform \<Rightarrow> string option \<Rightarrow> int \<Rightarrow> int \<Rightarrow> bool \<Rightarrow> sock \<Rightarrow> (int \<times> SConnectionInfo option \<times> sock) option" where
  "SBAttachInterface pf ifName majorVersion minorVersion connInfo s =
     (case ifName of
        Some name \<Rightarrow>
          if connInfo then
            lib_call pf DCMD_FND_ATTACH_INTERFACE
              (FILL_DESCRIPTION 4 name majorVersion minorVersion (new_argument 264)) 264 32
              (\<lambda>res. get_connection res 0) s
          else Some (no_call s)
      | None \<Rightarrow> Some (no_call s))"

text \<open>The extended function copies the output whatever the return code is.\<close>

definition SBAttachInterfaceExtended ::
  "platform \<Rightarrow> client_os \<Rightarrow> string option \<Rightarrow> int \<Rightarrow> int \<Rightarrow> bool \<Rightarrow> int \<Rightarrow> int \<Rightarrow> int \<Rightarrow> bool \<Rightarrow> sock \<Rightarrow>
     (int \<times> (SConnectionInfo \<times> u32) option \<times> sock) option" where
  "SBAttachInterfaceExtended pf os ifName majorVersion minorVersion connInfo chid code val notificationID s =
     (case ifName of
        Some name \<Rightarrow>
          if connInfo \<and> notificationID then
            map_option (\<lambda>(r, rco, mem, s').
                (stored_rc rco, if r = 0 then Some (get_connection mem 0, get_u32 mem 32) else None, s'))
              (sendAndReceive pf (sint DCMD_FND_ATTACH_INTERFACE_EXTENDED)
                 (FILL_DESCRIPTION 20 name majorVersion minorVersion
                    (fill_pulse os 4 chid code val (new_argument 280))) 280 40
                 (s\<lparr> sk_errno := EINVAL \<rparr>))
          else Some (no_call s)
      | None \<Rightarrow> Some (no_call s))"

definition get_serverInfo :: "char list \<Rightarrow> SServerInfo" where
  "get_serverInfo mem = \<lparr> si_channel = get_channel mem 0, si_serverID = get_party mem 16 \<rparr>"

definition SBGetServerInformation ::
  "platform \<Rightarrow> string option \<Rightarrow> int \<Rightarrow> int \<Rightarrow> bool \<Rightarrow> sock \<Rightarrow> (int \<times> SServerInfo option \<times> sock) option" where
  "SBGetServerInformation pf ifName majorVersion minorVersion serverInfo s =
     (case ifName of
        Some name \<Rightarrow>
          if serverInfo then
            lib_call pf DCMD_FND_GET_SERVER_INFORMATION
              (FILL_DESCRIPTION 4 name majorVersion minorVersion (new_argument 264)) 264 24
              get_serverInfo s
          else Some (no_call s)
      | None \<Rightarrow> Some (no_call s))"

record STCPConnectionInfo =
  ti_version :: SFNDInterfaceVersion
  ti_ipaddress :: u32
  ti_port :: u16
  ti_serverID :: SPartyID
  ti_clientID :: SPartyID

definition get_tcpConnection :: "char list \<Rightarrow> STCPConnectionInfo" where
  "get_tcpConnection mem =
     (let res = get_connection mem 0
      in \<lparr> ti_version = ci_version res, ti_ipaddress = c_pid (ci_channel res),
           ti_port = ucast (c_chid (ci_channel res)), ti_serverID = ci_serverID res,
           ti_clientID = ci_clientID res \<rparr>)"

definition SBAttachInterfaceTCP ::
  "platform \<Rightarrow> string option \<Rightarrow> int \<Rightarrow> int \<Rightarrow> bool \<Rightarrow> sock \<Rightarrow>
     (api_error, int \<times> STCPConnectionInfo option \<times> sock) outcome" where
  "SBAttachInterfaceTCP pf ifName majorVersion minorVersion connInfo s =
     (case ifName of
        Some name \<Rightarrow>
          if connInfo then
            (case FILL_DESCRIPTION_TCP 4 name majorVersion minorVersion (new_argument 264) of
               Inl e \<Rightarrow> Some (Inl e)
             | Inr arg \<Rightarrow>
                 map_option Inr (lib_call pf DCMD_FND_ATTACH_INTERFACE arg 264 32 get_tcpConnection s))
          else Some (Inr (no_call s))
      | None \<Rightarrow> Some (Inr (no_call s)))"

definition SBDetachInterface :: "platform \<Rightarrow> SPartyID \<Rightarrow> sock \<Rightarrow> (int \<times> unit option \<times> sock) option" where
  "SBDetachInterface pf clientId s =
     map_option (call_out (\<lambda>_. ()))
       (sendAndReceive pf (sint DCMD_FND_DETACH_INTERFACE)
          (overwrite (new_argument 16) 8 (put_party clientId)) 16 0 s)"

definition SBSetClientDetachNotification ::
  "platform \<Rightarrow> client_os \<Rightarrow> SPartyID \<Rightarrow> int \<Rightarrow> int \<Rightarrow> int \<Rightarrow> bool \<Rightarrow> sock \<Rightarrow> (int \<times> u32 option \<times> sock) option" where
  "SBSetClientDetachNotification pf os clientID chid code val notificationID s =
     (if notificationID then
        lib_call pf DCMD_FND_NOTIFY_CLIENT_DETACH
          (fill_pulse os 16 chid code val (overwrite (new_argument 32) 8 (put_party clientID))) 32 4
          (\<lambda>res. get_u32 res 0) s
      else Some (no_call s))"

definition SBSetServerAvailableNotification ::
  "platform \<Rightarrow> client_os \<Rightarrow> string option \<Rightarrow> int \<Rightarrow> int \<Rightarrow> int \<Rightarrow> int \<Rightarrow> int \<Rightarrow> bool \<Rightarrow> sock \<Rightarrow>
     (int \<times> u32 option \<times> sock) option" where
  "SBSetServerAvailableNotification pf os ifName majorVersion minorVersion chid code val notificationID s =
     (case ifName of
        Some name \<Rightarrow>
          if notificationID then
            lib_call pf DCMD_FND_NOTIFY_SERVER_AVAILABLE
              (fill_pulse os 4 chid code val
                 (FILL_DESCRIPTION 20 name majorVersion minorVersion (new_argument 280))) 280 4
              (\<lambda>res. get_u32 res 0) s
          else Some (no_call s)
      | None \<Rightarrow> Some (no_call s))"

definition SBSetServerDisconnectNotification ::
  "platform \<Rightarrow> client_os \<Rightarrow> SPartyID \<Rightarrow> int \<Rightarrow> int \<Rightarrow> int \<Rightarrow> bool \<Rightarrow> sock \<Rightarrow> (int \<times> u32 option \<times> sock) option" where
  "SBSetServerDisconnectNotification pf os serverID chid code val notificationID s =
     (if notificationID then
        lib_call pf DCMD_FND_NOTIFY_SERVER_DISCONNECT
          (fill_pulse os 16 chid code val (overwrite (new_argument 32) 8 (put_party serverID))) 32 4
          (\<lambda>res. get_u32 res 0) s
      else Some (no_call s))"

definition SBClearNotification :: "platform \<Rightarrow> u32 \<Rightarrow> sock \<Rightarrow> (int \<times> unit option \<times> sock) option" where
  "SBClearNotification pf notificationID s =
     map_option (call_out (\<lambda>_. ()))
       (sendAndReceive pf (sint DCMD_FND_CLEAR_NOTIFICATION)
          (overwrite (new_argument 8) 4 (put_u32 notificationID)) 8 0 s)"

text \<open>
  The list functions use the caller's array as argument structure. A negative return code is the
  number of elements; \<open>*outCount\<close> is stored only then. The result is the return value, the count
  stored, the array and the socket.
\<close>

definition list_result ::
  "int \<times> int option \<times> char list \<times> sock \<Rightarrow> int \<times> int option \<times> char list \<times> sock" where
  "list_result = (\<lambda>(r, opt, mem, s).
     if r = 0 then
       let opt = stored_rc opt
       in if opt < 0 then (0, Some (- opt), mem, s) else (opt, None, mem, s)
     else (r, None, mem, s))"

definition SBGetInterfaceList ::
  "platform \<Rightarrow> char list option \<Rightarrow> int \<Rightarrow> bool \<Rightarrow> sock \<Rightarrow>
     (api_error, int \<times> int option \<times> char list \<times> sock) outcome" where
  "SBGetInterfaceList pf ifs inCount outCount s =
     (case ifs of
        Some mem \<Rightarrow>
          if 0 < inCount \<and> outCount then
            if 260 \<le> length mem then
              map_option (Inr \<circ> list_result)
                (sendAndReceive pf (sint DCMD_FND_GET_INTERFACELIST)
                   (overwrite (INIT_ARGUMENT 260 mem) 4 (put_u32 (word_of_int inCount))) 8
                   (descr_bytes pf inCount sizeof_ifDescription) (s\<lparr> sk_errno := EINVAL \<rparr>))
            else Some (Inl Buffer_overrun)
          else Some (Inr (- 1, None, mem, s\<lparr> sk_errno := EINVAL \<rparr>))
      | None \<Rightarrow> Some (Inr (- 1, None, [], s\<lparr> sk_errno := EINVAL \<rparr>)))"

definition SBSetInterfaceListChangeNotification ::
  "platform \<Rightarrow> client_os \<Rightarrow> int \<Rightarrow> int \<Rightarrow> int \<Rightarrow> bool \<Rightarrow> sock \<Rightarrow> (int \<times> u32 option \<times> sock) option" where
  "SBSetInterfaceListChangeNotification pf os chid code val notificationID s =
     (if notificationID then
        lib_call pf DCMD_FND_NOTIFY_INTERFACELIST_CHANGE
          (fill_pulse os 4 chid code val (new_argument 20)) 20 4 (\<lambda>res. get_u32 res 0) s
      else Some (no_call s))"

definition SBMatchInterfaceList ::
  "platform \<Rightarrow> string option \<Rightarrow> char list option \<Rightarrow> int \<Rightarrow> bool \<Rightarrow> sock \<Rightarrow>
     (api_error, int \<times> int option \<times> char list \<times> sock) outcome" where
  "SBMatchInterfaceList pf regExpr ifs inCount outCount s =
     (case ifs of
        Some mem \<Rightarrow>
          if 0 < inCount \<and> outCount then
            if 264 \<le> length mem then
              let arg = overwrite (INIT_ARGUMENT 264 mem) 4 (put_u32 (word_of_int inCount));
                  arg = (case regExpr of Some r \<Rightarrow> overwrite arg 8 (strncpy NAME_SIZE r) | None \<Rightarrow> arg)
              in map_option (Inr \<circ> list_result)
                   (sendAndReceive pf (sint DCMD_FND_MATCH_INTERFACELIST) arg 264
                      (descr_bytes pf inCount sizeof_ifDescription) (s\<lparr> sk_errno := EINVAL \<rparr>))
            else Some (Inl Buffer_overrun)
          else Some (Inr (- 1, None, mem, s\<lparr> sk_errno := EINVAL \<rparr>))
      | None \<Rightarrow> Some (Inr (- 1, None, [], s\<lparr> sk_errno := EINVAL \<rparr>)))"

definition SBSetInterfaceMatchChangeNotification ::
  "platform \<Rightarrow> client_os \<Rightarrow> string option \<Rightarrow> int \<Rightarrow> int \<Rightarrow> int \<Rightarrow> bool \<Rightarrow> sock \<Rightarrow>
     (int \<times> u32 option \<times> sock) option" where
  "SBSetInterfaceMatchChangeNotification pf os regExpr chid code val notificationID s =
     (if notificationID then
        let arg = fill_pulse os 4 chid code val (new_argument 276);
            arg = (case regExpr of Some r \<Rightarrow> overwrite arg 20 (strncpy NAME_SIZE r) | None \<Rightarrow> arg)
        in lib_call pf DCMD_FND_NOTIFY_INTERFACELIST_MATCH arg 276 4 (\<lambda>res. get_u32 res 0) s
      else Some (no_call s))"

end
