(* ===== verification/Client_Lib_Spec.thy ===== *)
theory Client_Lib_Spec
  imports Client_Lib Broker_Spec
begin

text \<open>
  What the client library promises. \<open>api_call\<close> lists the calls with their arguments; for each of them
  the bytes the library sends are shown to be read by the daemon as the request with these
  arguments, and the response the daemon gives to fit into the buffer the library provides, so that the
  connection stays in step. From the client's function to the daemon's handler and back, a call then
  returns what the handler decided.
\<close>

section \<open>The calls\<close>

datatype api_call =
    Register string int int int
  | Register_tcp string int int u32 u16
  | Register_group string int int int u32
  | Unregister SPartyID
  | Attach string int int
  | Attach_tcp string int int
  | Attach_extended string int int int int int
  | Server_information string int int
  | Detach SPartyID
  | Watch_client SPartyID int int int
  | Watch_available string int int int int int
  | Watch_server SPartyID int int int
  | Clear u32
  | Get_list int
  | Watch_list int int int
  | Match_list string int
  | Watch_match string int int int

fun api_cmd :: "api_call \<Rightarrow> u32" where
  "api_cmd (Register _ _ _ _) = DCMD_FND_REGISTER_INTERFACE"
| "api_cmd (Register_tcp _ _ _ _ _) = DCMD_FND_REGISTER_INTERFACE"
| "api_cmd (Register_group _ _ _ _ _) = DCMD_FND_REGISTER_INTERFACE_GROUPID"
| "api_cmd (Unregister _) = DCMD_FND_UNREGISTER_INTERFACE"
| "api_cmd (Attach _ _ _) = DCMD_FND_ATTACH_INTERFACE"
| "api_cmd (Attach_tcp _ _ _) = DCMD_FND_ATTACH_INTERFACE"
| "api_cmd (Attach_extended _ _ _ _ _ _) = DCMD_FND_ATTACH_INTERFACE_EXTENDED"
| "api_cmd (Server_information _ _ _) = DCMD_FND_GET_SERVER_INFORMATION"
| "api_cmd (Detach _) = DCMD_FND_DETACH_INTERFACE"
| "api_cmd (Watch_client _ _ _ _) = DCMD_FND_NOTIFY_CLIENT_DETACH"
| "api_cmd (Watch_available _ _ _ _ _ _) = DCMD_FND_NOTIFY_SERVER_AVAILABLE"
| "api_cmd (Watch_server _ _ _ _) = DCMD_FND_NOTIFY_SERVER_DISCONNECT"
| "api_cmd (Clear _) = DCMD_FND_CLEAR_NOTIFICATION"
| "api_cmd (Get_list _) = DCMD_FND_GET_INTERFACELIST"
| "api_cmd (Watch_list _ _ _) = DCMD_FND_NOTIFY_INTERFACELIST_CHANGE"
| "api_cmd (Match_list _ _) = DCMD_FND_MATCH_INTERFACELIST"
| "api_cmd (Watch_match _ _ _ _) = DCMD_FND_NOTIFY_INTERFACELIST_MATCH"

text \<open>
  The argument structure a call fills: \<open>ifs\<close> is the caller's array of the list functions. An overrun
  gives no structure.
\<close>

fun api_argument :: "client_os \<Rightarrow> char list \<Rightarrow> api_call \<Rightarrow> char list option" where
  "api_argument os ifs (Register name ma mi chid) =
     Some (register_argument (FILL_DESCRIPTION 4 name ma mi (new_argument 280)) (word_of_int chid) (os_getpid os))"
| "api_argument os ifs (Register_tcp name ma mi ip port) =
     (case FILL_DESCRIPTION_TCP 4 name ma mi (new_argument 280) of
        Inl _ \<Rightarrow> None | Inr arg \<Rightarrow> Some (register_argument arg (ucast port) ip))"
| "api_argument os ifs (Register_group name ma mi chid g) =
     Some (overwrite (register_argument (FILL_DESCRIPTION 4 name ma mi (new_argument 288)) (word_of_int chid)
       (os_getpid os)) 280 (put_u32 g))"
| "api_argument os ifs (Unregister p) = Some (overwrite (new_argument 16) 8 (put_party p))"
| "api_argument os ifs (Attach name ma mi) = Some (FILL_DESCRIPTION 4 name ma mi (new_argument 264))"
| "api_argument os ifs (Attach_tcp name ma mi) =
     (case FILL_DESCRIPTION_TCP 4 name ma mi (new_argument 264) of Inl _ \<Rightarrow> None | Inr arg \<Rightarrow> Some arg)"
| "api_argument os ifs (Attach_extended name ma mi chid code val) =
     Some (FILL_DESCRIPTION 20 name ma mi (fill_pulse os 4 chid code val (new_argument 280)))"
| "api_argument os ifs (Server_information name ma mi) =
     Some (FILL_DESCRIPTION 4 name ma mi (new_argument 264))"
| "api_argument os ifs (Detach p) = Some (overwrite (new_argument 16) 8 (put_party p))"
| "api_argument os ifs (Watch_client p chid code val) =
     Some (fill_pulse os 16 chid code val (overwrite (new_argument 32) 8 (put_party p)))"
| "api_argument os ifs (Watch_available name ma mi chid code val) =
     Some (fill_pulse os 4 chid code val (FILL_DESCRIPTION 20 name ma mi (new_argument 280)))"
| "api_argument os ifs (Watch_server p chid code val) =
     Some (fill_pulse os 16 chid code val (overwrite (new_argument 32) 8 (put_party p)))"
| "api_argument os ifs (Clear n) = Some (overwrite (new_argument 8) 4 (put_u32 n))"
| "api_argument os ifs (Get_list n) =
     (if 260 \<le> length ifs then Some (overwrite (INIT_ARGUMENT 260 ifs) 4 (put_u32 (word_of_int n))) else None)"
| "api_argument os ifs (Watch_list chid code val) = Some (fill_pulse os 4 chid code val (new_argument 20))"
| "api_argument os ifs (Match_list r n) =
     (if 264 \<le> length ifs
      then Some (overwrite (overwrite (INIT_ARGUMENT 264 ifs) 4 (put_u32 (word_of_int n))) 8 (strncpy NAME_SIZE r))
      else None)"
| "api_argument os ifs (Watch_match r chid code val) =
     Some (overwrite (fill_pulse os 4 chid code val (new_argument 276)) 20 (strncpy NAME_SIZE r))"

fun api_inlen :: "api_call \<Rightarrow> nat" where
  "api_inlen (Register _ _ _ _) = 280"
| "api_inlen (Register_tcp _ _ _ _ _) = 280"
| "api_inlen (Register_group _ _ _ _ _) = 284"
| "api_inlen (Unregister _) = 16"
| "api_inlen (Attach _ _ _) = 264"
| "api_inlen (Attach_tcp _ _ _) = 264"
| "api_inlen (Attach_extended _ _ _ _ _ _) = 280"
| "api_inlen (Server_information _ _ _) = 264"
| "api_inlen (Detach _) = 16"
| "api_inlen (Watch_client _ _ _ _) = 32"
| "api_inlen (Watch_available _ _ _ _ _ _) = 280"
| "api_inlen (Watch_server _ _ _ _) = 32"
| "api_inlen (Clear _) = 8"
| "api_inlen (Get_list _) = 8"
| "api_inlen (Watch_list _ _ _) = 20"
| "api_inlen (Match_list _ _) = 264"
| "api_inlen (Watch_match _ _ _ _) = 276"

fun api_outlen :: "platform \<Rightarrow> api_call \<Rightarrow> nat" where
  "api_outlen pf (Register _ _ _ _) = 8"
| "api_outlen pf (Register_tcp _ _ _ _ _) = 8"
| "api_outlen pf (Register_group _ _ _ _ _) = 8"
| "api_outlen pf (Unregister _) = 0"
| "api_outlen pf (Attach _ _ _) = 32"
| "api_outlen pf (Attach_tcp _ _ _) = 32"
| "api_outlen pf (Attach_extended _ _ _ _ _ _) = 40"
| "api_outlen pf (Server_information _ _ _) = 24"
| "api_outlen pf (Detach _) = 0"
| "api_outlen pf (Watch_client _ _ _ _) = 4"
| "api_outlen pf (Watch_available _ _ _ _ _ _) = 4"
| "api_outlen pf (Watch_server _ _ _ _) = 4"
| "api_outlen pf (Clear _) = 0"
| "api_outlen pf (Get_list n) = descr_bytes pf n sizeof_ifDescription"
| "api_outlen pf (Watch_list _ _ _) = 4"
| "api_outlen pf (Match_list _ n) = descr_bytes pf n sizeof_ifDescription"
| "api_outlen pf (Watch_match _ _ _ _) = 4"

text \<open>What the daemon is to see of a call.\<close>

definition describes :: "SFNDInterfaceDescription \<Rightarrow> string \<Rightarrow> int \<Rightarrow> int \<Rightarrow> bool" where
  "describes ifd name ma mi \<longleftrightarrow> c_str (sf_name ifd) = name \<and> sf_version ifd = version_of ma mi"

definition api_pulse :: "client_os \<Rightarrow> int \<Rightarrow> int \<Rightarrow> int \<Rightarrow> SFNDPulseInfo" where
  "api_pulse os chid code val =
     \<lparr> p_code = word_of_int code, p_value = word_of_int val, p_chid = word_of_int chid, p_pid = os_getpid os \<rparr>"

fun carries :: "client_os \<Rightarrow> api_call \<Rightarrow> request \<Rightarrow> bool" where
  "carries os (Register name ma mi ch) r =
     (\<exists>ifd. r = REGISTER_INTERFACE ifd (word_of_int ch) (os_getpid os) \<and> describes ifd name ma mi)"
| "carries os (Register_tcp name ma mi ip port) r =
     (\<exists>ifd. r = REGISTER_INTERFACE ifd (ucast port) ip \<and> describes ifd (name @ ''_tcp'') ma mi)"
| "carries os (Register_group name ma mi ch g) r =
     (\<exists>ifd. r = REGISTER_INTERFACE_GROUPID ifd (word_of_int ch) (os_getpid os) g \<and> describes ifd name ma mi)"
| "carries os (Unregister p) r = (r = UNREGISTER_INTERFACE p)"
| "carries os (Attach name ma mi) r = (\<exists>ifd. r = ATTACH_INTERFACE ifd \<and> describes ifd name ma mi)"
| "carries os (Attach_tcp name ma mi) r =
     (\<exists>ifd. r = ATTACH_INTERFACE ifd \<and> describes ifd (name @ ''_tcp'') ma mi)"
| "carries os (Attach_extended name ma mi chid code val) r =
     (\<exists>ifd. r = ATTACH_INTERFACE_EXTENDED (api_pulse os chid code val) ifd \<and> describes ifd name ma mi)"
| "carries os (Server_information name ma mi) r =
     (\<exists>ifd. r = GET_SERVER_INFORMATION ifd \<and> describes ifd name ma mi)"
| "carries os (Detach p) r = (r = DETACH_INTERFACE p)"
| "carries os (Watch_client p chid code val) r = (r = NOTIFY_CLIENT_DETACH p (api_pulse os chid code val))"
| "carries os (Watch_available name ma mi chid code val) r =
     (\<exists>ifd. r = NOTIFY_SERVER_AVAILABLE (api_pulse os chid code val) ifd \<and> describes ifd name ma mi)"
| "carries os (Watch_server p chid code val) r = (r = NOTIFY_SERVER_DISCONNECT p (api_pulse os chid code val))"
| "carries os (Clear n) r = (r = CLEAR_NOTIFICATION n)"
| "carries os (Get_list n) r = (r = GET_INTERFACELIST (word_of_int n))"
| "carries os (Watch_list chid code val) r = (r = NOTIFY_INTERFACELIST_CHANGE (api_pulse os chid code val))"
| "carries os (Match_list e n) r = (r = MATCH_INTERFACELIST (word_of_int n) e)"
| "carries os (Watch_match e chid code val) r = (r = NOTIFY_INTERFACELIST_MATCH (api_pulse os chid code val) e)"

text \<open>Strings that fit into the structures, terminator included, and arrays of the promised size.\<close>

fun api_string :: "api_call \<Rightarrow> string" where
  "api_string (Register name _ _ _) = name"
| "api_string (Register_tcp name _ _ _ _) = name @ ''_tcp''"
| "api_string (Register_group name _ _ _ _) = name"
| "api_string (Attach name _ _) = name"
| "api_string (Attach_tcp name _ _) = name @ ''_tcp''"
| "api_string (Attach_extended name _ _ _ _ _) = name"
| "api_string (Server_information name _ _) = name"
| "api_string (Watch_available name _ _ _ _ _) = name"
| "api_string (Match_list r _) = r"
| "api_string (Watch_match r _ _ _) = r"
| "api_string _ = []"

definition api_ok :: "api_call \<Rightarrow> bool" where
  "api_ok c \<longleftrightarrow> NUL \<notin> set (api_string c) \<and> length (api_string c) < NAME_SIZE"

definition api_room :: "api_call \<Rightarrow> char list \<Rightarrow> bool" where
  "api_room c ifs = (case c of Get_list n \<Rightarrow> 260 \<le> length ifs | Match_list r n \<Rightarrow> 264 \<le> length ifs | _ \<Rightarrow> True)"

section \<open>The structures as concatenations\<close>

lemma new_argument_layout:
  "4 \<le> n \<Longrightarrow> new_argument n = put_version DSI_SERVICEBROKER_VERSION @ replicate (n - 4) NUL"
  by (simp add: new_argument_def INIT_ARGUMENT_def overwrite_def)

lemma INIT_ARGUMENT_layout:
  "4 \<le> n \<Longrightarrow> n \<le> length mem \<Longrightarrow>
    INIT_ARGUMENT n mem = put_version DSI_SERVICEBROKER_VERSION @ replicate (n - 4) NUL @ drop n mem"
  by (simp add: INIT_ARGUMENT_def overwrite_def)

lemma check_library_version: "check_version DSI_SERVICEBROKER_VERSION"
  by (simp add: check_version_def DSI_SERVICEBROKER_VERSION_def)

lemma register_layout:
  "register_argument (FILL_DESCRIPTION 4 name ma mi (new_argument 280)) chid pid =
     put_version DSI_SERVICEBROKER_VERSION @ put_version (version_of ma mi) @ strncpy NAME_SIZE name @
     replicate 8 NUL @ put_u32 chid @ put_u32 pid"
  by (simp add: register_argument_def FILL_DESCRIPTION_def new_argument_layout overwrite_def NAME_SIZE_def)

lemma register_group_layout:
  "overwrite (register_argument (FILL_DESCRIPTION 4 name ma mi (new_argument 288)) chid pid) 280 (put_u32 g) =
     put_version DSI_SERVICEBROKER_VERSION @ put_version (version_of ma mi) @ strncpy NAME_SIZE name @
     replicate 8 NUL @ put_u32 chid @ put_u32 pid @ put_u32 g @ replicate 4 NUL"
  by (simp add: register_argument_def FILL_DESCRIPTION_def new_argument_layout overwrite_def NAME_SIZE_def)

lemma describe_layout:
  "FILL_DESCRIPTION 4 name ma mi (new_argument 264) =
     put_version DSI_SERVICEBROKER_VERSION @ put_version (version_of ma mi) @ strncpy NAME_SIZE name"
  by (simp add: FILL_DESCRIPTION_def new_argument_layout overwrite_def NAME_SIZE_def)

lemma describe_pulse_layout:
  "FILL_DESCRIPTION 20 name ma mi (fill_pulse os 4 chid code val (new_argument 280)) =
     put_version DSI_SERVICEBROKER_VERSION @ put_pulse (api_pulse os chid code val) @
     put_version (version_of ma mi) @ strncpy NAME_SIZE name"
  "fill_pulse os 4 chid code val (FILL_DESCRIPTION 20 name ma mi (new_argument 280)) =
     put_version DSI_SERVICEBROKER_VERSION @ put_pulse (api_pulse os chid code val) @
     put_version (version_of ma mi) @ strncpy NAME_SIZE name"
  by (simp_all add: FILL_DESCRIPTION_def fill_pulse_def api_pulse_def new_argument_layout overwrite_def
      NAME_SIZE_def)

lemma party_layout:
  "overwrite (new_argument 16) 8 (put_party p) =
     put_version DSI_SERVICEBROKER_VERSION @ replicate 4 NUL @ put_party p"
  "fill_pulse os 16 chid code val (overwrite (new_argument 32) 8 (put_party p)) =
     put_version DSI_SERVICEBROKER_VERSION @ replicate 4 NUL @ put_party p @
     put_pulse (api_pulse os chid code val)"
  by (simp_all add: new_argument_layout overwrite_def fill_pulse_def api_pulse_def)

lemma pulse_layout:
  "fill_pulse os 4 chid code val (new_argument 20) =
     put_version DSI_SERVICEBROKER_VERSION @ put_pulse (api_pulse os chid code val)"
  "overwrite (fill_pulse os 4 chid code val (new_argument 276)) 20 (strncpy NAME_SIZE r) =
     put_version DSI_SERVICEBROKER_VERSION @ put_pulse (api_pulse os chid code val) @ strncpy NAME_SIZE r"
  by (simp_all add: new_argument_layout overwrite_def fill_pulse_def api_pulse_def NAME_SIZE_def)

lemma count_layout:
  "overwrite (new_argument 8) 4 (put_u32 n) = put_version DSI_SERVICEBROKER_VERSION @ put_u32 n"
  "260 \<le> length ifs \<Longrightarrow> overwrite (INIT_ARGUMENT 260 ifs) 4 (put_u32 n) =
     put_version DSI_SERVICEBROKER_VERSION @ put_u32 n @ replicate 252 NUL @ drop 260 ifs"
  "264 \<le> length ifs \<Longrightarrow>
     overwrite (overwrite (INIT_ARGUMENT 264 ifs) 4 (put_u32 n)) 8 (strncpy NAME_SIZE r) =
     put_version DSI_SERVICEBROKER_VERSION @ put_u32 n @ strncpy NAME_SIZE r @ drop 264 ifs"
  by (simp_all add: new_argument_layout INIT_ARGUMENT_layout overwrite_def NAME_SIZE_def)

text \<open>The suffix for TCP: after a name of at most 251 characters.\<close>

lemma c_str_append: "NUL \<notin> set s \<Longrightarrow> c_str (s @ NUL # rest) = s"
  unfolding c_str_def by (subst takeWhile_append2) auto

lemma strcat_tcp:
  assumes "NUL \<notin> set name" "5 \<le> k" "length pre = off"
  shows "strcat off ''_tcp'' (pre @ name @ replicate k NUL) =
    Inr (pre @ name @ ''_tcp'' @ replicate (k - 4) NUL)"
proof -
  obtain j where k: "k = Suc j" using assms(2) by (cases k) auto
  have "c_str (name @ replicate k NUL) = name" using c_str_append [OF assms(1)] by (simp add: k)
  moreover obtain i where "k - 4 = Suc i" using assms(2) by (cases "k - 4") auto
  then have "''_tcp'' @ [NUL] @ replicate (k - 5) NUL = ''_tcp'' @ replicate (k - 4) NUL"
    by (simp add: Suc_diff_le)
  ultimately show ?thesis
    using assms by (simp add: strcat_def Let_def overwrite_def)
qed

lemma strncpy_split:
  "length s \<le> n \<Longrightarrow> strncpy n s = s @ replicate (n - length s) NUL"
  by (simp add: strncpy_def)

lemma tcp_layout:
  assumes "NUL \<notin> set name" "length name < 252" "264 \<le> n"
  shows "FILL_DESCRIPTION_TCP 4 name ma mi (new_argument n) =
    Inr (put_version DSI_SERVICEBROKER_VERSION @ put_version (version_of ma mi) @
      strncpy NAME_SIZE (name @ ''_tcp'') @ replicate (n - 264) NUL)"
proof -
  let ?V = "put_version DSI_SERVICEBROKER_VERSION" and ?k = "252 - length name + (n - 260)"
  have "overwrite (new_argument n) 8 (strncpy 252 name) = (?V @ replicate 4 NUL) @ name @ replicate ?k NUL"
    using assms by (simp add: new_argument_layout overwrite_def strncpy_split flip: replicate_add)
  moreover have "strcat 8 ''_tcp'' ((?V @ replicate 4 NUL) @ name @ replicate ?k NUL) =
      Inr ((?V @ replicate 4 NUL) @ name @ ''_tcp'' @ replicate (?k - 4) NUL)"
    using assms by (intro strcat_tcp) auto
  moreover have "replicate (?k - 4) NUL = replicate (252 - length name) NUL @ replicate (n - 264) NUL"
    using assms by (simp flip: replicate_add)
  moreover have "strncpy NAME_SIZE (name @ ''_tcp'') = name @ ''_tcp'' @ replicate (252 - length name) NUL"
    using assms(2) by (simp add: strncpy_split NAME_SIZE_def)
  ultimately show ?thesis
    by (simp add: FILL_DESCRIPTION_TCP_def NAME_SIZE_def overwrite_def)
qed

lemma register_tcp_layout:
  "register_argument (put_version v @ put_version w @ strncpy NAME_SIZE name @ replicate 16 NUL) chid pid =
     put_version v @ put_version w @ strncpy NAME_SIZE name @ replicate 8 NUL @ put_u32 chid @ put_u32 pid"
  by (simp add: register_argument_def overwrite_def NAME_SIZE_def)

text \<open>A name of 252 characters or more leaves no room for the terminator in the smaller structure.\<close>

lemma attach_tcp_overruns:
  assumes "NUL \<notin> set name" "252 \<le> length name"
  shows "SBAttachInterfaceTCP pf (Some name) ma mi True s = Some (Inl Buffer_overrun)"
proof -
  have "strncpy 252 name = take 252 name" using assms(2) by (simp add: strncpy_def)
  then have m: "overwrite (new_argument 264) 8 (strncpy 252 name) =
      put_version DSI_SERVICEBROKER_VERSION @ replicate 4 NUL @ take 252 name @ replicate 4 NUL"
    using assms(2) by (simp add: new_argument_layout overwrite_def)
  obtain rest where "replicate 4 NUL = NUL # rest" by (metis numeral_eq_Suc replicate_Suc)
  then have "c_str (take 252 name @ replicate 4 NUL) = take 252 name"
    using c_str_append [of "take 252 name" rest] assms(1) by (auto dest: in_set_takeD)
  then show ?thesis
    using assms m
    by (simp add: SBAttachInterfaceTCP_def FILL_DESCRIPTION_TCP_def strcat_def NAME_SIZE_def Let_def)
qed

section \<open>What the daemon reads\<close>

lemma DCMD_values:
  "DCMD_FND_REGISTER_INTERFACE = 0xC1180500" "DCMD_FND_UNREGISTER_INTERFACE = 0xC0100501"
  "DCMD_FND_ATTACH_INTERFACE = 0xC1080502" "DCMD_FND_DETACH_INTERFACE = 0xC0100503"
  "DCMD_FND_NOTIFY_SERVER_DISCONNECT = 0xC0200504" "DCMD_FND_NOTIFY_SERVER_AVAILABLE = 0xC1180505"
  "DCMD_FND_NOTIFY_SERVER_AVAILABLE_EX = 0xC0080505" "DCMD_FND_NOTIFY_CLIENT_DETACH = 0xC0200506"
  "DCMD_FND_CLEAR_NOTIFICATION = 0xC0080507" "DCMD_FND_GET_INTERFACELIST = 0xC1040508"
  "DCMD_FND_NOTIFY_INTERFACELIST_CHANGE = 0xC0140509" "DCMD_FND_MATCH_INTERFACELIST = 0xC108050A"
  "DCMD_FND_NOTIFY_INTERFACELIST_MATCH = 0xC114050B" "DCMD_FND_REGISTER_INTERFACE_EX = 0xC018050C"
  "DCMD_FND_REGISTER_INTERFACE_GROUPID = 0xC120050D" "DCMD_FND_REGISTER_MASTER_INTERFACE_EX = 0xC008051E"
  "DCMD_FND_MASTER_PING = 0x51F" "DCMD_FND_MASTER_PING_ID = 0xC00C0520"
  "DCMD_FND_ATTACH_INTERFACE_EXTENDED = 0xC1180523" "DCMD_FND_GET_SERVER_INFORMATION = 0xC1080525"
  by (simp_all add: DCMD_defs DIOTF_def DION_def)

lemma decode_by_command:
  "decode_request st (unat DCMD_FND_REGISTER_INTERFACE) body =
     REGISTER_INTERFACE (get_ifDescription (rcvBuffer st body) 4) (get_u32 (rcvBuffer st body) 272)
       (get_u32 (rcvBuffer st body) 276)"
  "decode_request st (unat DCMD_FND_REGISTER_INTERFACE_GROUPID) body =
     REGISTER_INTERFACE_GROUPID (get_ifDescription (rcvBuffer st body) 4) (get_u32 (rcvBuffer st body) 272)
       (get_u32 (rcvBuffer st body) 276) (get_u32 (rcvBuffer st body) 280)"
  "decode_request st (unat DCMD_FND_UNREGISTER_INTERFACE) body =
     UNREGISTER_INTERFACE (get_party (rcvBuffer st body) 8)"
  "decode_request st (unat DCMD_FND_ATTACH_INTERFACE) body =
     ATTACH_INTERFACE (get_ifDescription (rcvBuffer st body) 4)"
  "decode_request st (unat DCMD_FND_ATTACH_INTERFACE_EXTENDED) body =
     ATTACH_INTERFACE_EXTENDED (get_pulse (rcvBuffer st body) 4) (get_ifDescription (rcvBuffer st body) 20)"
  "decode_request st (unat DCMD_FND_GET_SERVER_INFORMATION) body =
     GET_SERVER_INFORMATION (get_ifDescription (rcvBuffer st body) 4)"
  "decode_request st (unat DCMD_FND_DETACH_INTERFACE) body = DETACH_INTERFACE (get_party (rcvBuffer st body) 8)"
  "decode_request st (unat DCMD_FND_NOTIFY_SERVER_DISCONNECT) body =
     NOTIFY_SERVER_DISCONNECT (get_party (rcvBuffer st body) 8) (get_pulse (rcvBuffer st body) 16)"
  "decode_request st (unat DCMD_FND_NOTIFY_SERVER_AVAILABLE) body =
     NOTIFY_SERVER_AVAILABLE (get_pulse (rcvBuffer st body) 4) (get_ifDescription (rcvBuffer st body) 20)"
  "decode_request st (unat DCMD_FND_NOTIFY_CLIENT_DETACH) body =
     NOTIFY_CLIENT_DETACH (get_party (rcvBuffer st body) 8) (get_pulse (rcvBuffer st body) 16)"
  "decode_request st (unat DCMD_FND_CLEAR_NOTIFICATION) body = CLEAR_NOTIFICATION (get_u32 (rcvBuffer st body) 4)"
  "decode_request st (unat DCMD_FND_GET_INTERFACELIST) body = GET_INTERFACELIST (get_u32 (rcvBuffer st body) 4)"
  "decode_request st (unat DCMD_FND_NOTIFY_INTERFACELIST_CHANGE) body =
     NOTIFY_INTERFACELIST_CHANGE (get_pulse (rcvBuffer st body) 4)"
  "decode_request st (unat DCMD_FND_MATCH_INTERFACELIST) body =
     MATCH_INTERFACELIST (get_u32 (rcvBuffer st body) 4) (c_str (drop 8 (rcvBuffer st body)))"
  "decode_request st (unat DCMD_FND_NOTIFY_INTERFACELIST_MATCH) body =
     NOTIFY_INTERFACELIST_MATCH (get_pulse (rcvBuffer st body) 4) (c_str (drop 20 (rcvBuffer st body)))"
  by (simp_all add: decode_request_def Let_def DCMD_values)

lemma c_str_strncpy_more:
  assumes "NUL \<notin> set s" "length s < n"
  shows "c_str (strncpy n s @ rest) = s"
proof -
  obtain k where "n - length s = Suc k" using assms(2) by (metis Suc_diff_Suc)
  then show ?thesis using c_str_append [OF assms(1)] assms(2) by (simp add: strncpy_split)
qed

lemmas layouts = register_layout register_group_layout describe_layout describe_pulse_layout party_layout
  pulse_layout count_layout tcp_layout register_tcp_layout

text \<open>Every structure is complete and starts with the version of the library.\<close>

lemma api_argument_ok:
  assumes "api_ok c" "api_room c ifs"
  shows "\<exists>arg. api_argument os ifs c = Some arg \<and> api_inlen c \<le> length arg \<and>
    (\<exists>rest. take (api_inlen c) arg = put_version DSI_SERVICEBROKER_VERSION @ rest) \<and>
    carries os c (decode_request st (unat (api_cmd c)) (take (api_inlen c) arg))"
  using assms
  by (cases c)
    (simp_all add: api_ok_def api_room_def layouts [unfolded NAME_SIZE_def]
      NAME_SIZE_def decode_by_command rcvBuffer_short rcvBuffer_size_def get_ifDescription_def describes_def
      get_drop [of _ "numeral n" for n] get_put c_str_strncpy_more)

section \<open>Responses fit\<close>

text \<open>
  A message context whose response is deferred, or whose response has at most \<open>n\<close> bytes and a return
  code of 32 bits.
\<close>

definition reply_ok :: "nat \<Rightarrow> message \<Rightarrow> bool" where
  "reply_ok n m \<longleftrightarrow>
     m_state m = State_DEFERRED \<or>
     is_int32 (m_returncode m) \<and>
     (case m_body m of
        Some p \<Rightarrow> m_ancillary m = [] \<and> body_size p \<le> n
      | None \<Rightarrow> m_returncode m \<le> 0 \<longrightarrow> sum_list (map ancillary_size (m_ancillary m)) \<le> n)"

text \<open>A context nothing has been written to.\<close>

definition blank :: "message \<Rightarrow> bool" where
  "blank m \<longleftrightarrow> msg_open m \<and> m_ancillary m = [] \<and> m_body m = None"

lemma open_message_blank [simp]: "blank open_message"
  by (simp add: blank_def)

lemma status_is_int32 [simp]: "is_int32 (status_code e)"
  by (cases e) (simp_all add: is_int32_def)

lemma small_is_int32 [simp]:
  "is_int32 0" "is_int32 1" "(numeral k :: int) < 2147483648 \<Longrightarrow> is_int32 (numeral k)"
  by (simp_all add: is_int32_def)

lemma reply_ok_blank [simp]:
  "blank m \<Longrightarrow> is_int32 r \<Longrightarrow> reply_ok n (prepareResponse r f m)"
  "blank m \<Longrightarrow> is_int32 r \<Longrightarrow> body_size p \<le> n \<Longrightarrow> reply_ok n (prepareResponse_data r (Some p) m)"
  "reply_ok n (deferResponse m)"
  by (simp_all add: reply_ok_def blank_def)

lemma register_replies:
  assumes "blank m"
  shows "reply_ok 8 (snd (handleRegisterInterface E c ifd chid pid b m))"
    and "reply_ok 8 (snd (handleRegisterInterfaceGroupID E c ifd chid pid g b m))"
    and "reply_ok 0 (snd (handleUnregisterInterface E c s b m))"
  using assms
  by (simp_all add: handleRegisterInterface_def handleRegisterInterfaceGroupID_def handleUnregisterInterface_def
      Let_def case_prod_beta split: option.splits)

lemma notify_replies:
  assumes "blank m"
  shows "reply_ok 4 (snd (handleNotifyServerDisconnect E c s p b m))"
    and "reply_ok 4 (snd (handleNotifyServerAvailable E c p ifd b m))"
    and "reply_ok 4 (snd (handleNotifyClientDetach E c s p b m))"
    and "reply_ok 0 (snd (handleClearNofification c i b m))"
    and "reply_ok 4 (snd (handleNotifyInterfaceListChange E c p b m))"
    and "reply_ok 4 (snd (handleNotifyInterfaceListMatch E c p r b m))"
  using assms
  by (simp_all add: handleNotifyServerDisconnect_def handleNotifyServerAvailable_def handleNotifyClientDetach_def
      handleClearNofification_def handleNotifyInterfaceListChange_def handleNotifyInterfaceListMatch_def
      Let_def case_prod_beta split: option.splits sum.splits prod.splits)

lemma forward_attach_blank:
  "m_state (snd (snd (snd (forwardAttachExtendedToMaster E c p ifd b m)))) = State_DEFERRED \<or>
   snd (snd (snd (forwardAttachExtendedToMaster E c p ifd b m))) = m"
  by (simp add: forwardAttachExtendedToMaster_def forward_attach_request_def Let_def case_prod_beta)

lemma attach_replies:
  assumes "blank m"
  shows "reply_ok 32 (snd (handleAttachInterface E c ifd b m))"
    and "reply_ok 40 (snd (handleAttachInterfaceExtended E c p ifd b m))"
    and "reply_ok 24 (snd (handleGetServerInformation c ifd b m))"
    and "reply_ok 0 (snd (handleDetachInterface E c i b m))"
proof -
  obtain result out b1 m1 where f: "forwardAttachExtendedToMaster E c p ifd b m = (result, out, b1, m1)"
    by (metis prod_cases4)
  have m1: "m_state m1 = State_DEFERRED \<or> m1 = m" using forward_attach_blank [of E c p ifd b m] f by simp
  have "m_state m \<noteq> State_DEFERRED" using assms by (simp add: blank_def msg_open_def)
  then have "reply_ok 40 m1 \<or> m1 = m" using m1 by (auto simp: reply_ok_def)
  then have fwd: "reply_ok 40 (snd (if m_state m1 = State_DEFERRED then (b1, m1)
      else if result = FNDUnknownInterface
      then (b1, prepareResponse_data (status_code result) (Some (BodyAttachExtended None i)) m1)
      else (b1, prepareResponse (status_code result) False m1)))" for i
    using m1 assms \<open>m_state m \<noteq> State_DEFERRED\<close> by auto
  have loc: "reply_ok 40 (snd (handleAttachInterfaceExtended_local E c e b m))" for e
    using assms by (simp add: handleAttachInterfaceExtended_local_def split: option.splits sum.splits prod.splits)
  show "reply_ok 40 (snd (handleAttachInterfaceExtended E c p ifd b m))"
    using assms loc fwd f
    by (simp add: handleAttachInterfaceExtended_def split: option.splits sum.splits prod.splits)
qed (use assms in \<open>simp_all add: handleAttachInterface_def handleGetServerInformation_def handleDetachInterface_def
      Let_def case_prod_beta split: option.splits sum.splits prod.splits\<close>)

text \<open>The lists: at most as many elements as the caller has room for.\<close>

lemma list_reply:
  assumes "msg_open m" "m_body m = None" "m_ancillary m = map anc_interface es" "260 * length es \<le> n" "n < 2 ^ 31"
  shows "reply_ok n (prepareResponse (- int (length es)) f m)"
proof -
  have "map ancillary_size (map anc_interface es) = map (\<lambda>_. 260) es" by (simp add: anc_interface_def)
  then have "sum_list (map ancillary_size (map anc_interface es)) = 260 * length es"
    by (simp only: sum_list_triv [of 260 es]) simp
  then show ?thesis using assms by (simp add: reply_ok_def is_int32_def)
qed

lemma fold_write_body: "m_body (fold (\<lambda>e. writeAncillaryData (f e)) xs m) = m_body m"
  by (induction xs arbitrary: m) (simp_all add: writeAncillaryData_def)

lemma get_list_reply:
  assumes "blank m" "260 * unat k \<le> n" "n < 2 ^ 31"
  shows "reply_ok n (snd (handleGetInterfaceList c k b m))"
proof -
  let ?es = "sl_entries (mConnectedServers b)" and ?v = "visible (mConnections b c)"
  have "length (filter ?v ?es) \<le> length ?es" by (rule length_filter_le)
  then have "260 * length (filter ?v ?es) \<le> n" if "length ?es \<le> unat k" using that assms(2) by linarith
  then show ?thesis
    using assms
    by (auto simp: handleGetInterfaceList_def Let_def blank_def fold_write_open fold_write_body
        fold_write_ancillary intro!: list_reply)
qed

lemma match_loop_reply:
  assumes "msg_open m" "m_body m = None" "m_ancillary m = map anc_interface xs" "cnt = int (length xs)" "cnt \<le> k"
    "0 \<le> k"
  shows "let (ok, cnt', m') = match_loop E r ctx k es cnt m in
    msg_open m' \<and> m_body m' = None \<and>
    (\<exists>ys. m_ancillary m' = map anc_interface ys \<and> cnt' = int (length ys) \<and> cnt' \<le> k)"
  using assms
proof (induction es arbitrary: cnt m xs)
  case (Cons e es)
  show ?case
  proof (cases "e_regexec E r (se_name e) \<and> cnt < k \<and> visible ctx e")
    case True
    have "m_ancillary (writeAncillaryData (anc_interface e) m) = map anc_interface (xs @ [e])"
      "m_body (writeAncillaryData (anc_interface e) m) = None"
      using Cons.prems by (simp_all add: writeAncillaryData_def msg_open_def)
    with Cons.IH [of "writeAncillaryData (anc_interface e) m" "xs @ [e]" "cnt + 1"] Cons.prems True
    show ?thesis by simp
  next
    case False
    then show ?thesis using Cons.IH [of m xs cnt] Cons.prems by auto
  qed
qed auto

lemma match_list_reply:
  assumes "blank m" "e_regcomp E r" "0 \<le> sint k" "260 * nat (sint k) \<le> n" "n < 2 ^ 31"
  shows "reply_ok n (snd (handleMatchInterfaceList E c k r b m))"
proof (cases "isMasterConnected b")
  case True
  then show ?thesis using assms(2) by (simp add: handleMatchInterfaceList_def)
next
  case False
  obtain ok cnt m' where l: "match_loop E r (mConnections b c) (sint k) (sl_entries (mConnectedServers b)) 0 m =
      (ok, cnt, m')" by (metis prod_cases3)
  from match_loop_reply [of m "[]" 0 "sint k" E r "mConnections b c" "sl_entries (mConnectedServers b)"] assms l
  obtain ys where ys: "msg_open m'" "m_body m' = None" "m_ancillary m' = map anc_interface ys"
    "cnt = int (length ys)" "cnt \<le> sint k" by (auto simp: blank_def)
  have len: "260 * length ys \<le> n" using ys(4,5) assms(4) by linarith
  have "reply_ok n (prepareResponse (- cnt) False m')"
    using list_reply [OF ys(1-3) len assms(5), of False] ys(4) by simp
  moreover have "reply_ok n (prepareResponse (status_code FNDBadArgument) False m')"
    using ys by (simp add: reply_ok_def is_int32_def)
  ultimately show ?thesis using False assms(2) l by (simp add: handleMatchInterfaceList_def)
qed

section \<open>Calls and handlers\<close>

text \<open>Element counts whose arrays fit into memory; the group registration is treated below.\<close>

definition api_counts :: "api_call \<Rightarrow> bool" where
  "api_counts c =
     (case c of Get_list n \<Rightarrow> 0 < n \<and> 260 * n < 2 ^ 31 | Match_list r n \<Rightarrow> 0 < n \<and> 260 * n < 2 ^ 31
      | _ \<Rightarrow> True)"

definition api_regex :: "env \<Rightarrow> api_call \<Rightarrow> bool" where
  "api_regex E c = (case c of Match_list r n \<Rightarrow> e_regcomp E r | _ \<Rightarrow> True)"

fun is_group :: "api_call \<Rightarrow> bool" where
  "is_group (Register_group _ _ _ _ _) = True"
| "is_group _ = False"

definition stack_ok :: "stack \<Rightarrow> bool" where
  "stack_ok st \<longleftrightarrow> rcvBuffer_size \<le> length (st_rcvBuffer st)"

lemma descr_bytes_exact:
  assumes "session_platform pf" "0 < n" "260 * n < 2 ^ 31"
  shows "descr_bytes pf n sizeof_ifDescription = 260 * nat n"
proof -
  have "n * 260 < 2 ^ 32" using assms(3) by simp
  also have "(2::int) ^ 32 \<le> 2 ^ size_bits pf"
    using assms(1) by (intro power_increasing) (auto simp: session_platform_def)
  finally have "n * 260 < 2 ^ size_bits pf" .
  then show ?thesis
    using assms(2) by (simp add: descr_bytes_def sizeof_ifDescription_def nat_mult_distrib mult.commute)
qed

lemma count_word:
  assumes "0 < n" "260 * n < 2 ^ 31"
  shows "unat (word_of_int n :: u32) = nat n" "sint (word_of_int n :: u32) = n"
proof -
  show "unat (word_of_int n :: u32) = nat n" using assms by (simp add: unat_eq_nat_uint uint_word_of_int)
  have "signed_take_bit 31 n = n" using assms by (intro signed_take_bit_int_eq_self) auto
  then show "sint (word_of_int n :: u32) = n" by (simp add: int_word_sint [symmetric] sint_sbintrunc')
qed

lemma carries_known:
  "carries os c req \<Longrightarrow> req \<noteq> MASTER_PING \<and> (\<forall>d. req \<noteq> OTHER_COMMAND d)"
  by (cases c) auto

lemma carries_length:
  "carries os c req \<Longrightarrow> length_ok req (buffer_read (api_inlen c) rcvBuffer_size) \<longleftrightarrow> \<not> is_group c"
  by (cases c) (auto simp: buffer_read_def rcvBuffer_size_def Let_def)

lemma carries_reply:
  assumes "carries os c req" "session_platform pf" "api_counts c" "\<not> bad_match E req"
  shows "reply_ok (api_outlen pf c) (snd (handle_request E a req b open_message))"
proof (cases c)
  case (Get_list n)
  then have n: "0 < n" "260 * n < 2 ^ 31" using assms(3) by (simp_all add: api_counts_def)
  then have "260 * nat n < 2 ^ 31" by simp
  then show ?thesis
    using Get_list assms(1) get_list_reply [of open_message "word_of_int n" "260 * nat n"]
    by (simp add: descr_bytes_exact [OF assms(2) n] count_word [OF n])
next
  case (Match_list r n)
  then have n: "0 < n" "260 * n < 2 ^ 31" using assms(3) by (simp_all add: api_counts_def)
  then have "260 * nat n < 2 ^ 31" by simp
  then show ?thesis
    using Match_list assms(1,4) n match_list_reply [of open_message E r "word_of_int n" "260 * nat n"]
    by (simp add: descr_bytes_exact [OF assms(2) n] count_word [OF n] bad_match_def)
qed (use assms(1) in \<open>auto simp: register_replies notify_replies attach_replies\<close>)

text \<open>
  From the call to the handler: the daemon hands the bytes of a call to the handler of the request
  with its arguments, and the response fits into the buffer of the call.
\<close>

lemma version_of_request:
  "length body \<le> rcvBuffer_size \<Longrightarrow> body = put_version v @ rest \<Longrightarrow> get_version (rcvBuffer st body) 0 = v"
  by (simp add: rcvBuffer_short get_put)

lemma api_inlen_bounds: "4 \<le> api_inlen c" "api_inlen c \<le> rcvBuffer_size"
  by (cases c; simp add: rcvBuffer_size_def)+

lemma api_request_handled:
  assumes "session_platform pf" "api_ok c" "api_counts c" "\<not> is_group c" "api_argument os ifs c = Some arg"
    "api_regex E c"
  shows "\<exists>req b' m. carries os c req \<and> handle_request E a req b open_message = (b', m) \<and>
    reply_ok (api_outlen pf c) m \<and>
    sb_dispatch E st a (unat (api_cmd c)) (take (api_inlen c) arg) b =
      (message_answer (rcvBuffer st (take (api_inlen c) arg)) m, b')"
proof -
  have room: "api_room c ifs" using assms(5) by (auto simp: api_room_def split: api_call.splits if_splits)
  let ?body = "take (api_inlen c) arg" and ?req = "decode_request st (unat (api_cmd c)) (take (api_inlen c) arg)"
  obtain rest where a: "api_inlen c \<le> length arg" "?body = put_version DSI_SERVICEBROKER_VERSION @ rest"
    "carries os c ?req"
    using api_argument_ok [OF assms(2) room, of os st] assms(5) by auto
  have len: "length ?body = api_inlen c" using a(1) by simp
  obtain b' m where h: "handle_request E a ?req b open_message = (b', m)" by force
  have bad: "\<not> bad_match E ?req" using a(3) assms(6) by (cases c) (auto simp: bad_match_def api_regex_def)
  have "check_version (get_version (rcvBuffer st ?body) 0)"
    using version_of_request [OF _ a(2)] len api_inlen_bounds(2) check_library_version by simp
  then have "sb_dispatch E st a (unat (api_cmd c)) ?body b = (message_answer (rcvBuffer st ?body) m, b')"
    using sb_dispatch_handled [OF refl _ _ _ _ _ bad h] carries_known [OF a(3)] carries_length [OF a(3)]
      len api_inlen_bounds(1) [of c] assms(4) by simp
  moreover have "reply_ok (api_outlen pf c) m"
    using carries_reply [OF a(3) assms(1,3) bad, of a b] h by simp
  ultimately show ?thesis using a(3) h by blast
qed

text \<open>The group registration is never understood: its structure is four bytes shorter than the union.\<close>

lemma group_request_refused:
  assumes "is_group c" "api_ok c" "api_argument os ifs c = Some arg"
  shows "sb_dispatch E st a (unat (api_cmd c)) (take (api_inlen c) arg) b =
    (Answer (status_code FNDInternalError) [] None, b)"
proof -
  have room: "api_room c ifs" using assms(1) by (cases c) (simp_all add: api_room_def)
  let ?body = "take (api_inlen c) arg" and ?req = "decode_request st (unat (api_cmd c)) (take (api_inlen c) arg)"
  obtain rest where a: "api_inlen c \<le> length arg" "?body = put_version DSI_SERVICEBROKER_VERSION @ rest"
    "carries os c ?req"
    using api_argument_ok [OF assms(2) room, of os st] assms(3) by auto
  have len: "length ?body = api_inlen c" using a(1) by simp
  have "check_version (get_version (rcvBuffer st ?body) 0)"
    using version_of_request [OF _ a(2)] len api_inlen_bounds(2) check_library_version by simp
  then show ?thesis
    using sb_dispatch_wrong_length [OF refl, of st "unat (api_cmd c)" ?body E a b] carries_known [OF a(3)]
      carries_length [OF a(3)] len api_inlen_bounds(1) [of c] assms(1) by simp
qed

text \<open>The response as the client sees it.\<close>

definition reply_body :: "char list \<Rightarrow> message \<Rightarrow> char list" where
  "reply_body mem m = snd (response_parts (message_answer mem m))"

lemma reply_parts:
  assumes "reply_ok n m" "m_state m \<noteq> State_DEFERRED" "40 \<le> length mem"
  shows "response_parts (message_answer mem m) = (m_returncode m, reply_body mem m)"
    "length (reply_body mem m) \<le> n" "is_int32 (m_returncode m)" "plain_answer (message_answer mem m)"
proof -
  have "length (concat (map anc_bytes xs)) = sum_list (map ancillary_size xs)" for xs
    by (induction xs) simp_all
  then show "length (reply_body mem m) \<le> n" "response_parts (message_answer mem m) = (m_returncode m, reply_body mem m)"
    "is_int32 (m_returncode m)" "plain_answer (message_answer mem m)"
    using assms
    by (auto simp: reply_ok_def reply_body_def response_parts_def message_answer_def plain_answer_def comp_def
        split: option.splits)
qed

section \<open>The whole way\<close>

lemma sint_mod: "nat (sint (w :: u32) mod 2 ^ 32) = unat w"
proof -
  have "uint w = take_bit LENGTH(32) (sint w)" by (rule uint_sint)
  also have "\<dots> = sint w mod 2 ^ LENGTH(32)" by (rule take_bit_eq_mod)
  finally have u: "uint w = sint w mod 2 ^ LENGTH(32)" .
  have "LENGTH(32) = 32" by simp
  then show ?thesis unfolding unat_eq_nat_uint u by (simp only:)
qed

lemma call_answered:
  assumes "session_platform pf" "inputlen \<le> length arg" "sk_in s = response_frame ans @ rest"
    "response_parts ans = (val, rbody)" "length rbody \<le> outputlen" "length rbody < 2 ^ 31" "is_int32 val"
    "completes inputlen (length rbody) outputlen (sk_calls s) = Some cs"
  shows "\<exists>e. sendAndReceive pf cmd arg inputlen outputlen s =
    Some (0, Some val, overwrite arg 0 rbody,
      s\<lparr> sk_out := sk_out s @ request_frame cmd (take inputlen arg), sk_in := rest, sk_calls := cs,
         sk_errno := e \<rparr>)"
  using sendAndReceive_ok [OF assms(1,2) _ assms(6,7), of s rest outputlen cs cmd] assms
  by (simp add: response_frame_def)

lemma lib_call_answered:
  assumes "session_platform pf" "inputlen \<le> length arg" "sk_in s = response_frame ans @ rest"
    "response_parts ans = (val, rbody)" "length rbody \<le> outputlen" "length rbody < 2 ^ 31" "is_int32 val"
    "completes inputlen (length rbody) outputlen (sk_calls s) = Some cs"
  shows "\<exists>e. lib_call pf cmd arg inputlen outputlen get s =
    Some (val, if val = 0 then Some (get (overwrite arg 0 rbody)) else None,
      s\<lparr> sk_out := sk_out s @ request_frame (sint cmd) (take inputlen arg), sk_in := rest, sk_calls := cs,
         sk_errno := e \<rparr>)"
proof -
  obtain e where "sendAndReceive pf (sint cmd) arg inputlen outputlen (s\<lparr> sk_errno := EINVAL \<rparr>) =
    Some (0, Some val, overwrite arg 0 rbody,
      s\<lparr> sk_out := sk_out s @ request_frame (sint cmd) (take inputlen arg), sk_in := rest, sk_calls := cs,
         sk_errno := e \<rparr>)"
    using call_answered [OF assms(1,2) _ assms(4-7), of "s\<lparr> sk_errno := EINVAL \<rparr>" rest cs "sint cmd"] assms(3,8)
    by auto
  then show ?thesis by (intro exI [of _ e]) (simp add: lib_call_def call_out_def stored_rc_def)
qed

lemma api_outlen_bound: "session_platform pf \<Longrightarrow> api_counts c \<Longrightarrow> api_outlen pf c < 2 ^ 31"
  by (cases c) (auto simp: api_counts_def descr_bytes_exact)

lemma api_cmd_no_ping: "unat (api_cmd c) \<noteq> ping_id_command"
  unfolding ping_id_command_def by (cases c) (simp_all add: DCMD_values unat_eq_nat_uint DIOTF_def)

lemma rcvBuffer_length: "stack_ok st \<Longrightarrow> rcvBuffer_size \<le> length (rcvBuffer st body)"
  by (simp add: stack_ok_def rcvBuffer_def overwrite_def)

text \<open>
  A call of the library and the session of the daemon that serves it: the client gets the return code
  and the bytes of the handler's response, the daemon is in the state the handler left, and both
  ends are ready for the next request.
\<close>

lemma library_call_served:
  assumes pf: "session_platform pf" and st: "stack_ok st"
    and c: "api_ok c" "api_counts c" "\<not> is_group c" "api_argument os ifs c = Some arg"
      "api_regex E c"
    and cl: "sv_obj sv a = Some cl" "session_ready cl"
    and d: "sb_dispatch E st a (unat (api_cmd c)) (take (api_inlen c) arg) (sv_broker sv) = (ans, b')"
      "ans \<noteq> Defer_answer"
    and io: "concat bss = request_frame (sint (api_cmd c)) (take (api_inlen c) arg)"
      "fits (length (concat bss)) 0 bss" "socket_takes ws (length (response_frame ans)) ns"
    and s: "sk_in s = response_frame ans @ rest"
      "completes (api_inlen c) (length (snd (response_parts ans))) (api_outlen pf c) (sk_calls s) = Some cs"
  shows "\<exists>req m e sv1 cl'. carries os c req \<and>
    handle_request E a req (sv_broker sv) open_message = (b', m) \<and>
    sendAndReceive pf (sint (api_cmd c)) arg (api_inlen c) (api_outlen pf c) s =
      Some (0, Some (m_returncode m), overwrite arg 0 (reply_body (rcvBuffer st (take (api_inlen c) arg)) m),
        s\<lparr> sk_out := sk_out s @ concat bss, sk_in := rest, sk_calls := cs, sk_errno := e \<rparr>) \<and>
    feed pf (sb_interface E st) ws a bss sv = Inr sv1 \<and>
    drain pf (sb_interface E st) a ns sv1 = Inr ((put_client a cl' sv)\<lparr> sv_broker := b' \<rparr>) \<and>
    session_ready cl' \<and> cl_sent cl' = cl_sent cl @ response_frame ans"
proof -
  let ?body = "take (api_inlen c) arg" and ?mem = "rcvBuffer st (take (api_inlen c) arg)"
  obtain req m where r: "carries os c req" "handle_request E a req (sv_broker sv) open_message = (b', m)"
    "reply_ok (api_outlen pf c) m" "ans = message_answer ?mem m"
    using api_request_handled [OF pf c, where a = a and b = "sv_broker sv" and st = st] d(1) by auto
  have nd: "m_state m \<noteq> State_DEFERRED" using d(2) r(4) by (auto simp: message_answer_def)
  have mem: "40 \<le> length ?mem" using rcvBuffer_length [OF st, of ?body] by (simp add: rcvBuffer_size_def)
  note p = reply_parts [OF r(3) nd mem]
  have rb: "response_parts ans = (m_returncode m, reply_body ?mem m)" using p(1) r(4) by simp
  have room: "api_room c ifs" using c(4) by (auto simp: api_room_def split: api_call.splits if_splits)
  have len: "api_inlen c \<le> length arg" using api_argument_ok [OF c(1) room, of os st] c(4) by auto
  have small: "length (reply_body ?mem m) < 2 ^ 31" using p(2) api_outlen_bound [OF pf c(2)] by simp
  have "length ?body < 2 ^ 31" using api_inlen_bounds(2) [of c] by (simp add: rcvBuffer_size_def)
  moreover have "bi_dispatch (sb_interface E st) a (nat (sint (api_cmd c) mod 2 ^ 32)) ?body (sv_broker sv) = (ans, b')"
    using d(1) by (simp only: sint_mod) (simp add: sb_interface_def)
  moreover have "nat (sint (api_cmd c) mod 2 ^ 32) \<noteq> ping_id_command"
    unfolding sint_mod by (rule api_cmd_no_ping)
  moreover have "plain_answer ans" using p(4) r(4) by simp
  moreover have "fits (length (request_frame (sint (api_cmd c)) ?body)) 0 bss" using io(1,2) by simp
  ultimately obtain sv1 cl' where "feed pf (sb_interface E st) ws a bss sv = Inr sv1"
    "drain pf (sb_interface E st) a ns sv1 = Inr ((put_client a cl' sv)\<lparr> sv_broker := b' \<rparr>)"
    "session_ready cl'" "cl_sent cl' = cl_sent cl @ response_frame ans"
    using request_answered [OF pf cl _ _ _ _ rb small io(1) _ io(3)] by blast
  moreover obtain e where "sendAndReceive pf (sint (api_cmd c)) arg (api_inlen c) (api_outlen pf c) s =
      Some (0, Some (m_returncode m), overwrite arg 0 (reply_body ?mem m),
        s\<lparr> sk_out := sk_out s @ concat bss, sk_in := rest, sk_calls := cs, sk_errno := e \<rparr>)"
    using call_answered [OF pf len s(1) rb p(2) small p(3), of cs "sint (api_cmd c)"] s(2) rb io(1) by auto
  ultimately show ?thesis using r(1,2) by blast
qed

text \<open>
  The return code is stored before the body of the response has been read: when the connection breaks
  in between, a registration the daemon accepted returns 0 and no server id.
\<close>

lemma success_without_result:
  assumes "sk_in s = frame_header 8 0" "sk_calls s = [Did 296, Did 16, Did 8]"
    "session_platform pf" "inputlen = 280" "280 \<le> length arg"
  shows "\<exists>s'. lib_call pf cmd arg inputlen 8 get s = Some (0, None, s')"
proof -
  let ?f = "\<lparr> iov_base = Some (INIT_REQUEST_FRAME 280 (sint cmd)), iov_len = sizeof_frame \<rparr>"
  let ?v = "\<lparr> iov_base = Some arg, iov_len = 280 \<rparr>" and ?s = "s\<lparr> sk_errno := EINVAL \<rparr>"
  have "list_all iov_ok [?f, ?v]" "length (iov_bytes [?f, ?v]) = 296"
    using assms(5) by (simp_all add: iov_ok_def iov_data_def INIT_REQUEST_FRAME_def sizeof_frame_def)
  with sendiov_ok [of ?f 296 ?s "[Did 16, Did 8]" "[?v]"] assms(2) obtain e where snt:
    "sendiov [?f, ?v] 296 ?s = Some (False,
       s\<lparr> sk_out := sk_out s @ iov_bytes [?f, ?v], sk_calls := [Did 16, Did 8], sk_errno := e \<rparr>)"
    by (auto simp: sizeof_frame_def)
  let ?s1 = "s\<lparr> sk_out := sk_out s @ iov_bytes [?f, ?v], sk_calls := [Did 16, Did 8], sk_errno := e \<rparr>"
  from recvAll_ok [of 16 ?s1 "[Did 8]"] assms(1) obtain e' where hdr:
    "cio_recvAll sizeof_frame ?s1 = Some (False, frame_header 8 0,
       ?s1\<lparr> sk_in := [], sk_calls := [Did 8], sk_errno := e' \<rparr>)"
    by (auto simp: sizeof_frame_def)
  let ?s2 = "?s1\<lparr> sk_in := [], sk_calls := [Did 8], sk_errno := e' \<rparr>"
  have body: "cio_recvAll 8 ?s2 = Some (True, [], ?s2\<lparr> sk_calls := [] \<rparr>)"
    by (rule recvAll_eof) simp_all
  have f: "of_le (take 4 (frame_header 8 0)) = SB_FRAME_MAGIC" "as_int32 (of_le (take 4 (drop 8 (frame_header 8 0)))) = 0"
    "nat (as_int32 (of_le (take 4 (drop 4 (frame_header 8 0)))) mod 2 ^ size_bits pf) = 8"
    using frame_header_fields [of 8 0 "[]"] size_mod [OF assms(3), of 8] by (simp_all add: as_int32_def)
  have "recv_response pf [8] ?s1 = Some (True, Some 0, [[]], ?s2\<lparr> sk_calls := [] \<rparr>)"
    using hdr body f by (simp add: recv_response_def Let_def)
  then show ?thesis
    using snt assms(4)
    by (simp add: lib_call_def sendAndReceive_def sendAndReceiveV_def Let_def call_out_def stored_rc_def
        sizeof_frame_def)
qed

section \<open>A call with a typed result\<close>

lemma answered_with_data:
  assumes "blank m"
  shows "m_body (snd (handleRegisterInterface E c ifd chid pid b m)) = Some p \<Longrightarrow>
      m_state (snd (handleRegisterInterface E c ifd chid pid b m)) = State_SENT"
    and "m_body (snd (handleAttachInterface E c ifd b m)) = Some p \<Longrightarrow>
      m_state (snd (handleAttachInterface E c ifd b m)) = State_SENT"
  using assms
  by (auto simp: handleRegisterInterface_def handleAttachInterface_def Let_def case_prod_beta blank_def
      prepareResponse_def prepareResponse_data_def deferResponse_def msg_open_def
      split: option.splits sum.splits prod.splits)

lemma reply_body_data:
  assumes "reply_ok n m" "m_state m = State_SENT" "m_body m = Some p"
  shows "reply_body mem m = body_bytes mem p"
  using assms by (simp add: reply_body_def response_parts_def message_answer_def)

lemma get_overwritten:
  "get_party (overwrite arg 0 (put_party p)) 0 = p"
  "get_connection (overwrite arg 0 (put_connection ci)) 0 = ci"
  "get_u32 (overwrite arg 0 (put_u32 n)) 0 = n"
  by (simp_all add: overwrite_def get_put)

text \<open>The daemon's side of a call that does not use an array of the caller.\<close>

definition daemon_call :: "env \<Rightarrow> stack \<Rightarrow> addr \<Rightarrow> client_os \<Rightarrow> api_call \<Rightarrow> broker \<Rightarrow> answer \<times> broker" where
  "daemon_call E st a os c b =
     sb_dispatch E st a (unat (api_cmd c)) (take (api_inlen c) (the (api_argument os [] c))) b"

lemma daemon_call_handled:
  assumes "session_platform pf" "stack_ok st" "api_ok c" "api_counts c" "\<not> is_group c"
    "api_argument os [] c = Some arg" "api_regex E c"
  shows "\<exists>req mem. carries os c req \<and> 40 \<le> length mem \<and>
    reply_ok (api_outlen pf c) (snd (handle_request E a req b open_message)) \<and>
    daemon_call E st a os c b =
      (message_answer mem (snd (handle_request E a req b open_message)),
       fst (handle_request E a req b open_message))"
proof -
  let ?mem = "rcvBuffer st (take (api_inlen c) arg)"
  have "40 \<le> length ?mem"
    using rcvBuffer_length [OF assms(2)] by (rule order_trans [rotated]) (simp add: rcvBuffer_size_def)
  moreover obtain req b' m where "carries os c req" "handle_request E a req b open_message = (b', m)"
    "reply_ok (api_outlen pf c) m"
    "sb_dispatch E st a (unat (api_cmd c)) (take (api_inlen c) arg) b = (message_answer ?mem m, b')"
    using api_request_handled [OF assms(1,3-7), of a b st] by blast
  ultimately show ?thesis using assms(6) by (intro exI [of _ req] exI [of _ ?mem]) (simp add: daemon_call_def)
qed

lemma daemon_register:
  assumes "session_platform pf" "NUL \<notin> set name" "length name < NAME_SIZE" "stack_ok st"
  obtains ifd mem where "describes ifd name ma mi" "40 \<le> length mem"
    "reply_ok 8 (snd (handleRegisterInterface E a ifd (word_of_int chid) (os_getpid os) b open_message))"
    "daemon_call E st a os (Register name ma mi chid) b =
      (message_answer mem (snd (handleRegisterInterface E a ifd (word_of_int chid) (os_getpid os) b open_message)),
       fst (handleRegisterInterface E a ifd (word_of_int chid) (os_getpid os) b open_message))"
  using daemon_call_handled [OF assms(1,4) _ _ _ api_argument.simps(1), where E = E and a = a and b = b and os = os] assms(2,3)
  by (force simp: api_ok_def api_counts_def api_regex_def)

lemma daemon_attach:
  assumes "session_platform pf" "NUL \<notin> set name" "length name < NAME_SIZE" "stack_ok st"
  obtains ifd mem where "describes ifd name ma mi" "40 \<le> length mem"
    "reply_ok 32 (snd (handleAttachInterface E a ifd b open_message))"
    "daemon_call E st a os (Attach name ma mi) b =
      (message_answer mem (snd (handleAttachInterface E a ifd b open_message)),
       fst (handleAttachInterface E a ifd b open_message))"
  using daemon_call_handled [OF assms(1,4) _ _ _ api_argument.simps(5), where E = E and a = a and b = b and os = os] assms(2,3)
  by (force simp: api_ok_def api_counts_def api_regex_def)

lemma describes_check:
  assumes "describes ifd name ma mi" "length name < NAME_SIZE" "list_all readable name"
    "version_of ma mi \<noteq> version_of 0 0"
  shows "check_ifDescription ifd"
  using assms by (auto simp: check_ifDescription_iff describes_def version_of_def)

lemma SBRegisterInterface_result:
  assumes "session_platform pf" "sk_in s = response_frame (message_answer mem m) @ rest" "40 \<le> length mem"
    "reply_ok 8 m" "m_state m = State_SENT" "m_returncode m = 0" "m_body m = Some (BodyServerID p)"
    "completes 280 8 8 (sk_calls s) = Some cs"
  shows "\<exists>s'. SBRegisterInterface pf os (Some name) ma mi chid True s = Some (0, Some p, s') \<and>
    sk_in s' = rest \<and> sk_calls s' = cs"
proof -
  have nd: "m_state m \<noteq> State_DEFERRED" using assms(5) by simp
  note r = reply_parts [OF assms(4) nd assms(3)]
  have rb: "reply_body mem m = put_party p" using reply_body_data [OF assms(4,5,7)] by simp
  let ?arg = "register_argument (FILL_DESCRIPTION 4 name ma mi (new_argument 280)) (word_of_int chid) (os_getpid os)"
  have len: "280 \<le> length ?arg" by (simp add: register_layout NAME_SIZE_def)
  show ?thesis
    using lib_call_answered [OF assms(1) len assms(2) r(1,2) _ r(3), of cs DCMD_FND_REGISTER_INTERFACE "\<lambda>res. get_party res 0"] assms(6,8)
    by (auto simp: SBRegisterInterface_def rb get_overwritten)
qed

lemma SBAttachInterface_result:
  assumes "session_platform pf" "sk_in s = response_frame (message_answer mem m) @ rest" "40 \<le> length mem"
    "reply_ok 32 m" "m_state m = State_SENT" "m_returncode m = 0" "m_body m = Some (BodyConnection ci)"
    "completes 264 32 32 (sk_calls s) = Some cs"
  shows "\<exists>s'. SBAttachInterface pf (Some name) ma mi True s = Some (0, Some ci, s') \<and>
    sk_in s' = rest \<and> sk_calls s' = cs"
proof -
  have nd: "m_state m \<noteq> State_DEFERRED" using assms(5) by simp
  note r = reply_parts [OF assms(4) nd assms(3)]
  have rb: "reply_body mem m = put_connection ci" using reply_body_data [OF assms(4,5,7)] by simp
  let ?arg = "FILL_DESCRIPTION 4 name ma mi (new_argument 264)"
  have len: "264 \<le> length ?arg" by (simp add: describe_layout NAME_SIZE_def)
  show ?thesis
    using lib_call_answered [OF assms(1) len assms(2) r(1,2) _ r(3), of cs DCMD_FND_ATTACH_INTERFACE "\<lambda>res. get_connection res 0"] assms(6,8)
    by (auto simp: SBAttachInterface_def rb get_overwritten)
qed

end
