(* ===== verification/Broker_Access.thy ===== *)
theory Broker_Access
  imports Client_Lib_Spec Comm_Engine
begin

text \<open>
  \<^verbatim>\<open>src/base/CServicebroker.cpp\<close>: the calls of the servers and clients of the stub library to the servicebroker, over the
  functions of the client library. All of them share one connection, which the first one opens. The kernel gives
  a socket for each attempt to open it (\<open>ac_tries\<close>, in order), with the answers to all later calls on it. The mutex around the handle
  makes getting it one step.
\<close>

section \<open>The connection\<close>

record sb_access =
  ac_handle :: int
  ac_sock :: sock
  ac_tries :: "sock list"

definition EBADF :: int where "EBADF = 9"

text \<open>What a call on a descriptor that is none meets.\<close>

definition bad_sock :: sock where
  "bad_sock = \<lparr> sk_out = [], sk_in = [], sk_calls = [Failed EBADF], sk_errno = 0 \<rparr>"

definition new_access :: "sock list \<Rightarrow> sb_access" where
  "new_access ss = \<lparr> ac_handle = - 1, ac_sock = bad_sock, ac_tries = ss \<rparr>"

definition FND_SERVICEBROKER_PATHNAME :: string where "FND_SERVICEBROKER_PATHNAME = ''/servicebroker''"

definition csb_mountpoint :: "client_os \<Rightarrow> string" where
  "csb_mountpoint os = (case os_getenv os ''DSI_SERVICEBROKER'' of Some p \<Rightarrow> p | None \<Rightarrow> FND_SERVICEBROKER_PATHNAME)"

definition GetSBHandle :: "client_os \<Rightarrow> sb_access \<Rightarrow> sb_access option" where
  "GetSBHandle os a =
     (if ac_handle a \<le> 0 then
        (case ac_tries a of
           [] \<Rightarrow> None
         | s # ss \<Rightarrow>
             (case SBOpen os (Some (csb_mountpoint os)) s of
                None \<Rightarrow> None
              | Some (h, evs, s') \<Rightarrow>
                  Some \<lparr> ac_handle = h, ac_sock = (if h = - 1 then bad_sock else s'), ac_tries = ss \<rparr>))
      else Some a)"

definition closeHandle :: "sb_access \<Rightarrow> sb_access option" where
  "closeHandle a =
     map_option (\<lambda>cs. a\<lparr> ac_handle := - 1, ac_sock := bad_sock \<rparr>) (SBClose (sk_calls (ac_sock a)))"

section \<open>Calls\<close>

text \<open>A call of the library on the handle: its return value and what it stored.\<close>

definition with_handle ::
  "client_os \<Rightarrow> (sock \<Rightarrow> (int \<times> 'o \<times> sock) option) \<Rightarrow> sb_access \<Rightarrow> (int \<times> 'o \<times> sb_access) option" where
  "with_handle os f a =
     (case GetSBHandle os a of
        None \<Rightarrow> None
      | Some a \<Rightarrow> map_option (\<lambda>(rc, out, s). (rc, out, a\<lparr> ac_sock := s \<rparr>)) (f (ac_sock a)))"

text \<open>The same for the functions that may write past the end of a buffer.\<close>

definition with_handle_tcp ::
  "client_os \<Rightarrow> (sock \<Rightarrow> (api_error, int \<times> 'o \<times> sock) outcome) \<Rightarrow> sb_access \<Rightarrow> (api_error, int \<times> 'o \<times> sb_access) outcome" where
  "with_handle_tcp os f a =
     (case GetSBHandle os a of
        None \<Rightarrow> None
      | Some a \<Rightarrow> map_option (map_sum id (\<lambda>(rc, out, s). (rc, out, a\<lparr> ac_sock := s \<rparr>))) (f (ac_sock a)))"

definition descr_name :: "SFNDInterfaceDescription \<Rightarrow> string option" where
  "descr_name d = Some (c_str (sf_name d))"

definition descr_major :: "SFNDInterfaceDescription \<Rightarrow> int" where
  "descr_major d = uint (v_major (sf_version d))"

definition descr_minor :: "SFNDInterfaceDescription \<Rightarrow> int" where
  "descr_minor d = uint (v_minor (sf_version d))"

text \<open>Registering: whether it worked, and the id stored in the server, if one was.\<close>

definition csb_registerInterface ::
  "platform \<Rightarrow> client_os \<Rightarrow> SFNDInterfaceDescription \<Rightarrow> int \<Rightarrow> string \<Rightarrow> sb_access \<Rightarrow> (bool \<times> SPartyID option \<times> sb_access) option" where
  "csb_registerInterface pf os d chid userGroup a =
     map_option (\<lambda>(rc, sid, a). (rc = 0, sid, a))
       (with_handle os
          (if userGroup \<noteq> []
           then SBRegisterGroupInterface pf os (descr_name d) (descr_major d) (descr_minor d) chid (Some userGroup) True
           else SBRegisterInterface pf os (descr_name d) (descr_major d) (descr_minor d) chid True) a)"

text \<open>
  Several servers in one call. The arrays are on the stack; what the response does not fill of the ids
  is what was there.
\<close>

definition csb_registerInterfaces ::
  "platform \<Rightarrow> client_os \<Rightarrow> SFNDInterfaceDescription list \<Rightarrow> int \<Rightarrow> sb_access \<Rightarrow> (bool \<times> SPartyID list option \<times> sb_access) option" where
  "csb_registerInterfaces pf os ds chid a =
     (if 0 < length ds then
        map_option (\<lambda>(rc, bs, a).
          if rc \<noteq> 0 then (False, None, a)
          else (True, Some (map (\<lambda>i. get_party (overwrite (map (junk pf) [0..<8 * length ds]) 0 bs) (8 * i)) [0..<length ds]), a))
          (with_handle os
             (SBRegisterInterfaceEx pf os (Some (concat (map put_ifDescription ds))) (int (length ds)) chid True) a)
      else Some (True, Some [], a))"

definition csb_registerInterfaceTCP ::
  "platform \<Rightarrow> client_os \<Rightarrow> SFNDInterfaceDescription \<Rightarrow> u32 \<Rightarrow> u32 \<Rightarrow> sb_access \<Rightarrow>
     (api_error, bool \<times> SPartyID option \<times> sb_access) outcome" where
  "csb_registerInterfaceTCP pf os d address port a =
     map_option (map_sum id (\<lambda>(rc, sid, a). (rc = 0, sid, a)))
       (with_handle_tcp os
          (SBRegisterInterfaceTCP pf (descr_name d) (descr_major d) (descr_minor d) address (ucast port) True) a)"

definition csb_unregisterInterface :: "platform \<Rightarrow> client_os \<Rightarrow> SPartyID \<Rightarrow> sb_access \<Rightarrow> sb_access option" where
  "csb_unregisterInterface pf os sid a =
     map_option (\<lambda>(rc, out, a). a) (with_handle os (SBUnregisterInterface pf sid) a)"

text \<open>The notification id is 0 unless the call stored one.\<close>

definition stored_id :: "int \<times> u32 option \<times> sb_access \<Rightarrow> u32 \<times> sb_access" where
  "stored_id = (\<lambda>(rc, i, a). (case i of None \<Rightarrow> 0 | Some n \<Rightarrow> n, a))"

definition csb_setServerAvailableNotification ::
  "platform \<Rightarrow> client_os \<Rightarrow> SFNDInterfaceDescription \<Rightarrow> int \<Rightarrow> int \<Rightarrow> sb_access \<Rightarrow> (u32 \<times> sb_access) option" where
  "csb_setServerAvailableNotification pf os d chid pulseValue a =
     map_option stored_id
       (with_handle os
          (SBSetServerAvailableNotification pf os (descr_name d) (descr_major d) (descr_minor d) chid
             (uint PULSE_SERVER_AVAILABLE) pulseValue True) a)"

definition csb_setClientDetachNotification ::
  "platform \<Rightarrow> client_os \<Rightarrow> SPartyID \<Rightarrow> int \<Rightarrow> int \<Rightarrow> sb_access \<Rightarrow> (u32 \<times> sb_access) option" where
  "csb_setClientDetachNotification pf os cid chid pulseValue a =
     map_option stored_id
       (with_handle os (SBSetClientDetachNotification pf os cid chid (uint PULSE_CLIENT_DETACHED) pulseValue True) a)"

definition csb_setServerDisconnectNotification ::
  "platform \<Rightarrow> client_os \<Rightarrow> SPartyID \<Rightarrow> int \<Rightarrow> int \<Rightarrow> sb_access \<Rightarrow> (u32 \<times> sb_access) option" where
  "csb_setServerDisconnectNotification pf os sid chid pulseValue a =
     map_option stored_id
       (with_handle os (SBSetServerDisconnectNotification pf os sid chid (uint PULSE_SERVER_DISCONNECT) pulseValue True) a)"

definition csb_clearNotification :: "platform \<Rightarrow> client_os \<Rightarrow> u32 \<Rightarrow> sb_access \<Rightarrow> sb_access option" where
  "csb_clearNotification pf os i a = map_option (\<lambda>(rc, out, a). a) (with_handle os (SBClearNotification pf i) a)"

definition csb_detachInterface :: "platform \<Rightarrow> client_os \<Rightarrow> SPartyID \<Rightarrow> sb_access \<Rightarrow> sb_access option" where
  "csb_detachInterface pf os cid a = map_option (\<lambda>(rc, out, a). a) (with_handle os (SBDetachInterface pf cid) a)"

definition csb_attachInterface ::
  "platform \<Rightarrow> client_os \<Rightarrow> SFNDInterfaceDescription \<Rightarrow> sb_access \<Rightarrow> (int \<times> SConnectionInfo option \<times> sb_access) option" where
  "csb_attachInterface pf os d a =
     with_handle os (SBAttachInterface pf (descr_name d) (descr_major d) (descr_minor d) True) a"

definition csb_attachInterfaceTCP ::
  "platform \<Rightarrow> client_os \<Rightarrow> SFNDInterfaceDescription \<Rightarrow> sb_access \<Rightarrow> (api_error, int \<times> STCPConnectionInfo option \<times> sb_access) outcome" where
  "csb_attachInterfaceTCP pf os d a =
     with_handle_tcp os (SBAttachInterfaceTCP pf (descr_name d) (descr_major d) (descr_minor d) True) a"

section \<open>Opening the connection\<close>

text \<open>An operating system that lets the process connect.\<close>

definition lets_connect :: "client_os \<Rightarrow> int \<Rightarrow> bool" where
  "lets_connect os fd \<longleftrightarrow>
     os_getenv os ''SB_PATH'' = None \<and> length (csb_mountpoint os) + length FND_SERVICEBROKER_ROOT < UNIX_PATH_MAX \<and>
     os_socket os = Inr fd \<and> os_connect os (FND_SERVICEBROKER_ROOT @ csb_mountpoint os) = None"

lemma auth_request_length [simp]: "length (auth_request pid) = 8"
  by (simp add: auth_request_def)

lemma GetSBHandle_opens:
  assumes "lets_connect os fd" "fd \<noteq> - 1" "ac_handle a \<le> 0" "ac_tries a = s # ss" "sk_calls s = Did n # cs" "8 \<le> n"
  shows "GetSBHandle os a = Some \<lparr> ac_handle = fd,
    ac_sock = s\<lparr> sk_out := sk_out s @ auth_request (os_getpid os), sk_calls := cs, sk_errno := EINVAL \<rparr>, ac_tries = ss \<rparr>"
proof -
  let ?s = "s\<lparr> sk_errno := EINVAL \<rparr>"
  have "sys_send (auth_request (os_getpid os)) ?s =
      Some (8, ?s\<lparr> sk_out := sk_out s @ auth_request (os_getpid os), sk_calls := cs \<rparr>)"
    using sys_send_Did [of ?s n cs "auth_request (os_getpid os)"] assms(5,6) by (simp add: min_def)
  then have "sendAuthPackage (os_getpid os) ?s =
      Some (0, ?s\<lparr> sk_out := sk_out s @ auth_request (os_getpid os), sk_calls := cs \<rparr>)"
    by (simp add: sendAuthPackage_def sendAuth_loop.simps)
  then show ?thesis
    using assms(1-4) by (simp add: GetSBHandle_def SBOpen_def lets_connect_def Let_def)
qed

text \<open>An open connection is used again, and no operation gives it up.\<close>

lemma GetSBHandle_kept: "0 < ac_handle a \<Longrightarrow> GetSBHandle os a = Some a"
  by (simp add: GetSBHandle_def)

lemma with_handle_open:
  "0 < ac_handle a \<Longrightarrow> with_handle os f a = map_option (\<lambda>(rc, out, s). (rc, out, a\<lparr> ac_sock := s \<rparr>)) (f (ac_sock a))"
  by (simp add: with_handle_def GetSBHandle_kept)

lemma with_handle_new:
  assumes "lets_connect os fd" "0 < fd" "sk_calls s = Did n # cs" "8 \<le> n"
  shows "with_handle os f (new_access (s # ss)) =
    map_option (\<lambda>(rc, out, s'). (rc, out, \<lparr> ac_handle = fd, ac_sock = s', ac_tries = ss \<rparr>))
      (f (s\<lparr> sk_out := sk_out s @ auth_request (os_getpid os), sk_calls := cs, sk_errno := EINVAL \<rparr>))"
proof -
  have "GetSBHandle os (new_access (s # ss)) = Some \<lparr> ac_handle = fd,
      ac_sock = s\<lparr> sk_out := sk_out s @ auth_request (os_getpid os), sk_calls := cs, sk_errno := EINVAL \<rparr>, ac_tries = ss \<rparr>"
    using assms by (intro GetSBHandle_opens) (auto simp: new_access_def)
  then show ?thesis by (simp add: with_handle_def)
qed

lemma descr_version [simp]: "version_of (descr_major d) (descr_minor d) = sf_version d"
  by (cases "sf_version d") (simp add: version_of_def descr_major_def descr_minor_def)

section \<open>Where the connection is lost\<close>

text \<open>
  A call on a connection that has failed, as after the end of the daemon, returns without a result; the handle stays, so
  no later call opens a new connection, although one could be opened.
\<close>

lemma lib_call_failed:
  assumes "sk_calls s = Failed e # cs" "e \<noteq> EINTR"
  shows "lib_call pf cmd arg inlen outlen get s = Some (- 1, None, s\<lparr> sk_errno := e, sk_calls := cs \<rparr>)"
  using assms
  by (simp add: lib_call_def sendAndReceive_def sendAndReceiveV_def Let_def sendiov_def sendiov_loop.simps call_out_def stored_rc_def)

lemma lost_connection_kept:
  assumes "0 < ac_handle a" "sk_calls (ac_sock a) = Failed e # cs" "e \<noteq> EINTR"
  shows "csb_setServerAvailableNotification pf os d chid v a =
      Some (0, a\<lparr> ac_sock := (ac_sock a)\<lparr> sk_errno := e, sk_calls := cs \<rparr> \<rparr>)"
    and "csb_registerInterface pf os d chid [] a =
      Some (False, None, a\<lparr> ac_sock := (ac_sock a)\<lparr> sk_errno := e, sk_calls := cs \<rparr> \<rparr>)"
    and "csb_attachInterface pf os d a =
      Some (- 1, None, a\<lparr> ac_sock := (ac_sock a)\<lparr> sk_errno := e, sk_calls := cs \<rparr> \<rparr>)"
  using assms
  by (simp_all add: csb_setServerAvailableNotification_def csb_registerInterface_def csb_attachInterface_def with_handle_open
      SBSetServerAvailableNotification_def SBRegisterInterface_def SBAttachInterface_def descr_name_def lib_call_failed stored_id_def)

text \<open>Descriptor 0 is one a socket can have; it is taken for none, and every call opens another connection.\<close>

lemma descriptor_zero_leaks:
  assumes "lets_connect os 0" "ac_handle a \<le> 0" "ac_tries a = s # s' # ss"
    "sk_calls s = Did n # cs" "8 \<le> n" "sk_calls s' = Did n' # cs'" "8 \<le> n'"
  shows "\<exists>a1 a2. GetSBHandle os a = Some a1 \<and> ac_handle a1 = 0 \<and> GetSBHandle os a1 = Some a2 \<and> ac_tries a2 = ss"
  using GetSBHandle_opens [OF assms(1) _ assms(2,3,4,5)]
    GetSBHandle_opens [OF assms(1) _ _ _ assms(6,7), where a = "\<lparr> ac_handle = 0,
      ac_sock = s\<lparr> sk_out := sk_out s @ auth_request (os_getpid os), sk_calls := cs, sk_errno := EINVAL \<rparr>, ac_tries = s' # ss \<rparr>"]
  by auto

text \<open>A connection that ends between the header and the body of the response: the registration counts as done, without an id.\<close>

lemma registered_without_id:
  assumes "0 < ac_handle a" "sk_in (ac_sock a) = frame_header 8 0" "sk_calls (ac_sock a) = [Did 296, Did 16, Did 8]"
    "session_platform pf"
  shows "\<exists>a'. csb_registerInterface pf os d chid [] a = Some (True, None, a')"
proof -
  let ?arg = "register_argument (FILL_DESCRIPTION 4 (c_str (sf_name d)) (descr_major d) (descr_minor d) (new_argument 280))
    (word_of_int chid) (os_getpid os)"
  have len: "280 \<le> length ?arg" by (simp add: register_layout NAME_SIZE_def)
  show ?thesis
    using success_without_result [OF assms(2-4) refl len, of DCMD_FND_REGISTER_INTERFACE "\<lambda>res. get_party res 0"] assms(1)
    by (auto simp: csb_registerInterface_def with_handle_open SBRegisterInterface_def descr_name_def)
qed

end
