(* ===== verification/Api_Spec.thy ===== *)
theory Api_Spec
  imports Client_Lib_Spec Broker_Access Broker_Examples Transport_Spec
begin

text \<open>
  The properties of the client library together with the daemon, from the C function to the handler
  and back, with concrete runs.
\<close>

section \<open>Calls\<close>


















section \<open>Errors\<close>




end
