(* ===== verification/Event_Dispatcher.thy ===== *)
theory Event_Dispatcher
  imports Client_Io Pulse_Channels
begin

text \<open>
  The event loop under the daemon and the stub library: \<^verbatim>\<open>CDispatcher.cpp\<close>, \<^verbatim>\<open>CDispatcherT.hpp\<close>, the events of
  \<^verbatim>\<open>CHandler.hpp\<close> and \<^verbatim>\<open>CHandlerT.hpp\<close> and the error codes of \<^verbatim>\<open>iobase.hpp\<close>, all of \<^verbatim>\<open>src/common\<close>. Events are
  objects on a heap, so that deleting one twice or using a deleted one shows. What a callback does to
  the dispatcher is a list of operations, given with the answer it returns; the kernel answers
  \<^verbatim>\<open>poll\<close> with a list of masks and the other calls with the answers of the socket behind the descriptor.
\<close>

section \<open>Error codes and poll masks\<close>

definition io_eof :: error_code where "io_eof = - 1"
definition io_bad_filedescriptor :: error_code where "io_bad_filedescriptor = 9"

text \<open>In the order of the code: EACCES, EAGAIN, EINVAL, EBADF, EMFILE, ECONNRESET, ECONNREFUSED, EISCONN, ENOTCONN,
  EPIPE, EINPROGRESS, EINTR.\<close>

definition known_errors :: "int list" where
  "known_errors = [13, 11, 22, 9, 24, 104, 111, 106, 107, 32, 115, 4]"

definition to_error_code :: "int \<Rightarrow> error_code" where
  "to_error_code errno_value = (if List.member known_errors errno_value then errno_value else io_unspecified)"

definition POLLIN :: u16 where "POLLIN = 0x1"
definition POLLOUT :: u16 where "POLLOUT = 0x4"
definition POLLERR :: u16 where "POLLERR = 0x8"
definition POLLHUP :: u16 where "POLLHUP = 0x10"
definition POLLNVAL :: u16 where "POLLNVAL = 0x20"
definition POLLRDHUP :: u16 where "POLLRDHUP = 0x2000"

definition has_flag :: "u16 \<Rightarrow> u16 \<Rightarrow> bool" where
  "has_flag revents m \<longleftrightarrow> revents AND m \<noteq> 0"

datatype generic_result = DataAvailable | CanWriteNow | DeviceHungup | InvalidFileDescriptor | GenericError

definition toResultEnum :: "u16 \<Rightarrow> generic_result" where
  "toResultEnum revents =
     (if has_flag revents POLLERR then GenericError
      else if has_flag revents (POLLHUP OR POLLRDHUP) then DeviceHungup
      else if has_flag revents POLLNVAL then InvalidFileDescriptor
      else if has_flag revents POLLIN then DataAvailable
      else if has_flag revents POLLOUT then CanWriteNow
      else GenericError)"

section \<open>Events\<close>

text \<open>
  The buffer of an event that reads or writes all of it: \<^verbatim>\<open>buf_\<close>, \<^verbatim>\<open>cur_\<close> as an offset, \<^verbatim>\<open>total_\<close>; \<^verbatim>\<open>len_\<close> is
  the length of the buffer. \<open>'c\<close> names the completion routine.
\<close>

record io_all =
  ia_buf :: "char list"
  ia_cur :: nat
  ia_total :: nat

definition new_io_all :: "char list \<Rightarrow> io_all" where
  "new_io_all buf = \<lparr> ia_buf = buf, ia_cur = 0, ia_total = 0 \<rparr>"

definition io_all_reset :: "io_all \<Rightarrow> io_all" where
  "io_all_reset a = a\<lparr> ia_cur := 0, ia_total := 0 \<rparr>"

datatype 'c event =
    ReadSomeEvent nat 'c
  | WriteSomeEvent "char list" 'c
  | ReadAllEvent io_all 'c
  | WriteAllEvent io_all 'c
  | AcceptEvent 'c
  | ConnectEvent error_code 'c
  | NativeTimerEvent u32 'c
  | GenericEvent 'c

fun callback :: "'c event \<Rightarrow> 'c" where
  "callback (ReadSomeEvent len c) = c"
| "callback (WriteSomeEvent bs c) = c"
| "callback (ReadAllEvent a c) = c"
| "callback (WriteAllEvent a c) = c"
| "callback (AcceptEvent c) = c"
| "callback (ConnectEvent ec c) = c"
| "callback (NativeTimerEvent ms c) = c"
| "callback (GenericEvent c) = c"

text \<open>What a completion routine is told: the amount, the error code and for a read the buffer; the descriptor accepted.\<close>

datatype io_report =
    Io_report int error_code "char list"
  | Accept_report "nat option" error_code
  | Connect_report error_code
  | Timer_report error_code
  | Generic_report generic_result

text \<open>Whether an event calls its routine, waits for more without calling it, or is finished without calling it.\<close>

datatype 'c event_step = Call "'c event" io_report | Wait "'c event" | Drop

definition sys_call :: "sock \<Rightarrow> (int \<times> sock) option" where
  "sys_call s =
     (case sk_calls s of
        [] \<Rightarrow> None
      | Did n # cs \<Rightarrow> Some (int n, s\<lparr> sk_calls := cs \<rparr>)
      | Failed e # cs \<Rightarrow> Some (- 1, s\<lparr> sk_errno := e, sk_calls := cs \<rparr>))"

lemma sys_call_calls: "sys_call s = Some (rc, s') \<Longrightarrow> length (sk_calls s') < length (sk_calls s)"
  by (auto simp: sys_call_def split: list.splits io_answer.splits)

text \<open>The loops that repeat an interrupted call.\<close>

function retry_call :: "sock \<Rightarrow> (int \<times> sock) option" where
  "retry_call s =
     (case sys_call s of
        None \<Rightarrow> None
      | Some (rc, s') \<Rightarrow> if rc < 0 \<and> sk_errno s' = EINTR then retry_call s' else Some (rc, s'))"
  by pat_completeness auto
termination
  by (relation "measure (\<lambda>s. length (sk_calls s))") (auto dest: sys_call_calls)

function retry_recv :: "nat \<Rightarrow> sock \<Rightarrow> (int \<times> char list \<times> sock) option" where
  "retry_recv len s =
     (case sys_recv len s of
        None \<Rightarrow> None
      | Some (rc, bs, s') \<Rightarrow> if rc < 0 \<and> sk_errno s' = EINTR then retry_recv len s' else Some (rc, bs, s'))"
  by pat_completeness auto
termination
  by (relation "measure (\<lambda>(len, s). length (sk_calls s))") (auto dest: sys_recv_calls)

function retry_send :: "char list \<Rightarrow> sock \<Rightarrow> (int \<times> sock) option" where
  "retry_send bs s =
     (case sys_send bs s of
        None \<Rightarrow> None
      | Some (rc, s') \<Rightarrow> if rc < 0 \<and> sk_errno s' = EINTR then retry_send bs s' else Some (rc, s'))"
  by pat_completeness auto
termination
  by (relation "measure (\<lambda>(bs, s). length (sk_calls s))") (auto dest: sys_send_calls)

declare retry_call.simps [simp del] retry_recv.simps [simp del] retry_send.simps [simp del]

definition read_code :: "int \<Rightarrow> sock \<Rightarrow> error_code" where
  "read_code len s = (if len = 0 then io_eof else if len > 0 then io_ok else to_error_code (sk_errno s))"

definition write_code :: "int \<Rightarrow> sock \<Rightarrow> error_code" where
  "write_code len s = (if len \<ge> 0 then io_ok else to_error_code (sk_errno s))"

definition evalPollErrors :: "'c event \<Rightarrow> u16 \<Rightarrow> 'c event_step" where
  "evalPollErrors e revents =
     (if has_flag revents POLLERR then Call e (Io_report 0 io_unspecified [])
      else if has_flag revents (POLLHUP OR POLLRDHUP) then Call e (Io_report 0 io_eof [])
      else if has_flag revents POLLNVAL then Call e (Io_report 0 io_bad_filedescriptor [])
      else Drop)"

text \<open>
  \<^verbatim>\<open>doEval\<close> of the events that go on until their buffer is full. The position of the next part is computed from
  the start of the buffer and the size of the last part.
\<close>

definition read_all_step :: "io_all \<Rightarrow> 'c \<Rightarrow> sock \<Rightarrow> ('c event_step \<times> sock) option" where
  "read_all_step a c s =
     (case retry_recv (length (ia_buf a) - ia_total a) s of
        None \<Rightarrow> None
      | Some (len, bs, s') \<Rightarrow>
          let a' = (if len > 0
                    then \<lparr> ia_buf = overwrite (ia_buf a) (ia_cur a) bs, ia_cur = nat len, ia_total = ia_total a + nat len \<rparr>
                    else a)
          in Some (if ia_total a' = length (ia_buf a) \<or> len \<le> 0
                   then Call (ReadAllEvent a' c) (Io_report (int (ia_total a')) (read_code len s') (ia_buf a'))
                   else Wait (ReadAllEvent a' c), s'))"

definition write_all_step :: "io_all \<Rightarrow> 'c \<Rightarrow> sock \<Rightarrow> ('c event_step \<times> sock) option" where
  "write_all_step a c s =
     (case retry_send (take (length (ia_buf a) - ia_total a) (drop (ia_cur a) (ia_buf a))) s of
        None \<Rightarrow> None
      | Some (len, s') \<Rightarrow>
          let a' = (if len > 0 then a\<lparr> ia_cur := nat len, ia_total := ia_total a + nat len \<rparr> else a)
          in Some (if ia_total a' = length (ia_buf a) \<or> len \<le> 0
                   then Call (WriteAllEvent a' c) (Io_report (int (ia_total a')) (write_code len s') [])
                   else Wait (WriteAllEvent a' c), s'))"

definition ECONNABORTED :: int where "ECONNABORTED = 103"

definition accept_step :: "'c \<Rightarrow> u16 \<Rightarrow> sock \<Rightarrow> ('c event_step \<times> sock) option" where
  "accept_step c revents s =
     (let e = AcceptEvent c
      in if has_flag revents POLLERR then Some (Call e (Accept_report None io_unspecified), s)
         else if has_flag revents (POLLHUP OR POLLRDHUP) then Some (Call e (Accept_report None io_eof), s)
         else if has_flag revents POLLNVAL then Some (Call e (Accept_report None io_bad_filedescriptor), s)
         else map_option (\<lambda>(fd, s').
                (if fd = - 1 \<and> sk_errno s' = ECONNABORTED then Wait e
                 else if fd = - 1 then Call e (Accept_report None (to_error_code (sk_errno s')))
                 else Call e (Accept_report (Some (nat fd)) io_ok), s'))
                (retry_call s))"

text \<open>\<^verbatim>\<open>ConnectEventBase::doEval\<close>: \<^verbatim>\<open>getsockopt\<close> gives the outcome, then the descriptor is made blocking again.\<close>

definition reset_nonblocking :: "sock \<Rightarrow> sock option" where
  "reset_nonblocking s =
     (case sys_call s of
        None \<Rightarrow> None
      | Some (rc, s') \<Rightarrow> if rc \<ge> 0 then map_option snd (sys_call s') else Some s')"

definition connect_code :: "error_code \<Rightarrow> sock \<Rightarrow> (error_code \<times> sock) option" where
  "connect_code ec s =
     (if ec = io_in_progress
      then map_option (\<lambda>(rc, s'). (if rc = 0 then io_ok else if rc > 0 then to_error_code rc else io_unspecified, s'))
             (sys_call s)
      else Some (ec, s))"

definition connect_step :: "error_code \<Rightarrow> 'c \<Rightarrow> sock \<Rightarrow> ('c event_step \<times> sock) option" where
  "connect_step ec c s =
     (case connect_code ec s of
        None \<Rightarrow> None
      | Some (ec', s') \<Rightarrow>
          map_option (\<lambda>s''. (Call (ConnectEvent ec' c) (Connect_report ec'), s'')) (reset_nonblocking s'))"

definition timer_step :: "u32 \<Rightarrow> 'c \<Rightarrow> u16 \<Rightarrow> sock \<Rightarrow> ('c event_step \<times> sock) option" where
  "timer_step ms c revents s =
     (let e = NativeTimerEvent ms c
      in if has_flag revents (POLLERR OR POLLHUP OR POLLRDHUP) then Some (Call e (Timer_report io_unspecified), s)
         else if has_flag revents POLLNVAL then Some (Call e (Timer_report io_bad_filedescriptor), s)
         else map_option (\<lambda>(rc, s').
                (Call e (Timer_report (if rc = 8 then io_ok else to_error_code (sk_errno s'))), s')) (sys_call s))"

text \<open>\<^verbatim>\<open>EventBase::eval\<close> up to the call of the completion routine.\<close>

fun event_io :: "'c event \<Rightarrow> u16 \<Rightarrow> sock \<Rightarrow> ('c event_step \<times> sock) option" where
  "event_io (ReadSomeEvent len c) revents s =
     (if has_flag revents POLLIN
      then map_option (\<lambda>(rc, bs, s'). (Call (ReadSomeEvent len c) (Io_report rc (read_code rc s') bs), s')) (retry_recv len s)
      else Some (evalPollErrors (ReadSomeEvent len c) revents, s))"
| "event_io (WriteSomeEvent bs c) revents s =
     (if has_flag revents POLLOUT
      then map_option (\<lambda>(rc, s'). (Call (WriteSomeEvent bs c) (Io_report rc (write_code rc s') []), s')) (retry_send bs s)
      else Some (evalPollErrors (WriteSomeEvent bs c) revents, s))"
| "event_io (ReadAllEvent a c) revents s =
     (if has_flag revents POLLIN then read_all_step a c s
      else Some (evalPollErrors (ReadAllEvent a c) revents, s))"
| "event_io (WriteAllEvent a c) revents s =
     (if has_flag revents POLLOUT then write_all_step a c s
      else Some (evalPollErrors (WriteAllEvent a c) revents, s))"
| "event_io (AcceptEvent c) revents s = accept_step c revents s"
| "event_io (ConnectEvent ec c) revents s = connect_step ec c s"
| "event_io (NativeTimerEvent ms c) revents s = timer_step ms c revents s"
| "event_io (GenericEvent c) revents s = Some (Call (GenericEvent c) (Generic_report (toResultEnum revents)), s)"

section \<open>The table\<close>

record pollfd =
  pfd_fd :: int
  pfd_events :: u16
  pfd_revents :: u16

text \<open>
  \<open>dp_evts\<close> is \<^verbatim>\<open>events_table_\<close>, the addresses of the events; \<open>dp_heap\<close> has the event objects that are allocated and
  \<open>dp_next\<close> is an address nothing has been allocated at.
\<close>

record 'c dispatcher =
  dp_capa :: nat
  dp_max :: nat
  dp_fds :: "pollfd list"
  dp_evts :: "nat option list"
  dp_heap :: "nat \<rightharpoonup> 'c event"
  dp_next :: nat
  dp_finished :: bool
  dp_rc :: int

definition Dispatcher :: "nat \<Rightarrow> 'c dispatcher" where
  "Dispatcher capa =
     \<lparr> dp_capa = capa, dp_max = 0, dp_fds = replicate capa \<lparr> pfd_fd = - 1, pfd_events = 0, pfd_revents = 0 \<rparr>,
       dp_evts = replicate capa None, dp_heap = Map.empty, dp_next = 0, dp_finished = False, dp_rc = 0 \<rparr>"

datatype disp_error = Table_overrun | Null_event | Event_freed

text \<open>Deleting a null pointer does nothing.\<close>

definition delete_event :: "nat option \<Rightarrow> 'c dispatcher \<Rightarrow> 'c dispatcher" where
  "delete_event p d = (case p of None \<Rightarrow> d | Some p \<Rightarrow> d\<lparr> dp_heap := (dp_heap d)(p := None) \<rparr>)"

definition clearSlot :: "nat \<Rightarrow> 'c dispatcher \<Rightarrow> 'c dispatcher" where
  "clearSlot idx d =
     delete_event (dp_evts d ! idx)
       (d\<lparr> dp_fds := (dp_fds d)[idx := (dp_fds d ! idx)\<lparr> pfd_fd := - 1 \<rparr>], dp_evts := (dp_evts d)[idx := None] \<rparr>)"

text \<open>The first of the used slots with the property, as the searching loops find it.\<close>

definition find_slot :: "(pollfd \<Rightarrow> bool) \<Rightarrow> 'c dispatcher \<Rightarrow> nat option" where
  "find_slot P d = List.find (\<lambda>i. P (dp_fds d ! i)) [0..<dp_max d]"

text \<open>
  The assertion on the capacity holds also when all slots are taken; the entry is then written behind
  the end of both tables.
\<close>

definition doEnqueueEvent :: "int \<Rightarrow> 'c event \<Rightarrow> u16 \<Rightarrow> 'c dispatcher \<Rightarrow> disp_error + 'c dispatcher" where
  "doEnqueueEvent fd evt pollmask d =
     (let (pos, max') = (case find_slot (\<lambda>p. pfd_fd p = - 1) d of Some i \<Rightarrow> (i, dp_max d) | None \<Rightarrow> (dp_max d, dp_max d + 1))
      in if dp_capa d \<le> pos then Inl Table_overrun
         else Inr (d\<lparr> dp_max := max',
                dp_fds := (dp_fds d)[pos := \<lparr> pfd_fd = fd, pfd_events = pollmask, pfd_revents = 0 \<rparr>],
                dp_evts := (dp_evts d)[pos := Some (dp_next d)],
                dp_heap := (dp_heap d)(dp_next d \<mapsto> evt), dp_next := dp_next d + 1 \<rparr>))"

definition doRemoveAll :: "int \<Rightarrow> 'c dispatcher \<Rightarrow> 'c dispatcher" where
  "doRemoveAll fd d = (case find_slot (\<lambda>p. pfd_fd p = fd) d of None \<Rightarrow> d | Some i \<Rightarrow> clearSlot i d)"

definition removeEvent :: "u16 \<Rightarrow> int \<Rightarrow> 'c dispatcher \<Rightarrow> 'c dispatcher" where
  "removeEvent pollmask fd d =
     (case find_slot (\<lambda>p. pfd_fd p = fd \<and> has_flag (pfd_events p) pollmask) d of None \<Rightarrow> d | Some i \<Rightarrow> clearSlot i d)"

definition dp_stop :: "int \<Rightarrow> 'c dispatcher \<Rightarrow> 'c dispatcher" where
  "dp_stop rc d = d\<lparr> dp_finished := True, dp_rc := rc \<rparr>"

text \<open>What the application may ask of the dispatcher, in a callback or outside.\<close>

datatype 'c disp_op =
    Enqueue int "'c event" u16
  | Remove_all int
  | Remove_event u16 int
  | Stop int

fun apply_op :: "'c disp_op \<Rightarrow> 'c dispatcher \<Rightarrow> disp_error + 'c dispatcher" where
  "apply_op (Enqueue fd e m) d = doEnqueueEvent fd e m d"
| "apply_op (Remove_all fd) d = Inr (doRemoveAll fd d)"
| "apply_op (Remove_event m fd) d = Inr (removeEvent m fd d)"
| "apply_op (Stop rc) d = Inr (dp_stop rc d)"

fun apply_ops :: "'c disp_op list \<Rightarrow> 'c dispatcher \<Rightarrow> disp_error + 'c dispatcher" where
  "apply_ops [] d = Inr d"
| "apply_ops (x # xs) d = (case apply_op x d of Inl err \<Rightarrow> Inl err | Inr d' \<Rightarrow> apply_ops xs d')"

section \<open>The loop\<close>

record ('c, 's) event_loop =
  el_disp :: "'c dispatcher"
  el_io :: "int \<Rightarrow> sock"
  el_app :: 's

text \<open>
  A completion routine, called for a descriptor with a report: the new state of the application, what it did to the
  dispatcher, and whether it wants to be called again.
\<close>

type_synonym ('c, 's) handler = "'c \<Rightarrow> int \<Rightarrow> io_report \<Rightarrow> 's \<Rightarrow> 's \<times> 'c disp_op list \<times> bool"

definition put_event :: "nat \<Rightarrow> 'c event \<Rightarrow> 'c dispatcher \<Rightarrow> 'c dispatcher" where
  "put_event p e d = d\<lparr> dp_heap := (dp_heap d)(p \<mapsto> e) \<rparr>"

text \<open>
  The rest of \<^verbatim>\<open>eval\<close> after the completion routine has returned \<open>rearm\<close>. Events that go on until their buffer is full and timers
  use their own fields once more if it is true.
\<close>

definition after_call ::
  "nat \<Rightarrow> int \<Rightarrow> 'c event \<Rightarrow> bool \<Rightarrow> ('c, 's) event_loop \<Rightarrow> (disp_error + bool \<times> ('c, 's) event_loop) option" where
  "after_call p fd e rearm st =
     (let d = el_disp st;
          rewind = (\<lambda>e'. if \<not> rearm then Some (Inr (False, st))
                      else if dp_heap d p = None then Some (Inl Event_freed)
                      else Some (Inr (True, st\<lparr> el_disp := put_event p e' d \<rparr>)))
      in case e of
           ReadAllEvent a c \<Rightarrow> rewind (ReadAllEvent (io_all_reset a) c)
         | WriteAllEvent a c \<Rightarrow> rewind (WriteAllEvent (io_all_reset a) c)
         | ConnectEvent ec c \<Rightarrow> Some (Inr (False, st))
         | NativeTimerEvent ms c \<Rightarrow>
             if \<not> rearm then Some (Inr (False, st))
             else if dp_heap d p = None then Some (Inl Event_freed)
             else map_option (\<lambda>(rc, s). Inr (rc = 0, st\<lparr> el_io := (el_io st)(fd := s) \<rparr>)) (sys_call (el_io st fd))
         | _ \<Rightarrow> Some (Inr (rearm, st)))"

definition eval_slot ::
  "('c, 's) handler \<Rightarrow> nat \<Rightarrow> ('c, 's) event_loop \<Rightarrow> (disp_error + bool \<times> ('c, 's) event_loop) option" where
  "eval_slot h i st =
     (let d = el_disp st; fd = pfd_fd (dp_fds d ! i)
      in case dp_evts d ! i of
           None \<Rightarrow> Some (Inl Null_event)
         | Some p \<Rightarrow>
             (case dp_heap d p of
                None \<Rightarrow> Some (Inl Event_freed)
              | Some e \<Rightarrow>
                  (case event_io e (pfd_revents (dp_fds d ! i)) (el_io st fd) of
                     None \<Rightarrow> None
                   | Some (step, s) \<Rightarrow>
                       let st1 = st\<lparr> el_io := (el_io st)(fd := s) \<rparr>
                       in case step of
                            Drop \<Rightarrow> Some (Inr (False, st1))
                          | Wait e' \<Rightarrow> Some (Inr (True, st1\<lparr> el_disp := put_event p e' d \<rparr>))
                          | Call e' r \<Rightarrow>
                              let (app, ops, rearm) = h (callback e) fd r (el_app st)
                              in case apply_ops ops (put_event p e' d) of
                                   Inl err \<Rightarrow> Some (Inl err)
                                 | Inr d' \<Rightarrow> after_call p fd e' rearm (st1\<lparr> el_disp := d', el_app := app \<rparr>))))"

text \<open>After a false answer the slot is cleared, unless the routine has given it to a new event.\<close>

definition finish_slot :: "nat \<Rightarrow> bool \<Rightarrow> ('c, 's) event_loop \<Rightarrow> ('c, 's) event_loop" where
  "finish_slot i rearm st =
     (if \<not> rearm \<and> pfd_revents (dp_fds (el_disp st) ! i) \<noteq> 0 then st\<lparr> el_disp := clearSlot i (el_disp st) \<rparr> else st)"

definition poll_slot ::
  "('c, 's) handler \<Rightarrow> nat \<Rightarrow> ('c, 's) event_loop \<Rightarrow> (disp_error + ('c, 's) event_loop) option" where
  "poll_slot h i st =
     (let p = dp_fds (el_disp st) ! i
      in if 0 \<le> pfd_fd p \<and> pfd_revents p \<noteq> 0
         then map_option (map_sum id (\<lambda>(rearm, st'). finish_slot i rearm st')) (eval_slot h i st)
         else Some (Inr st))"

text \<open>The kernel answers with a mask for each used slot, or fails. It reports what was asked for and errors.\<close>

datatype poll_answer = Poll_masks "u16 list" | Poll_error int

definition kernel_mask :: "pollfd \<Rightarrow> u16 \<Rightarrow> u16" where
  "kernel_mask p m = (if pfd_fd p < 0 then 0 else m AND (pfd_events p OR POLLERR OR POLLHUP OR POLLNVAL))"

definition set_revents :: "u16 list \<Rightarrow> 'c dispatcher \<Rightarrow> 'c dispatcher" where
  "set_revents ms d =
     d\<lparr> dp_fds := map (\<lambda>i. let p = dp_fds d ! i in
          if i < dp_max d then p\<lparr> pfd_revents := kernel_mask p (if i < length ms then ms ! i else 0) \<rparr> else p)
          [0..<length (dp_fds d)] \<rparr>"

definition ready_count :: "'c dispatcher \<Rightarrow> nat" where
  "ready_count d = length (filter (\<lambda>p. pfd_revents p \<noteq> 0) (take (dp_max d) (dp_fds d)))"

section \<open>The tables keep their size\<close>

lemma clearSlot_simps [simp]:
  "dp_max (clearSlot i d) = dp_max d" "dp_capa (clearSlot i d) = dp_capa d"
  "dp_next (clearSlot i d) = dp_next d" "dp_finished (clearSlot i d) = dp_finished d"
  "dp_fds (clearSlot i d) = (dp_fds d)[i := (dp_fds d ! i)\<lparr> pfd_fd := - 1 \<rparr>]"
  "dp_evts (clearSlot i d) = (dp_evts d)[i := None]"
  by (simp_all add: clearSlot_def delete_event_def split: option.splits)

lemma put_event_simps [simp]:
  "dp_max (put_event p e d) = dp_max d" "dp_capa (put_event p e d) = dp_capa d" "dp_next (put_event p e d) = dp_next d"
  "dp_fds (put_event p e d) = dp_fds d" "dp_evts (put_event p e d) = dp_evts d"
  "dp_heap (put_event p e d) = (dp_heap d)(p \<mapsto> e)"
  by (simp_all add: put_event_def)

lemma apply_op_length: "apply_op x d = Inr d' \<Longrightarrow> length (dp_fds d') = length (dp_fds d)"
  by (cases x)
    (auto simp: doEnqueueEvent_def doRemoveAll_def removeEvent_def dp_stop_def Let_def split: option.splits if_splits prod.splits)

lemma apply_ops_length: "apply_ops xs d = Inr d' \<Longrightarrow> length (dp_fds d') = length (dp_fds d)"
  by (induction xs arbitrary: d) (auto simp: apply_op_length split: sum.splits)

lemma after_call_fds:
  "after_call p fd e rearm st = Some (Inr (b, st')) \<Longrightarrow> dp_fds (el_disp st') = dp_fds (el_disp st)"
  by (auto simp: after_call_def Let_def split: event.splits if_splits)

lemma map_sum_iff [simp]:
  "map_sum id f z = Inl e \<longleftrightarrow> z = Inl e" "map_sum id f z = Inr y \<longleftrightarrow> (\<exists>x. z = Inr x \<and> y = f x)"
  by (cases z; auto)+

lemma poll_slot_length:
  "poll_slot h i st = Some (Inr st') \<Longrightarrow> length (dp_fds (el_disp st')) = length (dp_fds (el_disp st))"
  by (auto simp: poll_slot_def eval_slot_def finish_slot_def Let_def apply_ops_length
      dest!: after_call_fds split: if_splits option.splits event_step.splits sum.splits prod.splits)

function poll_loop ::
  "('c, 's) handler \<Rightarrow> nat \<Rightarrow> ('c, 's) event_loop \<Rightarrow> (disp_error + ('c, 's) event_loop) option" where
  "poll_loop h i st =
     (if i < dp_max (el_disp st) \<and> \<not> dp_finished (el_disp st) then
        if length (dp_fds (el_disp st)) \<le> i then Some (Inl Table_overrun)
        else case poll_slot h i st of
               None \<Rightarrow> None
             | Some (Inl err) \<Rightarrow> Some (Inl err)
             | Some (Inr st') \<Rightarrow> poll_loop h (i + 1) st'
      else Some (Inr st))"
  by pat_completeness auto
termination
  by (relation "measure (\<lambda>(h, i, st). length (dp_fds (el_disp st)) - i)") (auto dest: poll_slot_length)

declare poll_loop.simps [simp del]

definition dp_poll ::
  "('c, 's) handler \<Rightarrow> poll_answer \<Rightarrow> ('c, 's) event_loop \<Rightarrow> (disp_error + int \<times> ('c, 's) event_loop) option" where
  "dp_poll h ans st =
     (case ans of
        Poll_error e \<Rightarrow> Some (Inr (if e = EINTR then 0 else - 1, st))
      | Poll_masks ms \<Rightarrow>
          let st1 = st\<lparr> el_disp := set_revents ms (el_disp st) \<rparr>;
              ret = ready_count (el_disp st1)
          in if 0 < ret then map_option (map_sum id (\<lambda>st'. (int ret, st'))) (poll_loop h 0 st1)
             else Some (Inr (0, st1)))"

text \<open>
  The while loop of \<^verbatim>\<open>run\<close>, for as many answers of \<^verbatim>\<open>poll\<close> as there are: \<open>Some\<close> return value and the state, or \<open>None\<close> and the
  state in which it waits for the next one.
\<close>

fun run_loop ::
  "('c, 's) handler \<Rightarrow> poll_answer list \<Rightarrow> int \<Rightarrow> ('c, 's) event_loop \<Rightarrow>
     (disp_error + int option \<times> ('c, 's) event_loop) option" where
  "run_loop h answers ret st =
     (let d = el_disp st
      in if dp_finished d \<or> ret < 0
         then let rc = (if \<not> dp_finished d \<and> ret < 0 then - 1 else dp_rc d)
              in Some (Inr (Some rc, st\<lparr> el_disp := d\<lparr> dp_rc := rc \<rparr> \<rparr>))
         else case answers of
                [] \<Rightarrow> Some (Inr (None, st))
              | a # as \<Rightarrow>
                  (case dp_poll h a st of
                     None \<Rightarrow> None
                   | Some (Inl err) \<Rightarrow> Some (Inl err)
                   | Some (Inr (ret', st')) \<Rightarrow> run_loop h as ret' st'))"

declare run_loop.simps [simp del]

definition dp_run ::
  "('c, 's) handler \<Rightarrow> poll_answer list \<Rightarrow> ('c, 's) event_loop \<Rightarrow> (disp_error + int option \<times> ('c, 's) event_loop) option" where
  "dp_run h answers st = run_loop h answers 0 (st\<lparr> el_disp := (el_disp st)\<lparr> dp_finished := False, dp_rc := 0 \<rparr> \<rparr>)"

section \<open>The invariant of the tables\<close>

text \<open>
  A used slot is free exactly when it has no event; no event is in two slots; the events in slots are exactly the
  allocated ones, so none is lost and none is deleted while it is in a slot.
\<close>

definition disp_wf :: "'c dispatcher \<Rightarrow> bool" where
  "disp_wf d \<longleftrightarrow> length (dp_fds d) = dp_capa d \<and> length (dp_evts d) = dp_capa d \<and> dp_max d \<le> dp_capa d \<and>
     (\<forall>i < dp_max d. pfd_fd (dp_fds d ! i) = - 1 \<longleftrightarrow> dp_evts d ! i = None) \<and>
     (\<forall>i < dp_capa d. dp_max d \<le> i \<longrightarrow> dp_evts d ! i = None) \<and>
     (\<forall>i < dp_capa d. \<forall>j < dp_capa d. \<forall>p. dp_evts d ! i = Some p \<and> dp_evts d ! j = Some p \<longrightarrow> i = j) \<and>
     (\<forall>p. p \<in> dom (dp_heap d) \<longleftrightarrow> (\<exists>i < dp_capa d. dp_evts d ! i = Some p)) \<and>
     (\<forall>p \<in> dom (dp_heap d). p < dp_next d)"

lemma Dispatcher_wf: "disp_wf (Dispatcher capa)"
  by (simp add: disp_wf_def Dispatcher_def)

lemma find_slot_Some: "find_slot P d = Some i \<Longrightarrow> i < dp_max d \<and> P (dp_fds d ! i)"
  by (auto simp: find_slot_def find_Some_iff)

lemma find_slot_None: "find_slot P d = None \<longleftrightarrow> (\<forall>i < dp_max d. \<not> P (dp_fds d ! i))"
  by (auto simp: find_slot_def find_None_iff)

lemma clearSlot_heap:
  "dp_heap (clearSlot i d) = (case dp_evts d ! i of None \<Rightarrow> dp_heap d | Some p \<Rightarrow> (dp_heap d)(p := None))"
  by (simp add: clearSlot_def delete_event_def split: option.splits)

lemma disp_wfD:
  assumes "disp_wf d"
  shows "length (dp_fds d) = dp_capa d" "length (dp_evts d) = dp_capa d" "dp_max d \<le> dp_capa d"
    "i < dp_max d \<Longrightarrow> pfd_fd (dp_fds d ! i) = - 1 \<longleftrightarrow> dp_evts d ! i = None"
    "i < dp_capa d \<Longrightarrow> dp_max d \<le> i \<Longrightarrow> dp_evts d ! i = None"
    "i < dp_capa d \<Longrightarrow> j < dp_capa d \<Longrightarrow> dp_evts d ! i = Some p \<Longrightarrow> dp_evts d ! j = Some p \<Longrightarrow> i = j"
    "p \<in> dom (dp_heap d) \<longleftrightarrow> (\<exists>i < dp_capa d. dp_evts d ! i = Some p)"
    "p \<in> dom (dp_heap d) \<Longrightarrow> p < dp_next d"
  using assms unfolding disp_wf_def by blast+

lemma clearSlot_wf:
  assumes "disp_wf d" "i < dp_max d"
  shows "disp_wf (clearSlot i d)"
proof -
  note w = disp_wfD [OF assms(1)]
  have i: "i < dp_capa d" using assms(2) w(3) by simp
  have nth: "dp_evts (clearSlot i d) ! j = (if j = i then None else dp_evts d ! j)"
    "dp_fds (clearSlot i d) ! j = (if j = i then (dp_fds d ! i)\<lparr> pfd_fd := - 1 \<rparr> else dp_fds d ! j)" for j
    using i w(1,2) by (simp_all add: nth_list_update)
  have heap: "dom (dp_heap (clearSlot i d)) = dom (dp_heap d) - {p. dp_evts d ! i = Some p}"
    by (auto simp: clearSlot_heap split: option.splits if_splits)
  have "p \<in> dom (dp_heap (clearSlot i d)) \<longleftrightarrow> (\<exists>j < dp_capa d. dp_evts (clearSlot i d) ! j = Some p)" for p
    unfolding heap nth using w(6) [of _ i p] w(7) [of p] i by auto
  moreover have "\<forall>p \<in> dom (dp_heap (clearSlot i d)). p < dp_next d" using heap w(8) by blast
  ultimately show ?thesis
    unfolding disp_wf_def using w(1-6) i nth by auto
qed

lemma put_event_wf: "disp_wf d \<Longrightarrow> p \<in> dom (dp_heap d) \<Longrightarrow> disp_wf (put_event p e d)"
  unfolding disp_wf_def by (simp add: insert_absorb)

lemma arm_wf:
  assumes "disp_wf d" "fd \<noteq> - 1" "pos < m" "m \<le> dp_capa d" "dp_max d \<le> m" "dp_evts d ! pos = None"
    "\<forall>i. dp_max d \<le> i \<longrightarrow> i < m \<longrightarrow> i = pos"
  shows "disp_wf (d\<lparr> dp_max := m, dp_fds := (dp_fds d)[pos := \<lparr> pfd_fd = fd, pfd_events = ev, pfd_revents = 0 \<rparr>],
    dp_evts := (dp_evts d)[pos := Some (dp_next d)], dp_heap := (dp_heap d)(dp_next d \<mapsto> e), dp_next := dp_next d + 1 \<rparr>)"
    (is "disp_wf ?d")
proof -
  note w = disp_wfD [OF assms(1)]
  have pos: "pos < dp_capa d" using assms(3,4) by simp
  have nth: "dp_evts ?d ! j = (if j = pos then Some (dp_next d) else dp_evts d ! j)"
    "pfd_fd (dp_fds ?d ! j) = (if j = pos then fd else pfd_fd (dp_fds d ! j))" for j
    using pos w(1,2) by (simp_all add: nth_list_update)
  have fresh: "dp_next d \<notin> dom (dp_heap d)" using w(8) by blast
  then have ne: "dp_evts d ! j \<noteq> Some (dp_next d)" if "j < dp_capa d" for j using w(7) that by blast
  have 1: "\<forall>i < dp_max ?d. pfd_fd (dp_fds ?d ! i) = - 1 \<longleftrightarrow> dp_evts ?d ! i = None"
  proof (intro allI impI)
    fix i assume "i < dp_max ?d"
    then show "pfd_fd (dp_fds ?d ! i) = - 1 \<longleftrightarrow> dp_evts ?d ! i = None"
      unfolding nth using assms(2,7) w(4) [of i] by (cases "i < dp_max d") auto
  qed
  have 2: "\<forall>i < dp_capa ?d. dp_max ?d \<le> i \<longrightarrow> dp_evts ?d ! i = None"
    unfolding nth using assms(3,5) w(5) by auto
  have 3: "\<forall>i < dp_capa ?d. \<forall>j < dp_capa ?d. \<forall>p. dp_evts ?d ! i = Some p \<and> dp_evts ?d ! j = Some p \<longrightarrow> i = j"
    unfolding nth using ne w(6) by auto
  have 4: "\<forall>p. p \<in> dom (dp_heap ?d) \<longleftrightarrow> (\<exists>i < dp_capa ?d. dp_evts ?d ! i = Some p)"
    unfolding nth using pos w(7) assms(6) by auto (metis option.distinct(1))
  have 5: "\<forall>p \<in> dom (dp_heap ?d). p < dp_next ?d" using w(8) by (auto simp: less_Suc_eq)
  show ?thesis
    unfolding disp_wf_def using w(1,2) assms(4) 1 2 3 4 5 by simp
qed

text \<open>Arming a descriptor that is open fails only when every slot of the table is taken.\<close>

lemma doEnqueueEvent_cases:
  assumes "disp_wf d" "fd \<noteq> - 1"
  shows "(\<exists>d'. doEnqueueEvent fd e m d = Inr d' \<and> disp_wf d') \<or>
    doEnqueueEvent fd e m d = Inl Table_overrun \<and> (\<forall>i < dp_capa d. dp_evts d ! i \<noteq> None)"
proof (cases "find_slot (\<lambda>p. pfd_fd p = - 1) d")
  case None
  then have full: "\<forall>i < dp_max d. dp_evts d ! i \<noteq> None"
    using disp_wfD(4) [OF assms(1)] by (simp add: find_slot_None)
  show ?thesis
  proof (cases "dp_capa d \<le> dp_max d")
    case True
    then show ?thesis using None full disp_wfD(3) [OF assms(1)] by (auto simp: doEnqueueEvent_def)
  next
    case False
    have "disp_wf (case doEnqueueEvent fd e m d of Inr d' \<Rightarrow> d' | _ \<Rightarrow> d)"
      using None False arm_wf [OF assms, of "dp_max d" "dp_max d + 1" e m] disp_wfD(5) [OF assms(1), of "dp_max d"]
      by (simp add: doEnqueueEvent_def)
    with None False show ?thesis by (simp add: doEnqueueEvent_def)
  qed
next
  case (Some i)
  then have i: "i < dp_max d" "pfd_fd (dp_fds d ! i) = - 1" using find_slot_Some [OF Some] by simp_all
  then have "disp_wf (case doEnqueueEvent fd e m d of Inr d' \<Rightarrow> d' | _ \<Rightarrow> d)"
    using Some arm_wf [OF assms, of i "dp_max d" e m] disp_wfD(3,4) [OF assms(1)]
    by (simp add: doEnqueueEvent_def)
  with Some i disp_wfD(3) [OF assms(1)] show ?thesis by (simp add: doEnqueueEvent_def)
qed

section \<open>Operations of the application\<close>

text \<open>Operations that arm open descriptors only, and operations that leave the event of a descriptor alone.\<close>

fun arms_open :: "'c disp_op \<Rightarrow> bool" where
  "arms_open (Enqueue fd e m) = (0 \<le> fd)"
| "arms_open _ = True"

fun removes_fd :: "int \<Rightarrow> 'c disp_op \<Rightarrow> bool" where
  "removes_fd fd (Remove_all fd') = (fd' = fd)"
| "removes_fd fd (Remove_event m fd') = (fd' = fd)"
| "removes_fd fd _ = False"

lemma clear_found_wf:
  "disp_wf d \<Longrightarrow> disp_wf (case find_slot P d of None \<Rightarrow> d | Some i \<Rightarrow> clearSlot i d)"
  by (auto dest: find_slot_Some intro: clearSlot_wf split: option.split)

lemma apply_op_cases:
  assumes "disp_wf d" "arms_open x"
  shows "(\<exists>d'. apply_op x d = Inr d' \<and> disp_wf d' \<and> dp_max d \<le> dp_max d' \<and> dp_capa d' = dp_capa d)
    \<or> apply_op x d = Inl Table_overrun"
proof (cases x)
  case (Enqueue fd e m)
  then have "fd \<noteq> - 1" using assms by auto
  from doEnqueueEvent_cases [OF assms(1) this, of e m] show ?thesis
    unfolding Enqueue by (auto simp: doEnqueueEvent_def Let_def split: option.splits if_splits)
next
  case (Stop rc)
  then show ?thesis using assms by (simp add: dp_stop_def disp_wf_def)
qed (use assms clear_found_wf [OF assms(1)] in \<open>auto simp: doRemoveAll_def removeEvent_def split: option.splits\<close>)

lemma apply_ops_cases:
  assumes "disp_wf d" "list_all arms_open xs"
  shows "(\<exists>d'. apply_ops xs d = Inr d' \<and> disp_wf d' \<and> dp_max d \<le> dp_max d' \<and> dp_capa d' = dp_capa d)
    \<or> apply_ops xs d = Inl Table_overrun"
  using assms
proof (induction xs arbitrary: d)
  case (Cons x xs)
  have x: "disp_wf d" "arms_open x" "list_all arms_open xs" using Cons.prems by simp_all
  from apply_op_cases [OF x(1,2)] show ?case
  proof (elim disjE exE)
    fix d' assume d': "apply_op x d = Inr d' \<and> disp_wf d' \<and> dp_max d \<le> dp_max d' \<and> dp_capa d' = dp_capa d"
    with Cons.IH [of d'] x(3) show ?thesis by auto
  qed simp
qed simp

text \<open>The event of a slot stays when only other descriptors are removed.\<close>

definition armed :: "nat \<Rightarrow> int \<Rightarrow> nat \<Rightarrow> 'c dispatcher \<Rightarrow> bool" where
  "armed i fd p d \<longleftrightarrow> i < dp_max d \<and> pfd_fd (dp_fds d ! i) = fd \<and> dp_evts d ! i = Some p"

lemma clear_found_armed:
  assumes "armed i fd p d" "\<And>q. P q \<Longrightarrow> pfd_fd q \<noteq> fd"
  shows "armed i fd p (case find_slot P d of None \<Rightarrow> d | Some j \<Rightarrow> clearSlot j d)"
proof (cases "find_slot P d")
  case (Some j)
  then have "j \<noteq> i" using find_slot_Some [OF Some] assms by (auto simp: armed_def)
  with Some assms(1) show ?thesis by (simp add: armed_def)
qed (use assms in simp)

lemma apply_op_armed:
  assumes "armed i fd p d" "\<not> removes_fd fd x" "fd \<noteq> - 1" "apply_op x d = Inr d'"
  shows "armed i fd p d'"
proof (cases x)
  case (Enqueue fd' e m)
  have "find_slot (\<lambda>q. pfd_fd q = - 1) d \<noteq> Some i"
    using find_slot_Some [of "\<lambda>q. pfd_fd q = - 1" d i] assms(1,3) by (auto simp: armed_def)
  then show ?thesis
    using assms(1,4) unfolding Enqueue
    by (auto simp: doEnqueueEvent_def armed_def Let_def split: option.splits if_splits)
next
  case (Stop rc)
  then show ?thesis using assms by (auto simp: dp_stop_def armed_def)
next
  case (Remove_all fd')
  then show ?thesis using assms clear_found_armed [OF assms(1), of "\<lambda>q. pfd_fd q = fd'"] by (auto simp: doRemoveAll_def)
next
  case (Remove_event m fd')
  then show ?thesis
    using assms clear_found_armed [OF assms(1), of "\<lambda>q. pfd_fd q = fd' \<and> has_flag (pfd_events q) m"]
    by (auto simp: removeEvent_def)
qed

lemma apply_ops_armed:
  assumes "armed i fd p d" "\<forall>x \<in> set xs. \<not> removes_fd fd x" "fd \<noteq> - 1" "apply_ops xs d = Inr d'"
  shows "armed i fd p d'"
  using assms
proof (induction xs arbitrary: d)
  case (Cons x xs)
  then obtain d1 where "apply_op x d = Inr d1" "apply_ops xs d1 = Inr d'" by (auto split: sum.splits)
  with Cons apply_op_armed [of i fd p d x d1] show ?case by auto
qed simp

lemma armed_alive: "disp_wf d \<Longrightarrow> armed i fd p d \<Longrightarrow> p \<in> dom (dp_heap d)"
  using disp_wfD(3,7) [of d] by (metis armed_def order_less_le_trans)

lemma set_revents_wf:
  assumes "disp_wf d"
  shows "disp_wf (set_revents ms d)"
proof -
  have "pfd_fd (dp_fds (set_revents ms d) ! i) = pfd_fd (dp_fds d ! i)" if "i < dp_capa d" for i
    using that disp_wfD(1) [OF assms] by (simp add: set_revents_def Let_def)
  moreover have "length (dp_fds (set_revents ms d)) = dp_capa d" "dp_evts (set_revents ms d) = dp_evts d"
    "dp_max (set_revents ms d) = dp_max d" "dp_capa (set_revents ms d) = dp_capa d"
    "dp_heap (set_revents ms d) = dp_heap d" "dp_next (set_revents ms d) = dp_next d"
    using disp_wfD(1) [OF assms] by (simp_all add: set_revents_def)
  ultimately show ?thesis using assms by (auto simp: disp_wf_def)
qed

section \<open>Completion routines\<close>

text \<open>
  What the dispatcher relies on: a routine arms open descriptors only, and when it wants to be called again it has not
  removed its own descriptor, for the event is used once more after it.
\<close>

locale completion_routines =
  fixes h :: "('c, 's) handler"
  assumes routine_arms: "h c fd r s = (s', ops, rearm) \<Longrightarrow> list_all arms_open ops"
    and routine_keeps: "h c fd r s = (s', ops, True) \<Longrightarrow> x \<in> set ops \<Longrightarrow> \<not> removes_fd fd x"
begin

text \<open>The outcome of a step: it does not return, the table is full, or the tables are well-formed.\<close>

definition safe :: "nat \<Rightarrow> (disp_error + bool \<times> ('c, 's) event_loop) option \<Rightarrow> bool" where
  "safe n out \<longleftrightarrow> (\<forall>err. out = Some (Inl err) \<longrightarrow> err = Table_overrun) \<and>
     (\<forall>b st. out = Some (Inr (b, st)) \<longrightarrow> disp_wf (el_disp st) \<and> n \<le> dp_max (el_disp st))"

lemma after_call_safe:
  assumes "disp_wf (el_disp st)" "rearm \<Longrightarrow> p \<in> dom (dp_heap (el_disp st))" "n \<le> dp_max (el_disp st)"
  shows "safe n (after_call p fd e rearm st)"
proof -
  have "dp_heap (el_disp st) p \<noteq> None" if rearm using assms(2) that by blast
  then show ?thesis
    using assms put_event_wf [OF assms(1,2)] unfolding safe_def after_call_def Let_def
    by (cases e) auto
qed

lemma eval_slot_safe:
  assumes "disp_wf (el_disp st)" "i < dp_max (el_disp st)" "0 \<le> pfd_fd (dp_fds (el_disp st) ! i)"
  shows "safe (dp_max (el_disp st)) (eval_slot h i st)"
proof -
  let ?d = "el_disp st" and ?fd = "pfd_fd (dp_fds (el_disp st) ! i)"
  have "dp_evts ?d ! i \<noteq> None" using disp_wfD(4) [OF assms(1,2)] assms(3) by auto
  then obtain p where p: "dp_evts ?d ! i = Some p" by blast
  have a: "armed i ?fd p ?d" using assms p by (simp add: armed_def)
  obtain e where e: "dp_heap ?d p = Some e" using armed_alive [OF assms(1) a] by blast
  have wf: "disp_wf (put_event p e' ?d)" and ar: "armed i ?fd p (put_event p e' ?d)" for e'
    using put_event_wf [OF assms(1) armed_alive [OF assms(1) a]] a by (simp_all add: armed_def)
  show ?thesis
  proof (cases "event_io e (pfd_revents (dp_fds ?d ! i)) (el_io st ?fd)")
    case None
    then show ?thesis using p e by (simp add: eval_slot_def safe_def)
  next
    case (Some r)
    obtain step s where r: "r = (step, s)" by force
    show ?thesis
    proof (cases step)
      case (Call e' rep)
      obtain app ops rearm where hr: "h (callback e) ?fd rep (el_app st) = (app, ops, rearm)" using prod_cases3 by blast
      from apply_ops_cases [OF wf [of e'] routine_arms [OF hr]] show ?thesis
      proof (elim disjE exE)
        fix d' assume d': "apply_ops ops (put_event p e' ?d) = Inr d' \<and> disp_wf d' \<and>
          dp_max (put_event p e' ?d) \<le> dp_max d' \<and> dp_capa d' = dp_capa (put_event p e' ?d)"
        have "p \<in> dom (dp_heap d')" if rearm
          using apply_ops_armed [OF ar, of ops e' d'] routine_keeps [of "callback e" ?fd rep "el_app st" app ops] hr that d' assms(3)
            armed_alive [of d' i ?fd p] by auto
        then show ?thesis
          using p e Some r Call hr d'
            after_call_safe [of "st\<lparr> el_io := (el_io st)(?fd := s), el_disp := d', el_app := app \<rparr>" rearm p "dp_max ?d" ?fd e']
          by (simp add: eval_slot_def Let_def)
      next
        assume "apply_ops ops (put_event p e' ?d) = Inl Table_overrun"
        then show ?thesis using p e Some r Call hr by (simp add: eval_slot_def safe_def)
      qed
    qed (use p e Some r assms wf in \<open>simp_all add: eval_slot_def safe_def Let_def\<close>)
  qed
qed

lemma poll_slot_safe:
  assumes "disp_wf (el_disp st)" "i < dp_max (el_disp st)"
  shows "poll_slot h i st = Some (Inl err) \<Longrightarrow> err = Table_overrun"
    "poll_slot h i st = Some (Inr st') \<Longrightarrow> disp_wf (el_disp st')"
  using eval_slot_safe [OF assms] assms
  by (auto simp: poll_slot_def safe_def finish_slot_def Let_def intro!: clearSlot_wf split: if_splits)

lemma poll_loop_safe:
  assumes "disp_wf (el_disp st)"
  shows "case poll_loop h i st of None \<Rightarrow> True | Some (Inl err) \<Rightarrow> err = Table_overrun | Some (Inr st') \<Rightarrow> disp_wf (el_disp st')"
  using assms
proof (induction "length (dp_fds (el_disp st)) - i" arbitrary: i st rule: less_induct)
  case less
  show ?case
  proof (cases "i < dp_max (el_disp st) \<and> \<not> dp_finished (el_disp st)")
    case True
    then have i: "i < length (dp_fds (el_disp st))" using disp_wfD(1,3) [OF less.prems] by simp
    show ?thesis
    proof (cases "poll_slot h i st")
      case None
      then show ?thesis using True i by (subst poll_loop.simps) simp
    next
      case (Some out)
      show ?thesis
      proof (cases out)
        case (Inl err)
        then show ?thesis
          using True i Some poll_slot_safe(1) [OF less.prems, of i err] by (subst poll_loop.simps) simp
      next
        case (Inr st')
        have "length (dp_fds (el_disp st')) - (i + 1) < length (dp_fds (el_disp st)) - i"
          using poll_slot_length Some Inr i by fastforce
        moreover have "disp_wf (el_disp st')" using poll_slot_safe(2) [OF less.prems] Some Inr True by blast
        ultimately show ?thesis
          using less.hyps [of st' "i + 1"] True i Some Inr by (subst poll_loop.simps) simp
      qed
    qed
  next
    case False
    then have "poll_loop h i st = Some (Inr st)" by (subst poll_loop.simps) auto
    with less.prems show ?thesis by simp
  qed
qed

lemma poll_safe:
  assumes "disp_wf (el_disp st)"
  shows "case dp_poll h ans st of None \<Rightarrow> True | Some (Inl err) \<Rightarrow> err = Table_overrun
    | Some (Inr (ret, st')) \<Rightarrow> disp_wf (el_disp st')"
proof (cases ans)
  case (Poll_masks ms)
  let ?st = "st\<lparr> el_disp := set_revents ms (el_disp st) \<rparr>"
  have "disp_wf (el_disp ?st)" using set_revents_wf [OF assms] by simp
  from poll_loop_safe [OF this, of 0] this Poll_masks show ?thesis
    by (cases "poll_loop h 0 ?st") (auto simp: dp_poll_def Let_def split: sum.splits)
qed (use assms in \<open>simp add: dp_poll_def\<close>)

lemma run_loop_safe:
  assumes "disp_wf (el_disp st)"
  shows "case run_loop h answers ret st of None \<Rightarrow> True | Some (Inl err) \<Rightarrow> err = Table_overrun
    | Some (Inr (rc, st')) \<Rightarrow> disp_wf (el_disp st')"
  using assms
proof (induction answers arbitrary: ret st)
  case Nil
  then show ?case by (subst run_loop.simps) (simp add: Let_def disp_wf_def)
next
  case (Cons a as)
  show ?case
  proof (cases "dp_finished (el_disp st) \<or> ret < 0")
    case True
    then show ?thesis using Cons.prems by (subst run_loop.simps) (simp add: Let_def disp_wf_def)
  next
    case False
    show ?thesis
    proof (cases "dp_poll h a st")
      case None
      with False show ?thesis by (subst run_loop.simps) simp
    next
      case (Some out)
      with False have "run_loop h (a # as) ret st = (case out of Inl err \<Rightarrow> Some (Inl err) | Inr (r, st') \<Rightarrow> run_loop h as r st')"
        by (subst run_loop.simps) simp
      with poll_safe [OF Cons.prems, of a] Cons.IH Some show ?thesis by (cases out) auto
    qed
  qed
qed

text \<open>
  Whatever the kernel answers, the loop uses no deleted event and no empty slot; the table overflows or it stays well
  formed.
\<close>

lemma run_safe:
  assumes "disp_wf (el_disp st)"
  shows "case dp_run h answers st of None \<Rightarrow> True | Some (Inl err) \<Rightarrow> err = Table_overrun
    | Some (Inr (rc, st')) \<Rightarrow> disp_wf (el_disp st')"
  unfolding dp_run_def by (rule run_loop_safe) (use assms in \<open>simp add: disp_wf_def\<close>)

end

text \<open>An invariant of the application that every routine keeps holds as long as the loop runs.\<close>

locale app_invariant = completion_routines h for h :: "('c, 's) handler" +
  fixes I :: "'s \<Rightarrow> bool"
  assumes routine_inv: "h c fd r s = (s', ops, rearm) \<Longrightarrow> I s \<Longrightarrow> I s'"
begin

lemma poll_slot_inv:
  assumes "poll_slot h i st = Some (Inr st')" "I (el_app st)"
  shows "I (el_app st')"
proof -
  have after: "after_call p fd e rearm st0 = Some (Inr (b, st1)) \<Longrightarrow> el_app st1 = el_app st0" for p fd e rearm st0 b st1
    by (auto simp: after_call_def Let_def split: event.splits if_splits)
  have fin: "el_app (finish_slot j b st0) = el_app st0" for j b st0 by (simp add: finish_slot_def)
  show ?thesis
    using assms
    by (auto simp: poll_slot_def eval_slot_def Let_def fin dest!: after intro: routine_inv
        split: if_splits option.splits event_step.splits sum.splits prod.splits)
qed

lemma poll_loop_inv: "poll_loop h i st = Some (Inr st') \<Longrightarrow> I (el_app st) \<Longrightarrow> I (el_app st')"
proof (induction "length (dp_fds (el_disp st)) - i" arbitrary: i st rule: less_induct)
  case less
  show ?case
  proof (cases "i < dp_max (el_disp st) \<and> \<not> dp_finished (el_disp st)")
    case True
    with less.prems(1) obtain st1 where st1: "i < length (dp_fds (el_disp st))" "poll_slot h i st = Some (Inr st1)"
      "poll_loop h (i + 1) st1 = Some (Inr st')"
      by (subst (asm) poll_loop.simps) (auto split: if_splits option.splits sum.splits)
    have "length (dp_fds (el_disp st1)) - (i + 1) < length (dp_fds (el_disp st)) - i"
      using poll_slot_length [OF st1(2)] st1(1) by simp
    with less.hyps st1(3) poll_slot_inv [OF st1(2) less.prems(2)] show ?thesis by blast
  next
    case False
    then have "poll_loop h i st = Some (Inr st)" by (subst poll_loop.simps) auto
    with less.prems show ?thesis by simp
  qed
qed

lemma poll_inv: "dp_poll h a st = Some (Inr (ret, st')) \<Longrightarrow> I (el_app st) \<Longrightarrow> I (el_app st')"
  by (cases a) (auto simp: dp_poll_def Let_def dest: poll_loop_inv split: if_splits)

lemma run_loop_inv: "run_loop h answers ret st = Some (Inr (rc, st')) \<Longrightarrow> I (el_app st) \<Longrightarrow> I (el_app st')"
proof (induction answers arbitrary: ret st)
  case Nil
  then show ?case by (subst (asm) run_loop.simps) (auto simp: Let_def split: if_splits)
next
  case (Cons a as)
  show ?case
  proof (cases "dp_finished (el_disp st) \<or> ret < 0")
    case True
    with Cons.prems show ?thesis by (subst (asm) run_loop.simps) (auto simp: Let_def split: if_splits)
  next
    case False
    with Cons.prems(1) obtain r st1 where "dp_poll h a st = Some (Inr (r, st1))" "run_loop h as r st1 = Some (Inr (rc, st'))"
      by (subst (asm) run_loop.simps) (auto simp: Let_def split: option.splits sum.splits)
    with Cons.IH poll_inv Cons.prems(2) show ?thesis by blast
  qed
qed

lemma run_inv: "dp_run h answers st = Some (Inr (rc, st')) \<Longrightarrow> I (el_app st) \<Longrightarrow> I (el_app st')"
  unfolding dp_run_def by (drule run_loop_inv) simp_all

end

section \<open>Single events\<close>

text \<open>An event that is armed during a round is not evaluated in it: nothing has been reported for its slot yet.\<close>

lemma new_event_waits:
  assumes "disp_wf d" "doEnqueueEvent fd e m d = Inr d'"
  shows "\<exists>i < dp_max d'. armed i fd (dp_next d) d' \<and> dp_heap d' (dp_next d) = Some e \<and>
    pfd_revents (dp_fds d' ! i) = 0 \<and> (\<forall>h st. el_disp st = d' \<longrightarrow> poll_slot h i st = Some (Inr st)) \<and>
    (\<forall>b st. el_disp st = d' \<longrightarrow> finish_slot i b st = st)"
proof -
  have "\<exists>i < dp_max d'. armed i fd (dp_next d) d' \<and> dp_heap d' (dp_next d) = Some e \<and> pfd_revents (dp_fds d' ! i) = 0"
  proof (cases "find_slot (\<lambda>p. pfd_fd p = - 1) d")
    case None
    with assms disp_wfD(1,2) [OF assms(1)] show ?thesis
      by (auto simp: doEnqueueEvent_def armed_def split: if_splits)
  next
    case (Some i)
    with assms disp_wfD(1-3) [OF assms(1)] find_slot_Some [OF Some] show ?thesis
      by (auto simp: doEnqueueEvent_def armed_def split: if_splits)
  qed
  then show ?thesis by (auto simp: poll_slot_def finish_slot_def)
qed

lemma retry_recv_Did:
  "sk_calls s = Did n # cs \<Longrightarrow> retry_recv m s = sys_recv m s"
  by (subst retry_recv.simps) (auto simp: sys_recv_def Let_def)

text \<open>A buffer that is filled in two parts holds what was sent, and the routine is called once, when it is full.\<close>

lemma read_all_two_parts:
  assumes "length buf = length data" "0 < k" "k < length data" "length data - k \<le> m"
    and "sk_in s = data @ rest" "sk_calls s = Did k # Did m # cs"
  shows "\<exists>a s1 s2. read_all_step (new_io_all buf) c s = Some (Wait (ReadAllEvent a c), s1) \<and>
    read_all_step a c s1 =
      Some (Call (ReadAllEvent \<lparr> ia_buf = data, ia_cur = length data - k, ia_total = length data \<rparr> c)
              (Io_report (int (length data)) io_ok data), s2) \<and>
    sk_in s2 = rest \<and> sk_calls s2 = cs"
proof -
  let ?a = "\<lparr> ia_buf = take k data @ drop k buf, ia_cur = k, ia_total = k \<rparr>"
  let ?s1 = "s\<lparr> sk_in := drop k (sk_in s), sk_calls := Did m # cs \<rparr>"
  have 1: "read_all_step (new_io_all buf) c s = Some (Wait (ReadAllEvent ?a c), ?s1)"
    using assms retry_recv_Did [OF assms(6)] sys_recv_Did(1) [OF assms(6), of "length buf"]
    by (simp add: read_all_step_def new_io_all_def overwrite_def min_def)
  have "sys_recv (length data - k) ?s1 = Some (int (length data - k), drop k data,
      ?s1\<lparr> sk_in := rest, sk_calls := cs \<rparr>)"
    using assms sys_recv_Did(2) [of ?s1 m cs "length data - k"] by simp
  moreover have "overwrite (take k data @ drop k buf) k (drop k data) = data"
    using assms by (simp add: overwrite_def min_def)
  ultimately have "read_all_step ?a c ?s1 =
      Some (Call (ReadAllEvent \<lparr> ia_buf = data, ia_cur = length data - k, ia_total = length data \<rparr> c)
              (Io_report (int (length data)) io_ok data), ?s1\<lparr> sk_in := rest, sk_calls := cs \<rparr>)"
    using assms retry_recv_Did [of ?s1 m cs] by (simp add: read_all_step_def read_code_def Let_def nat_diff_distrib)
  with 1 show ?thesis by auto
qed

text \<open>
  In three parts it does not: the third part is stored behind the size of the second one instead of behind both, and the
  end of the buffer stays as it was.
\<close>

lemma read_all_three_parts:
  defines "part s \<equiv> \<lparr> sk_out = [], sk_in = s, sk_calls = [Did 1], sk_errno = 0 \<rparr>"
  shows "read_all_step (new_io_all ''xyz'') c (part ''abc'') = Some (Wait (ReadAllEvent \<lparr> ia_buf = ''ayz'', ia_cur = 1, ia_total = 1 \<rparr> c),
      (part ''bc'')\<lparr> sk_calls := [] \<rparr>)"
    "read_all_step \<lparr> ia_buf = ''ayz'', ia_cur = 1, ia_total = 1 \<rparr> c (part ''bc'') =
      Some (Wait (ReadAllEvent \<lparr> ia_buf = ''abz'', ia_cur = 1, ia_total = 2 \<rparr> c), (part ''c'')\<lparr> sk_calls := [] \<rparr>)"
    "read_all_step \<lparr> ia_buf = ''abz'', ia_cur = 1, ia_total = 2 \<rparr> c (part ''c'') =
      Some (Call (ReadAllEvent \<lparr> ia_buf = ''acz'', ia_cur = 1, ia_total = 3 \<rparr> c) (Io_report 3 io_ok ''acz''), (part [])\<lparr> sk_calls := [] \<rparr>)"
  by (simp_all add: read_all_step_def new_io_all_def part_def retry_recv.simps sys_recv_def overwrite_def read_code_def)

text \<open>The same when writing: the third part repeats bytes.\<close>

lemma write_all_three_parts:
  defines "part s \<equiv> \<lparr> sk_out = s, sk_in = [], sk_calls = [Did 1], sk_errno = 0 \<rparr>"
  shows "write_all_step \<lparr> ia_buf = ''abc'', ia_cur = 1, ia_total = 2 \<rparr> c (part ''ab'') =
      Some (Call (WriteAllEvent \<lparr> ia_buf = ''abc'', ia_cur = 1, ia_total = 3 \<rparr> c) (Io_report 3 io_ok []), (part ''abb'')\<lparr> sk_calls := [] \<rparr>)"
    "write_all_step (new_io_all ''abc'') c (part []) =
      Some (Wait (WriteAllEvent \<lparr> ia_buf = ''abc'', ia_cur = 1, ia_total = 1 \<rparr> c), (part ''a'')\<lparr> sk_calls := [] \<rparr>)"
    "write_all_step \<lparr> ia_buf = ''abc'', ia_cur = 1, ia_total = 1 \<rparr> c (part ''a'') =
      Some (Wait (WriteAllEvent \<lparr> ia_buf = ''abc'', ia_cur = 1, ia_total = 2 \<rparr> c), (part ''ab'')\<lparr> sk_calls := [] \<rparr>)"
  by (simp_all add: write_all_step_def new_io_all_def part_def retry_send.simps sys_send_def write_code_def)

text \<open>The assertion of \<^verbatim>\<open>doEnqueueEvent\<close> does not stop the write behind the end of a full table.\<close>

lemma full_table_overruns:
  assumes "disp_wf d" "\<forall>i < dp_capa d. dp_evts d ! i \<noteq> None"
  shows "dp_max d = dp_capa d \<and> doEnqueueEvent fd e m d = Inl Table_overrun"
proof -
  have "dp_max d = dp_capa d" using assms disp_wfD(3,5) [OF assms(1)] by (metis nat_less_le order_refl)
  moreover from this have "find_slot (\<lambda>p. pfd_fd p = - 1) d = None"
    using assms disp_wfD(4) [OF assms(1)] by (simp add: find_slot_None)
  ultimately show ?thesis by (simp add: doEnqueueEvent_def)
qed

text \<open>\<^verbatim>\<open>doRemoveAll\<close> removes one event: of a descriptor armed for reading and writing one stays.\<close>

lemma remove_all_removes_one:
  "map pfd_fd (take 2 (dp_fds (doRemoveAll 5 (projr (apply_ops [Enqueue 5 (GenericEvent c) POLLIN, Enqueue 5 (GenericEvent c) POLLOUT]
     (Dispatcher 2)))))) = [- 1, 5]"
  by (simp add: doRemoveAll_def doEnqueueEvent_def find_slot_def Dispatcher_def numeral_2_eq_2 Let_def)

text \<open>A routine that closes its descriptor and still asks to be called again makes the dispatcher use the deleted event.\<close>

lemma closed_and_rearmed:
  "poll_slot (\<lambda>c fd r s. (s, [Remove_all fd], True)) 0
     \<lparr> el_disp = set_revents [POLLIN] (projr (apply_ops [Enqueue 5 (ReadAllEvent (new_io_all ''x'') ()) POLLIN] (Dispatcher 1))),
       el_io = (\<lambda>_. \<lparr> sk_out = [], sk_in = ''a'', sk_calls = [Did 1], sk_errno = 0 \<rparr>), el_app = () \<rparr> = Some (Inl Event_freed)"
  by (simp add: poll_slot_def eval_slot_def doEnqueueEvent_def doRemoveAll_def find_slot_def Dispatcher_def set_revents_def
      kernel_mask_def POLLIN_def POLLERR_def POLLHUP_def POLLNVAL_def has_flag_def read_all_step_def new_io_all_def retry_recv.simps
      sys_recv_def overwrite_def read_code_def after_call_def put_event_def clearSlot_def delete_event_def Let_def)

end
