(* ===== verification/Io_Devices.thy ===== *)
theory Io_Devices
  imports Event_Dispatcher
begin

text \<open>
  The devices of \<^verbatim>\<open>src/common/CDevices.hpp\<close> and \<^verbatim>\<open>io.cpp\<close>: descriptors that are moved and closed, sockets that
  connect with and without a timeout, reading and writing all of a buffer, writing a vector of buffers, and the
  channels of the stub library over them (\<^verbatim>\<open>src/base/CLocalChannel.hpp\<close>). Lemmas: complete transfers for
  every way the kernel splits them, and what goes wrong when a vector is taken in parts.
\<close>

section \<open>Descriptors\<close>

definition Invalid :: int where "Invalid = - 1"

record device =
  dv_fd :: int
  dv_dispatcher :: bool \<comment> \<open>whether the device belongs to a dispatcher\<close>

definition dev_is_open :: "device \<Rightarrow> bool" where
  "dev_is_open d \<longleftrightarrow> dv_fd d \<noteq> Invalid"

definition dev_release :: "device \<Rightarrow> int \<times> device" where
  "dev_release d = (dv_fd d, d\<lparr> dv_fd := Invalid \<rparr>)"

text \<open>The copy constructor takes the descriptor away from the original: the copy and what is left.\<close>

definition dev_move :: "device \<Rightarrow> device \<times> device" where
  "dev_move d = (let (fd, d') = dev_release d in (\<lparr> dv_fd = fd, dv_dispatcher = dv_dispatcher d \<rparr>, d'))"

text \<open>Closing takes the descriptor out of the dispatcher first.\<close>

definition dev_close :: "device \<Rightarrow> sock \<Rightarrow> (error_code \<times> 'c disp_op list \<times> device \<times> sock) option" where
  "dev_close d s =
     (if dev_is_open d
      then map_option (\<lambda>(rc, s').
             (if rc = 0 then io_ok else to_error_code (sk_errno s'),
              if dv_dispatcher d then [Remove_all (dv_fd d)] else [], d\<lparr> dv_fd := Invalid \<rparr>, s')) (retry_call s)
      else Some (io_ok, [], d, s))"

definition sock_open :: "device \<Rightarrow> sock \<Rightarrow> (error_code \<times> 'c disp_op list \<times> device \<times> sock) option" where
  "sock_open d s =
     (case (if dev_is_open d then dev_close d s else Some (io_ok, [], d, s)) of
        None \<Rightarrow> None
      | Some (_, ops, d', s') \<Rightarrow>
          map_option (\<lambda>(fd, s''). (if fd \<noteq> Invalid then io_ok else to_error_code (sk_errno s''), ops, d'\<lparr> dv_fd := fd \<rparr>, s''))
            (sys_call s'))"

definition sock_connect :: "sock \<Rightarrow> (error_code \<times> sock) option" where
  "sock_connect s = map_option (\<lambda>(rc, s'). (if rc = 0 then io_ok else to_error_code (sk_errno s'), s')) (sys_call s)"

text \<open>\<^verbatim>\<open>FlagsFileControl\<close> and \<^verbatim>\<open>ResetFlagsFileControl\<close>: the flags are read, changed and written.\<close>

definition file_control :: "sock \<Rightarrow> (error_code \<times> sock) option" where
  "file_control s =
     (case sys_call s of
        None \<Rightarrow> None
      | Some (rc, s') \<Rightarrow>
          if 0 \<le> rc
          then map_option (\<lambda>(rc', s''). (if rc' = 0 then io_ok else to_error_code (sk_errno s''), s'')) (sys_call s')
          else Some (to_error_code (sk_errno s'), s'))"

definition try_async_connect :: "sock \<Rightarrow> (error_code \<times> sock) option" where
  "try_async_connect s =
     (case file_control s of
        None \<Rightarrow> None
      | Some (ec, s') \<Rightarrow> if ec = io_ok then sock_connect s' else Some (ec, s'))"

definition poll_connected :: "sock \<Rightarrow> (error_code \<times> sock) option" where
  "poll_connected s =
     (case sys_call s of
        None \<Rightarrow> None
      | Some (ret, s') \<Rightarrow>
          if ret = 0 then Some (io_would_block, s')
          else if 0 < ret
          then map_option (\<lambda>(rc, s''). (if rc < 0 then to_error_code (sk_errno s'')
                                        else if rc = 0 then io_ok else to_error_code rc, s'')) (sys_call s')
          else Some (if sk_errno s' = EINTR then io_would_block else to_error_code (sk_errno s'), s'))"

definition connect_timeout :: "sock \<Rightarrow> (error_code \<times> sock) option" where
  "connect_timeout s =
     (case try_async_connect s of
        None \<Rightarrow> None
      | Some (ec, s1) \<Rightarrow>
          (case (if ec = io_in_progress then poll_connected s1 else Some (ec, s1)) of
             None \<Rightarrow> None
           | Some (ec', s2) \<Rightarrow> map_option (\<lambda>(_, s3). (ec', s3)) (file_control s2)))"

section \<open>Reading and writing\<close>

definition get_write_all_error_code :: "nat \<Rightarrow> nat \<Rightarrow> sock \<Rightarrow> error_code" where
  "get_write_all_error_code rc expected s = (if rc = expected then io_ok else to_error_code (sk_errno s))"

definition get_read_all_error_code :: "int \<Rightarrow> nat \<Rightarrow> nat \<Rightarrow> sock \<Rightarrow> error_code" where
  "get_read_all_error_code rc got expected s =
     (if got = expected then io_ok else if rc = 0 then io_eof else to_error_code (sk_errno s))"

definition dev_read_some :: "nat \<Rightarrow> sock \<Rightarrow> (int \<times> error_code \<times> char list \<times> sock) option" where
  "dev_read_some len s = map_option (\<lambda>(rc, bs, s'). (rc, read_code rc s', bs, s')) (sys_recv len s)"

definition dev_write_some :: "char list \<Rightarrow> sock \<Rightarrow> (int \<times> error_code \<times> sock) option" where
  "dev_write_some bs s = map_option (\<lambda>(rc, s'). (rc, write_code rc s', s')) (sys_send bs s)"

function read_all_loop :: "nat \<Rightarrow> char list \<Rightarrow> sock \<Rightarrow> (int \<times> char list \<times> sock) option" where
  "read_all_loop len got s =
     (case sys_recv (len - length got) s of
        None \<Rightarrow> None
      | Some (rc, bs, s') \<Rightarrow>
          let got' = got @ bs
          in if rc < 0 \<and> sk_errno s' = EINTR \<or> 0 < rc \<and> length got' < len then read_all_loop len got' s'
             else Some (rc, got', s'))"
  by pat_completeness auto
termination
  by (relation "measure (\<lambda>(len, got, s). length (sk_calls s))") (auto dest: sys_recv_calls)

definition dev_read_all :: "nat \<Rightarrow> sock \<Rightarrow> (error_code \<times> char list \<times> sock) option" where
  "dev_read_all len s =
     map_option (\<lambda>(rc, got, s'). (get_read_all_error_code rc (length got) len s', got, s')) (read_all_loop len [] s)"

function write_all_loop :: "char list \<Rightarrow> nat \<Rightarrow> sock \<Rightarrow> (nat \<times> sock) option" where
  "write_all_loop data sent s =
     (case sys_send (drop sent data) s of
        None \<Rightarrow> None
      | Some (rc, s') \<Rightarrow>
          let sent' = (if 0 < rc then sent + nat rc else sent)
          in if rc < 0 \<and> sk_errno s' = EINTR \<or> 0 < rc \<and> sent' < length data then write_all_loop data sent' s'
             else Some (sent', s'))"
  by pat_completeness auto
termination
  by (relation "measure (\<lambda>(data, sent, s). length (sk_calls s))") (auto dest: sys_send_calls)

definition dev_write_all :: "char list \<Rightarrow> sock \<Rightarrow> (error_code \<times> sock) option" where
  "dev_write_all data s =
     map_option (\<lambda>(sent, s'). (get_write_all_error_code sent (length data) s', s')) (write_all_loop data 0 s)"

declare read_all_loop.simps [simp del] write_all_loop.simps [simp del]

definition calculate_total_length :: "iovec list \<Rightarrow> nat" where
  "calculate_total_length iov = sum_list (map iov_len iov)"

text \<open>
  The loop of \<^verbatim>\<open>adopt_iov_pointers\<close>: the vector afterwards and the number of elements to skip. It goes on after the element
  that was taken in part, with the same number of bytes.
\<close>

fun adopt_loop :: "iovec list \<Rightarrow> nat \<Rightarrow> iovec list \<times> nat" where
  "adopt_loop [] rc = ([], 0)"
| "adopt_loop (v # vs) rc =
     (if rc = 0 then (v # vs, 0)
      else if iov_len v \<le> rc then let (vs', skip) = adopt_loop vs (rc - iov_len v) in (v # vs', skip + 1)
      else let (vs', skip) = adopt_loop vs rc in (iov_advance rc v # vs', skip))"

definition adopt_iov_pointers :: "iovec list \<Rightarrow> nat \<Rightarrow> iovec list" where
  "adopt_iov_pointers iov rc = (let (vs, skip) = adopt_loop iov rc in drop skip vs)"

function write_iov_loop :: "iovec list \<Rightarrow> nat \<Rightarrow> nat \<Rightarrow> sock \<Rightarrow> (nat \<times> sock) option" where
  "write_iov_loop iov sent total_len s =
     (case sys_send (iov_bytes iov) s of
        None \<Rightarrow> None
      | Some (rc, s') \<Rightarrow>
          if rc < 0 then
            if sk_errno s' = EINTR \<and> sent < total_len then write_iov_loop iov sent total_len s' else Some (sent, s')
          else
            let sent' = sent + nat rc
            in if sent' < total_len then write_iov_loop (adopt_iov_pointers iov (nat rc)) sent' total_len s'
               else Some (sent', s'))"
  by pat_completeness auto
termination
  by (relation "measure (\<lambda>(iov, sent, total_len, s). length (sk_calls s))") (auto dest: sys_send_calls)

definition dev_write_all_iov :: "iovec list \<Rightarrow> sock \<Rightarrow> (error_code \<times> sock) option" where
  "dev_write_all_iov iov s =
     (let total_len = calculate_total_length iov
      in map_option (\<lambda>(sent, s'). (get_write_all_error_code sent total_len s', s')) (write_iov_loop iov 0 total_len s))"

declare write_iov_loop.simps [simp del]

section \<open>Channels\<close>

text \<open>\<^verbatim>\<open>CBaseChannel\<close> over a connected socket. Sending nothing or receiving into nothing is an assertion.\<close>

definition chn_sendAll :: "char list \<Rightarrow> sock \<Rightarrow> (bool \<times> sock) option" where
  "chn_sendAll data s = map_option (\<lambda>(ec, s'). (ec = io_ok, s')) (dev_write_all data s)"

definition chn_sendAll_iov :: "iovec list \<Rightarrow> sock \<Rightarrow> unit + (bool \<times> sock) option" where
  "chn_sendAll_iov iov s =
     (if iov = [] then Inl () else Inr (map_option (\<lambda>(ec, s'). (ec = io_ok, s')) (dev_write_all_iov iov s)))"

definition chn_recvAll :: "nat \<Rightarrow> sock \<Rightarrow> unit + (bool \<times> char list \<times> sock) option" where
  "chn_recvAll len s =
     (if len = 0 then Inl () else Inr (map_option (\<lambda>(ec, bs, s'). (ec = io_ok, bs, s')) (dev_read_all len s)))"

section \<open>Complete transfers\<close>

lemma to_error_code_not_ok [simp]: "to_error_code e \<noteq> io_ok" "io_eof \<noteq> io_ok"
  by (auto simp: to_error_code_def io_unspecified_def io_ok_def io_eof_def known_errors_def)

text \<open>The devices and the client library have each their own loop for reading a given number of bytes; they do the same.\<close>

lemma read_all_agrees:
  "length got < len \<Longrightarrow>
     map_option (\<lambda>(rc, g, s'). (length g \<noteq> len, g, s')) (read_all_loop len got s) = recvAll_loop len got s"
proof (induction len got s rule: recvAll_loop.induct)
  case (1 len got s)
  show ?case
  proof (cases "sys_recv (len - length got) s")
    case None
    then show ?thesis by (simp add: read_all_loop.simps [of len got s] recvAll_loop.simps [of len got s])
  next
    case (Some r)
    obtain rc bs s' where r: "r = (rc, bs, s')" using prod_cases3 by blast
    have "rc < 0 \<and> bs = [] \<or> 0 \<le> rc \<and> length bs = nat rc \<and> length bs \<le> len - length got"
      using Some r by (auto simp: sys_recv_def Let_def split: list.splits io_answer.splits)
    then show ?thesis
      using "1.IH" [OF Some, of rc "(bs, s')" bs s'] "1.prems" Some r
      by (auto simp: read_all_loop.simps [of len got s] recvAll_loop.simps [of len got s] Let_def)
  qed
qed

lemma dev_read_all_agrees:
  "0 < len \<Longrightarrow> chn_recvAll len s = Inr (map_option (\<lambda>(err, bs, s'). (\<not> err, bs, s')) (cio_recvAll len s))"
  using read_all_agrees [of "[]" len s, symmetric]
  by (cases "read_all_loop len [] s")
    (auto simp: chn_recvAll_def dev_read_all_def cio_recvAll_def get_read_all_error_code_def split: prod.splits)

lemma chn_recvAll_ok:
  assumes "transfers m (sk_calls s) = Some cs" "0 < m" "m \<le> length (sk_in s)"
  shows "\<exists>e. chn_recvAll m s =
    Inr (Some (True, take m (sk_in s), s\<lparr> sk_in := drop m (sk_in s), sk_calls := cs, sk_errno := e \<rparr>))"
  using recvAll_ok [OF assms] dev_read_all_agrees [OF assms(2), of s] by auto

text \<open>Writing agrees with the loop of the client library as long as the kernel takes something each time.\<close>

lemma write_all_agrees:
  "transfers m (sk_calls s) = Some cs \<Longrightarrow> m = length data - sent \<Longrightarrow> sent < length data \<Longrightarrow>
     write_all_loop data sent s = map_option (\<lambda>(err, s'). (length data, s')) (sendAll_loop data sent s)"
proof (induction m "sk_calls s" arbitrary: sent s rule: transfers.induct)
  case (2 m n cs')
  have calls: "sk_calls s = Did n # cs'" using "2.hyps"(2) by simp
  show ?case
    using "2.prems" calls "2.hyps"(1) [of "s\<lparr> sk_out := sk_out s @ take n (drop sent data), sk_calls := cs' \<rparr>" "sent + n"]
    by (subst write_all_loop.simps, subst sendAll_loop.simps)
      (auto simp: sys_send_Did [OF calls] Let_def min_def split: if_splits)
next
  case (3 m e cs')
  have calls: "sk_calls s = Failed e # cs'" using "3.hyps"(2) by simp
  show ?case
    using "3.prems" calls "3.hyps"(1) [of "s\<lparr> sk_errno := e, sk_calls := cs' \<rparr>" sent]
    by (subst write_all_loop.simps, subst sendAll_loop.simps) (auto simp: Let_def split: if_splits)
qed simp

lemma chn_sendAll_ok:
  assumes "transfers (length data) (sk_calls s) = Some cs" "data \<noteq> []"
  shows "\<exists>e. chn_sendAll data s = Some (True, s\<lparr> sk_out := sk_out s @ data, sk_calls := cs, sk_errno := e \<rparr>)"
  using write_all_agrees [OF assms(1), of data 0] sendAll_loop_ok [OF assms(1), of data 0] assms(2)
  by (auto simp: chn_sendAll_def dev_write_all_def get_write_all_error_code_def)

text \<open>A vector of buffers that the kernel takes at once, however often it interrupts the call before.\<close>

lemma total_length: "list_all iov_ok iov \<Longrightarrow> calculate_total_length iov = length (iov_bytes iov)"
  by (induction iov) (auto simp: calculate_total_length_def iov_ok_def)

lemma write_iov_finishes:
  assumes "finishes m (sk_calls s) = Some cs" "m = length (iov_bytes iov)" "0 < m"
  shows "\<exists>e. write_iov_loop iov 0 m s = Some (m, s\<lparr> sk_out := sk_out s @ iov_bytes iov, sk_calls := cs, sk_errno := e \<rparr>)"
  using assms
proof (induction m "sk_calls s" arbitrary: s rule: finishes.induct)
  case (2 m n cs')
  have calls: "sk_calls s = Did n # cs'" using "2.hyps" by simp
  show ?case
    using "2.prems" calls
    by (subst write_iov_loop.simps)
      (auto simp: sys_send_Did [OF calls] Let_def min_def intro!: exI [of _ "sk_errno s"] split: if_splits)
next
  case (3 m e cs')
  have calls: "sk_calls s = Failed e # cs'" using "3.hyps"(2) by simp
  show ?case
    using "3.prems" calls "3.hyps"(1) [of "s\<lparr> sk_errno := e, sk_calls := cs' \<rparr>"]
    by (subst write_iov_loop.simps) (auto split: if_splits)
qed simp

lemma chn_sendAll_iov_ok:
  assumes "finishes (length (iov_bytes iov)) (sk_calls s) = Some cs" "list_all iov_ok iov" "iov_bytes iov \<noteq> []"
  shows "\<exists>e. chn_sendAll_iov iov s =
    Inr (Some (True, s\<lparr> sk_out := sk_out s @ iov_bytes iov, sk_calls := cs, sk_errno := e \<rparr>))"
  using write_iov_finishes [OF assms(1)] assms(2,3) total_length [OF assms(2)]
  by (auto simp: chn_sendAll_iov_def dev_write_all_iov_def get_write_all_error_code_def Let_def)

text \<open>
  A vector that is taken in two parts of which the first ends inside a buffer: as many bytes are taken away from the
  next buffer too and are never sent, and the loop waits without end for the count to be reached.
\<close>

lemma write_iov_spins:
  assumes "sent < tot" "list_all (\<lambda>a. \<exists>n. a = Did n) (sk_calls s)"
  shows "write_iov_loop [] sent tot s = None"
  using assms
proof (induction "sk_calls s" arbitrary: s)
  case Nil
  then show ?case by (subst write_iov_loop.simps) simp
next
  case (Cons a as)
  from Cons.prems(2) obtain n where "a = Did n" by (auto simp flip: Cons.hyps(2))
  then have calls: "sk_calls s = Did n # as" using Cons.hyps(2) by simp
  then show ?case
    using Cons.hyps(1) [of "s\<lparr> sk_calls := as \<rparr>"] Cons.prems Cons.hyps(2)
    by (subst write_iov_loop.simps) (simp add: sys_send_Did [OF calls] adopt_iov_pointers_def)
qed

lemma write_iov_loses_bytes:
  "\<exists>s'. write_iov_loop [\<lparr> iov_base = Some ''ab'', iov_len = 2 \<rparr>, \<lparr> iov_base = Some ''cde'', iov_len = 3 \<rparr>] 0 5
      \<lparr> sk_out = [], sk_in = [], sk_calls = Did 1 # Did 3 # cs, sk_errno = 0 \<rparr> = write_iov_loop [] 4 5 s' \<and>
    sk_out s' = ''abde'' \<and> sk_calls s' = cs"
  by (rule exI [of _ "\<lparr> sk_out = ''abde'', sk_in = [], sk_calls = cs, sk_errno = 0 \<rparr>"])
    (simp add: write_iov_loop.simps [where iov = "_ # _"] sys_send_def iov_data_def adopt_iov_pointers_def iov_advance_def)

end
