(* ===== verification/Worker_Thread.thy ===== *)
theory Worker_Thread
  imports Io_Devices Client_Lib Job_Queue
begin

text \<open>
  The link of a slave to its master: \<^verbatim>\<open>MasterConnectorSocket\<close> (\<^verbatim>\<open>MasterAdapter.cpp\<close>), the thread that owns it
  (\<^verbatim>\<open>WorkerThread.cpp\<close>) and the notifications it sends to the main thread (\<^verbatim>\<open>Notifier.cpp\<close>). The thread is a state
  machine whose steps are what it does between two accesses to what it shares with the main thread: the job
  queue, the semaphore and the flag \<^verbatim>\<open>mActive\<close>. The main thread pushes jobs and stops it at any time. A connection the
  kernel gives is a socket with all its later answers. A notification is written to the pipe with one call; the
  pipe takes it, as it does for writes of that size.
\<close>

section \<open>The connection\<close>

record link =
  lk_dev :: device
  lk_connected :: bool
  lk_sock :: sock

definition new_link :: "sock \<Rightarrow> link" where
  "new_link s = \<lparr> lk_dev = \<lparr> dv_fd = Invalid, dv_dispatcher = False \<rparr>, lk_connected = False, lk_sock = s \<rparr>"

definition io_interrupted :: error_code where "io_interrupted = EINTR"

function connect_loop :: "sock \<Rightarrow> (error_code \<times> sock) option" where
  "connect_loop s =
     (case sock_connect s of
        None \<Rightarrow> None
      | Some (ec, s') \<Rightarrow> if ec = io_interrupted then connect_loop s' else Some (ec, s'))"
  by pat_completeness auto
termination
  by (relation "measure (\<lambda>s. length (sk_calls s))") (auto simp: sock_connect_def dest: sys_call_calls)

declare connect_loop.simps [simp del]

text \<open>A socket option is set and the answer ignored.\<close>

definition set_sockopt :: "sock \<Rightarrow> sock option" where
  "set_sockopt s = map_option snd (sys_call s)"

definition link_close :: "link \<Rightarrow> link option" where
  "link_close lk =
     map_option (\<lambda>(_, _ :: unit disp_op list, d, s). lk\<lparr> lk_dev := d, lk_sock := s \<rparr>) (dev_close (lk_dev lk) (lk_sock lk))"

definition link_disconnect :: "link \<Rightarrow> link option" where
  "link_disconnect lk = map_option (\<lambda>lk'. lk'\<lparr> lk_connected := False \<rparr>) (link_close lk)"

definition link_connected :: "u32 \<Rightarrow> link \<Rightarrow> link option" where
  "link_connected pid lk =
     (case set_sockopt (lk_sock lk) of
        None \<Rightarrow> None
      | Some s1 \<Rightarrow>
          (case sendAuthPackage pid s1 of
             None \<Rightarrow> None
           | Some (ret, s2) \<Rightarrow>
               let lk2 = lk\<lparr> lk_connected := True, lk_sock := s2 \<rparr>
               in if ret \<noteq> 0 then link_disconnect lk2 else Some lk2))"

text \<open>\<^verbatim>\<open>MasterConnectorSocket::connect\<close>; \<open>s\<close> is what the kernel has ready for the next connection.\<close>

definition link_connect :: "u32 \<Rightarrow> sock \<Rightarrow> link \<Rightarrow> (bool \<times> link) option" where
  "link_connect pid s lk =
     (case sock_open (lk_dev lk) s :: (error_code \<times> unit disp_op list \<times> device \<times> sock) option of
        None \<Rightarrow> None
      | Some (ec0, _, d, s1) \<Rightarrow>
          if ec0 = io_ok then
            (case Option.bind (set_sockopt s1) set_sockopt of
               None \<Rightarrow> None
             | Some s2 \<Rightarrow>
                 (case connect_loop s2 of
                    None \<Rightarrow> None
                  | Some (ec, s3) \<Rightarrow>
                      let lk3 = lk\<lparr> lk_dev := d, lk_sock := s3 \<rparr>
                      in map_option (\<lambda>lk'. (dev_is_open (lk_dev lk'), lk'))
                           (if ec = io_ok then link_connected pid lk3 else link_close lk3)))
          else Some (dev_is_open d, lk\<lparr> lk_dev := d, lk_sock := s1 \<rparr>))"

definition sendPing :: "platform \<Rightarrow> link \<Rightarrow> (bool \<times> link) option" where
  "sendPing pf lk =
     map_option (\<lambda>(r, _, _, s). (r = 0, lk\<lparr> lk_sock := s \<rparr>))
       (sendAndReceive pf (sint DCMD_FND_MASTER_PING) [] 0 0 (lk_sock lk))"

definition ping_id_argument :: "u32 \<Rightarrow> char list" where
  "ping_id_argument i = put_version DSI_SERVICEBROKER_VERSION @ put_u32 i @ put_u32 0"

definition sendIdPing :: "platform \<Rightarrow> u32 \<Rightarrow> link \<Rightarrow> (bool \<times> link) option" where
  "sendIdPing pf i lk =
     map_option (\<lambda>(r, _, _, s). (r = 0, lk\<lparr> lk_sock := s \<rparr>))
       (sendAndReceive pf (sint DCMD_FND_MASTER_PING_ID) (ping_id_argument i) 12 0 (lk_sock lk))"

section \<open>Jobs\<close>

text \<open>A job as the thread sees it: a command, the bytes of its argument and of its result.\<close>

record raw_job =
  rj_dcmd :: u32
  rj_arg :: "char list"
  rj_sbytes :: nat
  rj_rbytes :: nat
  rj_status :: int
  rj_ret_val :: int

text \<open>\<^verbatim>\<open>MasterConnectorSocket::execute\<close>; \<^verbatim>\<open>ret_val\<close> keeps its value when the exchange stores none.\<close>

definition link_execute :: "platform \<Rightarrow> raw_job \<Rightarrow> link \<Rightarrow> (bool \<times> raw_job \<times> link) option" where
  "link_execute pf job lk =
     map_option (\<lambda>(r, rco, mem, s).
       let j1 = job\<lparr> rj_status := r, rj_arg := mem, rj_ret_val := (case rco of None \<Rightarrow> rj_ret_val job | Some v \<Rightarrow> v) \<rparr>;
           j2 = (if r = 0 then
                   if rj_ret_val j1 < 0 then j1\<lparr> rj_ret_val := - rj_ret_val j1 \<rparr>
                   else if rj_ret_val j1 = status_code FNDBadArgument then j1\<lparr> rj_status := EINVAL \<rparr>
                   else j1
                 else j1)
       in (r = 0, j2, lk\<lparr> lk_sock := s \<rparr>))
       (sendAndReceive pf (sint (rj_dcmd job)) (rj_arg job) (rj_sbytes job) (rj_rbytes job) (lk_sock lk))"

section \<open>Notifications for the main thread\<close>

datatype pulse_note = Job_finished addr | Master_connected | Master_disconnected

text \<open>\<^verbatim>\<open>InternalNotification\<close>: code and value; the address of a job has 32 bits.\<close>

fun note_pulse :: "pulse_note \<Rightarrow> u32 \<times> u32" where
  "note_pulse (Job_finished j) = (PULSE_JOB_EXECUTED, of_nat j)"
| "note_pulse Master_connected = (PULSE_MASTER_CONNECTED, 0)"
| "note_pulse Master_disconnected = (PULSE_MASTER_DISCONNECTED, 0)"

definition note_bytes :: "pulse_note \<Rightarrow> char list" where
  "note_bytes n = (let (code, val) = note_pulse n in put_u32 code @ put_u32 val)"

section \<open>The thread\<close>

datatype worker_pc = Starting | Loop_head | Removing | Connecting | Executing | Waiting | Ended

record worker =
  wk_pc :: worker_pc
  wk_active :: bool
  wk_timeout :: bool
  wk_link :: link
  wk_queue :: JobQueue
  wk_jobs :: "addr \<Rightarrow> raw_job"
  wk_sem :: nat
  wk_notes :: "pulse_note list"

definition new_worker :: worker where
  "new_worker =
     \<lparr> wk_pc = Starting, wk_active = False, wk_timeout = True,
       wk_link = new_link \<lparr> sk_out = [], sk_in = [], sk_calls = [], sk_errno = 0 \<rparr>, wk_queue = empty_JobQueue,
       wk_jobs = (\<lambda>_. \<lparr> rj_dcmd = 0, rj_arg = [], rj_sbytes = 0, rj_rbytes = 0, rj_status = 0, rj_ret_val = 0 \<rparr>),
       wk_sem = 0, wk_notes = [] \<rparr>"

text \<open>
  \<^verbatim>\<open>Trigger::signal\<close> and \<^verbatim>\<open>Trigger::timed_wait\<close>: a semaphore that counts to one. A wait that is interrupted has expired; one
  that has not expired and finds the semaphore at zero goes on (\<open>None\<close>).
\<close>

definition trigger_signal :: "worker \<Rightarrow> worker" where
  "trigger_signal w = (if wk_sem w < 1 then w\<lparr> wk_sem := wk_sem w + 1 \<rparr> else w)"

definition timed_wait :: "bool \<Rightarrow> worker \<Rightarrow> (bool \<times> worker) option" where
  "timed_wait expired w =
     (if 0 < wk_sem w then Some (True, w\<lparr> wk_sem := wk_sem w - 1 \<rparr>) else if expired then Some (False, w) else None)"

definition notify :: "pulse_note \<Rightarrow> worker \<Rightarrow> worker" where
  "notify n w = w\<lparr> wk_notes := wk_notes w @ [n] \<rparr>"

text \<open>Disconnecting, and telling the main thread.\<close>

definition drop_link :: "worker \<Rightarrow> worker option" where
  "drop_link w = map_option (\<lambda>lk. w\<lparr> wk_link := lk \<rparr>) (link_disconnect (wk_link w))"

definition lose_master :: "worker \<Rightarrow> worker option" where
  "lose_master w = map_option (notify Master_disconnected) (drop_link w)"

text \<open>What the surroundings decide in a step: the next connection, and whether a wait runs into its timeout.\<close>

record worker_env =
  we_conn :: sock
  we_expired :: bool

definition wk_head :: "worker \<Rightarrow> worker option" where
  "wk_head w =
     (if \<not> wk_active w then map_option (\<lambda>w'. w'\<lparr> wk_pc := Ended \<rparr>) (lose_master w)
      else Some (w\<lparr> wk_pc := if lk_connected (wk_link w) then Executing else Removing \<rparr>))"

text \<open>One round of the loop of \<^verbatim>\<open>removePending\<close>.\<close>

definition wk_remove :: "worker \<Rightarrow> worker" where
  "wk_remove w =
     (case jq_pop (wk_queue w) of
        (None, q) \<Rightarrow> w\<lparr> wk_queue := q, wk_pc := Connecting \<rparr>
      | (Some j, q) \<Rightarrow>
          notify (Job_finished j)
            (w\<lparr> wk_queue := q, wk_jobs := (wk_jobs w)(j := (wk_jobs w j)\<lparr> rj_status := EIO \<rparr>) \<rparr>))"

definition wk_connect :: "platform \<Rightarrow> u32 \<Rightarrow> u32 \<Rightarrow> sock \<Rightarrow> worker \<Rightarrow> worker option" where
  "wk_connect pf pid i s w =
     (case link_connect pid s (wk_link w) of
        None \<Rightarrow> None
      | Some (False, lk) \<Rightarrow> Some (w\<lparr> wk_link := lk, wk_pc := Loop_head \<rparr>)
      | Some (True, lk) \<Rightarrow>
          (case sendIdPing pf i lk of
             None \<Rightarrow> None
           | Some (ok, lk') \<Rightarrow>
               let w1 = w\<lparr> wk_link := lk', wk_pc := Loop_head \<rparr>
               in if ok then Some (notify Master_connected w1) else drop_link w1))"

text \<open>One round of the loop of \<^verbatim>\<open>executePending\<close>, with what \<^verbatim>\<open>run\<close> does after it.\<close>

definition wk_ping :: "platform \<Rightarrow> worker \<Rightarrow> worker option" where
  "wk_ping pf w =
     (let w1 = w\<lparr> wk_pc := Waiting \<rparr>
      in if wk_timeout w
         then (case sendPing pf (wk_link w) of
                 None \<Rightarrow> None
               | Some (ok, lk) \<Rightarrow> let w2 = w1\<lparr> wk_link := lk \<rparr> in if ok then Some w2 else lose_master w2)
         else Some w1)"

definition wk_execute :: "platform \<Rightarrow> worker \<Rightarrow> worker option" where
  "wk_execute pf w =
     (case jq_pop (wk_queue w) of
        (None, q) \<Rightarrow> wk_ping pf (w\<lparr> wk_queue := q \<rparr>)
      | (Some j, q) \<Rightarrow>
          (case link_execute pf (wk_jobs w j) (wk_link w) of
             None \<Rightarrow> None
           | Some (rc, job, lk) \<Rightarrow>
               let w1 = notify (Job_finished j) (w\<lparr> wk_queue := q, wk_jobs := (wk_jobs w)(j := job), wk_link := lk \<rparr>)
               in if rc then Some w1 else lose_master (w1\<lparr> wk_pc := Waiting \<rparr>)))"

definition wk_wait :: "bool \<Rightarrow> worker \<Rightarrow> worker option" where
  "wk_wait expired w =
     map_option (\<lambda>(signalled, w1). w1\<lparr> wk_timeout := \<not> signalled, wk_pc := Loop_head \<rparr>) (timed_wait expired w)"

text \<open>\<open>None\<close>: a call has not returned yet, or the thread has ended.\<close>

definition worker_next :: "platform \<Rightarrow> u32 \<Rightarrow> u32 \<Rightarrow> worker_env \<Rightarrow> worker \<Rightarrow> worker option" where
  "worker_next pf pid i we w =
     (case wk_pc w of
        Starting \<Rightarrow> Some (w\<lparr> wk_active := True, wk_timeout := True, wk_pc := Loop_head \<rparr>)
      | Loop_head \<Rightarrow> wk_head w
      | Removing \<Rightarrow> Some (wk_remove w)
      | Connecting \<Rightarrow> wk_connect pf pid i (we_conn we) w
      | Executing \<Rightarrow> wk_execute pf w
      | Waiting \<Rightarrow> wk_wait (we_expired we) w
      | Ended \<Rightarrow> None)"

section \<open>The main thread\<close>

text \<open>\<^verbatim>\<open>MasterAdapter::eval\<close> of a job at an address, and \<^verbatim>\<open>WorkerThread::stop\<close>.\<close>

definition wk_eval :: "addr \<Rightarrow> raw_job \<Rightarrow> worker \<Rightarrow> worker" where
  "wk_eval j job w = trigger_signal (w\<lparr> wk_queue := jq_push j (wk_queue w), wk_jobs := (wk_jobs w)(j := job) \<rparr>)"

definition wk_stop :: "worker \<Rightarrow> worker" where
  "wk_stop w = trigger_signal (w\<lparr> wk_active := False \<rparr>)"

text \<open>The jobs that have been reported, in this order.\<close>

fun job_of :: "pulse_note \<Rightarrow> addr list" where
  "job_of (Job_finished j) = [j]"
| "job_of _ = []"

definition jobs_reported :: "worker \<Rightarrow> addr list" where
  "jobs_reported w = concat (map job_of (wk_notes w))"

text \<open>
  The runs of both threads, with the jobs pushed so far. A job may be pushed again once it has been
  reported.
\<close>

inductive worker_run :: "platform \<Rightarrow> u32 \<Rightarrow> u32 \<Rightarrow> addr list \<Rightarrow> worker \<Rightarrow> bool"
  for pf :: platform and pid :: u32 and i :: u32 where
  start: "worker_run pf pid i [] new_worker"
| thread: "worker_run pf pid i pushed w \<Longrightarrow> worker_next pf pid i we w = Some w' \<Longrightarrow> worker_run pf pid i pushed w'"
| eval: "worker_run pf pid i pushed w \<Longrightarrow> j \<notin> set (drop (length (jobs_reported w)) pushed) \<Longrightarrow>
    worker_run pf pid i (pushed @ [j]) (wk_eval j job w)"
| stop: "worker_run pf pid i pushed w \<Longrightarrow> worker_run pf pid i pushed (wk_stop w)"

section \<open>The link\<close>

lemma link_close_simps:
  "link_close lk = Some lk' \<Longrightarrow> lk_connected lk' = lk_connected lk \<and> \<not> dev_is_open (lk_dev lk')"
  by (auto simp: link_close_def dev_close_def dev_is_open_def split: if_splits)

lemma link_disconnect_simps:
  "link_disconnect lk = Some lk' \<Longrightarrow> \<not> lk_connected lk' \<and> \<not> dev_is_open (lk_dev lk')"
  by (auto simp: link_disconnect_def dest: link_close_simps)

text \<open>Connecting from a closed link: the answer tells whether the link is connected.\<close>

lemma link_connected_result:
  assumes "link_connected pid lk = Some lk'" "dev_is_open (lk_dev lk)"
  shows "lk_connected lk' \<longleftrightarrow> dev_is_open (lk_dev lk')"
  using assms by (auto simp: link_connected_def Let_def dest!: link_disconnect_simps split: option.splits if_splits)

lemma sock_open_result: "sock_open d s = Some (ec, ops, d', s') \<Longrightarrow> ec = io_ok \<longleftrightarrow> dev_is_open d'"
  by (auto simp: sock_open_def dev_is_open_def split: option.splits)

lemma link_connect_result:
  assumes "link_connect pid s lk = Some (ok, lk')" "\<not> lk_connected lk"
  shows "(ok \<longleftrightarrow> dev_is_open (lk_dev lk')) \<and> (ok \<longleftrightarrow> lk_connected lk')"
proof -
  obtain ec0 ops d s1 where o: "sock_open (lk_dev lk) s = Some (ec0, ops :: unit disp_op list, d, s1)"
    using assms(1) by (auto simp: link_connect_def split: option.splits)
  show ?thesis
  proof (cases "ec0 = io_ok")
    case True
    then have op: "dev_is_open d" using sock_open_result [OF o] by simp
    have "lk_connected lk' \<longleftrightarrow> dev_is_open (lk_dev lk')"
      if "link_connected pid (lk\<lparr> lk_dev := d, lk_sock := b \<rparr>) = Some lk'" for b
      using link_connected_result [OF that] op by simp
    with assms o True show ?thesis
      by (auto simp: link_connect_def Let_def dest!: link_close_simps split: option.splits if_splits)
  next
    case False
    with assms o sock_open_result [OF o] show ?thesis by (auto simp: link_connect_def)
  qed
qed

section \<open>The invariant of the thread\<close>

text \<open>
  The state of the link after a list of notifications, if connecting and disconnecting alternate in it.
\<close>

fun link_after :: "bool \<Rightarrow> pulse_note list \<Rightarrow> bool option" where
  "link_after b [] = Some b"
| "link_after b (Job_finished j # ns) = link_after b ns"
| "link_after b (Master_connected # ns) = (if b then None else link_after True ns)"
| "link_after b (Master_disconnected # ns) = (if b then link_after False ns else None)"

lemma link_after_append:
  "link_after b (ms @ ns) = (case link_after b ms of None \<Rightarrow> None | Some b' \<Rightarrow> link_after b' ns)"
  by (induction b ms rule: link_after.induct) auto

definition link_inv :: "worker \<Rightarrow> bool" where
  "link_inv w \<longleftrightarrow>
     (if wk_pc w = Ended
      then \<not> lk_connected (wk_link w) \<and> (\<exists>ns. wk_notes w = ns @ [Master_disconnected] \<and> link_after False ns \<noteq> None)
      else link_after False (wk_notes w) = Some (lk_connected (wk_link w))) \<and>
     (wk_pc w \<in> {Starting, Removing, Connecting} \<longrightarrow> \<not> lk_connected (wk_link w)) \<and>
     (wk_pc w = Executing \<longrightarrow> lk_connected (wk_link w))"

text \<open>The queue is the rest of what was pushed, and while the thread waits with a link, a job in the queue has woken it.\<close>

definition queue_inv :: "addr list \<Rightarrow> worker \<Rightarrow> bool" where
  "queue_inv pushed w \<longleftrightarrow>
     (\<exists>xs. jq_inv (wk_queue w) xs \<and> jobs_reported w @ xs = pushed \<and>
        (wk_pc w = Waiting \<and> lk_connected (wk_link w) \<and> xs \<noteq> [] \<longrightarrow> 0 < wk_sem w))"

lemma notify_simps [simp]:
  "wk_notes (notify n w) = wk_notes w @ [n]" "wk_pc (notify n w) = wk_pc w" "wk_link (notify n w) = wk_link w"
  "wk_queue (notify n w) = wk_queue w" "wk_sem (notify n w) = wk_sem w" "wk_active (notify n w) = wk_active w"
  by (simp_all add: notify_def)

lemma drop_link_simps:
  "drop_link w = Some w' \<Longrightarrow> \<not> lk_connected (wk_link w') \<and> wk_notes w' = wk_notes w \<and> wk_pc w' = wk_pc w \<and>
     wk_queue w' = wk_queue w \<and> wk_sem w' = wk_sem w \<and> wk_active w' = wk_active w"
  by (auto simp: drop_link_def dest: link_disconnect_simps)

lemma lose_master_simps:
  "lose_master w = Some w' \<Longrightarrow> \<not> lk_connected (wk_link w') \<and> wk_notes w' = wk_notes w @ [Master_disconnected] \<and>
     wk_pc w' = wk_pc w \<and> wk_queue w' = wk_queue w \<and> wk_sem w' = wk_sem w \<and> wk_active w' = wk_active w"
  by (auto simp: lose_master_def dest: drop_link_simps)

lemma jobs_reported_append [simp]: "wk_notes w' = wk_notes w @ ns \<Longrightarrow> jobs_reported w' = jobs_reported w @ concat (map job_of ns)"
  by (simp add: jobs_reported_def)

lemma link_keeps_connected:
  "sendPing pf lk = Some (ok, lk') \<Longrightarrow> lk_connected lk' = lk_connected lk"
  "sendIdPing pf i lk = Some (ok, lk') \<Longrightarrow> lk_connected lk' = lk_connected lk"
  "link_execute pf job lk = Some (rc, job', lk') \<Longrightarrow> lk_connected lk' = lk_connected lk"
  by (auto simp: sendPing_def sendIdPing_def link_execute_def Let_def)

lemma worker_next_link:
  assumes "link_inv w" "worker_next pf pid i we w = Some w'"
  shows "link_inv w'"
proof (cases "wk_pc w")
  case Loop_head
  then show ?thesis
    using assms by (auto simp: worker_next_def wk_head_def link_inv_def link_after_append dest!: lose_master_simps split: if_splits)
next
  case Removing
  then show ?thesis
    using assms by (auto simp: worker_next_def wk_remove_def link_inv_def link_after_append split: option.splits prod.splits)
next
  case Connecting
  have c: "\<not> lk_connected (wk_link w)" using assms Connecting by (simp add: link_inv_def)
  show ?thesis
    using assms Connecting c link_connect_result [OF _ c, of pid "we_conn we"]
    by (auto simp: worker_next_def wk_connect_def link_inv_def link_after_append Let_def
        dest!: drop_link_simps dest: link_keeps_connected(2) split: option.splits prod.splits if_splits bool.splits)
next
  case Executing
  have c: "lk_connected (wk_link w)" using assms Executing by (simp add: link_inv_def)
  show ?thesis
    using assms Executing c
    by (auto simp: worker_next_def wk_execute_def wk_ping_def link_inv_def link_after_append Let_def
        dest!: lose_master_simps dest: link_keeps_connected(1,3) split: option.splits prod.splits if_splits)
next
  case Waiting
  then show ?thesis
    using assms by (auto simp: worker_next_def wk_wait_def timed_wait_def link_inv_def Let_def split: if_splits)
qed (use assms in \<open>auto simp: worker_next_def link_inv_def\<close>)

text \<open>A step that leaves queue and notifications of jobs alone; it may only start to wait when the queue is empty.\<close>

lemma queue_inv_frame:
  assumes "queue_inv pushed w" "wk_queue w' = wk_queue w" "jobs_reported w' = jobs_reported w"
    "wk_pc w' = Waiting \<Longrightarrow> lk_connected (wk_link w') \<Longrightarrow> jq_inv (wk_queue w) []"
  shows "queue_inv pushed w'"
proof -
  obtain xs where xs: "jq_inv (wk_queue w) xs" "jobs_reported w @ xs = pushed" using assms(1) by (auto simp: queue_inv_def)
  have "xs = []" if "jq_inv (wk_queue w) []"
  proof (rule ccontr)
    assume "xs \<noteq> []"
    then obtain y ys where "xs = y # ys" by (cases xs) auto
    with xs(1) jq_inv_pop_Cons jobqueue.rep_pop_Nil [OF that] show False by fastforce
  qed
  then show ?thesis using xs assms unfolding queue_inv_def by auto
qed

lemma jq_pop_cases:
  assumes "jq_inv q xs" "jq_pop q = (r, q')"
  shows "xs = [] \<and> r = None \<and> q' = q \<or> (\<exists>j ys. xs = j # ys \<and> r = Some j \<and> jq_inv q' ys)"
  using assms jobqueue.rep_pop_Nil [of q] jq_inv_pop_Cons [of q] by (cases xs) fastforce+

lemma worker_next_queue:
  assumes "queue_inv pushed w" "link_inv w" "worker_next pf pid i we w = Some w'"
  shows "queue_inv pushed w'"
proof -
  obtain xs where xs: "jq_inv (wk_queue w) xs" "jobs_reported w @ xs = pushed" using assms(1) by (auto simp: queue_inv_def)
  obtain r q' where pop: "jq_pop (wk_queue w) = (r, q')" by force
  note popped = jq_pop_cases [OF xs(1) pop]
  show ?thesis
  proof (cases "wk_pc w")
    case Starting
    with assms show ?thesis by (intro queue_inv_frame [OF assms(1)]) (auto simp: worker_next_def jobs_reported_def)
  next
    case Loop_head
    with assms show ?thesis
      by (intro queue_inv_frame [OF assms(1)])
        (auto simp: worker_next_def wk_head_def jobs_reported_def dest!: lose_master_simps split: if_splits)
  next
    case Removing
    with assms(3) pop popped xs show ?thesis
      by (auto simp: worker_next_def wk_remove_def queue_inv_def jobs_reported_def split: option.splits)
  next
    case Connecting
    with assms show ?thesis
      by (intro queue_inv_frame [OF assms(1)])
        (auto simp: worker_next_def wk_connect_def jobs_reported_def Let_def dest!: drop_link_simps split: option.splits bool.splits if_splits)
  next
    case Executing
    show ?thesis
    proof (cases r)
      case None
      with popped have "jq_inv (wk_queue w) []" using xs by auto
      with assms(3) Executing pop None popped show ?thesis
        by (intro queue_inv_frame [OF assms(1)])
          (auto simp: worker_next_def wk_execute_def wk_ping_def jobs_reported_def Let_def dest!: lose_master_simps split: option.splits if_splits)
    next
      case (Some j)
      with popped obtain ys where ys: "xs = j # ys" "jq_inv q' ys" by auto
      from assms(3) Executing pop Some have "wk_queue w' = q'" "jobs_reported w' = jobs_reported w @ [j]"
        "wk_pc w' = Waiting \<Longrightarrow> \<not> lk_connected (wk_link w')"
        by (auto simp: worker_next_def wk_execute_def jobs_reported_def Let_def dest!: lose_master_simps split: option.splits if_splits)
      with ys xs(2) show ?thesis by (auto simp: queue_inv_def)
    qed
  next
    case Waiting
    with assms show ?thesis
      by (intro queue_inv_frame [OF assms(1)]) (auto simp: worker_next_def wk_wait_def timed_wait_def jobs_reported_def Let_def split: if_splits)
  next
    case Ended
    with assms show ?thesis by (simp add: worker_next_def)
  qed
qed

lemma trigger_signal_simps [simp]:
  "wk_queue (trigger_signal w) = wk_queue w" "wk_notes (trigger_signal w) = wk_notes w" "wk_pc (trigger_signal w) = wk_pc w"
  "wk_link (trigger_signal w) = wk_link w" "wk_active (trigger_signal w) = wk_active w" "0 < wk_sem (trigger_signal w)"
  by (simp_all add: trigger_signal_def)

lemma worker_run_inv:
  "worker_run pf pid i pushed w \<Longrightarrow> link_inv w \<and> queue_inv pushed w"
proof (induction rule: worker_run.induct)
  case start
  then show ?case
    by (simp add: new_worker_def link_inv_def queue_inv_def jobs_reported_def new_link_def)
      (simp add: jq_inv_empty)
next
  case (thread pushed w we w')
  then show ?case using worker_next_link worker_next_queue by blast
next
  case (eval pushed w j job)
  then obtain xs where xs: "jq_inv (wk_queue w) xs" "jobs_reported w @ xs = pushed" by (auto simp: queue_inv_def)
  with eval have "jq_inv (wk_queue (wk_eval j job w)) (xs @ [j])" by (auto simp: wk_eval_def intro!: jq_inv_push)
  with eval xs show ?case by (auto simp: link_inv_def queue_inv_def wk_eval_def jobs_reported_def)
next
  case (stop pushed w)
  then show ?case by (auto simp: link_inv_def queue_inv_def wk_stop_def jobs_reported_def)
qed

section \<open>Losing the link\<close>

fun remove_rounds :: "nat \<Rightarrow> worker \<Rightarrow> worker" where
  "remove_rounds 0 w = w"
| "remove_rounds (Suc n) w = remove_rounds n (wk_remove w)"

text \<open>Without a link every job in the queue is reported as failed before the thread tries to connect.\<close>

lemma removing_reports_all:
  assumes "jq_inv (wk_queue w) xs" "wk_pc w = Removing"
  shows "let w' = remove_rounds (Suc (length xs)) w in wk_pc w' = Connecting \<and> jobs_reported w' = jobs_reported w @ xs \<and>
    (\<forall>j \<in> set xs. rj_status (wk_jobs w' j) = EIO) \<and> (\<forall>j. j \<notin> set xs \<longrightarrow> wk_jobs w' j = wk_jobs w j)"
  using assms
proof (induction xs arbitrary: w)
  case Nil
  then show ?case using jobqueue.rep_pop_Nil [of "wk_queue w"] by (simp add: wk_remove_def jobs_reported_def)
next
  case (Cons x xs)
  obtain q' where q': "jq_pop (wk_queue w) = (Some x, q')" "jq_inv q' xs" using jq_inv_pop_Cons [OF Cons.prems(1)] by blast
  have w: "wk_queue (wk_remove w) = q'" "wk_pc (wk_remove w) = Removing" "jobs_reported (wk_remove w) = jobs_reported w @ [x]"
    "wk_jobs (wk_remove w) = (wk_jobs w)(x := (wk_jobs w x)\<lparr> rj_status := EIO \<rparr>)"
    using q'(1) Cons.prems(2) by (simp_all add: wk_remove_def jobs_reported_def notify_def)
  have d: "x \<notin> set xs" using Cons.prems(1) by (auto simp: jq_inv_def jq_rep_def)
  from Cons.IH [of "wk_remove w"] q'(2) w d show ?case by (auto simp: Let_def)
qed

text \<open>A stop before the thread has started is lost: the thread sets the flag again when it starts.\<close>

lemma early_stop_lost:
  "worker_next pf pid i we (wk_stop new_worker) = Some w' \<Longrightarrow> wk_active w'"
  by (auto simp: worker_next_def wk_stop_def new_worker_def)

text \<open>After a job that failed the rest of the queue waits for the next timeout or job: the semaphore is not raised for it.\<close>

lemma failed_job_delays_rest:
  assumes "wk_pc w = Executing" "jq_inv (wk_queue w) (j # k # xs)" "wk_sem w = 0"
    "link_execute pf (wk_jobs w j) (wk_link w) = Some (False, job, lk)" "worker_next pf pid i we w = Some w'"
  shows "wk_pc w' = Waiting \<and> jq_inv (wk_queue w') (k # xs) \<and> timed_wait False w' = None"
proof -
  obtain q' where "jq_pop (wk_queue w) = (Some j, q')" "jq_inv q' (k # xs)" using jq_inv_pop_Cons [OF assms(2)] by blast
  with assms show ?thesis
    by (auto simp: worker_next_def wk_execute_def timed_wait_def Let_def dest!: lose_master_simps)
qed

end
