(* ===== verification/Slave_Link.thy ===== *)
theory Slave_Link
  imports Worker_Thread Broker_Safety Client_Lib_Spec
begin

text \<open>
  What a slave hears of its master and of its own worker thread, as the routines of the event loop: the reading end
  of the pipe (\<^verbatim>\<open>ServicebrokerServer::handleInternalNotification\<close>), the connections the master sends pulses over
  (\<^verbatim>\<open>TCPMasterNotificationReceiver\<close>) and the socket they come from (\<^verbatim>\<open>NotificationMixin::handleNewClient\<close>). The routines satisfy
  what the dispatcher relies on. Then a job of the thread at a master.
\<close>

section \<open>Pulses\<close>

text \<open>
  \<^verbatim>\<open>sl_jobs\<close> are the job objects that exist, by the 32-bit address a notification carries; \<open>sl_broker\<close> is \<open>None\<close> after a
  null or wild pointer was used; \<open>sl_deferred\<close> are the responses of finished jobs.
\<close>

record slave =
  sl_broker :: "broker option"
  sl_jobs :: "u32 \<Rightarrow> Job option"
  sl_deferred :: "(nat \<times> nat \<times> int \<times> job_out option) list"

definition pulse_of :: "char list \<Rightarrow> u32 \<times> u32" where
  "pulse_of bs = (get_u32 bs 0, get_u32 bs 4)"

text \<open>
  \<^verbatim>\<open>Servicebroker::dispatch(code, value)\<close> with the value as it comes: the value of a finished job is used as a pointer and the
  job is deleted.
\<close>

definition slave_dispatch :: "env \<Rightarrow> u32 \<times> u32 \<Rightarrow> slave \<Rightarrow> slave" where
  "slave_dispatch E = (\<lambda>(code, val) s.
     case sl_broker s of
       None \<Rightarrow> s
     | Some b \<Rightarrow>
         if code = PULSE_JOB_EXECUTED \<and> val \<noteq> 0 \<and> sl_jobs s val = None then s\<lparr> sl_broker := None \<rparr>
         else (case dispatch_pulse E code val (if val = 0 then None else sl_jobs s val) b of
                 None \<Rightarrow> s\<lparr> sl_broker := None \<rparr>
               | Some (b', r) \<Rightarrow>
                   s\<lparr> sl_broker := Some b',
                      sl_jobs := (if code = PULSE_JOB_EXECUTED then (sl_jobs s)(val := None) else sl_jobs s),
                      sl_deferred := sl_deferred s @ (case r of None \<Rightarrow> [] | Some x \<Rightarrow> [x]) \<rparr>))"

section \<open>Completion routines\<close>

datatype slave_routine = InternalNotification | MasterNotification | NewNotificationClient

definition sizeof_pulse :: nat where "sizeof_pulse = 8"

definition handleInternalNotification :: "env \<Rightarrow> io_report \<Rightarrow> slave \<Rightarrow> slave \<times> slave_routine disp_op list \<times> bool" where
  "handleInternalNotification E r s =
     (case r of
        Io_report amount err buf \<Rightarrow>
          (if err = io_ok \<and> amount = int sizeof_pulse then slave_dispatch E (pulse_of buf) s else s, [], True)
      | _ \<Rightarrow> (s, [], True))"

text \<open>Deleting the receiver closes its socket, which takes the descriptor out of the dispatcher.\<close>

definition receiver_handleRead :: "env \<Rightarrow> int \<Rightarrow> io_report \<Rightarrow> slave \<Rightarrow> slave \<times> slave_routine disp_op list \<times> bool" where
  "receiver_handleRead E fd r s =
     (case r of
        Io_report amount err buf \<Rightarrow>
          if err = io_ok then (slave_dispatch E (pulse_of buf) s, [], True) else (s, [Remove_all fd], False)
      | _ \<Rightarrow> (s, [Remove_all fd], False))"

text \<open>\<^verbatim>\<open>TCPMasterNotificationReceiver::start\<close>: the buffer is zero at first.\<close>

definition receiver_start :: "int \<Rightarrow> slave_routine disp_op" where
  "receiver_start fd = Enqueue fd (ReadAllEvent (new_io_all (replicate sizeof_pulse NUL)) MasterNotification) POLLIN"

definition notification_handleNewClient :: "io_report \<Rightarrow> slave \<Rightarrow> slave \<times> slave_routine disp_op list \<times> bool" where
  "notification_handleNewClient r s =
     (case r of
        Accept_report (Some fd) err \<Rightarrow> (s, if err = io_ok then [receiver_start (int fd)] else [], True)
      | _ \<Rightarrow> (s, [], True))"

definition slave_handler :: "env \<Rightarrow> (slave_routine, slave) handler" where
  "slave_handler E c fd r s =
     (case c of
        InternalNotification \<Rightarrow> handleInternalNotification E r s
      | MasterNotification \<Rightarrow> receiver_handleRead E fd r s
      | NewNotificationClient \<Rightarrow> notification_handleNewClient r s)"

text \<open>The events \<^verbatim>\<open>init\<close> arms: the pipe and the socket the master connects to.\<close>

definition slave_start :: "nat \<Rightarrow> int \<Rightarrow> int \<Rightarrow> slave_routine dispatcher" where
  "slave_start capa pipe acceptor =
     (case apply_ops
        [Enqueue pipe (ReadAllEvent (new_io_all (replicate sizeof_pulse NUL)) InternalNotification) POLLIN,
         Enqueue acceptor (AcceptEvent NewNotificationClient) POLLIN] (Dispatcher capa) of
        Inr d \<Rightarrow> d | Inl _ \<Rightarrow> Dispatcher capa)"

definition broker_reached :: "env \<Rightarrow> broker \<Rightarrow> slave \<Rightarrow> bool" where
  "broker_reached E b0 s \<longleftrightarrow> (\<forall>b. sl_broker s = Some b \<longrightarrow> reachable E b0 b)"

lemma slave_dispatch_reached: "broker_reached E b0 s \<Longrightarrow> broker_reached E b0 (slave_dispatch E p s)"
  by (cases p) (auto simp: broker_reached_def slave_dispatch_def dest: broker_step.Pulse intro: reachable.step
      split: option.splits if_splits)

interpretation slave_events: app_invariant "slave_handler E" "broker_reached E b0" for E b0
proof
  fix c fd r s s' ops rearm
  assume h: "slave_handler E c fd r s = (s', ops, rearm)"
  show "list_all arms_open ops"
    using h by (auto simp: slave_handler_def handleInternalNotification_def receiver_handleRead_def
        notification_handleNewClient_def receiver_start_def split: slave_routine.splits io_report.splits option.splits if_splits)
  show "broker_reached E b0 s'" if "broker_reached E b0 s"
    using h that by (auto simp: slave_handler_def handleInternalNotification_def receiver_handleRead_def
        notification_handleNewClient_def intro: slave_dispatch_reached
        split: slave_routine.splits io_report.splits option.splits if_splits)
next
  fix c fd r s s' ops x
  assume "slave_handler E c fd r s = (s', ops, True)" "x \<in> set ops"
  then show "\<not> removes_fd fd x"
    by (auto simp: slave_handler_def handleInternalNotification_def receiver_handleRead_def
        notification_handleNewClient_def receiver_start_def split: slave_routine.splits io_report.splits option.splits if_splits)
qed

lemma slave_start_wf:
  assumes "0 \<le> pipe" "0 \<le> acceptor"
  shows "disp_wf (slave_start capa pipe acceptor)"
  using apply_ops_cases [OF Dispatcher_wf, of
      "[Enqueue pipe (ReadAllEvent (new_io_all (replicate sizeof_pulse NUL)) InternalNotification) POLLIN,
        Enqueue acceptor (AcceptEvent NewNotificationClient) POLLIN]" capa] assms Dispatcher_wf
  by (auto simp: slave_start_def simp del: apply_ops.simps)

lemma pulse_of_bytes [simp]: "pulse_of (put_u32 a @ put_u32 b) = (a, b)"
  using get_put(2) [of a "put_u32 b"] get_put(2) [of b "[]"] get_drop(2) [of "put_u32 a @ put_u32 b" 4]
  by (simp add: pulse_of_def)

text \<open>A notification of the worker thread, read from the pipe, is dispatched with its code and value.\<close>

lemma note_dispatched:
  "handleInternalNotification E (Io_report (int (length (note_bytes n))) io_ok (note_bytes n)) s =
     (slave_dispatch E (note_pulse n) s, [], True)"
  by (cases "note_pulse n")
    (simp add: handleInternalNotification_def note_bytes_def sizeof_pulse_def)

text \<open>A pulse with the code of a finished job that comes over the network is used as a pointer as well.\<close>

lemma foreign_job_pulse:
  assumes "sl_broker s = Some b" "val \<noteq> 0" "sl_jobs s val = None"
  shows "sl_broker (fst (receiver_handleRead E fd (Io_report 8 io_ok (put_u32 PULSE_JOB_EXECUTED @ put_u32 val)) s)) = None"
  using assms by (simp add: receiver_handleRead_def slave_dispatch_def)

section \<open>A job at the master\<close>

text \<open>What the worker thread makes of the return code of the master.\<close>

definition job_done :: "raw_job \<Rightarrow> int \<Rightarrow> char list \<Rightarrow> raw_job" where
  "job_done job ret body =
     job\<lparr> rj_status := if ret = status_code FNDBadArgument then EINVAL else 0, rj_ret_val := \<bar>ret\<bar>,
          rj_arg := overwrite (rj_arg job) 0 body \<rparr>"

text \<open>
  The link and the session of the master at its other end: the request of the job is dispatched once with its bytes, the
  response is the result of the job, and both ends are ready for the next one.
\<close>

lemma job_at_master:
  assumes pf: "session_platform pf" and j: "rj_sbytes job \<le> length (rj_arg job)" "rj_sbytes job < 2 ^ 31"
      "unat (rj_dcmd job) \<noteq> ping_id_command"
    and cl: "sv_obj sv a = Some cl" "session_ready cl"
    and d: "sb_dispatch E st a (unat (rj_dcmd job)) (take (rj_sbytes job) (rj_arg job)) (sv_broker sv) = (ans, b')"
      "plain_answer ans" "response_parts ans = (val, rbody)" "length rbody \<le> rj_rbytes job" "length rbody < 2 ^ 31" "is_int32 val"
    and io: "concat bss = request_frame (sint (rj_dcmd job)) (take (rj_sbytes job) (rj_arg job))"
      "fits (length (concat bss)) 0 bss" "socket_takes ws (length (response_frame ans)) ns"
    and s: "sk_in (lk_sock lk) = response_frame ans @ rest"
      "completes (rj_sbytes job) (length rbody) (rj_rbytes job) (sk_calls (lk_sock lk)) = Some cs"
  shows "\<exists>s' sv1 cl'. link_execute pf job lk = Some (True, job_done job val rbody, lk\<lparr> lk_sock := s' \<rparr>) \<and>
    sk_out s' = sk_out (lk_sock lk) @ concat bss \<and> sk_in s' = rest \<and> sk_calls s' = cs \<and>
    feed pf (sb_interface E st) ws a bss sv = Inr sv1 \<and>
    drain pf (sb_interface E st) a ns sv1 = Inr ((put_client a cl' sv)\<lparr> sv_broker := b' \<rparr>) \<and>
    session_ready cl' \<and> cl_sent cl' = cl_sent cl @ response_frame ans"
proof -
  let ?body = "take (rj_sbytes job) (rj_arg job)"
  have "bi_dispatch (sb_interface E st) a (nat (sint (rj_dcmd job) mod 2 ^ 32)) ?body (sv_broker sv) = (ans, b')"
    using d(1) by (simp only: sint_mod) (simp add: sb_interface_def)
  moreover have "nat (sint (rj_dcmd job) mod 2 ^ 32) \<noteq> ping_id_command" unfolding sint_mod by (rule j(3))
  moreover have "length ?body < 2 ^ 31" using j(2) by simp
  moreover have "fits (length (request_frame (sint (rj_dcmd job)) ?body)) 0 bss" using io(1,2) by simp
  ultimately obtain sv1 cl' where sv: "feed pf (sb_interface E st) ws a bss sv = Inr sv1"
    "drain pf (sb_interface E st) a ns sv1 = Inr ((put_client a cl' sv)\<lparr> sv_broker := b' \<rparr>)"
    "session_ready cl'" "cl_sent cl' = cl_sent cl @ response_frame ans"
    using request_answered [OF pf cl _ _ _ d(2,3,5) io(1) _ io(3)] by blast
  obtain e where call: "sendAndReceive pf (sint (rj_dcmd job)) (rj_arg job) (rj_sbytes job) (rj_rbytes job) (lk_sock lk) =
      Some (0, Some val, overwrite (rj_arg job) 0 rbody,
        (lk_sock lk)\<lparr> sk_out := sk_out (lk_sock lk) @ concat bss, sk_in := rest, sk_calls := cs, sk_errno := e \<rparr>)"
    using call_answered [OF pf j(1) s(1) d(3,4,5,6) s(2), of "sint (rj_dcmd job)"] io(1) by auto
  have "link_execute pf job lk = Some (True, job_done job val rbody, lk\<lparr> lk_sock :=
      (lk_sock lk)\<lparr> sk_out := sk_out (lk_sock lk) @ concat bss, sk_in := rest, sk_calls := cs, sk_errno := e \<rparr> \<rparr>)"
    using call by (auto simp: link_execute_def job_done_def Let_def)
  with sv show ?thesis by (intro exI conjI) auto
qed

end
