(* ===== verification/Slave_Spec.thy ===== *)
theory Slave_Spec
  imports Slave_Link Api_Spec
begin

text \<open>
  The properties of the link between a slave and its master, from the jobs of the main thread over the worker thread to the
  handler of the master, and of the event loop that takes the notifications in.
\<close>








end
