(* ===== verification/Variants.thy ===== *)
theory Variants
  imports Streams
begin

text \<open>
  \<^verbatim>\<open>TVariant\<close> (\<^verbatim>\<open>include/dsi/TVariant.hpp\<close>, \<^verbatim>\<open>private/TVariant.hpp\<close>) and the type lists it is built on
  (\<^verbatim>\<open>private/TypeListAlgos.hpp\<close>): a type number beside raw memory in which an object of that type is made and
  destroyed by hand. Types are values of a type \<open>'ty\<close>. What the memory holds is explicit, so that destroying an object that is
  not there, making one over a living one and reading one as another type are errors. A copy constructor may throw. The lemmas
  show that without exceptions this never happens, and relate the object to the values of \<open>Streams\<close>.
\<close>

section \<open>Type lists\<close>

text \<open>Nothing is the answer where no specialisation of the template exists.\<close>

fun tl_Size :: "'ty list \<Rightarrow> nat option" where
  "tl_Size [] = None"
| "tl_Size [t] = Some 1"
| "tl_Size (t # u # us) = map_option Suc (tl_Size (u # us))"

fun tl_Find :: "'ty \<Rightarrow> 'ty list \<Rightarrow> int \<Rightarrow> int option" where
  "tl_Find t [] n = None"
| "tl_Find t [u] n = Some (if u = t then n else - 1)"
| "tl_Find t (u # v # vs) n = (if u = t then Some n else tl_Find t (v # vs) (n + 1))"

fun tl_TypeAt :: "nat \<Rightarrow> 'ty list \<Rightarrow> 'ty option" where
  "tl_TypeAt n [] = None"
| "tl_TypeAt 0 (t # ts) = Some t"
| "tl_TypeAt (Suc n) (t # ts) = tl_TypeAt n ts"

datatype 'ty slot_type = SNilType | Slot 'ty

fun tl_RelaxedTypeAt :: "nat \<Rightarrow> 'ty list \<Rightarrow> 'ty slot_type" where
  "tl_RelaxedTypeAt n [] = SNilType"
| "tl_RelaxedTypeAt 0 (t # ts) = Slot t"
| "tl_RelaxedTypeAt (Suc n) (t # ts) = tl_RelaxedTypeAt n ts"

fun tl_PushBack :: "'ty list \<Rightarrow> 'ty \<Rightarrow> 'ty list option" where
  "tl_PushBack [] t = None"
| "tl_PushBack [u] t = Some [u, t]"
| "tl_PushBack (u # v # vs) t = map_option ((#) u) (tl_PushBack (v # vs) t)"

fun tl_PopBack :: "'ty list \<Rightarrow> 'ty list" where
  "tl_PopBack [] = []"
| "tl_PopBack [t] = []"
| "tl_PopBack (t # u # us) = t # tl_PopBack (u # us)"

fun tl_Max :: "('ty \<Rightarrow> int) \<Rightarrow> 'ty list \<Rightarrow> int option" where
  "tl_Max f [] = None"
| "tl_Max f [t] = Some (f t)"
| "tl_Max f (t # u # us) = map_option (\<lambda>v. if f t > v then f t else v) (tl_Max f (u # us))"

lemma tl_Size_length: "ts \<noteq> [] \<Longrightarrow> tl_Size ts = Some (length ts)"
  by (induction ts rule: tl_Size.induct) auto

lemma tl_RelaxedTypeAt_nth: "tl_RelaxedTypeAt n ts = (if n < length ts then Slot (ts ! n) else SNilType)"
  by (induction n ts rule: tl_RelaxedTypeAt.induct) auto

lemma tl_PushBack_append: "ts \<noteq> [] \<Longrightarrow> tl_PushBack ts t = Some (ts @ [t])"
  by (induction ts t rule: tl_PushBack.induct) auto

lemma tl_PopBack_append: "tl_PopBack (ts @ [t]) = ts"
  by (induction ts rule: tl_PopBack.induct) auto

lemma tl_Find_first:
  "t \<in> set ts \<Longrightarrow> \<exists>i < length ts. tl_Find t ts n = Some (n + int i) \<and> ts ! i = t \<and> (\<forall>j < i. ts ! j \<noteq> t)"
proof (induction t ts n rule: tl_Find.induct)
  case (3 t u v vs n)
  show ?case
  proof (cases "u = t")
    case False
    with 3 obtain i where i: "i < length (v # vs)" "tl_Find t (v # vs) (n + 1) = Some (n + 1 + int i)" "(v # vs) ! i = t"
      "\<forall>j < i. (v # vs) ! j \<noteq> t" by auto
    have "\<forall>j < Suc i. (u # v # vs) ! j \<noteq> t" using i(4) False by (auto simp: less_Suc_eq_0_disj)
    then show ?thesis using i(1-3) False by (intro exI [of _ "Suc i"]) auto
  qed auto
qed auto

section \<open>The variant\<close>

datatype variant_error = No_object | Other_object | Still_alive | Table_range

record ('ty, 'v) tvariant =
  tv_idx :: nat
  tv_obj :: "('ty \<times> 'v) option"

text \<open>\<^verbatim>\<open>typeIdOf\<close>: 0 for the empty variant, and for a type that is not in the list.\<close>

definition tv_typeIdOf :: "'ty \<Rightarrow> 'ty list \<Rightarrow> nat" where
  "tv_typeIdOf t ts = nat (the (tl_Find t ts 0) + 1)"

text \<open>The tables of the helper: one per number of types up to five, one of 15 entries for all other lists.\<close>

definition tv_table :: "'ty list \<Rightarrow> 'ty slot_type list" where
  "tv_table ts =
     (if 2 \<le> length ts \<and> length ts \<le> 5 then map Slot ts else map (\<lambda>n. tl_RelaxedTypeAt n ts) [0..<15])"

definition tv_entry :: "'ty list \<Rightarrow> nat \<Rightarrow> variant_error + 'ty slot_type" where
  "tv_entry ts i = (if i < length (tv_table ts) then Inr (tv_table ts ! i) else Inl Table_range)"

text \<open>The object in the memory: destroying it, reading it, making one.\<close>

definition the_object :: "'ty slot_type \<Rightarrow> ('ty, 'v) tvariant \<Rightarrow> variant_error + 'v" where
  "the_object t v =
     (case tv_obj v of None \<Rightarrow> Inl No_object | Some (u, x) \<Rightarrow> if Slot u = t then Inr x else Inl Other_object)"

definition variant_destroy :: "'ty slot_type \<Rightarrow> ('ty, 'v) tvariant \<Rightarrow> variant_error + ('ty, 'v) tvariant" where
  "variant_destroy t v = (case the_object t v of Inl e \<Rightarrow> Inl e | Inr x \<Rightarrow> Inr (v\<lparr> tv_obj := None \<rparr>))"

text \<open>The value is \<open>None\<close> where the constructor throws; then there is no object. The first component tells that it did.\<close>

definition variant_new :: "'ty \<Rightarrow> 'v option \<Rightarrow> ('ty, 'v) tvariant \<Rightarrow> variant_error + bool \<times> ('ty, 'v) tvariant" where
  "variant_new t x v =
     (case tv_obj v of
        Some _ \<Rightarrow> Inl Still_alive
      | None \<Rightarrow> (case x of None \<Rightarrow> Inr (True, v) | Some x \<Rightarrow> Inr (False, v\<lparr> tv_obj := Some (t, x) \<rparr>)))"

definition tv_destruct :: "'ty list \<Rightarrow> nat \<Rightarrow> ('ty, 'v) tvariant \<Rightarrow> variant_error + ('ty, 'v) tvariant" where
  "tv_destruct ts i v = (case tv_entry ts (i - 1) of Inl e \<Rightarrow> Inl e | Inr t \<Rightarrow> variant_destroy t v)"

definition tv_construct ::
  "('ty \<Rightarrow> 'v \<Rightarrow> 'v option) \<Rightarrow> 'ty list \<Rightarrow> nat \<Rightarrow> ('ty, 'v) tvariant \<Rightarrow> ('ty, 'v) tvariant \<Rightarrow> variant_error + bool \<times> ('ty, 'v) tvariant" where
  "tv_construct copy ts i src v =
     (case tv_entry ts (i - 1) of
        Inl e \<Rightarrow> Inl e
      | Inr SNilType \<Rightarrow> Inl Other_object
      | Inr (Slot t) \<Rightarrow> (case the_object (Slot t) src of Inl e \<Rightarrow> Inl e | Inr x \<Rightarrow> variant_new t (copy t x) v))"

definition try_destroy :: "'ty list \<Rightarrow> ('ty, 'v) tvariant \<Rightarrow> variant_error + ('ty, 'v) tvariant" where
  "try_destroy ts v =
     (if 0 < tv_idx v \<and> tv_idx v < the (tl_Size ts) + 1 then tv_destruct ts (tv_idx v) v else Inr v)"

definition construct_from ::
  "('ty \<Rightarrow> 'v \<Rightarrow> 'v option) \<Rightarrow> 'ty list \<Rightarrow> ('ty, 'v) tvariant \<Rightarrow> ('ty, 'v) tvariant \<Rightarrow> variant_error + bool \<times> ('ty, 'v) tvariant" where
  "construct_from copy ts src v =
     (let v = v\<lparr> tv_idx := tv_idx src \<rparr>
      in if 0 < tv_idx v \<and> tv_idx v < the (tl_Size ts) + 1 then tv_construct copy ts (tv_idx v) src v else Inr (False, v))"

definition new_variant :: "('ty, 'v) tvariant" where
  "new_variant = \<lparr> tv_idx = 0, tv_obj = None \<rparr>"

text \<open>The constructors; what a throwing one leaves is no variant.\<close>

definition TVariant_value ::
  "('ty \<Rightarrow> 'v \<Rightarrow> 'v option) \<Rightarrow> 'ty list \<Rightarrow> 'ty \<Rightarrow> 'v \<Rightarrow> variant_error + bool \<times> ('ty, 'v) tvariant" where
  "TVariant_value copy ts t x = variant_new t (copy t x) (new_variant\<lparr> tv_idx := tv_typeIdOf t ts \<rparr>)"

definition TVariant_copy ::
  "('ty \<Rightarrow> 'v \<Rightarrow> 'v option) \<Rightarrow> 'ty list \<Rightarrow> ('ty, 'v) tvariant \<Rightarrow> variant_error + bool \<times> ('ty, 'v) tvariant" where
  "TVariant_copy copy ts src = construct_from copy ts src new_variant"

text \<open>\<^verbatim>\<open>get\<close>: nothing is the null pointer.\<close>

definition tv_get :: "'ty list \<Rightarrow> 'ty \<Rightarrow> ('ty, 'v) tvariant \<Rightarrow> variant_error + 'v option" where
  "tv_get ts t v =
     (if tv_typeIdOf t ts \<noteq> tv_idx v then Inr None
      else (case the_object (Slot t) v of Inl e \<Rightarrow> Inl e | Inr x \<Rightarrow> Inr (Some x)))"

definition assign_value ::
  "('ty \<Rightarrow> 'v \<Rightarrow> 'v option) \<Rightarrow> 'ty list \<Rightarrow> 'ty \<Rightarrow> 'v \<Rightarrow> ('ty, 'v) tvariant \<Rightarrow> variant_error + bool \<times> ('ty, 'v) tvariant" where
  "assign_value copy ts t x v =
     (if tv_idx v = tv_typeIdOf t ts then
        (case tv_get ts t v of
           Inl e \<Rightarrow> Inl e
         | Inr None \<Rightarrow> Inl No_object
         | Inr (Some y) \<Rightarrow>
             (case copy t x of None \<Rightarrow> Inr (True, v) | Some x \<Rightarrow> Inr (False, v\<lparr> tv_obj := Some (t, x) \<rparr>)))
      else
        (case try_destroy ts v of
           Inl e \<Rightarrow> Inl e
         | Inr v \<Rightarrow> variant_new t (copy t x) (v\<lparr> tv_idx := tv_typeIdOf t ts \<rparr>)))"

text \<open>Assigning another variant; assigning it to itself does nothing.\<close>

definition assign_variant ::
  "('ty \<Rightarrow> 'v \<Rightarrow> 'v option) \<Rightarrow> 'ty list \<Rightarrow> ('ty, 'v) tvariant \<Rightarrow> ('ty, 'v) tvariant \<Rightarrow> variant_error + bool \<times> ('ty, 'v) tvariant" where
  "assign_variant copy ts src v = (case try_destroy ts v of Inl e \<Rightarrow> Inl e | Inr v \<Rightarrow> construct_from copy ts src v)"

definition tv_reset :: "'ty list \<Rightarrow> ('ty, 'v) tvariant \<Rightarrow> variant_error + ('ty, 'v) tvariant" where
  "tv_reset ts v = (case try_destroy ts v of Inl e \<Rightarrow> Inl e | Inr v \<Rightarrow> Inr (v\<lparr> tv_idx := 0 \<rparr>))"

text \<open>\<^verbatim>\<open>reset<T>\<close> with the object its argument, or the default constructor, makes.\<close>

definition tv_reset_to :: "'ty list \<Rightarrow> 'ty \<Rightarrow> 'v option \<Rightarrow> ('ty, 'v) tvariant \<Rightarrow> variant_error + bool \<times> ('ty, 'v) tvariant" where
  "tv_reset_to ts t x v =
     (case try_destroy ts v of Inl e \<Rightarrow> Inl e | Inr v \<Rightarrow> variant_new t x (v\<lparr> tv_idx := tv_typeIdOf t ts \<rparr>))"

definition tv_isEmpty :: "('ty, 'v) tvariant \<Rightarrow> bool" where
  "tv_isEmpty v \<longleftrightarrow> tv_idx v = 0"

text \<open>
  \<^verbatim>\<open>staticVisit\<close>: the function for the empty variant is the first of the table. The function for a type gets what the
  variant has of that type; where it has nothing a null pointer is used.
\<close>

definition staticVisit :: "'ty list \<Rightarrow> ('ty \<Rightarrow> 'v \<Rightarrow> 'r) \<Rightarrow> 'r \<Rightarrow> ('ty, 'v) tvariant \<Rightarrow> variant_error + 'r" where
  "staticVisit ts visitor nothing v =
     (if tv_idx v = 0 then Inr nothing
      else (case tv_entry ts (tv_idx v - 1) of
              Inl e \<Rightarrow> Inl e
            | Inr SNilType \<Rightarrow> Inl Other_object
            | Inr (Slot t) \<Rightarrow>
                (case tv_get ts t v of
                   Inl e \<Rightarrow> Inl e | Inr None \<Rightarrow> Inl No_object | Inr (Some x) \<Rightarrow> Inr (visitor t x))))"

definition tv_equals ::
  "('ty \<Rightarrow> 'v \<Rightarrow> 'v \<Rightarrow> bool) \<Rightarrow> 'ty list \<Rightarrow> ('ty, 'v) tvariant \<Rightarrow> ('ty, 'v) tvariant \<Rightarrow> variant_error + bool" where
  "tv_equals eq ts v rhs =
     (if tv_idx v \<noteq> tv_idx rhs then Inr False
      else if tv_idx v = 0 then Inr True
      else (case staticVisit ts (\<lambda>t y. case tv_get ts t v of Inl e \<Rightarrow> Inl e | Inr None \<Rightarrow> Inr False | Inr (Some x) \<Rightarrow> Inr (eq t x y))
                   (Inr False) rhs of
              Inl e \<Rightarrow> Inl e | Inr r \<Rightarrow> r))"

section \<open>Without exceptions\<close>

text \<open>The number tells what the memory holds.\<close>

definition tv_wf :: "'ty list \<Rightarrow> ('ty, 'v) tvariant \<Rightarrow> bool" where
  "tv_wf ts v \<longleftrightarrow>
     (case tv_obj v of None \<Rightarrow> tv_idx v = 0 | Some (t, x) \<Rightarrow> t \<in> set ts \<and> tv_idx v = tv_typeIdOf t ts)"

definition types_ok :: "'ty list \<Rightarrow> bool" where
  "types_ok ts \<longleftrightarrow> 2 \<le> length ts \<and> length ts \<le> 15"

lemma typeIdOf_in:
  assumes "t \<in> set ts"
  shows "0 < tv_typeIdOf t ts" "tv_typeIdOf t ts \<le> length ts" "ts ! (tv_typeIdOf t ts - 1) = t"
  using tl_Find_first [OF assms, of 0] by (auto simp: tv_typeIdOf_def nat_add_distrib)

lemma typeIdOf_inj: "t \<in> set ts \<Longrightarrow> u \<in> set ts \<Longrightarrow> tv_typeIdOf t ts = tv_typeIdOf u ts \<longleftrightarrow> t = u"
  using typeIdOf_in(3) by metis

lemma tv_entry_nth: "types_ok ts \<Longrightarrow> i < length ts \<Longrightarrow> tv_entry ts i = Inr (Slot (ts ! i))"
  by (auto simp: types_ok_def tv_entry_def tv_table_def tl_RelaxedTypeAt_nth)

lemma tv_entry_typeIdOf: "types_ok ts \<Longrightarrow> t \<in> set ts \<Longrightarrow> tv_entry ts (tv_typeIdOf t ts - 1) = Inr (Slot t)"
  using typeIdOf_in [of t ts] tv_entry_nth [of ts "tv_typeIdOf t ts - 1"] by simp

lemma types_ok_Size: "types_ok ts \<Longrightarrow> the (tl_Size ts) = length ts"
  by (subst tl_Size_length) (auto simp: types_ok_def)

lemma tvariant_eqI: "tv_idx v = tv_idx w \<Longrightarrow> tv_obj v = tv_obj w \<Longrightarrow> v = (w :: ('ty, 'v) tvariant)"
  by (rule tvariant.equality) simp_all

lemma try_destroy_wf:
  assumes "types_ok ts" "tv_wf ts v"
  shows "try_destroy ts v = Inr (v\<lparr> tv_obj := None \<rparr>)"
proof (cases "tv_obj v")
  case None
  then have "v = v\<lparr> tv_obj := None \<rparr>" by (intro tvariant_eqI) simp_all
  with None show ?thesis using assms(2) by (simp add: try_destroy_def tv_wf_def)
next
  case (Some p)
  then obtain t x where v: "tv_obj v = Some (t, x)" "t \<in> set ts" "tv_idx v = tv_typeIdOf t ts"
    using assms(2) by (auto simp: tv_wf_def)
  then show ?thesis
    using typeIdOf_in [OF v(2)] tv_entry_typeIdOf [OF assms(1) v(2)] types_ok_Size [OF assms(1)]
    by (simp add: try_destroy_def tv_destruct_def variant_destroy_def the_object_def)
qed

text \<open>What the operations do to the contents.\<close>

definition variant_of :: "'ty list \<Rightarrow> ('ty \<times> 'v) option \<Rightarrow> ('ty, 'v) tvariant" where
  "variant_of ts c = \<lparr> tv_idx = (case c of None \<Rightarrow> 0 | Some (t, x) \<Rightarrow> tv_typeIdOf t ts), tv_obj = c \<rparr>"

lemma variant_of_wf: "tv_wf ts v \<Longrightarrow> variant_of ts (tv_obj v) = v"
  by (rule tvariant_eqI) (auto simp: variant_of_def tv_wf_def split: option.splits)

lemma tv_get_contents:
  assumes "tv_wf ts v" "t \<in> set ts"
  shows "tv_get ts t v = Inr (case tv_obj v of Some (u, x) \<Rightarrow> if u = t then Some x else None | None \<Rightarrow> None)"
  using assms typeIdOf_in(1) [OF assms(2)]
  by (auto simp: tv_get_def tv_wf_def the_object_def typeIdOf_inj split: option.splits)

lemma variant_operations:
  assumes "types_ok ts" "tv_wf ts v" "t \<in> set ts" "tv_wf ts src" and copies: "\<And>t x. copy t x = Some x"
  shows "TVariant_value copy ts t x = Inr (False, variant_of ts (Some (t, x)))"
    and "TVariant_copy copy ts src = Inr (False, src)"
    and "assign_value copy ts t x v = Inr (False, variant_of ts (Some (t, x)))"
    and "assign_variant copy ts src v = Inr (False, src)"
    and "tv_reset ts v = Inr (variant_of ts None)"
    and "tv_reset_to ts t (Some x) v = Inr (False, variant_of ts (Some (t, x)))"
proof -
  note d = try_destroy_wf [OF assms(1,2)]
  show "TVariant_value copy ts t x = Inr (False, variant_of ts (Some (t, x)))"
    by (simp add: TVariant_value_def variant_new_def new_variant_def copies variant_of_def)
  have c: "construct_from copy ts src w = Inr (False, src)" if "tv_obj w = None" for w
  proof (cases "tv_obj src")
    case None
    then have "w\<lparr> tv_idx := tv_idx src \<rparr> = src" using that by (intro tvariant_eqI) simp_all
    with None show ?thesis using assms(4) by (simp add: construct_from_def tv_wf_def Let_def)
  next
    case (Some p)
    then obtain u y where u: "tv_obj src = Some (u, y)" "u \<in> set ts" "tv_idx src = tv_typeIdOf u ts"
      using assms(4) by (auto simp: tv_wf_def)
    have "w\<lparr> tv_idx := tv_typeIdOf u ts, tv_obj := Some (u, y) \<rparr> = src" using u by (intro tvariant_eqI) simp_all
    then show ?thesis
      using u that typeIdOf_in [OF u(2)] tv_entry_typeIdOf [OF assms(1) u(2)] types_ok_Size [OF assms(1)] copies
      by (simp add: construct_from_def tv_construct_def variant_new_def the_object_def Let_def)
  qed
  show "TVariant_copy copy ts src = Inr (False, src)" by (simp add: TVariant_copy_def c new_variant_def)
  show "assign_variant copy ts src v = Inr (False, src)" by (simp add: assign_variant_def d c)
  show "tv_reset ts v = Inr (variant_of ts None)" by (auto simp: tv_reset_def d variant_of_def)
  show "tv_reset_to ts t (Some x) v = Inr (False, variant_of ts (Some (t, x)))"
    by (simp add: tv_reset_to_def d variant_new_def variant_of_def)
  show "assign_value copy ts t x v = Inr (False, variant_of ts (Some (t, x)))"
  proof (cases "tv_idx v = tv_typeIdOf t ts")
    case True
    then obtain y where "tv_obj v = Some (t, y)"
      using assms(2,3) typeIdOf_in(1) [OF assms(3)] typeIdOf_inj [OF assms(3)] by (auto simp: tv_wf_def split: option.splits)
    moreover have "v\<lparr> tv_obj := Some (t, x) \<rparr> = variant_of ts (Some (t, x))"
      using True by (intro tvariant_eqI) (simp_all add: variant_of_def)
    ultimately show ?thesis
      using tv_get_contents [OF assms(2,3)] True by (simp add: assign_value_def copies)
  next
    case False
    then show ?thesis by (simp add: assign_value_def d variant_new_def copies variant_of_def)
  qed
qed

lemma variant_of_contents: "(case c of None \<Rightarrow> True | Some (t, x) \<Rightarrow> t \<in> set ts) \<Longrightarrow> tv_wf ts (variant_of ts c)" "tv_obj (variant_of ts c) = c"
  by (auto simp: tv_wf_def variant_of_def split: option.splits)

lemma staticVisit_contents:
  assumes "types_ok ts" "tv_wf ts v"
  shows "staticVisit ts f z v = Inr (case tv_obj v of None \<Rightarrow> z | Some (t, x) \<Rightarrow> f t x)"
proof (cases "tv_obj v")
  case (Some p)
  then obtain t x where v: "tv_obj v = Some (t, x)" "t \<in> set ts" "tv_idx v = tv_typeIdOf t ts"
    using assms(2) by (auto simp: tv_wf_def)
  then show ?thesis
    using typeIdOf_in [OF v(2)] tv_entry_typeIdOf [OF assms(1) v(2)] tv_get_contents [OF assms(2) v(2)] by (simp add: staticVisit_def)
qed (use assms(2) in \<open>simp add: staticVisit_def tv_wf_def\<close>)

lemma tv_equals_contents:
  assumes "types_ok ts" "tv_wf ts v" "tv_wf ts w"
  shows "tv_equals eq ts v w =
    Inr (case (tv_obj v, tv_obj w) of
           (None, None) \<Rightarrow> True | (Some (t, x), Some (u, y)) \<Rightarrow> t = u \<and> eq t x y | _ \<Rightarrow> False)"
proof (cases "tv_obj w")
  case None
  then show ?thesis
    using assms typeIdOf_in(1) by (fastforce simp: tv_equals_def tv_wf_def split: option.splits)
next
  case (Some p)
  then obtain u y where w: "tv_obj w = Some (u, y)" "u \<in> set ts" "tv_idx w = tv_typeIdOf u ts"
    using assms(3) by (auto simp: tv_wf_def)
  have "tv_idx v = tv_typeIdOf u ts \<longleftrightarrow> (\<exists>x. tv_obj v = Some (u, x))"
    using assms(2) typeIdOf_in(1) [OF w(2)] typeIdOf_inj [OF w(2)] by (auto simp: tv_wf_def split: option.splits)
  then show ?thesis
    using tv_get_contents [OF assms(2) w(2)] w typeIdOf_in(1) [OF w(2)]
    by (auto simp: tv_equals_def staticVisit_contents [OF assms(1,3)] split: option.splits)
qed

section \<open>Variants on the wire\<close>

text \<open>
  Writing: the number, then the object by a visitor. Reading: the number selects the type by the table of the helper of
  \<^verbatim>\<open>CIStream.hpp\<close>, an object of it is made and a visitor reads into it.
\<close>

definition tv_val :: "('ty, dsi_val) tvariant \<Rightarrow> dsi_val" where
  "tv_val v = (case tv_obj v of None \<Rightarrow> VEmpty | Some (t, x) \<Rightarrow> VVar (tv_idx v) x)"

definition tv_write ::
  "platform \<Rightarrow> dsi_type list \<Rightarrow> (dsi_type, dsi_val) tvariant \<Rightarrow> cbuffer \<Rightarrow> variant_error + (stream_error, cbuffer) outcome" where
  "tv_write pf ts v b =
     (case staticVisit ts (\<lambda>t x. write_val pf x) (\<lambda>b. Some (Inr b)) v of
        Inl e \<Rightarrow> Inl e
      | Inr visit \<Rightarrow> Inr (obind (write_u32 pf (tv_idx v) b) visit))"

lemma tv_write_val:
  assumes "types_ok ts" "tv_wf ts v"
  shows "tv_write pf ts v b = Inr (write_val pf (tv_val v) b)"
  using assms(2) staticVisit_contents [OF assms, of "\<lambda>t x. write_val pf x" "\<lambda>b. Some (Inr b)"]
  by (auto simp: tv_write_def tv_val_def tv_wf_def obind_def split: option.splits sum.splits)

definition tv_read ::
  "(dsi_val \<Rightarrow> dsi_val \<Rightarrow> bool) \<Rightarrow> (nat \<Rightarrow> nat) \<Rightarrow> dsi_type list \<Rightarrow> istream \<Rightarrow> (dsi_type, dsi_val) tvariant \<Rightarrow>
     variant_error + (stream_error + (dsi_type, dsi_val) tvariant \<times> istream)" where
  "tv_read lt un ts s v =
     (let (n, s) = read_T 4 0 s
      in case (case variant_reset ts (as_int32 n) of
                 None \<Rightarrow> map_sum id (Pair False) (tv_reset ts v)
               | Some i \<Rightarrow> tv_reset_to ts (ts ! i) (Some (default_val (ts ! i))) v) of
           Inl e \<Rightarrow> Inl e
         | Inr (threw, v) \<Rightarrow>
             if tv_isEmpty v then Inr (Inr (v, s))
             else (case staticVisit ts (\<lambda>t x. case read_val lt un t x s of
                          Inl e \<Rightarrow> Inl e | Inr (y, s) \<Rightarrow> Inr (v\<lparr> tv_obj := Some (t, y) \<rparr>, s)) (Inr (v, s)) v of
                     Inl e \<Rightarrow> Inl e | Inr r \<Rightarrow> Inr r))"

lemma tl_Find_typeIdOf:
  "u \<in> set us \<Longrightarrow> \<exists>j < length us. tl_Find u us k = Some (k + int j) \<and> typeIdOf u us = Suc j"
proof (induction u us k rule: tl_Find.induct)
  case (3 u x y ys k)
  show ?case
  proof (cases "x = u")
    case False
    with 3 obtain j where "j < length (y # ys)" "tl_Find u (y # ys) (k + 1) = Some (k + 1 + int j)"
      "typeIdOf u (y # ys) = Suc j" by auto
    then show ?thesis using False by (intro exI [of _ "Suc j"]) auto
  qed auto
qed auto

lemma tv_typeIdOf_streams: "t \<in> set ts \<Longrightarrow> tv_typeIdOf t ts = typeIdOf t ts"
  using tl_Find_typeIdOf [of t ts 0] by (auto simp: tv_typeIdOf_def nat_add_distrib)

lemma tv_read_val:
  assumes "types_ok ts" "tv_wf ts v"
  shows "\<exists>r. tv_read lt un ts s v = Inr r \<and>
    read_val lt un (TVar ts) old s = map_sum id (apfst tv_val) r \<and>
    (\<forall>w s'. r = Inr (w, s') \<longrightarrow> tv_wf ts w)"
proof -
  obtain n s1 where n: "read_T 4 0 s = (n, s1)" by fastforce
  show ?thesis
  proof (cases "variant_reset ts (as_int32 n)")
    case None
    then show ?thesis
      using variant_operations(5) [OF assms, of "ts ! 0" v "\<lambda>t. Some"] assms n
      by (auto simp: tv_read_def tv_reset_def try_destroy_wf [OF assms] tv_isEmpty_def tv_val_def tv_wf_def)
  next
    case (Some i)
    let ?t = "ts ! i"
    let ?v = "variant_of ts (Some (?t, default_val ?t))"
    have t: "?t \<in> set ts" using variant_reset_bound [OF Some] by simp
    have r: "tv_reset_to ts ?t (Some (default_val ?t)) v = Inr (False, ?v)"
      by (simp add: tv_reset_to_def try_destroy_wf [OF assms] variant_new_def variant_of_def)
    have wf: "tv_wf ts ?v" using t by (intro variant_of_contents(1)) simp
    have e: "\<not> tv_isEmpty ?v" using typeIdOf_in(1) [OF t] by (simp add: tv_isEmpty_def variant_of_def)
    have id: "tv_typeIdOf ?t ts = typeIdOf ?t ts" using t by (rule tv_typeIdOf_streams)
    have rd: "tv_read lt un ts s v = Inr (case read_val lt un ?t (default_val ?t) s1 of
        Inl e \<Rightarrow> Inl e | Inr (y, s) \<Rightarrow> Inr (?v\<lparr> tv_obj := Some (?t, y) \<rparr>, s))"
      using n Some e by (simp add: tv_read_def r staticVisit_contents [OF assms(1) wf] variant_of_contents(2))
    show ?thesis
    proof (intro exI conjI allI impI)
      show "tv_read lt un ts s v = Inr (case read_val lt un ?t (default_val ?t) s1 of
        Inl e \<Rightarrow> Inl e | Inr (y, s) \<Rightarrow> Inr (?v\<lparr> tv_obj := Some (?t, y) \<rparr>, s))" by (rule rd)
      show "read_val lt un (TVar ts) old s = map_sum id (apfst tv_val) (case read_val lt un ?t (default_val ?t) s1 of
        Inl e \<Rightarrow> Inl e | Inr (y, s) \<Rightarrow> Inr (?v\<lparr> tv_obj := Some (?t, y) \<rparr>, s))"
        using n Some by (auto simp: tv_val_def variant_of_def id split: sum.split)
      show "tv_wf ts w" if "(case read_val lt un ?t (default_val ?t) s1 of
          Inl e \<Rightarrow> Inl e | Inr (y, s) \<Rightarrow> Inr (?v\<lparr> tv_obj := Some (?t, y) \<rparr>, s)) = Inr (w, s')" for w s'
        using that t by (auto simp: tv_wf_def variant_of_def split: sum.splits)
    qed
  qed
qed

section \<open>Where it goes wrong\<close>

text \<open>
  The number is changed before the object is made: if its constructor throws, the variant names an object it does not
  have, and its destructor destroys that.
\<close>

lemma throwing_copy_breaks:
  assumes "types_ok ts" "tv_wf ts v" "t \<in> set ts" "tv_idx v \<noteq> tv_typeIdOf t ts" "copy t x = None"
  shows "\<exists>v'. assign_value copy ts t x v = Inr (True, v') \<and> try_destroy ts v' = Inl No_object"
proof -
  let ?v = "v\<lparr> tv_obj := None, tv_idx := tv_typeIdOf t ts \<rparr>"
  have "assign_value copy ts t x v = Inr (True, ?v)"
    using assms(4,5) by (simp add: assign_value_def try_destroy_wf [OF assms(1,2)] variant_new_def)
  moreover have "try_destroy ts ?v = Inl No_object"
    using typeIdOf_in [OF assms(3)] tv_entry_typeIdOf [OF assms(1,3)] types_ok_Size [OF assms(1)]
    by (simp add: try_destroy_def tv_destruct_def variant_destroy_def the_object_def)
  ultimately show ?thesis by blast
qed

text \<open>The tables end at the fifteenth type.\<close>

lemma sixteenth_type_overruns:
  assumes "length ts = 16" "tv_idx v = 16"
  shows "TVariant_copy copy ts v = Inl Table_range" "try_destroy ts v = Inl Table_range"
proof -
  have "the (tl_Size ts) = 16" using assms(1) by (subst tl_Size_length) auto
  moreover have "tv_entry ts 15 = Inl Table_range" using assms(1) by (simp add: tv_entry_def tv_table_def)
  ultimately show "TVariant_copy copy ts v = Inl Table_range" "try_destroy ts v = Inl Table_range"
    using assms(2) by (simp_all add: TVariant_copy_def construct_from_def tv_construct_def try_destroy_def tv_destruct_def)
qed

end
