(* ===== verification/End_Point.thy ===== *)
theory End_Point
  imports Server_Setup Event_Dispatcher
begin

text \<open>
  The addresses of \<^verbatim>\<open>src/common/CEndPoint.hpp\<close>: Internet addresses in network byte order, and names of Unix sockets as the
  108 bytes of \<^verbatim>\<open>sun_path\<close>. The targets are little endian. Lemmas: what goes in comes out, in numbers and as text; the order is
  one; long names are cut.
\<close>

section \<open>Internet addresses\<close>

text \<open>\<^verbatim>\<open>htonl\<close>, \<^verbatim>\<open>htons\<close> and their inverses turn the bytes round.\<close>

definition swap16 :: "u16 \<Rightarrow> u16" where
  "swap16 w = of_nat (of_le (rev (le_bytes 2 (unat w))))"

definition swap32 :: "u32 \<Rightarrow> u32" where
  "swap32 w = of_nat (of_le (rev (le_bytes 4 (unat w))))"

record ipv4_endpoint =
  ep_family :: nat
  ep_addr :: u32
  ep_port :: u16

definition AF_INET :: nat where "AF_INET = 2"
definition AF_UNIX :: nat where "AF_UNIX = 1"

definition no_endpoint :: ipv4_endpoint where
  "no_endpoint = \<lparr> ep_family = 0, ep_addr = 0, ep_port = 0 \<rparr>"

text \<open>\<open>inet_addr\<close> is the function of the C library, with its result in network byte order.\<close>

definition endpoint_of_text :: "(string \<Rightarrow> u32) \<Rightarrow> string \<Rightarrow> ipv4_endpoint" where
  "endpoint_of_text inet_addr addr =
     (let tmp = take 31 addr
      in if CHR '':'' \<in> set tmp
         then \<lparr> ep_family = AF_INET, ep_addr = inet_addr (takeWhile (\<lambda>c. c \<noteq> CHR '':'') tmp),
                ep_port = swap16 (word_of_int (atoi (tl (dropWhile (\<lambda>c. c \<noteq> CHR '':'') tmp)))) \<rparr>
         else no_endpoint)"

definition endpoint_of_name :: "(string \<Rightarrow> u32) \<Rightarrow> string \<Rightarrow> int \<Rightarrow> ipv4_endpoint" where
  "endpoint_of_name inet_addr addr port =
     \<lparr> ep_family = AF_INET, ep_addr = inet_addr addr, ep_port = swap16 (word_of_int port) \<rparr>"

definition endpoint_of_port :: "int \<Rightarrow> ipv4_endpoint" where
  "endpoint_of_port port = \<lparr> ep_family = AF_INET, ep_addr = 0, ep_port = swap16 (word_of_int port) \<rparr>"

definition endpoint_of_ip :: "int \<Rightarrow> int \<Rightarrow> ipv4_endpoint" where
  "endpoint_of_ip ip port =
     \<lparr> ep_family = AF_INET, ep_addr = swap32 (word_of_int ip), ep_port = swap16 (word_of_int port) \<rparr>"

definition ep_set :: "int \<Rightarrow> int \<Rightarrow> ipv4_endpoint \<Rightarrow> ipv4_endpoint" where
  "ep_set ip port e = e\<lparr> ep_family := AF_INET, ep_addr := swap32 (word_of_int ip), ep_port := swap16 (word_of_int port) \<rparr>"

definition getPort :: "ipv4_endpoint \<Rightarrow> int" where
  "getPort e = uint (swap16 (ep_port e))"

definition getIP :: "ipv4_endpoint \<Rightarrow> int" where
  "getIP e = sint (swap32 (ep_addr e))"

text \<open>\<^verbatim>\<open>inet_ntoa\<close> prints the bytes in the order they are stored.\<close>

definition inet_ntoa :: "u32 \<Rightarrow> string" where
  "inet_ntoa a =
     (case le_bytes 4 (unat a) of
        [b1, b2, b3, b4] \<Rightarrow> decimal (byte b1) @ ''.'' @ decimal (byte b2) @ ''.'' @ decimal (byte b3) @ ''.'' @ decimal (byte b4)
      | _ \<Rightarrow> [])"

text \<open>\<^verbatim>\<open>toString\<close> into a buffer of 24 bytes.\<close>

definition ep_toString :: "ipv4_endpoint \<Rightarrow> string" where
  "ep_toString e = take 23 (inet_ntoa (ep_addr e) @ '':'' @ print_d (uint (swap16 (ep_port e))))"

definition ep_equal :: "ipv4_endpoint \<Rightarrow> ipv4_endpoint \<Rightarrow> bool" where
  "ep_equal l r \<longleftrightarrow> ep_addr l = ep_addr r \<and> ep_port l = ep_port r"

definition ep_lower_than :: "ipv4_endpoint \<Rightarrow> ipv4_endpoint \<Rightarrow> bool" where
  "ep_lower_than l r \<longleftrightarrow> ep_addr l < ep_addr r \<or> ep_addr l = ep_addr r \<and> ep_port l < ep_port r"

section \<open>Unix sockets\<close>

definition sun_path_size :: nat where "sun_path_size = 108"

text \<open>
  The path of \<^verbatim>\<open>Unix::Endpoint(name)\<close>. The memory at \<^verbatim>\<open>name\<close> is a string with its terminator, or for a name
  in the abstract namespace an array of 108 bytes that begins with 0. \<open>None\<close> is the failing assertion.
\<close>

definition unix_path :: "char list \<Rightarrow> char list option" where
  "unix_path name =
     (if hd name \<noteq> NUL then Some (strncpy (sun_path_size - 1) (c_str name) @ [NUL])
      else
        let len = length (takeWhile (\<lambda>c. c \<noteq> NUL) (take (sun_path_size - 1) (tl name)))
        in if len < sun_path_size - 2
           then Some (take (len + 1) name @ replicate (sun_path_size - (len + 1)) NUL) else None)"

section \<open>Numbers and text\<close>

lemma le_bytes_of_le: "length bs = n \<Longrightarrow> le_bytes n (of_le bs) = bs"
proof (induction n arbitrary: bs)
  case (Suc n)
  then obtain c cs where bs: "bs = c # cs" "length cs = n" by (cases bs) auto
  have "(of_char c + 256 * of_le cs) mod 256 = (of_char c :: nat)" "(of_char c + 256 * of_le cs) div 256 = of_le cs"
    using nat_of_char_less_256 [of c] by simp_all
  then show ?case using Suc.IH [OF bs(2)] bs(1) by (simp add: of_char_of char_of_nat)
qed simp

lemma swap_swap [simp]: "swap16 (swap16 p) = p" "swap32 (swap32 a) = a"
proof -
  have "of_le (rev (le_bytes 2 (unat p))) < 256 ^ 2" "of_le (rev (le_bytes 4 (unat a))) < 256 ^ 4"
    using of_le_bound [of "rev (le_bytes 2 (unat p))"] of_le_bound [of "rev (le_bytes 4 (unat a))"] by simp_all
  then have "unat (swap16 p) = of_le (rev (le_bytes 2 (unat p)))" "unat (swap32 a) = of_le (rev (le_bytes 4 (unat a)))"
    by (simp_all add: swap16_def swap32_def unat_of_nat)
  moreover have "unat p < 256 ^ 2" "unat a < 256 ^ 4" using unsigned_less [of p, where ?'a = nat] unsigned_less [of a, where ?'a = nat] by simp_all
  ultimately show "swap16 (swap16 p) = p" "swap32 (swap32 a) = a"
    by (simp_all add: swap16_def [of "swap16 p"] swap32_def [of "swap32 a"] le_bytes_of_le)
qed

lemma endpoint_fields:
  assumes "0 \<le> port" "port < 2 ^ 16"
  shows "getPort (endpoint_of_port port) = port" "getPort (endpoint_of_ip ip port) = port" "getPort (ep_set ip port e) = port"
    "- (2 ^ 31) \<le> ip \<Longrightarrow> ip < 2 ^ 31 \<Longrightarrow> getIP (endpoint_of_ip ip port) = ip"
    "- (2 ^ 31) \<le> ip \<Longrightarrow> ip < 2 ^ 31 \<Longrightarrow> getIP (ep_set ip port e) = ip"
  using assms
  by (simp_all add: getPort_def getIP_def endpoint_of_port_def endpoint_of_ip_def ep_set_def uint_word_of_int int_word_sint)

text \<open>The order of addresses is a linear one, up to the family.\<close>

lemma ep_order:
  "\<not> ep_lower_than a a" "ep_lower_than a b \<Longrightarrow> ep_lower_than b c \<Longrightarrow> ep_lower_than a c"
  "ep_lower_than a b \<or> ep_equal a b \<or> ep_lower_than b a" "ep_equal a b \<Longrightarrow> \<not> ep_lower_than a b"
  by (auto simp: ep_lower_than_def ep_equal_def)

text \<open>Decimal numbers are read back.\<close>

abbreviation is_digit :: "char \<Rightarrow> bool" where
  "is_digit c \<equiv> 48 \<le> byte c \<and> byte c \<le> 57"

lemma byte_digit: "k < 10 \<Longrightarrow> byte (char_of (48 + k :: nat)) = 48 + k"
  by (simp add: byte_def)

lemma decimal_digits: "list_all is_digit (decimal n)"
  by (induction n rule: decimal.induct) (subst decimal.simps, auto simp: byte_digit)

lemma decimal_value: "foldl (\<lambda>v c. v * 10 + (byte c - 48)) 0 (decimal n) = n"
  by (induction n rule: decimal.induct) (subst decimal.simps, auto simp: byte_digit)

lemma decimal_nonempty [simp]: "decimal n \<noteq> []"
  by (subst decimal.simps) simp

lemma decimal_leading: "0 < n \<Longrightarrow> 49 \<le> byte (hd (decimal n))"
  by (induction n rule: decimal.induct) (subst decimal.simps, auto simp: byte_digit)

lemma decimal_no: "\<not> is_digit c \<Longrightarrow> c \<notin> set (decimal n)"
  using decimal_digits [of n] by (auto simp: list_all_iff)

lemma octet_decimal:
  assumes "n < 256"
  shows "octet (decimal n) = Some n"
proof -
  have "length (decimal n) \<le> 3" using assms decimal_length [of n 3] by simp
  moreover have "\<not> (1 < length (decimal n) \<and> hd (decimal n) = CHR ''0'')"
  proof (cases "n = 0")
    case True
    then show ?thesis by (subst decimal.simps) simp
  next
    case False
    then have "49 \<le> byte (hd (decimal n))" by (simp add: decimal_leading)
    then show ?thesis by (auto simp: byte_def)
  qed
  ultimately show ?thesis using assms decimal_digits [of n] decimal_value [of n] by (simp add: octet_def)
qed

lemma pieces_append: "d \<notin> set xs \<Longrightarrow> pieces d cur (xs @ d # ys) = (rev cur @ xs) # pieces d [] ys"
  by (induction xs arbitrary: cur) auto

lemma pieces_last: "d \<notin> set xs \<Longrightarrow> pieces d cur xs = [rev cur @ xs]"
  by (induction xs arbitrary: cur) auto

lemma inet_ntoa_parts:
  obtains b1 b2 b3 b4 where "le_bytes 4 (unat a) = [b1, b2, b3, b4]"
    "inet_ntoa a = decimal (byte b1) @ ''.'' @ decimal (byte b2) @ ''.'' @ decimal (byte b3) @ ''.'' @ decimal (byte b4)"
proof -
  have four: "\<exists>b1 b2 b3 b4. xs = [b1, b2, b3, b4]" if "length xs = 4" for xs :: "char list"
    using that by (auto simp: numeral_eq_Suc length_Suc_conv)
  from four [OF le_bytes_length] obtain b1 b2 b3 b4 where b: "le_bytes 4 (unat a) = [b1, b2, b3, b4]" by blast
  show thesis by (rule that [OF b]) (simp add: inet_ntoa_def b)
qed

lemma inet_pton_ntoa: "inet_pton (inet_ntoa a) = Some (unat (swap32 a))"
proof -
  obtain b1 b2 b3 b4 where b: "le_bytes 4 (unat a) = [b1, b2, b3, b4]"
    "inet_ntoa a = decimal (byte b1) @ ''.'' @ decimal (byte b2) @ ''.'' @ decimal (byte b3) @ ''.'' @ decimal (byte b4)"
    by (rule inet_ntoa_parts)
  have lt: "byte c < 256" for c by (simp add: byte_def)
  have dot: "CHR ''.'' \<notin> set (decimal n)" for n by (rule decimal_no) (simp add: byte_def)
  have "pieces CHR ''.'' [] (inet_ntoa a) = [decimal (byte b1), decimal (byte b2), decimal (byte b3), decimal (byte b4)]"
    by (simp add: b(2) pieces_append pieces_last dot)
  moreover have "of_le (rev (le_bytes 4 (unat a))) < 2 ^ 32"
    using of_le_bound [of "rev (le_bytes 4 (unat a))"] by simp
  then have "unat (swap32 a) = of_le (rev (le_bytes 4 (unat a)))" by (simp add: swap32_def unat_of_nat)
  moreover have "of_le (rev [b1, b2, b3, b4]) = ((byte b1 * 256 + byte b2) * 256 + byte b3) * 256 + byte b4"
    by (simp add: byte_def)
  ultimately show ?thesis using lt by (simp add: inet_pton_def octet_decimal b(1))
qed

text \<open>
  The text of an endpoint fits the buffer, and the endpoint made from it is the same, where \<open>inet_addr\<close> reads addresses
  in the dotted notation as \<^verbatim>\<open>inet_pton\<close> does.
\<close>

lemma atoi_decimal: "atoi (decimal n) = int n"
proof -
  have "CHR '' '' \<notin> set (decimal n)" by (rule decimal_no) (simp add: byte_def)
  then have "hd (decimal n) \<noteq> CHR '' ''" using hd_in_set [OF decimal_nonempty [of n]] by metis
  then have dw: "dropWhile (\<lambda>c. c = CHR '' '') (decimal n) = decimal n" by (cases "decimal n") auto
  have tw: "takeWhile is_digit (decimal n) = decimal n" using decimal_digits [of n] by (simp add: list_all_iff)
  show ?thesis unfolding atoi_def dw tw decimal_value ..
qed

lemma toString_read_back:
  assumes "\<And>s v. inet_pton s = Some v \<Longrightarrow> inet_addr s = swap32 (of_nat v)" "ep_family e = AF_INET"
  shows "endpoint_of_text inet_addr (ep_toString e) = e"
proof -
  let ?a = "inet_ntoa (ep_addr e)" and ?p = "decimal (unat (swap16 (ep_port e)))"
  obtain b1 b2 b3 b4 where b:
    "?a = decimal (byte b1) @ ''.'' @ decimal (byte b2) @ ''.'' @ decimal (byte b3) @ ''.'' @ decimal (byte b4)"
    by (rule inet_ntoa_parts)
  have d: "length (decimal (byte c)) \<le> 3" for c
  proof (rule decimal_length)
    have "byte c < 256" by (simp add: byte_def)
    then show "byte c < 10 ^ 3" by simp
  qed simp
  have la: "length ?a \<le> 15" unfolding b using d [of b1] d [of b2] d [of b3] d [of b4] by simp
  have "unat (swap16 (ep_port e)) < 10 ^ 5" using unsigned_less [of "swap16 (ep_port e)", where ?'a = nat] by simp
  then have lp: "length ?p \<le> 5" using decimal_length by simp
  have str: "ep_toString e = ?a @ '':'' @ ?p" using la lp by (simp add: ep_toString_def print_d_def nat_uint_eq)
  have colon: "CHR '':'' \<notin> set ?a"
    unfolding b using decimal_no [of "CHR '':''"] by (auto simp: byte_def)
  have tmp: "take 31 (ep_toString e) = ?a @ '':'' @ ?p" using la lp by (simp add: str)
  have "takeWhile (\<lambda>c. c \<noteq> CHR '':'') (?a @ '':'' @ ?p) = ?a" "dropWhile (\<lambda>c. c \<noteq> CHR '':'') (?a @ '':'' @ ?p) = CHR '':'' # ?p"
    using colon by (subst takeWhile_append2 dropWhile_append2; auto)+
  moreover have "inet_addr ?a = ep_addr e" using assms(1) [OF inet_pton_ntoa] by simp
  ultimately show ?thesis
    using assms(2) by (simp add: endpoint_of_text_def Let_def tmp atoi_decimal)
qed

section \<open>Names\<close>

lemma unix_path_length: "unix_path name = Some p \<Longrightarrow> hd name \<noteq> NUL \<or> length name = sun_path_size \<Longrightarrow> length p = sun_path_size"
  by (auto simp: unix_path_def strncpy_def sun_path_size_def Let_def split: if_splits)

text \<open>Names of more than 107 characters that begin alike are the same address.\<close>

lemma long_names_collide:
  assumes "NUL \<notin> set n" "length n = 107" "NUL \<notin> set x" "NUL \<notin> set y"
  shows "unix_path (n @ x @ [NUL]) = unix_path (n @ y @ [NUL])"
proof -
  have hd: "hd (n @ z) \<noteq> NUL" for z using assms(1,2) by (cases n) auto
  have "c_str (n @ z @ [NUL]) = n @ z" if "NUL \<notin> set z" for z using that assms(1) by (auto simp: c_str_def takeWhile_append)
  then show ?thesis using hd assms by (simp add: unix_path_def strncpy_def sun_path_size_def)
qed

end
