(* ===== verification/Spec2Isabelle.thy ===== *)
theory Spec2Isabelle
  imports Broker_Examples Transport_Spec Library_Spec Api_Spec Slave_Spec Variants End_Point
begin

text \<open>
  \<^bold>\<open>DSI: the servicebroker and the stub library\<close>

  DSI is an interprocess communication library with a central daemon, the servicebroker
  (\<^verbatim>\<open>src/src/servicebroker\<close>). Servers register interfaces (a name and a version) with it,
  clients ask it for the channel of a server, and both can have themselves notified by pulses when a
  server appears, a server or a client goes away, or the list of interfaces changes. Brokers form a
  tree: a slave registers its interfaces at its master and forwards what it does not know. Programs use the
  daemon through the stub library (\<^verbatim>\<open>src/src/base\<close>, \<^verbatim>\<open>src/include/dsi\<close>): proxies (\<^verbatim>\<open>CClient\<close>) connect to
  servers (\<^verbatim>\<open>CServer\<close>) of other processes through the communication engines (\<^verbatim>\<open>CCommEngine\<close>) of both, and
  exchange requests, responses and notifications as streams of bytes. Below the stub library, and open to
  programs of its own, is the client library (\<^verbatim>\<open>clientlib.c\<close>), whose functions send one command each to the
  daemon. All three stand on the common library (\<^verbatim>\<open>src/src/common\<close>), with its event loop and its devices. This development
  models the daemon with its sessions and its link to a master, the client library down to the system calls, the stub
  library from the byte streams to the state machines, and the event loop.

  \<^bold>\<open>The daemon\<close>

  \<^item> \<open>Prelude\<close>: machine integers, C strings, the algorithms of the C++ library the code calls
    (\<^verbatim>\<open>lower_bound\<close>, \<^verbatim>\<open>remove\<close>, erasing the first match) with their lemmas.
  \<^item> \<open>SB_Types\<close>: the protocol (\<^verbatim>\<open>servicebroker.h\<close>, \<^verbatim>\<open>InterfaceDescription\<close>, \<^verbatim>\<open>config.h\<close>): party
    ids, descriptions, status and command codes, one constructor of \<open>request\<close> per command, and the
    version and name checks.
  \<^item> \<open>Config_File\<close>: \<^verbatim>\<open>ConfigFile\<close>, the section parser and the two questions asked of it.
  \<^item> \<open>Server_List\<close>: \<^verbatim>\<open>ServerList\<close>, the ordered table searched by bisection. The locale
    \<open>name_registry\<close> is what the broker relies on and is interpreted for the table.
  \<^item> \<open>Client_Data\<close>: \<^verbatim>\<open>ClientList\<close>, \<^verbatim>\<open>IDList\<close> and \<^verbatim>\<open>ClientSpecificData\<close>, the data of a connection; the
    locale \<open>id_set\<close> is interpreted for the ordered id sets.
  \<^item> \<open>Pulse_Channels\<close>: \<^verbatim>\<open>PulseChannelManager\<close>, reference-counted sockets; the locale \<open>refcounted\<close>
    is interpreted for it.
  \<^item> \<open>Notification_Pool\<close>: \<^verbatim>\<open>NotificationPool\<close>, the proxies of notifications set at the master, and
    the state machine of an entry.
  \<^item> \<open>Job_Queue\<close>: \<^verbatim>\<open>JobQueue\<close> as the linked list it is, with an explicit store of the \<open>next\<close> fields,
    and the execution of jobs by \<^verbatim>\<open>MasterAdapter\<close>; the locale \<open>fifo\<close> is interpreted for the queue.
  \<^item> \<open>Message_Context\<close>, \<open>Auto_Buffer\<close>: \<^verbatim>\<open>MessageContext\<close> and \<^verbatim>\<open>SocketMessageContext\<close>, the response of a request
    and the assertions on the way to it, and below them \<^verbatim>\<open>AutoBuffer\<close> and the frames on the socket.
  \<^item> \<open>Client_Session\<close>, \<open>Server_Setup\<close>: the sessions of \<^verbatim>\<open>ServicebrokerServer\<close> from the first byte to the response,
    with the list of slaves; authentication, timeouts, bind addresses and the HTTP requests.
  \<^item> \<open>Broker_State\<close>: the state of \<^verbatim>\<open>Servicebroker\<close> and of everything it reaches, the life of a
    \<^verbatim>\<open>Notification\<close> object and the operations of \<^verbatim>\<open>NotificationList\<close>.
  \<^item> \<open>Broker_Handlers\<close>, \<open>Broker_Attach\<close>, \<open>Broker_Master\<close>: every request handler of
    \<^verbatim>\<open>Servicebroker.cpp\<close>, the finished jobs, the pulses of the master, \<^verbatim>\<open>ClientSpecificData::clear\<close> and the
    two dispatchers.
  \<^item> \<open>Wire_Format\<close>: the argument structures as bytes, from the request in the receive buffer of the dispatcher to the bytes
    of the response. With it the dispatcher becomes the \<open>broker_if\<close> a session of \<open>Client_Session\<close> calls.
  \<^item> \<open>Worker_Thread\<close>: \<^verbatim>\<open>MasterConnectorSocket\<close>, \<^verbatim>\<open>WorkerThread\<close> and \<^verbatim>\<open>Notifier\<close>, the link of a slave to its master. The thread
    is a state machine (\<open>worker_next\<close>) that \<open>worker_run\<close> interleaves with the jobs and the stop of the main thread.
  \<^item> \<open>Slave_Link\<close>: the reading end of the pipe from the thread and the \<^verbatim>\<open>TCPMasterNotificationReceiver\<close>, as routines of
    the event loop.

  A handler is a function of the connection number, the fields of its argument structure, the
  broker and the message context, and returns the new broker and context; error returns are the
  status codes the code passes to the response. All handlers run in the main thread: for them the worker thread
  only takes jobs from the queue and hands back finished ones, which are events of the step relation
  \<open>broker_step\<close> in \<open>Broker_Safety\<close> (a request, a pulse or finished job, a closed or accepted
  connection, a job taken, the link going up or down). \<^verbatim>\<open>ClientSpecificData*\<close> pointers are
  connection numbers. 32-bit integers are words; sizes are those of the 32-bit targets.

  \<^bold>\<open>The client library\<close>

  \<^item> \<open>Client_Io\<close>: \<^verbatim>\<open>clientIo.cpp\<close>, sending and receiving with partial transfers and interrupted calls, the exchange of a request
    for a response, and the authentication.
  \<^item> \<open>Client_Lib\<close>: \<^verbatim>\<open>clientlib.c\<close>, one definition per \<^verbatim>\<open>SB...\<close> function.

  A socket is a record with the bytes that are still to be received, the bytes sent, and the list of answers the kernel
  gives to the calls to come. A call the kernel does not answer any more has not returned, and the function has the value
  \<open>None\<close>. Output parameters are optional results, and a null pointer passed by the caller is a flag.

  \<^item> \<open>Broker_Access\<close>: \<^verbatim>\<open>CServicebroker.cpp\<close>, the calls of the stub library over these functions and the one connection
    they share.

  \<^bold>\<open>The common library\<close>

  \<^item> \<open>Event_Dispatcher\<close>: \<^verbatim>\<open>CDispatcher\<close> and the events of \<^verbatim>\<open>CHandler\<close>. Events are objects on a heap; \<open>disp_wf\<close> says that
    the table holds each living event once. The locale \<open>completion_routines\<close> is what the loop relies on in a
    callback, \<open>app_invariant\<close> extends it by a property of the state the callbacks change; both are interpreted for the
    routines of a slave in \<open>Slave_Link\<close>.
  \<^item> \<open>End_Point\<close>: \<^verbatim>\<open>CEndPoint.hpp\<close>, addresses of both kinds of sockets.
  \<^item> \<open>Io_Devices\<close>: \<^verbatim>\<open>CDevices.hpp\<close> and \<^verbatim>\<open>io.cpp\<close>, and the channels of the stub library over them (\<^verbatim>\<open>CLocalChannel.hpp\<close>).

  \<^bold>\<open>The stub library\<close>

  \<^item> \<open>Slist\<close>: the intrusive list of \<^verbatim>\<open>src/common/Slist.hpp\<close> on an explicit store of the next pointers.
  \<^item> \<open>Utf8\<close>: \<^verbatim>\<open>utf8.cpp\<close>, both directions.
  \<^item> \<open>Message_Buffer\<close>, \<open>Streams\<close>: \<^verbatim>\<open>CBuffer\<close>, \<^verbatim>\<open>COStream\<close> and \<^verbatim>\<open>CIStream\<close>, the arguments of requests as bytes.
  \<^item> \<open>Variants\<close>: \<^verbatim>\<open>TVariant\<close> with the type lists below it, as a type number and the object in its memory, and how it is
    streamed.
  \<^item> \<open>Request_Packets\<close>: \<^verbatim>\<open>CRequestWriter\<close> and \<^verbatim>\<open>CRequestReader\<close>, a request as packets and back.
  \<^item> \<open>Stub_Server\<close>: \<^verbatim>\<open>CServer\<close> and the part of the generated stub (\<^verbatim>\<open>CDSIStub.cpp.jet\<close>) that works on its state. What
    a service does with a request is a list of calls of the operations of its base class, given by the environment.
  \<^item> \<open>Attributes\<close>: \<^verbatim>\<open>attributes.hpp\<close> with the generated code around it, the value of an attribute in the server and its copy in
    the proxies, and the messages that carry complete and partial updates. The locale \<open>replicated\<close> is the contract of the two
    sides, interpreted for both kinds of attributes; \<open>replica_step\<close> interleaves the service with the delivery of the
    messages.
  \<^item> \<open>Stub_Client\<close>: \<^verbatim>\<open>CClient\<close> and \<^verbatim>\<open>CClientConnectSM\<close>, the way to a connection over both transports.
  \<^item> \<open>Comm_Engine\<close>: \<^verbatim>\<open>CCommEngine\<close>, with clients and servers as objects at addresses, and its table of connections. The
    locale \<open>party_directory\<close> in \<open>Comm_Engine_Spec\<close> is a cache in front of a scan and is interpreted for both kinds of
    objects.

  \<^bold>\<open>What the lemmas show\<close>

  \<^item> \<open>Broker_Frame\<close>: what each operation on notifications leaves alone (\<open>core\<close>).
  \<^item> \<open>Broker_Invariants\<close> and \<open>Broker_Safety\<close>: the invariant \<open>broker_inv\<close> (ordered table, well-formed
    pool and connection data, channel references and object counter equal to the notifications that
    exist) for each operation, then for every reachable state.
  \<^item> \<open>Broker_Responses\<close>: every request is answered or deferred exactly as the context demands.
  \<^item> \<open>Broker_Spec\<close>: registering, attaching, access control, the batches for the master.
  \<^item> \<open>Broker_Cleanup\<close>: unregistering, detaching and closing a connection.
  \<^item> \<open>Broker_Queries\<close>: the interface lists, their sizes and the size that wraps around; the map of
    pending extended attaches stays empty.
  \<^item> \<open>Broker_Delivery\<close>: the pulses that are written to the sockets.
  \<^item> \<open>Broker_Upstream\<close>: the answers of the master, the loss of the link, from a watch to its pulse.
  \<^item> \<open>Broker_Examples\<close>: small concrete brokers. This theory states the properties of the daemon that span its
    components.
  \<^item> \<open>Client_Lib_Spec\<close> and \<open>Api_Spec\<close>: each call of the client library is decoded by the daemon as the request it was made for,
    and what the handler decides comes back as its result, through the socket of the process, the session and the
    dispatcher; a server and a client of two processes meet, from the opening of their connections on.
  \<^item> \<open>Slave_Spec\<close>: the jobs the thread reports and in which order, a job from the queue of a slave to the handler of its master,
    and the event loop under the daemon: it uses living events only and keeps the invariant of the broker.
  \<^item> \<open>Transport_Spec\<close>: the intrusive list, arguments through streams and packets, the growth of buffers, UTF-8.
  \<^item> \<open>Stub_Server_Spec\<close>: the invariant of a server over its runs, requests and their responses, immediate, refused or deferred.
  \<^item> \<open>Comm_Engine_Spec\<close>: lookups with and without the cache, and that the engine uses living objects only.
  \<^item> \<open>End_To_End\<close> and \<open>Library_Spec\<close>: from the writer of one process to the handler in the other, connecting from the pulse
    to the callback, the copies of attributes, and the properties of the library.

  The theories of the library end with lemmas on inputs for which the code goes wrong.

  \<^bold>\<open>Environment and bounds\<close>

  The operating system of the daemon is the record \<open>env\<close>: user and group databases, regular expressions, socket
  calls, and the values uninitialised or reused memory holds where the code reads such. Assumed of
  it is at most that new descriptors are fresh (\<open>env_ok\<close>) and, for the delivery of a pulse, that
  channels can be opened (\<open>sockets_work\<close>). In the library \<open>platform\<close> is the width of \<^verbatim>\<open>size_t\<close>, the answers of the
  allocator and the contents of foreign memory; \<open>broker_if\<close> is what a session needs of the dispatcher; \<open>stub_env\<close>,
  \<open>client_env\<close> and \<open>engine_env\<close> are the services, the answers of the servicebroker and the state of the channels, which
  are taken as alive or not for the time of a call. \<open>ids_given\<close> assumes that the servicebroker gives out ids other than 0.

  The kernel answers the calls on a socket and \<^verbatim>\<open>poll\<close> with lists of answers, of any length and content; a run of the
  event loop ends at the latest with the answers. The pipe from the worker thread takes each notification with
  one write.

  Recursions are total and there is no fuel. A loop that may not end (the growth of a buffer whose size wraps around) has
  the value \<open>None\<close> then, and \<open>capacity_loop_ends\<close> says when. Loops over counts run over the elements the message has.
  Where undefined behaviour is possible (a missing connection, a write past the end of a buffer, a null pointer, a
  destroyed object, an erased iterator) the function returns \<open>None\<close> or an error value, and the properties say when
  that cannot happen. Failing assertions are errors. Identifiers are given out by 32-bit counters that
  wrap around; where a property needs them to be distinct it says so. In \<open>Stub_Server\<close> and \<open>Stub_Client\<close> each object has the
  counter of its process; the engine passes it from one to the next.

  \<^bold>\<open>Not modelled\<close>

  The build option \<^verbatim>\<open>USE_SERVER_CACHE\<close>, which the sources leave switched off. Text output (statistics,
  the HTTP status page), logging, tracing, start-up and process handling. Of the common library the acceptors, datagram
  sockets, the creation of timers and the wrappers of threads and locks, which only pass on to system calls. The stub
  library is not composed with the event loop, and its servers and clients not with the connection of \<open>Broker_Access\<close>: what
  they send and receive passes through their environments. The unregister callbacks of a service at the end of a
  client are logged and change nothing.
\<close>

section \<open>Invariants of a run\<close>

text \<open>
  C1. Whatever requests, pulses, finished jobs, closed and accepted connections a broker sees after
  its start, in any order: the server table stays strictly ordered by name, the notification pool
  and the data of every connection stay well formed, every pulse channel has exactly as many
  references as notifications use it, and the notification counter is the number of
  notifications. Assumed is that the kernel gives out fresh file descriptors.
\<close>

theorem reachable_broker_inv:
  assumes "env_ok E" and "\<And>c. cx_data (conns c) = new_ClientSpecificData"
    and "reachable E (Servicebroker_init mst cfg i cache async addr conns) b"
  shows "broker_inv b"
  by (rule reachable_inv [OF assms(3) init_inv [OF assms(2)] assms(1)])

theorem reachable_broker_inv_witness: "broker_inv (clear_connection example_env 3 (example_broker None))"
proof (rule reachable_broker_inv [where E = example_env and mst = None and cfg = None and i = 0 and cache = False
      and async = False and addr = "(0, 0)" and conns = example_conns])
  show "env_ok example_env" by simp
  show "cx_data (example_conns c) = new_ClientSpecificData" for c by (simp add: example_conns_def)
  show "reachable example_env (Servicebroker_init None None 0 False False (0, 0) example_conns)
      (clear_connection example_env 3 (example_broker None))"
    unfolding example_broker_def by (rule reachable.step [OF reachable.start broker_step.Close])
qed

text \<open>
  C2. A name lookup of a running broker (binary search) finds exactly the registered server:
  it returns an entry if and only if that entry is in the table and has this name.
\<close>

theorem lookup_finds_registered:
  assumes "env_ok E" and "\<And>c. cx_data (conns c) = new_ClientSpecificData"
    and "reachable E (Servicebroker_init mst cfg i cache async addr conns) b"
  shows "sl_find_name (mConnectedServers b) n = Some e
    \<longleftrightarrow> e \<in> set (sl_entries (mConnectedServers b)) \<and> se_name e = n"
proof -
  have "broker_inv b" by (rule reachable_inv [OF assms(3) init_inv [OF assms(2)] assms(1)])
  then show ?thesis by (intro servers.lookup_correct broker_invD)
qed

theorem lookup_finds_registered_witness:
  "\<forall>e. sl_find_name (mConnectedServers (example_broker None)) ''Foo'' = Some e
    \<longleftrightarrow> e \<in> set (sl_entries (mConnectedServers (example_broker None))) \<and> se_name e = ''Foo''"
proof (rule allI, rule lookup_finds_registered [where E = example_env and mst = None and cfg = None and i = 0 and cache = False
      and async = False and addr = "(0, 0)" and conns = example_conns])
  show "env_ok example_env" by simp
  show "cx_data (example_conns c) = new_ClientSpecificData" for c by (simp add: example_conns_def)
  show "reachable example_env (Servicebroker_init None None 0 False False (0, 0) example_conns) (example_broker None)"
    unfolding example_broker_def by (rule reachable.start)
qed

section \<open>Responses\<close>

text \<open>
  C12. The dispatcher answers or defers every request and hits no assertion of the response path,
  whatever the command, its length and its version, except for a list match with a regular
  expression that does not compile.
\<close>

theorem dispatch_answers:
  assumes "\<not> bad_match E req"
  shows "msg_done (snd (snd (dispatch E c req v sz b new_message)))"
  by (rule dispatch_done [OF assms])

theorem dispatch_answers_witness:
  "msg_done (snd (snd (dispatch example_env 0 (ATTACH_INTERFACE example_ifd) \<lparr>v_major = 4, v_minor = 0\<rparr> 264
     (example_broker None) new_message)))"
  by (rule dispatch_answers) (simp add: bad_match_def)

section \<open>Registering and attaching\<close>

text \<open>
  C3. A client that attaches to an interface after its registration, with the same major and at
  most the registered minor version, gets the server id the registration returned, the channel the
  server gave, the registered version, and the next free client id; the client is entered in the
  table of attached clients.
\<close>

theorem register_then_attach:
  fixes E c chid pid m
  assumes "broker_inv b" and "msg_open m" and "msg_open m2"
    and "may_register c ifd b" and "name_free ifd b"
    and "check_ifDescription want" and "c_str (sf_name want) = c_str (sf_name ifd)"
    and "v_major (sf_version want) = v_major (sf_version ifd)" and "v_minor (sf_version want) \<le> v_minor (sf_version ifd)"
    and "\<not> mUseServerCache b"
  defines "b1 \<equiv> fst (handleRegisterInterface E c ifd chid pid b m)"
    and "m1 \<equiv> snd (handleRegisterInterface E c ifd chid pid b m)"
    and "s \<equiv> \<lparr>localID = mNextServerID b, extendedID = mExtendedID b\<rparr>"
  shows "m_returncode m1 = status_code FNDOK \<and> m_body m1 = Some (BodyServerID s)
    \<and> (let r = handleAttachInterface E c2 want b1 m2
       in m_returncode (snd r) = status_code FNDOK
          \<and> m_body (snd r) = Some (BodyConnection
               \<lparr>ci_version = sf_version ifd,
                ci_channel = \<lparr>c_nid = 0, c_pid = translateLocal (mConnections b c2) (c_str (sf_name ifd)) pid, c_chid = chid\<rparr>,
                ci_serverID = s, ci_clientID = fresh_clientID s b\<rparr>)
          \<and> mAttachedClients (fst r) = cl_push_back (fresh_clientID s b) s c2 (mAttachedClients b))"
  unfolding b1_def m1_def s_def by (rule registered_is_attached [OF assms(1-10)])

theorem register_then_attach_witness:
  "m_returncode (snd (handleAttachInterface example_env 1 example_ifd
     (fst (handleRegisterInterface example_env 0 example_ifd 42 7 (example_broker None) (new_message\<lparr>m_state := State_PROCESSING\<rparr>)))
     (new_message\<lparr>m_state := State_PROCESSING\<rparr>))) = 0"
proof -
  let ?m = "new_message\<lparr>m_state := State_PROCESSING\<rparr>"
  have "\<not> mUseServerCache (example_broker None)" by (simp add: example_broker_def Servicebroker_init_def)
  then show ?thesis
    using register_then_attach [of "example_broker None" ?m ?m 0 example_ifd example_ifd example_env 42 7 1]
    by (simp add: example_name_free example_may_register Let_def)
qed



text \<open>
  C7. Access control of attaching. A caller is connected to an interface that was registered for a
  group exactly when it is on the local node and its user is known and is root or a member of that
  group. A refused caller is told so and the broker stays unchanged.
\<close>

theorem attach_access_control:
  fixes E c
  assumes "msg_open m" and "check_ifDescription ifd"
    and "sl_find_if (mConnectedServers b) (to_ifDescription ifd) = Some e" and "se_grpid e \<noteq> SB_UNKNOWN_GROUP_ID"
  defines "ctx \<equiv> mConnections b c" and "r \<equiv> handleAttachInterface E c ifd b m"
  shows "(m_returncode (snd r) = status_code FNDOK \<longleftrightarrow>
      ctx_isLocal ctx \<and> cx_uid ctx \<noteq> SB_UNKNOWN_USER_ID \<and> (cx_uid ctx = 0 \<or> in_group E (cx_uid ctx) (se_grpid e)))
    \<and> (m_returncode (snd r) \<noteq> status_code FNDOK \<longrightarrow> m_returncode (snd r) = status_code FNDAccessDenied \<and> fst r = b)"
proof (cases "access_granted E ctx e")
  case True
  then show ?thesis
    using assms(1-4) by (simp add: handleAttachInterface_def attach_local_granted ctx_def r_def access_granted_def)
next
  case False
  then show ?thesis
    using assms(1-4) by (simp add: handleAttachInterface_def attach_local_denied ctx_def r_def access_granted_def)
qed

theorem attach_access_control_witness:
  "m_returncode (snd (handleAttachInterface example_env 5 example_ifd (example_served None)
     (new_message\<lparr>m_state := State_PROCESSING\<rparr>))) = 0"
proof -
  have g: "se_grpid example_entry = 100" "(100::u32) \<noteq> SB_UNKNOWN_GROUP_ID" "(1000::u32) \<noteq> SB_UNKNOWN_USER_ID"
    by (simp_all add: example_entry_def SB_UNKNOWN_GROUP_ID_def SB_UNKNOWN_USER_ID_def)
  have member: "in_group example_env 1000 100" by (simp add: in_group_def example_env_def)
  show ?thesis
    using attach_access_control [OF msg_open_example example_check example_served_find, where E = example_env and c = 5] g member
    by (simp add: example_served_ctx)
qed

section \<open>Unregistering, detaching, closing\<close>





text \<open>
  Detaching: the owner of a known client ends it; the client leaves the table and the
  connection, and exactly the active notifications that wait for its end are sent and removed. A
  client the broker does not know is passed on to the master, or refused without any change where
  there is none.
\<close>

lemma detach_effect:
  fixes E c i b m
  assumes "broker_inv b" and "msg_open m" and "\<not> mUseServerCache b"
  defines "r \<equiv> handleDetachInterface E c i b m"
    and "known \<equiv> clientExists (ocb b c) i \<and> cl_find (mAttachedClients b) i \<noteq> - 1"
  shows "(known \<longrightarrow> m_returncode (snd r) = status_code FNDOK
         \<and> mAttachedClients (fst r) = cl_remove i (mAttachedClients b) \<and> \<not> clientExists (ocb (fst r) c) i
         \<and> notifs ClientDetach (fst r) = filter (\<lambda>n. \<not> (n_active n \<and> n_partyID n = i)) (notifs ClientDetach b))
    \<and> (\<not> known \<and> isMasterConnected b \<longrightarrow> m_state (snd r) = State_DEFERRED
         \<and> mQueue (fst r) = mQueue b @ [Job_create (Some c) 0 (DETACH_INTERFACE i) 16 0])
    \<and> (\<not> known \<and> \<not> isMasterConnected b \<longrightarrow>
         fst r = b \<and> m_returncode (snd r) = status_code FNDInvalidClientID)"
proof (cases known)
  case True
  have "pid_sorted (mClientList (ocb b c))" using broker_invD(3) [OF assms(1)] by (simp add: ocb_wf_def)
  then show ?thesis
    using True assms(2,3) detach_known [where b = b and c = c and i = i and E = E and m = m]
    by (auto simp: r_def known_def clientExists_def set_pid_remove)
next
  case False
  then show ?thesis
    using assms(2) detach_unknown [of b c i E m] by (auto simp: r_def known_def)
qed

section \<open>Who is told\<close>

text \<open>
  C9. Announcing an interface that is registered for a group: pulses go, in the order of the list,
  only to matching notifications whose user is root or in the group (to all of them if their
  channels are open); these are removed, the matching notifications of other users stay in the
  list but are switched off, and every other notification stays as it is.
\<close>

theorem announce_to_group:
  fixes E k d g b
  defines "b' \<equiv> trigger_interface E k d g b" and "P \<equiv> \<lambda>n. if_matches d n \<and> may_notify E g n"
  shows "(\<exists>ms. subseq ms (filter P (notifs k b)) \<and> sent b' = sent b @ map n_notificationID ms)
    \<and> ((\<forall>n \<in> set (notifs k b). P n \<longrightarrow> 0 \<le> n_coid n) \<longrightarrow>
         sent b' = sent b @ map n_notificationID (filter P (notifs k b)))
    \<and> notifs k b' = map (\<lambda>n. if if_matches d n then n\<lparr>n_active := False\<rparr> else n) (filter (\<lambda>n. \<not> P n) (notifs k b))"
  unfolding b'_def P_def
  using trigger_interface_sent [of d E g k b] trigger_interface_sent_all [of k b d E g]
  by (simp add: trigger_interface_notifs)

theorem announce_to_group_witness:
  "sent (trigger_interface example_env ServerConnect (to_ifDescription example_ifd) 100
      (set_notifs ServerConnect [example_waiting 1 0, example_waiting 2 555] (example_broker None))) = [1]"
proof -
  let ?b = "set_notifs ServerConnect [example_waiting 1 0, example_waiting 2 555] (example_broker None)"
  have "sent ?b = []" by (simp add: sent_def set_notifs_def example_broker_def Servicebroker_init_def empty_pcm_def)
  moreover have "may_notify example_env 100 (example_waiting 1 0)" "\<not> may_notify example_env 100 (example_waiting 2 555)"
    by (simp_all add: may_notify_def example_waiting_def SB_UNKNOWN_GROUP_ID_def in_group_def example_env_def)
  moreover have "if_matches (to_ifDescription example_ifd) (example_waiting 1 0)" "n_coid (example_waiting 1 0) = 3"
    "n_notificationID (example_waiting 1 0) = 1"
    by (simp_all add: if_matches_def example_waiting_def new_Notification_def)
  ultimately show ?thesis
    using announce_to_group [where k = ServerConnect and b = ?b and d = "to_ifDescription example_ifd" and E = example_env and g = 100] by simp
qed

text \<open>
  C8. A caller outside the group of a registered interface can neither attach to it, nor attach
  with the extended request, nor watch for it: each request is refused and leaves the broker as it
  was, so the caller does not learn the channel and gets no client id and no notification.
\<close>

theorem restricted_interface_closed:
  fixes E c pulse ifd b m
  assumes "msg_open m" and "sl_find_if (mConnectedServers b) (to_ifDescription ifd) = Some e"
    and "se_grpid e \<noteq> SB_UNKNOWN_GROUP_ID" and "cx_uid (mConnections b c) \<noteq> 0"
    and "\<not> in_group E (cx_uid (mConnections b c)) (se_grpid e)"
  defines "denied \<equiv> \<lambda>r. fst r = b \<and> m_body (snd r) = m_body m
    \<and> m_returncode (snd r) \<in> {status_code FNDAccessDenied, status_code FNDBadArgument}"
  shows "denied (handleAttachInterface E c ifd b m) \<and> denied (handleAttachInterfaceExtended E c pulse ifd b m)
    \<and> denied (handleNotifyServerAvailable E c pulse ifd b m)"
proof -
  have "\<not> may_watch E c (to_ifDescription ifd) b"
    using assms(2-5) by (simp add: may_watch_def checkAccessPrivileges_def Let_def)
  then have "denied (handleNotifyServerAvailable E c pulse ifd b m)"
    using assms(1) by (simp add: denied_def handleNotifyServerAvailable_def handleNotifyServerAvailableNoResponse_def)
  moreover have "\<not> access_granted E (mConnections b c) e" using assms(3-5) by (simp add: access_granted_def)
  then have "denied (handleAttachInterface E c ifd b m) \<and> denied (handleAttachInterfaceExtended E c pulse ifd b m)"
    using assms(1,2)
    by (simp add: denied_def handleAttachInterface_def handleAttachInterfaceExtended_def
        handleAttachInterfaceExtended_local_def attach_local_denied)
  ultimately show ?thesis by simp
qed

theorem restricted_interface_closed_witness:
  "fst (handleNotifyServerAvailable (example_env\<lparr>e_getgrgid := \<lambda>_. None\<rparr>) 5 zero_pulse example_ifd (example_served None)
     (new_message\<lparr>m_state := State_PROCESSING\<rparr>)) = example_served None"
proof -
  let ?E = "example_env\<lparr>e_getgrgid := \<lambda>_. None\<rparr>"
  have "se_grpid example_entry \<noteq> SB_UNKNOWN_GROUP_ID" by (simp add: example_entry_def SB_UNKNOWN_GROUP_ID_def)
  moreover have "\<not> in_group ?E u (se_grpid example_entry)" for u by (simp add: in_group_def)
  ultimately show ?thesis
    using restricted_interface_closed [OF msg_open_example example_served_find, where E = ?E and c = 5 and pulse = zero_pulse]
    by (simp add: example_served_ctx)
qed

section \<open>A slave and its master\<close>

text \<open>
  C11. Registering at the master: with a connected master the jobs that are queued carry exactly
  the interfaces that are neither local nor registered yet and are to be forwarded, each once and
  in table order, at least one and at most 32 per job and 32 in every job but the last; these
  interfaces are marked, nothing else in the table changes, and a second run queues nothing.
\<close>

theorem register_at_master:
  fixes b
  assumes "isMasterConnected b"
  defines "b' \<equiv> registerInterfacesMaster b" and "es \<equiv> sl_entries (mConnectedServers b)"
  shows "\<exists>js. mQueue b' = mQueue b @ js
    \<and> concat (map job_interfaces js) = map master_descr (filter (forwardable (mConfig b)) es)
    \<and> (\<forall>j \<in> set js. job_interfaces j \<noteq> [] \<and> length (job_interfaces j) \<le> MAX_MULTIPLE_COUNT)
    \<and> (\<forall>j \<in> set (butlast js). length (job_interfaces j) = MAX_MULTIPLE_COUNT)
    \<and> sl_entries (mConnectedServers b')
        = map (\<lambda>e. if forwardable (mConfig b) e then e\<lparr>se_masterID := party_assign 0xffffffff\<rparr> else e) es
    \<and> registerInterfacesMaster b' = b'"
proof (intro exI [of _ "register_jobs b"] conjI)
  have m: "length [] < MAX_MULTIPLE_COUNT" by (simp add: MAX_MULTIPLE_COUNT_def)
  have js: "register_jobs b = snd (register_loop (mConfig b) es [])" using assms(1) by (simp add: register_jobs_def es_def)
  show "mQueue b' = mQueue b @ register_jobs b" by (simp add: b'_def registerInterfacesMaster_queue)
  show "concat (map job_interfaces (register_jobs b)) = map master_descr (filter (forwardable (mConfig b)) es)"
    by (simp add: js register_loop_jobs)
  show "\<forall>j \<in> set (register_jobs b). job_interfaces j \<noteq> [] \<and> length (job_interfaces j) \<le> MAX_MULTIPLE_COUNT"
    unfolding js by (intro ballI register_loop_sizes [OF m])
  show "\<forall>j \<in> set (butlast (register_jobs b)). length (job_interfaces j) = MAX_MULTIPLE_COUNT"
    unfolding js by (rule register_loop_full [OF m])
  show "sl_entries (mConnectedServers b')
      = map (\<lambda>e. if forwardable (mConfig b) e then e\<lparr>se_masterID := party_assign 0xffffffff\<rparr> else e) es"
    using assms(1) by (simp add: b'_def es_def registerInterfacesMaster_servers mark_pending_def)
  show "registerInterfacesMaster b' = b'" by (simp add: b'_def registerInterfacesMaster_idem)
qed

theorem register_at_master_witness:
  "\<exists>js. mQueue (registerInterfacesMaster (example_served (Some True))) = js
     \<and> concat (map job_interfaces js) = [master_descr example_entry]"
proof -
  let ?b = "example_served (Some True)"
  have "forwardable (mConfig ?b) example_entry"
    by (simp add: forwardable_def) (simp add: example_entry_def)
  then show ?thesis using register_at_master [of ?b] by auto
qed

text \<open>
  C16. The interface list of a broker without a master: if the caller has room for the whole table,
  it gets the interfaces it may see (a slave does not see local ones) in table order, the negated
  count as the return code, and a frame of exactly 260 bytes per interface; otherwise an error.
\<close>

theorem interface_list_contents:
  fixes b n c m
  assumes "\<not> isMasterConnected b" and "msg_open m" and "m_putOffset m = 0" and "m_ancillary m = []"
  defines "r \<equiv> handleGetInterfaceList c n b m"
    and "out \<equiv> filter (\<lambda>e. \<not> cx_slave (mConnections b c) \<or> \<not> se_local e) (sl_entries (mConnectedServers b))"
  shows "fst r = b
    \<and> (if length (sl_entries (mConnectedServers b)) \<le> unat n
       then m_returncode (snd r) = - int (length out)
         \<and> m_ancillary (snd r) = map (\<lambda>e. AncInterface (from_ifDescription (se_ifDescription e))) out
         \<and> m_fr_size (snd r) = 260 * length out
       else m_returncode (snd r) = status_code FNDBadArgument)"
proof -
  have "out = filter (visible (mConnections b c)) (sl_entries (mConnectedServers b))" by (simp add: out_def visible_def [abs_def])
  moreover have "map (\<lambda>e. AncInterface (from_ifDescription (se_ifDescription e))) out = map anc_interface out"
    by (simp add: anc_interface_def)
  ultimately show ?thesis
    using assms(1,2) list_response [OF assms(2-4), of out]
    by (simp add: r_def handleGetInterfaceList_def Let_def ifd_size_def)
qed

theorem interface_list_contents_witness:
  "m_returncode (snd (handleGetInterfaceList 5 10 (example_served None) (new_message\<lparr>m_state := State_PROCESSING\<rparr>))) = - 1"
  using interface_list_contents [of "example_served None" "new_message\<lparr>m_state := State_PROCESSING\<rparr>" 5 10] by simp

text \<open>
  The pattern query of a broker without a master: with room for every match the caller gets
  exactly the matching interfaces it may see, in table order; with more visible matches than
  room it gets an error.
\<close>

lemma match_list_contents:
  fixes E b n r c m
  assumes "\<not> isMasterConnected b" and "e_regcomp E r" and "msg_open m" and "m_putOffset m = 0" and "m_ancillary m = []"
  defines "hits \<equiv> filter (\<lambda>e. e_regexec E r (se_name e)) (sl_entries (mConnectedServers b))"
    and "out \<equiv> filter (\<lambda>e. e_regexec E r (se_name e) \<and> visible (mConnections b c) e) (sl_entries (mConnectedServers b))"
    and "m' \<equiv> snd (handleMatchInterfaceList E c n r b m)"
  shows "(int (length hits) \<le> sint n \<longrightarrow>
           m_returncode m' = - int (length out) \<and> m_ancillary m' = map anc_interface out
           \<and> m_fr_size m' = 260 * length out)
    \<and> (0 < length out \<and> sint n < int (length out) \<longrightarrow> m_returncode m' = status_code FNDBadArgument)"
proof -
  define l where "l = match_loop E r (mConnections b c) (sint n) (sl_entries (mConnectedServers b)) 0 m"
  have m': "m' = (if fst l then prepareResponse (- fst (snd l)) False (snd (snd l))
      else prepareResponse (status_code FNDBadArgument) False (snd (snd l)))"
    using assms(1,2) by (simp add: m'_def handleMatchInterfaceList_def l_def case_prod_beta)
  have o: "msg_open (snd (snd l))" unfolding l_def by (rule loops_open(4) [OF assms(3)])
  have "l = (True, int (length out), fold (\<lambda>e. writeAncillaryData (anc_interface e)) out m)" if "int (length hits) \<le> sint n"
    using match_loop_ok [of 0 E r "sl_entries (mConnectedServers b)" "sint n" "mConnections b c" m] that
    by (simp add: l_def hits_def out_def)
  moreover have "\<not> fst l" if "0 < length out" "sint n < int (length out)"
    unfolding l_def using that by (intro match_loop_no_room) (simp_all add: out_def)
  ultimately show ?thesis
    using o list_response [OF assms(3-5), of out] by (auto simp: m' ifd_size_def)
qed



text \<open>
  From 16519104 elements on that fails: the buffer size is computed in 32 bits and wraps around to
  4 bytes, so the first local interface is written past the end of the buffer.
\<close>

lemma completed_list_overflow:
  "finish_job E (answered_list_job c 16519104 0 (OutInterfaces []))
     (set_servers \<lparr>sl_entries = [example_entry\<lparr>se_local := True\<rparr>], sl_total = 1\<rparr> b) = None"
  by (simp add: finish_job_def answered_list_job_def Job_create_def j_has_arg_def list_rbytes_wraps finished_list_def
      received_interfaces_def local_only_def ifd_size_def)

section \<open>Safety of a run\<close>

text \<open>
  C18. In every state a broker can reach, the pulses of the master are handled without reading
  a null pointer: the pool entry an attach pulse refers to has an interface description whenever the
  handler reads it.
\<close>

theorem master_pulses_defined:
  assumes "env_ok E" and "\<And>c. cx_data (conns c) = new_ClientSpecificData"
    and "reachable E (Servicebroker_init mst cfg i cache async addr conns) b"
    and "code \<noteq> PULSE_JOB_EXECUTED"
  shows "dispatch_pulse E code val job b \<noteq> None"
proof -
  have "broker_inv b" by (rule reachable_inv [OF assms(3) init_inv [OF assms(2)] assms(1)])
  then show ?thesis
    using assms(4) attach_extended_pulse_defined [of b E val] by (simp add: dispatch_pulse_def)
qed

theorem master_pulses_defined_witness:
  "dispatch_pulse example_env PULSE_MASTER_ATTACH_EXTENDED 7 None (example_broker (Some True)) \<noteq> None"
proof (rule master_pulses_defined [where mst = "Some True" and cfg = None and i = 0 and cache = False
      and async = False and addr = "(0, 0)" and conns = example_conns])
  show "env_ok example_env" by simp
  show "cx_data (example_conns c) = new_ClientSpecificData" for c by (simp add: example_conns_def)
  show "reachable example_env (Servicebroker_init (Some True) None 0 False False (0, 0) example_conns) (example_broker (Some True))"
    unfolding example_broker_def by (rule reachable.start)
  show "PULSE_MASTER_ATTACH_EXTENDED \<noteq> PULSE_JOB_EXECUTED"
    by (simp add: PULSE_MASTER_ATTACH_EXTENDED_def PULSE_JOB_EXECUTED_def)
qed

text \<open>
  In this build no extended attach that was forwarded to the master can succeed: the map of
  pending jobs stays empty in every reachable state, so the answer of the master to such a job is
  turned into an internal error and changes nothing in the broker.
\<close>

lemma forwarded_attach_extended_fails:
  assumes "reachable E (Servicebroker_init mst cfg i cache async addr conns) b"
    and "j_req job = ATTACH_INTERFACE_EXTENDED pulse ifd" and "j_status job = 0" and "j_has_arg job"
  shows "finish_job E job b = Some (job\<lparr>j_status := status_code FNDInternalError\<rparr>, b)"
  using assms(2-4) attach_extended_nothing_pending [OF pend_reachable [OF assms(1)]]
  by (simp add: finish_job_def)

section \<open>The link to the master\<close>





text \<open>
  Moving the notifications of a pool to the list of disconnect notifications loses their pool id:
  setting the server of that pool afterwards finds only the elements that were in the list before,
  none of those just moved.
\<close>

lemma moved_notifications_lose_pool:
  assumes "p \<noteq> 0"
  shows "fst (setType ServerDisconnect p s (snd (move_notifications ServerDisconnect ServerConnect p b)))
    = poolSize ServerDisconnect p b"
  using assms by (simp add: setType_after_move)

text \<open>
  A client of the own node that starts to watch a server that is already gone is told at once: the
  request returns the next notification id, and no active notification on that server is left.
\<close>

lemma watch_of_gone_server:
  fixes E c s pulse b m
  assumes "msg_open m" and "sl_find_id (mConnectedServers b) s = None"
    and "mExtendedID b = extendedID s \<or> \<not> isMasterConnected b" and "\<not> cx_slave (mConnections b c)"
    and "sNextNotificationID b + 1 \<noteq> INVALID_NOTIFICATION_ID"
  defines "r \<equiv> handleNotifyServerDisconnect E c s pulse b m"
  shows "m_returncode (snd r) = status_code FNDOK
    \<and> m_body (snd r) = Some (BodyNotificationID (sNextNotificationID b + 1))
    \<and> notifs ServerDisconnect (fst r) = filter (\<lambda>n. \<not> (n_active n \<and> n_partyID n = s)) (notifs ServerDisconnect b)"
  using assms(1) watch_gone_server [OF assms(2-5), of E pulse]
  by (simp add: r_def handleNotifyServerDisconnect_def case_prod_beta)

section \<open>Components\<close>

text \<open>
  C19. The linked job queue is first in, first out: under every sequence of pushes and pops (in which no
  job is pushed while it is queued) its pops return exactly what those of a list queue return.
\<close>

theorem job_queue_fifo:
  assumes "fresh_ops ops []"
  shows "fst (q_run jq_push jq_pop ops empty_JobQueue) = fst (q_run list_push list_pop ops [])"
  by (rule jobqueue.run_from_empty [OF assms])

theorem job_queue_fifo_witness:
  "fst (q_run jq_push jq_pop [Push 4, Push 9, Pop, Push 4, Pop, Pop] empty_JobQueue) = [Some 4, Some 9, Some 4]"
  using job_queue_fifo [of "[Push 4, Push 9, Pop, Push 4, Pop, Pop]"] by (simp add: list_push_def list_pop_def)

text \<open>
  Executing the pending jobs: they are executed and reported in order, none twice and none skipped;
  a transport error stops the run after the job it hit and keeps the rest queued; the run reports a
  good connection exactly when no job of the queue hits such an error.
\<close>

lemma execute_pending:
  assumes "executePending ex js = (finished, rest, ok)"
  shows "\<exists>ds. js = ds @ rest \<and> finished = map (\<lambda>j. fst (connector_execute ex j)) ds
    \<and> (ok \<longleftrightarrow> (\<forall>j \<in> set js. fst (ex j) = 0)) \<and> (ok \<longrightarrow> rest = [])"
proof (intro exI conjI)
  show "js = take (length finished) js @ rest"
    "finished = map (\<lambda>j. fst (connector_execute ex j)) (take (length finished) js)" "ok \<longrightarrow> rest = []"
    using executePending_split [OF assms] by blast+
  show "ok \<longleftrightarrow> (\<forall>j \<in> set js. fst (ex j) = 0)" using executePending_ok_iff [of ex js] assms by simp
qed

text \<open>
  C21. A pulse channel: a successful attach takes exactly one reference on the descriptor it returns and
  none elsewhere, a failed one takes none; the matching detach gives it back, and it closes the
  descriptor exactly when there was no reference before the attach.
\<close>

theorem channel_references:
  assumes "pcm_inv m" and "fds_fresh os" and "pcm_attach os nid pid chid m = (fd, m')"
  shows "refs m' = (if 0 \<le> fd then (refs m)(fd := refs m fd + 1) else refs m)
    \<and> (0 \<le> fd \<longrightarrow> refs (pcm_detach fd m') = refs m
         \<and> pcm_log (pcm_detach fd m') = pcm_log m' @ (if refs m fd = 0 then [Closed fd] else []))"
proof -
  have r: "refs m' = (if 0 \<le> fd then (refs m)(fd := refs m fd + 1) else refs m)" by (rule pcm_attach_refs [OF assms])
  have i: "pcm_inv m'" by (rule pcm_attach_inv [OF assms])
  have "refs (pcm_detach fd m') = refs m" if "0 \<le> fd"
    using channels.acquire_release [of m "(os, nid, pid, chid)" fd m'] assms that by simp
  moreover have "pcm_log (pcm_detach fd m') = pcm_log m' @ (if refs m fd = 0 then [Closed fd] else [])" if "0 \<le> fd"
    using pcm_detach_closes [OF i, of fd] r that refs_nonneg [OF assms(1), of fd] by simp
  ultimately show ?thesis using r by blast
qed

theorem channel_references_witness:
  "refs (snd (pcm_attach example_os 0 1 2 empty_pcm)) 3 = 1"
proof -
  have "pcm_inv empty_pcm" by (simp add: pcm_inv_def empty_pcm_def)
  moreover have "fds_fresh example_os" using example_env_ok by (simp add: env_ok_def example_env_def)
  moreover have a: "fst (pcm_attach example_os 0 1 2 empty_pcm) = 3"
    by (simp add: pcm_attach_def tryAddRef_def empty_pcm_def connect_unix_def example_os_def SB_LOCAL_NODE_ADDRESS_def io_ok_def)
  ultimately show ?thesis
    using channel_references [of empty_pcm example_os 0 1 2 3 "snd (pcm_attach example_os 0 1 2 empty_pcm)"]
    by (simp add: prod_eq_iff) (simp add: refs_def empty_pcm_def)
qed

text \<open>
  C22. Reading the configuration file: each of the three service sets holds afterwards what it held before
  and exactly the service lines (comment and trailing blanks removed) that the last section header
  before them puts into that set; lines before the first header and under unknown headers are
  ignored, and the sets stay ordered.
\<close>

theorem config_file_read:
  assumes "config_wf c"
  shows "set (mLocalServices (load (Some ls) c)) = set (mLocalServices c) \<union> services_in STATE_LOCAL ls
    \<and> set (mGlobalServices (load (Some ls) c)) = set (mGlobalServices c) \<union> services_in STATE_GLOBAL ls
    \<and> set (mForwardServices (load (Some ls) c)) = set (mForwardServices c) \<union> services_in STATE_FORWARD ls
    \<and> config_wf (load (Some ls) c)"
  using load_state_spec [of c ls] load_wf [OF assms, of "Some ls"] by (simp add: load_def reads_sections_def)

theorem config_file_read_witness:
  "set (mLocalServices (load (Some [''[LOCAL]'', ''Foo # bar'']) empty_config)) = services_in STATE_LOCAL [''[LOCAL]'', ''Foo # bar'']"
  using config_file_read [of empty_config "[''[LOCAL]'', ''Foo # bar'']"]
  by (simp add: empty_config_def config_wf_def ordered_set_def)

text \<open>
  The check of an interface description accepts exactly the names that are readable C strings of at
  most 256 characters together with a version that is not 0.0.
\<close>

lemma name_check_exact:
  "check_ifDescription d \<longleftrightarrow>
     length (c_str (sf_name d)) \<le> 256 \<and> list_all (\<lambda>ch. 32 \<le> byte ch \<and> byte ch < 127) (c_str (sf_name d))
     \<and> sf_version d \<noteq> \<lparr>v_major = 0, v_minor = 0\<rparr>"
proof -
  have "readable = (\<lambda>ch. 32 \<le> byte ch \<and> byte ch < 127)" by (auto simp: readable_def iscntrl_def fun_eq_iff)
  moreover have "sf_version d \<noteq> \<lparr>v_major = 0, v_minor = 0\<rparr> \<longleftrightarrow> v_major (sf_version d) \<noteq> 0 \<or> v_minor (sf_version d) \<noteq> 0"
    by (cases "sf_version d") auto
  ultimately show ?thesis by (simp add: check_ifDescription_iff NAME_SIZE_def)
qed

text \<open>
  An interface description survives its way through the message structure: converted to the fixed-size
  structure and back it is unchanged, for names of up to 255 characters and 16-bit versions.
\<close>

lemma description_round_trip:
  assumes "NUL \<notin> set (if_name d)" and "length (if_name d) < 256"
    and "0 \<le> if_major d" and "if_major d < 2 ^ 16" and "0 \<le> if_minor d" and "if_minor d < 2 ^ 16"
  shows "to_ifDescription (from_ifDescription d) = d \<and> length (sf_name (from_ifDescription d)) = 256"
  using assms to_from_ifDescription [of d] by (simp add: NAME_SIZE_def from_ifDescription_def strncpy_def)

text \<open>
  The command code determines the command: no two commands of the protocol share a code, although
  two of them share a number and differ only in the size that the code includes.
\<close>

lemma command_codes_distinct:
  assumes "dcmd r = dcmd r'" and "\<And>k. r \<noteq> OTHER_COMMAND k" and "\<And>k. r' \<noteq> OTHER_COMMAND k"
  shows "GetDCmdString r = GetDCmdString r'"
  by (rule dcmd_inj [OF assms])

section \<open>From a watch to its pulse\<close>



section \<open>Rejected requests\<close>

text \<open>
  C25. A request with a wrong protocol version, with a wrong length, without any data, or with an unknown
  command is answered with an error and leaves the broker unchanged.
\<close>

theorem dispatch_rejects:
  fixes E c req v sz b
  assumes "req \<noteq> MASTER_PING"
  defines "r \<equiv> dispatch E c req v sz b new_message" and "n \<equiv> fst (readData sz rcvBuffer_size new_message)"
  assumes "(\<exists>d. req = OTHER_COMMAND d) \<or> sz = 0 \<or> n < 4 \<or> \<not> check_version v \<or> \<not> length_ok req n"
  shows "fst (snd r) = b
    \<and> m_returncode (snd (snd r)) \<in> {status_code FNDInternalError, status_code FNDBadFoundationVersion}"
proof (cases "\<exists>d. req = OTHER_COMMAND d")
  case True
  then show ?thesis by (auto simp: r_def dispatch_def prepareResponse_def)
next
  case False
  have "sz = 0 \<Longrightarrow> n < 0" by (simp add: n_def readData_def buffer_read_def rcvBuffer_size_def)
  then show ?thesis
    using False assms(1,4)
    by (auto simp: r_def n_def dispatch_known Let_def case_prod_beta readData_def new_message_def prepareResponse_def)
qed

theorem dispatch_rejects_witness:
  "fst (snd (dispatch example_env 0 (GET_INTERFACELIST 3) \<lparr>v_major = 3, v_minor = 0\<rparr> 260 (example_served None) new_message))
     = example_served None"
  using dispatch_rejects [where req = "GET_INTERFACELIST 3" and v = "\<lparr>v_major = 3, v_minor = 0\<rparr>" and sz = 260 and E = example_env
      and c = 0 and b = "example_served None"]
  by (simp add: check_version_def)

text \<open>
  A list match with a pattern that does not compile stops at an assertion: the response is prepared with
  a null pointer as data.
\<close>

lemma bad_pattern_asserts:
  assumes "\<not> e_regcomp E r" and "4 \<le> sz" and "check_version v"
  shows "m_asserted (snd (snd (dispatch E c (MATCH_INTERFACELIST n r) v sz b new_message)))"
  by (rule dispatch_bad_match [OF assms])

section \<open>Notifications and their pools\<close>

text \<open>
  The life of a pool entry: each change of its state follows the documented graph, the state only moves
  forward (so there are at most four changes), and an entry holds a server id exactly while it monitors
  the end of a server.
\<close>

lemma pool_entry_life:
  assumes "pool_entry_wf e"
    and "(e', True) = np_setState st e \<or> (e', True) = np_setState_server s e"
  shows "pool_step (np_state e) (np_state e') \<and> pool_rank (np_state e) < pool_rank (np_state e') \<and> pool_rank (np_state e') \<le> 5
    \<and> pool_entry_wf e' \<and> np_poolID e' = np_poolID e \<and> np_refCount e' = np_refCount e"
proof -
  have step: "pool_step (np_state e) (np_state e')"
    using assms(2) np_setState_step [of st e e' True] np_setState_server_step [of s e e' True] by auto
  moreover have "pool_rank (np_state e') \<le> 5" by (cases "np_state e'") simp_all
  moreover have "e' = fst (np_setState st e) \<or> e' = fst (np_setState_server s e)" using assms(2) by (metis fst_conv)
  ultimately show ?thesis
    using pool_step_rank np_setState_wf [OF assms(1)] np_setState_server_wf [OF assms(1)] by auto
qed

text \<open>
  Removing a notification id from a connection keeps every other id, but not always removes the id
  itself: the vector does not shrink, so the id that was added last is still found, and a second
  request to clear it is accepted.
\<close>

lemma removed_id_stays:
  "notificationExists (removeNotification i (addNotification i d)) i
    \<and> (j \<noteq> i \<longrightarrow> notificationExists (removeNotification i d) j = notificationExists d j)"
  using removeNotification_last_stays [of "addNotification i d" "mNotificationList d" i]
  by (simp add: removeNotification_other addNotification_def)

end
